(* ===== verification/Prelude.thy ===== *)
theory Prelude
  imports Main "HOL-Library.Word" "HOL-Library.Multiset" "HOL-Library.AList"
begin

text \<open>
  The prelude of the Peerless Server development: the machine-integer types the crates use, the
  fragment of the Rust standard library their code calls (saturating and checked arithmetic, string
  trimming and number parsing, hash maps), the collections of simplification rules the components
  share, the generic lemmas on lists, and two interfaces several components implement: a component
  driven by a sequence of events that keeps an invariant, and a key/value store.
\<close>

unbundle bit_operations_syntax

named_theorems rust_simps \<open>evaluation rules of the modelled standard-library functions\<close>
named_theorems step_simps \<open>defining equations of the components' state-changing operations\<close>

section \<open>Machine integers\<close>

type_synonym u8 = "8 word"
type_synonym u32 = "32 word"
type_synonym u64 = "64 word"
type_synonym i64 = int
type_synonym i32 = int
type_synonym bytes = "8 word list"

text \<open>\<open>u64::MAX\<close>; on the 64-bit targets of the server it is \<open>usize::MAX\<close> too.\<close>

definition u64_max :: nat where
  "u64_max = 2 ^ 64 - 1"

definition u32_max :: nat where
  "u32_max = 2 ^ 32 - 1"

lemma u64_max_bound [simp]: "(n \<le> u64_max) = (n < 2 ^ 64)"
  by (auto simp: u64_max_def)

lemma u32_max_bound [simp]: "(n \<le> u32_max) = (n < 2 ^ 32)"
  by (auto simp: u32_max_def)

text \<open>\<open>saturating_add\<close>, \<open>saturating_mul\<close> and \<open>checked_shl\<close> on words of any width.\<close>

definition saturating_add :: "'a::len word \<Rightarrow> 'a word \<Rightarrow> 'a word" where
  "saturating_add a b = (if unat a + unat b < 2 ^ LENGTH('a) then a + b else - 1)"

definition saturating_mul :: "'a::len word \<Rightarrow> 'a word \<Rightarrow> 'a word" where
  "saturating_mul a b = (if unat a * unat b < 2 ^ LENGTH('a) then a * b else - 1)"

definition checked_shl :: "'a::len word \<Rightarrow> nat \<Rightarrow> 'a word option" where
  "checked_shl a n = (if n < LENGTH('a) then Some (push_bit n a) else None)"

text \<open>\<open>checked_add\<close> and \<open>checked_mul\<close> of \<open>u64\<close> values kept as naturals.\<close>

definition checked_add64 :: "nat \<Rightarrow> nat \<Rightarrow> nat option" where
  "checked_add64 a b = (if a + b < 2 ^ 64 then Some (a + b) else None)"

definition checked_mul64 :: "nat \<Rightarrow> nat \<Rightarrow> nat option" where
  "checked_mul64 a b = (if a * b < 2 ^ 64 then Some (a * b) else None)"

lemma unat_minus_one_eq: "unat (- 1 :: 'a::len word) = 2 ^ LENGTH('a) - 1"
  by (simp add: unsigned_minus_1_eq_mask mask_eq_exp_minus_1)

lemma unat_saturating_add:
  "unat (saturating_add (a :: 'a::len word) b) = min (unat a + unat b) (2 ^ LENGTH('a) - 1)"
proof (cases "unat a + unat b < 2 ^ LENGTH('a)")
  case True
  then have "unat (a + b) = unat a + unat b" using unat_add_lem [of a b] by simp
  with True show ?thesis by (simp only: saturating_add_def if_True)
next
  case False
  then show ?thesis by (simp add: saturating_add_def unat_minus_one_eq)
qed

lemma unat_saturating_mul:
  "unat (saturating_mul (a :: 'a::len word) b) = min (unat a * unat b) (2 ^ LENGTH('a) - 1)"
proof (cases "unat a * unat b < 2 ^ LENGTH('a)")
  case True
  then have "unat (a * b) = unat a * unat b" using unat_mult_lem [of a b] by simp
  with True show ?thesis by (simp only: saturating_mul_def if_True)
next
  case False
  then show ?thesis by (simp add: saturating_mul_def unat_minus_one_eq)
qed

section \<open>Time\<close>

text \<open>
  A \<open>Duration\<close> is its number of nanoseconds, an \<open>Instant\<close> the nanoseconds since a fixed origin.
  The clock is an argument of every operation that reads it.
\<close>

type_synonym duration = nat
type_synonym instant = nat

definition from_millis :: "nat \<Rightarrow> duration" where
  "from_millis ms = ms * 1000000"

definition from_secs :: "nat \<Rightarrow> duration" where
  "from_secs s = s * 1000000000"

definition as_secs :: "duration \<Rightarrow> nat" where
  "as_secs d = d div 1000000000"

definition as_millis :: "duration \<Rightarrow> nat" where
  "as_millis d = d div 1000000"

definition as_micros :: "duration \<Rightarrow> nat" where
  "as_micros d = d div 1000"

lemma as_millis_from_millis [simp]: "as_millis (from_millis n) = n"
  by (simp add: as_millis_def from_millis_def)

lemma from_millis_le [simp]: "from_millis a \<le> from_millis b \<longleftrightarrow> a \<le> b"
  by (simp add: from_millis_def)

section \<open>Strings\<close>

text \<open>
  A Rust \<open>str\<close> is its UTF-8 bytes, one \<open>char\<close> per byte. \<open>str::trim\<close> strips the code points
  with the Unicode property White_Space: the six ASCII ones are single bytes, the others are the
  two- and three-byte encodings listed here. UTF-8 is self-synchronising, so matching an encoding
  at either end of a valid string matches exactly that code point.
\<close>

definition whitespace_encodings :: "string list" where
  "whitespace_encodings =
     map (\<lambda>c. [c]) [CHR 0x09, CHR 0x0A, CHR 0x0B, CHR 0x0C, CHR 0x0D, CHR 0x20] @
     [[CHR 0xC2, CHR 0x85], [CHR 0xC2, CHR 0xA0], [CHR 0xE1, CHR 0x9A, CHR 0x80]] @
     map (\<lambda>c. [CHR 0xE2, CHR 0x80, c])
       [CHR 0x80, CHR 0x81, CHR 0x82, CHR 0x83, CHR 0x84, CHR 0x85, CHR 0x86, CHR 0x87,
        CHR 0x88, CHR 0x89, CHR 0x8A, CHR 0xA8, CHR 0xA9, CHR 0xAF] @
     [[CHR 0xE2, CHR 0x81, CHR 0x9F], [CHR 0xE3, CHR 0x80, CHR 0x80]]"

definition is_prefix :: "'a list \<Rightarrow> 'a list \<Rightarrow> bool" where
  "is_prefix p s \<longleftrightarrow> take (length p) s = p"

definition strip_prefix :: "string \<Rightarrow> string \<Rightarrow> string option" where
  "strip_prefix p s = (if is_prefix p s then Some (drop (length p) s) else None)"

lemma is_prefix_append [simp]: "is_prefix p (p @ s)"
  by (simp add: is_prefix_def)

lemma strip_prefix_append [simp]: "strip_prefix p (p @ s) = Some s"
  by (simp add: strip_prefix_def)

lemma whitespace_nonempty: "w \<in> set whitespace_encodings \<Longrightarrow> w \<noteq> []"
  by (auto simp: whitespace_encodings_def)

function trim_start_of :: "string list \<Rightarrow> string \<Rightarrow> string" where
  "trim_start_of ws s =
     (case List.find (\<lambda>w. w \<noteq> [] \<and> is_prefix w s) ws of
        None \<Rightarrow> s
      | Some w \<Rightarrow> trim_start_of ws (drop (length w) s))"
  by pat_completeness auto
termination
proof (relation "measure (\<lambda>(ws, s). length s)", goal_cases)
  case (2 ws s w)
  then have "w \<noteq> []" and "take (length w) s = w"
    by (auto simp: find_Some_iff is_prefix_def)
  then have "s \<noteq> []" by auto
  with \<open>w \<noteq> []\<close> show ?case by (cases s; cases w) auto
qed simp

declare trim_start_of.simps [simp del]

definition trim_start :: "string \<Rightarrow> string" where
  "trim_start s = trim_start_of whitespace_encodings s"

definition trim_end :: "string \<Rightarrow> string" where
  "trim_end s = rev (trim_start_of (map rev whitespace_encodings) (rev s))"

definition trim :: "string \<Rightarrow> string" where
  "trim s = trim_end (trim_start s)"

text \<open>A string that neither starts nor ends with a byte of a whitespace encoding is left alone.\<close>

lemma is_prefix_Cons_iff: "is_prefix (w # ws) (c # s) \<longleftrightarrow> w = c \<and> is_prefix ws s"
  by (auto simp: is_prefix_def)

lemma is_prefix_Nil_right: "is_prefix w [] \<longleftrightarrow> w = []"
  by (auto simp: is_prefix_def)

lemma trim_start_of_idle:
  assumes "\<And>w. w \<in> set ws \<Longrightarrow> w \<noteq> [] \<Longrightarrow> s \<noteq> [] \<Longrightarrow> hd w \<noteq> hd s"
  shows "trim_start_of ws s = s"
proof -
  have "List.find (\<lambda>w. w \<noteq> [] \<and> is_prefix w s) ws = None"
    unfolding find_None_iff
  proof clarify
    fix w assume w: "w \<in> set ws" "w \<noteq> []" "is_prefix w s"
    obtain c w' where c: "w = c # w'" using w(2) by (meson neq_Nil_conv)
    with w(3) obtain d s' where "s = d # s'"
      by (cases s) (auto simp: is_prefix_Nil_right)
    with c assms [OF w(1,2)] w(3) show False by (auto simp: is_prefix_Cons_iff)
  qed
  then show ?thesis by (simp add: trim_start_of.simps [of ws s])
qed

definition whitespace_bytes :: "char set" where
  "whitespace_bytes = hd ` set whitespace_encodings \<union> last ` set whitespace_encodings"

lemma trim_idle:
  assumes "s \<noteq> [] \<Longrightarrow> hd s \<notin> whitespace_bytes" and "s \<noteq> [] \<Longrightarrow> last s \<notin> whitespace_bytes"
  shows "trim s = s"
proof -
  have "trim_start s = s"
    unfolding trim_start_def
  proof (rule trim_start_of_idle)
    fix w assume "w \<in> set whitespace_encodings" "s \<noteq> []"
    with assms(1) show "hd w \<noteq> hd s" unfolding whitespace_bytes_def by (metis UnI1 imageI)
  qed
  moreover have "trim_start_of (map rev whitespace_encodings) (rev s) = rev s"
  proof (rule trim_start_of_idle)
    fix w assume "w \<in> set (map rev whitespace_encodings)" "w \<noteq> []" "rev s \<noteq> []"
    then obtain v where v: "v \<in> set whitespace_encodings" "w = rev v" by auto
    then have "hd w = last v" by (simp add: hd_rev)
    with v assms(2) \<open>rev s \<noteq> []\<close> show "hd w \<noteq> hd (rev s)"
      unfolding whitespace_bytes_def by (metis UnI2 hd_rev imageI rev_is_Nil_conv)
  qed
  ultimately show ?thesis by (simp add: trim_def trim_end_def)
qed

text \<open>\<open>str::split\<close> on one character: always at least one part.\<close>

fun split_on :: "char \<Rightarrow> string \<Rightarrow> string list" where
  "split_on c [] = [[]]"
| "split_on c (x # xs) =
     (if x = c then [] # split_on c xs
      else (case split_on c xs of [] \<Rightarrow> [[x]] | p # ps \<Rightarrow> (x # p) # ps))"

lemma split_on_nonempty [simp]: "split_on c s \<noteq> []"
  by (induction s) (auto split: list.splits)

lemma split_on_none: "c \<notin> set s \<Longrightarrow> split_on c s = [s]"
  by (induction s) auto

lemma split_on_sep: "c \<notin> set s \<Longrightarrow> split_on c (s @ c # t) = s # split_on c t"
  by (induction s) auto

text \<open>
  \<open>str::parse\<close> for an unsigned integer type with maximum \<open>m\<close>: an optional \<open>+\<close>, then at least
  one decimal digit and nothing else; a value above \<open>m\<close> is an error.
\<close>

definition digit_value :: "char \<Rightarrow> nat option" where
  "digit_value c =
     (if 48 \<le> (of_char c :: nat) \<and> (of_char c :: nat) \<le> 57 then Some (of_char c - 48) else None)"

fun parse_digits :: "nat \<Rightarrow> string \<Rightarrow> nat option" where
  "parse_digits acc [] = Some acc"
| "parse_digits acc (c # cs) =
     (case digit_value c of None \<Rightarrow> None | Some d \<Rightarrow> parse_digits (10 * acc + d) cs)"

definition parse_unsigned :: "nat \<Rightarrow> string \<Rightarrow> nat option" where
  "parse_unsigned m s =
     (let ds = (case s of c # cs \<Rightarrow> if c = CHR ''+'' then cs else s | [] \<Rightarrow> s)
      in if ds = [] then None
         else case parse_digits 0 ds of
                None \<Rightarrow> None
              | Some n \<Rightarrow> if n \<le> m then Some n else None)"

lemma parse_unsigned_bound: "parse_unsigned m s = Some n \<Longrightarrow> n \<le> m"
  by (auto simp: parse_unsigned_def Let_def split: if_splits option.splits list.splits)

text \<open>\<open>Display\<close> of an unsigned integer: its decimal digits without leading zeros.\<close>

definition digit_char :: "nat \<Rightarrow> char" where
  "digit_char d = char_of (48 + d)"

fun show_nat :: "nat \<Rightarrow> string" where
  "show_nat n = (if n < 10 then [digit_char n] else show_nat (n div 10) @ [digit_char (n mod 10)])"

declare show_nat.simps [simp del]

lemma digit_value_digit_char [simp]: "d < 10 \<Longrightarrow> digit_value (digit_char d) = Some d"
  by (simp add: digit_value_def digit_char_def)

lemma parse_digits_append:
  "parse_digits acc (xs @ ys) =
     (case parse_digits acc xs of None \<Rightarrow> None | Some a \<Rightarrow> parse_digits a ys)"
  by (induction xs arbitrary: acc) (auto split: option.splits)

lemma parse_digits_show_nat: "parse_digits 0 (show_nat n) = Some n"
proof (induction n rule: show_nat.induct)
  case (1 n)
  show ?case
  proof (cases "n < 10")
    case True
    then show ?thesis by (simp add: show_nat.simps [of n])
  next
    case False
    then show ?thesis
      using "1.IH" by (simp add: show_nat.simps [of n] parse_digits_append)
  qed
qed

lemma show_nat_nonempty [simp]: "show_nat n \<noteq> []"
  by (simp add: show_nat.simps [of n])

lemma show_nat_digits: "c \<in> set (show_nat n) \<Longrightarrow> \<exists>d < 10. c = digit_char d"
proof (induction n rule: show_nat.induct)
  case (1 n)
  then show ?case
    by (cases "n < 10") (auto simp: show_nat.simps [of n] intro: exI [of _ "n mod 10"])
qed

lemma digit_char_code: "d < 10 \<Longrightarrow> (of_char (digit_char d) :: nat) = 48 + d"
  by (simp add: digit_char_def)

lemma show_nat_char_code: "c \<in> set (show_nat n) \<Longrightarrow> 48 \<le> (of_char c :: nat) \<and> (of_char c :: nat) \<le> 57"
  by (auto dest!: show_nat_digits simp: digit_char_code)

lemma dash_notin_show_nat: "CHR ''-'' \<notin> set (show_nat n)"
  using show_nat_char_code [of "CHR ''-''" n] by auto

lemma parse_unsigned_show_nat: "n \<le> m \<Longrightarrow> parse_unsigned m (show_nat n) = Some n"
proof -
  assume "n \<le> m"
  obtain c cs where s: "show_nat n = c # cs" by (cases "show_nat n") auto
  then have "c \<noteq> CHR ''+''" using show_nat_char_code [of c n] by auto
  with s \<open>n \<le> m\<close> parse_digits_show_nat [of n] show ?thesis
    by (simp add: parse_unsigned_def)
qed

lemma whitespace_bytes_code:
  "c \<in> whitespace_bytes \<Longrightarrow> (of_char c :: nat) \<le> 32 \<or> 128 \<le> (of_char c :: nat)"
  by (auto simp: whitespace_bytes_def whitespace_encodings_def)

lemma trim_show_nat [simp]: "trim (show_nat n) = show_nat n"
proof (rule trim_idle)
  show "hd (show_nat n) \<notin> whitespace_bytes"
    using show_nat_char_code [of "hd (show_nat n)" n] whitespace_bytes_code by fastforce
  show "last (show_nat n) \<notin> whitespace_bytes"
    using show_nat_char_code [of "last (show_nat n)" n] whitespace_bytes_code by fastforce
qed

text \<open>The lower-case hexadecimal digits of a byte string, two for each byte.\<close>

definition hex_lower :: "nat \<Rightarrow> char" where
  "hex_lower d = (if d < 10 then char_of (48 + d) else char_of (87 + d))"

definition hex_digest :: "bytes \<Rightarrow> string" where
  "hex_digest digest = concat (map (\<lambda>b. [hex_lower (unat b div 16), hex_lower (unat b mod 16)]) digest)"

section \<open>Lists\<close>

lemma take_drop_split:
  "m \<le> n \<Longrightarrow> take m (drop i xs) @ take (n - m) (drop (i + m) xs) = take n (drop i xs)"
  by (metis add.commute drop_drop le_add_diff_inverse take_add)

lemma length_filter_remove1_nth:
  "i < length xs \<Longrightarrow> length (take i xs @ drop (Suc i) xs) = length xs - 1"
  by simp

lemma mset_take_drop_Suc:
  "i < length xs \<Longrightarrow> add_mset (xs ! i) (mset (take i xs @ drop (Suc i) xs)) = mset xs"
  by (metis id_take_nth_drop mset.simps(2) mset_append union_mset_add_mset_right)

section \<open>Hash maps\<close>

text \<open>
  A \<open>HashMap\<close> is an association list with distinct keys. The order of the list stands for the
  iteration order, which Rust leaves unspecified: theorems hold for every list, so for every order.
\<close>

type_synonym ('k, 'v) hash_map = "('k \<times> 'v) list"

definition hm_invar :: "('k, 'v) hash_map \<Rightarrow> bool" where
  "hm_invar m \<longleftrightarrow> distinct (map fst m)"

definition hm_get :: "('k, 'v) hash_map \<Rightarrow> 'k \<Rightarrow> 'v option" where
  "hm_get m k = map_of m k"

definition hm_insert :: "'k \<Rightarrow> 'v \<Rightarrow> ('k, 'v) hash_map \<Rightarrow> ('k, 'v) hash_map" where
  "hm_insert k v m = AList.update k v m"

definition hm_remove :: "'k \<Rightarrow> ('k, 'v) hash_map \<Rightarrow> ('k, 'v) hash_map" where
  "hm_remove k m = filter (\<lambda>kv. fst kv \<noteq> k) m"

definition hm_values :: "('k, 'v) hash_map \<Rightarrow> 'v list" where
  "hm_values m = map snd m"

definition hm_keys :: "('k, 'v) hash_map \<Rightarrow> 'k list" where
  "hm_keys m = map fst m"

text \<open>The interface of a key/value store, and what its clients get from its laws.\<close>

locale key_value_store =
  fixes get :: "'m \<Rightarrow> 'k \<Rightarrow> 'v option"
    and put :: "'k \<Rightarrow> 'v \<Rightarrow> 'm \<Rightarrow> 'm"
    and delete :: "'k \<Rightarrow> 'm \<Rightarrow> 'm"
    and elems :: "'m \<Rightarrow> 'v list"
    and invar :: "'m \<Rightarrow> bool"
  assumes get_put: "invar m \<Longrightarrow> get (put k v m) = (get m)(k \<mapsto> v)"
    and get_delete: "invar m \<Longrightarrow> get (delete k m) = (get m)(k := None)"
    and elems_get: "invar m \<Longrightarrow> v \<in> set (elems m) \<longleftrightarrow> (\<exists>k. get m k = Some v)"
    and invar_put: "invar m \<Longrightarrow> invar (put k v m)"
    and invar_delete: "invar m \<Longrightarrow> invar (delete k m)"
begin

lemma get_put_same: "invar m \<Longrightarrow> get (put k v m) k = Some v"
  by (simp add: get_put)

lemma get_put_other: "invar m \<Longrightarrow> k' \<noteq> k \<Longrightarrow> get (put k v m) k' = get m k'"
  by (simp add: get_put)

lemma get_delete_same: "invar m \<Longrightarrow> get (delete k m) k = None"
  by (simp add: get_delete)

lemma get_delete_other: "invar m \<Longrightarrow> k' \<noteq> k \<Longrightarrow> get (delete k m) k' = get m k'"
  by (simp add: get_delete)

lemma delete_after_put: "invar m \<Longrightarrow> get m k = None \<Longrightarrow> get (delete k (put k v m)) = get m"
  by (auto simp: get_put get_delete invar_put)

lemma elems_put: "invar m \<Longrightarrow> set (elems (put k v m)) \<subseteq> insert v (set (elems m))"
  by (auto simp: elems_get invar_put get_put split: if_splits)

lemma elems_delete: "invar m \<Longrightarrow> set (elems (delete k m)) \<subseteq> set (elems m)"
  by (auto simp: elems_get invar_delete get_delete split: if_splits)

end

lemma hm_get_remove: "hm_get (hm_remove k m) = (hm_get m)(k := None)"
  by (induction m) (auto simp: hm_get_def hm_remove_def fun_eq_iff)

lemma hm_get_insert: "hm_get (hm_insert k v m) = (hm_get m)(k \<mapsto> v)"
  by (simp add: hm_get_def hm_insert_def update_conv' fun_eq_iff)

lemma hm_invar_insert: "hm_invar m \<Longrightarrow> hm_invar (hm_insert k v m)"
  by (simp add: hm_invar_def hm_insert_def distinct_update)

lemma hm_invar_remove: "hm_invar m \<Longrightarrow> hm_invar (hm_remove k m)"
  by (simp add: hm_invar_def hm_remove_def distinct_map_filter)

lemma hm_get_Nil [simp]: "hm_get [] k = None"
  by (simp add: hm_get_def)

lemma hm_invar_Nil [simp]: "hm_invar []"
  by (simp add: hm_invar_def)

interpretation hm: key_value_store hm_get hm_insert hm_remove hm_values hm_invar
proof (unfold_locales, goal_cases)
  case (3 m v)
  then show ?case
    by (force simp: hm_values_def hm_get_def hm_invar_def)
qed (simp_all add: hm_get_remove hm_get_insert hm_invar_insert hm_invar_remove)

lemma hm_keys_get: "k \<in> set (hm_keys m) \<longleftrightarrow> hm_get m k \<noteq> None"
  by (simp add: hm_keys_def hm_get_def map_of_eq_None_iff)

lemma hm_values_get: "hm_invar m \<Longrightarrow> v \<in> set (hm_values m) \<longleftrightarrow> (\<exists>k. hm_get m k = Some v)"
  by (rule hm.elems_get)

section \<open>Components driven by events\<close>

text \<open>
  A component whose operations are modelled as one step function keeps an invariant along every
  sequence of operations once it holds at the start and each operation keeps it.
\<close>

locale event_machine =
  fixes init :: "'s"
    and step :: "'s \<Rightarrow> 'e \<Rightarrow> 's"
    and inv :: "'s \<Rightarrow> bool"
  assumes inv_init: "inv init"
    and inv_step: "inv s \<Longrightarrow> inv (step s e)"
begin

lemma inv_run_from: "inv s \<Longrightarrow> inv (foldl step s es)"
  by (induction es arbitrary: s) (auto intro: inv_step)

lemma inv_run: "inv (foldl step init es)"
  by (rule inv_run_from [OF inv_init])

end

end
