(* ===== verification/Chunk_Cache.thy ===== *)
theory Chunk_Cache
  imports Prelude
begin

text \<open>
  The errors of the stream crate (\<open>crates/stream/src/lib.rs\<close>) and its chunk cache
  (\<open>crates/stream/src/cache.rs\<close>). The cache wraps \<open>moka\<close>, which is not part of the repository:
  its operations are the fields of \<open>moka_ops\<close>, arguments of the model, and \<open>moka_sound\<close> states the
  documented behaviour the server relies on (an entry is what was last inserted or has been
  evicted; \<open>try_get_with\<close> returns the entry, or runs the future and stores its success).
\<close>

section \<open>Errors\<close>

text \<open>
  Telegram's invocation errors come from the client library; the server inspects their kind and
  their display text only.
\<close>

datatype error_kind =
  KFileReferenceExpired | KFloodWait nat | KRpc string | KMigration i32 | KNetwork | KTransfer | KOther

record invocation_error =
  err_kind :: error_kind
  err_text :: string

text \<open>The errors of the database crate, with the text of the driver's errors.\<close>

datatype db_error =
  DbDatabase string | DbPool string | DbMigration string | DbRow string
| DbNotFound string | DbUnauthorized string | DbValidation string

datatype stream_error =
  FileReferenceExpired
| FloodWaitError nat
| AllWorkersUnavailable
| UnsupportedCdnRedirect
| ChunkFetchFailed string
| Connect string
| Telegram invocation_error
| Db db_error
| TrackNotFound i32
| NoMediaDocument i32
| InvalidRange string

section \<open>The cache\<close>

definition CHUNK_SIZE :: nat where
  "CHUNK_SIZE = 512 * 1024"

lemma CHUNK_SIZE_pos [simp]: "0 < CHUNK_SIZE"
  by (simp add: CHUNK_SIZE_def)

record chunk_key =
  ck_document_id :: i64
  ck_chunk_index :: nat

definition ChunkKey_new :: "i64 \<Rightarrow> nat \<Rightarrow> chunk_key" where
  "ChunkKey_new document_id chunk_index =
     \<lparr>ck_document_id = document_id, ck_chunk_index = chunk_index\<rparr>"

text \<open>
  The operations of the \<open>moka\<close> cache on its state \<open>'c\<close>; the future of \<open>try_get_with\<close> is a
  computation on the rest \<open>'p\<close> of the program's state.
\<close>

record ('c, 'p) moka_ops =
  moka_get :: "'c \<Rightarrow> chunk_key \<Rightarrow> bytes option"
  moka_insert :: "chunk_key \<Rightarrow> bytes \<Rightarrow> 'c \<Rightarrow> 'c"
  moka_try_get_with ::
    "chunk_key \<Rightarrow> ('p \<Rightarrow> (stream_error + bytes) \<times> 'p) \<Rightarrow> 'c \<times> 'p \<Rightarrow>
     (stream_error + bytes) \<times> 'c \<times> 'p"

record chunk_cache_metrics =
  cc_hits :: u64
  cc_misses :: u64

record 'c chunk_cache =
  cc_cache :: 'c
  cc_metrics :: chunk_cache_metrics

definition ChunkCache_new :: "'c \<Rightarrow> 'c chunk_cache" where
  "ChunkCache_new built = \<lparr>cc_cache = built, cc_metrics = \<lparr>cc_hits = 0, cc_misses = 0\<rparr>\<rparr>"

definition get_by_key ::
  "('c, 'p) moka_ops \<Rightarrow> chunk_key \<Rightarrow> 'c chunk_cache \<Rightarrow> bytes option \<times> 'c chunk_cache" where
  "get_by_key ops key cc =
     (let v = moka_get ops (cc_cache cc) key; m = cc_metrics cc
      in if v \<noteq> None
         then (v, cc\<lparr>cc_metrics := m\<lparr>cc_hits := cc_hits m + 1\<rparr>\<rparr>)
         else (v, cc\<lparr>cc_metrics := m\<lparr>cc_misses := cc_misses m + 1\<rparr>\<rparr>))"

definition cache_get ::
  "('c, 'p) moka_ops \<Rightarrow> i64 \<Rightarrow> nat \<Rightarrow> 'c chunk_cache \<Rightarrow> bytes option \<times> 'c chunk_cache" where
  "cache_get ops document_id chunk_index cc =
     get_by_key ops (ChunkKey_new document_id chunk_index) cc"

definition insert_by_key ::
  "('c, 'p) moka_ops \<Rightarrow> chunk_key \<Rightarrow> bytes \<Rightarrow> 'c chunk_cache \<Rightarrow> 'c chunk_cache" where
  "insert_by_key ops key data cc = cc\<lparr>cc_cache := moka_insert ops key data (cc_cache cc)\<rparr>"

definition cache_insert ::
  "('c, 'p) moka_ops \<Rightarrow> i64 \<Rightarrow> nat \<Rightarrow> bytes \<Rightarrow> 'c chunk_cache \<Rightarrow> 'c chunk_cache" where
  "cache_insert ops document_id chunk_index data cc =
     insert_by_key ops (ChunkKey_new document_id chunk_index) data cc"

definition get_or_fetch ::
  "('c, 'p) moka_ops \<Rightarrow> i64 \<Rightarrow> nat \<Rightarrow> ('p \<Rightarrow> (stream_error + bytes) \<times> 'p) \<Rightarrow>
   'c chunk_cache \<times> 'p \<Rightarrow> (stream_error + bytes) \<times> 'c chunk_cache \<times> 'p" where
  "get_or_fetch ops document_id chunk_index fetch s =
     (let (cc, p) = s;
          key = ChunkKey_new document_id chunk_index;
          (v, cc') = get_by_key ops key cc
      in case v of
           Some value \<Rightarrow> (Inr value, cc', p)
         | None \<Rightarrow>
             (let (r, c'', p') = moka_try_get_with ops key fetch (cc_cache cc', p)
              in (r, cc'\<lparr>cc_cache := c''\<rparr>, p')))"

definition metrics_snapshot :: "'c chunk_cache \<Rightarrow> u64 \<times> u64" where
  "metrics_snapshot cc = (cc_hits (cc_metrics cc), cc_misses (cc_metrics cc))"

section \<open>What the server relies on\<close>

definition moka_sound :: "('c, 'p) moka_ops \<Rightarrow> bool" where
  "moka_sound ops \<longleftrightarrow>
     (\<forall>key v c k w. moka_get ops (moka_insert ops key v c) k = Some w \<longrightarrow>
        (if k = key then w = v else moka_get ops c k = Some w)) \<and>
     (\<forall>key fetch c p.
        moka_try_get_with ops key fetch (c, p) =
          (case moka_get ops c key of
             Some v \<Rightarrow> (Inr v, c, p)
           | None \<Rightarrow> (case fetch p of
                        (Inl e, p') \<Rightarrow> (Inl e, c, p')
                      | (Inr v, p') \<Rightarrow> (Inr v, moka_insert ops key v c, p'))))"

text \<open>An unbounded map is such a cache, so the contract can be met.\<close>

definition map_moka :: "(chunk_key \<rightharpoonup> bytes, 'p) moka_ops" where
  "map_moka =
     \<lparr>moka_get = (\<lambda>c k. c k),
      moka_insert = (\<lambda>k v c. c(k \<mapsto> v)),
      moka_try_get_with = (\<lambda>k fetch (c, p).
        case c k of
          Some v \<Rightarrow> (Inr v, c, p)
        | None \<Rightarrow> (case fetch p of
                     (Inl e, p') \<Rightarrow> (Inl e, c, p')
                   | (Inr v, p') \<Rightarrow> (Inr v, c(k \<mapsto> v), p')))\<rparr>"

lemma map_moka_sound: "moka_sound map_moka"
  by (auto simp: moka_sound_def map_moka_def split: option.splits sum.splits prod.splits)

text \<open>
  The chunk with index \<open>k\<close> of a file, and a cache that holds only true chunks of the documents
  \<open>files\<close>.
\<close>

definition chunk_of :: "bytes \<Rightarrow> nat \<Rightarrow> bytes" where
  "chunk_of file k = take CHUNK_SIZE (drop (k * CHUNK_SIZE) file)"

definition coherent :: "('c, 'p) moka_ops \<Rightarrow> (i64 \<Rightarrow> bytes) \<Rightarrow> 'c chunk_cache \<Rightarrow> bool" where
  "coherent ops files cc \<longleftrightarrow>
     (\<forall>key v. moka_get ops (cc_cache cc) key = Some v \<longrightarrow>
        v = chunk_of (files (ck_document_id key)) (ck_chunk_index key))"

lemma moka_sound_insert:
  "moka_sound ops \<Longrightarrow> moka_get ops (moka_insert ops key v c) k = Some w \<Longrightarrow>
     (if k = key then w = v else moka_get ops c k = Some w)"
  unfolding moka_sound_def by blast

lemma moka_sound_try_get_with:
  "moka_sound ops \<Longrightarrow> moka_try_get_with ops key fetch (c, p) =
     (case moka_get ops c key of
        Some v \<Rightarrow> (Inr v, c, p)
      | None \<Rightarrow> (case fetch p of
                   (Inl e, p') \<Rightarrow> (Inl e, c, p')
                 | (Inr v, p') \<Rightarrow> (Inr v, moka_insert ops key v c, p')))"
  unfolding moka_sound_def by blast

text \<open>Both counters of one lookup: exactly one of them moves.\<close>

lemma get_by_key_counts:
  "get_by_key ops key cc = (v, cc') \<Longrightarrow>
     cc_cache cc' = cc_cache cc \<and>
     cc_hits (cc_metrics cc') + cc_misses (cc_metrics cc') =
       cc_hits (cc_metrics cc) + cc_misses (cc_metrics cc) + 1"
  by (auto simp: get_by_key_def Let_def split: if_splits)

text \<open>The result of \<open>get_or_fetch\<close> in one equation, under the contract of the cache.\<close>

lemma get_or_fetch_sound:
  assumes "moka_sound ops"
  shows "get_or_fetch ops doc k fetch (cc, p) =
    (let key = ChunkKey_new doc k; cc' = snd (get_by_key ops key cc)
     in case moka_get ops (cc_cache cc) key of
          Some v \<Rightarrow> (Inr v, cc', p)
        | None \<Rightarrow> (case fetch p of
                     (Inl e, p') \<Rightarrow> (Inl e, cc', p')
                   | (Inr v, p') \<Rightarrow> (Inr v, cc'\<lparr>cc_cache := moka_insert ops key v (cc_cache cc)\<rparr>, p')))"
  by (auto simp: get_or_fetch_def get_by_key_def Let_def moka_sound_try_get_with [OF assms]
      split: option.splits sum.splits prod.splits)

lemma coherent_cong: "cc_cache cc' = cc_cache cc \<Longrightarrow> coherent ops files cc' = coherent ops files cc"
  by (simp add: coherent_def)

lemma coherent_insert:
  assumes "moka_sound ops" and "coherent ops files cc"
    and "v = chunk_of (files (ck_document_id key)) (ck_chunk_index key)"
  shows "coherent ops files (cc\<lparr>cc_cache := moka_insert ops key v (cc_cache cc)\<rparr>)"
  using assms by (auto simp: coherent_def dest!: moka_sound_insert split: if_splits)

lemma cache_of_get_by_key [simp]: "cc_cache (snd (get_by_key ops key cc)) = cc_cache cc"
  by (simp add: get_by_key_def Let_def)

text \<open>
  A fetch is exact when its success is the requested chunk. Through a coherent cache it stays
  exact, and the cache stays coherent.
\<close>

lemma get_or_fetch_coherent:
  assumes ops: "moka_sound ops" and coh: "coherent ops files cc"
    and exact: "\<And>b p'. fetch p = (Inr b, p') \<Longrightarrow> b = chunk_of (files doc) k"
    and res: "get_or_fetch ops doc k fetch (cc, p) = (r, cc', p')"
  shows "coherent ops files cc' \<and> (\<forall>b. r = Inr b \<longrightarrow> b = chunk_of (files doc) k)"
proof (cases "moka_get ops (cc_cache cc) (ChunkKey_new doc k)")
  case (Some v)
  with coh have "v = chunk_of (files doc) k"
    by (force simp: coherent_def ChunkKey_new_def)
  with Some res coh show ?thesis
    by (auto simp: get_or_fetch_sound [OF ops] Let_def coherent_def)
next
  case None
  obtain f q where f: "fetch p = (f, q)" by (cases "fetch p")
  show ?thesis
  proof (cases f)
    case (Inl e)
    with None res f coh show ?thesis
      by (auto simp: get_or_fetch_sound [OF ops] Let_def coherent_def)
  next
    case (Inr v)
    with exact f have v: "v = chunk_of (files doc) k" by simp
    have "coherent ops files (snd (get_by_key ops (ChunkKey_new doc k) cc))"
      using coh by (simp add: coherent_def)
    from coherent_insert [OF ops this, of v "ChunkKey_new doc k"] v None res f Inr show ?thesis
      by (auto simp: get_or_fetch_sound [OF ops] Let_def ChunkKey_new_def)
  qed
qed

end
