(* ===== verification/Byte_Range.thy ===== *)
theory Byte_Range
  imports Chunk_Cache
begin

text \<open>
  HTTP byte ranges, \<open>ByteRange\<close> of \<open>crates/stream/src/pipe.rs\<close>. Positions are \<open>u64\<close> values kept as
  naturals: \<open>saturating_sub\<close> is natural subtraction, the one addition that can overflow is written
  out modulo \<open>2 ^ 64\<close> (release builds wrap), and parsing refuses values above \<open>u64::MAX\<close>.
\<close>

record byte_range =
  br_start :: nat
  br_end :: nat

definition ByteRange_new :: "nat \<Rightarrow> nat \<Rightarrow> byte_range" where
  "ByteRange_new s e = \<lparr>br_start = s, br_end = e\<rparr>"

definition range_length :: "byte_range \<Rightarrow> nat" where
  "range_length r = (br_end r - br_start r + 1) mod 2 ^ 64"

definition parse_num :: "string \<Rightarrow> string \<Rightarrow> stream_error + nat" where
  "parse_num header s =
     (case parse_unsigned u64_max s of Some n \<Rightarrow> Inr n | None \<Rightarrow> Inl (InvalidRange header))"

definition range_bounds :: "string \<Rightarrow> nat \<Rightarrow> string \<Rightarrow> string \<Rightarrow> stream_error + (nat \<times> nat)" where
  "range_bounds header file_size start_str end_str =
     (if start_str = [] then
        (case parse_num header end_str of
           Inl e \<Rightarrow> Inl e
         | Inr suffix \<Rightarrow> Inr (file_size - suffix, file_size - 1))
      else if end_str = [] then
        (case parse_num header start_str of
           Inl e \<Rightarrow> Inl e
         | Inr s \<Rightarrow> Inr (s, file_size - 1))
      else
        (case parse_num header start_str of
           Inl e \<Rightarrow> Inl e
         | Inr s \<Rightarrow> (case parse_num header end_str of
                       Inl e \<Rightarrow> Inl e
                     | Inr e \<Rightarrow> Inr (s, e))))"

definition ByteRange_parse :: "string \<Rightarrow> nat \<Rightarrow> stream_error + byte_range" where
  "ByteRange_parse header file_size =
     (let s0 = trim header;
          s = (case strip_prefix ''bytes='' s0 of Some t \<Rightarrow> t | None \<Rightarrow> s0);
          parts = split_on CHR ''-'' s
      in if length parts \<noteq> 2 then Inl (InvalidRange (''Malformed range: '' @ header))
         else
           case range_bounds header file_size (trim (parts ! 0)) (trim (parts ! 1)) of
             Inl e \<Rightarrow> Inl e
           | Inr (start, end) \<Rightarrow>
               if start > end \<or> start \<ge> file_size
               then Inl (InvalidRange (''Range out of bounds: start='' @ show_nat start @
                      '', end='' @ show_nat end @ '', file_size='' @ show_nat file_size))
               else Inr \<lparr>br_start = start, br_end = min end (file_size - 1)\<rparr>)"

section \<open>Accepted ranges lie inside the file\<close>

lemma ByteRange_parse_in_file:
  assumes "ByteRange_parse header file_size = Inr r"
  shows "br_start r \<le> br_end r \<and> br_end r < file_size"
  using assms by (auto simp: ByteRange_parse_def Let_def split: if_splits sum.splits)

lemma ByteRange_parse_error: "ByteRange_parse header file_size = Inl e \<Longrightarrow> \<exists>m. e = InvalidRange m"
  by (auto simp: ByteRange_parse_def Let_def range_bounds_def parse_num_def
      split: if_splits sum.splits option.splits prod.splits)

section \<open>The three forms of a range header\<close>

lemma trim_plain:
  "s \<noteq> [] \<Longrightarrow> (\<And>c. c \<in> set s \<Longrightarrow> 33 \<le> (of_char c :: nat) \<and> (of_char c :: nat) < 128) \<Longrightarrow> trim s = s"
proof (rule trim_idle)
  assume ne: "s \<noteq> []" and p: "\<And>c. c \<in> set s \<Longrightarrow> 33 \<le> (of_char c :: nat) \<and> (of_char c :: nat) < 128"
  from ne have "hd s \<in> set s" "last s \<in> set s" by auto
  then show "hd s \<notin> whitespace_bytes" "last s \<notin> whitespace_bytes"
    using p whitespace_bytes_code by (metis leD not_less_eq_eq numeral_eq_Suc pred_numeral_simps(3))+
qed

definition range_header :: "string \<Rightarrow> string \<Rightarrow> string" where
  "range_header a b = ''bytes='' @ a @ ''-'' @ b"

definition plain :: "string \<Rightarrow> bool" where
  "plain s \<longleftrightarrow> (\<forall>c \<in> set s. 33 \<le> (of_char c :: nat) \<and> (of_char c :: nat) < 128)"

lemma plain_show_nat: "plain (show_nat n)"
  by (auto simp: plain_def dest: show_nat_char_code)

lemma trim_range_header: "plain a \<Longrightarrow> plain b \<Longrightarrow> trim (range_header a b) = range_header a b"
  by (rule trim_plain) (auto simp: range_header_def plain_def)

lemma trim_Nil [simp]: "trim [] = []"
  by (rule trim_idle) auto

lemma trim_plain' : "plain s \<Longrightarrow> trim s = s"
  by (cases "s = []") (auto simp: plain_def intro: trim_plain)

lemma ByteRange_parse_header:
  assumes "plain a" "plain b" "CHR ''-'' \<notin> set a" "CHR ''-'' \<notin> set b"
  shows "ByteRange_parse (range_header a b) n =
    (case range_bounds (range_header a b) n a b of
       Inl e \<Rightarrow> Inl e
     | Inr (start, end) \<Rightarrow>
         if start > end \<or> start \<ge> n
         then Inl (InvalidRange (''Range out of bounds: start='' @ show_nat start @
                '', end='' @ show_nat end @ '', file_size='' @ show_nat n))
         else Inr \<lparr>br_start = start, br_end = min end (n - 1)\<rparr>)"
proof -
  have strip: "strip_prefix ''bytes='' (range_header a b) = Some (a @ CHR ''-'' # b)"
    unfolding range_header_def by (subst strip_prefix_append) simp
  have "split_on CHR ''-'' (a @ CHR ''-'' # b) = [a, b]"
    by (simp add: split_on_sep split_on_none assms)
  then show ?thesis
    using assms by (simp add: ByteRange_parse_def trim_range_header strip trim_plain' Let_def)
qed

lemma parse_num_show_nat: "n < 2 ^ 64 \<Longrightarrow> parse_num h (show_nat n) = Inr n"
  by (simp add: parse_num_def parse_unsigned_show_nat)

section \<open>Properties\<close>

lemma range_bounds_nonempty:
  "a \<noteq> [] \<Longrightarrow> b \<noteq> [] \<Longrightarrow> range_bounds h n a b =
     (case parse_num h a of Inl e \<Rightarrow> Inl e
      | Inr s \<Rightarrow> (case parse_num h b of Inl e \<Rightarrow> Inl e | Inr e \<Rightarrow> Inr (s, e)))"
  "a \<noteq> [] \<Longrightarrow> range_bounds h n a [] =
     (case parse_num h a of Inl e \<Rightarrow> Inl e | Inr s \<Rightarrow> Inr (s, n - 1))"
  by (simp_all add: range_bounds_def)

lemma plain_Nil [simp]: "plain []"
  by (simp add: plain_def)

lemma range_bounds_suffix:
  "range_bounds h n [] b = (case parse_num h b of Inl e \<Rightarrow> Inl e | Inr k \<Rightarrow> Inr (n - k, n - 1))"
  by (simp add: range_bounds_def)

text \<open>
  A \<open>Range\<close> header in each of its three forms selects exactly the bytes it names, cut at the end of
  the file: \<open>bytes=a-b\<close>, the open \<open>bytes=a-\<close> and the suffix \<open>bytes=-k\<close>, which starts at the
  beginning when the file is shorter. A range that starts beyond the file or beyond its end is
  refused.
\<close>
theorem range_header_forms:
  assumes "a < 2 ^ 64" and "b < 2 ^ 64"
  shows "(a \<le> b \<and> a < n \<longrightarrow>
      ByteRange_parse (range_header (show_nat a) (show_nat b)) n = Inr \<lparr>br_start = a, br_end = min b (n - 1)\<rparr>) \<and>
    (a < n \<longrightarrow> ByteRange_parse (range_header (show_nat a) []) n = Inr \<lparr>br_start = a, br_end = n - 1\<rparr>) \<and>
    (0 < a \<and> 0 < n \<longrightarrow>
      ByteRange_parse (range_header [] (show_nat a)) n = Inr \<lparr>br_start = n - a, br_end = n - 1\<rparr>) \<and>
    (b < a \<or> n \<le> a \<longrightarrow>
      (\<exists>m. ByteRange_parse (range_header (show_nat a) (show_nat b)) n = Inl (InvalidRange m))) \<and>
    (n \<le> a \<longrightarrow> (\<exists>m. ByteRange_parse (range_header (show_nat a) []) n = Inl (InvalidRange m)))"
  using assms
  by (intro conjI) (auto simp: ByteRange_parse_header plain_show_nat dash_notin_show_nat
      range_bounds_nonempty parse_num_show_nat range_bounds_suffix)

lemma range_header_forms_witness:
  "ByteRange_parse ''bytes=5-99'' 50 = Inr \<lparr>br_start = 5, br_end = 49\<rparr> \<and>
   ByteRange_parse ''bytes=-10'' 50 = Inr \<lparr>br_start = 40, br_end = 49\<rparr>"
proof -
  have "range_header (show_nat 5) (show_nat 99) = ''bytes=5-99''" "range_header [] (show_nat 10) = ''bytes=-10''"
    by code_simp+
  then show ?thesis using range_header_forms [of 5 99 50] range_header_forms [of 10 0 50] by simp
qed

end
