(* ===== verification/Stream_Metrics.thy ===== *)
theory Stream_Metrics
  imports Prelude
begin

text \<open>
  The counters of the streaming engine, \<open>crates/stream/src/metrics.rs\<close>. Every counter is an
  \<open>AtomicU64\<close>, whose \<open>fetch_add\<close> wraps, so it is a 64-bit word. Each recording method is one
  state update; the relaxed atomics of one method are not interleaved with those of another.
\<close>

datatype retry_reason =
  Network | Timeout | FloodWait | ConnectionNotInited | DcMigration | PrimaryFallback

record stream_metrics =
  streams_started :: u64
  streams_with_first_chunk :: u64
  first_chunk_latency_micros_total :: u64
  first_chunk_latency_micros_max :: u64
  chunk_fetches :: u64
  chunk_fetch_failures :: u64
  chunk_fetch_latency_micros_total :: u64
  chunk_fetch_latency_micros_max :: u64
  rpc_attempts :: u64
  retries :: u64
  network_retries :: u64
  timeout_retries :: u64
  flood_wait_retries :: u64
  connection_not_inited_retries :: u64
  dc_migration_retries :: u64
  primary_fallback_retries :: u64
  telegram_bytes_received :: u64
  bytes_enqueued :: u64
  file_reference_refreshes :: u64
  worker_lock_waits :: u64
  worker_lock_wait_micros_total :: u64
  worker_lock_wait_micros_max :: u64
  rpc_slot_waits :: u64
  rpc_slot_wait_micros_total :: u64
  rpc_slot_wait_micros_max :: u64

record stream_metrics_snapshot =
  snap_streams_started :: u64
  snap_streams_with_first_chunk :: u64
  snap_first_chunk_latency_avg_ms :: "u64 option"
  snap_first_chunk_latency_max_ms :: "u64 option"
  snap_chunk_fetches :: u64
  snap_chunk_fetch_failures :: u64
  snap_chunk_fetch_latency_avg_ms :: "u64 option"
  snap_chunk_fetch_latency_max_ms :: "u64 option"
  snap_rpc_attempts :: u64
  snap_retries :: u64
  snap_network_retries :: u64
  snap_timeout_retries :: u64
  snap_flood_wait_retries :: u64
  snap_connection_not_inited_retries :: u64
  snap_dc_migration_retries :: u64
  snap_primary_fallback_retries :: u64
  snap_telegram_bytes_received :: u64
  snap_bytes_enqueued :: u64
  snap_file_reference_refreshes :: u64
  snap_worker_lock_waits :: u64
  snap_worker_lock_wait_avg_ms :: "u64 option"
  snap_worker_lock_wait_max_ms :: "u64 option"
  snap_rpc_slot_waits :: u64
  snap_rpc_slot_wait_avg_ms :: "u64 option"
  snap_rpc_slot_wait_max_ms :: "u64 option"

definition StreamMetrics_default :: stream_metrics where
  "StreamMetrics_default =
     \<lparr>streams_started = 0, streams_with_first_chunk = 0, first_chunk_latency_micros_total = 0,
      first_chunk_latency_micros_max = 0, chunk_fetches = 0, chunk_fetch_failures = 0,
      chunk_fetch_latency_micros_total = 0, chunk_fetch_latency_micros_max = 0,
      rpc_attempts = 0, retries = 0, network_retries = 0, timeout_retries = 0,
      flood_wait_retries = 0, connection_not_inited_retries = 0, dc_migration_retries = 0,
      primary_fallback_retries = 0, telegram_bytes_received = 0, bytes_enqueued = 0,
      file_reference_refreshes = 0, worker_lock_waits = 0, worker_lock_wait_micros_total = 0,
      worker_lock_wait_micros_max = 0, rpc_slot_waits = 0, rpc_slot_wait_micros_total = 0,
      rpc_slot_wait_micros_max = 0\<rparr>"

definition duration_micros :: "duration \<Rightarrow> u64" where
  "duration_micros d = of_nat (min (as_micros d) u64_max)"

definition record_stream_started :: "stream_metrics \<Rightarrow> stream_metrics" where
  "record_stream_started m = m\<lparr>streams_started := streams_started m + 1\<rparr>"

definition record_first_chunk :: "duration \<Rightarrow> stream_metrics \<Rightarrow> stream_metrics" where
  "record_first_chunk elapsed m =
     (let micros = duration_micros elapsed
      in m\<lparr>streams_with_first_chunk := streams_with_first_chunk m + 1,
           first_chunk_latency_micros_total := first_chunk_latency_micros_total m + micros,
           first_chunk_latency_micros_max := max (first_chunk_latency_micros_max m) micros\<rparr>)"

definition record_chunk_fetch :: "duration \<Rightarrow> bool \<Rightarrow> stream_metrics \<Rightarrow> stream_metrics" where
  "record_chunk_fetch elapsed succeeded m =
     (let micros = duration_micros elapsed;
          m1 = m\<lparr>chunk_fetches := chunk_fetches m + 1\<rparr>;
          m2 = (if \<not> succeeded then m1\<lparr>chunk_fetch_failures := chunk_fetch_failures m1 + 1\<rparr> else m1)
      in m2\<lparr>chunk_fetch_latency_micros_total := chunk_fetch_latency_micros_total m2 + micros,
            chunk_fetch_latency_micros_max := max (chunk_fetch_latency_micros_max m2) micros\<rparr>)"

definition record_rpc_attempt :: "stream_metrics \<Rightarrow> stream_metrics" where
  "record_rpc_attempt m = m\<lparr>rpc_attempts := rpc_attempts m + 1\<rparr>"

definition record_retry :: "retry_reason \<Rightarrow> stream_metrics \<Rightarrow> stream_metrics" where
  "record_retry reason m0 =
     (let m = m0\<lparr>retries := retries m0 + 1\<rparr>
      in case reason of
           Network \<Rightarrow> m\<lparr>network_retries := network_retries m + 1\<rparr>
         | Timeout \<Rightarrow> m\<lparr>timeout_retries := timeout_retries m + 1\<rparr>
         | FloodWait \<Rightarrow> m\<lparr>flood_wait_retries := flood_wait_retries m + 1\<rparr>
         | ConnectionNotInited \<Rightarrow>
             m\<lparr>connection_not_inited_retries := connection_not_inited_retries m + 1\<rparr>
         | DcMigration \<Rightarrow> m\<lparr>dc_migration_retries := dc_migration_retries m + 1\<rparr>
         | PrimaryFallback \<Rightarrow> m\<lparr>primary_fallback_retries := primary_fallback_retries m + 1\<rparr>)"

definition record_telegram_bytes :: "nat \<Rightarrow> stream_metrics \<Rightarrow> stream_metrics" where
  "record_telegram_bytes n m =
     m\<lparr>telegram_bytes_received := telegram_bytes_received m + of_nat n\<rparr>"

definition record_bytes_enqueued :: "nat \<Rightarrow> stream_metrics \<Rightarrow> stream_metrics" where
  "record_bytes_enqueued n m = m\<lparr>bytes_enqueued := bytes_enqueued m + of_nat n\<rparr>"

definition record_file_reference_refresh :: "stream_metrics \<Rightarrow> stream_metrics" where
  "record_file_reference_refresh m = m\<lparr>file_reference_refreshes := file_reference_refreshes m + 1\<rparr>"

definition record_worker_lock_wait :: "duration \<Rightarrow> stream_metrics \<Rightarrow> stream_metrics" where
  "record_worker_lock_wait elapsed m =
     (let micros = duration_micros elapsed
      in m\<lparr>worker_lock_waits := worker_lock_waits m + 1,
           worker_lock_wait_micros_total := worker_lock_wait_micros_total m + micros,
           worker_lock_wait_micros_max := max (worker_lock_wait_micros_max m) micros\<rparr>)"

definition record_rpc_slot_wait :: "duration \<Rightarrow> stream_metrics \<Rightarrow> stream_metrics" where
  "record_rpc_slot_wait elapsed m =
     (let micros = duration_micros elapsed
      in m\<lparr>rpc_slot_waits := rpc_slot_waits m + 1,
           rpc_slot_wait_micros_total := rpc_slot_wait_micros_total m + micros,
           rpc_slot_wait_micros_max := max (rpc_slot_wait_micros_max m) micros\<rparr>)"

definition average_millis :: "u64 \<Rightarrow> u64 \<Rightarrow> u64 option" where
  "average_millis total_micros n = (if n > 0 then Some (total_micros div n div 1000) else None)"

definition nonzero_millis :: "u64 \<Rightarrow> u64 \<Rightarrow> u64 option" where
  "nonzero_millis micros n = (if n > 0 then Some (micros div 1000) else None)"

definition snapshot :: "stream_metrics \<Rightarrow> stream_metrics_snapshot" where
  "snapshot m =
     (let first_chunks = streams_with_first_chunk m;
          fetches = chunk_fetches m;
          lock_waits = worker_lock_waits m;
          slot_waits = rpc_slot_waits m
      in \<lparr>snap_streams_started = streams_started m,
          snap_streams_with_first_chunk = first_chunks,
          snap_first_chunk_latency_avg_ms =
            average_millis (first_chunk_latency_micros_total m) first_chunks,
          snap_first_chunk_latency_max_ms =
            nonzero_millis (first_chunk_latency_micros_max m) first_chunks,
          snap_chunk_fetches = fetches,
          snap_chunk_fetch_failures = chunk_fetch_failures m,
          snap_chunk_fetch_latency_avg_ms =
            average_millis (chunk_fetch_latency_micros_total m) fetches,
          snap_chunk_fetch_latency_max_ms =
            nonzero_millis (chunk_fetch_latency_micros_max m) fetches,
          snap_rpc_attempts = rpc_attempts m,
          snap_retries = retries m,
          snap_network_retries = network_retries m,
          snap_timeout_retries = timeout_retries m,
          snap_flood_wait_retries = flood_wait_retries m,
          snap_connection_not_inited_retries = connection_not_inited_retries m,
          snap_dc_migration_retries = dc_migration_retries m,
          snap_primary_fallback_retries = primary_fallback_retries m,
          snap_telegram_bytes_received = telegram_bytes_received m,
          snap_bytes_enqueued = bytes_enqueued m,
          snap_file_reference_refreshes = file_reference_refreshes m,
          snap_worker_lock_waits = lock_waits,
          snap_worker_lock_wait_avg_ms =
            average_millis (worker_lock_wait_micros_total m) lock_waits,
          snap_worker_lock_wait_max_ms =
            nonzero_millis (worker_lock_wait_micros_max m) lock_waits,
          snap_rpc_slot_waits = slot_waits,
          snap_rpc_slot_wait_avg_ms = average_millis (rpc_slot_wait_micros_total m) slot_waits,
          snap_rpc_slot_wait_max_ms = nonzero_millis (rpc_slot_wait_micros_max m) slot_waits\<rparr>)"

text \<open>The recording methods as one machine.\<close>

datatype metric_event =
  EStreamStarted | EFirstChunk duration | EChunkFetch duration bool | ERpcAttempt
| ERetry retry_reason | ETelegramBytes nat | EBytesEnqueued nat | EFileReferenceRefresh
| EWorkerLockWait duration | ERpcSlotWait duration

fun record_event :: "stream_metrics \<Rightarrow> metric_event \<Rightarrow> stream_metrics" where
  "record_event m EStreamStarted = record_stream_started m"
| "record_event m (EFirstChunk d) = record_first_chunk d m"
| "record_event m (EChunkFetch d ok) = record_chunk_fetch d ok m"
| "record_event m ERpcAttempt = record_rpc_attempt m"
| "record_event m (ERetry r) = record_retry r m"
| "record_event m (ETelegramBytes n) = record_telegram_bytes n m"
| "record_event m (EBytesEnqueued n) = record_bytes_enqueued n m"
| "record_event m EFileReferenceRefresh = record_file_reference_refresh m"
| "record_event m (EWorkerLockWait d) = record_worker_lock_wait d m"
| "record_event m (ERpcSlotWait d) = record_rpc_slot_wait d m"

lemmas metric_defs [step_simps] =
  record_stream_started_def record_first_chunk_def record_chunk_fetch_def record_rpc_attempt_def
  record_retry_def record_telegram_bytes_def record_bytes_enqueued_def
  record_file_reference_refresh_def record_worker_lock_wait_def record_rpc_slot_wait_def

definition reason_sum :: "stream_metrics \<Rightarrow> u64" where
  "reason_sum m =
     network_retries m + timeout_retries m + flood_wait_retries m +
     connection_not_inited_retries m + dc_migration_retries m + primary_fallback_retries m"

text \<open>
  A latency is a counter, a running total and a running maximum. The total never exceeds the
  count times the maximum as long as neither the count nor the total has wrapped, which the
  bookkeeping \<open>latency_ok n t\<close> expresses over the unbounded count and total.
\<close>

definition latency_ok :: "nat \<Rightarrow> nat \<Rightarrow> u64 \<Rightarrow> u64 \<Rightarrow> u64 \<Rightarrow> bool" where
  "latency_ok n t c tot mx \<longleftrightarrow>
     (n < 2 ^ 64 \<and> t < 2 ^ 64 \<longrightarrow> unat c = n \<and> unat tot = t \<and> t \<le> n * unat mx)"

lemma unat_duration_micros: "unat (duration_micros d) = min (as_micros d) u64_max"
  by (simp add: duration_micros_def unat_of_nat u64_max_def min_def)

lemma latency_ok_init: "latency_ok 0 0 0 0 0"
  by (simp add: latency_ok_def)

lemma latency_ok_step:
  assumes "latency_ok n t c tot mx"
  shows "latency_ok (Suc n) (t + unat x) (c + 1) (tot + x) (max mx x)"
proof -
  { assume b: "Suc n < 2 ^ 64" "t + unat x < 2 ^ 64"
    with assms have c: "unat c = n" and tot_eq: "unat tot = t" and le: "t \<le> n * unat mx"
      by (auto simp: latency_ok_def)
    from c b(1) have "unat (c + 1) = Suc n" by (simp add: unat_word_ariths)
    moreover from tot_eq b(2) have "unat (tot + x) = t + unat x" by (simp add: unat_word_ariths)
    moreover have "unat (max mx x) = max (unat mx) (unat x)"
      by (simp add: max_def word_le_nat_alt)
    moreover have "t + unat x \<le> Suc n * max (unat mx) (unat x)"
    proof -
      have "n * unat mx \<le> n * max (unat mx) (unat x)" by (rule mult_le_mono2) simp
      with le have "t \<le> n * max (unat mx) (unat x)" by (rule order_trans)
      moreover have "unat x \<le> max (unat mx) (unat x)" by simp
      ultimately show ?thesis by (simp only: mult_Suc)
    qed
    ultimately have "unat (c + 1) = Suc n \<and> unat (tot + x) = t + unat x \<and>
        t + unat x \<le> Suc n * unat (max mx x)" by simp }
  then show ?thesis by (simp add: latency_ok_def)
qed

lemma average_le_max:
  assumes "latency_ok n t c tot mx" and "n < 2 ^ 64" and "t < 2 ^ 64"
    and "average_millis tot c = Some a" and "nonzero_millis mx c = Some b"
  shows "a \<le> b"
proof -
  from assms have c: "unat c = n" and t: "unat tot = t" and le: "t \<le> n * unat mx"
    by (auto simp: latency_ok_def)
  from assms(4,5) have a: "a = tot div c div 1000" and b: "b = mx div 1000" and "c \<noteq> 0"
    by (auto simp: average_millis_def nonzero_millis_def split: if_splits)
  then have "0 < n" using c by (metis unat_gt_0)
  with le have "t div n \<le> unat mx"
    by (metis div_le_mono nonzero_mult_div_cancel_left not_gr_zero)
  then have "t div n div 1000 \<le> unat mx div 1000" by (rule div_le_mono)
  then show ?thesis by (simp add: a b word_le_nat_alt unat_div c t)
qed

section \<open>Invariants over every history of events\<close>

lemma reason_sum_step: "retries m = reason_sum m \<Longrightarrow> retries (record_event m e) = reason_sum (record_event m e)"
  by (cases e) (auto simp: step_simps reason_sum_def Let_def split: retry_reason.splits)

interpretation reasons: event_machine StreamMetrics_default record_event
  "\<lambda>m. retries m = reason_sum m"
proof unfold_locales
  show "retries StreamMetrics_default = reason_sum StreamMetrics_default"
    by (simp add: StreamMetrics_default_def reason_sum_def)
qed (rule reason_sum_step)

definition fetch_latencies :: "metric_event list \<Rightarrow> nat list" where
  "fetch_latencies es = concat (map (\<lambda>e. case e of EChunkFetch d _ \<Rightarrow> [unat (duration_micros d)] | _ \<Rightarrow> []) es)"

lemma fetch_latencies_simps [simp]:
  "fetch_latencies [] = []"
  "fetch_latencies (e # es) =
     (case e of EChunkFetch d _ \<Rightarrow> [unat (duration_micros d)] | _ \<Rightarrow> []) @ fetch_latencies es"
  by (simp_all add: fetch_latencies_def)

lemma fetch_latency_run:
  "latency_ok n t (chunk_fetches m) (chunk_fetch_latency_micros_total m)
     (chunk_fetch_latency_micros_max m) \<Longrightarrow>
   latency_ok (n + length (fetch_latencies es)) (t + sum_list (fetch_latencies es))
     (chunk_fetches (foldl record_event m es))
     (chunk_fetch_latency_micros_total (foldl record_event m es))
     (chunk_fetch_latency_micros_max (foldl record_event m es))"
proof (induction es arbitrary: n t m)
  case Nil
  then show ?case by simp
next
  case (Cons e es)
  show ?case
  proof (cases e)
    case (EChunkFetch d ok)
    have "latency_ok (Suc n) (t + unat (duration_micros d)) (chunk_fetches (record_event m e))
      (chunk_fetch_latency_micros_total (record_event m e))
      (chunk_fetch_latency_micros_max (record_event m e))"
      using latency_ok_step [OF Cons.prems, of "duration_micros d"] EChunkFetch
      by (simp add: record_chunk_fetch_def Let_def)
    from Cons.IH [OF this] show ?thesis using EChunkFetch by (simp add: add.assoc)
  qed (use Cons in \<open>auto simp: step_simps Let_def split: retry_reason.splits\<close>)
qed

section \<open>Properties\<close>

text \<open>
  Over every history of recorded events the retry counter is the sum of the per-reason counters
  (in 64-bit wrap-around arithmetic), and as long as the fetch count and the total latency fit in 64 bits the
  snapshot's average chunk latency never exceeds the maximum it reports.
\<close>
theorem metrics_consistent:
  fixes es :: "metric_event list"
  defines "m \<equiv> foldl record_event StreamMetrics_default es"
  assumes "length (fetch_latencies es) < 2 ^ 64" and "sum_list (fetch_latencies es) < 2 ^ 64"
  shows "retries m = reason_sum m \<and>
    (average_millis (chunk_fetch_latency_micros_total m) (chunk_fetches m) = Some a \<longrightarrow>
      nonzero_millis (chunk_fetch_latency_micros_max m) (chunk_fetches m) = Some b \<longrightarrow> a \<le> b)"
proof (intro conjI)
  show "retries m = reason_sum m" unfolding m_def by (rule reasons.inv_run)
  have "latency_ok 0 0 (chunk_fetches StreamMetrics_default)
      (chunk_fetch_latency_micros_total StreamMetrics_default)
      (chunk_fetch_latency_micros_max StreamMetrics_default)"
    using latency_ok_init by (simp add: StreamMetrics_default_def)
  from fetch_latency_run [OF this, of es] assms(2,3)
  show "average_millis (chunk_fetch_latency_micros_total m) (chunk_fetches m) = Some a \<longrightarrow>
      nonzero_millis (chunk_fetch_latency_micros_max m) (chunk_fetches m) = Some b \<longrightarrow> a \<le> b"
    unfolding m_def by (auto intro: average_le_max)
qed

definition demo_events :: "metric_event list" where
  "demo_events = [EStreamStarted, EChunkFetch (from_millis 30) True, ERetry Network,
     EChunkFetch (from_millis 10) False]"

lemma metrics_consistent_witness:
  "retries (foldl record_event StreamMetrics_default demo_events) = 1 \<and>
   retries (foldl record_event StreamMetrics_default demo_events) =
     reason_sum (foldl record_event StreamMetrics_default demo_events) \<and> (20 :: u64) \<le> 30"
proof -
  let ?m = "foldl record_event StreamMetrics_default demo_events"
  have l: "length (fetch_latencies demo_events) < 2 ^ 64" by (simp add: demo_events_def)
  have s: "sum_list (fetch_latencies demo_events) < 2 ^ 64"
    by (simp add: demo_events_def unat_duration_micros as_micros_def from_millis_def u64_max_def)
  have d: "duration_micros (from_millis 30) = 30000" "duration_micros (from_millis 10) = 10000"
    by (simp_all add: duration_micros_def as_micros_def from_millis_def u64_max_def)
  have m: "chunk_fetch_latency_micros_total ?m = 40000" "chunk_fetches ?m = 2"
      "chunk_fetch_latency_micros_max ?m = 30000" "retries ?m = 1"
    by (simp_all add: demo_events_def step_simps d StreamMetrics_default_def Let_def)
  then have a: "average_millis (chunk_fetch_latency_micros_total ?m) (chunk_fetches ?m) = Some 20"
    and b: "nonzero_millis (chunk_fetch_latency_micros_max ?m) (chunk_fetches ?m) = Some 30"
    by (simp_all add: average_millis_def nonzero_millis_def)
  from m(4) metrics_consistent [OF l s, of 20 30] a b show ?thesis by blast
qed

end
