(* ===== verification/Stream_Pipe.thy ===== *)
theory Stream_Pipe
  imports Byte_Range Stream_Metrics
begin

text \<open>
  The stream pipe, \<open>create_stream_pipe\<close> of \<open>crates/stream/src/pipe.rs\<close>: the loop that prefetches
  chunks in order, cuts the first and the last one to the requested range and sends the pieces to
  the HTTP response. \<open>FuturesOrdered\<close> yields the results in submission order; the model runs each
  future when it is submitted. What the futures do (the cache in front of the worker pool) is the
  argument \<open>fetch\<close> on the state \<open>'s\<close> of those components, and \<open>upd\<close> applies a change of the metrics
  the pipe shares with the worker pool in that state. The receiver is the environment:
  \<open>closed i\<close> says whether \<open>tx.is_closed()\<close> holds in iteration \<open>i\<close>, \<open>sent i\<close> whether the send of that
  iteration is accepted; \<open>elapsed i\<close> is the time since the stream started.

  Positions are naturals below \<open>2 ^ 64\<close>; no product here overflows, because a chunk index times
  the chunk size never exceeds the end of the range (\<open>chunk_offset_bound\<close>).
\<close>

definition STREAM_PREFETCH_CHUNKS :: nat where
  "STREAM_PREFETCH_CHUNKS = 2"

text \<open>An item of the response body: a piece of the file or the error that ends the body.\<close>

type_synonym body_item = "string + bytes"

record receiver =
  rx_closed :: "nat \<Rightarrow> bool"
  rx_sent :: "nat \<Rightarrow> bool"
  rx_elapsed :: "nat \<Rightarrow> duration"

text \<open>The inner loop: submit chunks while there are any and fewer than two are pending.\<close>

function fill_pending ::
  "(nat \<Rightarrow> 's \<Rightarrow> ('e + bytes) \<times> 's) \<Rightarrow> nat \<Rightarrow> nat \<Rightarrow> (nat \<times> ('e + bytes)) list \<Rightarrow> 's \<Rightarrow>
   nat \<times> (nat \<times> ('e + bytes)) list \<times> 's" where
  "fill_pending fetch end_chunk next_chunk pending s =
     (if next_chunk \<le> end_chunk \<and> length pending < STREAM_PREFETCH_CHUNKS
      then (let (r, s') = fetch next_chunk s
            in fill_pending fetch end_chunk (next_chunk + 1) (pending @ [(next_chunk, r)]) s')
      else (next_chunk, pending, s))"
  by pat_completeness auto
termination
  by (relation "measure (\<lambda>(f, e, n, p, s). Suc e - n)") auto

declare fill_pending.simps [simp del]

text \<open>What one chunk contributes to the body: \<open>slice_start\<close>, \<open>slice_end\<close> and the cut.\<close>

definition cut_chunk :: "byte_range \<Rightarrow> nat \<Rightarrow> nat \<Rightarrow> nat \<Rightarrow> bytes \<Rightarrow> bytes option" where
  "cut_chunk rng start_chunk end_chunk chunk_idx chunk_data =
     (let chunk_offset_start = chunk_idx * CHUNK_SIZE;
          slice_start = (if chunk_idx = start_chunk then br_start rng - chunk_offset_start else 0);
          slice_end = (if chunk_idx = end_chunk then br_end rng - chunk_offset_start + 1
                       else length chunk_data)
      in if slice_start < length chunk_data
         then (let actual_end = min slice_end (length chunk_data)
               in Some (take (actual_end - slice_start) (drop slice_start chunk_data)))
         else None)"

definition pipe_error :: "('e \<Rightarrow> string) \<Rightarrow> nat \<Rightarrow> 'e \<Rightarrow> string" where
  "pipe_error show_err chunk_idx err =
     ''Failed to fetch stream chunk '' @ show_nat chunk_idx @ '': '' @ show_err err"

lemma fill_pending_measure:
  "fill_pending fetch e n pending s = (n', pending', s') \<Longrightarrow>
     (Suc e - n') + length pending' = (Suc e - n) + length pending \<and> n \<le> n'"
proof (induction fetch e n pending s arbitrary: n' pending' s' rule: fill_pending.induct)
  case (1 fetch e n pending s)
  show ?case
  proof (cases "n \<le> e \<and> length pending < STREAM_PREFETCH_CHUNKS")
    case True
    obtain r t where r: "fetch n s = (r, t)" by (cases "fetch n s")
    with True "1.prems" have "fill_pending fetch e (n + 1) (pending @ [(n, r)]) t = (n', pending', s')"
      by (simp add: fill_pending.simps [of fetch e n])
    from "1.IH" [OF True refl, of r t n' pending' s'] r this True show ?thesis by auto
  next
    case False
    with "1.prems" show ?thesis by (auto simp: fill_pending.simps [of fetch e n])
  qed
qed

text \<open>
  The outer loop. The iteration number \<open>i\<close> indexes the environment; \<open>first\<close> is \<open>first_chunk\<close>. The
  result is the body and the state of the components behind \<open>fetch\<close>.
\<close>

function pipe_loop ::
  "(nat \<Rightarrow> 's \<Rightarrow> ('e + bytes) \<times> 's) \<Rightarrow> ('e \<Rightarrow> string) \<Rightarrow>
   ((stream_metrics \<Rightarrow> stream_metrics) \<Rightarrow> 's \<Rightarrow> 's) \<Rightarrow> receiver \<Rightarrow> byte_range \<Rightarrow> nat \<Rightarrow> nat \<Rightarrow>
   nat \<Rightarrow> nat \<Rightarrow> (nat \<times> ('e + bytes)) list \<Rightarrow> bool \<Rightarrow> 's \<Rightarrow> body_item list \<times> 's" where
  "pipe_loop fetch show_err upd rx rng start_chunk end_chunk i next_chunk pending first s =
     (if next_chunk \<le> end_chunk \<or> pending \<noteq> [] then
        (case fill_pending fetch end_chunk next_chunk pending s of
           (next', [], s') \<Rightarrow> ([], s')
         | (next', (chunk_idx, chunk_result) # pending', s') \<Rightarrow>
             if rx_closed rx i then ([], s')
             else
               (case chunk_result of
                  Inl err \<Rightarrow>
                    (if rx_sent rx i then [Inl (pipe_error show_err chunk_idx err)] else [], s')
                | Inr chunk_data \<Rightarrow>
                    (case cut_chunk rng start_chunk end_chunk chunk_idx chunk_data of
                       None \<Rightarrow>
                         pipe_loop fetch show_err upd rx rng start_chunk end_chunk (Suc i) next'
                           pending' first s'
                     | Some sliced \<Rightarrow>
                         if \<not> rx_sent rx i then ([], s')
                         else
                           (let s1 = upd (record_bytes_enqueued (length sliced)) s';
                                s2 = (if first then upd (record_first_chunk (rx_elapsed rx i)) s1
                                      else s1);
                                (rest, s3) = pipe_loop fetch show_err upd rx rng start_chunk
                                  end_chunk (Suc i) next' pending' False s2
                            in (Inr sliced # rest, s3)))))
      else ([], s))"
  by pat_completeness auto
termination
proof (relation "measure (\<lambda>(f, sh, u, rx, rg, sc, e, i, n, p, fi, s). (Suc e - n) + length p)",
    goal_cases)
  case (2 fetch show_err upd rx rng start_chunk end_chunk i next_chunk pending first s x xa y xb y' xc yc)
  then show ?case
    using fill_pending_measure [of fetch end_chunk next_chunk pending s] by (fastforce dest: sym)
next
  case (3 fetch show_err upd rx rng start_chunk end_chunk i next_chunk pending first s x xa y xb y' xc yc)
  then show ?case
    using fill_pending_measure [of fetch end_chunk next_chunk pending s] by (fastforce dest: sym)
qed simp

declare pipe_loop.simps [simp del]

definition create_stream_pipe ::
  "(nat \<Rightarrow> 's \<Rightarrow> ('e + bytes) \<times> 's) \<Rightarrow> ('e \<Rightarrow> string) \<Rightarrow>
   ((stream_metrics \<Rightarrow> stream_metrics) \<Rightarrow> 's \<Rightarrow> 's) \<Rightarrow> receiver \<Rightarrow> byte_range \<Rightarrow> 's \<Rightarrow>
   body_item list \<times> 's" where
  "create_stream_pipe fetch show_err upd rx rng s =
     (let start_chunk = br_start rng div CHUNK_SIZE;
          end_chunk = br_end rng div CHUNK_SIZE
      in pipe_loop fetch show_err upd rx rng start_chunk end_chunk 0 start_chunk [] True
           (upd record_stream_started s))"

section \<open>One chunk's contribution\<close>

definition body_bytes :: "body_item list \<Rightarrow> bytes" where
  "body_bytes body = concat (map (\<lambda>x. case x of Inl _ \<Rightarrow> [] | Inr b \<Rightarrow> b) body)"

lemma body_bytes_simps [simp]:
  "body_bytes [] = []"
  "body_bytes (Inr b # body) = b @ body_bytes body"
  "body_bytes (Inl e # body) = body_bytes body"
  by (simp_all add: body_bytes_def)

text \<open>The requested bytes that lie in chunk \<open>p\<close> or later.\<close>

definition wanted :: "bytes \<Rightarrow> byte_range \<Rightarrow> nat \<Rightarrow> bytes" where
  "wanted file rng p =
     (let a = max (br_start rng) (p * CHUNK_SIZE)
      in take (Suc (br_end rng) - a) (drop a file))"

lemma wanted_start: "wanted file rng (br_start rng div CHUNK_SIZE) =
    take (Suc (br_end rng) - br_start rng) (drop (br_start rng) file)"
proof -
  have "br_start rng div CHUNK_SIZE * CHUNK_SIZE \<le> br_start rng" by (rule div_times_less_eq_dividend)
  then show ?thesis by (simp add: wanted_def max_absorb1 Let_def)
qed

lemma wanted_past_end: "br_end rng div CHUNK_SIZE < p \<Longrightarrow> wanted file rng p = []"
proof -
  assume "br_end rng div CHUNK_SIZE < p"
  then have "br_end rng < p * CHUNK_SIZE" by (simp add: div_less_iff_less_mult)
  then show ?thesis by (simp add: wanted_def max_def)
qed

lemma chunk_offset_bound: "p \<le> br_end rng div CHUNK_SIZE \<Longrightarrow> p * CHUNK_SIZE \<le> br_end rng"
  by (metis div_times_less_eq_dividend mult_le_mono1 order_trans)

lemma take_drop_chunk: "drop i (take c (drop o1 file)) = take (c - i) (drop (o1 + i) file)"
  by (simp add: drop_take add.commute)

lemma take_min_length: "take (min n (length xs) - k) (drop k xs) = take (n - k) (drop k xs)"
  by (simp add: min_def)

lemma split_slice:
  assumes "a \<le> (c :: nat)" and "a \<le> b"
  shows "take (min b c - a) (drop a xs) @ take (b - max a c) (drop (max a c) xs) =
    take (b - a) (drop a xs)"
proof (cases "b \<le> c")
  case True
  then show ?thesis using assms by (simp add: min_def max_def)
next
  case False
  then show ?thesis
    using assms take_drop_split [of "c - a" "b - a" a xs] by (simp add: min_def max_def)
qed

lemma start_chunk_next: "br_start rng < Suc (br_start rng div CHUNK_SIZE) * CHUNK_SIZE"
  by (metis CHUNK_SIZE_pos div_less_iff_less_mult lessI)

lemma piece_start_eq:
  assumes "br_start rng div CHUNK_SIZE \<le> p"
  shows "max (br_start rng) (p * CHUNK_SIZE) =
    p * CHUNK_SIZE + (if p = br_start rng div CHUNK_SIZE then br_start rng - p * CHUNK_SIZE else 0)"
proof (cases "p = br_start rng div CHUNK_SIZE")
  case True
  have "br_start rng div CHUNK_SIZE * CHUNK_SIZE \<le> br_start rng" by (rule div_times_less_eq_dividend)
  with True show ?thesis by simp
next
  case False
  with assms have "Suc (br_start rng div CHUNK_SIZE) * CHUNK_SIZE \<le> p * CHUNK_SIZE"
    by (intro mult_le_mono1) simp
  with start_chunk_next [of rng] False show ?thesis by (simp add: max_def)
qed

lemma piece_start_le:
  assumes "br_start rng div CHUNK_SIZE \<le> p"
  shows "max (br_start rng) (p * CHUNK_SIZE) \<le> Suc p * CHUNK_SIZE"
proof -
  have "Suc (br_start rng div CHUNK_SIZE) * CHUNK_SIZE \<le> Suc p * CHUNK_SIZE"
    using assms by (intro mult_le_mono1) simp
  with start_chunk_next [of rng] have "br_start rng \<le> Suc p * CHUNK_SIZE" by linarith
  then show ?thesis by simp
qed

lemma cut_chunk_eq:
  assumes p: "br_start rng div CHUNK_SIZE \<le> p" "p \<le> br_end rng div CHUNK_SIZE"
    and a: "a = max (br_start rng) (p * CHUNK_SIZE)"
  shows "(case cut_chunk rng (br_start rng div CHUNK_SIZE) (br_end rng div CHUNK_SIZE) p
            (chunk_of file p) of None \<Rightarrow> [] | Some b \<Rightarrow> b) =
         take (min (Suc (br_end rng)) (Suc p * CHUNK_SIZE) - a) (drop a file)"
proof -
  define ss where "ss = (if p = br_start rng div CHUNK_SIZE then br_start rng - p * CHUNK_SIZE else 0)"
  define se where "se = (if p = br_end rng div CHUNK_SIZE then br_end rng - p * CHUNK_SIZE + 1
    else length (chunk_of file p))"
  define n where "n = min (Suc (br_end rng)) (Suc p * CHUNK_SIZE) - a"
  have a_eq: "a = p * CHUNK_SIZE + ss" using piece_start_eq [OF p(1)] by (simp add: a ss_def)
  have end_lo: "p * CHUNK_SIZE \<le> br_end rng" by (rule chunk_offset_bound [OF p(2)])
  have "(case cut_chunk rng (br_start rng div CHUNK_SIZE) (br_end rng div CHUNK_SIZE) p
      (chunk_of file p) of None \<Rightarrow> [] | Some b \<Rightarrow> b) = take (se - ss) (drop ss (chunk_of file p))"
    unfolding cut_chunk_def Let_def ss_def [symmetric] se_def [symmetric]
    by (simp add: take_min_length)
  also have "\<dots> = take (se - ss) (take (CHUNK_SIZE - ss) (drop a file))"
    by (simp add: chunk_of_def take_drop_chunk a_eq)
  also have "\<dots> = take n (drop a file)"
  proof (cases "p = br_end rng div CHUNK_SIZE")
    case True
    then have "min (se - ss) (CHUNK_SIZE - ss) = n"
      using end_lo by (auto simp: n_def se_def a_eq min_def)
    then show ?thesis by (metis min.commute take_take)
  next
    case False
    with p(2) have "Suc p \<le> br_end rng div CHUNK_SIZE" by simp
    then have "Suc p * CHUNK_SIZE \<le> br_end rng" by (rule chunk_offset_bound)
    then have n: "n = CHUNK_SIZE - ss" by (simp add: n_def a_eq)
    have "se - ss = length (take (CHUNK_SIZE - ss) (drop a file))"
      using False by (auto simp: se_def chunk_of_def a_eq min_def)
    then show ?thesis by (simp add: n min_def)
  qed
  finally show ?thesis by (simp only: n_def)
qed

text \<open>The contributions of the chunks from \<open>p\<close> on, one after the other, are the wanted bytes.\<close>

lemma cut_chunk_wanted:
  assumes le: "br_start rng \<le> br_end rng"
    and p: "br_start rng div CHUNK_SIZE \<le> p" "p \<le> br_end rng div CHUNK_SIZE"
  shows "(case cut_chunk rng (br_start rng div CHUNK_SIZE) (br_end rng div CHUNK_SIZE) p
            (chunk_of file p) of None \<Rightarrow> [] | Some b \<Rightarrow> b) @ wanted file rng (Suc p) =
         wanted file rng p"
proof -
  define a where "a = max (br_start rng) (p * CHUNK_SIZE)"
  have "a \<le> Suc p * CHUNK_SIZE" unfolding a_def by (rule piece_start_le [OF p(1)])
  moreover have "a \<le> Suc (br_end rng)"
    using le chunk_offset_bound [OF p(2)] by (simp add: a_def)
  moreover have "wanted file rng (Suc p) =
      take (Suc (br_end rng) - max a (Suc p * CHUNK_SIZE)) (drop (max a (Suc p * CHUNK_SIZE)) file)"
    by (simp add: wanted_def a_def max_def Let_def)
  moreover have "wanted file rng p = take (Suc (br_end rng) - a) (drop a file)"
    by (simp add: wanted_def a_def Let_def)
  ultimately show ?thesis
    using split_slice [of a "Suc p * CHUNK_SIZE" "Suc (br_end rng)" "file"]
    by (simp only: cut_chunk_eq [OF p a_def])
qed

text \<open>
  The body the loop sends: a prefix of the wanted bytes, in pieces, then possibly one error; with
  a receiver that accepts everything it is the wanted bytes unless it ends in an error.
\<close>

definition body_ok :: "receiver \<Rightarrow> bytes \<Rightarrow> body_item list \<Rightarrow> bool" where
  "body_ok rx want body \<longleftrightarrow>
     (\<exists>pieces errs rest. body = map Inr pieces @ map Inl errs \<and> length errs \<le> 1 \<and>
        concat pieces @ rest = want \<and>
        ((\<forall>i. \<not> rx_closed rx i \<and> rx_sent rx i) \<and> errs = [] \<longrightarrow> rest = []))"

lemma body_ok_stop: "rx_closed rx i \<or> \<not> rx_sent rx i \<Longrightarrow> body_ok rx want []"
  unfolding body_ok_def by (rule exI [of _ "[]"], rule exI [of _ "[]"]) auto

lemma body_ok_done: "body_ok rx [] []"
  unfolding body_ok_def by (rule exI [of _ "[]"], rule exI [of _ "[]"]) auto

lemma body_ok_error: "body_ok rx want [Inl e]"
  unfolding body_ok_def by (rule exI [of _ "[]"], rule exI [of _ "[e]"]) auto

lemma body_ok_Cons: "body_ok rx want body \<Longrightarrow> body_ok rx (b @ want) (Inr b # body)"
proof -
  assume "body_ok rx want body"
  then obtain pieces errs rest where "body = map Inr pieces @ map Inl errs" "length errs \<le> 1"
      "concat pieces @ rest = want"
      "(\<forall>i. \<not> rx_closed rx i \<and> rx_sent rx i) \<and> errs = [] \<longrightarrow> rest = []"
    unfolding body_ok_def by blast
  then show ?thesis
    unfolding body_ok_def
    by (intro exI [of _ "b # pieces"] exI [of _ errs] exI [of _ rest]) auto
qed

section \<open>The interface between the pipe and what serves its chunks\<close>

locale chunk_source =
  fixes fetch :: "nat \<Rightarrow> 's \<Rightarrow> ('e + bytes) \<times> 's"
    and good :: "'s \<Rightarrow> bool"
    and upd :: "(stream_metrics \<Rightarrow> stream_metrics) \<Rightarrow> 's \<Rightarrow> 's"
    and content :: bytes
  assumes fetch_exact: "good s \<Longrightarrow> fetch k s = (Inr b, s') \<Longrightarrow> b = chunk_of content k"
    and fetch_good: "good s \<Longrightarrow> fetch k s = (r, s') \<Longrightarrow> good s'"
    and upd_good: "good s \<Longrightarrow> good (upd f s)"
begin

definition pending_ok :: "nat \<Rightarrow> nat \<Rightarrow> (nat \<times> ('e + bytes)) list \<Rightarrow> bool" where
  "pending_ok p n pending \<longleftrightarrow>
     map fst pending = [p..<n] \<and> p \<le> n \<and> (\<forall>k b. (k, Inr b) \<in> set pending \<longrightarrow> b = chunk_of content k)"

lemma pending_ok_ConsD:
  "pending_ok p n ((k, r) # pending) \<Longrightarrow>
     k = p \<and> pending_ok (Suc p) n pending \<and> (\<forall>b. r = Inr b \<longrightarrow> b = chunk_of content p)"
proof -
  assume ok: "pending_ok p n ((k, r) # pending)"
  then have "[p..<n] = k # map fst pending" by (simp add: pending_ok_def)
  then have "p < n" "k = p" "[Suc p..<n] = map fst pending" by (auto simp: upt_eq_Cons_conv)
  with ok show ?thesis by (auto simp: pending_ok_def)
qed

lemma fill_pending_ok:
  "good s \<Longrightarrow> pending_ok p n pending \<Longrightarrow> n \<le> Suc e \<Longrightarrow>
   fill_pending fetch e n pending s = (n', pending', s') \<Longrightarrow>
   good s' \<and> pending_ok p n' pending' \<and> n' \<le> Suc e \<and> (pending' = [] \<longrightarrow> n' = Suc e)"
proof (induction "Suc e - n" arbitrary: n pending s)
  case 0
  then show ?case by (auto simp: fill_pending.simps [of fetch e n])
next
  case (Suc k)
  show ?case
  proof (cases "length pending < STREAM_PREFETCH_CHUNKS")
    case True
    obtain r t where r: "fetch n s = (r, t)" by (cases "fetch n s")
    from Suc.hyps(2) have n: "n \<le> e" by simp
    have "good t" using fetch_good [OF Suc.prems(1) r] .
    moreover have "pending_ok p (Suc n) (pending @ [(n, r)])"
      using Suc.prems(1,2) r fetch_exact [of s n] by (auto simp: pending_ok_def)
    moreover have "fill_pending fetch e (Suc n) (pending @ [(n, r)]) t = (n', pending', s')"
      using True n Suc.prems(4) r by (simp add: fill_pending.simps [of fetch e n])
    ultimately show ?thesis using Suc.hyps n by (intro Suc.hyps(1)) auto
  next
    case False
    with Suc.prems show ?thesis
      by (auto simp: fill_pending.simps [of fetch e n] STREAM_PREFETCH_CHUNKS_def)
  qed
qed

lemma pipe_loop_body:
  assumes "br_start rng \<le> br_end rng" and "good s"
    and "pending_ok p n pending" and "n \<le> Suc (br_end rng div CHUNK_SIZE)"
    and "br_start rng div CHUNK_SIZE \<le> p"
    and "pipe_loop fetch show_err upd rx rng (br_start rng div CHUNK_SIZE)
      (br_end rng div CHUNK_SIZE) i n pending fst_chunk s = (body, t)"
  shows "body_ok rx (wanted content rng p) body \<and> good t"
  using assms(2-)
proof (induction "(Suc (br_end rng div CHUNK_SIZE) - n) + length pending"
    arbitrary: i n p pending fst_chunk s body t rule: less_induct)
  case less
  let ?sc = "br_start rng div CHUNK_SIZE" and ?ec = "br_end rng div CHUNK_SIZE"
  let ?loop = "pipe_loop fetch show_err upd rx rng ?sc ?ec"
  obtain n' pend s' where f: "fill_pending fetch ?ec n pending s = (n', pend, s')"
    by (metis prod_cases3)
  note ok = fill_pending_ok [OF less.prems(1,2,3) f]
  note run = less.prems(5) [unfolded
      pipe_loop.simps [of fetch show_err upd rx rng ?sc ?ec i n pending fst_chunk s]]
  show ?case
  proof (cases pend)
    case Nil
    with ok have "[p..<n'] = []" "n' = Suc ?ec" by (auto simp: pending_ok_def)
    then have "?ec < p" by (auto simp: upt_eq_Nil_conv simp del: upt_Suc split: if_splits)
    then show ?thesis
      using f Nil run ok less.prems(1) by (auto simp: wanted_past_end body_ok_done split: if_splits)
  next
    case (Cons kr pend')
    obtain k r where kr: "kr = (k, r)" by (cases kr)
    with ok Cons have k: "k = p" and pend': "pending_ok (Suc p) n' pend'"
      and r: "\<And>b. r = Inr b \<Longrightarrow> b = chunk_of content p"
      by (auto dest!: pending_ok_ConsD)
    have "p < n'" using pend' by (simp add: pending_ok_def)
    then have p: "p \<le> ?ec" using ok by simp
    have live: "n \<le> ?ec \<or> pending \<noteq> []"
      using f Cons by (auto simp: fill_pending.simps [of fetch ?ec n] split: if_splits)
    have IH: "body_ok rx (wanted content rng (Suc p)) body' \<and> good t'"
      if "?loop j n' pend' fc s1 = (body', t')" "good s1" for j fc s1 body' t'
      using fill_pending_measure [OF f] Cons ok pend' less.prems(4) that
      by (intro less.hyps [of n' pend' s1 "Suc p" j fc body' t']) auto
    show ?thesis
    proof (cases "rx_closed rx i \<or> (\<exists>e. r = Inl e)")
      case True
      then show ?thesis
        using f Cons kr live run ok by (auto intro: body_ok_stop body_ok_error split: if_splits)
    next
      case False
      then obtain b where b: "r = Inr b" and op: "\<not> rx_closed rx i" by (cases r) auto
      have cut: "(case cut_chunk rng ?sc ?ec p b of None \<Rightarrow> [] | Some x \<Rightarrow> x) @
          wanted content rng (Suc p) = wanted content rng p"
        using r [OF b] cut_chunk_wanted [OF assms(1) less.prems(4) p, of content] by simp
      show ?thesis
      proof (cases "cut_chunk rng ?sc ?ec p b")
        case None
        with run f Cons kr k live b op have "?loop (Suc i) n' pend' fst_chunk s' = (body, t)" by simp
        with IH ok None cut show ?thesis by simp
      next
        case (Some x)
        define s2 where "s2 = (let s1 = upd (record_bytes_enqueued (length x)) s'
          in if fst_chunk then upd (record_first_chunk (rx_elapsed rx i)) s1 else s1)"
        have "good s2" using ok upd_good by (simp add: s2_def Let_def)
        obtain rest s3 where l: "?loop (Suc i) n' pend' False s2 = (rest, s3)"
          by (cases "?loop (Suc i) n' pend' False s2")
        from IH [OF this \<open>good s2\<close>] cut Some
        have "body_ok rx (wanted content rng p) (Inr x # rest) \<and> good s3"
          by (auto dest: body_ok_Cons [of _ _ _ x])
        then show ?thesis
          using run f Cons kr k live b op Some l ok
          by (auto simp: s2_def Let_def intro: body_ok_stop split: if_splits)
      qed
    qed
  qed
qed

lemma create_stream_pipe_body:
  assumes "br_start rng \<le> br_end rng" and "good s"
    and "create_stream_pipe fetch show_err upd rx rng s = (body, t)"
  shows "body_ok rx (take (Suc (br_end rng) - br_start rng) (drop (br_start rng) content)) body \<and>
    good t"
proof -
  have "pending_ok (br_start rng div CHUNK_SIZE) (br_start rng div CHUNK_SIZE) []"
    by (simp add: pending_ok_def)
  moreover have "br_start rng div CHUNK_SIZE \<le> Suc (br_end rng div CHUNK_SIZE)"
    using div_le_mono [OF assms(1), of CHUNK_SIZE] by simp
  ultimately show ?thesis
    using pipe_loop_body [OF assms(1) upd_good [OF assms(2)], of "br_start rng div CHUNK_SIZE"
        "br_start rng div CHUNK_SIZE" "[]"] assms(3)
    by (simp add: create_stream_pipe_def Let_def wanted_start)
qed

end

text \<open>A source that always delivers makes a body without an error, complete for an open receiver.\<close>

locale live_chunk_source = chunk_source +
  assumes fetch_live: "good s \<Longrightarrow> \<exists>b s'. fetch k s = (Inr b, s')"
begin

definition served :: "(nat \<times> ('b + bytes)) list \<Rightarrow> bool" where
  "served pending \<longleftrightarrow> (\<forall>k r. (k, r) \<in> set pending \<longrightarrow> (\<exists>b. r = Inr b))"

lemma fill_pending_served:
  "good s \<Longrightarrow> served pending \<Longrightarrow> fill_pending fetch e n pending s = (n', pending', s') \<Longrightarrow>
   good s' \<and> served pending'"
proof (induction "Suc e - n" arbitrary: n pending s)
  case 0
  then show ?case by (auto simp: fill_pending.simps [of fetch e n])
next
  case (Suc k)
  from Suc.hyps(2) have n: "n \<le> e" by simp
  obtain b t where b: "fetch n s = (Inr b, t)" using fetch_live [OF Suc.prems(1)] by blast
  show ?case
  proof (cases "length pending < STREAM_PREFETCH_CHUNKS")
    case True
    have "good t" "served (pending @ [(n, Inr b)])"
      using fetch_good [OF Suc.prems(1) b] Suc.prems(2) by (auto simp: served_def)
    moreover have "fill_pending fetch e (Suc n) (pending @ [(n, Inr b)]) t = (n', pending', s')"
      using True n Suc.prems(3) b by (simp add: fill_pending.simps [of fetch e n])
    ultimately show ?thesis using Suc.hyps by (intro Suc.hyps(1)) auto
  next
    case False
    with Suc.prems show ?thesis by (simp add: fill_pending.simps [of fetch e n])
  qed
qed

lemma pipe_loop_served:
  "good s \<Longrightarrow> served pending \<Longrightarrow>
   pipe_loop fetch show_err upd rx rng sc ec i n pending fc s = (body, t) \<Longrightarrow> Inl m \<notin> set body"
proof (induction "(Suc ec - n) + length pending" arbitrary: i n pending fc s body t rule: less_induct)
  case less
  obtain n' pend s' where f: "fill_pending fetch ec n pending s = (n', pend, s')"
    by (metis prod_cases3)
  from fill_pending_served [OF less.prems(1,2) f] have g: "good s'" and sv: "served pend" by auto
  note run = less.prems(3) [unfolded pipe_loop.simps [of fetch show_err upd rx rng sc ec i n pending fc s]]
  show ?case
  proof (cases pend)
    case Nil
    with run f show ?thesis by (auto split: if_splits)
  next
    case (Cons kr pend')
    obtain k b where kr: "kr = (k, Inr b)" using sv Cons by (cases kr) (auto simp: served_def)
    have IH: "Inl m \<notin> set body'"
      if "pipe_loop fetch show_err upd rx rng sc ec j n' pend' fc' s1 = (body', t')" "good s1"
      for j fc' s1 body' t'
      using fill_pending_measure [OF f] Cons sv that
      by (intro less.hyps [of n' pend' s1 j fc' body' t']) (auto simp: served_def)
    show ?thesis
      using run f Cons kr g upd_good
      by (auto simp: Let_def split: if_splits option.splits prod.splits dest!: IH)
  qed
qed

lemma create_stream_pipe_complete:
  assumes "br_start rng \<le> br_end rng" and "good s"
    and "create_stream_pipe fetch show_err upd rx rng s = (body, t)"
    and "\<And>i. \<not> rx_closed rx i \<and> rx_sent rx i"
  shows "\<exists>pieces. body = map Inr pieces \<and>
    concat pieces = take (Suc (br_end rng) - br_start rng) (drop (br_start rng) content)"
proof -
  have "Inl m \<notin> set body" for m
    using assms(3) unfolding create_stream_pipe_def Let_def
    by (rule pipe_loop_served [OF upd_good [OF assms(2)], rotated]) (simp add: served_def)
  moreover from create_stream_pipe_body [OF assms(1-3)] obtain pieces errs rest where
    "body = map Inr pieces @ map Inl errs"
    "concat pieces @ rest = take (Suc (br_end rng) - br_start rng) (drop (br_start rng) content)"
    "errs = [] \<longrightarrow> rest = []"
    using assms(4) unfolding body_ok_def by blast
  ultimately show ?thesis by (cases errs) auto
qed

end

end
