(* ===== verification/Circuit_Breaker.thy ===== *)
theory Circuit_Breaker
  imports Prelude
begin

text \<open>
  The worker circuit breaker, \<open>crates/stream/src/circuit_breaker.rs\<close>: one health state per worker
  behind a lock, the quarantine with its expiry, and the interface the worker pool relies on. The
  lock makes each method atomic, so each is one function of the state; the clock reading
  \<open>Instant::now()\<close> is the argument \<open>now\<close>.
\<close>

datatype worker_state = Healthy | Quarantined instant

record circuit_breaker =
  worker_states :: "worker_state list"

definition CircuitBreaker_new :: "nat \<Rightarrow> circuit_breaker" where
  "CircuitBreaker_new worker_count = \<lparr>worker_states = replicate worker_count Healthy\<rparr>"

definition worker_slot :: "circuit_breaker \<Rightarrow> nat \<Rightarrow> worker_state option" where
  "worker_slot cb i = (if i < length (worker_states cb) then Some (worker_states cb ! i) else None)"

definition is_available :: "instant \<Rightarrow> circuit_breaker \<Rightarrow> nat \<Rightarrow> bool" where
  "is_available now cb worker_id =
     (case worker_slot cb worker_id of
        Some Healthy \<Rightarrow> True
      | Some (Quarantined until) \<Rightarrow> now \<ge> until
      | None \<Rightarrow> False)"

definition quarantine :: "instant \<Rightarrow> nat \<Rightarrow> duration \<Rightarrow> circuit_breaker \<Rightarrow> circuit_breaker" where
  "quarantine now worker_id dur cb =
     (let until = now + dur
      in case worker_slot cb worker_id of
           Some _ \<Rightarrow> cb\<lparr>worker_states := (worker_states cb)[worker_id := Quarantined until]\<rparr>
         | None \<Rightarrow> cb)"

definition record_success :: "nat \<Rightarrow> circuit_breaker \<Rightarrow> circuit_breaker" where
  "record_success worker_id cb =
     (case worker_slot cb worker_id of
        Some (Quarantined _) \<Rightarrow> cb\<lparr>worker_states := (worker_states cb)[worker_id := Healthy]\<rparr>
      | _ \<Rightarrow> cb)"

definition quarantine_remaining :: "instant \<Rightarrow> circuit_breaker \<Rightarrow> nat \<Rightarrow> duration option" where
  "quarantine_remaining now cb worker_id =
     (case worker_slot cb worker_id of
        Some (Quarantined until) \<Rightarrow> if until > now then Some (until - now) else None
      | _ \<Rightarrow> None)"

definition available_count :: "instant \<Rightarrow> circuit_breaker \<Rightarrow> nat" where
  "available_count now cb =
     length (filter (\<lambda>s. case s of Healthy \<Rightarrow> True | Quarantined until \<Rightarrow> now \<ge> until)
       (worker_states cb))"

definition healthy_worker_count :: "instant \<Rightarrow> circuit_breaker \<Rightarrow> nat" where
  "healthy_worker_count now cb = available_count now cb"

section \<open>The interface of a breaker\<close>

locale availability =
  fixes workers :: "'b \<Rightarrow> nat"
    and avail :: "instant \<Rightarrow> 'b \<Rightarrow> nat \<Rightarrow> bool"
    and quar :: "instant \<Rightarrow> nat \<Rightarrow> duration \<Rightarrow> 'b \<Rightarrow> 'b"
    and succeed :: "nat \<Rightarrow> 'b \<Rightarrow> 'b"
    and remaining :: "instant \<Rightarrow> 'b \<Rightarrow> nat \<Rightarrow> duration option"
  assumes workers_quar: "workers (quar t i d b) = workers b"
    and workers_succeed: "workers (succeed i b) = workers b"
    and avail_range: "avail t b i \<Longrightarrow> i < workers b"
    and avail_quar: "avail t (quar t0 i d b) j \<longleftrightarrow>
           (if j = i then i < workers b \<and> t0 + d \<le> t else avail t b j)"
    and avail_succeed: "avail t (succeed i b) j \<longleftrightarrow>
           (if j = i then i < workers b else avail t b j)"
    and remaining_Some: "remaining t b i = Some r \<longleftrightarrow>
           i < workers b \<and> 0 < r \<and> \<not> avail t b i \<and> avail (t + r) b i \<and>
           (\<forall>t' < t + r. \<not> avail t' b i)"
    and remaining_None: "remaining t b i = None \<Longrightarrow> i < workers b \<Longrightarrow> avail t b i"
    and avail_mono: "avail t b i \<Longrightarrow> t \<le> t' \<Longrightarrow> avail t' b i"
begin

text \<open>Waiting for the remaining quarantine is exactly long enough, never longer.\<close>

lemma wait_is_exact:
  assumes "i < workers b" and "\<not> avail t b i"
  shows "\<exists>r. remaining t b i = Some r \<and> avail (t + r) b i \<and> (\<forall>t' < t + r. \<not> avail t' b i)"
proof (cases "remaining t b i")
  case None
  from remaining_None [OF this assms(1)] assms(2) show ?thesis by contradiction
next
  case (Some r)
  with remaining_Some [of t b i r] show ?thesis by simp
qed

text \<open>A quarantined worker stays unavailable until the quarantine ends, whatever else happens to
  other workers in between.\<close>

lemma quar_then_other:
  "i \<noteq> j \<Longrightarrow> avail t (quar t1 j d1 (quar t0 i d b)) i \<longleftrightarrow> i < workers b \<and> t0 + d \<le> t"
  by (simp add: avail_quar)

lemma quar_succeed: "avail t (succeed i (quar t0 i d b)) i \<longleftrightarrow> i < workers b"
  by (simp add: avail_succeed workers_quar)

end

lemma worker_slot_update:
  "worker_slot (cb\<lparr>worker_states := (worker_states cb)[i := s]\<rparr>) j =
     (if j = i \<and> i < length (worker_states cb) then Some s else worker_slot cb j)"
  by (simp add: worker_slot_def nth_list_update)

lemma worker_slot_Some_iff: "worker_slot cb i = Some s \<longleftrightarrow> i < length (worker_states cb) \<and> worker_states cb ! i = s"
  by (auto simp: worker_slot_def)

lemma worker_slot_None_iff: "worker_slot cb i = None \<longleftrightarrow> length (worker_states cb) \<le> i"
  by (auto simp: worker_slot_def)

lemma length_quarantine [simp]:
  "length (worker_states (quarantine now i d cb)) = length (worker_states cb)"
  by (auto simp: quarantine_def Let_def split: option.splits)

lemma length_record_success [simp]:
  "length (worker_states (record_success i cb)) = length (worker_states cb)"
  by (auto simp: record_success_def split: option.splits worker_state.splits)

lemma worker_slot_quarantine:
  "worker_slot (quarantine now i d cb) j =
     (if j = i \<and> i < length (worker_states cb) then Some (Quarantined (now + d)) else worker_slot cb j)"
  by (auto simp: quarantine_def Let_def worker_slot_update worker_slot_None_iff split: option.splits)

lemma worker_slot_record_success:
  "worker_slot (record_success i cb) j =
     (if j = i \<and> i < length (worker_states cb) then Some Healthy else worker_slot cb j)"
  by (auto simp: record_success_def worker_slot_update worker_slot_None_iff worker_slot_Some_iff
      split: option.splits worker_state.splits)

lemma is_available_range: "is_available t cb i \<Longrightarrow> i < length (worker_states cb)"
  by (auto simp: is_available_def worker_slot_def split: if_splits)

lemma is_available_quarantine:
  "is_available t (quarantine t0 i d cb) j \<longleftrightarrow>
     (if j = i then i < length (worker_states cb) \<and> t0 + d \<le> t else is_available t cb j)"
proof -
  have "i \<ge> length (worker_states cb) \<Longrightarrow> worker_slot cb i = None" by (simp add: worker_slot_def)
  then show ?thesis by (cases "j = i") (auto simp: is_available_def worker_slot_quarantine)
qed

lemma is_available_record_success:
  "is_available t (record_success i cb) j \<longleftrightarrow>
     (if j = i then i < length (worker_states cb) else is_available t cb j)"
proof -
  have "i \<ge> length (worker_states cb) \<Longrightarrow> worker_slot cb i = None" by (simp add: worker_slot_def)
  then show ?thesis by (cases "j = i") (auto simp: is_available_def worker_slot_record_success)
qed

interpretation cb: availability "\<lambda>cb. length (worker_states cb)" is_available quarantine
  record_success quarantine_remaining
proof (unfold_locales, goal_cases)
  case (6 t b i r)
  show ?case
    by (auto simp: quarantine_remaining_def is_available_def worker_slot_def
        split: worker_state.splits option.splits if_splits)
       (metis add_diff_cancel_left' le_add_diff_inverse less_irrefl_nat linorder_not_less
         nat_less_le order_refl)+
next
  case (7 t b i)
  then show ?case
    by (auto simp: quarantine_remaining_def is_available_def worker_slot_def
        split: worker_state.splits option.splits if_splits)
next
  case (8 t b i t')
  then show ?case
    by (auto simp: is_available_def split: worker_state.splits option.splits)
qed (auto simp: is_available_quarantine is_available_record_success dest: is_available_range)

lemma available_count_eq:
  "available_count now cb = card {i. is_available now cb i}"
proof -
  have "{i. is_available now cb i} =
      {i. i < length (worker_states cb) \<and>
        (case worker_states cb ! i of Healthy \<Rightarrow> True | Quarantined until \<Rightarrow> now \<ge> until)}"
    by (auto simp: is_available_def worker_slot_def split: if_splits worker_state.splits option.splits)
  then show ?thesis
    by (simp add: available_count_def length_filter_conv_card)
qed

section \<open>Properties\<close>

text \<open>
  A worker that is quarantined at time \<open>t0\<close> for \<open>d\<close> is unavailable exactly until \<open>t0 + d\<close>, no other
  worker's availability changes, a success lifts the quarantine at once, and at every moment before its
  end \<open>quarantine_remaining\<close> is the exact time still to wait.
\<close>
theorem quarantine_exact:
  "(is_available t (quarantine t0 i d cb) j \<longleftrightarrow>
     (if j = i then i < length (worker_states cb) \<and> t0 + d \<le> t else is_available t cb j)) \<and>
   (is_available t (record_success i (quarantine t0 i d cb)) j \<longleftrightarrow>
     (if j = i then i < length (worker_states cb) else is_available t cb j)) \<and>
   quarantine_remaining t (quarantine t0 i d cb) i =
     (if i < length (worker_states cb) \<and> t < t0 + d then Some (t0 + d - t) else None) \<and>
   available_count t cb = card {k. is_available t cb k}"
  by (auto simp: cb.avail_quar cb.avail_succeed available_count_eq quarantine_remaining_def
      worker_slot_quarantine worker_slot_None_iff [THEN iffD2])

end
