(* ===== verification/Retry.thy ===== *)
theory Retry
  imports Prelude
begin

text \<open>
  The shared retry budget, \<open>crates/core/src/retry.rs\<close> and the caps of \<open>crates/core/src/limits.rs\<close>:
  the saturating exponential backoff, the xorshift generator behind the jitter, and the parsing and
  capping of the operator's environment overrides. The environment is an argument, as it is of
  \<open>from_lookup\<close>. The jitter multiplier itself is floating point and is not modelled; the
  53-bit numerator of the fraction it scales is.
\<close>

definition MAX_DOCUMENT_BYTES :: nat where
  "MAX_DOCUMENT_BYTES = 256 * 1024 * 1024"

definition MAX_RETRIES :: nat where
  "MAX_RETRIES = 10"

definition MAX_RETRY_BASE_MS :: nat where
  "MAX_RETRY_BASE_MS = 60000"

definition ENV_MAX_RETRIES :: string where
  "ENV_MAX_RETRIES = ''ALAC_MAX_RETRIES''"

definition ENV_RETRY_BASE_MS :: string where
  "ENV_RETRY_BASE_MS = ''ALAC_RETRY_BASE_MS''"

definition DEFAULT_RETRIES :: nat where
  "DEFAULT_RETRIES = 3"

definition DEFAULT_RETRY_BASE_MS :: nat where
  "DEFAULT_RETRY_BASE_MS = 2000"

definition MAX_BACKOFF_EXPONENT :: nat where
  "MAX_BACKOFF_EXPONENT = 31"

text \<open>The retry index is a \<open>u32\<close>, the base delay a \<open>u64\<close> number of milliseconds.\<close>

definition exponential_delay_ms :: "u64 \<Rightarrow> u32 \<Rightarrow> u64" where
  "exponential_delay_ms base_delay_ms retry_index =
     (let multiplier = (case checked_shl (1 :: u64) (min (unat retry_index) MAX_BACKOFF_EXPONENT) of
                          Some m \<Rightarrow> m | None \<Rightarrow> - 1)
      in saturating_mul base_delay_ms multiplier)"

definition exponential_delay :: "u64 \<Rightarrow> u32 \<Rightarrow> duration" where
  "exponential_delay base_delay_ms retry_index =
     from_millis (unat (exponential_delay_ms base_delay_ms retry_index))"

text \<open>
  \<open>jitter_fraction\<close>: the process-wide state, seeded from the wall clock while it is zero (the
  clock reading is an argument, \<open>None\<close> when the clock is before the epoch). It returns the new
  state and the numerator of the fraction over \<open>2 ^ 53\<close>.
\<close>

definition xorshift :: "u64 \<Rightarrow> u64" where
  "xorshift s0 =
     (let s1 = s0 XOR push_bit 13 s0;
          s2 = s1 XOR drop_bit 7 s1
      in s2 XOR push_bit 17 s2)"

definition jitter_fraction :: "u64 option \<Rightarrow> u64 \<Rightarrow> u64 \<times> u64" where
  "jitter_fraction clock_nanos loaded =
     (let seeded = (if loaded = 0
                    then (case clock_nanos of Some d \<Rightarrow> d | None \<Rightarrow> 0x9E3779B97F4A7C15) OR 1
                    else loaded);
          state = xorshift seeded
      in (state, drop_bit 11 state))"

record retry_policy =
  rp_total_attempts :: u32
  rp_base_delay_ms :: u64

definition RetryPolicy_new :: "u32 \<Rightarrow> u64 \<Rightarrow> retry_policy" where
  "RetryPolicy_new total_attempts base_delay_ms =
     \<lparr>rp_total_attempts = total_attempts, rp_base_delay_ms = base_delay_ms\<rparr>"

definition delay_before_retry :: "retry_policy \<Rightarrow> u32 \<Rightarrow> duration" where
  "delay_before_retry p retry_index = exponential_delay (rp_base_delay_ms p) retry_index"

definition RetryPolicy_default :: retry_policy where
  "RetryPolicy_default = RetryPolicy_new 3 500"

record retry_config =
  rc_retries :: u32
  rc_base_delay_ms :: u64

definition RetryConfig_DEFAULT :: retry_config where
  "RetryConfig_DEFAULT =
     \<lparr>rc_retries = of_nat DEFAULT_RETRIES, rc_base_delay_ms = of_nat DEFAULT_RETRY_BASE_MS\<rparr>"

definition capped_lookup :: "nat \<Rightarrow> nat \<Rightarrow> nat \<Rightarrow> string option \<Rightarrow> nat" where
  "capped_lookup type_max cap fallback value =
     (case value of
        None \<Rightarrow> fallback
      | Some s \<Rightarrow> (case parse_unsigned type_max s of
                     None \<Rightarrow> fallback
                   | Some n \<Rightarrow> if n \<le> cap then n else fallback))"

definition from_lookup :: "(string \<Rightarrow> string option) \<Rightarrow> retry_config" where
  "from_lookup lookup =
     (let retries = capped_lookup u32_max MAX_RETRIES DEFAULT_RETRIES (lookup ENV_MAX_RETRIES);
          base_delay_ms = capped_lookup u64_max MAX_RETRY_BASE_MS DEFAULT_RETRY_BASE_MS
                            (lookup ENV_RETRY_BASE_MS)
      in \<lparr>rc_retries = of_nat retries, rc_base_delay_ms = of_nat base_delay_ms\<rparr>)"

definition total_attempts :: "retry_config \<Rightarrow> u32" where
  "total_attempts c = saturating_add (rc_retries c) 1"

definition policy :: "retry_config \<Rightarrow> retry_policy" where
  "policy c = RetryPolicy_new (total_attempts c) (rc_base_delay_ms c)"

section \<open>Backoff\<close>

lemma unat_push_bit_one: "n < 64 \<Longrightarrow> unat (push_bit n (1 :: u64)) = 2 ^ n"
proof -
  assume "n < 64"
  then have "(2 :: nat) ^ n < 2 ^ 64" by (rule power_strict_increasing) simp
  moreover have "push_bit n (1 :: u64) = of_nat (2 ^ n)" by (simp add: push_bit_eq_mult)
  ultimately show ?thesis by (simp only: unat_of_nat len_num1 len_bit0 len_num0) simp
qed

lemma unat_exponential_delay_ms:
  "unat (exponential_delay_ms b i) = min (unat b * 2 ^ min (unat i) 31) (2 ^ 64 - 1)"
proof -
  have n: "min (unat i) 31 < 64" by linarith
  then have "exponential_delay_ms b i = saturating_mul b (push_bit (min (unat i) 31) 1)"
    by (simp add: exponential_delay_ms_def checked_shl_def MAX_BACKOFF_EXPONENT_def Let_def)
  then show ?thesis by (simp only: unat_saturating_mul unat_push_bit_one [OF n]) simp
qed

lemma exponential_delay_ms_mono:
  assumes "unat i \<le> unat j"
  shows "unat (exponential_delay_ms b i) \<le> unat (exponential_delay_ms b j)"
proof -
  have "unat b * 2 ^ min (unat i) 31 \<le> unat b * 2 ^ min (unat j) 31"
    using assms by (intro mult_le_mono power_increasing) auto
  then show ?thesis unfolding unat_exponential_delay_ms by linarith
qed

lemma exponential_delay_le:
  "unat i \<le> unat j \<Longrightarrow> exponential_delay b i \<le> exponential_delay b j"
  by (simp add: exponential_delay_def exponential_delay_ms_mono)

section \<open>The xorshift generator\<close>

lemma funpow_fixpoint: "f x = x \<Longrightarrow> (f ^^ n) x = x"
  by (induction n) auto

lemma funpow_push_bit: "((push_bit n) ^^ k) (x :: u64) = push_bit (k * n) x"
  by (induction k) (simp_all add: push_bit_push_bit add.commute)

lemma funpow_drop_bit: "((drop_bit n) ^^ k) (x :: u64) = drop_bit (k * n) x"
  by (induction k) (simp_all add: drop_bit_drop_bit add.commute)

lemma xor_zero_eq: "x XOR y = 0 \<Longrightarrow> y = (x :: u64)"
proof -
  assume "x XOR y = 0"
  then have "x XOR (x XOR y) = x" by simp
  then show "y = x" by (simp add: xor.assoc [symmetric])
qed

lemma push_bit_xor_zero: "x XOR push_bit n x = 0 \<Longrightarrow> 64 \<le> k * n \<Longrightarrow> (x :: u64) = 0"
proof -
  assume x: "x XOR push_bit n x = 0" and k: "64 \<le> k * n"
  from x have "push_bit n x = x" by (rule xor_zero_eq)
  then have "push_bit (k * n) x = x"
    using funpow_fixpoint [of "push_bit n" x k] by (simp add: funpow_push_bit)
  moreover from k have "push_bit (k * n) x = 0"
    by (intro bit_word_eqI) (auto simp: bit_push_bit_iff)
  ultimately show "x = 0" by simp
qed

lemma drop_bit_xor_zero: "x XOR drop_bit n x = 0 \<Longrightarrow> 64 \<le> k * n \<Longrightarrow> (x :: u64) = 0"
proof -
  assume x: "x XOR drop_bit n x = 0" and k: "64 \<le> k * n"
  from x have "drop_bit n x = x" by (rule xor_zero_eq)
  then have "drop_bit (k * n) x = x"
    using funpow_fixpoint [of "drop_bit n" x k] by (simp add: funpow_drop_bit)
  moreover from k have "drop_bit (k * n) x = 0"
    by (intro bit_word_eqI) (auto simp: bit_drop_bit_eq dest: bit_imp_le_length)
  ultimately show "x = 0" by simp
qed

lemma xorshift_nonzero: "s \<noteq> 0 \<Longrightarrow> xorshift s \<noteq> 0"
proof -
  assume "s \<noteq> 0"
  then have 1: "s XOR push_bit 13 s \<noteq> 0" using push_bit_xor_zero [of s 13 5] by auto
  then have 2: "(s XOR push_bit 13 s) XOR drop_bit 7 (s XOR push_bit 13 s) \<noteq> 0"
    using drop_bit_xor_zero [of "s XOR push_bit 13 s" 7 10] by auto
  define x where "x = (s XOR push_bit 13 s) XOR drop_bit 7 (s XOR push_bit 13 s)"
  from 2 have "x XOR push_bit 17 x \<noteq> 0" using push_bit_xor_zero [of x 17 4] by (auto simp: x_def)
  then show "xorshift s \<noteq> 0" by (simp add: xorshift_def Let_def x_def)
qed

section \<open>The environment overrides\<close>

lemma capped_lookup_bound:
  "fallback \<le> cap \<Longrightarrow> capped_lookup m cap fallback v \<le> cap"
  by (auto simp: capped_lookup_def split: option.splits)

lemma capped_lookup_override:
  "n \<le> cap \<Longrightarrow> n \<le> m \<Longrightarrow> capped_lookup m cap d (Some (show_nat n)) = n"
  by (simp add: capped_lookup_def parse_unsigned_show_nat)

section \<open>Properties\<close>

lemma from_lookup_fields:
  "unat (rc_retries (from_lookup env)) \<le> MAX_RETRIES \<and>
   unat (rc_base_delay_ms (from_lookup env)) \<le> MAX_RETRY_BASE_MS"
proof -
  have "capped_lookup u32_max MAX_RETRIES DEFAULT_RETRIES v \<le> MAX_RETRIES" for v
    by (rule capped_lookup_bound) (simp add: DEFAULT_RETRIES_def MAX_RETRIES_def)
  moreover have "capped_lookup u64_max MAX_RETRY_BASE_MS DEFAULT_RETRY_BASE_MS v \<le> MAX_RETRY_BASE_MS" for v
    by (rule capped_lookup_bound) (simp add: DEFAULT_RETRY_BASE_MS_def MAX_RETRY_BASE_MS_def)
  moreover have "unat (of_nat n :: u32) \<le> n" "unat (of_nat n :: u64) \<le> n" for n
    by (simp_all add: unat_of_nat)
  ultimately show ?thesis unfolding from_lookup_def Let_def by simp (meson order_trans)
qed

text \<open>
  Whatever the operator's environment holds, the configured retry policy makes between one and
  eleven attempts, and its backoff before retry \<open>i\<close> is exactly the base delay, at most a minute,
  doubled \<open>min i 31\<close> times: neither the \<open>u32\<close> nor the \<open>u64\<close> arithmetic saturates.
\<close>
theorem configured_backoff_exact:
  fixes env :: "string \<Rightarrow> string option" and i :: u32
  defines "p \<equiv> policy (from_lookup env)"
  shows "1 \<le> unat (rp_total_attempts p) \<and> unat (rp_total_attempts p) \<le> MAX_RETRIES + 1 \<and>
    unat (rp_base_delay_ms p) \<le> MAX_RETRY_BASE_MS \<and>
    delay_before_retry p i = from_millis (unat (rp_base_delay_ms p) * 2 ^ min (unat i) 31)"
proof (intro conjI)
  have r: "unat (rc_retries (from_lookup env)) \<le> 10" and b: "unat (rc_base_delay_ms (from_lookup env)) \<le> 60000"
    using from_lookup_fields [of env] by (simp_all add: MAX_RETRIES_def MAX_RETRY_BASE_MS_def)
  have ta: "unat (rp_total_attempts p) = unat (rc_retries (from_lookup env)) + 1"
    using r by (simp add: p_def policy_def RetryPolicy_new_def total_attempts_def unat_saturating_add)
  then show "1 \<le> unat (rp_total_attempts p)" "unat (rp_total_attempts p) \<le> MAX_RETRIES + 1"
    using r by (simp_all add: MAX_RETRIES_def)
  have bd: "rp_base_delay_ms p = rc_base_delay_ms (from_lookup env)"
    by (simp add: p_def policy_def RetryPolicy_new_def)
  then show "unat (rp_base_delay_ms p) \<le> MAX_RETRY_BASE_MS" using b by (simp add: MAX_RETRY_BASE_MS_def)
  have "unat (rp_base_delay_ms p) * 2 ^ min (unat i) 31 \<le> 60000 * 2 ^ 31"
    using b bd by (intro mult_le_mono power_increasing) auto
  also have "\<dots> \<le> (2 ^ 64 - 1 :: nat)" by simp
  finally show "delay_before_retry p i = from_millis (unat (rp_base_delay_ms p) * 2 ^ min (unat i) 31)"
    by (simp only: delay_before_retry_def exponential_delay_def unat_exponential_delay_ms min_absorb1)
qed

text \<open>The exponent is clamped at 31, although the doubled delay would still fit in 64 bits.\<close>

lemma backoff_clamped: "exponential_delay 1 32 = exponential_delay 1 31"
  by (simp add: exponential_delay_def unat_exponential_delay_ms)

end
