(* ===== verification/Worker_Pool.thy ===== *)
theory Worker_Pool
  imports Circuit_Breaker Retry Chunk_Cache Stream_Metrics
begin

text \<open>
  The stream worker pool, \<open>crates/stream/src/worker_pool.rs\<close>: the construction of the pool, the
  least-loaded dispatch over the circuit breaker, the upload leases, and the bounded retry loop
  around Telegram's \<open>upload.getFile\<close>.

  A worker's Telegram client, the base64 decoder and the random numbers are code outside the
  repository: they are arguments. Semaphores are counters of free permits, and a semaphore shared
  through an \<open>Arc\<close> is named by a number. \<open>usize\<close> is 64 bits wide.
\<close>

definition usize_max :: nat where
  "usize_max = 2 ^ 64 - 1"

definition MAX_FETCH_ATTEMPTS :: nat where
  "MAX_FETCH_ATTEMPTS = 4"

definition CHUNK_FETCH_DEADLINE :: duration where
  "CHUNK_FETCH_DEADLINE = from_secs 25"

definition RPC_TIMEOUT :: duration where
  "RPC_TIMEOUT = from_secs 12"

definition FETCH_RETRY_BASE_MS :: u64 where
  "FETCH_RETRY_BASE_MS = 200"

definition MAX_RETRY_BACKOFF :: duration where
  "MAX_RETRY_BACKOFF = from_secs 2"

section \<open>State\<close>

record worker_instance =
  w_id :: nat
  w_in_flight :: nat
  w_username :: "string option"
  w_home_dc :: i32
  w_slow_until :: "instant option"
  w_upload_slot :: nat

record stream_worker_pool =
  p_workers :: "worker_instance list"
  p_breaker :: circuit_breaker
  p_rr_cursor :: u64
  p_primary :: "worker_instance option"
  p_metrics :: stream_metrics
  p_rpc_free :: nat
  p_primary_upload_slot :: nat
  p_upload_free :: "nat \<Rightarrow> nat"

text \<open>\<open>extract_dc_from_session_str\<close>, over the two base64 decoders.\<close>

definition extract_dc_from_session_str ::
  "(string \<Rightarrow> bytes option) \<Rightarrow> (string \<Rightarrow> bytes option) \<Rightarrow> string \<Rightarrow> i32 option" where
  "extract_dc_from_session_str decode_url decode_std session_str =
     (let s = trim session_str
      in case (case decode_url s of Some d \<Rightarrow> Some d | None \<Rightarrow> decode_std s) of
           None \<Rightarrow> None
         | Some decoded \<Rightarrow> if length decoded \<ge> 2 then Some (uint (decoded ! 1)) else None)"

definition count_upload_sessions :: "nat \<Rightarrow> nat list \<Rightarrow> nat" where
  "count_upload_sessions primary slots = 1 + length (filter (\<lambda>slot. slot \<noteq> primary) slots)"

text \<open>\<open>claim_upload_worker\<close>: the first candidate whose semaphore has a permit, which it takes.\<close>

fun claim_upload_worker :: "('t \<times> nat) list \<Rightarrow> (nat \<Rightarrow> nat) \<Rightarrow> ('t \<times> nat) option \<times> (nat \<Rightarrow> nat)" where
  "claim_upload_worker [] free = (None, free)"
| "claim_upload_worker ((worker, slot) # cs) free =
     (if free slot > 0 then (Some (worker, slot), free(slot := free slot - 1))
      else claim_upload_worker cs free)"

definition pool_empty :: stream_worker_pool where
  "pool_empty =
     \<lparr>p_workers = [], p_breaker = CircuitBreaker_new 0, p_rr_cursor = 0, p_primary = None,
      p_metrics = StreamMetrics_default, p_rpc_free = 1, p_primary_upload_slot = 0,
      p_upload_free = (\<lambda>_. 1)\<rparr>"

section \<open>Construction\<close>

text \<open>
  A connected Telegram client as the pool sees it: the user name from \<open>get_me\<close> and the session
  string \<open>export_session_string\<close> returns, when each call succeeds.
\<close>

record connected =
  con_username :: "string option"
  con_exported :: "string option"

definition valid_tokens :: "string list \<Rightarrow> string list" where
  "valid_tokens tokens = filter (\<lambda>t. t \<noteq> []) (map trim tokens)"

definition primary_instance ::
  "(string \<Rightarrow> i32 option) \<Rightarrow> nat \<Rightarrow> nat \<Rightarrow> connected \<Rightarrow> worker_instance" where
  "primary_instance dc_of wid upload_slot c =
     \<lparr>w_id = wid, w_in_flight = 0, w_username = con_username c,
      w_home_dc = (case Option.bind (con_exported c) dc_of of Some dc \<Rightarrow> dc | None \<Rightarrow> 0),
      w_slow_until = None, w_upload_slot = upload_slot\<rparr>"

text \<open>
  One dedicated worker. \<open>saved\<close> is the session the store holds for the token, \<open>reconnect\<close> the result
  of connecting with it and calling \<open>get_me\<close>, \<open>sign_in\<close> a fresh bot sign-in.
\<close>

definition init_worker ::
  "(string \<Rightarrow> i32 option) \<Rightarrow> (nat \<Rightarrow> string \<Rightarrow> string option) \<Rightarrow>
   (nat \<Rightarrow> string \<Rightarrow> connected option) \<Rightarrow> (nat \<Rightarrow> string \<Rightarrow> stream_error + connected) \<Rightarrow>
   nat \<Rightarrow> nat \<Rightarrow> string \<Rightarrow> stream_error + worker_instance" where
  "init_worker dc_of saved reconnect sign_in upload_slot idx token =
     (let saved_session = saved idx token;
          home_dc0 = (case Option.bind saved_session dc_of of Some dc \<Rightarrow> dc | None \<Rightarrow> 0);
          client = (case saved_session of
                      Some session \<Rightarrow> (case reconnect idx session of
                                         Some c \<Rightarrow> Inr c
                                       | None \<Rightarrow> sign_in idx token)
                    | None \<Rightarrow> sign_in idx token)
      in case client of
           Inl e \<Rightarrow> Inl e
         | Inr c \<Rightarrow>
             let home_dc = (if home_dc0 = 0
                            then (case Option.bind (con_exported c) dc_of of
                                    Some dc \<Rightarrow> dc | None \<Rightarrow> home_dc0)
                            else home_dc0)
             in Inr \<lparr>w_id = idx, w_in_flight = 0, w_username = con_username c,
                     w_home_dc = home_dc, w_slow_until = None, w_upload_slot = upload_slot\<rparr>)"

text \<open>The loop over the tokens; worker \<open>idx\<close> gets an upload semaphore of its own, \<open>Suc idx\<close>.\<close>

fun init_workers ::
  "(nat \<Rightarrow> string \<Rightarrow> stream_error + worker_instance) \<Rightarrow> nat \<Rightarrow> string list \<Rightarrow>
   stream_error + worker_instance list" where
  "init_workers init idx [] = Inr []"
| "init_workers init idx (token # tokens) =
     (case init idx token of
        Inl e \<Rightarrow> Inl e
      | Inr w \<Rightarrow> (case init_workers init (Suc idx) tokens of
                    Inl e \<Rightarrow> Inl e
                  | Inr ws \<Rightarrow> Inr (w # ws)))"

definition assemble_pool ::
  "worker_instance list \<Rightarrow> worker_instance option \<Rightarrow> stream_worker_pool" where
  "assemble_pool workers primary_worker =
     (let primary_slot = (if primary_worker \<noteq> None then 1 else 0);
          max_parallel_rpcs = max (length workers + primary_slot) 1
      in \<lparr>p_workers = workers, p_breaker = CircuitBreaker_new (length workers), p_rr_cursor = 0,
          p_primary = primary_worker, p_metrics = StreamMetrics_default,
          p_rpc_free = max_parallel_rpcs, p_primary_upload_slot = 0, p_upload_free = (\<lambda>_. 1)\<rparr>)"

definition StreamWorkerPool_new ::
  "(string \<Rightarrow> i32 option) \<Rightarrow> (nat \<Rightarrow> string \<Rightarrow> string option) \<Rightarrow>
   (nat \<Rightarrow> string \<Rightarrow> connected option) \<Rightarrow> (nat \<Rightarrow> string \<Rightarrow> stream_error + connected) \<Rightarrow>
   connected option \<Rightarrow> string list \<Rightarrow> stream_error + stream_worker_pool" where
  "StreamWorkerPool_new dc_of saved reconnect sign_in primary_fallback tokens =
     (if valid_tokens tokens = [] then
        (case primary_fallback of
           Some primary \<Rightarrow> Inr (assemble_pool [primary_instance dc_of 0 0 primary] None)
         | None \<Rightarrow> Inl AllWorkersUnavailable)
      else
        let primary_worker = map_option (primary_instance dc_of usize_max 0) primary_fallback
        in case init_workers
                  (\<lambda>idx. init_worker dc_of saved reconnect sign_in (Suc idx) idx) 0
                  (valid_tokens tokens) of
             Inl e \<Rightarrow> Inl e
           | Inr workers \<Rightarrow> Inr (assemble_pool workers primary_worker))"

section \<open>Dispatch\<close>

definition upload_session_count :: "stream_worker_pool \<Rightarrow> nat" where
  "upload_session_count p =
     count_upload_sessions (p_primary_upload_slot p) (map w_upload_slot (p_workers p))"

definition worker_count :: "stream_worker_pool \<Rightarrow> nat" where
  "worker_count p = length (p_workers p)"

definition available_worker_count :: "instant \<Rightarrow> stream_worker_pool \<Rightarrow> nat" where
  "available_worker_count now p = healthy_worker_count now (p_breaker p)"

text \<open>The scan of \<open>pick_least_loaded\<close> over the workers in rotated order.\<close>

fun scan_workers ::
  "(nat \<Rightarrow> bool) \<Rightarrow> worker_instance list \<Rightarrow> nat option \<Rightarrow> nat \<Rightarrow> nat option" where
  "scan_workers avail [] best min_in_flight = best"
| "scan_workers avail (w # ws) best min_in_flight =
     (if avail (w_id w) \<and> w_in_flight w < min_in_flight
      then scan_workers avail ws (Some (w_id w)) (w_in_flight w)
      else scan_workers avail ws best min_in_flight)"

definition pick_least_loaded ::
  "instant \<Rightarrow> stream_worker_pool \<Rightarrow> (stream_error + nat) \<times> stream_worker_pool" where
  "pick_least_loaded now p =
     (let n = length (p_workers p)
      in if n = 0 then (Inl AllWorkersUnavailable, p)
         else
           let start = unat (p_rr_cursor p) mod n;
               p' = p\<lparr>p_rr_cursor := p_rr_cursor p + 1\<rparr>;
               order = map (\<lambda>offset. p_workers p ! ((start + offset) mod n)) [0..<n]
           in (case scan_workers (is_available now (p_breaker p)) order None usize_max of
                 Some i \<Rightarrow> Inr i
               | None \<Rightarrow> Inl AllWorkersUnavailable, p'))"

definition select_worker_for_stream ::
  "instant \<Rightarrow> stream_worker_pool \<Rightarrow> (stream_error + nat) \<times> stream_worker_pool" where
  "select_worker_for_stream now p =
     (case pick_least_loaded now p of
        (Inr i, p') \<Rightarrow> (Inr i, p')
      | (Inl error, p') \<Rightarrow>
          (if p_primary p' \<noteq> None then Inr usize_max else Inl error, p'))"

definition worker_by_id :: "stream_worker_pool \<Rightarrow> nat \<Rightarrow> worker_instance option" where
  "worker_by_id p worker_id =
     (case List.find (\<lambda>w. w_id w = worker_id) (p_workers p) of
        Some w \<Rightarrow> Some w
      | None \<Rightarrow> (case p_primary p of
                   Some w \<Rightarrow> if w_id w = worker_id then Some w else None
                 | None \<Rightarrow> None))"

text \<open>
  A change to the worker with a given id, in the place \<open>worker_by_id\<close> finds it: the first worker
  with that id, otherwise the primary.
\<close>

fun update_first :: "('a \<Rightarrow> bool) \<Rightarrow> ('a \<Rightarrow> 'a) \<Rightarrow> 'a list \<Rightarrow> 'a list" where
  "update_first P f [] = []"
| "update_first P f (x # xs) = (if P x then f x # xs else x # update_first P f xs)"

definition update_worker ::
  "nat \<Rightarrow> (worker_instance \<Rightarrow> worker_instance) \<Rightarrow> stream_worker_pool \<Rightarrow> stream_worker_pool" where
  "update_worker i f p =
     (if List.find (\<lambda>w. w_id w = i) (p_workers p) \<noteq> None
      then p\<lparr>p_workers := update_first (\<lambda>w. w_id w = i) f (p_workers p)\<rparr>
      else p\<lparr>p_primary := map_option (\<lambda>w. if w_id w = i then f w else w) (p_primary p)\<rparr>)"

definition mark_worker_slow ::
  "instant \<Rightarrow> nat \<Rightarrow> duration \<Rightarrow> stream_worker_pool \<Rightarrow> stream_worker_pool" where
  "mark_worker_slow now worker_id dur p =
     (case worker_by_id p worker_id of
        Some _ \<Rightarrow> update_worker worker_id (\<lambda>w. w\<lparr>w_slow_until := Some (now + dur)\<rparr>) p
      | None \<Rightarrow> p)"

text \<open>
  Upload leases. A lease holds the permit of its worker's semaphore and one unit of its
  \<open>in_flight\<close> counter until it is dropped. \<open>busy i\<close> says that the \<open>slow_until\<close> mutex of worker \<open>i\<close>
  is held by another task at this moment, in which case the worker counts as eligible.
\<close>

record upload_worker_lease =
  lease_worker_id :: nat
  lease_home_dc :: i32
  lease_slot :: nat

definition not_slow :: "instant \<Rightarrow> (nat \<Rightarrow> bool) \<Rightarrow> worker_instance \<Rightarrow> bool" where
  "not_slow now busy w \<longleftrightarrow>
     (if busy (w_id w) then True
      else case w_slow_until w of Some until \<Rightarrow> now \<ge> until | None \<Rightarrow> True)"

definition eligible_workers ::
  "instant \<Rightarrow> (nat \<Rightarrow> bool) \<Rightarrow> stream_worker_pool \<Rightarrow> worker_instance list" where
  "eligible_workers now busy p =
     sort_key w_in_flight
       (filter (\<lambda>w. is_available now (p_breaker p) (w_id w) \<and> not_slow now busy w) (p_workers p)) @
     (case p_primary p of
        Some primary \<Rightarrow> if not_slow now busy primary then [primary] else []
      | None \<Rightarrow> [])"

definition lease_upload_worker ::
  "instant \<Rightarrow> (nat \<Rightarrow> bool) \<Rightarrow> stream_worker_pool \<Rightarrow>
   (stream_error + upload_worker_lease) \<times> stream_worker_pool" where
  "lease_upload_worker now busy p =
     (case claim_upload_worker
             (map (\<lambda>w. (w, w_upload_slot w)) (eligible_workers now busy p)) (p_upload_free p) of
        (Some (w, slot), free) \<Rightarrow>
          (Inr \<lparr>lease_worker_id = w_id w, lease_home_dc = w_home_dc w, lease_slot = slot\<rparr>,
           update_worker (w_id w) (\<lambda>v. v\<lparr>w_in_flight := w_in_flight v + 1\<rparr>)
             (p\<lparr>p_upload_free := free\<rparr>))
      | (None, free) \<Rightarrow> (Inl AllWorkersUnavailable, p))"

definition drop_lease :: "upload_worker_lease \<Rightarrow> stream_worker_pool \<Rightarrow> stream_worker_pool" where
  "drop_lease l p =
     (let p' = update_worker (lease_worker_id l) (\<lambda>v. v\<lparr>w_in_flight := w_in_flight v - 1\<rparr>) p
      in p'\<lparr>p_upload_free := (p_upload_free p')(lease_slot l := p_upload_free p' (lease_slot l) + 1)\<rparr>)"

end
