(* ===== verification/Chunk_Fetch.thy ===== *)
theory Chunk_Fetch
  imports Worker_Pool
begin

text \<open>
  The chunk fetch of the worker pool: \<open>fetch_chunk_with_budget\<close> of
  \<open>crates/stream/src/worker_pool.rs\<close> with the backoff and sleep helpers. One iteration of its loop
  is cut along the source: wait for an RPC slot, choose the worker, send the request, handle the
  reply. Each part returns \<open>Continue\<close>, \<open>Break\<close> or \<open>Return\<close> as the Rust control flow does.

  Time passes only where the code waits. The environment says how long each wait takes in step
  \<open>i\<close>: \<open>env_slot\<close> (\<open>None\<close> when the semaphore is closed), \<open>env_lock\<close>, \<open>env_rpc\<close> with Telegram's reply,
  and \<open>env_rand\<close> for the jitter. A wait that would end after its deadline is a timeout at the
  deadline. Other streams that use the pool during a wait are not part of the model.
\<close>

datatype rpc_reply = FileBytes bytes | CdnRedirect | RpcError invocation_error

record 'l get_file =
  gf_location :: 'l
  gf_offset :: nat
  gf_limit :: nat

record 'l fetch_env =
  env_slot :: "nat \<Rightarrow> duration option"
  env_lock :: "nat \<Rightarrow> duration"
  env_rpc :: "nat \<Rightarrow> nat \<Rightarrow> i32 \<Rightarrow> 'l get_file \<Rightarrow> duration \<times> rpc_reply"
  env_rand :: "nat \<Rightarrow> u64"

record fetch_state =
  fs_pool :: stream_worker_pool
  fs_dc_id :: i32
  fs_target_dc :: i32
  fs_now :: instant
  fs_step :: nat
  fs_attempts :: nat
  fs_primary_attempted :: bool
  fs_last_error :: "string option"
  fs_last_flood_wait :: "nat option"

datatype flow =
  Continue fetch_state
| Break fetch_state
| Return "stream_error + bytes" fetch_state

section \<open>Backoff and sleep\<close>

definition retry_summary :: "nat \<Rightarrow> string option \<Rightarrow> string" where
  "retry_summary attempts last_error =
     (case last_error of
        Some error \<Rightarrow> show_nat attempts @ '' RPC attempts; last error: '' @ error
      | None \<Rightarrow> show_nat attempts @ '' RPC attempts; deadline or attempt limit reached'')"

definition retry_backoff :: "u64 \<Rightarrow> nat \<Rightarrow> duration" where
  "retry_backoff random attempt =
     (let backoff = exponential_delay FETCH_RETRY_BASE_MS (of_nat (attempt - 1));
          capped_ms = min (as_millis backoff) (as_millis MAX_RETRY_BACKOFF);
          jitter_ms = unat random mod (capped_ms div 2 + 1)
      in from_millis (capped_ms div 2 + jitter_ms))"

definition sleep_before_retry :: "duration \<Rightarrow> instant \<Rightarrow> fetch_state \<Rightarrow> bool \<times> fetch_state" where
  "sleep_before_retry delay deadline st =
     (let remaining = deadline - fs_now st
      in if delay \<ge> remaining \<or> remaining = 0 then (False, st)
         else (True, st\<lparr>fs_now := fs_now st + delay\<rparr>))"

section \<open>Guards\<close>

definition on_pool :: "(stream_worker_pool \<Rightarrow> stream_worker_pool) \<Rightarrow> fetch_state \<Rightarrow> fetch_state" where
  "on_pool f st = st\<lparr>fs_pool := f (fs_pool st)\<rparr>"

definition on_metrics :: "(stream_metrics \<Rightarrow> stream_metrics) \<Rightarrow> fetch_state \<Rightarrow> fetch_state" where
  "on_metrics f st = on_pool (\<lambda>p. p\<lparr>p_metrics := f (p_metrics p)\<rparr>) st"

definition on_breaker :: "(circuit_breaker \<Rightarrow> circuit_breaker) \<Rightarrow> fetch_state \<Rightarrow> fetch_state" where
  "on_breaker f st = on_pool (\<lambda>p. p\<lparr>p_breaker := f (p_breaker p)\<rparr>) st"

text \<open>\<open>InFlightGuard\<close>: one more request in flight while the guard lives.\<close>

definition guard_new :: "nat \<Rightarrow> fetch_state \<Rightarrow> fetch_state" where
  "guard_new i st = on_pool (update_worker i (\<lambda>w. w\<lparr>w_in_flight := w_in_flight w + 1\<rparr>)) st"

definition guard_drop :: "nat \<Rightarrow> fetch_state \<Rightarrow> fetch_state" where
  "guard_drop i st = on_pool (update_worker i (\<lambda>w. w\<lparr>w_in_flight := w_in_flight w - 1\<rparr>)) st"

definition slot_take :: "fetch_state \<Rightarrow> fetch_state" where
  "slot_take st = on_pool (\<lambda>p. p\<lparr>p_rpc_free := p_rpc_free p - 1\<rparr>) st"

definition slot_release :: "fetch_state \<Rightarrow> fetch_state" where
  "slot_release st = on_pool (\<lambda>p. p\<lparr>p_rpc_free := p_rpc_free p + 1\<rparr>) st"

section \<open>One iteration\<close>

text \<open>Waiting for the RPC slot: \<open>timeout_at(deadline, rpc_slots.acquire())\<close>.\<close>

definition acquire_rpc_slot :: "'l fetch_env \<Rightarrow> instant \<Rightarrow> fetch_state \<Rightarrow> flow" where
  "acquire_rpc_slot env deadline st =
     (case env_slot env (fs_step st) of
        None \<Rightarrow> Return (Inl AllWorkersUnavailable) st
      | Some d \<Rightarrow>
          if p_rpc_free (fs_pool st) = 0 \<or> fs_now st + d > deadline
          then Break (on_metrics (record_rpc_slot_wait (deadline - fs_now st))
                 (st\<lparr>fs_now := max (fs_now st) deadline,
                      fs_last_error := Some ''timed out waiting for an RPC slot''\<rparr>))
          else Continue (on_metrics (record_rpc_slot_wait d)
                 (slot_take (st\<lparr>fs_now := fs_now st + d\<rparr>))))"

text \<open>
  The choice of the worker, while the slot is held. \<open>Inl\<close> is the flow of a branch that leaves the
  iteration, \<open>Inr (worker, is_primary, state)\<close> the chosen worker.
\<close>

definition wait_for_quarantine :: "duration \<Rightarrow> instant \<Rightarrow> fetch_state \<Rightarrow> flow" where
  "wait_for_quarantine wait deadline st =
     (case sleep_before_retry wait deadline (slot_release st) of
        (True, st') \<Rightarrow> Continue st'
      | (False, st') \<Rightarrow> Break st')"

definition is_primary_id :: "stream_worker_pool \<Rightarrow> nat \<Rightarrow> bool" where
  "is_primary_id p worker_id =
     (case p_primary p of Some primary \<Rightarrow> w_id primary = worker_id | None \<Rightarrow> False)"

definition choose_pinned ::
  "nat \<Rightarrow> instant \<Rightarrow> fetch_state \<Rightarrow> flow + (nat \<times> bool \<times> fetch_state)" where
  "choose_pinned worker_id deadline st =
     (let p = fs_pool st
      in case worker_by_id p worker_id of
           None \<Rightarrow> Inl (Return (Inl AllWorkersUnavailable) (slot_release st))
         | Some _ \<Rightarrow>
             if \<not> is_primary_id p worker_id \<and> \<not> is_available (fs_now st) (p_breaker p) worker_id
             then Inl (wait_for_quarantine
                    (case quarantine_remaining (fs_now st) (p_breaker p) worker_id of
                       Some d \<Rightarrow> d | None \<Rightarrow> from_millis 500) deadline st)
             else Inr (worker_id, is_primary_id p worker_id, st))"

definition min_remaining :: "instant \<Rightarrow> stream_worker_pool \<Rightarrow> duration" where
  "min_remaining now p =
     (case List.map_filter (\<lambda>w. quarantine_remaining now (p_breaker p) (w_id w)) (p_workers p) of
        [] \<Rightarrow> from_millis 500
      | d # ds \<Rightarrow> fold min ds d)"

definition choose_least_loaded ::
  "instant \<Rightarrow> fetch_state \<Rightarrow> flow + (nat \<times> bool \<times> fetch_state)" where
  "choose_least_loaded deadline st =
     (let (r, p) = pick_least_loaded (fs_now st) (fs_pool st); st' = st\<lparr>fs_pool := p\<rparr>
      in case r of
           Inr worker_id \<Rightarrow> Inr (worker_id, False, st')
         | Inl err \<Rightarrow>
             if err \<noteq> AllWorkersUnavailable then Inl (Return (Inl err) (slot_release st'))
             else if (\<not> fs_primary_attempted st' \<or> p_workers p = []) \<and> p_primary p \<noteq> None
             then Inr (w_id (the (p_primary p)), True, st'\<lparr>fs_primary_attempted := True\<rparr>)
             else if p_workers p \<noteq> []
             then Inl (wait_for_quarantine (min_remaining (fs_now st') p) deadline st')
             else Inl (Return (Inl AllWorkersUnavailable) (slot_release st')))"

definition choose_worker ::
  "nat option \<Rightarrow> instant \<Rightarrow> fetch_state \<Rightarrow> flow + (nat \<times> bool \<times> fetch_state)" where
  "choose_worker pinned_worker_id deadline st =
     (case pinned_worker_id of
        Some worker_id \<Rightarrow> choose_pinned worker_id deadline st
      | None \<Rightarrow> choose_least_loaded deadline st)"

text \<open>
  The request: in-flight guard, the worker's \<open>dc_lock\<close>, and \<open>upload.getFile\<close> under the RPC timeout.
  All guards are released before the reply is looked at; \<open>None\<close> is the timeout of the RPC.
\<close>

definition send_request ::
  "'l fetch_env \<Rightarrow> 'l get_file \<Rightarrow> string \<Rightarrow> nat \<Rightarrow> instant \<Rightarrow> fetch_state \<Rightarrow>
   flow + (rpc_reply option \<times> fetch_state)" where
  "send_request env req lock_error worker_id deadline st0 =
     (let st = guard_new worker_id st0; lock_wait = env_lock env (fs_step st)
      in if fs_now st + lock_wait > deadline
         then Inl (Break (on_metrics (record_worker_lock_wait (deadline - fs_now st))
                (slot_release (guard_drop worker_id
                  (st\<lparr>fs_now := max (fs_now st) deadline,
                       fs_last_error := Some lock_error\<rparr>)))))
         else
           let st1 = on_metrics (record_rpc_attempt \<circ> record_worker_lock_wait lock_wait)
                       (st\<lparr>fs_now := fs_now st + lock_wait, fs_attempts := fs_attempts st + 1\<rparr>);
               request_deadline = min (fs_now st1 + RPC_TIMEOUT) deadline;
               (d, reply) = env_rpc env (fs_step st1) worker_id (fs_target_dc st1) req
           in if fs_now st1 + d > request_deadline
              then Inr (None, slot_release (guard_drop worker_id
                     (st1\<lparr>fs_now := max (fs_now st1) request_deadline\<rparr>)))
              else Inr (Some reply, slot_release (guard_drop worker_id
                     (st1\<lparr>fs_now := fs_now st1 + d\<rparr>))))"

text \<open>A retry after a backoff, unless the attempts or the deadline are used up.\<close>

definition backoff_retry ::
  "'l fetch_env \<Rightarrow> nat \<Rightarrow> instant \<Rightarrow> retry_reason \<Rightarrow> fetch_state \<Rightarrow> flow" where
  "backoff_retry env limit deadline reason st =
     (if fs_attempts st \<ge> limit then Break st
      else case sleep_before_retry (retry_backoff (env_rand env (fs_step st)) (fs_attempts st))
                  deadline st of
             (False, st') \<Rightarrow> Break st'
           | (True, st') \<Rightarrow> Continue (on_metrics (record_retry reason) st'))"

definition handle_flood_wait ::
  "nat \<Rightarrow> instant \<Rightarrow> nat \<Rightarrow> bool \<Rightarrow> nat \<Rightarrow> fetch_state \<Rightarrow> flow" where
  "handle_flood_wait limit deadline worker_id is_primary secs st0 =
     (let st = (if \<not> is_primary
                then on_breaker (quarantine (fs_now st0) worker_id (from_secs (secs + 1))) st0
                else st0)
      in if fs_attempts st \<ge> limit then Break st
         else if available_count (fs_now st) (p_breaker (fs_pool st)) = 0
         then (case sleep_before_retry (from_secs (secs + 1)) deadline st of
                 (False, st') \<Rightarrow> Break st'
               | (True, st') \<Rightarrow>
                   Continue (on_metrics (record_retry FloodWait)
                     (if \<not> is_primary then on_breaker (record_success worker_id) st' else st')))
         else Continue (on_metrics (record_retry FloodWait) st))"

definition handle_reply ::
  "'l fetch_env \<Rightarrow> nat \<Rightarrow> instant \<Rightarrow> nat \<Rightarrow> bool \<Rightarrow> rpc_reply option \<Rightarrow> fetch_state \<Rightarrow> flow" where
  "handle_reply env limit deadline worker_id is_primary reply st =
     (case reply of
        None \<Rightarrow> backoff_retry env limit deadline Timeout
                  (st\<lparr>fs_last_error := Some ''upload.getFile request timed out'',
                       fs_last_flood_wait := None\<rparr>)
      | Some (FileBytes b) \<Rightarrow>
          Return (Inr b)
            ((if \<not> is_primary then on_breaker (record_success worker_id) else id)
              (on_metrics (record_telegram_bytes (length b)) st))
      | Some CdnRedirect \<Rightarrow> Return (Inl UnsupportedCdnRedirect) st
      | Some (RpcError err) \<Rightarrow>
          (case err_kind err of
             KFileReferenceExpired \<Rightarrow> Return (Inl FileReferenceExpired) st
           | KFloodWait secs \<Rightarrow>
               handle_flood_wait limit deadline worker_id is_primary secs
                 (st\<lparr>fs_last_error := Some (err_text err), fs_last_flood_wait := Some secs\<rparr>)
           | KRpc name \<Rightarrow>
               if name = ''CONNECTION_NOT_INITED''
               then backoff_retry env limit deadline ConnectionNotInited
                      (st\<lparr>fs_last_error := Some (err_text err), fs_last_flood_wait := None\<rparr>)
               else Return (Inl (Telegram err)) st
           | KMigration new_dc \<Rightarrow>
               let st' = st\<lparr>fs_last_error := Some (err_text err), fs_last_flood_wait := None,
                            fs_target_dc := new_dc, fs_dc_id := new_dc\<rparr>
               in if fs_attempts st' \<ge> limit then Break st'
                  else Continue (on_metrics (record_retry DcMigration) st')
           | KNetwork \<Rightarrow>
               backoff_retry env limit deadline Network
                 (st\<lparr>fs_last_error := Some (err_text err), fs_last_flood_wait := None\<rparr>)
           | KTransfer \<Rightarrow> Return (Inl (Telegram err)) st
           | KOther \<Rightarrow> Return (Inl (Telegram err)) st))"

definition fetch_iteration ::
  "'l fetch_env \<Rightarrow> 'l get_file \<Rightarrow> nat \<Rightarrow> instant \<Rightarrow> nat option \<Rightarrow> fetch_state \<Rightarrow> flow" where
  "fetch_iteration env req limit deadline pinned st =
     (case acquire_rpc_slot env deadline st of
        Break st1 \<Rightarrow> Break st1
      | Return r st1 \<Rightarrow> Return r st1
      | Continue st1 \<Rightarrow>
          (case choose_worker pinned deadline st1 of
             Inl f \<Rightarrow> f
           | Inr (worker_id, is_primary, st2) \<Rightarrow>
               (case send_request env req ''timed out waiting for the worker lock'' worker_id deadline
                       (if is_primary then st2\<lparr>fs_primary_attempted := True\<rparr> else st2) of
                  Inl f \<Rightarrow> f
                | Inr (reply, st3) \<Rightarrow>
                    handle_reply env limit deadline worker_id is_primary reply st3)))"

definition next_step :: "fetch_state \<Rightarrow> fetch_state" where
  "next_step st = st\<lparr>fs_step := fs_step st + 1\<rparr>"

section \<open>Progress of an iteration\<close>

text \<open>The state helpers touch the pool only.\<close>

lemma state_helpers [simp]:
  "fs_attempts (on_pool f st) = fs_attempts st" "fs_now (on_pool f st) = fs_now st"
  "fs_step (on_pool f st) = fs_step st"
  "fs_attempts (on_metrics g st) = fs_attempts st" "fs_now (on_metrics g st) = fs_now st"
  "fs_step (on_metrics g st) = fs_step st"
  "fs_attempts (on_breaker h st) = fs_attempts st" "fs_now (on_breaker h st) = fs_now st"
  "fs_attempts (guard_new i st) = fs_attempts st" "fs_now (guard_new i st) = fs_now st"
  "fs_step (guard_new i st) = fs_step st"
  "fs_attempts (guard_drop i st) = fs_attempts st" "fs_now (guard_drop i st) = fs_now st"
  "fs_attempts (slot_take st) = fs_attempts st" "fs_now (slot_take st) = fs_now st"
  "fs_attempts (slot_release st) = fs_attempts st" "fs_now (slot_release st) = fs_now st"
  by (simp_all add: on_pool_def on_metrics_def on_breaker_def guard_new_def guard_drop_def
      slot_take_def slot_release_def)

text \<open>
  A state is \<open>later\<close> than another when it made no attempt in between and time did not run past the
  deadline. Every way to go round the loop either makes one more attempt or leads to a strictly
  later time before the deadline, which is why the loop ends.
\<close>

fun flow_state :: "flow \<Rightarrow> fetch_state" where
  "flow_state (Continue st) = st"
| "flow_state (Break st) = st"
| "flow_state (Return r st) = st"

definition later :: "instant \<Rightarrow> fetch_state \<Rightarrow> fetch_state \<Rightarrow> bool" where
  "later deadline st st' \<longleftrightarrow>
     fs_attempts st' = fs_attempts st \<and> fs_now st \<le> fs_now st' \<and>
     (fs_now st \<le> deadline \<longrightarrow> fs_now st' \<le> deadline)"

definition waits :: "instant \<Rightarrow> fetch_state \<Rightarrow> flow \<Rightarrow> bool" where
  "waits deadline st f \<longleftrightarrow>
     later deadline st (flow_state f) \<and>
     (\<forall>st'. f = Continue st' \<longrightarrow> fs_now st < fs_now st' \<and> fs_now st' < deadline)"

lemma later_refl [simp]: "later deadline st st"
  by (simp add: later_def)

lemma later_trans: "later deadline a b \<Longrightarrow> later deadline b c \<Longrightarrow> later deadline a c"
  by (auto simp: later_def)

lemma later_cong:
  "fs_attempts a = fs_attempts a' \<Longrightarrow> fs_now a = fs_now a' \<Longrightarrow>
   fs_attempts b = fs_attempts b' \<Longrightarrow> fs_now b = fs_now b' \<Longrightarrow>
   later deadline a b = later deadline a' b'"
  by (simp add: later_def)

lemma later_simps [simp]:
  "later dl a (on_metrics g b) = later dl a b" "later dl a (on_breaker h b) = later dl a b"
  "later dl a (slot_release b) = later dl a b" "later dl (slot_release a) b = later dl a b"
  "later dl (a\<lparr>fs_pool := p\<rparr>) b = later dl a b"
  "later dl a (b\<lparr>fs_last_error := e\<rparr>) = later dl a b"
  "later dl (a\<lparr>fs_last_error := e\<rparr>) b = later dl a b"
  "later dl (a\<lparr>fs_last_flood_wait := fw\<rparr>) b = later dl a b"
  "later dl (on_breaker h a) b = later dl a b"
  by (simp_all add: later_def)

lemma sleep_before_retry_cases:
  assumes "sleep_before_retry delay deadline st = (b, st')"
  shows "later deadline st st' \<and> fs_pool st' = fs_pool st \<and>
    (b \<longrightarrow> fs_now st' = fs_now st + delay \<and> fs_now st' < deadline)"
  using assms by (auto simp: sleep_before_retry_def later_def Let_def split: if_splits)

lemma quarantine_remaining_pos: "quarantine_remaining t cb i = Some d \<Longrightarrow> 0 < d"
  by (simp add: cb.remaining_Some)

lemma fold_min_pos: "0 < (d :: nat) \<Longrightarrow> (\<And>x. x \<in> set ds \<Longrightarrow> 0 < x) \<Longrightarrow> 0 < fold min ds d"
  by (induction ds arbitrary: d) auto

lemma min_remaining_pos: "0 < min_remaining now p"
proof -
  have "0 < d" if "d \<in> set (List.map_filter (\<lambda>w. quarantine_remaining now (p_breaker p) (w_id w))
      (p_workers p))" for d
    using that by (auto simp: List.map_filter_def dest: quarantine_remaining_pos)
  then show ?thesis
    by (auto simp: min_remaining_def from_millis_def split: list.split intro!: fold_min_pos)
qed

lemma pinned_wait_pos:
  "0 < (case quarantine_remaining t cb i of Some d \<Rightarrow> d | None \<Rightarrow> from_millis 500)"
  by (auto simp: from_millis_def split: option.split dest: quarantine_remaining_pos)

lemma wait_for_quarantine_waits:
  assumes "0 < wait"
  shows "waits deadline st (wait_for_quarantine wait deadline st)"
proof -
  obtain b st' where s: "sleep_before_retry wait deadline (slot_release st) = (b, st')"
    by (cases "sleep_before_retry wait deadline (slot_release st)")
  from sleep_before_retry_cases [OF this] assms show ?thesis
    by (cases b) (auto simp: wait_for_quarantine_def s waits_def)
qed

lemma waits_Return: "waits deadline st (Return r (slot_release st))"
  by (simp add: waits_def)

lemma waits_pool: "waits deadline (st\<lparr>fs_pool := p\<rparr>) f = waits deadline st f"
  by (simp add: waits_def)

lemma choose_pinned_progress:
  "case choose_pinned i deadline st of
     Inl f \<Rightarrow> waits deadline st f
   | Inr (w, b, st') \<Rightarrow> later deadline st st' \<and> fs_step st' = fs_step st"
  by (auto simp: choose_pinned_def Let_def waits_Return pinned_wait_pos wait_for_quarantine_waits
      split: option.split)

lemma choose_least_loaded_progress:
  "case choose_least_loaded deadline st of
     Inl f \<Rightarrow> waits deadline st f
   | Inr (w, b, st') \<Rightarrow> later deadline st st' \<and> fs_step st' = fs_step st"
proof -
  obtain r p where p: "pick_least_loaded (fs_now st) (fs_pool st) = (r, p)"
    by (cases "pick_least_loaded (fs_now st) (fs_pool st)")
  have "waits deadline st (wait_for_quarantine (min_remaining (fs_now st) p) deadline (st\<lparr>fs_pool := p\<rparr>))"
    using wait_for_quarantine_waits [OF min_remaining_pos, of deadline "st\<lparr>fs_pool := p\<rparr>"]
    by (simp add: waits_pool)
  moreover have "waits deadline st (Return x (slot_release (st\<lparr>fs_pool := p\<rparr>)))" for x
    using waits_Return [of deadline "st\<lparr>fs_pool := p\<rparr>"] by (simp add: waits_pool)
  moreover have "later deadline st (st\<lparr>fs_pool := p, fs_primary_attempted := True\<rparr>)"
      "later deadline st (st\<lparr>fs_pool := p\<rparr>)"
    by (simp_all add: later_def)
  ultimately show ?thesis
    by (auto simp: choose_least_loaded_def p Let_def split: sum.split)
qed

lemma choose_worker_progress:
  "case choose_worker pinned deadline st of
     Inl f \<Rightarrow> waits deadline st f
   | Inr (w, b, st') \<Rightarrow> later deadline st st' \<and> fs_step st' = fs_step st"
  using choose_pinned_progress choose_least_loaded_progress
  by (cases pinned) (simp_all add: choose_worker_def)

lemma send_request_progress:
  "case send_request env req e i deadline st of
     Inl f \<Rightarrow> (\<exists>st'. f = Break st' \<and> later deadline st st')
   | Inr (reply, st') \<Rightarrow>
       fs_attempts st' = fs_attempts st + 1 \<and> fs_now st \<le> fs_now st' \<and>
       (fs_now st \<le> deadline \<longrightarrow> fs_now st' \<le> deadline)"
  by (auto simp: send_request_def Let_def later_def split: prod.split)

lemma backoff_retry_later: "later deadline st (flow_state (backoff_retry env limit deadline reason st))"
  by (auto simp: backoff_retry_def dest: sleep_before_retry_cases split: prod.splits bool.splits)

lemma handle_flood_wait_later:
  "later deadline st (flow_state (handle_flood_wait limit deadline i is_primary secs st))"
proof -
  define st' where "st' = (if \<not> is_primary
    then on_breaker (quarantine (fs_now st) i (from_secs (secs + 1))) st else st)"
  have eq: "later deadline st x = later deadline st' x" for x by (simp add: st'_def)
  obtain b st'' where s: "sleep_before_retry (from_secs (Suc secs)) deadline st' = (b, st'')"
    by (cases "sleep_before_retry (from_secs (Suc secs)) deadline st'")
  from sleep_before_retry_cases [OF this] show ?thesis
    by (cases b) (simp_all add: handle_flood_wait_def st'_def [symmetric] Let_def eq s del: later_simps(9))
qed

lemma handle_reply_later:
  "later deadline st (flow_state (handle_reply env limit deadline i is_primary reply st))"
proof -
  have b: "later deadline st (flow_state (backoff_retry env limit deadline reason
      (st\<lparr>fs_last_error := e, fs_last_flood_wait := None\<rparr>)))" for reason e
    using backoff_retry_later [of deadline "st\<lparr>fs_last_error := e, fs_last_flood_wait := None\<rparr>"]
    by simp
  have f: "later deadline st (flow_state (handle_flood_wait limit deadline i ip secs
      (st\<lparr>fs_last_error := e, fs_last_flood_wait := Some secs\<rparr>)))" for secs e ip
    using handle_flood_wait_later [of deadline
        "st\<lparr>fs_last_error := e, fs_last_flood_wait := Some secs\<rparr>"] by simp
  have m: "later deadline st (st\<lparr>fs_last_error := e, fs_last_flood_wait := None,
      fs_target_dc := d, fs_dc_id := d\<rparr>)" for e d
    by (simp add: later_def)
  show ?thesis
    by (auto simp: handle_reply_def b f m Let_def
        split: option.split rpc_reply.split error_kind.split)
qed

section \<open>The loop and the primary fallback\<close>

lemma acquire_rpc_slot_later:
  "later deadline st (flow_state (acquire_rpc_slot env deadline st))"
  by (auto simp: acquire_rpc_slot_def later_def split: option.split)

lemma later_waits:
  "later deadline a b \<Longrightarrow> waits deadline b f \<Longrightarrow> waits deadline a f"
  by (auto simp: waits_def later_def)

text \<open>Going round the loop is progress in the sense above.\<close>

lemma fetch_iteration_progress:
  assumes "fetch_iteration env req limit deadline pinned st = f"
  shows "waits deadline st f \<or>
    (fs_attempts (flow_state f) = Suc (fs_attempts st) \<and> fs_now st \<le> fs_now (flow_state f) \<and>
     (fs_now st \<le> deadline \<longrightarrow> fs_now (flow_state f) \<le> deadline))"
proof (cases "acquire_rpc_slot env deadline st")
  case (Continue st1)
  with acquire_rpc_slot_later [of deadline st env] have l1: "later deadline st st1" by simp
  show ?thesis
  proof (cases "choose_worker pinned deadline st1")
    case (Inl g)
    with assms Continue have "f = g" by (simp add: fetch_iteration_def)
    with Inl choose_worker_progress [where pinned = pinned and deadline = deadline and st = st1] later_waits [OF l1] show ?thesis by simp
  next
    case (Inr wbs)
    obtain w b st2 where wbs: "wbs = (w, b, st2)" by (cases wbs)
    define st2' where "st2' = (if b then st2\<lparr>fs_primary_attempted := True\<rparr> else st2)"
    have "later deadline st1 st2" using choose_worker_progress [where pinned = pinned and deadline = deadline and st = st1] Inr wbs by simp
    with l1 have l2: "later deadline st st2'" by (auto simp: later_def st2'_def)
    note send = send_request_progress [where env = env and req = req and i = w and deadline = deadline
      and st = st2' and e = "''timed out waiting for the worker lock''"]
    show ?thesis
    proof (cases "send_request env req ''timed out waiting for the worker lock'' w deadline st2'")
      case send_Inl: (Inl g)
      with send obtain st3 where "g = Break st3" "later deadline st2' st3" by auto
      moreover have "f = g"
        using assms Continue Inr wbs send_Inl by (simp add: fetch_iteration_def st2'_def)
      ultimately show ?thesis using later_trans [OF l2] by (simp add: waits_def)
    next
      case send_Inr: (Inr rs)
      obtain reply st3 where rs: "rs = (reply, st3)" by (cases rs)
      have "f = handle_reply env limit deadline w b reply st3"
        using assms Continue Inr wbs send_Inr rs by (simp add: fetch_iteration_def st2'_def)
      with handle_reply_later [of deadline st3 env limit w b reply] send send_Inr rs l2
      show ?thesis by (auto simp: later_def)
    qed
  qed
next
  case (Break st1)
  with assms acquire_rpc_slot_later [of deadline st env] show ?thesis
    by (auto simp: fetch_iteration_def waits_def)
next
  case (Return r st1)
  with assms acquire_rpc_slot_later [of deadline st env] show ?thesis
    by (auto simp: fetch_iteration_def waits_def)
qed

function fetch_loop ::
  "'l fetch_env \<Rightarrow> 'l get_file \<Rightarrow> nat \<Rightarrow> instant \<Rightarrow> nat option \<Rightarrow> fetch_state \<Rightarrow>
   (stream_error + bytes) option \<times> fetch_state" where
  "fetch_loop env req limit deadline pinned st =
     (if fs_attempts st < limit \<and> fs_now st < deadline
      then (case fetch_iteration env req limit deadline pinned st of
              Continue st' \<Rightarrow> fetch_loop env req limit deadline pinned (next_step st')
            | Break st' \<Rightarrow> (None, next_step st')
            | Return r st' \<Rightarrow> (Some r, next_step st'))
      else (None, st))"
  by pat_completeness auto
termination
proof (relation "measures [\<lambda>(env, req, limit, deadline, pinned, st). limit - fs_attempts st,
    \<lambda>(env, req, limit, deadline, pinned, st). deadline - fs_now st]", goal_cases)
  case (2 env req limit deadline pinned st st')
  then show ?case
    using fetch_iteration_progress [OF refl, where env = env and req = req and limit = limit
        and deadline = deadline and pinned = pinned and st = st]
    by (auto simp: waits_def later_def next_step_def)
qed simp

declare fetch_loop.simps [simp del]

definition fetch_failed :: "fetch_state \<Rightarrow> (stream_error + bytes) \<times> fetch_state" where
  "fetch_failed st =
     (Inl (ChunkFetchFailed (retry_summary (fs_attempts st) (fs_last_error st))), st)"

definition finish_fetch :: "fetch_state \<Rightarrow> (stream_error + bytes) \<times> fetch_state" where
  "finish_fetch st =
     (case fs_last_flood_wait st of
        Some secs \<Rightarrow> (Inl (FloodWaitError secs), st)
      | None \<Rightarrow> fetch_failed st)"

definition primary_reply ::
  "rpc_reply option \<Rightarrow> fetch_state \<Rightarrow> (stream_error + bytes) \<times> fetch_state" where
  "primary_reply reply st =
     (case reply of
        None \<Rightarrow> fetch_failed (st\<lparr>fs_last_error := Some ''primary upload.getFile request timed out''\<rparr>)
      | Some (FileBytes b) \<Rightarrow> (Inr b, on_metrics (record_telegram_bytes (length b)) st)
      | Some CdnRedirect \<Rightarrow> (Inl UnsupportedCdnRedirect, st)
      | Some (RpcError err) \<Rightarrow>
          (case err_kind err of
             KFileReferenceExpired \<Rightarrow> (Inl FileReferenceExpired, st)
           | KFloodWait secs \<Rightarrow> (Inl (FloodWaitError secs), st)
           | KTransfer \<Rightarrow> (Inl (Telegram err), st)
           | KNetwork \<Rightarrow> finish_fetch
               (st\<lparr>fs_last_flood_wait := None, fs_last_error := Some (err_text err)\<rparr>)
           | _ \<Rightarrow> (Inl (Telegram err), st)))"

definition primary_fetch ::
  "'l fetch_env \<Rightarrow> 'l get_file \<Rightarrow> instant \<Rightarrow> worker_instance \<Rightarrow> fetch_state \<Rightarrow>
   (stream_error + bytes) \<times> fetch_state" where
  "primary_fetch env req deadline primary st =
     (case acquire_rpc_slot env deadline st of
        Return r st1 \<Rightarrow> (r, st1)
      | Break st1 \<Rightarrow> fetch_failed st1
      | Continue st1 \<Rightarrow>
          (case send_request env req ''timed out waiting for the primary worker lock''
                  (w_id primary) deadline st1 of
             Inl f \<Rightarrow> fetch_failed (flow_state f)
           | Inr (reply, st2) \<Rightarrow>
               primary_reply reply
                 (if fs_attempts st1 > 0 then on_metrics (record_retry PrimaryFallback) st2
                  else st2)))"

definition worker_attempt_limit :: "nat option \<Rightarrow> stream_worker_pool \<Rightarrow> nat" where
  "worker_attempt_limit pinned p =
     (if pinned \<noteq> None then MAX_FETCH_ATTEMPTS
      else if p_primary p \<noteq> None \<and> p_workers p \<noteq> [] then MAX_FETCH_ATTEMPTS - 1
      else MAX_FETCH_ATTEMPTS)"

definition fetch_start :: "stream_worker_pool \<Rightarrow> i32 \<Rightarrow> instant \<Rightarrow> fetch_state" where
  "fetch_start p dc_id now =
     \<lparr>fs_pool = p, fs_dc_id = dc_id, fs_target_dc = dc_id, fs_now = now, fs_step = 0,
      fs_attempts = 0, fs_primary_attempted = False, fs_last_error = None,
      fs_last_flood_wait = None\<rparr>"

definition fetch_chunk_with_budget ::
  "'l fetch_env \<Rightarrow> 'l get_file \<Rightarrow> instant \<Rightarrow> nat option \<Rightarrow> stream_worker_pool \<Rightarrow> i32 \<Rightarrow> instant \<Rightarrow>
   (stream_error + bytes) \<times> fetch_state" where
  "fetch_chunk_with_budget env req deadline pinned p dc_id now =
     (case fetch_loop env req (worker_attempt_limit pinned p) deadline pinned
             (fetch_start p dc_id now) of
        (Some r, st) \<Rightarrow> (r, st)
      | (None, st) \<Rightarrow>
          (case p_primary (fs_pool st) of
             Some primary \<Rightarrow>
               if pinned = None \<and> \<not> fs_primary_attempted st \<and>
                  fs_attempts st < MAX_FETCH_ATTEMPTS \<and> fs_now st < deadline
               then primary_fetch env req deadline primary st
               else finish_fetch st
           | None \<Rightarrow> finish_fetch st))"

text \<open>
  \<open>fetch_chunk_until\<close> and \<open>fetch_chunk_until_on_worker\<close> are the budget with its outcome recorded,
  without and with a pinned worker; \<open>fetch_chunk\<close> is the former with the full deadline.
\<close>

definition fetch_chunk_until_on ::
  "'l fetch_env \<Rightarrow> 'l get_file \<Rightarrow> instant \<Rightarrow> nat option \<Rightarrow> stream_worker_pool \<Rightarrow> i32 \<Rightarrow> instant \<Rightarrow>
   (stream_error + bytes) \<times> fetch_state" where
  "fetch_chunk_until_on env req deadline pinned p dc_id now =
     (let (r, st) = fetch_chunk_with_budget env req deadline pinned p dc_id now
      in (r, on_metrics (record_chunk_fetch (fs_now st - now) (case r of Inr _ \<Rightarrow> True | Inl _ \<Rightarrow> False)) st))"

definition fetch_chunk ::
  "'l fetch_env \<Rightarrow> 'l get_file \<Rightarrow> stream_worker_pool \<Rightarrow> i32 \<Rightarrow> instant \<Rightarrow>
   (stream_error + bytes) \<times> fetch_state" where
  "fetch_chunk env req p dc_id now =
     fetch_chunk_until_on env req (now + CHUNK_FETCH_DEADLINE) None p dc_id now"

section \<open>The budget\<close>

lemma fetch_loop_budget:
  assumes "fs_attempts st \<le> limit" and "fs_now st \<le> deadline"
    and "fetch_loop env req limit deadline pinned st = (r, st')"
  shows "fs_attempts st' \<le> limit \<and> fs_now st' \<le> deadline \<and> fs_now st \<le> fs_now st'"
  using assms
proof (induction env req limit deadline pinned st arbitrary: r st' rule: fetch_loop.induct)
  case (1 env req limit deadline pinned st)
  show ?case
  proof (cases "fs_attempts st < limit \<and> fs_now st < deadline")
    case True
    define f where "f = fetch_iteration env req limit deadline pinned st"
    have pr: "fs_attempts (flow_state f) \<le> limit \<and> fs_now (flow_state f) \<le> deadline \<and>
        fs_now st \<le> fs_now (flow_state f)"
      using fetch_iteration_progress [OF f_def [symmetric]] True by (auto simp: waits_def later_def)
    show ?thesis
    proof (cases f)
      case (Continue st1)
      then have "fetch_loop env req limit deadline pinned (next_step st1) = (r, st')"
        using "1.prems"(3) True f_def by (simp add: fetch_loop.simps [of env req limit deadline pinned st])
      with "1.IH" [OF True, of st1 r st'] Continue pr f_def show ?thesis
        by (auto simp: next_step_def)
    qed (use "1.prems"(3) True f_def pr in
        \<open>auto simp: fetch_loop.simps [of env req limit deadline pinned st] next_step_def\<close>)
  next
    case False
    then have "fetch_loop env req limit deadline pinned st = (None, st)"
      by (subst fetch_loop.simps) auto
    with "1.prems" show ?thesis by simp
  qed
qed

lemma finish_fetch_state [simp]:
  "fs_attempts (snd (finish_fetch st)) = fs_attempts st" "fs_now (snd (finish_fetch st)) = fs_now st"
  "fs_pool (snd (finish_fetch st)) = fs_pool st"
  by (simp_all add: finish_fetch_def fetch_failed_def split: option.split)

lemma primary_reply_state:
  "fs_attempts (snd (primary_reply reply st)) = fs_attempts st \<and>
   fs_now (snd (primary_reply reply st)) = fs_now st"
  by (auto simp: primary_reply_def fetch_failed_def split: option.split rpc_reply.split error_kind.split)

lemma primary_fetch_budget:
  assumes "fs_now st \<le> deadline"
  shows "fs_attempts (snd (primary_fetch env req deadline primary st)) \<le> Suc (fs_attempts st) \<and>
    fs_now (snd (primary_fetch env req deadline primary st)) \<le> deadline \<and>
    fs_now st \<le> fs_now (snd (primary_fetch env req deadline primary st))"
proof (cases "acquire_rpc_slot env deadline st")
  case (Continue st1)
  with acquire_rpc_slot_later [of deadline st env] assms
  have l: "fs_attempts st1 = fs_attempts st" "fs_now st \<le> fs_now st1" "fs_now st1 \<le> deadline"
    by (auto simp: later_def)
  with send_request_progress [where env = env and req = req and i = "w_id primary" and deadline = deadline
      and st = st1 and e = "''timed out waiting for the primary worker lock''"] Continue
  show ?thesis
    by (auto simp: primary_fetch_def fetch_failed_def later_def primary_reply_state split: sum.splits)
qed (use acquire_rpc_slot_later [of deadline st env] assms in
    \<open>auto simp: primary_fetch_def fetch_failed_def later_def\<close>)

lemma worker_attempt_limit_le: "worker_attempt_limit pinned p \<le> MAX_FETCH_ATTEMPTS"
  by (simp add: worker_attempt_limit_def)

text \<open>The three ways a fetch ends once its loop has.\<close>

lemma fetch_result_cases:
  assumes "fetch_chunk_with_budget env req deadline pinned p dc now = (r, st)"
    and "fetch_loop env req (worker_attempt_limit pinned p) deadline pinned (fetch_start p dc now) =
      (r1, st1)"
  obtains (returned) "r1 = Some r" "st = st1"
  | (finished) "r1 = None" "finish_fetch st1 = (r, st)"
  | (primary) w where "r1 = None" "p_primary (fs_pool st1) = Some w" "pinned = None"
      "fs_attempts st1 < MAX_FETCH_ATTEMPTS" "primary_fetch env req deadline w st1 = (r, st)"
  using assms by (auto simp: fetch_chunk_with_budget_def split: option.splits if_splits)

lemma fetch_budget:
  assumes "now \<le> deadline" and "fetch_chunk_with_budget env req deadline pinned p dc now = (r, st)"
  shows "fs_attempts st \<le> MAX_FETCH_ATTEMPTS \<and> fs_now st \<le> deadline \<and> now \<le> fs_now st"
proof -
  obtain r1 st1 where l: "fetch_loop env req (worker_attempt_limit pinned p) deadline pinned
      (fetch_start p dc now) = (r1, st1)"
    by (cases "fetch_loop env req (worker_attempt_limit pinned p) deadline pinned (fetch_start p dc now)")
  from fetch_loop_budget [OF _ _ this] assms(1)
  have b: "fs_attempts st1 \<le> worker_attempt_limit pinned p" "fs_now st1 \<le> deadline" "now \<le> fs_now st1"
    by (auto simp: fetch_start_def)
  show ?thesis
  proof (rule fetch_result_cases [OF assms(2) l], goal_cases returned finished primary)
    case returned
    with b worker_attempt_limit_le [of pinned p] show ?thesis by simp
  next
    case finished
    with b worker_attempt_limit_le [of pinned p] finish_fetch_state [of st1] show ?thesis by simp
  next
    case (primary w)
    with b primary_fetch_budget [of st1 deadline env req w] show ?thesis by simp
  qed
qed

end
