(* ===== verification/Fetch_Safety.thy ===== *)
theory Fetch_Safety
  imports Chunk_Fetch
begin

text \<open>
  What a chunk fetch guarantees: the bytes it returns are a reply of Telegram to its own request,
  it gives back the RPC slot and the in-flight count of every worker on every path, and its backoff
  stays within its cap.
\<close>

section \<open>Where the bytes come from\<close>

definition answered :: "'l fetch_env \<Rightarrow> 'l get_file \<Rightarrow> bytes \<Rightarrow> bool" where
  "answered env req b \<longleftrightarrow> (\<exists>i w dc d. env_rpc env i w dc req = (d, FileBytes b))"

lemma acquire_rpc_slot_no_bytes: "acquire_rpc_slot env deadline st \<noteq> Return (Inr b) st'"
  by (auto simp: acquire_rpc_slot_def split: option.split)

lemma wait_for_quarantine_no_bytes: "wait_for_quarantine w deadline st \<noteq> Return (Inr b) st'"
  by (auto simp: wait_for_quarantine_def split: prod.split bool.split)

lemma choose_worker_no_bytes: "choose_worker pinned deadline st \<noteq> Inl (Return (Inr b) st')"
  by (cases pinned)
    (auto simp: choose_worker_def choose_pinned_def choose_least_loaded_def Let_def
      wait_for_quarantine_no_bytes split: option.split prod.split sum.split)

lemma send_request_bytes:
  "send_request env req e w deadline st = Inr (Some (FileBytes b), st') \<Longrightarrow> answered env req b"
  by (auto simp: send_request_def Let_def answered_def split: if_splits prod.splits)

lemma backoff_retry_no_bytes: "backoff_retry env limit deadline reason st \<noteq> Return (Inr b) st'"
  by (auto simp: backoff_retry_def split: prod.split bool.split)

lemma handle_flood_wait_no_bytes: "handle_flood_wait limit deadline w ip secs st \<noteq> Return (Inr b) st'"
  by (auto simp: handle_flood_wait_def Let_def split: prod.split bool.split)

lemma handle_reply_bytes:
  "handle_reply env limit deadline w ip reply st = Return (Inr b) st' \<Longrightarrow> reply = Some (FileBytes b)"
  by (auto simp: handle_reply_def Let_def backoff_retry_no_bytes handle_flood_wait_no_bytes
      split: option.splits rpc_reply.splits error_kind.splits if_splits)

lemma fetch_iteration_bytes:
  assumes "fetch_iteration env req limit deadline pinned st = Return (Inr b) st'"
  shows "answered env req b"
proof -
  obtain st1 where 1: "acquire_rpc_slot env deadline st = Continue st1"
    using assms acquire_rpc_slot_no_bytes [of env deadline st b st']
    by (cases "acquire_rpc_slot env deadline st") (auto simp: fetch_iteration_def)
  obtain w ip st2 where 2: "choose_worker pinned deadline st1 = Inr (w, ip, st2)"
    using assms 1 choose_worker_no_bytes [of pinned deadline st1 b st']
    by (cases "choose_worker pinned deadline st1") (auto simp: fetch_iteration_def)
  define st2' where "st2' = (if ip then st2\<lparr>fs_primary_attempted := True\<rparr> else st2)"
  let ?send = "send_request env req ''timed out waiting for the worker lock'' w deadline st2'"
  obtain reply st3 where 3: "?send = Inr (reply, st3)"
    using assms 1 2 send_request_progress [where env = env and req = req and i = w
        and deadline = deadline and st = st2' and e = "''timed out waiting for the worker lock''"]
    by (cases ?send) (auto simp: fetch_iteration_def st2'_def)
  have "handle_reply env limit deadline w ip reply st3 = Return (Inr b) st'"
    using assms 1 2 3 by (simp add: fetch_iteration_def st2'_def)
  then have "reply = Some (FileBytes b)" by (rule handle_reply_bytes)
  with 3 show ?thesis by (auto intro: send_request_bytes)
qed

lemma fetch_loop_bytes:
  "fetch_loop env req limit deadline pinned st = (Some (Inr b), st') \<Longrightarrow> answered env req b"
proof (induction env req limit deadline pinned st arbitrary: st' rule: fetch_loop.induct)
  case (1 env req limit deadline pinned st)
  then show ?case
    by (subst (asm) (2) fetch_loop.simps)
      (auto split: if_splits flow.splits intro: fetch_iteration_bytes)
qed

lemma finish_fetch_no_bytes: "finish_fetch st \<noteq> (Inr b, st')"
  by (auto simp: finish_fetch_def fetch_failed_def split: option.split)

lemma primary_reply_bytes: "primary_reply reply st = (Inr b, st') \<Longrightarrow> reply = Some (FileBytes b)"
  by (auto simp: primary_reply_def fetch_failed_def finish_fetch_no_bytes
      split: option.splits rpc_reply.splits error_kind.splits)

lemma primary_fetch_bytes: "primary_fetch env req deadline w st = (Inr b, st') \<Longrightarrow> answered env req b"
  by (auto simp: primary_fetch_def fetch_failed_def acquire_rpc_slot_no_bytes
      split: flow.splits sum.splits dest!: primary_reply_bytes intro: send_request_bytes)

lemma fetch_bytes:
  assumes "fetch_chunk_with_budget env req deadline pinned p dc now = (Inr b, st)"
  shows "answered env req b"
proof -
  obtain r1 st1 where l: "fetch_loop env req (worker_attempt_limit pinned p) deadline pinned
      (fetch_start p dc now) = (r1, st1)"
    by (cases "fetch_loop env req (worker_attempt_limit pinned p) deadline pinned (fetch_start p dc now)")
  show ?thesis
    by (rule fetch_result_cases [OF assms l])
      (use l in \<open>auto simp: finish_fetch_no_bytes intro: fetch_loop_bytes primary_fetch_bytes\<close>)
qed

section \<open>Slots and in-flight counts\<close>

text \<open>
  \<open>holds k p q\<close>: the pool \<open>q\<close> is \<open>p\<close> with \<open>k\<close> of its RPC slots taken; the breaker, the cursor and the
  metrics may differ, the workers and their counters may not.
\<close>

definition holds :: "nat \<Rightarrow> stream_worker_pool \<Rightarrow> stream_worker_pool \<Rightarrow> bool" where
  "holds k p q \<longleftrightarrow>
     p_workers q = p_workers p \<and> p_primary q = p_primary p \<and> p_rpc_free q + k = p_rpc_free p \<and>
     p_primary_upload_slot q = p_primary_upload_slot p \<and> p_upload_free q = p_upload_free p \<and>
     length (worker_states (p_breaker q)) = length (worker_states (p_breaker p))"

lemma holds_refl [simp]: "holds 0 p p"
  by (simp add: holds_def)

lemma holds_trans: "holds 0 p q \<Longrightarrow> holds 0 q r \<Longrightarrow> holds 0 p r"
  by (simp add: holds_def)

lemma find_update_first:
  "(\<And>x. P x \<Longrightarrow> P (f x)) \<Longrightarrow> (List.find P (update_first P f xs) = None) = (List.find P xs = None)"
  by (induction xs) auto

lemma update_first_inverse:
  "(\<And>x. P x \<Longrightarrow> P (f x)) \<Longrightarrow> (\<And>x. P x \<Longrightarrow> g (f x) = x) \<Longrightarrow> update_first P g (update_first P f xs) = xs"
  by (induction xs) auto

lemma update_worker_inverse:
  assumes "\<And>w. w_id (f w) = w_id w" and "\<And>w. g (f w) = w"
  shows "update_worker i g (update_worker i f p) = p"
proof (cases "List.find (\<lambda>w. w_id w = i) (p_workers p) = None")
  case True
  then show ?thesis
    using assms by (cases "p_primary p") (simp_all add: update_worker_def)
next
  case False
  then have "List.find (\<lambda>w. w_id w = i) (update_first (\<lambda>w. w_id w = i) f (p_workers p)) \<noteq> None"
    using find_update_first [of "\<lambda>w. w_id w = i" f "p_workers p"] assms(1) by auto
  moreover have "update_first (\<lambda>w. w_id w = i) g (update_first (\<lambda>w. w_id w = i) f (p_workers p)) =
      p_workers p"
    by (rule update_first_inverse) (simp_all add: assms)
  ultimately show ?thesis using False by (simp add: update_worker_def)
qed

lemma update_worker_commute_metrics:
  "update_worker i f (p\<lparr>p_metrics := m\<rparr>) = (update_worker i f p)\<lparr>p_metrics := m\<rparr>"
  by (simp add: update_worker_def)

lemma p_metrics_update_worker [simp]: "p_metrics (update_worker i f p) = p_metrics p"
  by (simp add: update_worker_def)

text \<open>The guard around a request: taking and dropping it leaves the counters as they were.\<close>

lemma send_request_holds:
  assumes "holds 1 p (fs_pool st)"
  shows "case send_request env req e i deadline st of
      Inl f \<Rightarrow> holds 0 p (fs_pool (flow_state f))
    | Inr (reply, st') \<Rightarrow> holds 0 p (fs_pool st')"
proof -
  have inv: "update_worker i (\<lambda>w. w\<lparr>w_in_flight := w_in_flight w - Suc 0\<rparr>)
      (update_worker i (\<lambda>w. w\<lparr>w_in_flight := Suc (w_in_flight w)\<rparr>) q) = q" for q
    by (rule update_worker_inverse) simp_all
  show ?thesis
    using assms
    by (auto simp: send_request_def Let_def guard_new_def guard_drop_def slot_release_def
        on_metrics_def on_pool_def update_worker_commute_metrics inv holds_def
        split: prod.split)
qed

lemma holds_cong:
  "fs_pool st = fs_pool st' \<Longrightarrow> holds k p (fs_pool st) = holds k p (fs_pool st')"
  by simp

lemma holds_simps [simp]:
  "holds k p (fs_pool (on_metrics g st)) = holds k p (fs_pool st)"
  "holds k p (fs_pool (on_breaker (quarantine t i d) st)) = holds k p (fs_pool st)"
  "holds k p (fs_pool (on_breaker (record_success i) st)) = holds k p (fs_pool st)"
  "holds 0 p (fs_pool (slot_release st)) = holds (Suc 0) p (fs_pool st)"
  by (auto simp: holds_def on_metrics_def on_breaker_def on_pool_def slot_release_def)

lemma acquire_rpc_slot_holds:
  "case acquire_rpc_slot env deadline st of
     Continue st' \<Rightarrow> holds 1 (fs_pool st) (fs_pool st')
   | Break st' \<Rightarrow> holds 0 (fs_pool st) (fs_pool st')
   | Return r st' \<Rightarrow> holds 0 (fs_pool st) (fs_pool st')"
  by (auto simp: acquire_rpc_slot_def slot_take_def on_pool_def holds_def on_metrics_def
      split: option.split)

lemma wait_for_quarantine_holds:
  "holds 1 p (fs_pool st) \<Longrightarrow> holds 0 p (fs_pool (flow_state (wait_for_quarantine w deadline st)))"
  by (auto simp: wait_for_quarantine_def dest!: sleep_before_retry_cases split: prod.split bool.split)

lemma pick_least_loaded_pool: "pick_least_loaded now p = (r, q) \<Longrightarrow> \<exists>c. q = p\<lparr>p_rr_cursor := c\<rparr>"
  by (auto simp: pick_least_loaded_def Let_def split: if_splits intro: exI [of _ "p_rr_cursor p"])

lemma choose_least_loaded_holds:
  assumes "holds 1 p (fs_pool st)"
  shows "case choose_least_loaded deadline st of
      Inl f \<Rightarrow> holds 0 p (fs_pool (flow_state f))
    | Inr (w, b, st') \<Rightarrow> holds 1 p (fs_pool st')"
proof -
  obtain r q where q: "pick_least_loaded (fs_now st) (fs_pool st) = (r, q)"
    by (cases "pick_least_loaded (fs_now st) (fs_pool st)")
  with assms have "holds 1 p q" by (auto dest!: pick_least_loaded_pool simp: holds_def)
  with q show ?thesis
    by (auto simp: choose_least_loaded_def Let_def wait_for_quarantine_holds split: sum.split)
qed

lemma choose_worker_holds:
  assumes "holds 1 p (fs_pool st)"
  shows "case choose_worker pinned deadline st of
      Inl f \<Rightarrow> holds 0 p (fs_pool (flow_state f))
    | Inr (w, b, st') \<Rightarrow> holds 1 p (fs_pool st')"
proof (cases pinned)
  case None
  then show ?thesis using choose_least_loaded_holds [OF assms] by (simp add: choose_worker_def)
next
  case (Some i)
  then show ?thesis
    using assms by (auto simp: choose_worker_def choose_pinned_def Let_def wait_for_quarantine_holds
        split: option.split)
qed

lemma sleep_holds:
  "holds k p (fs_pool st) \<Longrightarrow> sleep_before_retry d deadline st = (b, st') \<Longrightarrow> holds k p (fs_pool st')"
  by (auto dest: sleep_before_retry_cases)

lemma backoff_retry_holds:
  "holds 0 p (fs_pool st) \<Longrightarrow> holds 0 p (fs_pool (flow_state (backoff_retry env limit deadline reason st)))"
  by (auto simp: backoff_retry_def intro: sleep_holds split: prod.split bool.split)

lemma handle_flood_wait_holds:
  assumes "holds 0 p (fs_pool st)"
  shows "holds 0 p (fs_pool (flow_state (handle_flood_wait limit deadline i ip secs st)))"
proof -
  define st' where "st' = (if \<not> ip
    then on_breaker (quarantine (fs_now st) i (from_secs (secs + 1))) st else st)"
  have h: "holds 0 p (fs_pool st')" using assms by (simp add: st'_def)
  obtain b st'' where s: "sleep_before_retry (from_secs (Suc secs)) deadline st' = (b, st'')"
    by (cases "sleep_before_retry (from_secs (Suc secs)) deadline st'")
  with h have "holds 0 p (fs_pool st'')" by (rule sleep_holds)
  with h s show ?thesis
    by (cases b) (simp_all add: handle_flood_wait_def st'_def [symmetric] Let_def)
qed

lemma handle_reply_holds:
  assumes "holds 0 p (fs_pool st)"
  shows "holds 0 p (fs_pool (flow_state (handle_reply env limit deadline i ip reply st)))"
  using assms
  by (auto simp: handle_reply_def Let_def backoff_retry_holds handle_flood_wait_holds
      split: option.split rpc_reply.split error_kind.split)

text \<open>The four ways through one iteration.\<close>

lemma fetch_iteration_cases:
  obtains (no_slot) "fetch_iteration env req limit deadline pinned st = acquire_rpc_slot env deadline st"
      "\<And>st1. acquire_rpc_slot env deadline st \<noteq> Continue st1"
  | (chosen) st1 g where "acquire_rpc_slot env deadline st = Continue st1"
      "choose_worker pinned deadline st1 = Inl g" "fetch_iteration env req limit deadline pinned st = g"
  | (unsent) st1 w ip st2 st2' g where "acquire_rpc_slot env deadline st = Continue st1"
      "choose_worker pinned deadline st1 = Inr (w, ip, st2)" "fs_pool st2' = fs_pool st2"
      "send_request env req ''timed out waiting for the worker lock'' w deadline st2' = Inl g"
      "fetch_iteration env req limit deadline pinned st = g"
  | (replied) st1 w ip st2 st2' reply st3 where "acquire_rpc_slot env deadline st = Continue st1"
      "choose_worker pinned deadline st1 = Inr (w, ip, st2)" "fs_pool st2' = fs_pool st2"
      "send_request env req ''timed out waiting for the worker lock'' w deadline st2' =
         Inr (reply, st3)"
      "fetch_iteration env req limit deadline pinned st =
         handle_reply env limit deadline w ip reply st3"
proof (cases "acquire_rpc_slot env deadline st")
  case (Continue st1)
  show ?thesis
  proof (cases "choose_worker pinned deadline st1")
    case (Inl g)
    with Continue show ?thesis by (intro chosen) (auto simp: fetch_iteration_def)
  next
    case (Inr wbs)
    obtain w ip st2 where wbs: "wbs = (w, ip, st2)" by (cases wbs)
    define st2' where "st2' = (if ip then st2\<lparr>fs_primary_attempted := True\<rparr> else st2)"
    let ?send = "send_request env req ''timed out waiting for the worker lock'' w deadline st2'"
    show ?thesis
    proof (cases ?send)
      case send: (Inl g)
      show ?thesis
        by (rule unsent [of st1 w ip st2 st2' g])
          (use Continue Inr wbs send in \<open>simp_all add: fetch_iteration_def st2'_def\<close>)
    next
      case send: (Inr rs)
      obtain reply st3 where "rs = (reply, st3)" by (cases rs)
      with Continue Inr wbs send show ?thesis
        by (intro replied [of st1 w ip st2 st2' reply st3]) (simp_all add: fetch_iteration_def st2'_def)
    qed
  qed
qed (auto simp: fetch_iteration_def intro: no_slot)

lemma fetch_iteration_holds:
  "holds 0 (fs_pool st) (fs_pool (flow_state (fetch_iteration env req limit deadline pinned st)))"
proof (rule fetch_iteration_cases [of env req limit deadline pinned st],
    goal_cases no_slot chosen unsent replied)
  case no_slot
  with acquire_rpc_slot_holds [where env = env and deadline = deadline and st = st] show ?case
    by (cases "acquire_rpc_slot env deadline st") auto
next
  case (chosen st1 g)
  with acquire_rpc_slot_holds [where env = env and deadline = deadline and st = st]
    choose_worker_holds [of "fs_pool st" st1 pinned deadline] show ?case by simp
next
  case (unsent st1 w ip st2 st2' g)
  with acquire_rpc_slot_holds [where env = env and deadline = deadline and st = st]
    choose_worker_holds [of "fs_pool st" st1 pinned deadline]
  have "holds 1 (fs_pool st) (fs_pool st2')" by simp
  from send_request_holds [OF this, where env = env and req = req and i = w and deadline = deadline
      and e = "''timed out waiting for the worker lock''"] unsent show ?case by simp
next
  case (replied st1 w ip st2 st2' reply st3)
  with acquire_rpc_slot_holds [where env = env and deadline = deadline and st = st]
    choose_worker_holds [of "fs_pool st" st1 pinned deadline]
  have "holds 1 (fs_pool st) (fs_pool st2')" by simp
  from send_request_holds [OF this, where env = env and req = req and i = w and deadline = deadline
      and e = "''timed out waiting for the worker lock''"] replied show ?case
    by (simp add: handle_reply_holds)
qed

lemma fetch_loop_holds:
  "fetch_loop env req limit deadline pinned st = (r, st') \<Longrightarrow> holds 0 (fs_pool st) (fs_pool st')"
proof (induction env req limit deadline pinned st arbitrary: st' rule: fetch_loop.induct)
  case (1 env req limit deadline pinned st)
  define f where "f = fetch_iteration env req limit deadline pinned st"
  have h: "holds 0 (fs_pool st) (fs_pool (flow_state f))"
    unfolding f_def by (rule fetch_iteration_holds)
  show ?case
  proof (cases "fs_attempts st < limit \<and> fs_now st < deadline")
    case True
    note loop = "1.prems" [unfolded fetch_loop.simps [of env req limit deadline pinned st]]
    show ?thesis
    proof (cases f)
      case (Continue st1)
      with f_def have "fetch_iteration env req limit deadline pinned st = Continue st1" by simp
      with True loop have "fetch_loop env req limit deadline pinned (next_step st1) = (r, st')"
        by simp
      with "1.IH" [OF True, of st1 st'] Continue f_def have "holds 0 (fs_pool st1) (fs_pool st')"
        by (simp add: next_step_def)
      with h Continue show ?thesis by (auto intro: holds_trans)
    qed (use True loop h in \<open>auto simp: next_step_def f_def [symmetric]\<close>)
  next
    case False
    with "1.prems" show ?thesis by (subst (asm) fetch_loop.simps) auto
  qed
qed

lemma primary_reply_holds:
  "holds 0 p (fs_pool st) \<Longrightarrow> holds 0 p (fs_pool (snd (primary_reply reply st)))"
  by (auto simp: primary_reply_def fetch_failed_def
      split: option.split rpc_reply.split error_kind.split)

lemma primary_fetch_holds: "holds 0 (fs_pool st) (fs_pool (snd (primary_fetch env req deadline w st)))"
proof (cases "acquire_rpc_slot env deadline st")
  case (Continue st1)
  then have "holds 1 (fs_pool st) (fs_pool st1)" using acquire_rpc_slot_holds [where env = env and deadline = deadline and st = st] by simp
  from send_request_holds [OF this, where env = env and req = req and i = "w_id w"
      and deadline = deadline and e = "''timed out waiting for the primary worker lock''"] Continue
  show ?thesis
    by (auto simp: primary_fetch_def fetch_failed_def primary_reply_holds split: sum.splits)
qed (use acquire_rpc_slot_holds [where env = env and deadline = deadline and st = st] in \<open>auto simp: primary_fetch_def fetch_failed_def\<close>)

lemma fetch_holds:
  assumes "fetch_chunk_with_budget env req deadline pinned p dc now = (r, st)"
  shows "holds 0 p (fs_pool st)"
proof -
  obtain r1 st1 where l: "fetch_loop env req (worker_attempt_limit pinned p) deadline pinned
      (fetch_start p dc now) = (r1, st1)"
    by (cases "fetch_loop env req (worker_attempt_limit pinned p) deadline pinned (fetch_start p dc now)")
  then have h: "holds 0 p (fs_pool st1)" using fetch_loop_holds [OF l] by (simp add: fetch_start_def)
  show ?thesis
  proof (rule fetch_result_cases [OF assms l], goal_cases returned finished primary)
    case finished
    with h finish_fetch_state(3) [of st1] show ?case by simp
  next
    case (primary w)
    with h primary_fetch_holds [of st1 env req deadline w] show ?case by (auto intro: holds_trans)
  qed (use h in simp)
qed

section \<open>The backoff\<close>

lemma retry_backoff_bounds:
  "from_millis 100 \<le> retry_backoff rnd attempt \<and> retry_backoff rnd attempt \<le> MAX_RETRY_BACKOFF"
proof -
  define k :: u32 where "k = of_nat (attempt - 1)"
  define c where "c = min (as_millis (exponential_delay FETCH_RETRY_BASE_MS k)) (as_millis MAX_RETRY_BACKOFF)"
  have "200 \<le> (200 :: nat) * 2 ^ min (unat k) 31" by simp
  then have "200 \<le> unat (exponential_delay_ms FETCH_RETRY_BASE_MS k)"
    unfolding unat_exponential_delay_ms FETCH_RETRY_BASE_MS_def by simp
  then have "200 \<le> c"
    by (simp add: c_def exponential_delay_def MAX_RETRY_BACKOFF_def as_millis_def from_secs_def from_millis_def)
  moreover have "c \<le> 2000"
    by (simp add: c_def MAX_RETRY_BACKOFF_def as_millis_def from_secs_def)
  moreover have "unat rnd mod (c div 2 + 1) \<le> c div 2" by (simp add: less_Suc_eq_le [symmetric])
  ultimately have "100 \<le> c div 2 + unat rnd mod (c div 2 + 1)"
      "c div 2 + unat rnd mod (c div 2 + 1) \<le> 2000" by linarith+
  then show ?thesis
    by (simp only: retry_backoff_def Let_def k_def [symmetric] c_def [symmetric] from_millis_le)
      (simp add: from_millis_def MAX_RETRY_BACKOFF_def from_secs_def)
qed

section \<open>Properties\<close>

text \<open>
  C3: Every chunk fetch ends: it makes at most four requests and returns before its 25-second
  deadline, whatever Telegram answers and however long it takes. It leaves every worker's in-flight
  count and every RPC slot as it found them, and the bytes it returns are Telegram's answer to the
  request for this chunk.
\<close>
theorem fetch_chunk_safe:
  fixes env :: "'l fetch_env" and req :: "'l get_file" and p dc now
  defines "out \<equiv> fetch_chunk env req p dc now"
  shows "fs_attempts (snd out) \<le> MAX_FETCH_ATTEMPTS \<and>
    fs_now (snd out) \<le> now + CHUNK_FETCH_DEADLINE \<and>
    p_workers (fs_pool (snd out)) = p_workers p \<and> p_primary (fs_pool (snd out)) = p_primary p \<and>
    p_rpc_free (fs_pool (snd out)) = p_rpc_free p \<and> p_upload_free (fs_pool (snd out)) = p_upload_free p \<and>
    (case fst out of
       Inr b \<Rightarrow> (\<exists>i w dc' d. env_rpc env i w dc' req = (d, FileBytes b))
     | Inl e \<Rightarrow> True)"
proof -
  let ?deadline = "now + CHUNK_FETCH_DEADLINE"
  obtain r st where f: "fetch_chunk_with_budget env req ?deadline None p dc now = (r, st)"
    by (cases "fetch_chunk_with_budget env req ?deadline None p dc now")
  have out: "fst out = r" "fs_attempts (snd out) = fs_attempts st" "fs_now (snd out) = fs_now st"
      "holds 0 p (fs_pool (snd out)) = holds 0 p (fs_pool st)"
    using f by (simp_all add: out_def fetch_chunk_def fetch_chunk_until_on_def on_metrics_def on_pool_def holds_def)
  from fetch_budget [OF _ f] have "fs_attempts (snd out) \<le> MAX_FETCH_ATTEMPTS" "fs_now (snd out) \<le> ?deadline"
    by (simp_all add: out)
  moreover have "holds 0 p (fs_pool (snd out))" using fetch_holds [OF f] by (simp add: out(4))
  moreover have "case fst out of Inr b \<Rightarrow> answered env req b | Inl e \<Rightarrow> True"
    using fetch_bytes [where env = env and req = req] f by (auto simp: out split: sum.split)
  ultimately show ?thesis by (cases "fst out") (simp_all add: holds_def answered_def)
qed

end
