(* ===== verification/Worker_Dispatch.thy ===== *)
theory Worker_Dispatch
  imports Worker_Pool
begin

text \<open>
  Correctness of the pool's construction, of the least-loaded dispatch and of the upload leases of
  \<open>crates/stream/src/worker_pool.rs\<close>. The pool's well-formedness ties worker ids to their position
  (the code indexes \<open>workers\<close> by id) and to the circuit breaker's slots.
\<close>

section \<open>Well-formed pools\<close>

definition pool_wf :: "stream_worker_pool \<Rightarrow> bool" where
  "pool_wf p \<longleftrightarrow>
     map w_id (p_workers p) = [0..<length (p_workers p)] \<and>
     length (worker_states (p_breaker p)) = length (p_workers p) \<and>
     length (p_workers p) \<le> usize_max \<and>
     (case p_primary p of Some w \<Rightarrow> w_id w = usize_max | None \<Rightarrow> True)"

lemma pool_wf_id: "pool_wf p \<Longrightarrow> i < length (p_workers p) \<Longrightarrow> w_id (p_workers p ! i) = i"
proof -
  assume wf: "pool_wf p" and i: "i < length (p_workers p)"
  from wf have "map w_id (p_workers p) ! i = [0..<length (p_workers p)] ! i"
    unfolding pool_wf_def by (elim conjE) (erule arg_cong)
  with i show ?thesis by simp
qed

lemma pool_wf_mem: "pool_wf p \<Longrightarrow> w \<in> set (p_workers p) \<Longrightarrow> w_id w < length (p_workers p) \<and> p_workers p ! w_id w = w"
  by (metis in_set_conv_nth pool_wf_id)

lemma init_workers_ids:
  assumes "init_workers f k tokens = Inr ws" and "\<And>i t w. f i t = Inr w \<Longrightarrow> w_id w = i \<and> w_in_flight w = 0"
  shows "map w_id ws = [k..<k + length tokens] \<and> length ws = length tokens \<and> (\<forall>w \<in> set ws. w_in_flight w = 0)"
  using assms
proof (induction tokens arbitrary: k ws)
  case (Cons t tokens)
  then obtain w vs where "f k t = Inr w" "init_workers f (Suc k) tokens = Inr vs" "ws = w # vs"
    by (auto split: sum.splits)
  with Cons.IH [of "Suc k" vs] Cons.prems(2) show ?case by (auto simp: upt_rec [of k])
qed simp

lemma init_workers_slots:
  assumes "init_workers f k tokens = Inr ws" and "\<And>i t w. f i t = Inr w \<Longrightarrow> w_upload_slot w = Suc i"
  shows "\<forall>w \<in> set ws. w_upload_slot w \<noteq> 0"
  using assms by (induction tokens arbitrary: k ws) (fastforce split: sum.splits)+

lemma init_worker_fields:
  "init_worker dc_of saved reconnect sign_in u i t = Inr w \<Longrightarrow>
     w_id w = i \<and> w_in_flight w = 0 \<and> w_upload_slot w = u"
  by (auto simp: init_worker_def Let_def split: sum.splits)

lemma assemble_pool_simps [simp]:
  "p_workers (assemble_pool ws pr) = ws" "p_primary (assemble_pool ws pr) = pr"
  "p_upload_free (assemble_pool ws pr) = (\<lambda>_. 1)" "p_primary_upload_slot (assemble_pool ws pr) = 0"
  "length (worker_states (p_breaker (assemble_pool ws pr))) = length ws"
  "p_rpc_free (assemble_pool ws pr) = max (length ws + (if pr \<noteq> None then 1 else 0)) 1"
  by (simp_all add: assemble_pool_def CircuitBreaker_new_def Let_def)

lemma length_valid_tokens: "length (valid_tokens tokens) \<le> length tokens"
  unfolding valid_tokens_def by (metis length_filter_le length_map)

lemma new_dedicated:
  assumes "valid_tokens tokens \<noteq> []" and "StreamWorkerPool_new dc_of saved reconnect sign_in primary tokens = Inr p"
  obtains ws where "p = assemble_pool ws (map_option (primary_instance dc_of usize_max 0) primary)"
    "map w_id ws = [0..<length (valid_tokens tokens)]" "length ws = length (valid_tokens tokens)"
    "\<forall>w \<in> set ws. w_in_flight w = 0" "\<forall>w \<in> set ws. w_upload_slot w \<noteq> 0"
proof -
  let ?init = "\<lambda>idx. init_worker dc_of saved reconnect sign_in (Suc idx) idx"
  obtain ws where ws: "init_workers ?init 0 (valid_tokens tokens) = Inr ws"
    and p: "p = assemble_pool ws (map_option (primary_instance dc_of usize_max 0) primary)"
    using assms by (auto simp: StreamWorkerPool_new_def Let_def split: sum.splits)
  from init_workers_ids [OF ws] init_worker_fields
  have "map w_id ws = [0..<length (valid_tokens tokens)] \<and> length ws = length (valid_tokens tokens) \<and>
      (\<forall>w \<in> set ws. w_in_flight w = 0)" by (metis add_0)
  moreover from init_workers_slots [OF ws] init_worker_fields have "\<forall>w \<in> set ws. w_upload_slot w \<noteq> 0"
    by metis
  ultimately show ?thesis using p that by blast
qed

section \<open>The least-loaded scan\<close>

lemma scan_workers_result:
  "scan_workers avail ws best m = r \<Longrightarrow>
     (r = best \<and> (\<forall>w \<in> set ws. avail (w_id w) \<longrightarrow> m \<le> w_in_flight w)) \<or>
     (\<exists>w \<in> set ws. r = Some (w_id w) \<and> avail (w_id w) \<and> w_in_flight w < m \<and>
        (\<forall>v \<in> set ws. avail (w_id v) \<longrightarrow> w_in_flight w \<le> w_in_flight v))"
proof (induction ws arbitrary: best m)
  case (Cons w ws)
  show ?case
  proof (cases "avail (w_id w) \<and> w_in_flight w < m")
    case True
    with Cons.IH [of "Some (w_id w)" "w_in_flight w"] Cons.prems show ?thesis by force
  next
    case False
    with Cons.IH [of best m] Cons.prems show ?thesis by force
  qed
qed simp

lemma scan_workers_tie:
  "(\<And>w. w \<in> set ws \<Longrightarrow> w_in_flight w = f) \<Longrightarrow> scan_workers avail ws (Some i) f = Some i"
  by (induction ws) auto

lemma rotated_order:
  assumes "n = length ws" and "0 < n"
  shows "map (\<lambda>offset. ws ! ((start + offset) mod n)) [0..<n] = rotate start ws"
  using assms by (intro nth_equalityI) (simp_all add: nth_rotate add.commute)

lemma pick_least_loaded_eq:
  "pick_least_loaded now p =
     (if p_workers p = [] then (Inl AllWorkersUnavailable, p)
      else (case scan_workers (is_available now (p_breaker p))
                   (rotate (unat (p_rr_cursor p) mod length (p_workers p)) (p_workers p)) None usize_max of
              Some i \<Rightarrow> Inr i
            | None \<Rightarrow> Inl AllWorkersUnavailable,
            p\<lparr>p_rr_cursor := p_rr_cursor p + 1\<rparr>))"
  by (simp add: pick_least_loaded_def Let_def rotated_order)

section \<open>Leases\<close>

text \<open>
  The upload side of the pool as a machine: leases are taken and dropped in any order, while
  workers are quarantined, recovered or marked slow. The state is the pool and the outstanding
  leases.
\<close>

datatype lease_event =
  TakeLease instant "nat \<Rightarrow> bool"
| DropLease nat
| MarkSlow instant nat duration
| QuarantineWorker instant nat duration
| WorkerSucceeded nat

fun lease_step ::
  "stream_worker_pool \<times> upload_worker_lease list \<Rightarrow> lease_event \<Rightarrow>
   stream_worker_pool \<times> upload_worker_lease list" where
  "lease_step (p, ls) (TakeLease now busy) =
     (case lease_upload_worker now busy p of
        (Inr l, p') \<Rightarrow> (p', ls @ [l])
      | (Inl e, p') \<Rightarrow> (p', ls))"
| "lease_step (p, ls) (DropLease k) =
     (if k < length ls then (drop_lease (ls ! k) p, take k ls @ drop (Suc k) ls) else (p, ls))"
| "lease_step (p, ls) (MarkSlow now i d) = (mark_worker_slow now i d p, ls)"
| "lease_step (p, ls) (QuarantineWorker now i d) =
     (p\<lparr>p_breaker := quarantine now i d (p_breaker p)\<rparr>, ls)"
| "lease_step (p, ls) (WorkerSucceeded i) = (p\<lparr>p_breaker := record_success i (p_breaker p)\<rparr>, ls)"

text \<open>Every upload semaphore's single permit is either free or held by exactly one lease.\<close>

definition permits_conserved :: "stream_worker_pool \<times> upload_worker_lease list \<Rightarrow> bool" where
  "permits_conserved s \<longleftrightarrow>
     (\<forall>slot. p_upload_free (fst s) slot + count (mset (map lease_slot (snd s))) slot = 1)"

lemma claim_upload_worker_Some:
  "claim_upload_worker cs free = (Some (w, slot), free') \<Longrightarrow>
     (w, slot) \<in> set cs \<and> 0 < free slot \<and> free' = free(slot := free slot - 1)"
  by (induction cs free rule: claim_upload_worker.induct) (auto split: if_splits)

lemma claim_upload_worker_None:
  "claim_upload_worker cs free = (None, free') \<longleftrightarrow> free' = free \<and> (\<forall>(w, slot) \<in> set cs. free slot = 0)"
  by (induction cs free rule: claim_upload_worker.induct) auto

lemma update_worker_upload [simp]: "p_upload_free (update_worker i f p) = p_upload_free p"
  by (simp add: update_worker_def)

lemma lease_upload_worker_Inr:
  assumes "lease_upload_worker now busy p = (Inr l, p')"
  shows "0 < p_upload_free p (lease_slot l) \<and>
    p_upload_free p' = (p_upload_free p)(lease_slot l := p_upload_free p (lease_slot l) - 1) \<and>
    (\<exists>w \<in> set (eligible_workers now busy p).
       lease_worker_id l = w_id w \<and> lease_slot l = w_upload_slot w)"
  using assms
  by (auto simp: lease_upload_worker_def split: prod.splits option.splits
      dest!: claim_upload_worker_Some)

lemma lease_upload_worker_Inl:
  "lease_upload_worker now busy p = (Inl e, p') \<Longrightarrow>
     e = AllWorkersUnavailable \<and> p' = p \<and>
     (\<forall>w \<in> set (eligible_workers now busy p). p_upload_free p (w_upload_slot w) = 0)"
  by (auto simp: lease_upload_worker_def claim_upload_worker_None split: prod.splits option.splits)

lemma permits_conserved_take:
  assumes "permits_conserved (p, ls)" and "lease_upload_worker now busy p = (Inr l, p')"
  shows "permits_conserved (p', ls @ [l])"
proof -
  let ?slot = "lease_slot l" and ?held = "\<lambda>x. count (mset (map lease_slot ls)) x"
  from assms(1) have inv: "p_upload_free p x + ?held x = 1" for x by (simp add: permits_conserved_def)
  from lease_upload_worker_Inr [OF assms(2)] have pos: "0 < p_upload_free p ?slot"
    and free: "p_upload_free p' = (p_upload_free p)(?slot := p_upload_free p ?slot - 1)" by auto
  from inv [of ?slot] pos have "p_upload_free p ?slot - 1 + (?held ?slot + 1) = 1" by linarith
  with inv show ?thesis by (auto simp: permits_conserved_def free)
qed

lemma permits_conserved_drop:
  assumes "permits_conserved (p, ls)" and "k < length ls"
  shows "permits_conserved (drop_lease (ls ! k) p, take k ls @ drop (Suc k) ls)"
proof -
  have "mset (map lease_slot ls) =
      add_mset (lease_slot (ls ! k)) (mset (map lease_slot (take k ls @ drop (Suc k) ls)))"
    using mset_take_drop_Suc [OF assms(2)] by (metis image_mset_add_mset mset_map)
  then have cnt: "count (mset (map lease_slot ls)) x =
      (if x = lease_slot (ls ! k) then 1 else 0) +
      count (mset (map lease_slot (take k ls @ drop (Suc k) ls))) x" for x
    by (simp only: count_add_mset) simp
  have free: "p_upload_free (drop_lease (ls ! k) p) x =
      p_upload_free p x + (if x = lease_slot (ls ! k) then 1 else 0)" for x
    by (simp add: drop_lease_def Let_def)
  show ?thesis
    unfolding permits_conserved_def fst_conv snd_conv
  proof
    fix x
    from assms(1) have "p_upload_free p x + count (mset (map lease_slot ls)) x = 1"
      by (simp add: permits_conserved_def)
    then show "p_upload_free (drop_lease (ls ! k) p) x +
        count (mset (map lease_slot (take k ls @ drop (Suc k) ls))) x = 1"
      unfolding free cnt by linarith
  qed
qed

lemma mark_worker_slow_upload [simp]: "p_upload_free (mark_worker_slow now i d p) = p_upload_free p"
  by (simp add: mark_worker_slow_def split: option.split)

lemma permits_conserved_step: "permits_conserved s \<Longrightarrow> permits_conserved (lease_step s e)"
proof (cases "(s, e)" rule: lease_step.cases)
  case (1 p ls now busy)
  assume "permits_conserved s"
  with 1 show ?thesis
    by (cases "lease_upload_worker now busy p")
      (auto split: sum.splits intro: permits_conserved_take dest: lease_upload_worker_Inl)
qed (auto simp: permits_conserved_drop simp del: take_append, auto simp: permits_conserved_def)

lemma count_le_1_distinct:
  assumes "\<And>x. count (mset xs) x \<le> 1"
  shows "distinct xs"
  unfolding distinct_count_atmost_1
proof (intro allI)
  fix a
  show "count (mset xs) a = (if a \<in> set xs then 1 else 0)"
    using assms [of a] by (cases "a \<in> set xs") (auto simp: le_Suc_eq count_mset_0_iff)
qed

text \<open>The upload semaphores of a pool: every worker's and the primary session's.\<close>

definition upload_slots :: "stream_worker_pool \<Rightarrow> nat set" where
  "upload_slots p = set (map w_upload_slot (p_workers p)) \<union>
     (case p_primary p of Some w \<Rightarrow> {w_upload_slot w} | None \<Rightarrow> {})"

lemma map_update_first:
  "(\<And>x. g (f x) = g x) \<Longrightarrow> map g (update_first P f xs) = map g xs"
  by (induction xs) auto

lemma upload_slots_update_worker:
  "(\<And>w. w_upload_slot (f w) = w_upload_slot w) \<Longrightarrow> upload_slots (update_worker i f p) = upload_slots p"
  by (cases "p_primary p") (simp_all add: upload_slots_def update_worker_def map_update_first del: set_map)

lemma upload_slots_frame [simp]:
  "upload_slots (p\<lparr>p_upload_free := f\<rparr>) = upload_slots p" "upload_slots (p\<lparr>p_breaker := b\<rparr>) = upload_slots p"
  by (simp_all add: upload_slots_def)

lemma upload_slots_ops [simp]:
  "upload_slots (mark_worker_slow now i d p) = upload_slots p" "upload_slots (drop_lease l p) = upload_slots p"
  by (simp_all add: mark_worker_slow_def drop_lease_def Let_def upload_slots_update_worker split: option.split)

lemma eligible_slots: "w \<in> set (eligible_workers now busy p) \<Longrightarrow> w_upload_slot w \<in> upload_slots p"
  by (auto simp: eligible_workers_def upload_slots_def split: option.splits if_splits)

lemma lease_slots:
  assumes "lease_upload_worker now busy p = (r, p')"
  shows "upload_slots p' = upload_slots p \<and> (\<forall>l. r = Inr l \<longrightarrow> lease_slot l \<in> upload_slots p)"
proof
  show "upload_slots p' = upload_slots p"
    using assms by (auto simp: lease_upload_worker_def upload_slots_update_worker split: prod.splits option.splits)
  show "\<forall>l. r = Inr l \<longrightarrow> lease_slot l \<in> upload_slots p"
    using assms eligible_slots by (auto dest!: lease_upload_worker_Inr)
qed

definition leases_ok :: "nat set \<Rightarrow> stream_worker_pool \<times> upload_worker_lease list \<Rightarrow> bool" where
  "leases_ok S s \<longleftrightarrow> permits_conserved s \<and> upload_slots (fst s) = S \<and> set (map lease_slot (snd s)) \<subseteq> S"

lemma leases_ok_step: "leases_ok S s \<Longrightarrow> leases_ok S (lease_step s e)"
proof (cases "(s, e)" rule: lease_step.cases)
  case (1 p ls now busy)
  assume ok: "leases_ok S s"
  with 1 lease_slots [of now busy p] permits_conserved_step [of s e] show ?thesis
    by (cases "lease_upload_worker now busy p") (auto simp: leases_ok_def split: sum.splits)
next
  case (2 p ls k)
  assume ok: "leases_ok S s"
  with 2 permits_conserved_step [of s e] show ?thesis
    by (auto simp: leases_ok_def dest!: in_set_takeD in_set_dropD simp del: take_append)
qed (use permits_conserved_step [of s e] in \<open>auto simp: leases_ok_def\<close>)

interpretation leases: event_machine "(assemble_pool ws pr, [])" lease_step
  "leases_ok (upload_slots (assemble_pool ws pr))" for ws pr
proof unfold_locales
  show "leases_ok (upload_slots (assemble_pool ws pr)) (assemble_pool ws pr, [])"
    by (simp add: leases_ok_def permits_conserved_def)
qed (rule leases_ok_step)

lemma new_is_assembled:
  assumes "StreamWorkerPool_new dc_of saved reconnect sign_in primary tokens = Inr p"
  shows "\<exists>ws pr. p = assemble_pool ws pr \<and> (\<forall>w. pr = Some w \<longrightarrow> w_upload_slot w = 0)"
proof (cases "valid_tokens tokens = []")
  case True
  with assms obtain c where "p = assemble_pool [primary_instance dc_of 0 0 c] None"
    by (auto simp: StreamWorkerPool_new_def split: option.splits)
  then show ?thesis by blast
next
  case False
  from new_dedicated [OF this assms] obtain ws where
    "p = assemble_pool ws (map_option (primary_instance dc_of usize_max 0) primary)" by blast
  moreover have "w_upload_slot w = 0" if "map_option (primary_instance dc_of usize_max 0) primary = Some w" for w
    using that by (auto simp: primary_instance_def)
  ultimately show ?thesis by blast
qed

lemma session_bound:
  assumes "upload_slots p \<subseteq> insert (p_primary_upload_slot p) (set (map w_upload_slot (p_workers p)))"
  shows "card (upload_slots p) \<le> upload_session_count p"
proof -
  have card_bound: "card (insert a (set xs)) \<le> Suc (length xs)" for a :: nat and xs
    using card_insert_le_m1 [of "Suc (length xs)" "set xs" a] card_length [of xs] by simp
  let ?others = "filter (\<lambda>s. s \<noteq> p_primary_upload_slot p) (map w_upload_slot (p_workers p))"
  have "card (upload_slots p) \<le> card (insert (p_primary_upload_slot p) (set ?others))"
    using assms by (intro card_mono) auto
  also have "\<dots> \<le> Suc (length ?others)" by (rule card_bound)
  finally show ?thesis by (simp add: upload_session_count_def count_upload_sessions_def)
qed

section \<open>Properties\<close>

text \<open>
  C15: Under any sequence of leases taken and dropped, quarantines, recoveries and slow marks on a pool
  as it is constructed, no two outstanding upload leases share a session, a session's permit is free
  exactly when no lease holds it, and there are never more leases than \<open>upload_session_count\<close>
  announces.
\<close>
theorem upload_leases_exclusive:
  assumes "StreamWorkerPool_new dc_of saved reconnect sign_in primary tokens = Inr p"
    and "foldl lease_step (p, []) es = (p', ls)"
  shows "distinct (map lease_slot ls) \<and>
    p_upload_free p' slot = (if slot \<in> set (map lease_slot ls) then 0 else 1) \<and>
    length ls \<le> upload_session_count p"
proof (intro conjI)
  from new_is_assembled [OF assms(1)] obtain ws pr where
    p: "p = assemble_pool ws pr" and pr: "\<And>w. pr = Some w \<Longrightarrow> w_upload_slot w = 0" by blast
  have "leases_ok (upload_slots p) (foldl lease_step (p, []) es)" unfolding p by (rule leases.inv_run)
  then have permits: "permits_conserved (p', ls)" and sub: "set (map lease_slot ls) \<subseteq> upload_slots p"
    unfolding assms(2) leases_ok_def by simp_all
  from permits have cons: "p_upload_free p' x + count (mset (map lease_slot ls)) x = 1" for x
    unfolding permits_conserved_def by simp
  have "count (mset (map lease_slot ls)) x \<le> 1" for x using cons [of x] by linarith
  then show d: "distinct (map lease_slot ls)" by (rule count_le_1_distinct)
  then have "count (mset (map lease_slot ls)) slot = (if slot \<in> set (map lease_slot ls) then 1 else 0)"
    by (simp only: distinct_count_atmost_1)
  with cons [of slot] show "p_upload_free p' slot = (if slot \<in> set (map lease_slot ls) then 0 else 1)"
    by (simp split: if_splits)
  have "length ls = card (set (map lease_slot ls))" using distinct_card [OF d] by simp
  also have "\<dots> \<le> card (upload_slots p)"
    by (rule card_mono [OF _ sub]) (simp add: upload_slots_def split: option.split)
  also have "\<dots> \<le> upload_session_count p"
    by (rule session_bound) (use pr in \<open>auto simp: p upload_slots_def split: option.splits\<close>)
  finally show "length ls \<le> upload_session_count p" .
qed

definition demo_pool_new :: "stream_error + stream_worker_pool" where
  "demo_pool_new = StreamWorkerPool_new (\<lambda>_. None) (\<lambda>_ _. None) (\<lambda>_ _. None)
     (\<lambda>_ _. Inr \<lparr>con_username = None, con_exported = None\<rparr>)
     None [''tok1'', '' '', ''tok2'']"

definition demo_lease_events :: "lease_event list" where
  "demo_lease_events = [TakeLease 5 (\<lambda>_. False), TakeLease 6 (\<lambda>_. False), TakeLease 7 (\<lambda>_. False), DropLease 0]"

lemma upload_leases_exclusive_witness:
  "\<exists>p p' ls. demo_pool_new = Inr p \<and> foldl lease_step (p, []) demo_lease_events = (p', ls) \<and>
     map lease_slot ls = [2] \<and> p_upload_free p' 1 = 1 \<and> p_upload_free p' 2 = 0"
proof -
  let ?w = "\<lambda>i. \<lparr>w_id = i, w_in_flight = 0, w_username = None, w_home_dc = 0, w_slow_until = None,
     w_upload_slot = Suc i\<rparr>"
  define p where "p = assemble_pool [?w 0, ?w 1] None"
  have "valid_tokens [''tok1'', '' '', ''tok2''] = [''tok1'', ''tok2'']" by code_simp
  then have p: "demo_pool_new = Inr p"
    by (simp add: demo_pool_new_def StreamWorkerPool_new_def p_def init_worker_def)
  have l: "map lease_slot (snd (foldl lease_step (p, []) demo_lease_events)) = [2]"
    by (simp add: p_def demo_lease_events_def assemble_pool_def CircuitBreaker_new_def lease_upload_worker_def
        eligible_workers_def is_available_def worker_slot_def not_slow_def update_worker_def drop_lease_def)
  obtain p' ls where run: "foldl lease_step (p, []) demo_lease_events = (p', ls)"
    by (cases "foldl lease_step (p, []) demo_lease_events")
  have ls: "map lease_slot ls = [2]" using l run by simp
  then have "set (map lease_slot ls) = {2}" by (simp only: set_simps)
  with upload_leases_exclusive [OF p [unfolded demo_pool_new_def] run]
  have free: "p_upload_free p' 1 = 1" "p_upload_free p' 2 = 0" by (simp_all del: set_map)
  show ?thesis by (intro exI conjI, rule p, rule run, rule ls, rule free(1), rule free(2))
qed

lemma pick_minimal:
  assumes wf: "pool_wf p" and bound: "\<And>w. w \<in> set (p_workers p) \<Longrightarrow> w_in_flight w < usize_max"
  shows "case fst (pick_least_loaded now p) of
      Inr i \<Rightarrow> i < length (p_workers p) \<and> is_available now (p_breaker p) i \<and>
        (\<forall>k < length (p_workers p). is_available now (p_breaker p) k \<longrightarrow>
           w_in_flight (p_workers p ! i) \<le> w_in_flight (p_workers p ! k))
    | Inl e \<Rightarrow> e = AllWorkersUnavailable \<and> (\<forall>k. \<not> is_available now (p_breaker p) k)"
proof (cases "p_workers p = []")
  case True
  with wf have "\<not> is_available now (p_breaker p) k" for k
    using is_available_range [of now "p_breaker p" k] by (auto simp: pool_wf_def)
  with True show ?thesis by (simp add: pick_least_loaded_eq)
next
  case False
  let ?ws = "p_workers p" and ?av = "is_available now (p_breaker p)"
  let ?order = "rotate (unat (p_rr_cursor p) mod length ?ws) ?ws"
  have av: "?av j \<Longrightarrow> j < length ?ws" for j
    using is_available_range [of now "p_breaker p" j] wf by (simp add: pool_wf_def)
  have ids: "j < length ?ws \<Longrightarrow> ?ws ! j \<in> set ?ws \<and> w_id (?ws ! j) = j" for j
    using pool_wf_id [OF wf] by simp
  from scan_workers_result [of ?av ?order None usize_max]
  consider "scan_workers ?av ?order None usize_max = None"
      "\<forall>w \<in> set ?ws. ?av (w_id w) \<longrightarrow> usize_max \<le> w_in_flight w"
    | w where "w \<in> set ?ws" "scan_workers ?av ?order None usize_max = Some (w_id w)" "?av (w_id w)"
        "\<forall>v \<in> set ?ws. ?av (w_id v) \<longrightarrow> w_in_flight w \<le> w_in_flight v" by fastforce
  then show ?thesis
  proof cases
    case 1
    have "\<not> ?av j" for j
    proof
      assume j: "?av j"
      with av ids have "?ws ! j \<in> set ?ws" "w_id (?ws ! j) = j" by blast+
      with 1(2) j bound show False by (metis linorder_not_less)
    qed
    with 1 False show ?thesis by (simp add: pick_least_loaded_eq)
  next
    case (2 w)
    from pool_wf_mem [OF wf 2(1)] have "?ws ! w_id w = w" "w_id w < length ?ws" by auto
    with 2 ids False show ?thesis by (simp add: pick_least_loaded_eq)
  qed
qed

lemma round_robin_tie:
  assumes wf: "pool_wf p" and bound: "\<And>w. w \<in> set (p_workers p) \<Longrightarrow> w_in_flight w < usize_max"
    and ne: "p_workers p \<noteq> []"
    and all: "\<And>k. k < length (p_workers p) \<Longrightarrow> is_available now (p_breaker p) k"
    and load: "\<And>w. w \<in> set (p_workers p) \<Longrightarrow> w_in_flight w = f"
  shows "fst (pick_least_loaded now p) = Inr (unat (p_rr_cursor p) mod length (p_workers p))"
proof -
  let ?ws = "p_workers p" and ?av = "is_available now (p_breaker p)"
  let ?k = "unat (p_rr_cursor p) mod length (p_workers p)"
  have k: "?k < length ?ws" using ne by simp
  have "rotate ?k ?ws = ?ws ! ?k # drop (Suc ?k) ?ws @ take ?k ?ws"
    using k by (simp add: rotate_drop_take Cons_nth_drop_Suc [symmetric])
  moreover have "?ws ! ?k \<in> set ?ws" using k by simp
  then have "w_in_flight (?ws ! ?k) = f" "f < usize_max" using load bound by fastforce+
  moreover have "scan_workers ?av (drop (Suc ?k) ?ws @ take ?k ?ws) (Some ?k) f = Some ?k"
    by (rule scan_workers_tie) (auto intro: load dest: in_set_dropD in_set_takeD)
  ultimately have "scan_workers ?av (rotate ?k ?ws) None usize_max = Some ?k"
    using pool_wf_id [OF wf k] all [OF k] by simp
  with ne show ?thesis by (simp add: pick_least_loaded_eq)
qed

lemma pick_moves_cursor:
  "p_workers p \<noteq> [] \<Longrightarrow> snd (pick_least_loaded now p) = p\<lparr>p_rr_cursor := p_rr_cursor p + 1\<rparr>"
  by (simp add: pick_least_loaded_def Let_def)

text \<open>The choices of consecutive dispatches with nothing in between.\<close>

fun picks :: "nat \<Rightarrow> instant \<Rightarrow> stream_worker_pool \<Rightarrow> (stream_error + nat) list" where
  "picks 0 now p = []"
| "picks (Suc m) now p = fst (pick_least_loaded now p) # picks m now (snd (pick_least_loaded now p))"

lemma picks_in_turn:
  assumes "pool_wf p" "\<And>w. w \<in> set (p_workers p) \<Longrightarrow> w_in_flight w < usize_max" "p_workers p \<noteq> []"
    "\<And>k. k < length (p_workers p) \<Longrightarrow> is_available now (p_breaker p) k" "\<And>w. w \<in> set (p_workers p) \<Longrightarrow> w_in_flight w = f"
  shows "picks m now p = map (\<lambda>k. Inr (unat (p_rr_cursor p + of_nat k) mod length (p_workers p))) [0..<m]"
  using assms
proof (induction m arbitrary: p)
  case (Suc m)
  let ?p = "p\<lparr>p_rr_cursor := p_rr_cursor p + 1\<rparr>"
  have "picks m now ?p = map (\<lambda>k. Inr (unat (p_rr_cursor ?p + of_nat k) mod length (p_workers ?p))) [0..<m]"
    by (rule Suc.IH) (use Suc.prems in \<open>simp_all add: pool_wf_def\<close>)
  then show ?case using round_robin_tie [OF Suc.prems] pick_moves_cursor [OF Suc.prems(3), of now]
    by (simp add: upt_conv_Cons map_Suc_upt [symmetric] ac_simps del: upt_Suc)
qed simp

text \<open>
  C16: The dispatcher picks an available worker with the fewest requests in flight, and it fails exactly
  when no worker is available. Every dispatch moves the cursor by one, whatever its outcome, so while all workers are
  available and equally loaded consecutive dispatches go round them in turn.
\<close>
theorem dispatch_least_loaded:
  assumes "pool_wf p" and "\<And>w. w \<in> set (p_workers p) \<Longrightarrow> w_in_flight w < usize_max"
  shows "(case fst (pick_least_loaded now p) of
       Inr i \<Rightarrow> i < length (p_workers p) \<and> is_available now (p_breaker p) i \<and>
         (\<forall>k < length (p_workers p). is_available now (p_breaker p) k \<longrightarrow>
            w_in_flight (p_workers p ! i) \<le> w_in_flight (p_workers p ! k))
     | Inl e \<Rightarrow> e = AllWorkersUnavailable \<and> (\<forall>k. \<not> is_available now (p_breaker p) k)) \<and>
    (p_workers p \<noteq> [] \<longrightarrow> snd (pick_least_loaded now p) = p\<lparr>p_rr_cursor := p_rr_cursor p + 1\<rparr>) \<and>
    (p_workers p \<noteq> [] \<longrightarrow> (\<forall>k < length (p_workers p). is_available now (p_breaker p) k) \<longrightarrow>
      (\<forall>w \<in> set (p_workers p). w_in_flight w = f) \<longrightarrow>
      picks m now p = map (\<lambda>k. Inr (unat (p_rr_cursor p + of_nat k) mod length (p_workers p))) [0..<m])"
  using pick_minimal [OF assms] picks_in_turn [OF assms] pick_moves_cursor by blast

definition demo_workers :: stream_worker_pool where
  "demo_workers = assemble_pool
     (map (\<lambda>i. \<lparr>w_id = i, w_in_flight = 3 - i, w_username = None, w_home_dc = 0, w_slow_until = None,
        w_upload_slot = Suc i\<rparr>) [0, 1]) None"

lemma dispatch_least_loaded_witness: "fst (pick_least_loaded 7 demo_workers) = Inr 1"
proof -
  have wf: "pool_wf demo_workers"
    by (simp add: demo_workers_def pool_wf_def usize_max_def upt_rec)
  have load: "w \<in> set (p_workers demo_workers) \<Longrightarrow> w_in_flight w < usize_max" for w
    by (auto simp: demo_workers_def usize_max_def)
  have av: "is_available 7 (p_breaker demo_workers) k \<longleftrightarrow> k < 2" for k
    by (auto simp: demo_workers_def assemble_pool_def CircuitBreaker_new_def is_available_def worker_slot_def
        less_Suc_eq numeral_2_eq_2)
  have ws: "length (p_workers demo_workers) = 2" "w_in_flight (p_workers demo_workers ! 0) = 3"
      "w_in_flight (p_workers demo_workers ! 1) = 2"
    by (simp_all add: demo_workers_def)
  note picked = dispatch_least_loaded [where now = 7, OF wf load, THEN conjunct1]
  show ?thesis
  proof (cases "fst (pick_least_loaded 7 demo_workers)")
    case (Inl e)
    with picked av show ?thesis by (auto dest: spec [of _ 0])
  next
    case (Inr i)
    with picked av ws
    have "i < 2" "w_in_flight (p_workers demo_workers ! i) \<le> 2" by (auto dest: spec [of _ 1])
    with ws(2) Inr show ?thesis by (cases "i = 0") (auto simp: less_2_cases_iff)
  qed
qed

end
