(* ===== verification/Music.thy ===== *)
theory Music
  imports Prelude
begin

text \<open>
  The provider-neutral domain types of \<open>crates/music/src/lib.rs\<close> (codecs, codec preferences,
  renditions and the work plan of a rip) and the percent encoder of \<open>crates/music/src/url.rs\<close>.
\<close>

section \<open>Codecs and renditions\<close>

datatype codec = Alac | Ec3 | Aac

datatype codec_preference = HighestQuality | HiRes192 | HiRes96 | LosslessCd | AtmosPreference

datatype rendition_policy = PrimaryOnly | PrimaryWithOptionalAtmos

datatype rendition = Primary | Atmos

datatype target_kind = Track | Album | Playlist | Artist

record parsed_target_item =
  pt_id :: string
  pt_kind :: target_kind
  pt_storefront :: "string option"

definition to_ascii_lowercase :: "string \<Rightarrow> string" where
  "to_ascii_lowercase s =
     map (\<lambda>c. if 65 \<le> (of_char c :: nat) \<and> (of_char c :: nat) \<le> 90
              then char_of (of_char c + 32 :: nat) else c) s"

fun trim_start_char :: "char \<Rightarrow> string \<Rightarrow> string" where
  "trim_start_char c [] = []"
| "trim_start_char c (x # xs) = (if x = c then trim_start_char c xs else x # xs)"

definition CodecPreference_parse :: "string \<Rightarrow> codec_preference option" where
  "CodecPreference_parse s =
     (let clean = to_ascii_lowercase (trim_start_char CHR ''-'' (trim s))
      in if clean \<in> {''highest'', ''max'', ''best''} then Some HighestQuality
         else if clean \<in> {''hires'', ''hires192'', ''24-192'', ''192''} then Some HiRes192
         else if clean \<in> {''hires96'', ''24-96'', ''96''} then Some HiRes96
         else if clean \<in> {''lossless'', ''cd'', ''16-44''} then Some LosslessCd
         else if clean = ''atmos'' then Some AtmosPreference
         else None)"

fun rendition_codec_preference :: "rendition \<Rightarrow> codec_preference" where
  "rendition_codec_preference Primary = HighestQuality"
| "rendition_codec_preference Atmos = AtmosPreference"

fun rendition_required :: "rendition \<Rightarrow> bool" where
  "rendition_required Primary = True"
| "rendition_required Atmos = False"

fun accepted_cache_codecs :: "rendition \<Rightarrow> codec list" where
  "accepted_cache_codecs Primary = [Alac, Aac]"
| "accepted_cache_codecs Atmos = [Ec3]"

fun renditions :: "rendition_policy \<Rightarrow> rendition list" where
  "renditions PrimaryOnly = [Primary]"
| "renditions PrimaryWithOptionalAtmos = [Primary, Atmos]"

record rendition_work_unit =
  wu_track_id :: string
  wu_rendition :: rendition

text \<open>The nested loops of \<open>work_plan\<close>: for every track, every rendition of the policy.\<close>

fun work_plan :: "rendition_policy \<Rightarrow> string list \<Rightarrow> rendition_work_unit list" where
  "work_plan pol [] = []"
| "work_plan pol (t # ts) =
     map (\<lambda>r. \<lparr>wu_track_id = t, wu_rendition = r\<rparr>) (renditions pol) @ work_plan pol ts"

definition mime_type :: "codec \<Rightarrow> string" where
  "mime_type c = ''audio/mp4''"

fun codec_as_str :: "codec \<Rightarrow> string" where
  "codec_as_str Alac = ''alac''"
| "codec_as_str Ec3 = ''ec-3''"
| "codec_as_str Aac = ''aac''"

fun display_name :: "codec \<Rightarrow> string" where
  "display_name Alac = ''ALAC''"
| "display_name Ec3 = ''Dolby Atmos''"
| "display_name Aac = ''AAC''"

definition Codec_from_str :: "string \<Rightarrow> string + codec" where
  "Codec_from_str s =
     (let v = to_ascii_lowercase (trim s)
      in if v = ''alac'' then Inr Alac
         else if v \<in> {''ec-3'', ''ec3'', ''atmos'', ''dolby'', ''dolby atmos'', ''eac3''} then Inr Ec3
         else if v \<in> {''aac'', ''mp4a.40.2'', ''mp4a.40.5'', ''heaac''} then Inr Aac
         else Inl (''unknown codec: '' @ v))"

section \<open>Percent encoding\<close>

definition is_unreserved :: "char \<Rightarrow> bool" where
  "is_unreserved c \<longleftrightarrow>
     (let n = (of_char c :: nat)
      in 65 \<le> n \<and> n \<le> 90 \<or> 97 \<le> n \<and> n \<le> 122 \<or> 48 \<le> n \<and> n \<le> 57 \<or>
         c \<in> {CHR ''-'', CHR ''_'', CHR ''.'', CHR ''~''})"

definition hex_digit :: "nat \<Rightarrow> char" where
  "hex_digit d = char_of (if d < 10 then 48 + d else 55 + d)"

definition percent_byte :: "char \<Rightarrow> string" where
  "percent_byte c =
     [CHR ''%'', hex_digit (of_char c div 16), hex_digit (of_char c mod 16)]"

fun urlencode :: "string \<Rightarrow> string" where
  "urlencode [] = []"
| "urlencode (c # cs) = (if is_unreserved c then c # urlencode cs else percent_byte c @ urlencode cs)"

lemma percent_not_unreserved: "\<not> is_unreserved CHR ''%''"
  by (simp add: is_unreserved_def)

lemma hex_digit_inj: "a < 16 \<Longrightarrow> b < 16 \<Longrightarrow> hex_digit a = hex_digit b \<Longrightarrow> a = b"
proof -
  assume lt: "a < 16" "b < 16" and eq: "hex_digit a = hex_digit b"
  from eq have "(of_char (hex_digit a) :: nat) = of_char (hex_digit b)" by simp
  with lt show ?thesis by (auto simp: hex_digit_def split: if_splits)
qed

lemma of_char_less_256: "(of_char c :: nat) < 256"
  by (metis char_of_mod_256 mod_less_divisor of_char_of of_char_mod_256 zero_less_numeral)

lemma nibble_less: "(of_char c :: nat) div 16 < 16"
  using of_char_less_256 [of c] by (simp add: less_mult_imp_div_less)

lemma percent_byte_inj: "percent_byte c = percent_byte d \<Longrightarrow> c = d"
proof -
  assume "percent_byte c = percent_byte d"
  then have "hex_digit (of_char c div 16) = hex_digit (of_char d div 16)"
      "hex_digit (of_char c mod 16) = hex_digit (of_char d mod 16)"
    by (simp_all add: percent_byte_def)
  moreover have "(of_char c :: nat) div 16 < 16" "(of_char d :: nat) div 16 < 16"
      "(of_char c :: nat) mod 16 < 16" "(of_char d :: nat) mod 16 < 16"
    by (simp_all only: nibble_less mod_less_divisor zero_less_numeral)
  ultimately have "(of_char c :: nat) div 16 = of_char d div 16" "(of_char c :: nat) mod 16 = of_char d mod 16"
    by (blast dest: hex_digit_inj)+
  then have "(of_char c :: nat) = of_char d" by (metis div_mod_decomp)
  then show ?thesis by simp
qed

lemma urlencode_inj: "urlencode a = urlencode b \<Longrightarrow> a = b"
proof (induction a arbitrary: b)
  case Nil
  then show ?case by (cases b) (auto simp: percent_byte_def split: if_splits)
next
  case (Cons x xs)
  from Cons.prems obtain y ys where b: "b = y # ys"
    by (cases b) (auto simp: percent_byte_def split: if_splits)
  have head: "percent_byte c = CHR ''%'' # tl (percent_byte c)" for c by (simp add: percent_byte_def)
  show ?case
  proof (cases "is_unreserved x = is_unreserved y")
    case True
    with Cons.prems b have "x = y \<and> urlencode xs = urlencode ys"
      by (auto simp: percent_byte_def split: if_splits intro!: percent_byte_inj)
    with Cons.IH b show ?thesis by blast
  next
    case False
    with Cons.prems b percent_not_unreserved show ?thesis
      by (auto simp: percent_byte_def split: if_splits)
  qed
qed

lemma hex_digit_unreserved: "d < 16 \<Longrightarrow> is_unreserved (hex_digit d)"
  by (auto simp: is_unreserved_def hex_digit_def Let_def)

lemma urlencode_alphabet: "c \<in> set (urlencode s) \<Longrightarrow> is_unreserved c \<or> c = CHR ''%''"
proof (induction s)
  case (Cons x xs)
  have "(of_char x :: nat) div 16 < 16" by (rule nibble_less)
  with Cons show ?case
    by (auto simp: percent_byte_def hex_digit_unreserved split: if_splits)
qed simp

section \<open>The work plan\<close>

lemma work_plan_units:
  "u \<in> set (work_plan pol ts) \<longleftrightarrow> wu_track_id u \<in> set ts \<and> wu_rendition u \<in> set (renditions pol)"
proof (induction ts)
  case (Cons t ts)
  have "u = \<lparr>wu_track_id = t, wu_rendition = r\<rparr> \<longleftrightarrow> wu_track_id u = t \<and> wu_rendition u = r" for r
    by (cases u) auto
  with Cons show ?case by (auto simp: image_iff)
qed simp

lemma renditions_Primary: "Primary \<in> set (renditions pol)"
  by (cases pol) auto

lemma distinct_renditions: "distinct (renditions pol)"
  by (cases pol) auto

lemma distinct_work_plan: "distinct ts \<Longrightarrow> distinct (work_plan pol ts)"
  by (induction ts) (auto simp: distinct_map distinct_renditions work_plan_units intro: inj_onI)

lemma lowercase_codec_names:
  "to_ascii_lowercase ''alac'' = ''alac''" "to_ascii_lowercase ''ec-3'' = ''ec-3''"
  "to_ascii_lowercase ''aac'' = ''aac''" "to_ascii_lowercase ''ALAC'' = ''alac''"
  "to_ascii_lowercase ''Dolby Atmos'' = ''dolby atmos''" "to_ascii_lowercase ''AAC'' = ''aac''"
  by code_simp+

text \<open>
  Codec names round trip. The name a codec is stored and sent under parses back to the same
  codec, and the codecs a rendition accepts from the cache are disjoint between renditions.
\<close>

theorem codec_name_roundtrip:
  "Codec_from_str (codec_as_str c) = Inr c \<and> Codec_from_str (display_name c) = Inr c \<and>
   set (accepted_cache_codecs Primary) \<inter> set (accepted_cache_codecs Atmos) = {} \<and>
   (\<exists>r. c \<in> set (accepted_cache_codecs r))"
proof -
  have t: "trim s = s" if "s \<in> {''alac'', ''ec-3'', ''aac'', ''ALAC'', ''Dolby Atmos'', ''AAC''}" for s
    using that whitespace_bytes_code by (intro trim_idle) fastforce+
  have "\<exists>r. c \<in> set (accepted_cache_codecs r)"
    by (cases c) (auto intro: exI [of _ Primary] exI [of _ Atmos])
  then show ?thesis
    by (cases c) (simp_all add: Codec_from_str_def t lowercase_codec_names)
qed

text \<open>
  Percent encoding is injective, so distinct titles and queries never produce the same URL, and
  its output contains only unreserved characters and percent signs.
\<close>

theorem urlencode_safe:
  "(urlencode a = urlencode b \<longleftrightarrow> a = b) \<and>
   set (urlencode a) \<subseteq> {c. is_unreserved c} \<union> {CHR ''%''}"
  using urlencode_inj urlencode_alphabet by auto

text \<open>
  The work plan of a rip has exactly one unit per track and rendition of the policy, and plans
  the required primary rendition of every track.
\<close>

theorem work_plan_complete:
  assumes "distinct ts"
  shows "distinct (work_plan pol ts) \<and>
    length (work_plan pol ts) = length ts * length (renditions pol) \<and>
    (\<forall>t. (\<exists>u \<in> set (work_plan pol ts). wu_track_id u = t \<and> rendition_required (wu_rendition u)) =
         (t \<in> set ts))"
proof -
  have "length (work_plan pol ts) = length ts * length (renditions pol)" by (induction ts) auto
  moreover have "(\<exists>u \<in> set (work_plan pol ts). wu_track_id u = t \<and> rendition_required (wu_rendition u)) =
      (t \<in> set ts)" for t
  proof
    assume "t \<in> set ts"
    then have "\<lparr>wu_track_id = t, wu_rendition = Primary\<rparr> \<in> set (work_plan pol ts)"
      by (simp add: work_plan_units renditions_Primary)
    then show "\<exists>u \<in> set (work_plan pol ts). wu_track_id u = t \<and> rendition_required (wu_rendition u)"
      by force
  qed (auto simp: work_plan_units)
  ultimately show ?thesis using distinct_work_plan [OF assms] by simp
qed

theorem work_plan_complete_witness:
  "distinct [''1'', ''2''] \<and> length (work_plan PrimaryWithOptionalAtmos [''1'', ''2'']) = 4"
proof -
  have "distinct [''1'', ''2'']" by simp
  from work_plan_complete [OF this, of PrimaryWithOptionalAtmos] show ?thesis by simp
qed

end
