(* ===== verification/Stream_Engine.thy ===== *)
theory Stream_Engine
  imports Stream_Pipe Fetch_Safety Worker_Dispatch Music
begin

text \<open>
  The stream engine, \<open>crates/stream/src/engine.rs\<close>, and the fetch of one chunk with a refresh of an
  expired file reference, \<open>fetch_chunk_with_refresh\<close> of \<open>crates/stream/src/pipe.rs\<close>: an HTTP request
  for a track is resolved to a Telegram document, cut to the requested range and served through
  the chunk cache by the worker pool.

  The database, the Telegram client, the \<open>moka\<close> caches and the HTTP receiver are arguments. The
  answers of the database and of Telegram may differ from call to call: \<open>en_calls\<close> counts the calls
  and indexes the answers. The refresh mutexes serialise refreshes of one track; a model that
  runs one refresh at a time never waits for them. Offsets stay below \<open>2 ^ 63\<close>, the bound on the
  size of a Telegram document, so \<open>as i64\<close> leaves them unchanged.
\<close>

section \<open>Error messages\<close>

definition show_int :: "int \<Rightarrow> string" where
  "show_int n = (if n < 0 then CHR ''-'' # show_nat (nat (- n)) else show_nat (nat n))"

fun db_error_text :: "db_error \<Rightarrow> string" where
  "db_error_text (DbDatabase e) = ''database error: '' @ e"
| "db_error_text (DbPool e) = ''database pool error: '' @ e"
| "db_error_text (DbMigration e) = ''migration error: '' @ e"
| "db_error_text (DbRow e) = ''database row error: '' @ e"
| "db_error_text (DbNotFound e) = ''not found: '' @ e"
| "db_error_text (DbUnauthorized e) = ''unauthorized: '' @ e"
| "db_error_text (DbValidation e) = ''validation error: '' @ e"

fun stream_error_text :: "stream_error \<Rightarrow> string" where
  "stream_error_text FileReferenceExpired = ''File reference expired''"
| "stream_error_text (FloodWaitError secs) = ''Flood wait: '' @ show_nat secs @ '' seconds''"
| "stream_error_text AllWorkersUnavailable = ''All workers quarantined or unavailable''"
| "stream_error_text UnsupportedCdnRedirect = ''Unsupported CDN redirect''"
| "stream_error_text (ChunkFetchFailed m) = ''Chunk fetch retry budget exhausted: '' @ m"
| "stream_error_text (Connect m) = ''Telegram connect error: '' @ m"
| "stream_error_text (Telegram err) = ''Telegram invocation error: '' @ err_text err"
| "stream_error_text (Db e) = ''Database error: '' @ db_error_text e"
| "stream_error_text (TrackNotFound i) = ''Track not found: '' @ show_int i"
| "stream_error_text (NoMediaDocument i) = ''No media document found for track '' @ show_int i"
| "stream_error_text (InvalidRange m) = ''Invalid range: '' @ m"

section \<open>Data\<close>

record track_media_metadata =
  tm_document_id :: i64
  tm_access_hash :: i64
  tm_file_reference :: bytes
  tm_dc_id :: i32
  tm_file_size :: nat
  tm_mime_type :: string
  tm_codec :: codec

record input_file_location =
  loc_id :: i64
  loc_access_hash :: i64
  loc_file_reference :: bytes

definition input_location :: "track_media_metadata \<Rightarrow> input_file_location" where
  "input_location m =
     \<lparr>loc_id = tm_document_id m, loc_access_hash = tm_access_hash m,
      loc_file_reference = tm_file_reference m\<rparr>"

record audio_stream_headers =
  ah_status :: nat
  ah_content_type :: string
  ah_content_length :: nat
  ah_content_range :: "string option"
  ah_accept_ranges :: string

text \<open>A document of a Telegram message, and a row of the tracks table, as the engine reads them.\<close>

record tg_document =
  doc_id :: i64
  doc_access_hash :: i64
  doc_file_reference :: bytes
  doc_dc_id :: i32
  doc_size :: i64
  doc_mime_type :: string

record db_track =
  tr_message_id :: i32
  tr_codec :: codec

record engine_env =
  ee_find_track :: "nat \<Rightarrow> i32 \<Rightarrow> db_error + db_track option"
  ee_has_primary :: bool
  ee_get_messages :: "nat \<Rightarrow> nat \<Rightarrow> i32 \<Rightarrow> invocation_error + tg_document option list"
  ee_get_dialogs :: "nat \<Rightarrow> nat \<Rightarrow> invocation_error option"
  ee_refresh_time :: "nat \<Rightarrow> duration"

record 'm meta_ops =
  mm_get :: "'m \<Rightarrow> i32 \<times> nat \<Rightarrow> track_media_metadata option"
  mm_insert :: "i32 \<times> nat \<Rightarrow> track_media_metadata \<Rightarrow> 'm \<Rightarrow> 'm"

record 'm engine_state =
  en_pool :: stream_worker_pool
  en_meta :: 'm
  en_calls :: nat
  en_now :: instant

definition tick :: "'m engine_state \<Rightarrow> 'm engine_state" where
  "tick e = e\<lparr>en_calls := en_calls e + 1\<rparr>"

section \<open>Metadata\<close>

text \<open>\<open>get_messages_for_worker\<close>: one retry after loading the dialogs.\<close>

definition get_messages_for_worker ::
  "engine_env \<Rightarrow> nat \<Rightarrow> i32 \<Rightarrow> 'm engine_state \<Rightarrow>
   (stream_error + tg_document option list) \<times> 'm engine_state" where
  "get_messages_for_worker env worker_id message_id e =
     (case worker_by_id (en_pool e) worker_id of
        None \<Rightarrow> (Inl AllWorkersUnavailable, e)
      | Some _ \<Rightarrow>
          (case ee_get_messages env (en_calls e) worker_id message_id of
             Inr messages \<Rightarrow> (Inr messages, tick e)
           | Inl _ \<Rightarrow>
               (case ee_get_dialogs env (en_calls e) worker_id of
                  Some err \<Rightarrow> (Inl (Telegram err), tick e)
                | None \<Rightarrow>
                    (case ee_get_messages env (en_calls (tick e)) worker_id message_id of
                       Inr messages \<Rightarrow> (Inr messages, tick (tick e))
                     | Inl err \<Rightarrow> (Inl (Telegram err), tick (tick e))))))"

definition fetch_messages ::
  "engine_env \<Rightarrow> nat \<Rightarrow> i32 \<Rightarrow> 'm engine_state \<Rightarrow>
   (stream_error + tg_document option list) \<times> 'm engine_state" where
  "fetch_messages env worker_id message_id e =
     (if worker_id = usize_max then
        (if \<not> ee_has_primary env then (Inl AllWorkersUnavailable, e)
         else case ee_get_messages env (en_calls e) worker_id message_id of
                Inr messages \<Rightarrow> (Inr messages, tick e)
              | Inl err \<Rightarrow> (Inl (Telegram err), tick e))
      else get_messages_for_worker env worker_id message_id e)"

definition metadata_of :: "codec \<Rightarrow> tg_document \<Rightarrow> track_media_metadata" where
  "metadata_of c d =
     \<lparr>tm_document_id = doc_id d, tm_access_hash = doc_access_hash d,
      tm_file_reference = doc_file_reference d, tm_dc_id = doc_dc_id d,
      tm_file_size = nat (doc_size d mod 2 ^ 64),
      tm_mime_type = (if doc_mime_type d = [] then mime_type c else doc_mime_type d),
      tm_codec = c\<rparr>"

definition load_track_media ::
  "engine_env \<Rightarrow> 'm meta_ops \<Rightarrow> i32 \<Rightarrow> nat \<Rightarrow> 'm engine_state \<Rightarrow>
   (stream_error + track_media_metadata) \<times> 'm engine_state" where
  "load_track_media env mops db_track_id worker_id e0 =
     (let e = tick e0
      in case ee_find_track env (en_calls e0) db_track_id of
           Inl err \<Rightarrow> (Inl (Db err), e)
         | Inr None \<Rightarrow> (Inl (TrackNotFound db_track_id), e)
         | Inr (Some track) \<Rightarrow>
             (case fetch_messages env worker_id (tr_message_id track) e of
                (Inl err, e1) \<Rightarrow> (Inl err, e1)
              | (Inr [], e1) \<Rightarrow> (Inl (NoMediaDocument db_track_id), e1)
              | (Inr (None # _), e1) \<Rightarrow> (Inl (NoMediaDocument db_track_id), e1)
              | (Inr (Some document # _), e1) \<Rightarrow>
                  (let metadata = metadata_of (tr_codec track) document
                   in (Inr metadata,
                       e1\<lparr>en_meta := mm_insert mops (db_track_id, worker_id) metadata (en_meta e1)\<rparr>))))"

definition resolve_track_media_for_worker ::
  "engine_env \<Rightarrow> 'm meta_ops \<Rightarrow> i32 \<Rightarrow> nat \<Rightarrow> bool \<Rightarrow> 'm engine_state \<Rightarrow>
   (stream_error + track_media_metadata) \<times> 'm engine_state" where
  "resolve_track_media_for_worker env mops db_track_id worker_id force_refresh e =
     (case (if force_refresh then None else mm_get mops (en_meta e) (db_track_id, worker_id)) of
        Some cached \<Rightarrow> (Inr cached, e)
      | None \<Rightarrow> load_track_media env mops db_track_id worker_id e)"

definition resolve_track_media ::
  "engine_env \<Rightarrow> 'm meta_ops \<Rightarrow> i32 \<Rightarrow> bool \<Rightarrow> 'm engine_state \<Rightarrow>
   (stream_error + track_media_metadata) \<times> 'm engine_state" where
  "resolve_track_media env mops db_track_id force_refresh e =
     resolve_track_media_for_worker env mops db_track_id usize_max force_refresh e"

definition refresh_track_media_if_stale ::
  "engine_env \<Rightarrow> 'm meta_ops \<Rightarrow> i32 \<Rightarrow> nat \<Rightarrow> bytes \<Rightarrow> 'm engine_state \<Rightarrow>
   (stream_error + track_media_metadata) \<times> 'm engine_state" where
  "refresh_track_media_if_stale env mops db_track_id worker_id stale_file_reference e =
     (case mm_get mops (en_meta e) (db_track_id, worker_id) of
        Some cached \<Rightarrow>
          if tm_file_reference cached \<noteq> stale_file_reference then (Inr cached, e)
          else load_track_media env mops db_track_id worker_id e
      | None \<Rightarrow> load_track_media env mops db_track_id worker_id e)"

definition content_range_text :: "byte_range \<Rightarrow> nat \<Rightarrow> string" where
  "content_range_text rng file_size =
     ''bytes '' @ show_nat (br_start rng) @ ''-'' @ show_nat (br_end rng) @ ''/'' @ show_nat file_size"

definition prepare_stream ::
  "engine_env \<Rightarrow> 'm meta_ops \<Rightarrow> i32 \<Rightarrow> string option \<Rightarrow> nat \<Rightarrow> 'm engine_state \<Rightarrow>
   (stream_error + track_media_metadata \<times> audio_stream_headers \<times> byte_range) \<times> 'm engine_state"
  where
  "prepare_stream env mops db_track_id range_hdr worker_id e =
     (case resolve_track_media_for_worker env mops db_track_id worker_id False e of
        (Inl err, e1) \<Rightarrow> (Inl err, e1)
      | (Inr meta, e1) \<Rightarrow>
          (case (case range_hdr of
                   Some header \<Rightarrow>
                     (case ByteRange_parse header (tm_file_size meta) of
                        Inl err \<Rightarrow> Inl err
                      | Inr rng \<Rightarrow>
                          Inr (rng, 206, Some (content_range_text rng (tm_file_size meta))))
                 | None \<Rightarrow> Inr (ByteRange_new 0 (tm_file_size meta - 1), 200, None)) of
             Inl err \<Rightarrow> (Inl err, e1)
           | Inr (rng, status, content_range) \<Rightarrow>
               (Inr (meta,
                     \<lparr>ah_status = status, ah_content_type = tm_mime_type meta,
                      ah_content_length = range_length rng, ah_content_range = content_range,
                      ah_accept_ranges = ''bytes''\<rparr>, rng), e1)))"

definition open_stream_headers ::
  "engine_env \<Rightarrow> 'm meta_ops \<Rightarrow> i32 \<Rightarrow> string option \<Rightarrow> 'm engine_state \<Rightarrow>
   (stream_error + audio_stream_headers) \<times> 'm engine_state" where
  "open_stream_headers env mops db_track_id range_hdr e =
     (case prepare_stream env mops db_track_id range_hdr usize_max e of
        (Inl err, e1) \<Rightarrow> (Inl err, e1)
      | (Inr (_, headers, _), e1) \<Rightarrow> (Inr headers, e1))"

section \<open>One chunk, with a refresh of the file reference\<close>

text \<open>
  The shared cells of the pipe's parameters (\<open>location\<close>, \<open>dc_id\<close>) beside the engine. The fetch
  environments are indexed by the number of the call.
\<close>

record 'm pipe_state =
  ps_engine :: "'m engine_state"
  ps_location :: input_file_location
  ps_dc_id :: i32

definition on_pool_metrics ::
  "(stream_metrics \<Rightarrow> stream_metrics) \<Rightarrow> 'm engine_state \<Rightarrow> 'm engine_state" where
  "on_pool_metrics f e = e\<lparr>en_pool := (en_pool e)\<lparr>p_metrics := f (p_metrics (en_pool e))\<rparr>\<rparr>"

definition fetch_on_worker ::
  "(nat \<Rightarrow> input_file_location fetch_env) \<Rightarrow> nat \<Rightarrow> input_file_location \<Rightarrow> nat \<Rightarrow> instant \<Rightarrow>
   'm pipe_state \<Rightarrow> (stream_error + bytes) \<times> 'm pipe_state" where
  "fetch_on_worker envs worker_id location offset deadline ps =
     (let e = ps_engine ps;
          (r, st) = fetch_chunk_until_on (envs (en_calls e))
             \<lparr>gf_location = location, gf_offset = offset, gf_limit = CHUNK_SIZE\<rparr> deadline
             (Some worker_id) (en_pool e) (ps_dc_id ps) (en_now e)
      in (r, ps\<lparr>ps_engine := tick (e\<lparr>en_pool := fs_pool st, en_now := fs_now st\<rparr>),
                ps_dc_id := fs_dc_id st\<rparr>))"

definition fetch_chunk_with_refresh ::
  "(nat \<Rightarrow> input_file_location fetch_env) \<Rightarrow> (nat \<Rightarrow> duration) \<Rightarrow>
   ('m engine_state \<Rightarrow> (stream_error + input_file_location) \<times> 'm engine_state) option \<Rightarrow>
   nat \<Rightarrow> nat \<Rightarrow> 'm pipe_state \<Rightarrow> (stream_error + bytes) \<times> 'm pipe_state" where
  "fetch_chunk_with_refresh envs refresh_time refresh_location worker_id chunk_idx ps =
     (let offset = chunk_idx * CHUNK_SIZE;
          deadline = en_now (ps_engine ps) + CHUNK_FETCH_DEADLINE
      in case fetch_on_worker envs worker_id (ps_location ps) offset deadline ps of
           (Inl FileReferenceExpired, ps1) \<Rightarrow>
             (case refresh_location of
                None \<Rightarrow> (Inl FileReferenceExpired, ps1)
              | Some refresher \<Rightarrow>
                  let e = on_pool_metrics record_file_reference_refresh (ps_engine ps1);
                      d = refresh_time (en_calls e)
                  in if en_now e + d > deadline
                     then (Inl (ChunkFetchFailed
                                  ''timed out refreshing the Telegram file reference''),
                           ps1\<lparr>ps_engine := tick (e\<lparr>en_now := max (en_now e) deadline\<rparr>)\<rparr>)
                     else (case refresher (e\<lparr>en_now := en_now e + d\<rparr>) of
                             (Inl err, e1) \<Rightarrow> (Inl err, ps1\<lparr>ps_engine := e1\<rparr>)
                           | (Inr new_location, e1) \<Rightarrow>
                               fetch_on_worker envs worker_id new_location offset deadline
                                 (ps1\<lparr>ps_engine := e1, ps_location := new_location\<rparr>)))
         | (result, ps1) \<Rightarrow> (result, ps1))"

section \<open>Opening a stream\<close>

definition refresher_of ::
  "engine_env \<Rightarrow> 'm meta_ops \<Rightarrow> i32 \<Rightarrow> nat \<Rightarrow> bytes \<Rightarrow> 'm engine_state \<Rightarrow>
   (stream_error + input_file_location) \<times> 'm engine_state" where
  "refresher_of env mops db_track_id worker_id stale e =
     (case refresh_track_media_if_stale env mops db_track_id worker_id stale e of
        (Inl err, e1) \<Rightarrow> (Inl err, e1)
      | (Inr fresh_meta, e1) \<Rightarrow> (Inr (input_location fresh_meta), e1))"

text \<open>The future of chunk \<open>chunk_idx\<close>: the cache in front of the fetch.\<close>

definition chunk_future ::
  "('c, 'm pipe_state) moka_ops \<Rightarrow> (nat \<Rightarrow> input_file_location fetch_env) \<Rightarrow> engine_env \<Rightarrow>
   'm meta_ops \<Rightarrow> i32 \<Rightarrow> nat \<Rightarrow> track_media_metadata \<Rightarrow> nat \<Rightarrow> 'c chunk_cache \<times> 'm pipe_state \<Rightarrow>
   (stream_error + bytes) \<times> 'c chunk_cache \<times> 'm pipe_state" where
  "chunk_future ops envs env mops db_track_id worker_id meta chunk_idx s =
     get_or_fetch ops (tm_document_id meta) chunk_idx
       (fetch_chunk_with_refresh envs (ee_refresh_time env)
          (Some (refresher_of env mops db_track_id worker_id (tm_file_reference meta)))
          worker_id chunk_idx) s"

definition upd_metrics ::
  "(stream_metrics \<Rightarrow> stream_metrics) \<Rightarrow> 'c chunk_cache \<times> 'm pipe_state \<Rightarrow>
   'c chunk_cache \<times> 'm pipe_state" where
  "upd_metrics f s = (fst s, (snd s)\<lparr>ps_engine := on_pool_metrics f (ps_engine (snd s))\<rparr>)"

definition open_stream ::
  "('c, 'm pipe_state) moka_ops \<Rightarrow> (nat \<Rightarrow> input_file_location fetch_env) \<Rightarrow> engine_env \<Rightarrow>
   'm meta_ops \<Rightarrow> receiver \<Rightarrow> i32 \<Rightarrow> string option \<Rightarrow> 'c chunk_cache \<times> 'm engine_state \<Rightarrow>
   (stream_error + audio_stream_headers \<times> body_item list) \<times> 'c chunk_cache \<times> 'm engine_state"
  where
  "open_stream ops envs env mops rx db_track_id range_hdr s =
     (let (cc, e) = s; (sel, pool) = select_worker_for_stream (en_now e) (en_pool e);
          e1 = e\<lparr>en_pool := pool\<rparr>
      in case sel of
           Inl err \<Rightarrow> (Inl err, cc, e1)
         | Inr worker_id \<Rightarrow>
             (case prepare_stream env mops db_track_id range_hdr worker_id e1 of
                (Inl err, e2) \<Rightarrow> (Inl err, cc, e2)
              | (Inr (meta, headers, rng), e2) \<Rightarrow>
                  (let (body, cc', ps) =
                     create_stream_pipe (chunk_future ops envs env mops db_track_id worker_id meta)
                       stream_error_text upd_metrics rx rng
                       (cc, \<lparr>ps_engine = e2, ps_location = input_location meta,
                             ps_dc_id = tm_dc_id meta\<rparr>)
                   in (Inr (headers, body), cc', ps_engine ps))))"

section \<open>What the engine relies on\<close>

text \<open>
  Telegram returns the requested part of the document a location names; a metadata cache returns
  what was inserted; and a track keeps its document while it is streamed.
\<close>

definition telegram_exact ::
  "(nat \<Rightarrow> input_file_location fetch_env) \<Rightarrow> (i64 \<Rightarrow> bytes) \<Rightarrow> bool" where
  "telegram_exact envs files \<longleftrightarrow>
     (\<forall>n req b. answered (envs n) req b \<longrightarrow>
        b = take (gf_limit req) (drop (gf_offset req) (files (loc_id (gf_location req)))))"

definition meta_sound :: "'m meta_ops \<Rightarrow> bool" where
  "meta_sound mops \<longleftrightarrow>
     (\<forall>key v c k w. mm_get mops (mm_insert mops key v c) k = Some w \<longrightarrow>
        (if k = key then w = v else mm_get mops c k = Some w))"

definition track_stable :: "engine_env \<Rightarrow> i32 \<Rightarrow> i64 \<Rightarrow> nat \<Rightarrow> bool" where
  "track_stable env db_track_id doc sz \<longleftrightarrow>
     (\<forall>n k w track d ds. ee_find_track env n db_track_id = Inr (Some track) \<longrightarrow>
        ee_get_messages env k w (tr_message_id track) = Inr (Some d # ds) \<longrightarrow>
        doc_id d = doc \<and> nat (doc_size d mod 2 ^ 64) = sz)"

definition meta_for :: "i64 \<Rightarrow> nat \<Rightarrow> track_media_metadata \<Rightarrow> bool" where
  "meta_for doc sz m \<longleftrightarrow> tm_document_id m = doc \<and> tm_file_size m = sz"

definition metas_ok :: "'m meta_ops \<Rightarrow> i32 \<Rightarrow> i64 \<Rightarrow> nat \<Rightarrow> 'm \<Rightarrow> bool" where
  "metas_ok mops db_track_id doc sz c \<longleftrightarrow>
     (\<forall>w m. mm_get mops c (db_track_id, w) = Some m \<longrightarrow> meta_for doc sz m)"

lemma tick_simps [simp]:
  "en_meta (tick e) = en_meta e" "en_pool (tick e) = en_pool e" "en_now (tick e) = en_now e"
  by (simp_all add: tick_def)

lemma on_pool_metrics_simps [simp]:
  "en_meta (on_pool_metrics f e) = en_meta e" "en_now (on_pool_metrics f e) = en_now e"
  "en_calls (on_pool_metrics f e) = en_calls e"
  "en_pool (on_pool_metrics f e) = (en_pool e)\<lparr>p_metrics := f (p_metrics (en_pool e))\<rparr>"
  by (simp_all add: on_pool_metrics_def)

lemma fetch_messages_source:
  assumes "fetch_messages env w mid e = (r, e1)"
  shows "en_meta e1 = en_meta e \<and> en_pool e1 = en_pool e \<and> en_now e1 = en_now e \<and>
    (\<forall>ms. r = Inr ms \<longrightarrow> (\<exists>k. ee_get_messages env k w mid = Inr ms))"
  using assms
  by (auto simp: fetch_messages_def get_messages_for_worker_def
      split: if_splits option.splits sum.splits)

lemma metas_ok_insert:
  assumes "meta_sound mops" and "metas_ok mops t doc sz c" and "meta_for doc sz m"
  shows "metas_ok mops t doc sz (mm_insert mops (t, w) m c)"
  unfolding metas_ok_def
proof (intro allI impI)
  fix w' m'
  assume "mm_get mops (mm_insert mops (t, w) m c) (t, w') = Some m'"
  with assms(1) have "if (t, w') = (t, w) then m' = m else mm_get mops c (t, w') = Some m'"
    unfolding meta_sound_def by blast
  with assms(2,3) show "meta_for doc sz m'" by (auto simp: metas_ok_def split: if_splits)
qed

text \<open>The metadata an engine loads is that of the track's document.\<close>

lemma load_track_media_ok:
  assumes "meta_sound mops" and "track_stable env t doc sz" and "metas_ok mops t doc sz (en_meta e)"
    and "load_track_media env mops t w e = (r, e1)"
  shows "metas_ok mops t doc sz (en_meta e1) \<and> (\<forall>m. r = Inr m \<longrightarrow> meta_for doc sz m)"
proof (cases "ee_find_track env (en_calls e) t")
  case (Inr tr)
  show ?thesis
  proof (cases tr)
    case (Some track)
    obtain q e2 where f: "fetch_messages env w (tr_message_id track) (tick e) = (q, e2)"
      by (cases "fetch_messages env w (tr_message_id track) (tick e)")
    note src = fetch_messages_source [OF f]
    have "meta_for doc sz (metadata_of (tr_codec track) d)" if "q = Inr (Some d # ds)" for d ds
      using that src assms(2) Inr Some by (fastforce simp: track_stable_def meta_for_def metadata_of_def)
    note new = this
    show ?thesis
    proof (cases "\<exists>d ds. q = Inr (Some d # ds)")
      case True
      then obtain d ds where q: "q = Inr (Some d # ds)" by blast
      with assms(4) Inr Some f have r: "r = Inr (metadata_of (tr_codec track) d)"
          "en_meta e1 = mm_insert mops (t, w) (metadata_of (tr_codec track) d) (en_meta e2)"
        by (auto simp: load_track_media_def Let_def)
      with new [OF q] metas_ok_insert [OF assms(1)] assms(3) src show ?thesis by simp
    next
      case False
      with assms(4) Inr Some f have "en_meta e1 = en_meta e2 \<and> (\<exists>err. r = Inl err)"
        by (auto simp: load_track_media_def Let_def split: sum.splits list.splits option.splits)
      with src assms(3) show ?thesis by auto
    qed
  qed (use assms Inr in \<open>auto simp: load_track_media_def\<close>)
qed (use assms in \<open>auto simp: load_track_media_def\<close>)

lemma resolve_ok:
  assumes "meta_sound mops" and "track_stable env t doc sz" and "metas_ok mops t doc sz (en_meta e)"
    and "resolve_track_media_for_worker env mops t w force e = (r, e1)"
  shows "metas_ok mops t doc sz (en_meta e1) \<and> (\<forall>m. r = Inr m \<longrightarrow> meta_for doc sz m)"
  using load_track_media_ok [OF assms(1-3)] assms(3,4)
  by (auto simp: resolve_track_media_for_worker_def metas_ok_def split: option.splits if_splits)

lemma refresh_ok:
  assumes "meta_sound mops" and "track_stable env t doc sz" and "metas_ok mops t doc sz (en_meta e)"
    and "refresh_track_media_if_stale env mops t w stale e = (r, e1)"
  shows "metas_ok mops t doc sz (en_meta e1) \<and> (\<forall>m. r = Inr m \<longrightarrow> meta_for doc sz m)"
  using load_track_media_ok [OF assms(1-3)] assms(3,4)
  by (auto simp: refresh_track_media_if_stale_def metas_ok_def split: option.splits if_splits)

section \<open>The chunk futures are exact\<close>

definition pipe_good :: "'m meta_ops \<Rightarrow> i32 \<Rightarrow> i64 \<Rightarrow> nat \<Rightarrow> 'm pipe_state \<Rightarrow> bool" where
  "pipe_good mops t doc sz ps \<longleftrightarrow>
     loc_id (ps_location ps) = doc \<and> metas_ok mops t doc sz (en_meta (ps_engine ps))"

lemma fetch_on_worker_exact:
  assumes "telegram_exact envs files" and "fetch_on_worker envs w loc off dl ps = (r, ps1)"
  shows "(\<forall>b. r = Inr b \<longrightarrow> b = take CHUNK_SIZE (drop off (files (loc_id loc)))) \<and>
    en_meta (ps_engine ps1) = en_meta (ps_engine ps) \<and> ps_location ps1 = ps_location ps"
  using assms
  by (fastforce simp: fetch_on_worker_def fetch_chunk_until_on_def Let_def telegram_exact_def
      split: prod.splits dest: fetch_bytes)

lemma refresher_ok:
  assumes "meta_sound mops" and "track_stable env t doc sz" and "metas_ok mops t doc sz (en_meta e)"
    and "refresher_of env mops t w stale e = (r, e1)"
  shows "metas_ok mops t doc sz (en_meta e1) \<and> (\<forall>l. r = Inr l \<longrightarrow> loc_id l = doc)"
  using refresh_ok [OF assms(1-3)] assms(4)
  by (fastforce simp: refresher_of_def input_location_def meta_for_def split: prod.splits sum.splits)

lemma fetch_chunk_with_refresh_exact:
  assumes env: "telegram_exact envs files" "meta_sound mops" "track_stable env t doc sz"
    and good: "pipe_good mops t doc sz ps"
    and run: "fetch_chunk_with_refresh envs rt (Some (refresher_of env mops t w stale)) w k ps = (r, ps1)"
  shows "(\<forall>b. r = Inr b \<longrightarrow> b = chunk_of (files doc) k) \<and> pipe_good mops t doc sz ps1"
proof -
  define dl where "dl = en_now (ps_engine ps) + CHUNK_FETCH_DEADLINE"
  obtain r0 ps0 where f: "fetch_on_worker envs w (ps_location ps) (k * CHUNK_SIZE) dl ps = (r0, ps0)"
    by (cases "fetch_on_worker envs w (ps_location ps) (k * CHUNK_SIZE) dl ps")
  note ex = fetch_on_worker_exact [OF env(1) f]
  show ?thesis
  proof (cases "r0 = Inl FileReferenceExpired")
    case False
    then have "r = r0 \<and> ps1 = ps0"
      using run f unfolding fetch_chunk_with_refresh_def Let_def dl_def [symmetric]
      by (auto split: sum.splits stream_error.splits)
    with ex good show ?thesis by (simp add: chunk_of_def pipe_good_def)
  next
    case True
    define e where "e = on_pool_metrics record_file_reference_refresh (ps_engine ps0)"
    define e' where "e' = e\<lparr>en_now := en_now e + rt (en_calls e)\<rparr>"
    have m: "metas_ok mops t doc sz (en_meta e')" using ex good by (simp add: e'_def e_def pipe_good_def)
    obtain q e1 where rf: "refresher_of env mops t w stale e' = (q, e1)"
      by (cases "refresher_of env mops t w stale e'")
    note fresh = refresher_ok [OF env(2,3) m rf]
    have run': "(if en_now e + rt (en_calls e) > dl
        then (Inl (ChunkFetchFailed ''timed out refreshing the Telegram file reference''),
          ps0\<lparr>ps_engine := tick (e\<lparr>en_now := max (en_now e) dl\<rparr>)\<rparr>)
        else case q of Inl err \<Rightarrow> (Inl err, ps0\<lparr>ps_engine := e1\<rparr>)
          | Inr l \<Rightarrow> fetch_on_worker envs w l (k * CHUNK_SIZE) dl
              (ps0\<lparr>ps_engine := e1, ps_location := l\<rparr>)) = (r, ps1)"
      using run f True rf unfolding fetch_chunk_with_refresh_def Let_def dl_def [symmetric] e'_def e_def
      by (simp split: sum.splits if_splits)
    show ?thesis
    proof (cases "en_now e + rt (en_calls e) > dl \<or> (\<exists>err. q = Inl err)")
      case True
      with run' ex good fresh show ?thesis by (auto simp: pipe_good_def e_def split: if_splits)
    next
      case False
      then obtain l where "q = Inr l" by (cases q) auto
      with False run' fresh fetch_on_worker_exact [OF env(1), of w l "k * CHUNK_SIZE" dl _ r ps1]
      show ?thesis by (fastforce simp: pipe_good_def chunk_of_def)
    qed
  qed
qed

text \<open>So the cache in front of the fetch serves the pipe, and the pipe's contract applies.\<close>

definition stream_env_ok ::
  "('c, 'm pipe_state) moka_ops \<Rightarrow> (nat \<Rightarrow> input_file_location fetch_env) \<Rightarrow> engine_env \<Rightarrow>
   'm meta_ops \<Rightarrow> (i64 \<Rightarrow> bytes) \<Rightarrow> i32 \<Rightarrow> i64 \<Rightarrow> bool" where
  "stream_env_ok ops envs env mops files t doc \<longleftrightarrow>
     moka_sound ops \<and> telegram_exact envs files \<and> meta_sound mops \<and>
     track_stable env t doc (length (files doc))"

definition stream_good ::
  "('c, 'm pipe_state) moka_ops \<Rightarrow> (nat \<Rightarrow> input_file_location fetch_env) \<Rightarrow> engine_env \<Rightarrow>
   'm meta_ops \<Rightarrow> (i64 \<Rightarrow> bytes) \<Rightarrow> i32 \<Rightarrow> track_media_metadata \<Rightarrow> 'c chunk_cache \<times> 'm pipe_state \<Rightarrow>
   bool" where
  "stream_good ops envs env mops files t meta s \<longleftrightarrow>
     stream_env_ok ops envs env mops files t (tm_document_id meta) \<and>
     coherent ops files (fst s) \<and>
     pipe_good mops t (tm_document_id meta) (length (files (tm_document_id meta))) (snd s)"

lemma get_or_fetch_state:
  assumes "moka_sound ops" and "get_or_fetch ops doc k fetch (cc, p) = (r, cc', p')"
  shows "p' = p \<or> (\<exists>q. fetch p = (q, p'))"
  using assms(2)
  by (auto simp: get_or_fetch_sound [OF assms(1)] Let_def split: option.splits sum.splits prod.splits)

lemma chunk_future_good:
  assumes good: "stream_good ops envs env mops files t meta s"
    and run: "chunk_future ops envs env mops t w meta k s = (r, s')"
  shows "(\<forall>b. r = Inr b \<longrightarrow> b = chunk_of (files (tm_document_id meta)) k) \<and>
    stream_good ops envs env mops files t meta s'"
proof -
  define doc where "doc = tm_document_id meta"
  define fetch where "fetch = fetch_chunk_with_refresh envs (ee_refresh_time env)
    (Some (refresher_of env mops t w (tm_file_reference meta))) w k"
  obtain cc p cc' p' where s: "s = (cc, p)" "s' = (cc', p')" by (cases s, cases s')
  have env: "moka_sound ops" "telegram_exact envs files" "meta_sound mops"
      "track_stable env t doc (length (files doc))" and coh: "coherent ops files cc"
    and pg: "pipe_good mops t doc (length (files doc)) p"
    using good by (simp_all add: stream_good_def stream_env_ok_def doc_def s)
  have run': "get_or_fetch ops doc k fetch (cc, p) = (r, cc', p')"
    using run by (simp add: chunk_future_def doc_def fetch_def s)
  have ex: "(\<forall>b. q = Inr b \<longrightarrow> b = chunk_of (files doc) k) \<and>
      pipe_good mops t doc (length (files doc)) p1" if "fetch p = (q, p1)" for q p1
    using fetch_chunk_with_refresh_exact [OF env(2-4) pg that [unfolded fetch_def]] .
  have "coherent ops files cc' \<and> (\<forall>b. r = Inr b \<longrightarrow> b = chunk_of (files doc) k)"
    using get_or_fetch_coherent [OF env(1) coh _ run'] ex by blast
  moreover have "pipe_good mops t doc (length (files doc)) p'"
    using get_or_fetch_state [OF env(1) run'] pg ex by blast
  ultimately show ?thesis
    using env by (simp add: stream_good_def stream_env_ok_def doc_def s)
qed

interpretation cached: chunk_source "chunk_future ops envs env mops t w meta"
    "stream_good ops envs env mops files t meta" upd_metrics "files (tm_document_id meta)"
  for ops envs env mops t w meta files
proof unfold_locales
  fix s f
  assume "stream_good ops envs env mops files t meta s"
  then show "stream_good ops envs env mops files t meta (upd_metrics f s)"
    by (simp add: stream_good_def upd_metrics_def pipe_good_def)
qed (blast dest: chunk_future_good)+

end
