(* ===== verification/Stream_Service.thy ===== *)
theory Stream_Service
  imports Stream_Engine
begin

text \<open>
  The stream engine end to end: what a client of \<open>open_stream\<close> receives. Correctness holds for any
  behaviour of the network; completeness needs a prompt Telegram and a healthy worker.
\<close>

section \<open>Correctness of a response\<close>

definition range_slice :: "bytes \<Rightarrow> byte_range \<Rightarrow> bytes" where
  "range_slice content rng = take (Suc (br_end rng) - br_start rng) (drop (br_start rng) content)"

lemma length_range_slice:
  "br_start rng \<le> br_end rng \<Longrightarrow> br_end rng < length content \<Longrightarrow> length content < 2 ^ 64 \<Longrightarrow>
   range_length rng = length (range_slice content rng)"
  by (simp add: range_slice_def range_length_def)

text \<open>The range a request stands for.\<close>

definition requested_range :: "string option \<Rightarrow> nat \<Rightarrow> byte_range \<Rightarrow> bool" where
  "requested_range hdr n rng \<longleftrightarrow>
     (case hdr of
        None \<Rightarrow> rng = ByteRange_new 0 (n - 1)
      | Some h \<Rightarrow> ByteRange_parse h n = Inr rng)"

lemma requested_range_le: "requested_range hdr n rng \<Longrightarrow> br_start rng \<le> br_end rng"
  by (auto simp: requested_range_def ByteRange_new_def dest: ByteRange_parse_in_file split: option.splits)

definition headers_for :: "string option \<Rightarrow> nat \<Rightarrow> byte_range \<Rightarrow> audio_stream_headers \<Rightarrow> bool" where
  "headers_for hdr n rng h \<longleftrightarrow>
     ah_content_length h = range_length rng \<and> ah_accept_ranges h = ''bytes'' \<and>
     (case hdr of
        None \<Rightarrow> ah_status h = 200 \<and> ah_content_range h = None
      | Some _ \<Rightarrow> ah_status h = 206 \<and> ah_content_range h = Some (content_range_text rng n))"

lemma prepare_stream_ok:
  assumes "meta_sound mops" and "track_stable env t doc sz" and "metas_ok mops t doc sz (en_meta e)"
    and "prepare_stream env mops t hdr w e = (Inr (meta, h, rng), e1)"
  shows "meta_for doc sz meta \<and> metas_ok mops t doc sz (en_meta e1) \<and> requested_range hdr sz rng \<and>
    headers_for hdr sz rng h"
proof -
  obtain r e0 where r: "resolve_track_media_for_worker env mops t w False e = (r, e0)"
    by (cases "resolve_track_media_for_worker env mops t w False e")
  from resolve_ok [OF assms(1-3) r] assms(4) r show ?thesis
    by (auto simp: prepare_stream_def meta_for_def requested_range_def headers_for_def
        split: sum.splits option.splits)
qed

lemma open_stream_cases:
  assumes "open_stream ops envs env mops rx t hdr (cc, e) = (Inr (h, body), cc', e')"
  obtains w p meta rng e1 ps where
    "select_worker_for_stream (en_now e) (en_pool e) = (Inr w, p)"
    "prepare_stream env mops t hdr w (e\<lparr>en_pool := p\<rparr>) = (Inr (meta, h, rng), e1)"
    "create_stream_pipe (chunk_future ops envs env mops t w meta) stream_error_text upd_metrics rx
       rng (cc, \<lparr>ps_engine = e1, ps_location = input_location meta, ps_dc_id = tm_dc_id meta\<rparr>) =
       (body, cc', ps)"
    "e' = ps_engine ps"
  using assms by (auto simp: open_stream_def Let_def split: prod.splits sum.splits)

lemma stream_good_start:
  assumes "stream_env_ok ops envs env mops files t doc" and "coherent ops files cc"
    and "meta_for doc (length (files doc)) meta" and "metas_ok mops t doc (length (files doc)) (en_meta e1)"
  shows "stream_good ops envs env mops files t meta
    (cc, \<lparr>ps_engine = e1, ps_location = input_location meta, ps_dc_id = dc\<rparr>)"
  using assms by (simp add: stream_good_def pipe_good_def meta_for_def input_location_def)

lemma open_stream_ok:
  assumes env: "stream_env_ok ops envs env mops files t doc"
    and coh: "coherent ops files cc" and metas: "metas_ok mops t doc (length (files doc)) (en_meta e)"
    and run: "open_stream ops envs env mops rx t hdr (cc, e) = (Inr (h, body), cc', e')"
  shows "\<exists>rng. requested_range hdr (length (files doc)) rng \<and>
    headers_for hdr (length (files doc)) rng h \<and> body_ok rx (range_slice (files doc) rng) body \<and>
    coherent ops files cc' \<and> metas_ok mops t doc (length (files doc)) (en_meta e')"
proof -
  from open_stream_cases [OF run] obtain w p meta rng e1 ps where
    prep: "prepare_stream env mops t hdr w (e\<lparr>en_pool := p\<rparr>) = (Inr (meta, h, rng), e1)"
    and pipe: "create_stream_pipe (chunk_future ops envs env mops t w meta) stream_error_text
       upd_metrics rx rng
       (cc, \<lparr>ps_engine = e1, ps_location = input_location meta, ps_dc_id = tm_dc_id meta\<rparr>) =
       (body, cc', ps)" and e': "e' = ps_engine ps" by metis
  have s: "meta_sound mops" "track_stable env t doc (length (files doc))"
    using env by (simp_all add: stream_env_ok_def)
  from prepare_stream_ok [OF s _ prep] metas
  have meta: "meta_for doc (length (files doc)) meta"
    and m1: "metas_ok mops t doc (length (files doc)) (en_meta e1)"
    and rng: "requested_range hdr (length (files doc)) rng"
      "headers_for hdr (length (files doc)) rng h" by simp_all
  from cached.create_stream_pipe_body [OF requested_range_le [OF rng(1)]
      stream_good_start [OF env coh meta m1] pipe]
  have "body_ok rx (range_slice (files doc) rng) body"
      "stream_good ops envs env mops files t meta (cc', ps)"
    using meta by (simp_all add: range_slice_def meta_for_def)
  with rng e' meta show ?thesis
    by (auto simp: stream_good_def pipe_good_def meta_for_def)
qed

section \<open>Completeness of a response\<close>

text \<open>
  A prompt Telegram: every slot, lock and RPC wait of a fetch takes at most ten seconds together, and
  the reply is the requested part of the document.
\<close>

definition telegram_prompt ::
  "(nat \<Rightarrow> input_file_location fetch_env) \<Rightarrow> (i64 \<Rightarrow> bytes) \<Rightarrow> bool" where
  "telegram_prompt envs files \<longleftrightarrow>
     (\<forall>n i. \<exists>ds dr. env_slot (envs n) i = Some ds \<and>
        ds + env_lock (envs n) i + dr \<le> from_secs 10 \<and>
        (\<forall>w dc req. env_rpc (envs n) i w dc req =
           (dr, FileBytes (take (gf_limit req) (drop (gf_offset req)
              (files (loc_id (gf_location req))))))))"

lemma telegram_prompt_exact: "telegram_prompt envs files \<Longrightarrow> telegram_exact envs files"
  unfolding telegram_prompt_def telegram_exact_def answered_def by (metis Pair_inject rpc_reply.inject(1))

text \<open>A worker that can serve: it exists, an RPC slot is free and it is never in quarantine.\<close>

definition ready :: "nat \<Rightarrow> stream_worker_pool \<Rightarrow> bool" where
  "ready w p \<longleftrightarrow> worker_by_id p w \<noteq> None \<and> 0 < p_rpc_free p \<and> (\<forall>now. is_available now (p_breaker p) w)"

lemma worker_by_id_simps [simp]:
  "worker_by_id (p\<lparr>p_metrics := m\<rparr>) w = worker_by_id p w"
  "worker_by_id (p\<lparr>p_rr_cursor := c\<rparr>) w = worker_by_id p w"
  "worker_by_id (p\<lparr>p_rpc_free := k\<rparr>) w = worker_by_id p w"
  by (simp_all add: worker_by_id_def split: option.split)

lemma ready_metrics [simp]: "ready w (p\<lparr>p_metrics := m\<rparr>) = ready w p"
  by (simp add: ready_def)

lemma ready_cursor [simp]: "ready w (p\<lparr>p_rr_cursor := c\<rparr>) = ready w p"
  by (simp add: ready_def)

lemma worker_by_id_holds: "holds k p q \<Longrightarrow> worker_by_id q w = worker_by_id p w"
  by (simp add: holds_def worker_by_id_def split: option.split)

lemma rpc_free_update_worker [simp]:
  "p_rpc_free (update_worker i f p) = p_rpc_free p" "p_breaker (update_worker i f p) = p_breaker p"
  by (simp_all add: update_worker_def)

text \<open>The first iteration of a fetch on a ready worker returns the reply.\<close>

lemma fetch_iteration_prompt:
  assumes "telegram_prompt envs files" and "ready w (fs_pool st)"
    and "fs_now st + from_secs 12 \<le> deadline"
  shows "\<exists>st'. fetch_iteration (envs n) req limit deadline (Some w) st =
      Return (Inr (take (gf_limit req) (drop (gf_offset req) (files (loc_id (gf_location req)))))) st' \<and>
    (\<forall>now. is_available now (p_breaker (fs_pool st')) w)"
proof -
  from assms(1) obtain ds dr where e: "env_slot (envs n) (fs_step st) = Some ds"
      "ds + env_lock (envs n) (fs_step st) + dr \<le> from_secs 10"
      "\<And>v dc r. env_rpc (envs n) (fs_step st) v dc r =
         (dr, FileBytes (take (gf_limit r) (drop (gf_offset r) (files (loc_id (gf_location r))))))"
    unfolding telegram_prompt_def by metis
  have s10: "from_secs 10 \<le> from_secs 12" "from_secs 10 \<le> RPC_TIMEOUT"
    by (simp_all add: from_secs_def RPC_TIMEOUT_def)
  define st1 where "st1 = on_metrics (record_rpc_slot_wait ds) (slot_take (st\<lparr>fs_now := fs_now st + ds\<rparr>))"
  have a: "acquire_rpc_slot (envs n) deadline st = Continue st1"
    using e(1,2) assms(2,3) s10 by (simp add: acquire_rpc_slot_def ready_def st1_def)
  have st1: "fs_now st1 = fs_now st + ds" "fs_step st1 = fs_step st"
      "p_breaker (fs_pool st1) = p_breaker (fs_pool st)" "worker_by_id (fs_pool st1) w = worker_by_id (fs_pool st) w"
    by (simp_all add: st1_def on_metrics_def slot_take_def on_pool_def)
  obtain v where v: "worker_by_id (fs_pool st) w = Some v" using assms(2) by (auto simp: ready_def)
  define ip where "ip = is_primary_id (fs_pool st1) w"
  have c: "choose_worker (Some w) deadline st1 = Inr (w, ip, st1)"
    using assms(2) v st1 by (simp add: choose_worker_def choose_pinned_def ready_def Let_def ip_def)
  define st2 where "st2 = (if ip then st1\<lparr>fs_primary_attempted := True\<rparr> else st1)"
  have st2: "fs_now st2 = fs_now st + ds" "fs_step st2 = fs_step st"
      "p_breaker (fs_pool st2) = p_breaker (fs_pool st)"
    by (simp_all add: st2_def st1)
  have "\<exists>st3. send_request (envs n) req ''timed out waiting for the worker lock'' w deadline st2 =
      Inr (Some (FileBytes (take (gf_limit req) (drop (gf_offset req) (files (loc_id (gf_location req)))))), st3) \<and>
      p_breaker (fs_pool st3) = p_breaker (fs_pool st)"
    using e(2) s10 assms(3) st2
    by (auto simp: send_request_def Let_def e(3) guard_new_def guard_drop_def on_metrics_def
        on_pool_def slot_release_def)
  then obtain st3 where q: "send_request (envs n) req ''timed out waiting for the worker lock'' w deadline st2 =
      Inr (Some (FileBytes (take (gf_limit req) (drop (gf_offset req) (files (loc_id (gf_location req)))))), st3)"
    and b3: "p_breaker (fs_pool st3) = p_breaker (fs_pool st)" by blast
  show ?thesis
    using a c q b3 assms(2)
    by (auto simp: fetch_iteration_def st2_def handle_reply_def on_metrics_def on_pool_def
        on_breaker_def is_available_record_success ready_def dest: is_available_range)
qed

lemma fetch_on_worker_prompt:
  assumes prompt: "telegram_prompt envs files" and ready: "ready w (en_pool (ps_engine ps))"
    and dl: "en_now (ps_engine ps) + CHUNK_FETCH_DEADLINE \<le> dl"
  shows "\<exists>ps1. fetch_on_worker envs w loc off dl ps =
      (Inr (take CHUNK_SIZE (drop off (files (loc_id loc)))), ps1) \<and> ready w (en_pool (ps_engine ps1))"
proof -
  define e where "e = ps_engine ps"
  define req where "req = \<lparr>gf_location = loc, gf_offset = off, gf_limit = CHUNK_SIZE\<rparr>"
  define st where "st = fetch_start (en_pool e) (ps_dc_id ps) (en_now e)"
  have st: "fs_pool st = en_pool e" "fs_now st = en_now e" "fs_attempts st = 0"
    by (simp_all add: st_def fetch_start_def)
  have time: "fs_now st + from_secs 12 \<le> dl" "fs_now st < dl"
    using dl by (simp_all add: st e_def CHUNK_FETCH_DEADLINE_def from_secs_def)
  obtain st' where it: "fetch_iteration (envs (en_calls e)) req MAX_FETCH_ATTEMPTS dl (Some w) st =
      Return (Inr (take CHUNK_SIZE (drop off (files (loc_id loc))))) st'"
    and av: "\<And>now. is_available now (p_breaker (fs_pool st')) w"
    using fetch_iteration_prompt [OF prompt _ time(1), where w = w and n = "en_calls e" and req = req
        and limit = MAX_FETCH_ATTEMPTS] ready by (auto simp: st e_def req_def)
  have "fetch_loop (envs (en_calls e)) req MAX_FETCH_ATTEMPTS dl (Some w) st =
      (Some (Inr (take CHUNK_SIZE (drop off (files (loc_id loc))))), next_step st')"
    using it time(2) st(3) by (subst fetch_loop.simps) (simp add: MAX_FETCH_ATTEMPTS_def)
  then have b: "fetch_chunk_with_budget (envs (en_calls e)) req dl (Some w) (en_pool e) (ps_dc_id ps) (en_now e) =
      (Inr (take CHUNK_SIZE (drop off (files (loc_id loc)))), next_step st')"
    by (simp add: fetch_chunk_with_budget_def worker_attempt_limit_def st_def [symmetric])
  from fetch_holds [OF this] have h: "holds 0 (en_pool e) (fs_pool st')" by (simp add: next_step_def)
  have "ready w (fs_pool st')"
    using ready worker_by_id_holds [OF h] av h by (auto simp: ready_def e_def holds_def)
  with b show ?thesis
    unfolding fetch_on_worker_def fetch_chunk_until_on_def Let_def e_def [symmetric] req_def [symmetric]
    by (simp add: next_step_def on_metrics_def on_pool_def)
qed

definition live_good ::
  "('c, 'm pipe_state) moka_ops \<Rightarrow> (nat \<Rightarrow> input_file_location fetch_env) \<Rightarrow> engine_env \<Rightarrow>
   'm meta_ops \<Rightarrow> (i64 \<Rightarrow> bytes) \<Rightarrow> i32 \<Rightarrow> nat \<Rightarrow> track_media_metadata \<Rightarrow> 'c chunk_cache \<times> 'm pipe_state \<Rightarrow>
   bool" where
  "live_good ops envs env mops files t w meta s \<longleftrightarrow>
     stream_good ops envs env mops files t meta s \<and> telegram_prompt envs files \<and>
     ready w (en_pool (ps_engine (snd s)))"

lemma chunk_future_live:
  assumes "live_good ops envs env mops files t w meta s"
  shows "\<exists>b s'. chunk_future ops envs env mops t w meta k s = (Inr b, s') \<and>
    live_good ops envs env mops files t w meta s'"
proof -
  define fetch where "fetch = fetch_chunk_with_refresh envs (ee_refresh_time env)
    (Some (refresher_of env mops t w (tm_file_reference meta))) w k"
  obtain cc p where s: "s = (cc, p)" by (cases s)
  have l: "telegram_prompt envs files" "ready w (en_pool (ps_engine p))" "moka_sound ops"
    and g: "stream_good ops envs env mops files t meta s"
    using assms by (simp_all add: live_good_def s stream_good_def stream_env_ok_def)
  from fetch_on_worker_prompt [OF l(1,2) order_refl, where loc = "ps_location p" and off = "k * CHUNK_SIZE"]
  obtain b p1 where f: "fetch p = (Inr b, p1)" and r: "ready w (en_pool (ps_engine p1))"
    unfolding fetch_def fetch_chunk_with_refresh_def Let_def by auto
  have "\<exists>b s'. chunk_future ops envs env mops t w meta k s = (Inr b, s') \<and>
      ready w (en_pool (ps_engine (snd s')))"
    using l(2) r unfolding chunk_future_def s fetch_def [symmetric] get_or_fetch_sound [OF l(3)] Let_def f
    by (auto split: option.split)
  with chunk_future_good [OF g] l show ?thesis unfolding live_good_def by blast
qed

interpretation live: live_chunk_source "chunk_future ops envs env mops t w meta"
    "live_good ops envs env mops files t w meta" upd_metrics "files (tm_document_id meta)"
  for ops envs env mops t w meta files
proof unfold_locales
  fix s k b s'
  assume "live_good ops envs env mops files t w meta s"
    and "chunk_future ops envs env mops t w meta k s = (Inr b, s')"
  then show "b = chunk_of (files (tm_document_id meta)) k"
    unfolding live_good_def using chunk_future_good by blast
next
  fix s k r s'
  assume "live_good ops envs env mops files t w meta s"
    and "chunk_future ops envs env mops t w meta k s = (r, s')"
  with chunk_future_live [of ops envs env mops files t w meta s k]
  show "live_good ops envs env mops files t w meta s'" by auto
next
  fix s f
  assume "live_good ops envs env mops files t w meta s"
  then show "live_good ops envs env mops files t w meta (upd_metrics f s)"
    by (simp add: live_good_def stream_good_def upd_metrics_def pipe_good_def)
next
  fix s k
  assume "live_good ops envs env mops files t w meta s"
  then show "\<exists>b s'. chunk_future ops envs env mops t w meta k s = (Inr b, s')"
    using chunk_future_live by blast
qed

section \<open>A request on a healthy pool\<close>

definition pool_ready :: "stream_worker_pool \<Rightarrow> bool" where
  "pool_ready p \<longleftrightarrow> p_workers p \<noteq> [] \<and>
     (\<forall>w \<in> set (p_workers p). ready (w_id w) p \<and> w_in_flight w < usize_max)"

lemma select_ready:
  assumes "pool_ready p"
  shows "\<exists>w c. select_worker_for_stream now p = (Inr w, p\<lparr>p_rr_cursor := c\<rparr>) \<and> ready w p"
proof -
  define order where "order = rotate (unat (p_rr_cursor p) mod length (p_workers p)) (p_workers p)"
  have set: "set order = set (p_workers p)" by (simp add: order_def)
  from assms obtain v where v: "v \<in> set order" "ready (w_id v) p" "w_in_flight v < usize_max"
    by (cases "p_workers p") (auto simp: pool_ready_def set)
  define r where "r = scan_workers (is_available now (p_breaker p)) order None usize_max"
  from scan_workers_result [OF r_def [symmetric]] v obtain w where "w \<in> set order" "r = Some (w_id w)"
    by (force simp: ready_def)
  with assms show ?thesis
    by (auto simp: select_worker_for_stream_def pick_least_loaded_eq order_def [symmetric]
        r_def [symmetric] pool_ready_def set)
qed

lemma prepare_stream_cached:
  assumes "mm_get mops (en_meta e) (t, w) = Some meta" and "requested_range hdr (tm_file_size meta) rng"
  shows "\<exists>h. prepare_stream env mops t hdr w e = (Inr (meta, h, rng), e)"
  using assms
  by (auto simp: prepare_stream_def resolve_track_media_for_worker_def requested_range_def
      split: option.splits)

lemma open_stream_complete_aux:
  assumes env: "stream_env_ok ops envs env mops files t doc" and prompt: "telegram_prompt envs files"
    and coh: "coherent ops files cc" and metas: "metas_ok mops t doc (length (files doc)) (en_meta e)"
    and cached: "\<And>w. mm_get mops (en_meta e) (t, w) \<noteq> None" and pool: "pool_ready (en_pool e)"
    and rng: "requested_range hdr (length (files doc)) rng"
    and rx: "\<And>i. \<not> rx_closed rx i \<and> rx_sent rx i"
  shows "\<exists>h body cc' e' pieces.
    open_stream ops envs env mops rx t hdr (cc, e) = (Inr (h, body), cc', e') \<and>
    body = map Inr pieces \<and> concat pieces = range_slice (files doc) rng \<and>
    ah_content_length h = range_length rng"
proof -
  from select_ready [OF pool, of "en_now e"] obtain w c where
    sel: "select_worker_for_stream (en_now e) (en_pool e) = (Inr w, (en_pool e)\<lparr>p_rr_cursor := c\<rparr>)"
    and rdy: "ready w (en_pool e)" by blast
  define e1 where "e1 = e\<lparr>en_pool := (en_pool e)\<lparr>p_rr_cursor := c\<rparr>\<rparr>"
  obtain meta where meta: "mm_get mops (en_meta e) (t, w) = Some meta" using cached by fastforce
  then have mf: "meta_for doc (length (files doc)) meta" using metas by (simp add: metas_ok_def)
  then have sz: "tm_file_size meta = length (files doc)" by (simp add: meta_for_def)
  from prepare_stream_cached [of mops e1 t w meta hdr rng env] meta rng obtain h where
    prep: "prepare_stream env mops t hdr w e1 = (Inr (meta, h, rng), e1)" by (auto simp: sz e1_def)
  have m1: "metas_ok mops t doc (length (files doc)) (en_meta e1)" using metas by (simp add: e1_def)
  have s: "meta_sound mops" "track_stable env t doc (length (files doc))"
    using env by (simp_all add: stream_env_ok_def)
  from prepare_stream_ok [OF s m1 prep] have len: "ah_content_length h = range_length rng"
    by (simp add: headers_for_def)
  let ?s = "(cc, \<lparr>ps_engine = e1, ps_location = input_location meta, ps_dc_id = tm_dc_id meta\<rparr>)"
  have "live_good ops envs env mops files t w meta ?s"
    using stream_good_start [OF env coh mf m1] prompt rdy by (simp add: live_good_def e1_def)
  moreover obtain body cc' ps where pipe: "create_stream_pipe (chunk_future ops envs env mops t w meta)
      stream_error_text upd_metrics rx rng ?s = (body, cc', ps)" by (metis prod_cases3)
  ultimately obtain pieces where "body = map Inr pieces"
      "concat pieces = range_slice (files doc) rng"
    using live.create_stream_pipe_complete [OF requested_range_le [OF rng] _ pipe rx, of files] mf
    by (auto simp: range_slice_def meta_for_def)
  with sel prep pipe len show ?thesis
    by (auto simp: open_stream_def e1_def [symmetric])
qed

section \<open>A concrete service\<close>

text \<open>
  A three-byte document 42 behind track 7, one worker, a Telegram that answers at once, and caches
  that are plain maps: it meets every hypothesis above.
\<close>

definition demo_files :: "i64 \<Rightarrow> bytes" where
  "demo_files d = (if d = 42 then [10, 20, 30] else [])"

definition demo_envs :: "nat \<Rightarrow> input_file_location fetch_env" where
  "demo_envs n =
     \<lparr>env_slot = (\<lambda>i. Some 0), env_lock = (\<lambda>i. 0),
      env_rpc = (\<lambda>i w dc req. (0, FileBytes (take (gf_limit req) (drop (gf_offset req)
        (demo_files (loc_id (gf_location req))))))),
      env_rand = (\<lambda>i. 0)\<rparr>"

definition demo_document :: tg_document where
  "demo_document =
     \<lparr>doc_id = 42, doc_access_hash = 1, doc_file_reference = [1], doc_dc_id = 2, doc_size = 3,
      doc_mime_type = []\<rparr>"

definition demo_env :: engine_env where
  "demo_env =
     \<lparr>ee_find_track = (\<lambda>n t. Inr (Some \<lparr>tr_message_id = 5, tr_codec = Alac\<rparr>)), ee_has_primary = True,
      ee_get_messages = (\<lambda>n w m. Inr [Some demo_document]), ee_get_dialogs = (\<lambda>n w. None),
      ee_refresh_time = (\<lambda>n. 0)\<rparr>"

definition demo_meta_ops :: "(i32 \<times> nat \<rightharpoonup> track_media_metadata) meta_ops" where
  "demo_meta_ops = \<lparr>mm_get = (\<lambda>c k. c k), mm_insert = (\<lambda>k v c. c(k \<mapsto> v))\<rparr>"

definition demo_pool :: stream_worker_pool where
  "demo_pool = assemble_pool [primary_instance (\<lambda>_. None) 0 0
     \<lparr>con_username = None, con_exported = None\<rparr>] None"

definition demo_engine :: "(i32 \<times> nat \<rightharpoonup> track_media_metadata) engine_state" where
  "demo_engine =
     \<lparr>en_pool = demo_pool, en_meta = (\<lambda>k. Some (metadata_of Alac demo_document)), en_calls = 0,
      en_now = 0\<rparr>"

definition demo_rx :: receiver where
  "demo_rx = \<lparr>rx_closed = (\<lambda>_. False), rx_sent = (\<lambda>_. True), rx_elapsed = (\<lambda>_. 0)\<rparr>"

definition demo_cache :: "(chunk_key \<rightharpoonup> bytes) chunk_cache" where
  "demo_cache = ChunkCache_new Map.empty"

lemma demo_prompt: "telegram_prompt demo_envs demo_files"
  by (simp add: telegram_prompt_def demo_envs_def)

lemma demo_env_ok: "stream_env_ok map_moka demo_envs demo_env demo_meta_ops demo_files 7 42"
  by (simp add: stream_env_ok_def map_moka_sound telegram_prompt_exact [OF demo_prompt] meta_sound_def
      demo_meta_ops_def track_stable_def demo_env_def demo_document_def demo_files_def)

lemma demo_coherent: "coherent map_moka demo_files demo_cache"
  by (simp add: coherent_def demo_cache_def ChunkCache_new_def map_moka_def)

lemma demo_metas: "metas_ok demo_meta_ops 7 42 (length (demo_files 42)) (en_meta demo_engine)"
  by (simp add: metas_ok_def demo_engine_def demo_meta_ops_def meta_for_def metadata_of_def
      demo_document_def demo_files_def)

lemma demo_cached: "mm_get demo_meta_ops (en_meta demo_engine) (7, w) \<noteq> None"
  by (simp add: demo_meta_ops_def demo_engine_def)

lemma demo_pool_ready: "pool_ready (en_pool demo_engine)"
  by (simp add: pool_ready_def demo_engine_def demo_pool_def ready_def worker_by_id_def
      primary_instance_def usize_max_def is_available_def worker_slot_def assemble_pool_def
      CircuitBreaker_new_def Let_def)

lemma demo_rx_open: "\<not> rx_closed demo_rx i \<and> rx_sent demo_rx i"
  by (simp add: demo_rx_def)

lemma demo_requested: "requested_range None (length (demo_files 42)) \<lparr>br_start = 0, br_end = 2\<rparr>"
  by (simp add: requested_range_def ByteRange_new_def demo_files_def)

lemmas demo_run = open_stream_complete_aux [OF demo_env_ok demo_prompt demo_coherent demo_metas
    demo_cached demo_pool_ready demo_requested demo_rx_open]

section \<open>Properties\<close>

text \<open>
  C1: Every response the stream engine opens is right, whatever the network does: the status, the
  range and the length in its headers are those of the requested range of the track's document,
  and its body is a prefix of exactly those bytes, in order, followed by at most one error, and
  all of them for a receiver that stays open when no error occurs. The chunk cache and the
  metadata cache stay coherent, so the same holds of the next request. (Content-Length is the
  body length for every document that is not empty.)
\<close>

theorem open_stream_correct:
  assumes "stream_env_ok ops envs env mops files t doc"
    and "coherent ops files cc" and "metas_ok mops t doc (length (files doc)) (en_meta e)"
    and "files doc \<noteq> []" and "length (files doc) < 2 ^ 64"
    and "open_stream ops envs env mops rx t hdr (cc, e) = (Inr (h, body), cc', e')"
  shows "\<exists>rng. requested_range hdr (length (files doc)) rng \<and>
    headers_for hdr (length (files doc)) rng h \<and>
    ah_content_length h = length (range_slice (files doc) rng) \<and>
    body_ok rx (range_slice (files doc) rng) body \<and>
    coherent ops files cc' \<and> metas_ok mops t doc (length (files doc)) (en_meta e')"
proof -
  from open_stream_ok [OF assms(1-3,6)] obtain rng where r: "requested_range hdr (length (files doc)) rng"
      "headers_for hdr (length (files doc)) rng h" "body_ok rx (range_slice (files doc) rng) body"
      "coherent ops files cc'" "metas_ok mops t doc (length (files doc)) (en_meta e')" by blast
  have "br_end rng < length (files doc)"
    using r(1) assms(4) by (auto simp: requested_range_def ByteRange_new_def
        dest: ByteRange_parse_in_file split: option.splits)
  with length_range_slice [OF requested_range_le [OF r(1)] this assms(5)] r show ?thesis
    by (auto simp: headers_for_def)
qed

theorem open_stream_correct_witness:
  "\<exists>h body cc' e'. open_stream map_moka demo_envs demo_env demo_meta_ops demo_rx 7 None
      (demo_cache, demo_engine) = (Inr (h, body), cc', e') \<and>
    ah_content_length h = 3 \<and> body_ok demo_rx [10, 20, 30] body"
proof -
  from demo_run obtain h body cc' e' where run: "open_stream map_moka demo_envs demo_env demo_meta_ops
      demo_rx 7 None (demo_cache, demo_engine) = (Inr (h, body), cc', e')" by blast
  have f: "demo_files 42 \<noteq> []" "length (demo_files 42) < 2 ^ 64" by (simp_all add: demo_files_def)
  from open_stream_correct [OF demo_env_ok demo_coherent demo_metas f run] show ?thesis
    using run by (auto simp: requested_range_def ByteRange_new_def range_slice_def demo_files_def)
qed

text \<open>
  C2: A request on a healthy pool is served completely: when Telegram answers promptly, the track's
  metadata is cached, every worker is available and the receiver stays open, \<open>open_stream\<close>
  succeeds, its body contains no error, and the pieces put together are the whole requested
  range.
\<close>

theorem open_stream_complete:
  assumes "stream_env_ok ops envs env mops files t doc" and "telegram_prompt envs files"
    and "coherent ops files cc" and "metas_ok mops t doc (length (files doc)) (en_meta e)"
    and "\<forall>w. mm_get mops (en_meta e) (t, w) \<noteq> None" and "pool_ready (en_pool e)"
    and "requested_range hdr (length (files doc)) rng"
    and "\<forall>i. \<not> rx_closed rx i \<and> rx_sent rx i"
  shows "\<exists>h body cc' e' pieces.
    open_stream ops envs env mops rx t hdr (cc, e) = (Inr (h, body), cc', e') \<and>
    body = map Inr pieces \<and> concat pieces = range_slice (files doc) rng \<and>
    ah_content_length h = range_length rng"
  using open_stream_complete_aux [OF assms(1-4) _ assms(6,7)] assms(5,8) by blast

theorem open_stream_complete_witness:
  "\<exists>h body cc' e' pieces. open_stream map_moka demo_envs demo_env demo_meta_ops demo_rx 7 None
      (demo_cache, demo_engine) = (Inr (h, body), cc', e') \<and>
    body = map Inr pieces \<and> concat pieces = [10, 20, 30] \<and> ah_content_length h = 3"
proof -
  have "\<forall>w. mm_get demo_meta_ops (en_meta demo_engine) (7, w) \<noteq> None"
    "\<forall>i. \<not> rx_closed demo_rx i \<and> rx_sent demo_rx i"
    using demo_cached demo_rx_open by auto
  from open_stream_complete [OF demo_env_ok demo_prompt demo_coherent demo_metas this(1)
      demo_pool_ready demo_requested this(2)]
  show ?thesis by (simp add: range_slice_def range_length_def demo_files_def)
qed

text \<open>
  The headers promised for an empty document are wrong: without a Range header the engine
  announces one byte (\<open>ByteRange::new(0, 0)\<close> has length one), while no body of such a document
  contains a byte.
\<close>

theorem empty_document_headers:
  assumes "mm_get mops (en_meta e) (t, w) = Some meta" and "tm_file_size meta = 0"
  shows "\<exists>h. prepare_stream env mops t None w e = (Inr (meta, h, ByteRange_new 0 0), e) \<and>
    ah_content_length h = 1 \<and> range_slice [] (ByteRange_new 0 0) = []"
  using assms
  by (simp add: prepare_stream_def resolve_track_media_for_worker_def range_length_def
      ByteRange_new_def range_slice_def)

theorem empty_document_headers_witness:
  "\<exists>h meta. prepare_stream demo_env demo_meta_ops 7 None 0
      (demo_engine\<lparr>en_meta := [(7, 0) \<mapsto> (metadata_of Alac (demo_document\<lparr>doc_size := 0\<rparr>))]\<rparr>) =
      (Inr (meta, h, ByteRange_new 0 0),
       demo_engine\<lparr>en_meta := [(7, 0) \<mapsto> (metadata_of Alac (demo_document\<lparr>doc_size := 0\<rparr>))]\<rparr>) \<and>
    ah_content_length h = 1"
  using empty_document_headers [of demo_meta_ops
      "demo_engine\<lparr>en_meta := [(7, 0) \<mapsto> (metadata_of Alac (demo_document\<lparr>doc_size := 0\<rparr>))]\<rparr>" 7 0
      "metadata_of Alac (demo_document\<lparr>doc_size := 0\<rparr>)" demo_env]
  by (auto simp: demo_meta_ops_def metadata_of_def)

end
