(* ===== verification/Rip_Priority.thy ===== *)
theory Rip_Priority
  imports Music
begin

text \<open>
  The options of a rip request (\<open>crates/engine/src/orchestrator/types.rs\<close>) and the score that orders
  the download queue (\<open>crates/engine/src/orchestrator/priority.rs\<close>). The scores keep their Rust
  widths: \<open>i16\<close> and \<open>i64\<close> are words read as signed numbers.
\<close>

type_synonym i16 = "16 word"

datatype request_source = Client | TelegramBot

record job_origin =
  jo_source :: request_source
  jo_expanded_from_artist :: bool

definition JobOrigin_default :: job_origin where
  "JobOrigin_default = \<lparr>jo_source = TelegramBot, jo_expanded_from_artist = False\<rparr>"

record rip_task_options =
  ro_chat_id :: i64
  ro_user_id :: i64
  ro_user_name :: "string option"
  ro_delivery_chat_id :: i64
  ro_is_group :: bool
  ro_is_force :: bool
  ro_is_cache_only :: bool
  ro_single_storefront :: "string option"
  ro_parsed_items :: "parsed_target_item list"
  ro_reply_to_message_id :: "i64 option"
  ro_is_admin :: bool
  ro_codec_preference :: "codec_preference option"
  ro_rendition_policy :: rendition_policy
  ro_origin :: job_origin

definition CLIENT_POINTS :: i16 where "CLIENT_POINTS = 100"
definition TRACK_POINTS :: i16 where "TRACK_POINTS = 60"
definition ALBUM_POINTS :: i16 where "ALBUM_POINTS = 10"
definition PLAYLIST_POINTS :: i16 where "PLAYLIST_POINTS = - 60"
definition ARTIST_EXPANSION_POINTS :: i16 where "ARTIST_EXPANSION_POINTS = - 60"
definition MULTI_LINK_POINTS :: i16 where "MULTI_LINK_POINTS = - 40"
definition ADMIN_POINTS :: i16 where "ADMIN_POINTS = - 200"

lemmas points_defs = CLIENT_POINTS_def TRACK_POINTS_def ALBUM_POINTS_def PLAYLIST_POINTS_def
  ARTIST_EXPANSION_POINTS_def MULTI_LINK_POINTS_def ADMIN_POINTS_def

fun kind_points :: "target_kind \<Rightarrow> i16" where
  "kind_points Track = TRACK_POINTS"
| "kind_points Album = ALBUM_POINTS"
| "kind_points Playlist = PLAYLIST_POINTS"
| "kind_points Artist = 0"

definition base_score :: "rip_task_options \<Rightarrow> i16" where
  "base_score options =
     (let score0 = (case jo_source (ro_origin options) of
                      Client \<Rightarrow> CLIENT_POINTS
                    | TelegramBot \<Rightarrow> 0);
          score1 = (case ro_parsed_items options of
                      [item] \<Rightarrow> score0 + kind_points (pt_kind item)
                    | [] \<Rightarrow> score0
                    | _ \<Rightarrow> score0 + MULTI_LINK_POINTS);
          score2 = (if jo_expanded_from_artist (ro_origin options)
                    then score1 + ARTIST_EXPANSION_POINTS else score1)
      in if ro_is_admin options then score2 + ADMIN_POINTS else score2)"

definition effective_score :: "i16 \<Rightarrow> u64 \<Rightarrow> 64 word" where
  "effective_score base waited_secs = scast base * 100 + waited_secs * 5"

section \<open>No overflow\<close>

text \<open>The score table in plain numbers.\<close>

definition score_spec :: "rip_task_options \<Rightarrow> int" where
  "score_spec options =
     (case jo_source (ro_origin options) of Client \<Rightarrow> 100 | TelegramBot \<Rightarrow> 0) +
     (case ro_parsed_items options of
        [] \<Rightarrow> 0
      | [item] \<Rightarrow> (case pt_kind item of Track \<Rightarrow> 60 | Album \<Rightarrow> 10 | Playlist \<Rightarrow> - 60 | Artist \<Rightarrow> 0)
      | _ \<Rightarrow> - 40) +
     (if jo_expanded_from_artist (ro_origin options) then - 60 else 0) +
     (if ro_is_admin options then - 200 else 0)"

lemma sint_word16_of_int: "- 32768 \<le> k \<Longrightarrow> k \<le> 32767 \<Longrightarrow> sint (word_of_int k :: i16) = k"
  by (simp add: sint_sbintrunc' signed_take_bit_int_eq_self)

lemma base_score_of_int: "base_score options = word_of_int (score_spec options)"
  by (auto simp: base_score_def score_spec_def points_defs Let_def
      split: request_source.split list.split target_kind.split)

lemma score_spec_bounds: "- 320 \<le> score_spec options \<and> score_spec options \<le> 160"
  by (auto simp: score_spec_def split: request_source.split list.split target_kind.split)

lemma sint_base_score: "sint (base_score options) = score_spec options"
  using score_spec_bounds [of options] by (simp add: base_score_of_int sint_word16_of_int)

lemma sint_i16_bounds: "- 32768 \<le> sint (b :: i16) \<and> sint b \<le> 32767"
  using sint_range_size [of b] by (simp add: word_size)

lemma scaled_bounds:
  "- 32768 \<le> a \<Longrightarrow> a \<le> 32767 \<Longrightarrow> 0 \<le> b \<Longrightarrow> b < 2 ^ 60 \<Longrightarrow>
     - (2 ^ 63) \<le> 100 * a + 5 * b \<and> 100 * a + 5 * b < (2 ^ 63 :: int)"
  by simp

lemma sint_effective_score:
  assumes "unat waited < 2 ^ 60"
  shows "sint (effective_score base waited) = 100 * sint base + 5 * int (unat waited)"
proof -
  have "word_of_int (100 * sint base + 5 * int (unat waited)) =
      (100 :: 64 word) * word_of_int (sint base) + 5 * word_of_int (int (unat waited))"
    by (simp only: wi_hom_add [symmetric] wi_hom_mult [symmetric] word_of_int_numeral)
  also have "\<dots> = effective_score base waited"
    unfolding effective_score_def scast_eq by (simp add: mult.commute [of 100] mult.commute [of 5])
  finally have "effective_score base waited = word_of_int (100 * sint base + 5 * int (unat waited))"
    by (rule sym)
  moreover have "sint (word_of_int k :: 64 word) = k" if "- (2 ^ 63) \<le> k" "k < 2 ^ 63" for k
    using that by (simp add: sint_sbintrunc' signed_take_bit_int_eq_self)
  moreover have "int (unat waited) < 2 ^ 60"
    using assms by (metis of_nat_less_iff of_nat_numeral of_nat_power)
  then have "- (2 ^ 63) \<le> 100 * sint base + 5 * int (unat waited) \<and>
      100 * sint base + 5 * int (unat waited) < 2 ^ 63"
    using sint_i16_bounds [of base] scaled_bounds [of "sint base" "int (unat waited)"] by simp
  ultimately show ?thesis by (simp only:)
qed

section \<open>Properties\<close>

text \<open>
  The 16-bit base score never overflows: it is the documented table summed in plain integers and
  lies between -320 and 160. With aging added in 64 bits the effective score is
  \<open>100 * base + 5 * waited\<close> for every wait a clock can produce.
\<close>
theorem scores_exact:
  assumes "unat waited < 2 ^ 60"
  shows "sint (base_score options) = score_spec options \<and>
    - 320 \<le> sint (base_score options) \<and> sint (base_score options) \<le> 160 \<and>
    sint (effective_score (base_score options) waited) = 100 * score_spec options + 5 * int (unat waited)"
  using score_spec_bounds [of options] sint_effective_score [OF assms, of "base_score options"]
  by (simp_all add: sint_base_score)

definition admin_options :: rip_task_options where
  "admin_options = \<lparr>ro_chat_id = 1, ro_user_id = 7, ro_user_name = None, ro_delivery_chat_id = 1,
     ro_is_group = False, ro_is_force = False, ro_is_cache_only = False, ro_single_storefront = None,
     ro_parsed_items = [], ro_reply_to_message_id = None, ro_is_admin = True,
     ro_codec_preference = None, ro_rendition_policy = PrimaryOnly, ro_origin = JobOrigin_default\<rparr>"

lemma scores_exact_witness: "sint (effective_score (base_score admin_options) 60) = - 19700"
proof -
  have "sint (effective_score (base_score admin_options) 60) = 100 * score_spec admin_options + 300"
    using scores_exact [of 60 admin_options] by simp
  then show ?thesis by (simp add: score_spec_def admin_options_def JobOrigin_default_def)
qed

end
