(* ===== verification/Rip_Queue.thy ===== *)
theory Rip_Queue
  imports Rip_Priority
begin

text \<open>
  The sequential download queue, \<open>crates/engine/src/queue.rs\<close>. The mutex makes each critical section
  one step, and the steps of submitters, workers and abort watchers interleave freely: an event
  names the step that runs next. Workers are kept as a list, so that there being at most one of
  them is a theorem and not part of the model. Ids count submissions and do not wrap around. The completion of an item is sent
  over a channel of its own, which no other step looks at, and is part of the step that ends the item.

  Callbacks, cancellations and completions are recorded in the order they happen. What a task
  does is the environment: a worker that runs an item waits for \<open>Finish\<close> with its outcome.
\<close>

datatype queue_error = Aborted | Cleared | TaskError string

record queued_item =
  qi_id :: nat
  qi_on_position_change :: bool
  qi_on_start :: bool
  qi_priority :: i16
  qi_enqueued_at :: instant

record queue_state =
  qs_pending :: "queued_item list"
  qs_active :: "nat option"
  qs_processing :: bool
  qs_next_id :: nat

definition SequentialRipQueue_new :: queue_state where
  "SequentialRipQueue_new =
     \<lparr>qs_pending = [], qs_active = None, qs_processing = False, qs_next_id = 1\<rparr>"

definition get_pending_count :: "queue_state \<Rightarrow> nat" where
  "get_pending_count s = length (qs_pending s)"

definition is_processing :: "queue_state \<Rightarrow> bool" where
  "is_processing s = qs_processing s"

section \<open>The choice of the next item\<close>

definition item_score :: "instant \<Rightarrow> queued_item \<Rightarrow> int" where
  "item_score now item =
     sint (effective_score (qi_priority item) (of_nat (as_secs (now - qi_enqueued_at item))))"

text \<open>The loop of \<open>take_next\<close>: only a strictly higher score displaces the best one so far.\<close>

fun best_index :: "instant \<Rightarrow> nat \<Rightarrow> (nat \<times> int) option \<Rightarrow> queued_item list \<Rightarrow> (nat \<times> int) option" where
  "best_index now i best [] = best"
| "best_index now i best (item # items) =
     best_index now (Suc i)
       (case best of
          Some (j, best_score) \<Rightarrow>
            if item_score now item \<le> best_score then best else Some (i, item_score now item)
        | None \<Rightarrow> Some (i, item_score now item)) items"

definition remove_at :: "nat \<Rightarrow> 'a list \<Rightarrow> 'a list" where
  "remove_at i xs = take i xs @ drop (Suc i) xs"

definition take_next :: "instant \<Rightarrow> queued_item list \<Rightarrow> (queued_item \<times> queued_item list) option" where
  "take_next now pending =
     (case best_index now 0 None pending of
        None \<Rightarrow> None
      | Some (i, _) \<Rightarrow> if i < length pending then Some (pending ! i, remove_at i pending) else None)"

section \<open>The world around the queue\<close>

datatype worker_pc = AtLoop | Running queued_item

record queue_world =
  w_state :: queue_state
  w_workers :: "worker_pc list"
  w_aborting :: "nat list"
  w_watched :: "nat list"
  w_notified :: "nat list"
  w_completions :: "(nat \<times> queue_error option) list"
  w_cancelled :: "nat list"
  w_positions :: "(nat \<times> nat) list"
  w_started :: "nat list"

definition queue_world_init :: queue_world where
  "queue_world_init =
     \<lparr>w_state = SequentialRipQueue_new, w_workers = [], w_aborting = [], w_watched = [],
      w_notified = [], w_completions = [], w_cancelled = [], w_positions = [], w_started = []\<rparr>"

record enqueue_options =
  eo_on_position_change :: bool
  eo_on_start :: bool
  eo_signal :: "bool option"
  eo_priority :: i16

definition default_enqueue_options :: enqueue_options where
  "default_enqueue_options =
     \<lparr>eo_on_position_change = False, eo_on_start = False, eo_signal = None, eo_priority = 0\<rparr>"

text \<open>
  \<open>submit\<close>. \<open>eo_signal\<close> is the caller's token: \<open>Some True\<close> when it is already cancelled. The result is
  the id of the accepted item, \<open>None\<close> for one that is answered \<open>Aborted\<close> at once. A watched item
  has an abort watcher, \<open>spawn_abort_watcher\<close>.
\<close>

definition submit ::
  "instant \<Rightarrow> enqueue_options option \<Rightarrow> queue_world \<Rightarrow> nat option \<times> queue_world" where
  "submit now options0 w =
     (let options = (case options0 of Some opts \<Rightarrow> opts | None \<Rightarrow> default_enqueue_options)
      in if eo_signal options = Some True then (None, w)
         else
           let s = w_state w;
               i = qs_next_id s;
               start_worker = \<not> qs_processing s;
               position = length (qs_pending s) + 1;
               item = \<lparr>qi_id = i, qi_on_position_change = eo_on_position_change options,
                       qi_on_start = eo_on_start options, qi_priority = eo_priority options,
                       qi_enqueued_at = now\<rparr>
           in (Some i,
               w\<lparr>w_state := s\<lparr>qs_next_id := i + 1, qs_processing := True,
                              qs_pending := qs_pending s @ [item]\<rparr>,
                 w_positions := w_positions w @
                   (if \<not> start_worker \<and> eo_on_position_change options then [(i, position)] else []),
                 w_watched := w_watched w @ (if eo_signal options \<noteq> None then [i] else []),
                 w_workers := w_workers w @ (if start_worker then [AtLoop] else [])\<rparr>))"

text \<open>The callbacks after a change: the items from \<open>index\<close> on learn their new positions.\<close>

definition position_callbacks :: "nat \<Rightarrow> queued_item list \<Rightarrow> (nat \<times> nat) list" where
  "position_callbacks index pending =
     map (\<lambda>(offset, item). (qi_id item, index + offset + 1))
       (filter (\<lambda>(offset, item). qi_on_position_change item)
         (List.enumerate 0 (drop index pending)))"

definition find_item :: "nat \<Rightarrow> queued_item list \<Rightarrow> nat option" where
  "find_item i pending = List.find (\<lambda>k. qi_id (pending ! k) = i) [0..<length pending]"

text \<open>\<open>abort_item\<close>: its first critical section removes a pending item; its second one, taken only
  when nothing was removed, cancels the item that is running.\<close>

definition abort_item :: "nat \<Rightarrow> queue_world \<Rightarrow> queue_world" where
  "abort_item i w =
     (let s = w_state w
      in case find_item i (qs_pending s) of
           Some index \<Rightarrow>
             (let pending = remove_at index (qs_pending s)
              in w\<lparr>w_state := s\<lparr>qs_pending := pending\<rparr>,
                   w_notified := w_notified w @ [i],
                   w_cancelled := w_cancelled w @ [i],
                   w_completions := w_completions w @ [(i, Some Aborted)],
                   w_positions := w_positions w @ position_callbacks index pending\<rparr>)
         | None \<Rightarrow> w\<lparr>w_aborting := w_aborting w @ [i]\<rparr>)"

definition abort_check :: "nat \<Rightarrow> queue_world \<Rightarrow> queue_world" where
  "abort_check k w =
     (if k < length (w_aborting w)
      then (let i = w_aborting w ! k; w' = w\<lparr>w_aborting := remove_at k (w_aborting w)\<rparr>
            in if qs_active (w_state w') = Some i then w'\<lparr>w_cancelled := w_cancelled w' @ [i]\<rparr> else w')
      else w)"

definition clear :: "queue_world \<Rightarrow> queue_world" where
  "clear w =
     (let ids = map qi_id (qs_pending (w_state w))
      in w\<lparr>w_state := (w_state w)\<lparr>qs_pending := []\<rparr>,
           w_notified := w_notified w @ ids,
           w_cancelled := w_cancelled w @ ids,
           w_completions := w_completions w @ map (\<lambda>i. (i, Some Cleared)) ids\<rparr>)"

text \<open>
  \<open>run_worker\<close>: the critical section at the head of its loop, and the one after its task. A task
  ends with a value (\<open>None\<close>) or a panic.
\<close>

definition worker_pick :: "instant \<Rightarrow> nat \<Rightarrow> queue_world \<Rightarrow> queue_world" where
  "worker_pick now k w =
     (if k < length (w_workers w) \<and> w_workers w ! k = AtLoop
      then (case take_next now (qs_pending (w_state w)) of
              None \<Rightarrow>
                w\<lparr>w_state := (w_state w)\<lparr>qs_active := None, qs_processing := False\<rparr>,
                  w_workers := remove_at k (w_workers w)\<rparr>
            | Some (item, pending) \<Rightarrow>
                w\<lparr>w_state := (w_state w)\<lparr>qs_active := Some (qi_id item), qs_pending := pending\<rparr>,
                  w_workers := (w_workers w)[k := Running item],
                  w_positions := w_positions w @ position_callbacks 0 pending,
                  w_started := w_started w @ (if qi_on_start item then [qi_id item] else [])\<rparr>)
      else w)"

definition worker_finish :: "string option \<Rightarrow> nat \<Rightarrow> queue_world \<Rightarrow> queue_world" where
  "worker_finish panic k w =
     (if k < length (w_workers w)
      then (case w_workers w ! k of
              AtLoop \<Rightarrow> w
            | Running item \<Rightarrow>
                (let s = (w_state w)\<lparr>qs_active := None\<rparr>;
                     w' = w\<lparr>w_completions :=
                              w_completions w @ [(qi_id item, map_option TaskError panic)],
                            w_notified := w_notified w @ [qi_id item]\<rparr>
                 in if qs_pending s = []
                    then w'\<lparr>w_state := s\<lparr>qs_processing := False\<rparr>,
                            w_workers := remove_at k (w_workers w)\<rparr>
                    else w'\<lparr>w_state := s, w_workers := (w_workers w)[k := AtLoop]\<rparr>))
      else w)"

datatype queue_event =
  Submit instant "enqueue_options option"
| Abort nat
| StopWatch nat
| AbortCheck nat
| Clear
| Pick instant nat
| Finish "string option" nat

text \<open>
  The watcher of an item ends in one of two ways: the caller's token is cancelled, or the item has
  notified it.
\<close>

fun queue_step :: "queue_world \<Rightarrow> queue_event \<Rightarrow> queue_world" where
  "queue_step w (Submit now opts) = snd (submit now opts w)"
| "queue_step w (Abort i) = 
     (if i \<in> set (w_watched w) then abort_item i (w\<lparr>w_watched := removeAll i (w_watched w)\<rparr>) else w)"
| "queue_step w (StopWatch i) =
     (if i \<in> set (w_watched w) \<and> i \<in> set (w_notified w)
      then w\<lparr>w_watched := removeAll i (w_watched w)\<rparr> else w)"
| "queue_step w (AbortCheck k) = abort_check k w"
| "queue_step w Clear = clear w"
| "queue_step w (Pick now k) = worker_pick now k w"
| "queue_step w (Finish panic k) = worker_finish panic k w"

definition queue_run :: "queue_event list \<Rightarrow> queue_world" where
  "queue_run es = foldl queue_step queue_world_init es"

end
