(* ===== verification/Queue_Safety.thy ===== *)
theory Queue_Safety
  imports Rip_Queue
begin

text \<open>
  What the download queue guarantees: the choice of the next item, the invariant of every
  interleaving of submitters, watchers and workers, and progress of its worker.
\<close>

section \<open>The choice\<close>

definition chosen :: "instant \<Rightarrow> queued_item list \<Rightarrow> nat \<Rightarrow> bool" where
  "chosen now items k \<longleftrightarrow> k < length items \<and>
     (\<forall>j < length items. item_score now (items ! j) \<le> item_score now (items ! k)) \<and>
     (\<forall>j < k. item_score now (items ! j) < item_score now (items ! k))"

lemma best_index_Some:
  "\<exists>k s. best_index now i (Some (j, b)) items = Some (k, s) \<and>
     ((k = j \<and> s = b \<and> (\<forall>x \<in> set items. item_score now x \<le> b)) \<or>
      (\<exists>m. k = i + m \<and> chosen now items m \<and> s = item_score now (items ! m) \<and> b < s))"
proof (induction items arbitrary: i j b)
  case (Cons x items)
  show ?case
  proof (cases "item_score now x \<le> b")
    case True
    with Cons.IH [of "Suc i" j b] obtain k s where
      r: "best_index now i (Some (j, b)) (x # items) = Some (k, s)"
      and c: "(k = j \<and> s = b \<and> (\<forall>y \<in> set items. item_score now y \<le> b)) \<or>
        (\<exists>m. k = Suc i + m \<and> chosen now items m \<and> s = item_score now (items ! m) \<and> b < s)" by auto
    from c show ?thesis
    proof (elim disjE exE conjE)
      fix m assume m: "k = Suc i + m" "chosen now items m" "s = item_score now (items ! m)" "b < s"
      with True have "chosen now (x # items) (Suc m)"
        by (auto simp: chosen_def All_less_Suc2 simp del: All_less_Suc)
      with m r show ?thesis by (intro exI [of _ k] exI [of _ s]) (auto intro: exI [of _ "Suc m"])
    qed (use True r in auto)
  next
    case False
    with Cons.IH [of "Suc i" i "item_score now x"] obtain k s where
      r: "best_index now i (Some (j, b)) (x # items) = Some (k, s)"
      and c: "(k = i \<and> s = item_score now x \<and> (\<forall>y \<in> set items. item_score now y \<le> item_score now x)) \<or>
        (\<exists>m. k = Suc i + m \<and> chosen now items m \<and> s = item_score now (items ! m) \<and> item_score now x < s)"
      by auto
    from c show ?thesis
    proof (elim disjE exE conjE)
      assume k: "k = i" "s = item_score now x" "\<forall>y \<in> set items. item_score now y \<le> item_score now x"
      then have "chosen now (x # items) 0" by (auto simp: chosen_def nth_Cons split: nat.splits)
      with k r False show ?thesis by (intro exI [of _ k] exI [of _ s]) (auto intro: exI [of _ 0])
    next
      fix m assume m: "k = Suc i + m" "chosen now items m" "s = item_score now (items ! m)"
        "item_score now x < s"
      then have "chosen now (x # items) (Suc m)"
        by (auto simp: chosen_def All_less_Suc2 simp del: All_less_Suc)
      with m r False show ?thesis by (intro exI [of _ k] exI [of _ s]) (auto intro: exI [of _ "Suc m"])
    qed
  qed
qed simp

lemma best_index_None:
  "items \<noteq> [] \<Longrightarrow> \<exists>k s. best_index now 0 None items = Some (k, s) \<and> chosen now items k"
proof (cases items)
  case (Cons x xs)
  from best_index_Some [of now "Suc 0" 0 "item_score now x" xs] Cons show ?thesis
    by (force simp: chosen_def nth_Cons split: nat.splits)
qed simp

lemma take_next_cases:
  "(pending = [] \<and> take_next now pending = None) \<or>
   (\<exists>k. chosen now pending k \<and> take_next now pending = Some (pending ! k, remove_at k pending))"
  using best_index_None [of pending now] by (cases "pending = []") (auto simp: take_next_def chosen_def)

section \<open>Removal\<close>

lemma length_remove_at [simp]: "k < length xs \<Longrightarrow> length (remove_at k xs) = length xs - 1"
  by (simp add: remove_at_def)

lemma nth_remove_at:
  "k < length xs \<Longrightarrow> j < length xs - 1 \<Longrightarrow> remove_at k xs ! j = (if j < k then xs ! j else xs ! Suc j)"
  by (auto simp: remove_at_def nth_append min_def)

lemma mset_remove_at: "k < length xs \<Longrightarrow> add_mset (xs ! k) (mset (remove_at k xs)) = mset xs"
  unfolding remove_at_def by (rule mset_take_drop_Suc)

lemma mset_map_remove_at:
  "k < length xs \<Longrightarrow> add_mset (f (xs ! k)) (mset (map f (remove_at k xs))) = mset (map f xs)"
  by (metis image_mset_add_mset mset_map mset_remove_at)

lemma find_item_Some: "find_item i pending = Some k \<Longrightarrow> k < length pending \<and> qi_id (pending ! k) = i"
  by (auto simp: find_item_def find_Some_iff)

section \<open>The invariant\<close>

fun running :: "worker_pc list \<Rightarrow> nat list" where
  "running [] = []"
| "running (AtLoop # ws) = running ws"
| "running (Running item # ws) = qi_id item # running ws"

text \<open>No worker, a worker at the head of its loop, or a worker that runs one item.\<close>

definition worker_ok :: "queued_item list \<Rightarrow> nat option \<Rightarrow> bool \<Rightarrow> worker_pc list \<Rightarrow> bool" where
  "worker_ok pending active processing ws \<longleftrightarrow>
     (ws = [] \<and> \<not> processing \<and> pending = [] \<and> active = None) \<or>
     (ws = [AtLoop] \<and> processing \<and> active = None) \<or>
     (\<exists>item. ws = [Running item] \<and> processing \<and> active = Some (qi_id item))"

definition single_worker :: "queue_world \<Rightarrow> bool" where
  "single_worker w \<longleftrightarrow> worker_ok (qs_pending (w_state w)) (qs_active (w_state w))
     (qs_processing (w_state w)) (w_workers w)"

lemma single_worker_cases:
  assumes "single_worker w"
  obtains (stopped) "w_workers w = []" "\<not> qs_processing (w_state w)" "qs_pending (w_state w) = []"
      "qs_active (w_state w) = None"
  | (loop) "w_workers w = [AtLoop]" "qs_processing (w_state w)" "qs_active (w_state w) = None"
  | (busy) item where "w_workers w = [Running item]" "qs_processing (w_state w)"
      "qs_active (w_state w) = Some (qi_id item)"
  using assms stopped loop busy unfolding single_worker_def worker_ok_def by metis

text \<open>Every accepted submission is pending, running or completed, exactly once.\<close>

definition accounted :: "queue_world \<Rightarrow> nat multiset" where
  "accounted w = mset (map qi_id (qs_pending (w_state w))) + mset (running (w_workers w)) +
     mset (map fst (w_completions w))"

definition queue_inv :: "queue_world \<Rightarrow> bool" where
  "queue_inv w \<longleftrightarrow> single_worker w \<and> 1 \<le> qs_next_id (w_state w) \<and>
     accounted w = mset [1..<qs_next_id (w_state w)]"

lemma queue_inv_single: "queue_inv w \<Longrightarrow> single_worker w"
  by (simp add: queue_inv_def)

lemma queue_inv_init: "queue_inv queue_world_init"
  by (simp add: queue_inv_def single_worker_def worker_ok_def accounted_def queue_world_init_def
      SequentialRipQueue_new_def)

text \<open>A step that accounts for the same submissions keeps the invariant when the worker stays ok.\<close>

lemma queue_inv_same:
  assumes "queue_inv w" and "single_worker w'" and "accounted w' = accounted w"
    and "qs_next_id (w_state w') = qs_next_id (w_state w)"
  shows "queue_inv w'"
  using assms by (simp add: queue_inv_def del: mset_upt)

lemma queue_inv_cong:
  "w_state w' = w_state w \<Longrightarrow> w_workers w' = w_workers w \<Longrightarrow> w_completions w' = w_completions w \<Longrightarrow>
   queue_inv w \<Longrightarrow> queue_inv w'"
  by (simp only: queue_inv_def single_worker_def accounted_def)

lemma submit_inv:
  assumes inv: "queue_inv w"
  shows "queue_inv (snd (submit now opts w))"
proof -
  define opt where "opt = (case opts of Some x \<Rightarrow> x | None \<Rightarrow> default_enqueue_options)"
  define w' where "w' = snd (submit now opts w)"
  define n where "n = qs_next_id (w_state w)"
  show ?thesis
  proof (cases "eo_signal opt = Some True")
    case True
    with inv show ?thesis by (simp add: submit_def Let_def opt_def)
  next
    case False
    have sw: "single_worker w'" using queue_inv_single [OF inv]
      by (cases rule: single_worker_cases)
        (use False in \<open>auto simp: w'_def submit_def Let_def opt_def single_worker_def worker_ok_def\<close>)
    have "running (w_workers w') = running (w_workers w)" using queue_inv_single [OF inv]
      by (cases rule: single_worker_cases) (use False in \<open>auto simp: w'_def submit_def Let_def opt_def\<close>)
    then have "accounted w' = add_mset n (accounted w)" and next': "qs_next_id (w_state w') = Suc n"
      using False by (simp_all add: accounted_def w'_def submit_def Let_def opt_def n_def)
    moreover have "mset [1..<Suc n] = add_mset n (mset [1..<n])"
      using inv by (simp add: queue_inv_def n_def del: mset_upt)
    ultimately show ?thesis
      using inv sw by (simp add: queue_inv_def w'_def [symmetric] n_def del: mset_upt)
  qed
qed

lemma abort_item_inv:
  assumes inv: "queue_inv w"
  shows "queue_inv (abort_item i w)"
proof (cases "find_item i (qs_pending (w_state w))")
  case (Some k)
  from mset_map_remove_at [where f = qi_id, of k "qs_pending (w_state w)"] find_item_Some [OF Some]
  have m: "mset (map qi_id (qs_pending (w_state w))) =
      add_mset i (mset (map qi_id (remove_at k (qs_pending (w_state w)))))" by simp
  have "single_worker (abort_item i w)" using queue_inv_single [OF inv]
    by (cases rule: single_worker_cases)
      (use Some find_item_Some [OF Some] in \<open>auto simp: abort_item_def Let_def single_worker_def worker_ok_def\<close>)
  moreover have "accounted (abort_item i w) = accounted w"
    using Some by (simp add: accounted_def abort_item_def Let_def m del: mset_map)
  ultimately show ?thesis
    using Some by (intro queue_inv_same [OF inv]) (simp_all add: abort_item_def Let_def)
next
  case None
  then show ?thesis by (intro queue_inv_cong [OF _ _ _ inv]) (simp_all add: abort_item_def)
qed

lemma abort_check_inv: "queue_inv w \<Longrightarrow> queue_inv (abort_check k w)"
  by (erule queue_inv_cong [rotated -1]) (simp_all add: abort_check_def Let_def)

lemma clear_inv:
  assumes inv: "queue_inv w"
  shows "queue_inv (clear w)"
proof -
  have "single_worker (clear w)" using queue_inv_single [OF inv]
    by (cases rule: single_worker_cases) (auto simp: clear_def Let_def single_worker_def worker_ok_def)
  moreover have "accounted (clear w) = accounted w"
    by (simp add: accounted_def clear_def Let_def comp_def)
  ultimately show ?thesis by (intro queue_inv_same [OF inv]) (simp_all add: clear_def Let_def)
qed

lemma worker_pick_inv:
  assumes inv: "queue_inv w"
  shows "queue_inv (worker_pick now k w)"
proof (cases "k < length (w_workers w) \<and> w_workers w ! k = AtLoop")
  case True
  define pend where "pend = qs_pending (w_state w)"
  from queue_inv_single [OF inv] have ws: "w_workers w = [AtLoop]" "qs_processing (w_state w)"
    by (cases rule: single_worker_cases; use True in auto)+
  with True have k: "k = 0" by simp
  from take_next_cases [of pend now] show ?thesis
  proof (elim disjE exE conjE)
    fix j assume c: "chosen now pend j" "take_next now pend = Some (pend ! j, remove_at j pend)"
    define w' where "w' = worker_pick now k w"
    from c have m: "mset (map qi_id pend) = add_mset (qi_id (pend ! j)) (mset (map qi_id (remove_at j pend)))"
      using mset_map_remove_at [where f = qi_id, of j pend] by (simp add: chosen_def)
    have "w_workers w' = [Running (pend ! j)]" "qs_pending (w_state w') = remove_at j pend"
        "qs_active (w_state w') = Some (qi_id (pend ! j))" "qs_processing (w_state w')"
        "w_completions w' = w_completions w" "qs_next_id (w_state w') = qs_next_id (w_state w)"
      using ws k c by (simp_all add: w'_def worker_pick_def pend_def)
    then show ?thesis
      unfolding w'_def [symmetric] using m ws
      by (intro queue_inv_same [OF inv])
        (simp_all add: single_worker_def worker_ok_def accounted_def pend_def [symmetric] del: mset_map)
  qed (use inv ws k in \<open>auto simp: queue_inv_def single_worker_def worker_ok_def accounted_def
      worker_pick_def remove_at_def pend_def\<close>)
qed (use inv in \<open>auto simp: worker_pick_def\<close>)

lemma worker_finish_inv:
  assumes inv: "queue_inv w"
  shows "queue_inv (worker_finish p k w)"
proof (cases "\<exists>item. k < length (w_workers w) \<and> w_workers w ! k = Running item")
  case True
  then obtain item where item: "k < length (w_workers w)" "w_workers w ! k = Running item" by blast
  from queue_inv_single [OF inv] have ws: "w_workers w = [Running item]" "qs_processing (w_state w)"
    by (cases rule: single_worker_cases; use item in auto)+
  with item have k: "k = 0" by simp
  have "single_worker (worker_finish p k w)"
    using ws k by (simp add: worker_finish_def Let_def single_worker_def worker_ok_def remove_at_def)
  moreover have "accounted (worker_finish p k w) = accounted w"
    using ws k by (simp add: worker_finish_def Let_def accounted_def remove_at_def)
  ultimately show ?thesis
    using ws k by (intro queue_inv_same [OF inv]) (simp_all add: worker_finish_def Let_def)
qed (use inv in \<open>auto simp: worker_finish_def split: worker_pc.splits\<close>)

lemma queue_step_inv: "queue_inv w \<Longrightarrow> queue_inv (queue_step w e)"
proof (cases e)
  case (Abort i)
  assume "queue_inv w"
  then have "queue_inv (w\<lparr>w_watched := removeAll i (w_watched w)\<rparr>)"
    by (rule queue_inv_cong [rotated -1]) simp_all
  with Abort \<open>queue_inv w\<close> show ?thesis by (simp add: abort_item_inv)
next
  case (StopWatch i)
  assume "queue_inv w"
  with StopWatch show ?thesis by (intro queue_inv_cong [of "queue_step w e" w]) simp_all
qed (simp_all add: submit_inv abort_check_inv clear_inv worker_pick_inv worker_finish_inv)

interpretation queue: event_machine queue_world_init queue_step queue_inv
  by unfold_locales (rule queue_inv_init, rule queue_step_inv)

lemma queue_run_inv: "queue_inv (queue_run es)"
  unfolding queue_run_def by (rule queue.inv_run)

section \<open>Progress\<close>

text \<open>One round of a worker: it picks at some time, runs the task and finishes with some outcome.\<close>

fun drain :: "(instant \<times> string option) list \<Rightarrow> queue_world \<Rightarrow> queue_world" where
  "drain [] w = w"
| "drain ((now, panic) # rounds) w = drain rounds (worker_finish panic 0 (worker_pick now 0 w))"

fun backlog :: "queue_world \<Rightarrow> nat" where
  "backlog w = length (qs_pending (w_state w)) +
     (case w_workers w of [] \<Rightarrow> 0 | AtLoop # _ \<Rightarrow> 1 | Running _ # _ \<Rightarrow> 2)"

lemma round_backlog:
  assumes "single_worker w"
  shows "backlog (worker_finish panic 0 (worker_pick now 0 w)) \<le> backlog w - 1"
  using assms
proof (cases rule: single_worker_cases)
  case stopped
  then show ?thesis by (simp add: worker_pick_def worker_finish_def)
next
  case loop
  from take_next_cases [of "qs_pending (w_state w)" now] show ?thesis
    by (elim disjE exE conjE)
      (use loop in \<open>auto simp: worker_pick_def worker_finish_def Let_def remove_at_def chosen_def\<close>)
next
  case (busy item)
  then show ?thesis by (simp add: worker_pick_def worker_finish_def Let_def remove_at_def)
qed

lemma drain_inv: "queue_inv w \<Longrightarrow> queue_inv (drain rounds w)"
  by (induction rounds w rule: drain.induct) (simp_all add: worker_finish_inv worker_pick_inv)

lemma drain_backlog: "queue_inv w \<Longrightarrow> backlog (drain rounds w) \<le> backlog w - length rounds"
proof (induction rounds w rule: drain.induct)
  case (2 now panic rounds w)
  have "queue_inv (worker_finish panic 0 (worker_pick now 0 w))"
    using 2 by (simp add: worker_finish_inv worker_pick_inv)
  with 2 round_backlog [OF queue_inv_single, of w panic now] show ?case by simp
qed simp

lemma next_id_round:
  "qs_next_id (w_state (worker_finish panic k w)) = qs_next_id (w_state w)"
  "qs_next_id (w_state (worker_pick now k w)) = qs_next_id (w_state w)"
  by (auto simp: worker_finish_def worker_pick_def Let_def split: worker_pc.splits option.splits)

lemma drain_next_id: "qs_next_id (w_state (drain rounds w)) = qs_next_id (w_state w)"
  by (induction rounds w rule: drain.induct) (simp_all add: next_id_round)

lemma backlog_0: "queue_inv w \<Longrightarrow> backlog w = 0 \<Longrightarrow> w_workers w = [] \<and> qs_pending (w_state w) = []"
  by (auto split: list.splits worker_pc.splits)

lemma drained:
  assumes inv: "queue_inv w" and enough: "length (qs_pending (w_state w)) + 2 \<le> length rounds"
  shows "qs_pending (w_state (drain rounds w)) = [] \<and> w_workers (drain rounds w) = [] \<and>
    \<not> qs_processing (w_state (drain rounds w)) \<and>
    mset (map fst (w_completions (drain rounds w))) = mset [1..<qs_next_id (w_state w)]"
proof -
  have "backlog w \<le> length (qs_pending (w_state w)) + 2" by (simp split: list.split worker_pc.split)
  with drain_backlog [OF inv, of rounds] enough have "backlog (drain rounds w) = 0" by linarith
  from backlog_0 [OF drain_inv [OF inv] this]
  have z: "w_workers (drain rounds w) = []" "qs_pending (w_state (drain rounds w)) = []" by simp_all
  moreover have "\<not> qs_processing (w_state (drain rounds w))"
    using queue_inv_single [OF drain_inv [OF inv, of rounds]] z(1)
    by (auto simp: single_worker_def worker_ok_def)
  moreover have "accounted (drain rounds w) = mset [1..<qs_next_id (w_state w)]"
    using drain_inv [OF inv, of rounds] by (simp add: queue_inv_def drain_next_id del: mset_upt)
  ultimately show ?thesis by (simp add: accounted_def del: mset_upt)
qed

section \<open>Positions\<close>

text \<open>The position an item was last told, in the order the critical sections compute them.\<close>

definition told :: "queue_world \<Rightarrow> nat \<Rightarrow> nat option" where
  "told w i = map_of (rev (w_positions w)) i"

definition positions_ok :: "queue_world \<Rightarrow> bool" where
  "positions_ok w \<longleftrightarrow>
     (\<forall>k < length (qs_pending (w_state w)). qi_on_position_change (qs_pending (w_state w) ! k) \<longrightarrow>
        told w (qi_id (qs_pending (w_state w) ! k)) = Some (Suc k) \<or>
        (told w (qi_id (qs_pending (w_state w) ! k)) = None \<and> k = 0))"

definition told_known :: "queue_world \<Rightarrow> bool" where
  "told_known w \<longleftrightarrow> (\<forall>i \<in> fst ` set (w_positions w). i < qs_next_id (w_state w))"

definition position_inv :: "queue_world \<Rightarrow> bool" where
  "position_inv w \<longleftrightarrow> queue_inv w \<and> positions_ok w \<and> told_known w"

lemma queue_inv_ids:
  assumes "queue_inv w"
  shows "distinct (map qi_id (qs_pending (w_state w)))"
    and "\<And>i. i \<in> set (map qi_id (qs_pending (w_state w))) \<Longrightarrow> i < qs_next_id (w_state w)"
proof -
  have sub: "mset (map qi_id (qs_pending (w_state w))) \<subseteq># mset [1..<qs_next_id (w_state w)]"
    using assms unfolding queue_inv_def accounted_def by (metis mset_subset_eq_add_left add.assoc)
  then show "distinct (map qi_id (qs_pending (w_state w)))"
    unfolding distinct_count_atmost_1 using distinct_upt
    by (metis count_mset_0_iff distinct_count_atmost_1 le_zero_eq mset_subset_eq_count le_Suc_eq One_nat_def)
  fix i assume "i \<in> set (map qi_id (qs_pending (w_state w)))"
  with sub have "i \<in># mset [1..<qs_next_id (w_state w)]" by (metis in_multiset_in_set mset_subset_eqD)
  then show "i < qs_next_id (w_state w)" by simp
qed

lemma set_position_callbacks:
  "set (position_callbacks index pend) =
     {(qi_id (pend ! k), Suc k) |k. index \<le> k \<and> k < length pend \<and> qi_on_position_change (pend ! k)}"
proof (intro set_eqI iffI)
  fix x assume "x \<in> set (position_callbacks index pend)"
  then obtain n where "n < length pend - index" "qi_on_position_change (pend ! (index + n))"
      "x = (qi_id (pend ! (index + n)), Suc (index + n))"
    by (auto simp: position_callbacks_def in_set_enumerate_eq add.commute)
  then show "x \<in> {(qi_id (pend ! k), Suc k) |k. index \<le> k \<and> k < length pend \<and> qi_on_position_change (pend ! k)}"
    by (intro CollectI exI [of _ "index + n"]) auto
next
  fix x assume "x \<in> {(qi_id (pend ! k), Suc k) |k. index \<le> k \<and> k < length pend \<and> qi_on_position_change (pend ! k)}"
  then obtain k where k: "x = (qi_id (pend ! k), Suc k)" "index \<le> k" "k < length pend"
      "qi_on_position_change (pend ! k)" by blast
  then have "(k - index, pend ! k) \<in> set (List.enumerate 0 (drop index pend))"
    by (auto simp: in_set_enumerate_eq)
  with k show "x \<in> set (position_callbacks index pend)"
    by (force simp: position_callbacks_def)
qed

lemma told_callbacks:
  assumes d: "distinct (map qi_id pend)" and k: "k < length pend"
  shows "map_of (rev (position_callbacks index pend)) (qi_id (pend ! k)) =
    (if index \<le> k \<and> qi_on_position_change (pend ! k) then Some (Suc k) else None)"
proof -
  have inj: "j = k" if "qi_id (pend ! j) = qi_id (pend ! k)" "j < length pend" for j
    using that d k by (metis distinct_conv_nth length_map nth_map)
  show ?thesis
  proof (cases "map_of (rev (position_callbacks index pend)) (qi_id (pend ! k))")
    case None
    then have "qi_id (pend ! k) \<notin> fst ` set (position_callbacks index pend)"
      by (simp add: map_of_eq_None_iff)
    with None k show ?thesis by (force simp: set_position_callbacks)
  next
    case (Some p)
    then have "(qi_id (pend ! k), p) \<in> set (position_callbacks index pend)"
      using map_of_SomeD by fastforce
    with Some inj show ?thesis by (auto simp: set_position_callbacks)
  qed
qed

lemma told_append:
  "w_positions w' = w_positions w @ ps \<Longrightarrow>
   told w' i = (case map_of (rev ps) i of Some p \<Rightarrow> Some p | None \<Rightarrow> told w i)"
  by (simp add: told_def map_add_def split: option.split)

lemma position_inv_init: "position_inv queue_world_init"
  using queue_inv_init
  by (simp add: position_inv_def positions_ok_def told_known_def queue_world_init_def
      SequentialRipQueue_new_def)

lemma told_unknown: "told_known w \<Longrightarrow> told w (qs_next_id (w_state w)) = None"
  by (auto simp: told_known_def told_def map_of_eq_None_iff)

text \<open>A step that leaves the pending items and the positions alone.\<close>

lemma position_inv_quiet:
  assumes "position_inv w" and "queue_inv w'"
    and "qs_pending (w_state w') = qs_pending (w_state w) \<or> qs_pending (w_state w') = []"
    and "w_positions w' = w_positions w" and "qs_next_id (w_state w') = qs_next_id (w_state w)"
  shows "position_inv w'"
  using assms by (auto simp: position_inv_def positions_ok_def told_known_def told_def)

text \<open>Items from \<open>index\<close> on are told; the ones before keep their place.\<close>

lemma position_inv_removed:
  assumes pos: "position_inv w" and inv: "queue_inv w'" and k: "k < length (qs_pending (w_state w))"
    and index: "index \<le> k"
    and pend: "qs_pending (w_state w') = remove_at k (qs_pending (w_state w))"
    and posn: "w_positions w' = w_positions w @ position_callbacks index (qs_pending (w_state w'))"
    and nxt: "qs_next_id (w_state w') = qs_next_id (w_state w)"
  shows "position_inv w'"
proof -
  let ?p = "qs_pending (w_state w)" and ?p' = "qs_pending (w_state w')"
  note ids = queue_inv_ids [OF inv]
  have "told w' (qi_id (?p' ! j)) = Some (Suc j) \<or> (told w' (qi_id (?p' ! j)) = None \<and> j = 0)"
    if j: "j < length ?p'" and cb: "qi_on_position_change (?p' ! j)" for j
  proof (cases "index \<le> j")
    case True
    then show ?thesis by (simp add: told_append [OF posn] told_callbacks [OF ids(1) j] cb)
  next
    case False
    with j k index have same: "?p' ! j = ?p ! j" "j < length ?p" by (auto simp: pend nth_remove_at)
    have "told w' (qi_id (?p' ! j)) = told w (qi_id (?p' ! j))"
      using False by (simp add: told_append [OF posn] told_callbacks [OF ids(1) j])
    with same pos cb show ?thesis by (simp add: position_inv_def positions_ok_def)
  qed
  moreover have "told_known w'"
    using pos ids(2) by (auto simp: told_known_def posn nxt position_inv_def set_position_callbacks)
  ultimately show ?thesis using inv by (simp add: position_inv_def positions_ok_def)
qed

lemma submit_positions:
  assumes pos: "position_inv w"
  shows "position_inv (snd (submit now opts w))"
proof -
  define opt where "opt = (case opts of Some x \<Rightarrow> x | None \<Rightarrow> default_enqueue_options)"
  define w' where "w' = snd (submit now opts w)"
  define n where "n = qs_next_id (w_state w)"
  define p where "p = qs_pending (w_state w)"
  have inv: "queue_inv w'" using pos by (simp add: w'_def position_inv_def submit_inv)
  show ?thesis
  proof (cases "eo_signal opt = Some True")
    case True
    with pos show ?thesis by (simp add: submit_def Let_def opt_def)
  next
    case False
    define item where "item = \<lparr>qi_id = n, qi_on_position_change = eo_on_position_change opt,
      qi_on_start = eo_on_start opt, qi_priority = eo_priority opt, qi_enqueued_at = now\<rparr>"
    define ps where "ps = (if qs_processing (w_state w) \<and> eo_on_position_change opt
      then [(n, length p + 1)] else [])"
    have w': "qs_pending (w_state w') = p @ [item]" "w_positions w' = w_positions w @ ps"
        "qs_next_id (w_state w') = Suc n"
      using False by (simp_all add: w'_def submit_def Let_def opt_def n_def p_def item_def ps_def)
    have old: "told w' i = told w i" if "i < n" for i
      using that by (simp add: told_append [OF w'(2)] ps_def)
    have new: "told w' n = (if qs_processing (w_state w) \<and> eo_on_position_change opt
        then Some (Suc (length p)) else None)"
      using told_unknown [of w] pos by (simp add: told_append [OF w'(2)] ps_def position_inv_def n_def)
    have empty: "\<not> qs_processing (w_state w) \<Longrightarrow> p = []"
      using pos by (auto simp: position_inv_def queue_inv_def single_worker_def worker_ok_def p_def)
    have lt: "qi_id (p ! k) < n" if "k < length p" for k
      using queue_inv_ids(2) [of w "qi_id (p ! k)"] pos that by (simp add: position_inv_def p_def n_def)
    have "positions_ok w'"
      using pos new empty lt old
      by (auto simp: positions_ok_def position_inv_def w'(1) nth_append less_Suc_eq item_def
          p_def [symmetric])
    moreover have "told_known w'"
      using pos by (auto simp: told_known_def position_inv_def w' ps_def n_def)
    ultimately show ?thesis using inv by (simp add: position_inv_def w'_def)
  qed
qed

lemma position_inv_step: "position_inv w \<Longrightarrow> position_inv (queue_step w e)"
proof -
  assume pos: "position_inv w"
  then have inv: "queue_inv (queue_step w e)" by (simp add: position_inv_def queue_step_inv)
  show ?thesis
  proof (cases e)
    case (Submit now opts)
    with pos show ?thesis by (simp add: submit_positions)
  next
    case (Abort i)
    show ?thesis
    proof (cases "i \<in> set (w_watched w) \<and> find_item i (qs_pending (w_state w)) \<noteq> None")
      case True
      then obtain k where k: "find_item i (qs_pending (w_state w)) = Some k" by blast
      with True Abort find_item_Some [OF k] show ?thesis
        by (intro position_inv_removed [OF pos inv, of k k]) (simp_all add: abort_item_def Let_def)
    next
      case False
      with Abort show ?thesis
        by (intro position_inv_quiet [OF pos inv]) (auto simp: abort_item_def Let_def)
    qed
  next
    case (Pick now k)
    show ?thesis
    proof (cases "k < length (w_workers w) \<and> w_workers w ! k = AtLoop \<and> qs_pending (w_state w) \<noteq> []")
      case True
      with take_next_cases [of "qs_pending (w_state w)" now] obtain j where
        "chosen now (qs_pending (w_state w)) j" "take_next now (qs_pending (w_state w)) =
           Some (qs_pending (w_state w) ! j, remove_at j (qs_pending (w_state w)))" by auto
      with True Pick show ?thesis
        by (intro position_inv_removed [OF pos inv, of j 0]) (simp_all add: worker_pick_def chosen_def)
    next
      case False
      with Pick take_next_cases [of "qs_pending (w_state w)" now] show ?thesis
        by (intro position_inv_quiet [OF pos inv]) (auto simp: worker_pick_def chosen_def)
    qed
  qed (use position_inv_quiet [OF pos inv] in
      \<open>auto simp: abort_check_def clear_def worker_finish_def Let_def split: worker_pc.splits\<close>)
qed

interpretation positions: event_machine queue_world_init queue_step position_inv
  by unfold_locales (rule position_inv_init, rule position_inv_step)

section \<open>Aging\<close>

lemma as_secs_shift: "t + from_secs d \<le> u \<Longrightarrow> u \<le> now \<Longrightarrow> as_secs (now - u) + d \<le> as_secs (now - t)"
proof -
  assume "t + from_secs d \<le> u" "u \<le> now"
  then have "(now - u) + from_secs d \<le> now - t" by linarith
  then have "as_secs ((now - u) + from_secs d) \<le> as_secs (now - t)"
    unfolding as_secs_def by (rule div_le_mono)
  then show ?thesis by (simp add: as_secs_def from_secs_def)
qed

lemma item_score_eq:
  assumes "as_secs (now - qi_enqueued_at a) < 2 ^ 60"
  shows "item_score now a = 100 * sint (qi_priority a) + 5 * int (as_secs (now - qi_enqueued_at a))"
proof -
  have "unat (of_nat (as_secs (now - qi_enqueued_at a)) :: u64) = as_secs (now - qi_enqueued_at a)"
    using assms by (simp add: unat_of_nat)
  with assms show ?thesis by (simp add: item_score_def sint_effective_score del: unat_of_nat)
qed

lemma aging_score:
  assumes "qi_enqueued_at a + from_secs d \<le> qi_enqueued_at b" and "qi_enqueued_at b \<le> now"
    and "20 * (sint (qi_priority b) - sint (qi_priority a)) < int d"
    and "as_secs (now - qi_enqueued_at a) < 2 ^ 60"
  shows "item_score now b < item_score now a"
proof -
  have s: "as_secs (now - qi_enqueued_at b) + d \<le> as_secs (now - qi_enqueued_at a)"
    by (rule as_secs_shift [OF assms(1,2)])
  then have "int (as_secs (now - qi_enqueued_at b)) + int d \<le> int (as_secs (now - qi_enqueued_at a))"
    by linarith
  with s assms(3,4) show ?thesis by (simp add: item_score_eq)
qed

definition demo_item :: "nat \<Rightarrow> i16 \<Rightarrow> instant \<Rightarrow> queued_item" where
  "demo_item i p t = \<lparr>qi_id = i, qi_on_position_change = True, qi_on_start = False,
     qi_priority = p, qi_enqueued_at = t\<rparr>"

section \<open>Properties\<close>

text \<open>
  C39: The queue takes the pending item with the highest score and, among equally scored items, the
  one that was submitted first; the remaining items keep their order. It takes none only when
  none is pending.
\<close>

theorem take_next_spec:
  "take_next now pending =
     (if pending = [] then None
      else let k = (LEAST k. k < length pending \<and>
                     (\<forall>x \<in> set pending. item_score now x \<le> item_score now (pending ! k)))
           in Some (pending ! k, take k pending @ drop (Suc k) pending))"
proof (cases "pending = []")
  case False
  with take_next_cases [of pending now] obtain k where k: "chosen now pending k"
      "take_next now pending = Some (pending ! k, remove_at k pending)" by auto
  have "(LEAST k. k < length pending \<and>
      (\<forall>x \<in> set pending. item_score now x \<le> item_score now (pending ! k))) = k"
  proof (rule Least_equality)
    show "k < length pending \<and> (\<forall>x \<in> set pending. item_score now x \<le> item_score now (pending ! k))"
      using k(1) by (auto simp: chosen_def in_set_conv_nth)
    fix j assume j: "j < length pending \<and> (\<forall>x \<in> set pending. item_score now x \<le> item_score now (pending ! j))"
    show "k \<le> j"
    proof (rule ccontr)
      assume "\<not> k \<le> j"
      with k(1) have "item_score now (pending ! j) < item_score now (pending ! k)" by (simp add: chosen_def)
      moreover have "pending ! k \<in> set pending" using k(1) by (simp add: chosen_def)
      ultimately show False using j by fastforce
    qed
  qed
  with False k show ?thesis by (simp add: remove_at_def)
qed (simp add: take_next_def)

lemma take_next_spec_witness:
  "take_next 0 [demo_item 1 0 0] = Some (demo_item 1 0 0, []) \<and> take_next 0 [] = None"
proof -
  have "(LEAST k. k < length [demo_item 1 0 0] \<and>
      (\<forall>x \<in> set [demo_item 1 0 0]. item_score 0 x \<le> item_score 0 ([demo_item 1 0 0] ! k))) = 0"
    by (rule Least_equality) auto
  then have "take_next 0 [demo_item 1 0 0] = Some (demo_item 1 0 0, [])"
    by (subst take_next_spec) (simp only: Let_def if_False list.distinct, simp)
  then show ?thesis using take_next_spec [of 0 "[]"] by simp
qed

text \<open>
  C40: Waiting outweighs any score. A request that has waited longer than another by more than
  twenty seconds per point of score between them is served first: its score is strictly higher,
  so the queue never takes the other one while it is pending.
\<close>

theorem aging_prevents_starvation:
  assumes "i < length pending" and "j < length pending"
    and "qi_enqueued_at (pending ! i) + from_secs d \<le> qi_enqueued_at (pending ! j)"
    and "20 * (sint (qi_priority (pending ! j)) - sint (qi_priority (pending ! i))) < int d"
    and "qi_enqueued_at (pending ! j) \<le> now"
    and "as_secs (now - qi_enqueued_at (pending ! i)) < 2 ^ 60"
    and "distinct (map qi_id pending)"
  shows "\<exists>item rest. take_next now pending = Some (item, rest) \<and> qi_id item \<noteq> qi_id (pending ! j)"
proof -
  from assms(1) take_next_cases [of pending now] obtain k where k: "chosen now pending k"
      "take_next now pending = Some (pending ! k, remove_at k pending)" by force
  have "item_score now (pending ! j) < item_score now (pending ! i)"
    by (rule aging_score [OF assms(3,5,4,6)])
  with k(1) assms(1,2) have "k \<noteq> j" by (auto simp: chosen_def)
  moreover have "k < length pending" using k(1) by (simp add: chosen_def)
  ultimately have "qi_id (pending ! k) \<noteq> qi_id (pending ! j)"
    using assms(2,7) by (metis distinct_conv_nth length_map nth_map)
  with k(2) show ?thesis by simp
qed

theorem aging_prevents_starvation_witness:
  "\<exists>item rest. take_next (from_secs 9700) [demo_item 1 (- 320) 0, demo_item 2 160 (from_secs 9601)] =
     Some (item, rest) \<and> qi_id item \<noteq> 2"
  using aging_prevents_starvation [of 0 "[demo_item 1 (- 320) 0, demo_item 2 160 (from_secs 9601)]" 1 9601
      "from_secs 9700"]
  by (simp add: demo_item_def from_secs_def as_secs_def sint_word16_of_int [of "- 320", simplified]
      sint_word16_of_int [of 160, simplified])

text \<open>
  C6: In every interleaving of submissions, aborts, clears and worker steps, at most one worker
  exists and runs at most one task; the queue is marked as processing exactly while that worker
  exists and names the task it runs; no item waits without a worker; and every accepted
  submission is pending, running or completed exactly once.
\<close>

theorem queue_safety:
  "length (w_workers (queue_run es)) \<le> 1 \<and>
   (is_processing (w_state (queue_run es)) \<longleftrightarrow> w_workers (queue_run es) \<noteq> []) \<and>
   (get_pending_count (w_state (queue_run es)) = 0 \<or> w_workers (queue_run es) \<noteq> []) \<and>
   qs_active (w_state (queue_run es)) =
     (case running (w_workers (queue_run es)) of [] \<Rightarrow> None | i # _ \<Rightarrow> Some i) \<and>
   accounted (queue_run es) = mset [1..<qs_next_id (w_state (queue_run es))]"
proof -
  have inv: "queue_inv (queue_run es)" by (rule queue_run_inv)
  then have "accounted (queue_run es) = mset [1..<qs_next_id (w_state (queue_run es))]"
    by (simp add: queue_inv_def del: mset_upt)
  with queue_inv_single [OF inv] show ?thesis
    by (cases rule: single_worker_cases) (simp_all add: is_processing_def get_pending_count_def del: mset_upt)
qed

lemma queue_safety_witness:
  "length (w_workers (queue_run [Submit 0 None])) \<le> 1 \<and> w_workers (queue_run [Submit 0 None]) \<noteq> []"
proof -
  have "get_pending_count (w_state (queue_run [Submit 0 None])) = 1"
    by (simp add: queue_run_def queue_world_init_def SequentialRipQueue_new_def submit_def
        default_enqueue_options_def get_pending_count_def Let_def)
  with queue_safety [of "[Submit 0 None]"] show ?thesis by simp
qed

text \<open>
  C7: The queue drains. From every reachable state, once submissions stop, the worker needs at
  most two rounds more than there are pending items: then nothing is pending, no worker is left
  and every accepted submission has exactly one completion, whatever the tasks' outcomes and
  whichever order the scores dictate.
\<close>

theorem queue_drains:
  assumes "get_pending_count (w_state (queue_run es)) + 2 \<le> length rounds"
  shows "qs_pending (w_state (drain rounds (queue_run es))) = [] \<and>
    w_workers (drain rounds (queue_run es)) = [] \<and>
    \<not> is_processing (w_state (drain rounds (queue_run es))) \<and>
    mset (map fst (w_completions (drain rounds (queue_run es)))) =
      mset [1..<qs_next_id (w_state (queue_run es))]"
  using drained [OF queue_run_inv] assms by (simp add: is_processing_def get_pending_count_def del: mset_upt)

theorem queue_drains_witness:
  "map fst (w_completions (drain [(0, None), (0, None), (0, Some ''boom''), (0, None)]
     (queue_run [Submit 0 None, Submit 0 None]))) \<noteq> [] \<and>
   qs_pending (w_state (drain [(0, None), (0, None), (0, Some ''boom''), (0, None)]
     (queue_run [Submit 0 None, Submit 0 None]))) = []"
proof -
  have p: "get_pending_count (w_state (queue_run [Submit 0 None, Submit 0 None])) + 2 \<le>
      length [(0 :: instant, None), (0, None), (0, Some ''boom''), (0, None)]"
    by (simp add: queue_run_def queue_world_init_def SequentialRipQueue_new_def submit_def
        default_enqueue_options_def get_pending_count_def Let_def)
  have n: "qs_next_id (w_state (queue_run [Submit 0 None, Submit 0 None])) = 3"
    by (simp add: queue_run_def queue_world_init_def SequentialRipQueue_new_def submit_def
        default_enqueue_options_def Let_def)
  from queue_drains [OF p] show ?thesis unfolding n by (auto simp: numeral_eq_Suc)
qed

text \<open>
  Queue positions are current. After every interleaving, each pending item with a position
  callback has last been told its place in the queue, counted from one; only the item that
  started the worker, at the front, has not been told anything yet.
\<close>

theorem queue_positions_current:
  assumes "k < get_pending_count (w_state (queue_run es))"
    and "qi_on_position_change (qs_pending (w_state (queue_run es)) ! k)"
  shows "told (queue_run es) (qi_id (qs_pending (w_state (queue_run es)) ! k)) = Some (k + 1) \<or>
    told (queue_run es) (qi_id (qs_pending (w_state (queue_run es)) ! k)) = None \<and> k = 0"
  using positions.inv_run [of es] assms
  by (simp add: queue_run_def position_inv_def positions_ok_def get_pending_count_def)

definition demo_submit :: queue_event where
  "demo_submit = Submit 0 (Some (default_enqueue_options\<lparr>eo_on_position_change := True\<rparr>))"

theorem queue_positions_current_witness:
  "told (queue_run [demo_submit, demo_submit])
     (qi_id (qs_pending (w_state (queue_run [demo_submit, demo_submit])) ! 1)) = Some 2"
  using queue_positions_current [of 1 "[demo_submit, demo_submit]"]
  by (simp add: demo_submit_def queue_run_def queue_world_init_def SequentialRipQueue_new_def submit_def
      default_enqueue_options_def Let_def get_pending_count_def)

end
