(* ===== verification/Task_Model.thy ===== *)
theory Task_Model
  imports Music
begin

text \<open>
  The state of a rip task as the rest of the system sees it: phases, activities and lanes of
  \<open>crates/engine/src/orchestrator/types.rs\<close>, and the task records and snapshots of
  \<open>crates/server/src/rip_tasks.rs\<close>. Percentages are \<open>f32\<close> values that these parts only store and copy;
  they are kept as their 32-bit patterns.
\<close>

type_synonym f32 = "32 word"

section \<open>Phases and activities\<close>

datatype task_phase = Resolving | CheckingCache | Queued | Processing | Delivering | WaitingDuplicate

datatype task_activity =
  ActResolving
| ActCheckingCache string
| ActQueued nat
| ActSkippingUncached
| ActCachedDelivered
| ActProcessingNext
| ActWaitingDuplicate string

fun is_working :: "task_phase \<Rightarrow> bool" where
  "is_working p = (p \<in> {Resolving, CheckingCache, Processing})"

fun has_lane_activity :: "task_phase \<Rightarrow> bool" where
  "has_lane_activity p = (p \<notin> {Queued, WaitingDuplicate})"

fun display_rank :: "task_phase \<Rightarrow> nat" where
  "display_rank Queued = 1"
| "display_rank WaitingDuplicate = 2"
| "display_rank _ = 0"

text \<open>A queue position that does not fit \<open>u32\<close> is shown as the first one.\<close>

fun fallback_activity :: "task_phase \<Rightarrow> string \<Rightarrow> nat option \<Rightarrow> task_activity option" where
  "fallback_activity Resolving header queue_position = Some ActResolving"
| "fallback_activity CheckingCache header queue_position = Some (ActCheckingCache header)"
| "fallback_activity Queued header queue_position =
     Some (ActQueued (case queue_position of
                        Some position \<Rightarrow> if position < 2 ^ 32 then position else 1
                      | None \<Rightarrow> 1))"
| "fallback_activity Delivering header queue_position = Some ActCachedDelivered"
| "fallback_activity Processing header queue_position = None"
| "fallback_activity WaitingDuplicate header queue_position = None"

fun activity_stage_name :: "task_activity \<Rightarrow> string" where
  "activity_stage_name ActResolving = ''resolving''"
| "activity_stage_name (ActCheckingCache _) = ''checking_cache''"
| "activity_stage_name (ActQueued _) = ''queued''"
| "activity_stage_name ActSkippingUncached = ''skipping_uncached''"
| "activity_stage_name ActCachedDelivered = ''cached_delivered''"
| "activity_stage_name ActProcessingNext = ''processing_next''"
| "activity_stage_name (ActWaitingDuplicate _) = ''waiting_duplicate''"

section \<open>Lanes\<close>

record byte_progress =
  bp_completed :: nat
  bp_total :: "nat option"

record track_label =
  lb_title :: string
  lb_artist :: string
  lb_artwork_url :: "string option"
  lb_track_index :: "nat option"
  lb_total_tracks :: "nat option"

definition TrackLabel_new :: "string \<Rightarrow> string \<Rightarrow> track_label" where
  "TrackLabel_new title artist =
     \<lparr>lb_title = title, lb_artist = artist, lb_artwork_url = None, lb_track_index = None,
      lb_total_tracks = None\<rparr>"

definition with_position :: "track_label \<Rightarrow> nat option \<Rightarrow> nat option \<Rightarrow> track_label" where
  "with_position l track_index total_tracks =
     l\<lparr>lb_track_index := track_index, lb_total_tracks := total_tracks\<rparr>"

definition with_artwork_url :: "track_label \<Rightarrow> string option \<Rightarrow> track_label" where
  "with_artwork_url l artwork_url =
     l\<lparr>lb_artwork_url := (case artwork_url of Some u \<Rightarrow> if u = [] then None else Some u | None \<Rightarrow> None)\<rparr>"

datatype rip_activity =
  ResolvingMetadata
| Connecting track_label
| Downloading track_label byte_progress
| MaterializingCachedMedia track_label byte_progress
| Decrypting track_label
| Tagging track_label

fun rip_stage_name :: "rip_activity \<Rightarrow> string" where
  "rip_stage_name ResolvingMetadata = ''resolving_metadata''"
| "rip_stage_name (Connecting _) = ''connecting''"
| "rip_stage_name (Downloading _ _) = ''downloading''"
| "rip_stage_name (MaterializingCachedMedia _ _) = ''materializing_cached_media''"
| "rip_stage_name (Decrypting _) = ''decrypting''"
| "rip_stage_name (Tagging _) = ''tagging''"

fun rip_track :: "rip_activity \<Rightarrow> track_label option" where
  "rip_track ResolvingMetadata = None"
| "rip_track (Connecting t) = Some t"
| "rip_track (Downloading t _) = Some t"
| "rip_track (MaterializingCachedMedia t _) = Some t"
| "rip_track (Decrypting t) = Some t"
| "rip_track (Tagging t) = Some t"

fun rip_byte_progress :: "rip_activity \<Rightarrow> byte_progress option" where
  "rip_byte_progress (Downloading _ p) = Some p"
| "rip_byte_progress (MaterializingCachedMedia _ p) = Some p"
| "rip_byte_progress _ = None"

datatype download_lane = Rip rip_activity | CachedDelivery track_label

fun download_stage_name :: "download_lane \<Rightarrow> string" where
  "download_stage_name (Rip a) = rip_stage_name a"
| "download_stage_name (CachedDelivery _) = ''cached_delivery''"

fun download_track :: "download_lane \<Rightarrow> track_label option" where
  "download_track (Rip a) = rip_track a"
| "download_track (CachedDelivery t) = Some t"

fun download_byte_progress :: "download_lane \<Rightarrow> byte_progress option" where
  "download_byte_progress (Rip a) = rip_byte_progress a"
| "download_byte_progress (CachedDelivery _) = None"

datatype upload_lane =
  TrackUpload track_label byte_progress "nat option" "i32 option"
| ArchiveBuild string byte_progress
| ArchiveUpload string byte_progress "nat option" "i32 option"

definition ARCHIVE_BUILD_STAGE :: string where "ARCHIVE_BUILD_STAGE = ''building_archive''"
definition ARCHIVE_UPLOAD_STAGE :: string where "ARCHIVE_UPLOAD_STAGE = ''uploading_archive''"

fun upload_byte_progress :: "upload_lane \<Rightarrow> byte_progress" where
  "upload_byte_progress (TrackUpload _ p _ _) = p"
| "upload_byte_progress (ArchiveBuild _ p) = p"
| "upload_byte_progress (ArchiveUpload _ p _ _) = p"

fun upload_worker_id :: "upload_lane \<Rightarrow> nat option" where
  "upload_worker_id (TrackUpload _ _ w _) = w"
| "upload_worker_id (ArchiveUpload _ _ w _) = w"
| "upload_worker_id (ArchiveBuild _ _) = None"

fun upload_dc_id :: "upload_lane \<Rightarrow> i32 option" where
  "upload_dc_id (TrackUpload _ _ _ d) = d"
| "upload_dc_id (ArchiveUpload _ _ _ d) = d"
| "upload_dc_id (ArchiveBuild _ _) = None"

fun upload_track_index :: "upload_lane \<Rightarrow> nat option" where
  "upload_track_index (TrackUpload t _ _ _) = lb_track_index t"
| "upload_track_index _ = None"

fun is_archive :: "upload_lane \<Rightarrow> bool" where
  "is_archive (ArchiveBuild _ _) = True"
| "is_archive (ArchiveUpload _ _ _ _) = True"
| "is_archive (TrackUpload _ _ _ _) = False"

definition is_archive_stage :: "string \<Rightarrow> bool" where
  "is_archive_stage stage \<longleftrightarrow> stage = ARCHIVE_BUILD_STAGE \<or> stage = ARCHIVE_UPLOAD_STAGE"

fun upload_stage_name :: "upload_lane \<Rightarrow> string" where
  "upload_stage_name (TrackUpload _ _ _ _) = ''uploading_track''"
| "upload_stage_name (ArchiveBuild _ _) = ARCHIVE_BUILD_STAGE"
| "upload_stage_name (ArchiveUpload _ _ _ _) = ARCHIVE_UPLOAD_STAGE"

section \<open>Server tasks\<close>

record rip_task_request =
  rr_track_id :: "string option"
  rr_album_id :: "string option"

definition nonblank :: "string option \<Rightarrow> string option" where
  "nonblank s = (case map_option trim s of Some t \<Rightarrow> if t = [] then None else Some t | None \<Rightarrow> None)"

definition target :: "rip_task_request \<Rightarrow> (string \<times> bool) option" where
  "target r =
     (case nonblank (rr_album_id r) of
        Some album_id \<Rightarrow> Some (album_id, True)
      | None \<Rightarrow> (case nonblank (rr_track_id r) of
                   Some track_id \<Rightarrow> Some (track_id, False)
                 | None \<Rightarrow> None))"

type_synonym rip_task_stage = string

record lane_view =
  lv_stage :: rip_task_stage
  lv_title :: "string option"
  lv_artist :: "string option"
  lv_artwork_url :: "string option"
  lv_bytes_done :: "nat option"
  lv_bytes_total :: "nat option"
  lv_percent :: "f32 option"
  lv_codec :: "string option"
  lv_track_index :: "nat option"
  lv_total_tracks :: "nat option"

type_synonym rip_task_download_lane = lane_view

record rip_task_upload_lane = lane_view +
  lv_worker_id :: "nat option"
  lv_dc_id :: "i32 option"

record rip_task_progress =
  rp_job_stage :: "rip_task_stage option"
  rp_download :: "rip_task_download_lane option"
  rp_upload :: "rip_task_upload_lane option"
  rp_uploads :: "rip_task_upload_lane list"
  rp_percent :: "f32 option"
  rp_current_track_title :: "string option"
  rp_current_track_artist :: "string option"
  rp_current_track_artwork_url :: "string option"
  rp_current_track_index :: "nat option"
  rp_total_tracks :: "nat option"
  rp_completed_tracks :: "nat option"
  rp_failed_tracks :: "nat option"

text \<open>The cancellation token of a task is named by a number.\<close>

record server_task_meta =
  tm_task_id :: string
  tm_rip_task_id :: string
  tm_owner_id :: i64
  tm_track_id :: string
  tm_task_codec :: "string option"
  tm_title :: "string option"
  tm_artist :: "string option"
  tm_album :: "string option"
  tm_duration :: "i32 option"
  tm_artwork_url :: "string option"
  tm_controller :: nat
  tm_created_at :: instant
  tm_latest_progress :: rip_task_progress
  tm_is_album :: bool
  tm_completed :: bool
  tm_result_track_id :: "i32 option"
  tm_error :: "string option"

record rip_task_snapshot =
  sn_task_id :: string
  sn_source_track_id :: string
  sn_title :: "string option"
  sn_artist :: "string option"
  sn_album :: "string option"
  sn_duration :: "i32 option"
  sn_artwork_url :: "string option"
  sn_progress :: rip_task_progress
  sn_result_track_id :: "i32 option"
  sn_is_cached :: "bool option"
  sn_completed :: bool
  sn_error :: "string option"
  sn_owner_id :: "i64 option"
  sn_is_owner :: bool
  sn_is_album :: bool

text \<open>A snapshot has the fields of the progress record beside its own; they are kept together.\<close>

definition task_snapshot :: "server_task_meta \<Rightarrow> bool \<Rightarrow> rip_task_snapshot" where
  "task_snapshot t is_owner =
     \<lparr>sn_task_id = tm_task_id t, sn_source_track_id = tm_track_id t, sn_title = tm_title t,
      sn_artist = tm_artist t, sn_album = tm_album t, sn_duration = tm_duration t,
      sn_artwork_url = tm_artwork_url t, sn_progress = tm_latest_progress t,
      sn_result_track_id = tm_result_track_id t, sn_is_cached = None,
      sn_completed = tm_completed t, sn_error = tm_error t, sn_owner_id = Some (tm_owner_id t),
      sn_is_owner = is_owner, sn_is_album = tm_is_album t\<rparr>"

datatype task_sync_event = Updated string | Dismissed string

section \<open>Facts\<close>

lemma nonblank_nonempty: "nonblank s = Some t \<Longrightarrow> t \<noteq> []"
  by (auto simp: nonblank_def split: option.splits if_splits)

lemma target_nonempty: "target r = Some (t, b) \<Longrightarrow> t \<noteq> []"
  by (auto simp: target_def split: option.splits dest: nonblank_nonempty)

text \<open>
  The stage vocabulary is unambiguous: an upload stage name is an archive stage exactly for
  lanes that move archives, and no download stage, upload stage or activity shares its name with
  one of another kind.
\<close>

theorem stage_names_unambiguous:
  "is_archive_stage (upload_stage_name u) = is_archive u \<and>
   upload_stage_name u \<noteq> download_stage_name d \<and>
   upload_stage_name u \<noteq> activity_stage_name a \<and>
   download_stage_name d \<noteq> activity_stage_name a"
proof -
  have r: "rip_stage_name x \<noteq> upload_stage_name u \<and> rip_stage_name x \<noteq> activity_stage_name a" for x
    by (cases x; cases u; cases a) (simp_all add: ARCHIVE_BUILD_STAGE_def ARCHIVE_UPLOAD_STAGE_def)
  have "upload_stage_name u \<noteq> activity_stage_name a"
    by (cases u; cases a) (simp_all add: ARCHIVE_BUILD_STAGE_def ARCHIVE_UPLOAD_STAGE_def)
  moreover have "is_archive_stage (upload_stage_name u) = is_archive u"
    by (cases u) (simp_all add: is_archive_stage_def ARCHIVE_BUILD_STAGE_def ARCHIVE_UPLOAD_STAGE_def)
  moreover have "''cached_delivery'' \<noteq> upload_stage_name u" "''cached_delivery'' \<noteq> activity_stage_name a"
    by (cases u; simp add: ARCHIVE_BUILD_STAGE_def ARCHIVE_UPLOAD_STAGE_def) (cases a; simp)
  ultimately show ?thesis using r by (cases d) (auto simp: eq_commute)
qed

end
