(* ===== verification/Task_Registry.thy ===== *)
theory Task_Registry
  imports Task_Model
begin

text \<open>
  The registry of in-flight rip tasks, \<open>crates/server/src/task_registry.rs\<close>. Each method takes the
  lock once, so each is one function of the map. The registry provides the store its clients use:
  the interface \<open>task_store\<close> below states what they rely on.
\<close>

type_synonym task_registry = "(string, server_task_meta) hash_map"

datatype task_removal_rejected = TaskRemovalRejected

definition registry_insert :: "string \<Rightarrow> server_task_meta \<Rightarrow> task_registry \<Rightarrow> task_registry" where
  "registry_insert task_id meta tasks = hm_insert task_id meta tasks"

definition registry_remove ::
  "string \<Rightarrow> task_registry \<Rightarrow> server_task_meta option \<times> task_registry" where
  "registry_remove task_id tasks = (hm_get tasks task_id, hm_remove task_id tasks)"

definition remove_if ::
  "string \<Rightarrow> (server_task_meta \<Rightarrow> bool) \<Rightarrow> task_registry \<Rightarrow>
   (task_removal_rejected + server_task_meta option) \<times> task_registry" where
  "remove_if task_id allow tasks =
     (case hm_get tasks task_id of
        None \<Rightarrow> (Inr None, tasks)
      | Some task \<Rightarrow>
          if \<not> allow task then (Inl TaskRemovalRejected, tasks)
          else (Inr (hm_get tasks task_id), hm_remove task_id tasks))"

definition insert_unique ::
  "server_task_meta \<Rightarrow> (server_task_meta \<Rightarrow> server_task_meta \<Rightarrow> bool) \<Rightarrow> task_registry \<Rightarrow>
   (string + string) \<times> task_registry" where
  "insert_unique meta equivalent tasks =
     (case List.find (\<lambda>task. equivalent task meta) (hm_values tasks) of
        Some existing \<Rightarrow> (Inl (tm_task_id existing), tasks)
      | None \<Rightarrow>
          (let task_id = tm_task_id meta
           in (Inr task_id, hm_insert task_id meta tasks)))"

definition registry_get :: "string \<Rightarrow> task_registry \<Rightarrow> server_task_meta option" where
  "registry_get task_id tasks = hm_get tasks task_id"

definition registry_contains_key :: "string \<Rightarrow> task_registry \<Rightarrow> bool" where
  "registry_contains_key task_id tasks = (hm_get tasks task_id \<noteq> None)"

definition registry_len :: "task_registry \<Rightarrow> nat" where
  "registry_len tasks = length tasks"

definition registry_is_empty :: "task_registry \<Rightarrow> bool" where
  "registry_is_empty tasks = (tasks = [])"

definition registry_all :: "task_registry \<Rightarrow> server_task_meta list" where
  "registry_all tasks = hm_values tasks"

definition registry_update ::
  "string \<Rightarrow> (server_task_meta \<Rightarrow> server_task_meta) \<Rightarrow> task_registry \<Rightarrow> bool \<times> task_registry" where
  "registry_update task_id upd tasks =
     (case hm_get tasks task_id of
        None \<Rightarrow> (False, tasks)
      | Some task \<Rightarrow> (True, hm_insert task_id (upd task) tasks))"

definition update_and_get ::
  "string \<Rightarrow> (server_task_meta \<Rightarrow> server_task_meta) \<Rightarrow> task_registry \<Rightarrow>
   server_task_meta option \<times> task_registry" where
  "update_and_get task_id upd tasks =
     (case hm_get tasks task_id of
        None \<Rightarrow> (None, tasks)
      | Some task \<Rightarrow> (Some (upd task), hm_insert task_id (upd task) tasks))"

text \<open>\<open>values_mut().find(..)\<close>: the first entry in iteration order is changed in place.\<close>

fun update_first_value ::
  "(server_task_meta \<Rightarrow> bool) \<Rightarrow> (server_task_meta \<Rightarrow> server_task_meta) \<Rightarrow> task_registry \<Rightarrow>
   server_task_meta option \<times> task_registry" where
  "update_first_value matches upd [] = (None, [])"
| "update_first_value matches upd ((k, task) # rest) =
     (if matches task then (Some (upd task), (k, upd task) # rest)
      else let (r, rest') = update_first_value matches upd rest in (r, (k, task) # rest'))"

definition update_first_matching ::
  "(server_task_meta \<Rightarrow> bool) \<Rightarrow> (server_task_meta \<Rightarrow> server_task_meta) \<Rightarrow> task_registry \<Rightarrow>
   server_task_meta option \<times> task_registry" where
  "update_first_matching matches upd tasks = update_first_value matches upd tasks"

section \<open>The interface of the registry\<close>

text \<open>
  What a client may rely on: reservations are refused exactly when an equivalent task is there,
  removals are authorised by the stored task, and neither touches another task.
\<close>

locale task_store =
  fixes get :: "string \<Rightarrow> 'r \<Rightarrow> server_task_meta option"
    and reserve :: "server_task_meta \<Rightarrow> (server_task_meta \<Rightarrow> server_task_meta \<Rightarrow> bool) \<Rightarrow> 'r \<Rightarrow>
      (string + string) \<times> 'r"
    and discard :: "string \<Rightarrow> (server_task_meta \<Rightarrow> bool) \<Rightarrow> 'r \<Rightarrow>
      (task_removal_rejected + server_task_meta option) \<times> 'r"
    and invar :: "'r \<Rightarrow> bool"
  assumes reserve_new: "invar r \<Longrightarrow> reserve m eq r = (Inr i, r') \<Longrightarrow>
      i = tm_task_id m \<and> invar r' \<and> (\<forall>k t. get k r = Some t \<longrightarrow> \<not> eq t m) \<and>
      (\<forall>k. get k r' = (if k = tm_task_id m then Some m else get k r))"
    and reserve_old: "invar r \<Longrightarrow> reserve m eq r = (Inl i, r') \<Longrightarrow>
      r' = r \<and> (\<exists>k t. get k r = Some t \<and> eq t m \<and> i = tm_task_id t)"
    and discard_result: "invar r \<Longrightarrow> discard k allow r = (res, r') \<Longrightarrow>
      (case get k r of
         None \<Rightarrow> res = Inr None \<and> r' = r
       | Some t \<Rightarrow> if allow t
                   then res = Inr (Some t) \<and> invar r' \<and>
                     (\<forall>k'. get k' r' = (if k' = k then None else get k' r))
                   else res = Inl TaskRemovalRejected \<and> r' = r)"
begin

text \<open>No two stored tasks are equivalent, whatever sequence of reservations was made.\<close>

definition unique_by :: "(server_task_meta \<Rightarrow> server_task_meta \<Rightarrow> bool) \<Rightarrow> 'r \<Rightarrow> bool" where
  "unique_by eq r \<longleftrightarrow> (\<forall>k k' t t'. get k r = Some t \<longrightarrow> get k' r = Some t' \<longrightarrow> eq t t' \<longrightarrow> k = k')"

lemma reserve_unique:
  assumes "invar r" and "unique_by eq r" and "\<And>a b. eq a b = eq b a"
    and "reserve m eq r = (res, r')"
  shows "invar r' \<and> unique_by eq r'"
proof (cases res)
  case (Inl i)
  with reserve_old [OF assms(1), of m eq i r'] assms show ?thesis by simp
next
  case (Inr i)
  with reserve_new [OF assms(1), of m eq i r'] assms show ?thesis
    unfolding unique_by_def by (metis option.inject)
qed

lemma discard_unique:
  assumes "invar r" and "unique_by eq r" and "discard k allow r = (res, r')"
  shows "invar r' \<and> unique_by eq r'"
  using discard_result [OF assms(1,3)] assms(1,2)
  unfolding unique_by_def by (cases "get k r") (auto split: if_splits)

lemma discard_only_allowed:
  assumes "invar r" and "discard k allow r = (res, r')" and "get k' r = Some t" and "get k' r' \<noteq> Some t"
  shows "k' = k \<and> allow t"
  using discard_result [OF assms(1,2)] assms(3,4) by (cases "get k r") (auto split: if_splits)

end

lemma find_values:
  "hm_invar m \<Longrightarrow> List.find P (hm_values m) = Some t \<Longrightarrow> P t \<and> (\<exists>k. hm_get m k = Some t)"
  by (metis find_Some_iff nth_mem hm_values_get)

lemma find_values_None:
  "hm_invar m \<Longrightarrow> List.find P (hm_values m) = None \<longleftrightarrow> (\<forall>k t. hm_get m k = Some t \<longrightarrow> \<not> P t)"
  by (metis find_None_iff hm_values_get)

interpretation registry: task_store registry_get insert_unique remove_if hm_invar
proof (unfold_locales, goal_cases)
  case (1 r m eq i r')
  then show ?case
    using find_values_None [of r "\<lambda>t. eq t m"]
    by (auto simp: insert_unique_def registry_get_def hm_get_insert hm_invar_insert Let_def
        split: option.splits)
next
  case (2 r m eq i r')
  then show ?case
    using find_values [of r "\<lambda>t. eq t m"]
    by (auto simp: insert_unique_def registry_get_def Let_def split: option.splits)
next
  case (3 r k allow res r')
  then show ?case
    by (auto simp: remove_if_def registry_get_def hm_get_remove hm_invar_remove split: option.splits if_splits)
qed

section \<open>Updates\<close>

lemma update_first_value_keys: "map fst (snd (update_first_value P f m)) = map fst m"
  by (induction P f m rule: update_first_value.induct) (auto split: prod.splits)

lemma update_first_matching_invar: "hm_invar m \<Longrightarrow> hm_invar (snd (update_first_matching P f m))"
  by (simp add: hm_invar_def update_first_matching_def update_first_value_keys)

lemma update_first_value_result:
  "update_first_value P f m = (r, m') \<Longrightarrow>
     (r = None \<and> m' = m \<and> (\<forall>(k, t) \<in> set m. \<not> P t)) \<or>
     (\<exists>k t. r = Some (f t) \<and> (k, t) \<in> set m \<and> P t \<and> (k, f t) \<in> set m' \<and>
        set m' \<subseteq> insert (k, f t) (set m))"
proof (induction P f m arbitrary: r m' rule: update_first_value.induct)
  case (2 P f k t rest)
  show ?case
  proof (cases "P t")
    case True
    with "2.prems" show ?thesis by (intro disjI2 exI [of _ k] exI [of _ t]) auto
  next
    case False
    obtain q rest' where q: "update_first_value P f rest = (q, rest')"
      by (cases "update_first_value P f rest")
    with "2.prems" False have "r = q" "m' = (k, t) # rest'" by auto
    with "2.IH" [OF False q] False show ?thesis by auto
  qed
qed simp

end
