(* ===== verification/Lookup.thy ===== *)
theory Lookup
  imports Stream_Engine
begin

text \<open>
  The errors of the HTTP server (\<open>crates/server/src/error.rs\<close>) and the lookup endpoint
  (\<open>crates/server/src/lookup.rs\<close>): which formats of the requested tracks and which complete archives of
  the requested albums are cached. The answers of the database are arguments; file sizes come
  from the stream engine. The three queries run together and the first failure is reported; the
  model takes them in the order they are written. A \<open>HashMap\<close> is an association list, its order the iteration order.
\<close>

section \<open>Server errors\<close>

datatype server_error =
  Unauthorized string | Forbidden string | NotFound string | BadRequest string | Internal string

fun ServerError_from_db :: "db_error \<Rightarrow> server_error" where
  "ServerError_from_db (DbNotFound msg) = NotFound msg"
| "ServerError_from_db (DbUnauthorized msg) = Unauthorized msg"
| "ServerError_from_db (DbValidation msg) = BadRequest msg"
| "ServerError_from_db (DbDatabase e) = Internal e"
| "ServerError_from_db (DbPool e) = Internal e"
| "ServerError_from_db (DbMigration e) = Internal e"
| "ServerError_from_db (DbRow e) = Internal e"

fun ServerError_from_stream :: "stream_error \<Rightarrow> server_error" where
  "ServerError_from_stream (TrackNotFound i) = NotFound (''Track '' @ show_int i @ '' not found'')"
| "ServerError_from_stream (NoMediaDocument i) =
     NotFound (''No media document found for track '' @ show_int i)"
| "ServerError_from_stream (InvalidRange msg) = BadRequest msg"
| "ServerError_from_stream FileReferenceExpired = Internal ''Telegram file reference expired''"
| "ServerError_from_stream (FloodWaitError secs) =
     Internal (''Telegram flood wait: '' @ show_nat secs @ ''s'')"
| "ServerError_from_stream AllWorkersUnavailable =
     Internal ''All streaming workers are currently unavailable''"
| "ServerError_from_stream UnsupportedCdnRedirect = Internal ''Unsupported CDN redirect''"
| "ServerError_from_stream (ChunkFetchFailed msg) = Internal msg"
| "ServerError_from_stream (Connect e) = Internal e"
| "ServerError_from_stream (Telegram e) = Internal (err_text e)"
| "ServerError_from_stream (Db e) = ServerError_from_db e"

text \<open>The status, the code and the message of the response; internal details stay inside.\<close>

fun into_response :: "server_error \<Rightarrow> nat \<times> string \<times> string" where
  "into_response (Unauthorized msg) = (401, ''UNAUTHORIZED'', msg)"
| "into_response (Forbidden msg) = (403, ''FORBIDDEN'', msg)"
| "into_response (NotFound msg) = (404, ''NOT_FOUND'', msg)"
| "into_response (BadRequest msg) = (400, ''BAD_REQUEST'', msg)"
| "into_response (Internal msg) =
     (500, ''INTERNAL_SERVER_ERROR'', ''An internal server error occurred'')"

section \<open>Ids\<close>

definition quoted :: "string \<Rightarrow> string" where
  "quoted s = CHR 0x27 # s @ [CHR 0x27]"

fun normalize_loop :: "string \<Rightarrow> string list \<Rightarrow> string list \<Rightarrow> server_error + string list" where
  "normalize_loop field unique_ids [] = Inr unique_ids"
| "normalize_loop field unique_ids (x # xs) =
     (let i = trim x
      in if i = [] then Inl (BadRequest (''IDs in '' @ quoted field @ '' must not be empty''))
         else normalize_loop field (if i \<in> set unique_ids then unique_ids else unique_ids @ [i]) xs)"

definition normalize_ids :: "string list option \<Rightarrow> string \<Rightarrow> server_error + string list" where
  "normalize_ids ids field =
     normalize_loop field [] (case ids of Some xs \<Rightarrow> xs | None \<Rightarrow> [])"

section \<open>Archives\<close>

record album_row =
  al_id :: i32
  al_album_id :: string
  al_codec :: codec
  al_part_index :: i32
  al_total_parts :: i32
  al_file_size :: i64
  al_generation_hash :: string

text \<open>The loop over the parts with its table \<open>seen_parts\<close>; \<open>None\<close> is the early \<open>return false\<close>.\<close>

fun mark_parts :: "album_row \<Rightarrow> bool list \<Rightarrow> album_row list \<Rightarrow> bool list option" where
  "mark_parts first seen_parts [] = Some seen_parts"
| "mark_parts first seen_parts (part # parts) =
     (if al_total_parts part \<noteq> al_total_parts first \<or>
         al_generation_hash part \<noteq> al_generation_hash first then None
      else if al_part_index part - 1 < 0 then None
      else let i = nat (al_part_index part - 1)
           in if \<not> i < length seen_parts then None
              else if seen_parts ! i then None
              else mark_parts first (seen_parts[i := True]) parts)"

definition has_complete_archive_parts :: "album_row list \<Rightarrow> bool" where
  "has_complete_archive_parts parts =
     (case parts of
        [] \<Rightarrow> False
      | first # _ \<Rightarrow>
          if al_total_parts first < 0 then False
          else
            let expected_parts = nat (al_total_parts first)
            in if expected_parts = 0 \<or> length parts \<noteq> expected_parts then False
               else case mark_parts first (replicate expected_parts False) parts of
                      None \<Rightarrow> False
                    | Some seen_parts \<Rightarrow> list_all id seen_parts)"

fun apple_format :: "codec \<Rightarrow> string option" where
  "apple_format Alac = Some ''alac''"
| "apple_format Aac = Some ''aac''"
| "apple_format Ec3 = Some ''ec-3''"

record track_format_result =
  tf_id :: i32
  tf_format :: string
  tf_file_size_bytes :: "nat option"

record album_zip_part_result =
  zp_id :: i32
  zp_format :: string
  zp_file_size_bytes :: nat
  zp_part :: i32
  zp_total_parts :: i32

definition ordered_track_formats ::
  "(codec, i32 \<times> nat option) hash_map \<Rightarrow> track_format_result list" where
  "ordered_track_formats formats =
     List.map_filter
       (\<lambda>c. case hm_get formats c of
              None \<Rightarrow> None
            | Some (i, file_size) \<Rightarrow>
                map_option (\<lambda>f. \<lparr>tf_id = i, tf_format = f, tf_file_size_bytes = file_size\<rparr>)
                  (apple_format c))
       [Alac, Aac, Ec3]"

definition zip_part_result :: "string \<Rightarrow> album_row \<Rightarrow> album_zip_part_result option" where
  "zip_part_result format part =
     (if al_file_size part < 0 then None
      else Some \<lparr>zp_id = al_id part, zp_format = format,
                 zp_file_size_bytes = nat (al_file_size part), zp_part = al_part_index part,
                 zp_total_parts = al_total_parts part\<rparr>)"

text \<open>Collecting an iterator of options: \<open>None\<close> as soon as one element is.\<close>

fun collect_options :: "'a option list \<Rightarrow> 'a list option" where
  "collect_options [] = Some []"
| "collect_options (None # xs) = None"
| "collect_options (Some x # xs) = map_option (Cons x) (collect_options xs)"

definition codec_zip_parts :: "album_row list \<Rightarrow> codec \<Rightarrow> album_zip_part_result list option" where
  "codec_zip_parts parts c =
     (let codec_parts = filter (\<lambda>p. al_codec p = c) parts
      in if \<not> has_complete_archive_parts codec_parts then None
         else case apple_format c of
                None \<Rightarrow> None
              | Some format \<Rightarrow>
                  collect_options (map (zip_part_result format) (sort_key al_part_index codec_parts)))"

definition complete_zip_parts :: "album_row list \<Rightarrow> album_zip_part_result list" where
  "complete_zip_parts parts = concat (List.map_filter (codec_zip_parts parts) [Alac, Aac, Ec3])"

section \<open>The endpoint\<close>

record track_lookup_result =
  tl_apple_track_id :: string
  tl_is_favorite :: bool
  tl_formats :: "track_format_result list"

record album_lookup_result =
  ar_apple_album_id :: string
  ar_zip_available :: bool
  ar_zip_formats :: "album_zip_part_result list"

record lookup_response =
  lr_tracks :: "track_lookup_result list"
  lr_albums :: "album_lookup_result list"

record lookup_db =
  ld_track_formats :: "string list \<Rightarrow> db_error + (i32 \<times> string \<times> codec) list"
  ld_favorites :: "i64 \<Rightarrow> string list \<Rightarrow> db_error + string list"
  ld_album_parts :: "string list \<Rightarrow> db_error + album_row list"

fun collect_formats ::
  "engine_env \<Rightarrow> 'm meta_ops \<Rightarrow> (i32 \<times> string \<times> codec) list \<Rightarrow>
   (string, (codec, i32 \<times> nat option) hash_map) hash_map \<times> 'm engine_state \<Rightarrow>
   (string, (codec, i32 \<times> nat option) hash_map) hash_map \<times> 'm engine_state" where
  "collect_formats env mops [] s = s"
| "collect_formats env mops ((db_track_id, track_id, c) # rows) (formats, e) =
     (if apple_format c = None then collect_formats env mops rows (formats, e)
      else
        let (r, e') = resolve_track_media env mops db_track_id False e;
            file_size = (case r of Inr metadata \<Rightarrow> Some (tm_file_size metadata) | Inl _ \<Rightarrow> None);
            old = (case hm_get formats track_id of Some m \<Rightarrow> m | None \<Rightarrow> [])
        in collect_formats env mops rows
             (hm_insert track_id (hm_insert c (db_track_id, file_size) old) formats, e'))"

text \<open>The result per track takes its entry out of the table.\<close>

fun track_results ::
  "string list \<Rightarrow> (string, (codec, i32 \<times> nat option) hash_map) hash_map \<Rightarrow> string list \<Rightarrow>
   track_lookup_result list" where
  "track_results favorites formats [] = []"
| "track_results favorites formats (t # ts) =
     \<lparr>tl_apple_track_id = t, tl_is_favorite = t \<in> set favorites,
      tl_formats = (case hm_get formats t of Some m \<Rightarrow> ordered_track_formats m | None \<Rightarrow> [])\<rparr> #
     track_results favorites (hm_remove t formats) ts"

fun group_parts :: "album_row list \<Rightarrow> (string, album_row list) hash_map \<Rightarrow> (string, album_row list) hash_map" where
  "group_parts [] m = m"
| "group_parts (p # ps) m =
     group_parts ps (hm_insert (al_album_id p)
       ((case hm_get m (al_album_id p) of Some xs \<Rightarrow> xs | None \<Rightarrow> []) @ [p]) m)"

definition album_result :: "(string, album_row list) hash_map \<Rightarrow> string \<Rightarrow> album_lookup_result" where
  "album_result album_parts a =
     (let zip_formats = (case hm_get album_parts a of Some ps \<Rightarrow> complete_zip_parts ps | None \<Rightarrow> [])
      in \<lparr>ar_apple_album_id = a, ar_zip_available = zip_formats \<noteq> [], ar_zip_formats = zip_formats\<rparr>)"

definition lookup ::
  "engine_env \<Rightarrow> 'm meta_ops \<Rightarrow> lookup_db \<Rightarrow> i64 \<Rightarrow> string list option \<Rightarrow> string list option \<Rightarrow>
   'm engine_state \<Rightarrow> (server_error + lookup_response) \<times> 'm engine_state" where
  "lookup env mops db telegram_id req_track_ids req_album_ids e =
     (case normalize_ids req_track_ids ''track_ids'' of
        Inl err \<Rightarrow> (Inl err, e)
      | Inr track_ids \<Rightarrow>
          (case normalize_ids req_album_ids ''album_ids'' of
             Inl err \<Rightarrow> (Inl err, e)
           | Inr album_ids \<Rightarrow>
               if track_ids = [] \<and> album_ids = []
               then (Inl (BadRequest
                      (''At least one ID is required in '' @ quoted ''track_ids'' @ '' or '' @
                       quoted ''album_ids'')), e)
               else
                 (case (ld_track_formats db track_ids, ld_favorites db telegram_id track_ids,
                        ld_album_parts db album_ids) of
                    (Inr track_rows, Inr favorites, Inr album_rows) \<Rightarrow>
                      (let (formats, e') = collect_formats env mops track_rows ([], e);
                           tracks = track_results favorites formats track_ids;
                           albums = map (album_result (group_parts album_rows [])) album_ids
                       in (Inr \<lparr>lr_tracks = tracks, lr_albums = albums\<rparr>, e'))
                  | (Inl err, _, _) \<Rightarrow> (Inl (ServerError_from_db err), e)
                  | (_, Inl err, _) \<Rightarrow> (Inl (ServerError_from_db err), e)
                  | (_, _, Inl err) \<Rightarrow> (Inl (ServerError_from_db err), e))))"

section \<open>Normalised ids\<close>

text \<open>The first occurrence of each element, in order.\<close>

definition firsts :: "'a list \<Rightarrow> 'a list" where
  "firsts xs = rev (remdups (rev xs))"

lemma firsts_snoc: "firsts (xs @ [x]) = (if x \<in> set xs then firsts xs else firsts xs @ [x])"
  by (simp add: firsts_def)

lemma set_firsts [simp]: "set (firsts xs) = set xs"
  by (simp add: firsts_def)

lemma distinct_firsts [simp]: "distinct (firsts xs)"
  by (simp add: firsts_def)

lemma normalize_loop_firsts:
  "normalize_loop field (firsts us) xs =
     (if \<exists>x \<in> set xs. trim x = []
      then Inl (BadRequest (''IDs in '' @ quoted field @ '' must not be empty''))
      else Inr (firsts (us @ map trim xs)))"
proof (induction xs arbitrary: us)
  case (Cons x xs)
  show ?case
  proof (cases "trim x = []")
    case False
    have "normalize_loop field (firsts us) (x # xs) = normalize_loop field (firsts (us @ [trim x])) xs"
      using False by (simp add: firsts_snoc)
    also have "\<dots> = (if \<exists>y \<in> set (x # xs). trim y = []
        then Inl (BadRequest (''IDs in '' @ quoted field @ '' must not be empty''))
        else Inr (firsts (us @ map trim (x # xs))))"
      using False unfolding Cons.IH by simp
    finally show ?thesis .
  qed simp
qed simp

lemma normalize_ids_eq:
  "normalize_ids ids field =
     (let xs = (case ids of Some xs \<Rightarrow> xs | None \<Rightarrow> [])
      in if \<exists>x \<in> set xs. trim x = []
         then Inl (BadRequest (''IDs in '' @ quoted field @ '' must not be empty''))
         else Inr (firsts (map trim xs)))"
  using normalize_loop_firsts [of field "[]"] by (simp add: normalize_ids_def firsts_def Let_def)

section \<open>Complete archives\<close>

definition part_ok :: "album_row \<Rightarrow> nat \<Rightarrow> album_row \<Rightarrow> bool" where
  "part_ok first n p \<longleftrightarrow> al_total_parts p = al_total_parts first \<and>
     al_generation_hash p = al_generation_hash first \<and> 1 \<le> al_part_index p \<and> al_part_index p \<le> int n"

lemma mark_parts_Some:
  "mark_parts first seen parts = Some seen' \<Longrightarrow>
     (\<forall>p \<in> set parts. part_ok first (length seen) p \<and> \<not> seen ! nat (al_part_index p - 1)) \<and>
     distinct (map al_part_index parts) \<and> length seen' = length seen"
proof (induction parts arbitrary: seen)
  case (Cons p parts)
  define i where "i = nat (al_part_index p - 1)"
  from Cons.prems have h: "al_total_parts p = al_total_parts first"
      "al_generation_hash p = al_generation_hash first" "1 \<le> al_part_index p" "i < length seen"
      "\<not> seen ! i" and r: "mark_parts first (seen[i := True]) parts = Some seen'"
    by (auto simp: i_def Let_def split: if_splits)
  from Cons.IH [OF r] have IH: "\<forall>q \<in> set parts. part_ok first (length seen) q \<and>
      \<not> (seen[i := True]) ! nat (al_part_index q - 1)" "distinct (map al_part_index parts)"
      "length seen' = length seen" by auto
  have "part_ok first (length seen) p" using h by (auto simp: part_ok_def i_def)
  moreover have other: "al_part_index q \<noteq> al_part_index p \<and> \<not> seen ! nat (al_part_index q - 1)"
    if "q \<in> set parts" for q
    using IH(1) that h(4) by (auto simp: i_def nth_list_update split: if_splits)
  moreover have "al_part_index p \<notin> set (map al_part_index parts)" using other by fastforce
  ultimately show ?case using IH h(5) by (auto simp: i_def)
qed simp

lemma mark_parts_exists:
  assumes "\<forall>p \<in> set parts. part_ok first (length seen) p \<and> \<not> seen ! nat (al_part_index p - 1)"
    and "distinct (map al_part_index parts)"
  shows "\<exists>seen'. mark_parts first seen parts = Some seen'"
  using assms
proof (induction parts arbitrary: seen)
  case (Cons p parts)
  define i where "i = nat (al_part_index p - 1)"
  have p: "part_ok first (length seen) p" "\<not> seen ! i" using Cons.prems(1) by (auto simp: i_def)
  then have i: "i < length seen" "0 \<le> al_part_index p - 1" by (auto simp: part_ok_def i_def)
  have "part_ok first (length seen) q \<and> \<not> (seen[i := True]) ! nat (al_part_index q - 1)"
    if "q \<in> set parts" for q
  proof -
    from that Cons.prems(2) have ne: "al_part_index q \<noteq> al_part_index p" by (force simp: image_iff)
    from that Cons.prems(1) have q: "part_ok first (length seen) q"
        "\<not> seen ! nat (al_part_index q - 1)" by auto
    from ne q(1) p(1) have "nat (al_part_index q - 1) \<noteq> i" by (auto simp: part_ok_def i_def)
    with q show ?thesis by simp
  qed
  with Cons.IH [of "seen[i := True]"] Cons.prems(2)
  obtain seen' where "mark_parts first (seen[i := True]) parts = Some seen'" by auto
  with p i show ?case by (auto simp: part_ok_def i_def [symmetric] Let_def)
qed simp

lemma mark_parts_seen:
  "mark_parts first seen parts = Some seen' \<Longrightarrow> i < length seen \<Longrightarrow>
     seen' ! i \<longleftrightarrow> seen ! i \<or> int i + 1 \<in> set (map al_part_index parts)"
proof (induction parts arbitrary: seen)
  case (Cons p parts)
  define k where "k = nat (al_part_index p - 1)"
  from Cons.prems have k: "k < length seen" "0 \<le> al_part_index p - 1"
      and r: "mark_parts first (seen[k := True]) parts = Some seen'"
    by (auto simp: k_def Let_def split: if_splits)
  from Cons.IH [OF r] Cons.prems(2)
  have "seen' ! i \<longleftrightarrow> (seen[k := True]) ! i \<or> int i + 1 \<in> set (map al_part_index parts)" by simp
  moreover have "k = i \<longleftrightarrow> int i + 1 = al_part_index p" using k(2) by (auto simp: k_def)
  ultimately show ?case using k(1) by (auto simp: nth_list_update)
qed simp

lemma range_distinct_full:
  assumes "distinct xs" and "set xs \<subseteq> {1..int n}" and "length xs = n"
  shows "set xs = {1..int n}"
  using assms by (intro card_subset_eq) (simp_all add: distinct_card)

lemma complete_archive_iff:
  "has_complete_archive_parts parts \<longleftrightarrow>
     parts \<noteq> [] \<and>
     (\<forall>p \<in> set parts. al_total_parts p = int (length parts) \<and>
        al_generation_hash p = al_generation_hash (hd parts)) \<and>
     distinct (map al_part_index parts) \<and> set (map al_part_index parts) = {1..int (length parts)}"
proof (cases parts)
  case (Cons first rest)
  define n where "n = nat (al_total_parts first)"
  let ?seen = "replicate n False"
  show ?thesis (is "?l \<longleftrightarrow> ?r")
  proof
    assume ?l
    then obtain seen' where m: "mark_parts first ?seen parts = Some seen'" and len: "length parts = n"
        and t: "al_total_parts first \<ge> 0"
      by (auto simp: has_complete_archive_parts_def Cons n_def Let_def split: if_splits option.splits)
    note ms = mark_parts_Some [OF m]
    have "set (map al_part_index parts) = {1..int n}"
      using ms len by (intro range_distinct_full) (auto simp: part_ok_def)
    with ms t len show ?r by (auto simp: part_ok_def Cons n_def)
  next
    assume r: ?r
    then have t: "al_total_parts first = int (length parts)" by (simp add: Cons)
    then have n: "n = length parts" "n > 0" by (auto simp: n_def Cons)
    have ok: "\<forall>p \<in> set parts. part_ok first (length ?seen) p \<and> \<not> ?seen ! nat (al_part_index p - 1)"
    proof
      fix p assume p: "p \<in> set parts"
      with r have "al_part_index p \<in> {1..int (length parts)}" by (metis image_eqI set_map)
      then have ix: "1 \<le> al_part_index p" "al_part_index p \<le> int n" "nat (al_part_index p - 1) < n"
        using n by auto
      moreover have "al_total_parts p = al_total_parts first" "al_generation_hash p = al_generation_hash first"
        using r p t by (auto simp: Cons)
      ultimately show "part_ok first (length ?seen) p \<and> \<not> ?seen ! nat (al_part_index p - 1)"
        by (simp add: part_ok_def)
    qed
    from mark_parts_exists [OF ok] r obtain seen' where m: "mark_parts first ?seen parts = Some seen'"
      by blast
    have "list_all id seen'"
      unfolding list_all_length
    proof (intro allI impI)
      fix i assume "i < length seen'"
      with mark_parts_Some [OF m] have i: "i < n" by simp
      with r n have "int i + 1 \<in> set (map al_part_index parts)" by simp
      with mark_parts_seen [OF m, of i] i show "id (seen' ! i)" by simp
    qed
    moreover have "nat (1 + int (length rest)) = Suc (length rest)" by simp
    ultimately show ?l using m t n
      by (simp add: has_complete_archive_parts_def Cons Let_def del: mark_parts.simps)
  qed
qed (simp add: has_complete_archive_parts_def)

lemma collect_options_Some: "collect_options xs = Some ys \<Longrightarrow> xs = map Some ys"
  by (induction xs arbitrary: ys rule: collect_options.induct) auto

lemma codec_zip_parts_order:
  assumes "codec_zip_parts parts c = Some zs"
  shows "map zp_part zs = [1..int (length (filter (\<lambda>p. al_codec p = c) parts))]"
proof -
  define ps where "ps = filter (\<lambda>p. al_codec p = c) parts"
  from assms obtain fmt where comp: "has_complete_archive_parts ps"
      and col: "collect_options (map (zip_part_result fmt) (sort_key al_part_index ps)) = Some zs"
    by (auto simp: codec_zip_parts_def ps_def Let_def split: if_splits option.splits)
  from collect_options_Some [OF col] have "map Some zs = map (zip_part_result fmt) (sort_key al_part_index ps)"
    by simp
  then have "map zp_part zs = map al_part_index (sort_key al_part_index ps)"
    by (intro nth_equalityI) (auto dest: map_eq_imp_length_eq simp: zip_part_result_def list_eq_iff_nth_eq split: if_splits)
  also have "\<dots> = [1..int (length ps)]"
    using comp unfolding complete_archive_iff
    by (intro sorted_distinct_set_unique)
      (simp_all add: distinct_map distinct_sort)
  finally show ?thesis by (simp add: ps_def)
qed

section \<open>The response\<close>

lemma track_results_ids: "map tl_apple_track_id (track_results fav formats ts) = ts"
  by (induction ts arbitrary: formats) auto

lemma track_results_formats:
  "distinct ts \<Longrightarrow> r \<in> set (track_results fav formats ts) \<Longrightarrow>
   tl_formats r = (case hm_get formats (tl_apple_track_id r) of Some m \<Rightarrow> ordered_track_formats m | None \<Rightarrow> []) \<and>
   tl_is_favorite r = (tl_apple_track_id r \<in> set fav)"
proof (induction ts arbitrary: formats)
  case (Cons t ts)
  have ids: "r \<in> set (track_results fav (hm_remove t formats) ts) \<Longrightarrow> tl_apple_track_id r \<in> set ts"
    by (metis image_eqI set_map track_results_ids)
  from Cons.prems(2) consider
      "r = \<lparr>tl_apple_track_id = t, tl_is_favorite = t \<in> set fav,
            tl_formats = (case hm_get formats t of Some m \<Rightarrow> ordered_track_formats m | None \<Rightarrow> [])\<rparr>"
    | "r \<in> set (track_results fav (hm_remove t formats) ts)" by auto
  then show ?case
  proof cases
    case 2
    with Cons ids show ?thesis by (auto simp: hm_get_remove)
  qed simp
qed simp

lemma hm_get_group_parts:
  "hm_get (group_parts rows m) a =
     (case (hm_get m a, filter (\<lambda>p. al_album_id p = a) rows) of
        (None, []) \<Rightarrow> None
      | (old, ps) \<Rightarrow> Some ((case old of Some xs \<Rightarrow> xs | None \<Rightarrow> []) @ ps))"
  by (induction rows arbitrary: m) (auto simp: hm_get_insert split: option.splits list.splits)

lemma complete_zip_parts_Nil: "complete_zip_parts [] = []"
  by (simp add: complete_zip_parts_def codec_zip_parts_def has_complete_archive_parts_def map_filter_simps)

lemma album_result_eq:
  "album_result (group_parts rows []) a =
     (let zs = complete_zip_parts (filter (\<lambda>p. al_album_id p = a) rows)
      in \<lparr>ar_apple_album_id = a, ar_zip_available = zs \<noteq> [], ar_zip_formats = zs\<rparr>)"
  by (simp add: album_result_def hm_get_group_parts complete_zip_parts_Nil Let_def split: list.split)

section \<open>Properties\<close>

text \<open>
  An album archive is offered exactly when it is whole: the rows are the parts 1 to n of one
  generation, each of them once, and every row announces the total n.
\<close>

theorem complete_archive_parts_spec:
  "has_complete_archive_parts parts \<longleftrightarrow>
     parts \<noteq> [] \<and>
     (\<forall>p \<in> set parts. al_total_parts p = int (length parts) \<and>
        al_generation_hash p = al_generation_hash (hd parts)) \<and>
     distinct (map al_part_index parts) \<and> set (map al_part_index parts) = {1..int (length parts)}"
  by (rule complete_archive_iff)

definition demo_part :: "i32 \<Rightarrow> album_row" where
  "demo_part i = \<lparr>al_id = i, al_album_id = ''a'', al_codec = Alac, al_part_index = i,
     al_total_parts = 2, al_file_size = 5, al_generation_hash = ''g''\<rparr>"

theorem complete_archive_parts_spec_witness:
  "has_complete_archive_parts [demo_part 2, demo_part 1] \<and>
   \<not> has_complete_archive_parts [demo_part 2, demo_part 2]"
  unfolding complete_archive_parts_spec by (auto simp: demo_part_def)

text \<open>
  The lookup endpoint answers for every requested id once, in the order of first mention, and gives each album the complete
  archives among the rows of that album.
\<close>

theorem lookup_answers_every_id:
  assumes "lookup env mops db user track_ids album_ids e = (Inr r, e')"
  shows "map tl_apple_track_id (lr_tracks r) =
      firsts (map trim (case track_ids of Some xs \<Rightarrow> xs | None \<Rightarrow> [])) \<and>
    map ar_apple_album_id (lr_albums r) =
      firsts (map trim (case album_ids of Some xs \<Rightarrow> xs | None \<Rightarrow> [])) \<and>
    (\<exists>rows. ld_album_parts db (map ar_apple_album_id (lr_albums r)) = Inr rows \<and>
      (\<forall>a \<in> set (lr_albums r).
         ar_zip_formats a =
           complete_zip_parts (filter (\<lambda>p. al_album_id p = ar_apple_album_id a) rows) \<and>
         (ar_zip_available a \<longleftrightarrow> ar_zip_formats a \<noteq> [])))"
proof -
  define ts where "ts = firsts (map trim (case track_ids of Some xs \<Rightarrow> xs | None \<Rightarrow> []))"
  define as1 where "as1 = firsts (map trim (case album_ids of Some xs \<Rightarrow> xs | None \<Rightarrow> []))"
  have n: "normalize_ids track_ids ''track_ids'' = Inr ts" "normalize_ids album_ids ''album_ids'' = Inr as1"
    using assms by (auto simp: lookup_def normalize_ids_eq ts_def as1_def Let_def split: if_splits)
  from assms n obtain fav formats rows where
    r: "lr_tracks r = track_results fav formats ts" "ld_album_parts db as1 = Inr rows"
      "lr_albums r = map (album_result (group_parts rows [])) as1"
    by (auto simp: lookup_def Let_def split: if_splits sum.splits prod.splits)
  have ids: "map ar_apple_album_id (lr_albums r) = as1"
    by (simp add: r(3) album_result_eq Let_def comp_def)
  with r show ?thesis
    by (auto simp: track_results_ids ts_def as1_def [symmetric] album_result_eq Let_def)
qed

definition demo_lookup_db :: lookup_db where
  "demo_lookup_db = \<lparr>ld_track_formats = (\<lambda>_. Inr []), ld_favorites = (\<lambda>_ _. Inr [''t'']),
     ld_album_parts = (\<lambda>_. Inr [demo_part 2, demo_part 1])\<rparr>"

theorem lookup_answers_every_id_witness:
  "\<exists>r e'. lookup undefined undefined demo_lookup_db 1 None (Some [''a'', ''b'', ''a'']) (undefined :: unit engine_state) =
     (Inr r, e') \<and> map ar_apple_album_id (lr_albums r) = [''a'', ''b'']"
proof -
  have t: "trim ''a'' = ''a''" "trim ''b'' = ''b''"
    by (rule trim_idle; use whitespace_bytes_code in fastforce)+
  then obtain r e' where run: "lookup undefined undefined demo_lookup_db 1 None (Some [''a'', ''b'', ''a''])
      (undefined :: unit engine_state) = (Inr r, e')"
    by (auto simp: lookup_def normalize_ids_eq firsts_def demo_lookup_db_def)
  from lookup_answers_every_id [OF run] t run show ?thesis by (auto simp: firsts_def)
qed

text \<open>
  The parts of a complete archive are listed in part order, 1 to n, with none missing.
\<close>

theorem zip_parts_in_order:
  assumes "codec_zip_parts parts c = Some zs"
  shows "map zp_part zs = [1..int (length (filter (\<lambda>p. al_codec p = c) parts))]"
  by (rule codec_zip_parts_order [OF assms])

theorem zip_parts_in_order_witness:
  "\<exists>zs. codec_zip_parts [demo_part 2, demo_part 1] Alac = Some zs \<and> map zp_part zs = [1, 2]"
proof -
  have "has_complete_archive_parts [demo_part 2, demo_part 1]"
    unfolding complete_archive_iff by (auto simp: demo_part_def)
  then obtain zs where zs: "codec_zip_parts [demo_part 2, demo_part 1] Alac = Some zs"
    by (auto simp: codec_zip_parts_def demo_part_def zip_part_result_def sort_key_def)
  from zip_parts_in_order [OF zs] zs show ?thesis by (simp add: demo_part_def upto.simps)
qed

text \<open>
  Ids are normalised: a blank id is rejected as a bad request naming the field; otherwise the
  trimmed ids come back without duplicates, in the order of their first mention.
\<close>

theorem normalize_ids_spec:
  "normalize_ids (Some ids) field =
     (if \<exists>x \<in> set ids. trim x = []
      then Inl (BadRequest (''IDs in '' @ quoted field @ '' must not be empty''))
      else Inr (firsts (map trim ids)))"
  by (simp add: normalize_ids_eq)

end
