(* ===== verification/Task_Rpc.thy ===== *)
theory Task_Rpc
  imports Task_Registry Lookup
begin

text \<open>
  Creating and cancelling rip tasks, \<open>crates/server/src/rip_task_rpc.rs\<close>. The database lookups, the
  id generator and the clock are arguments; the events broadcast to the sync sockets, the tasks
  handed to the runner, the cancelled tokens and the jobs cancelled in the orchestrator are
  recorded in the server's state.
\<close>

record rpc_env =
  re_admin_id :: i64
  re_album_parts :: "string \<Rightarrow> db_error + album_row list"
  re_tracks :: "string \<Rightarrow> db_error + (i32 \<times> codec) list"
  re_create_id :: "nat \<Rightarrow> string"
  re_now :: instant

record server_state =
  ss_tasks :: task_registry
  ss_next_token :: nat
  ss_sync_events :: "task_sync_event list"
  ss_dispatched :: "(string \<times> string \<times> bool \<times> i64 \<times> nat) list"
  ss_cancelled_tokens :: "nat list"
  ss_cancelled_jobs :: "string list"

datatype rpc_status = RpcQueued | RpcCompleted

datatype rpc_error_code = RpcValidation | RpcNotFound | RpcNotAuthorized | RpcUnavailable | RpcInternal

definition rpc_retryable :: "rpc_error_code \<Rightarrow> bool" where
  "rpc_retryable code = (code = RpcUnavailable)"

datatype rpc_request =
  RpcCreate string rip_task_request
| RpcCancel string string

datatype rpc_success =
  RpcCreated string string rpc_status "i32 option"
| RpcCancelled string string

record rpc_error =
  rpe_request_id :: "string option"
  rpe_code :: rpc_error_code
  rpe_message :: string
  rpe_retryable :: bool

definition rpc_error_new :: "string option \<Rightarrow> rpc_error_code \<Rightarrow> string \<Rightarrow> rpc_error" where
  "rpc_error_new request_id code message =
     \<lparr>rpe_request_id = request_id, rpe_code = code, rpe_message = message,
      rpe_retryable = rpc_retryable code\<rparr>"

fun map_server_error :: "string option \<Rightarrow> server_error \<Rightarrow> rpc_error" where
  "map_server_error rid (BadRequest _) = rpc_error_new rid RpcValidation ''invalid rip-task request''"
| "map_server_error rid (NotFound _) = rpc_error_new rid RpcNotFound ''rip task not found''"
| "map_server_error rid (Unauthorized _) =
     rpc_error_new rid RpcNotAuthorized ''not authorized to perform this rip-task operation''"
| "map_server_error rid (Forbidden _) =
     rpc_error_new rid RpcNotAuthorized ''not authorized to perform this rip-task operation''"
| "map_server_error rid (Internal _) = rpc_error_new rid RpcInternal ''rip-task request failed''"

definition map_cache_lookup_error :: "string option \<Rightarrow> rpc_error" where
  "map_cache_lookup_error rid =
     rpc_error_new rid RpcUnavailable ''rip-task cache lookup is temporarily unavailable''"

datatype cancel_failure = CancelNotFound | CancelNotAuthorized

definition same_target :: "server_task_meta \<Rightarrow> server_task_meta \<Rightarrow> bool" where
  "same_target existing candidate \<longleftrightarrow>
     tm_is_album existing = tm_is_album candidate \<and> tm_track_id existing = tm_track_id candidate"

definition reserve_task :: "task_registry \<Rightarrow> server_task_meta \<Rightarrow> (string + string) \<times> task_registry" where
  "reserve_task tasks meta = insert_unique meta same_target tasks"

definition remove_task_if_authorized ::
  "task_registry \<Rightarrow> string \<Rightarrow> i64 \<Rightarrow> i64 \<Rightarrow> (cancel_failure + server_task_meta) \<times> task_registry" where
  "remove_task_if_authorized tasks task_id user_id admin_id =
     (case remove_if task_id (\<lambda>task. user_id = tm_owner_id task \<or> user_id = admin_id) tasks of
        (Inr (Some task), tasks') \<Rightarrow> (Inr task, tasks')
      | (Inr None, tasks') \<Rightarrow> (Inl CancelNotFound, tasks')
      | (Inl TaskRemovalRejected, tasks') \<Rightarrow> (Inl CancelNotAuthorized, tasks'))"

text \<open>What the cache knows of the target: is it complete, and which track row it is.\<close>

definition cached_target ::
  "rpc_env \<Rightarrow> string \<Rightarrow> bool \<Rightarrow> db_error + (bool \<times> i32 option)" where
  "cached_target env target_id is_album =
     (if is_album then
        (case re_album_parts env target_id of
           Inl err \<Rightarrow> Inl err
         | Inr parts \<Rightarrow>
             Inr (has_complete_archive_parts (filter (\<lambda>p. al_codec p = Alac) parts) \<or>
                  has_complete_archive_parts (filter (\<lambda>p. al_codec p = Aac) parts), None))
      else
        (case re_tracks env target_id of
           Inl err \<Rightarrow> Inl err
         | Inr tracks \<Rightarrow>
             (let matching = (case List.find (\<lambda>(i, c). c = Alac) tracks of
                                Some t \<Rightarrow> Some t
                              | None \<Rightarrow> List.find (\<lambda>(i, c). c = Aac) tracks)
              in Inr (matching \<noteq> None, map_option fst matching))))"

definition initial_progress :: rip_task_progress where
  "initial_progress =
     \<lparr>rp_job_stage = Some (activity_stage_name (ActQueued 1)), rp_download = None,
      rp_upload = None, rp_uploads = [], rp_percent = Some 0, rp_current_track_title = None,
      rp_current_track_artist = None, rp_current_track_artwork_url = None,
      rp_current_track_index = None, rp_total_tracks = None, rp_completed_tracks = None,
      rp_failed_tracks = None\<rparr>"

definition new_task_meta ::
  "string \<Rightarrow> i64 \<Rightarrow> string \<Rightarrow> bool \<Rightarrow> nat \<Rightarrow> instant \<Rightarrow> server_task_meta" where
  "new_task_meta task_id owner target_id is_album token now =
     \<lparr>tm_task_id = task_id, tm_rip_task_id = [], tm_owner_id = owner, tm_track_id = target_id,
      tm_task_codec = None, tm_title = None, tm_artist = None, tm_album = None, tm_duration = None,
      tm_artwork_url = None, tm_controller = token, tm_created_at = now,
      tm_latest_progress = initial_progress, tm_is_album = is_album, tm_completed = False,
      tm_result_track_id = None, tm_error = None\<rparr>"

definition create_task ::
  "rpc_env \<Rightarrow> i64 \<Rightarrow> string \<Rightarrow> rip_task_request \<Rightarrow> server_state \<Rightarrow>
   (rpc_error + rpc_success) \<times> server_state" where
  "create_task env telegram_id request_id request s =
     (if trim request_id = []
      then (Inl (rpc_error_new (Some request_id) RpcValidation ''request_id must not be empty''), s)
      else case target request of
        None \<Rightarrow>
          (Inl (rpc_error_new (Some request_id) RpcValidation
                  ''track_id or album_id must not be empty''), s)
      | Some (target_id, is_album) \<Rightarrow>
          (case cached_target env target_id is_album of
             Inl err \<Rightarrow> (Inl (map_cache_lookup_error (Some request_id)), s)
           | Inr (is_cached, result_track_id) \<Rightarrow>
               if is_cached
               then (Inr (RpcCreated request_id [] RpcCompleted result_track_id), s)
               else
                 let task_id = ''task_'' @ re_create_id env (ss_next_token s);
                     controller = ss_next_token s;
                     meta = new_task_meta task_id telegram_id target_id is_album controller (re_now env);
                     s1 = s\<lparr>ss_next_token := ss_next_token s + 1\<rparr>
                 in case reserve_task (ss_tasks s) meta of
                      (Inl existing_task_id, tasks) \<Rightarrow>
                        (Inr (RpcCreated request_id existing_task_id RpcQueued None), s1)
                    | (Inr reserved, tasks) \<Rightarrow>
                        (Inr (RpcCreated request_id reserved RpcQueued None),
                         s1\<lparr>ss_tasks := tasks,
                            ss_sync_events := ss_sync_events s @ [Updated reserved],
                            ss_dispatched := ss_dispatched s @
                              [(reserved, target_id, is_album, telegram_id, controller)]\<rparr>)))"

definition cancel_task ::
  "rpc_env \<Rightarrow> i64 \<Rightarrow> string \<Rightarrow> string \<Rightarrow> server_state \<Rightarrow> (rpc_error + rpc_success) \<times> server_state" where
  "cancel_task env telegram_id request_id task_id s =
     (if trim request_id = [] \<or> trim task_id = []
      then (Inl (rpc_error_new (Some request_id) RpcValidation
                   ''request_id and task_id must not be empty''), s)
      else case remove_task_if_authorized (ss_tasks s) task_id telegram_id (re_admin_id env) of
        (Inl CancelNotFound, tasks) \<Rightarrow>
          (Inl (map_server_error (Some request_id) (NotFound ''active task missing'')), s)
      | (Inl CancelNotAuthorized, tasks) \<Rightarrow>
          (Inl (map_server_error (Some request_id) (Forbidden ''task owner/admin required'')), s)
      | (Inr task, tasks) \<Rightarrow>
          (Inr (RpcCancelled request_id task_id),
           s\<lparr>ss_tasks := tasks, ss_sync_events := ss_sync_events s @ [Dismissed task_id],
             ss_cancelled_tokens := ss_cancelled_tokens s @ [tm_controller task],
             ss_cancelled_jobs := ss_cancelled_jobs s @
               (if tm_rip_task_id task \<noteq> [] then [tm_rip_task_id task] else [])\<rparr>))"

fun handle_request ::
  "rpc_env \<Rightarrow> i64 \<Rightarrow> rpc_request \<Rightarrow> server_state \<Rightarrow> (rpc_error + rpc_success) \<times> server_state" where
  "handle_request env telegram_id (RpcCreate request_id request) s =
     create_task env telegram_id request_id request s"
| "handle_request env telegram_id (RpcCancel request_id task_id) s =
     cancel_task env telegram_id request_id task_id s"

section \<open>Every target at most once\<close>

definition server_init :: server_state where
  "server_init = \<lparr>ss_tasks = [], ss_next_token = 0, ss_sync_events = [], ss_dispatched = [],
     ss_cancelled_tokens = [], ss_cancelled_jobs = []\<rparr>"

text \<open>Requests of any users at any time, in any order.\<close>

definition rpc_step :: "server_state \<Rightarrow> rpc_env \<times> i64 \<times> rpc_request \<Rightarrow> server_state" where
  "rpc_step s ev = (case ev of (env, user, req) \<Rightarrow> snd (handle_request env user req s))"

definition rpc_inv :: "server_state \<Rightarrow> bool" where
  "rpc_inv s \<longleftrightarrow> hm_invar (ss_tasks s) \<and> registry.unique_by same_target (ss_tasks s)"

lemma same_target_sym: "same_target a b = same_target b a"
  by (auto simp: same_target_def)

lemma reserve_task_inv:
  assumes "hm_invar tasks" and "registry.unique_by same_target tasks" and "reserve_task tasks m = (r, tasks')"
  shows "hm_invar tasks' \<and> registry.unique_by same_target tasks'"
  using registry.reserve_unique [OF assms(1,2) same_target_sym] assms(3) by (simp add: reserve_task_def)

lemma create_task_inv: "rpc_inv s \<Longrightarrow> rpc_inv (snd (create_task env u rid req s))"
proof -
  assume inv: "rpc_inv s"
  show ?thesis
    unfolding create_task_def
    using inv reserve_task_inv [of "ss_tasks s"]
    by (auto simp: rpc_inv_def Let_def split: option.split prod.split sum.split)
qed

lemma remove_authorized_inv:
  assumes "hm_invar tasks" and "registry.unique_by same_target tasks"
    and "remove_task_if_authorized tasks k u a = (r, tasks')"
  shows "hm_invar tasks' \<and> registry.unique_by same_target tasks'"
proof -
  obtain q t where q: "remove_if k (\<lambda>task. u = tm_owner_id task \<or> u = a) tasks = (q, t)"
    by (cases "remove_if k (\<lambda>task. u = tm_owner_id task \<or> u = a) tasks")
  with assms(3) have "tasks' = t"
    by (auto simp: remove_task_if_authorized_def split: sum.splits option.splits task_removal_rejected.splits)
  with registry.discard_unique [OF assms(1,2) q] show ?thesis by simp
qed

lemma cancel_task_inv: "rpc_inv s \<Longrightarrow> rpc_inv (snd (cancel_task env u rid k s))"
  using remove_authorized_inv [of "ss_tasks s" k u "re_admin_id env"]
  by (auto simp: cancel_task_def rpc_inv_def split: prod.split sum.split cancel_failure.split)

interpretation rpc: event_machine server_init rpc_step rpc_inv
proof unfold_locales
  show "rpc_inv server_init"
    by (simp add: rpc_inv_def server_init_def registry.unique_by_def registry_get_def)
  fix s ev
  assume "rpc_inv s"
  then show "rpc_inv (rpc_step s ev)"
    by (cases ev; cases "snd (snd ev)") (auto simp: rpc_step_def create_task_inv cancel_task_inv)
qed

section \<open>Properties\<close>


text \<open>
  C10: Creating a task for a target that is not cached either returns the task that is already
  registered for that target, changing nothing but the id counter, or registers a task owned by
  the caller under a new id, announces it once and hands it to the runner once with its token.
\<close>

theorem create_task_reserves:
  assumes "hm_invar (ss_tasks s)" and "trim rid \<noteq> []" and "target req = Some (t, is_album)"
    and "cached_target env t is_album = Inr (False, r)"
    and "create_task env user rid req s = (res, s')"
  shows "\<exists>i. res = Inr (RpcCreated rid i RpcQueued None) \<and>
    ((\<exists>k m. registry_get k (ss_tasks s) = Some m \<and> tm_track_id m = t \<and> tm_is_album m = is_album \<and>
        i = tm_task_id m \<and> s' = s\<lparr>ss_next_token := ss_next_token s + 1\<rparr>) \<or>
     ((\<forall>k m. registry_get k (ss_tasks s) = Some m \<longrightarrow> \<not> (tm_track_id m = t \<and> tm_is_album m = is_album)) \<and>
      i = ''task_'' @ re_create_id env (ss_next_token s) \<and>
      (\<exists>m. registry_get i (ss_tasks s') = Some m \<and> tm_task_id m = i \<and> tm_owner_id m = user \<and>
         tm_track_id m = t \<and> tm_is_album m = is_album \<and> tm_controller m = ss_next_token s) \<and>
      ss_sync_events s' = ss_sync_events s @ [Updated i] \<and>
      ss_dispatched s' = ss_dispatched s @ [(i, t, is_album, user, ss_next_token s)]))"
proof -
  define i where "i = ''task_'' @ re_create_id env (ss_next_token s)"
  define m where "m = new_task_meta i user t is_album (ss_next_token s) (re_now env)"
  have m: "tm_task_id m = i" "tm_owner_id m = user" "tm_track_id m = t" "tm_is_album m = is_album"
      "tm_controller m = ss_next_token s" by (simp_all add: m_def new_task_meta_def)
  obtain q tasks where q: "insert_unique m same_target (ss_tasks s) = (q, tasks)"
    by (cases "insert_unique m same_target (ss_tasks s)")
  show ?thesis
  proof (cases q)
    case (Inl old)
    with registry.reserve_old [OF assms(1), of m same_target old tasks] q
    obtain k u where "registry_get k (ss_tasks s) = Some u" "same_target u m" "old = tm_task_id u" by auto
    moreover have "res = Inr (RpcCreated rid old RpcQueued None)" "s' = s\<lparr>ss_next_token := ss_next_token s + 1\<rparr>"
      using assms(2-5) q Inl
      by (simp_all add: create_task_def reserve_task_def i_def m_def Let_def)
    ultimately show ?thesis using m by (auto simp: same_target_def)
  next
    case (Inr new)
    with registry.reserve_new [OF assms(1), of m same_target new tasks] q
    have new: "new = i" "\<And>k u. registry_get k (ss_tasks s) = Some u \<Longrightarrow> \<not> same_target u m"
        "registry_get i tasks = Some m" by (auto simp: m)
    moreover have "res = Inr (RpcCreated rid new RpcQueued None)" "ss_tasks s' = tasks"
        "ss_sync_events s' = ss_sync_events s @ [Updated new]"
        "ss_dispatched s' = ss_dispatched s @ [(new, t, is_album, user, ss_next_token s)]"
      using assms(2-5) q Inr
      by (auto simp: create_task_def reserve_task_def i_def m_def Let_def)
    ultimately show ?thesis using m by (auto simp: same_target_def i_def)
  qed
qed

definition demo_rpc_env :: rpc_env where
  "demo_rpc_env = \<lparr>re_admin_id = 1, re_album_parts = (\<lambda>_. Inr []), re_tracks = (\<lambda>_. Inr []),
     re_create_id = (\<lambda>n. show_nat n), re_now = 0\<rparr>"

lemma trim_demo: "trim ''r'' = ''r''" "trim ''7'' = ''7''"
  by (rule trim_idle; use whitespace_bytes_code in fastforce)+

theorem create_task_reserves_witness:
  "\<exists>i s'. create_task demo_rpc_env 5 ''r'' \<lparr>rr_track_id = Some ''7'', rr_album_id = None\<rparr> server_init =
     (Inr (RpcCreated ''r'' i RpcQueued None), s') \<and> i \<noteq> [] \<and>
     ss_dispatched s' = [(i, ''7'', False, 5, 0)]"
proof -
  let ?req = "\<lparr>rr_track_id = Some ''7'', rr_album_id = None\<rparr>"
  have h: "hm_invar (ss_tasks server_init)" "trim ''r'' \<noteq> []" "target ?req = Some (''7'', False)"
      "cached_target demo_rpc_env ''7'' False = Inr (False, None)"
    by (simp_all add: server_init_def trim_demo target_def nonblank_def cached_target_def demo_rpc_env_def)
  obtain res s' where run: "create_task demo_rpc_env 5 ''r'' ?req server_init = (res, s')"
    by (cases "create_task demo_rpc_env 5 ''r'' ?req server_init")
  from create_task_reserves [OF h run] run show ?thesis
    by (auto simp: server_init_def registry_get_def)
qed

text \<open>
  C11: Cancelling is authorised by the stored task: an unknown task is reported as not found, a
  caller who is neither its owner nor the administrator is refused, and in both cases nothing
  changes. Otherwise exactly that task is removed, its dismissal is broadcast, its token and, if
  it has one, its orchestrator job are cancelled.
\<close>

theorem cancel_task_authorized:
  assumes "hm_invar (ss_tasks s)" and "trim rid \<noteq> []" and "trim k \<noteq> []"
    and "cancel_task env user rid k s = (res, s')"
  shows "(case registry_get k (ss_tasks s) of
      None \<Rightarrow> (\<exists>e. res = Inl e \<and> rpe_code e = RpcNotFound) \<and> s' = s
    | Some t \<Rightarrow>
        if user = tm_owner_id t \<or> user = re_admin_id env
        then res = Inr (RpcCancelled rid k) \<and>
          (\<forall>k'. registry_get k' (ss_tasks s') = (if k' = k then None else registry_get k' (ss_tasks s))) \<and>
          ss_sync_events s' = ss_sync_events s @ [Dismissed k] \<and>
          ss_cancelled_tokens s' = ss_cancelled_tokens s @ [tm_controller t] \<and>
          ss_cancelled_jobs s' = ss_cancelled_jobs s @ filter (\<lambda>j. j \<noteq> []) [tm_rip_task_id t]
        else (\<exists>e. res = Inl e \<and> rpe_code e = RpcNotAuthorized) \<and> s' = s)"
  using assms
  by (auto simp: cancel_task_def remove_task_if_authorized_def remove_if_def registry_get_def
      rpc_error_new_def hm_get_remove split: option.splits if_splits)

theorem cancel_task_authorized_witness:
  "\<exists>e. cancel_task demo_rpc_env 5 ''r'' ''7'' server_init = (Inl e, server_init) \<and> rpe_code e = RpcNotFound"
proof -
  have h: "hm_invar (ss_tasks server_init)" "trim ''r'' \<noteq> []" "trim ''7'' \<noteq> []"
    by (simp_all add: server_init_def trim_demo)
  obtain res s' where run: "cancel_task demo_rpc_env 5 ''r'' ''7'' server_init = (res, s')"
    by (cases "cancel_task demo_rpc_env 5 ''r'' ''7'' server_init")
  from cancel_task_authorized [OF h run] run show ?thesis
    by (auto simp: server_init_def registry_get_def)
qed

end
