(* ===== verification/Playback_Sync.thy ===== *)
theory Playback_Sync
  imports Task_Rpc
begin

text \<open>
  The synchronisation WebSocket, \<open>crates/server/src/playback_sync.rs\<close>: one room per user with the
  connected devices, the active device and the latest playback snap, and one task per
  connection that handles the client's messages. A snapshot is an arbitrary JSON value \<open>'j\<close>.

  Messages broadcast to a room and messages sent on one socket are recorded. The environment says
  whether a send succeeds, whether the session token still verifies and as whom, and which events
  arrive; a connection that fails a send ends.
\<close>

section \<open>Data\<close>

record connected_device_info =
  cd_device_id :: string
  cd_device_name :: string
  cd_platform :: string

datatype 'j client_message =
  Hello string string string
| ReportState 'j
| CommandMsg string "'j option"
| TransferPlayback string
| CreateRipTask string rip_task_request
| CancelRipTask string string

datatype 'j server_message =
  RoomState "string option" "connected_device_info list" "'j option"
| StateUpdated "string option" 'j
| SrvCommand string "'j option"
| RipTasksSnapshot "rip_task_snapshot list"
| RipTaskUpdated rip_task_snapshot
| RipTaskDismissed string
| RipTaskCreated string string rpc_status "i32 option" "rip_task_snapshot option"
| RipTaskCancelledMsg string string
| SrvError "string option" rpc_error_code string bool

record 'j sync_room =
  rm_devices :: "(string, connected_device_info) hash_map"
  rm_device_connections :: "(string, u64) hash_map"
  rm_active_device_id :: "string option"
  rm_latest_snapshot :: "'j option"
  rm_broadcast :: "'j server_message list"

definition new_room :: "'j sync_room" where
  "new_room = \<lparr>rm_devices = [], rm_device_connections = [], rm_active_device_id = None,
     rm_latest_snapshot = None, rm_broadcast = []\<rparr>"

type_synonym 'j playback_sync_hub = "(i64, 'j sync_room) hash_map"

definition get_or_create_room :: "i64 \<Rightarrow> 'j playback_sync_hub \<Rightarrow> 'j sync_room \<times> 'j playback_sync_hub" where
  "get_or_create_room telegram_id rooms =
     (case hm_get rooms telegram_id of
        Some room \<Rightarrow> (room, rooms)
      | None \<Rightarrow> (new_room, hm_insert telegram_id new_room rooms))"

record 'j connection =
  cn_telegram_id :: i64
  cn_connection_id :: u64
  cn_my_device_id :: "string option"
  cn_open :: bool
  cn_sent :: "'j server_message list"

section \<open>Room operations\<close>

definition send_room :: "'j server_message \<Rightarrow> 'j sync_room \<Rightarrow> 'j sync_room" where
  "send_room msg room = room\<lparr>rm_broadcast := rm_broadcast room @ [msg]\<rparr>"

definition room_state :: "'j sync_room \<Rightarrow> 'j server_message" where
  "room_state room =
     RoomState (rm_active_device_id room) (hm_values (rm_devices room)) (rm_latest_snapshot room)"

definition remove_device_connection ::
  "'j sync_room \<Rightarrow> string \<Rightarrow> u64 \<Rightarrow> bool \<times> 'j sync_room" where
  "remove_device_connection room device_id connection_id =
     (if hm_get (rm_device_connections room) device_id \<noteq> Some connection_id then (False, room)
      else (hm_get (rm_devices room) device_id \<noteq> None,
            room\<lparr>rm_device_connections := hm_remove device_id (rm_device_connections room),
                 rm_devices := hm_remove device_id (rm_devices room)\<rparr>))"

definition hello_room ::
  "string option \<Rightarrow> u64 \<Rightarrow> string \<Rightarrow> string \<Rightarrow> string \<Rightarrow> 'j sync_room \<Rightarrow> 'j sync_room" where
  "hello_room prev_device connection_id device_id device_name platform room0 =
     (let room1 = (case prev_device of
                     Some prev \<Rightarrow> if prev \<noteq> device_id
                                  then snd (remove_device_connection room0 prev connection_id)
                                  else room0
                   | None \<Rightarrow> room0);
          room2 = room1\<lparr>rm_devices := hm_insert device_id
                          \<lparr>cd_device_id = device_id, cd_device_name = device_name,
                           cd_platform = platform\<rparr> (rm_devices room1),
                        rm_device_connections := hm_insert device_id connection_id
                          (rm_device_connections room1)\<rparr>;
          room3 = (if rm_active_device_id room2 = None
                   then room2\<lparr>rm_active_device_id := Some device_id\<rparr> else room2)
      in send_room (room_state room3) room3)"

definition report_state_room :: "string option \<Rightarrow> 'j \<Rightarrow> 'j sync_room \<Rightarrow> 'j sync_room" where
  "report_state_room my_device_id snap room =
     (let is_active = (case (my_device_id, rm_active_device_id room) of
                         (Some mine, Some active) \<Rightarrow> mine = active
                       | _ \<Rightarrow> False)
      in if is_active
         then send_room (StateUpdated (rm_active_device_id room) snap)
                (room\<lparr>rm_latest_snapshot := Some snap\<rparr>)
         else room)"

definition transfer_room :: "string \<Rightarrow> 'j sync_room \<Rightarrow> 'j sync_room" where
  "transfer_room target_device_id room =
     (let room1 = room\<lparr>rm_active_device_id := Some target_device_id\<rparr>
      in send_room (room_state room1) room1)"

text \<open>The end of a connection that has said hello.\<close>

definition disconnect_room :: "string \<Rightarrow> u64 \<Rightarrow> 'j sync_room \<Rightarrow> 'j sync_room" where
  "disconnect_room dev_id connection_id room0 =
     (let (removed, room1) = remove_device_connection room0 dev_id connection_id;
          room2 = (if removed \<and> rm_active_device_id room1 = Some dev_id
                   then room1\<lparr>rm_active_device_id :=
                          (case hm_keys (rm_devices room1) of [] \<Rightarrow> None | k # _ \<Rightarrow> Some k)\<rparr>
                   else room1)
      in send_room (room_state room2) room2)"

section \<open>Task messages\<close>

definition visible_snapshot :: "i64 \<Rightarrow> i64 \<Rightarrow> server_task_meta \<Rightarrow> rip_task_snapshot" where
  "visible_snapshot admin_id telegram_id task =
     task_snapshot task (tm_owner_id task = telegram_id \<or> telegram_id = admin_id)"

text \<open>\<open>sort_by_key(Reverse(created_at))\<close> is stable: newest first, ties in iteration order.\<close>

definition task_snapshots_for_user ::
  "i64 \<Rightarrow> task_registry \<Rightarrow> i64 \<Rightarrow> rip_task_snapshot list" where
  "task_snapshots_for_user admin_id tasks telegram_id =
     map snd (sort_key (\<lambda>(created_at, snap). - int created_at)
       (map (\<lambda>task. (tm_created_at task, visible_snapshot admin_id telegram_id task))
         (registry_all tasks)))"

definition completed_snapshot :: "i64 \<Rightarrow> i32 option \<Rightarrow> rip_task_request \<Rightarrow> rip_task_snapshot" where
  "completed_snapshot telegram_id result_track_id request =
     (let (target_id, is_album) = (case target request of Some t \<Rightarrow> t | None \<Rightarrow> ([], False))
      in \<lparr>sn_task_id = [], sn_source_track_id = target_id, sn_title = None, sn_artist = None,
          sn_album = None, sn_duration = None, sn_artwork_url = None,
          sn_progress = initial_progress\<lparr>rp_job_stage := Some ''completed'', rp_percent := Some 0x42C80000\<rparr>,
          sn_result_track_id = result_track_id, sn_is_cached = Some True, sn_completed = True,
          sn_error = None, sn_owner_id = Some telegram_id, sn_is_owner = True,
          sn_is_album = is_album\<rparr>)"

fun request_id_of :: "rpc_request \<Rightarrow> string" where
  "request_id_of (RpcCreate i _) = i"
| "request_id_of (RpcCancel i _) = i"

fun rpc_reply_message ::
  "rpc_env \<Rightarrow> i64 \<Rightarrow> rpc_request \<Rightarrow> (rpc_error + rpc_success) \<times> server_state \<Rightarrow> 'j server_message" where
  "rpc_reply_message env telegram_id request (Inr (RpcCreated request_id task_id status result_track_id), s) =
     RipTaskCreated request_id task_id status result_track_id
       (if task_id = [] then
          (if status = RpcCompleted
           then (case request of
                   RpcCreate _ req \<Rightarrow> Some (completed_snapshot telegram_id result_track_id req)
                 | RpcCancel _ _ \<Rightarrow> None)
           else None)
        else map_option (visible_snapshot (re_admin_id env) telegram_id)
               (registry_get task_id (ss_tasks s)))"
| "rpc_reply_message env telegram_id request (Inr (RpcCancelled request_id task_id), s) =
     RipTaskCancelledMsg request_id task_id"
| "rpc_reply_message env telegram_id request (Inl e, s) =
     SrvError (rpe_request_id e) (rpe_code e) (rpe_message e) (rpe_retryable e)"

text \<open>
  \<open>verify_session\<close> returns the telegram id the token belongs to now; the request runs only when it
  still is the connection's.
\<close>

definition dispatch_rip_task_rpc ::
  "rpc_env \<Rightarrow> i64 option \<Rightarrow> i64 \<Rightarrow> rpc_request \<Rightarrow> server_state \<Rightarrow> 'j server_message \<times> server_state" where
  "dispatch_rip_task_rpc env verified connection_telegram_id request s =
     (if verified = Some connection_telegram_id
      then (let r = handle_request env connection_telegram_id request s
            in (rpc_reply_message env connection_telegram_id request r, snd r))
      else (SrvError (Some (request_id_of request)) RpcNotAuthorized
              ''session is no longer authorized'' False, s))"

section \<open>Connections\<close>

text \<open>\<open>send_server_message\<close>: a failed send ends the connection.\<close>

definition send_conn :: "bool \<Rightarrow> 'j server_message \<Rightarrow> 'j connection \<Rightarrow> 'j connection" where
  "send_conn ok msg c = (if ok then c\<lparr>cn_sent := cn_sent c @ [msg]\<rparr> else c\<lparr>cn_open := False\<rparr>)"

text \<open>What a connection sees of the environment in one step.\<close>

record sync_env =
  se_rpc :: rpc_env
  se_verified :: "i64 option"
  se_send_ok :: bool

fun handle_client_message ::
  "sync_env \<Rightarrow> 'j client_message \<Rightarrow> 'j connection \<times> 'j sync_room \<times> server_state \<Rightarrow>
   'j connection \<times> 'j sync_room \<times> server_state" where
  "handle_client_message env (Hello device_id device_name platform) (c, room, s) =
     (send_conn (se_send_ok env)
        (RipTasksSnapshot (task_snapshots_for_user (re_admin_id (se_rpc env)) (ss_tasks s)
           (cn_telegram_id c)))
        (c\<lparr>cn_my_device_id := Some device_id\<rparr>),
      hello_room (cn_my_device_id c) (cn_connection_id c) device_id device_name platform room, s)"
| "handle_client_message env (ReportState snap) (c, room, s) =
     (c, report_state_room (cn_my_device_id c) snap room, s)"
| "handle_client_message env (CommandMsg action data) (c, room, s) =
     (c, send_room (SrvCommand action data) room, s)"
| "handle_client_message env (TransferPlayback target_device_id) (c, room, s) =
     (c, transfer_room target_device_id room, s)"
| "handle_client_message env (CreateRipTask request_id request) (c, room, s) =
     (let (reply, s') = dispatch_rip_task_rpc (se_rpc env) (se_verified env) (cn_telegram_id c)
                          (RpcCreate request_id request) s
      in (send_conn (se_send_ok env) reply c, room, s'))"
| "handle_client_message env (CancelRipTask request_id task_id) (c, room, s) =
     (let (reply, s') = dispatch_rip_task_rpc (se_rpc env) (se_verified env) (cn_telegram_id c)
                          (RpcCancel request_id task_id) s
      in (send_conn (se_send_ok env) reply c, room, s'))"

text \<open>A text frame that does not parse; \<open>rid\<close> is the request id recovered from it.\<close>

definition handle_malformed :: "sync_env \<Rightarrow> string option \<Rightarrow> 'j connection \<Rightarrow> 'j connection" where
  "handle_malformed env rid c =
     send_conn (se_send_ok env) (SrvError rid RpcValidation ''malformed client message'' False) c"

definition handle_auth_recheck :: "sync_env \<Rightarrow> 'j connection \<Rightarrow> 'j connection" where
  "handle_auth_recheck env c =
     (if se_verified env = Some (cn_telegram_id c) then c else c\<lparr>cn_open := False\<rparr>)"

text \<open>An event of the task channel; \<open>None\<close> is a receiver that lagged behind.\<close>

definition handle_task_event ::
  "sync_env \<Rightarrow> task_sync_event option \<Rightarrow> 'j connection \<Rightarrow> server_state \<Rightarrow> 'j connection" where
  "handle_task_event env ev c s =
     (let outgoing =
        (if cn_my_device_id c = None then None
         else case ev of
                Some (Updated task_id) \<Rightarrow>
                  map_option (\<lambda>task. RipTaskUpdated
                      (visible_snapshot (re_admin_id (se_rpc env)) (cn_telegram_id c) task))
                    (registry_get task_id (ss_tasks s))
              | Some (Dismissed task_id) \<Rightarrow> Some (RipTaskDismissed task_id)
              | None \<Rightarrow> Some (RipTasksSnapshot (task_snapshots_for_user
                          (re_admin_id (se_rpc env)) (ss_tasks s) (cn_telegram_id c))))
      in case outgoing of None \<Rightarrow> c | Some msg \<Rightarrow> send_conn (se_send_ok env) msg c)"

section \<open>All connections\<close>

record 'j sync_world =
  sw_rooms :: "'j playback_sync_hub"
  sw_connections :: "'j connection list"
  sw_server :: server_state

definition sync_init :: "'j sync_world" where
  "sync_init = \<lparr>sw_rooms = [], sw_connections = [], sw_server = server_init\<rparr>"

datatype 'j sync_event =
  Connected i64 u64
| ClientFrame nat sync_env "'j client_message"
| MalformedFrame nat sync_env "string option"
| AuthRecheck nat sync_env
| TaskEvent nat sync_env "task_sync_event option"
| Disconnected nat

text \<open>After its loop a connection leaves its room; a closed one does nothing more.\<close>

definition leave :: "nat \<Rightarrow> 'j sync_world \<Rightarrow> 'j sync_world" where
  "leave k w =
     (let c = sw_connections w ! k;
          (room, rooms) = get_or_create_room (cn_telegram_id c) (sw_rooms w)
      in w\<lparr>sw_connections := (sw_connections w)[k := c\<lparr>cn_open := False\<rparr>],
           sw_rooms := (case cn_my_device_id c of
                          None \<Rightarrow> sw_rooms w
                        | Some dev \<Rightarrow> hm_insert (cn_telegram_id c)
                                        (disconnect_room dev (cn_connection_id c) room) rooms)\<rparr>)"

definition settle :: "nat \<Rightarrow> 'j connection \<Rightarrow> 'j sync_world \<Rightarrow> 'j sync_world" where
  "settle k c w =
     (let w' = w\<lparr>sw_connections := (sw_connections w)[k := c]\<rparr>
      in if cn_open c then w' else leave k w')"

definition is_open :: "nat \<Rightarrow> 'j sync_world \<Rightarrow> bool" where
  "is_open k w \<longleftrightarrow> k < length (sw_connections w) \<and> cn_open (sw_connections w ! k)"

fun sync_step :: "'j sync_world \<Rightarrow> 'j sync_event \<Rightarrow> 'j sync_world" where
  "sync_step w (Connected telegram_id connection_id) =
     w\<lparr>sw_rooms := snd (get_or_create_room telegram_id (sw_rooms w)),
       sw_connections := sw_connections w @
         [\<lparr>cn_telegram_id = telegram_id, cn_connection_id = connection_id, cn_my_device_id = None,
           cn_open = True, cn_sent = []\<rparr>]\<rparr>"
| "sync_step w (ClientFrame k env msg) =
     (if \<not> is_open k w then w
      else
        let c = sw_connections w ! k;
            (room, rooms) = get_or_create_room (cn_telegram_id c) (sw_rooms w);
            (c', room', s') = handle_client_message env msg (c, room, sw_server w)
        in settle k c' (w\<lparr>sw_rooms := hm_insert (cn_telegram_id c) room' rooms, sw_server := s'\<rparr>))"
| "sync_step w (MalformedFrame k env rid) =
     (if \<not> is_open k w then w
      else settle k (handle_malformed env rid (sw_connections w ! k)) w)"
| "sync_step w (AuthRecheck k env) =
     (if \<not> is_open k w then w
      else settle k (handle_auth_recheck env (sw_connections w ! k)) w)"
| "sync_step w (TaskEvent k env ev) =
     (if \<not> is_open k w then w
      else settle k (handle_task_event env ev (sw_connections w ! k) (sw_server w)) w)"
| "sync_step w (Disconnected k) = (if \<not> is_open k w then w else leave k w)"

definition sync_run :: "'j sync_event list \<Rightarrow> 'j sync_world" where
  "sync_run es = foldl sync_step sync_init es"

section \<open>The invariant of a room\<close>

definition room_ok :: "'j sync_room \<Rightarrow> bool" where
  "room_ok room \<longleftrightarrow>
     hm_invar (rm_devices room) \<and> hm_invar (rm_device_connections room) \<and>
     dom (hm_get (rm_devices room)) = dom (hm_get (rm_device_connections room)) \<and>
     (\<forall>d info. hm_get (rm_devices room) d = Some info \<longrightarrow> cd_device_id info = d) \<and>
     (rm_active_device_id room = None \<longrightarrow> rm_devices room = [])"

lemma hm_remove_Nil [simp]: "hm_remove k [] = []"
  by (simp add: hm_remove_def)

lemma room_ok_new: "room_ok new_room"
  by (simp add: room_ok_def new_room_def dom_def)

lemma room_ok_send [simp]: "room_ok (send_room m room) = room_ok room"
  by (simp add: room_ok_def send_room_def)

lemma room_ok_remove: "room_ok room \<Longrightarrow> room_ok (snd (remove_device_connection room d c))"
  by (auto simp: room_ok_def remove_device_connection_def hm_invar_remove hm_get_remove)

lemma room_ok_hello: "room_ok room \<Longrightarrow> room_ok (hello_room prev c d name pf room)"
proof -
  assume ok: "room_ok room"
  define room1 where "room1 = (case prev of
      Some p \<Rightarrow> if p \<noteq> d then snd (remove_device_connection room p c) else room | None \<Rightarrow> room)"
  have ok1: "room_ok room1" using ok by (auto simp: room1_def room_ok_remove split: option.split)
  show ?thesis
    unfolding hello_room_def Let_def room1_def [symmetric]
    using ok1 by (auto simp: room_ok_def hm_invar_insert hm_get_insert send_room_def split: if_splits)
qed

lemma room_ok_report: "room_ok room \<Longrightarrow> room_ok (report_state_room d j room)"
  by (simp add: report_state_room_def Let_def room_ok_def send_room_def)

lemma room_ok_transfer: "room_ok room \<Longrightarrow> room_ok (transfer_room d room)"
  by (simp add: transfer_room_def Let_def room_ok_def send_room_def)

lemma hm_keys_Nil: "hm_keys m = [] \<longleftrightarrow> m = []"
  by (simp add: hm_keys_def)

lemma room_ok_disconnect: "room_ok room \<Longrightarrow> room_ok (disconnect_room d c room)"
proof -
  assume ok: "room_ok room"
  obtain b room1 where r: "remove_device_connection room d c = (b, room1)"
    by (cases "remove_device_connection room d c")
  with room_ok_remove [OF ok, of d c] have "room_ok room1" by simp
  with r show ?thesis
    by (auto simp: disconnect_room_def Let_def room_ok_def send_room_def hm_keys_Nil split: list.split)
qed

lemma handle_client_message_room:
  "room_ok room \<Longrightarrow> handle_client_message env msg (c, room, s) = (c', room', s') \<Longrightarrow> room_ok room'"
  by (cases msg) (auto simp: room_ok_hello room_ok_report room_ok_transfer Let_def split: prod.splits)

lemma handle_client_message_user:
  "handle_client_message env msg (c, room, s) = (c', room', s') \<Longrightarrow>
   cn_telegram_id c' = cn_telegram_id c \<and> cn_connection_id c' = cn_connection_id c"
  by (cases msg) (auto simp: send_conn_def Let_def split: prod.splits if_splits)

section \<open>The invariant of the hub\<close>

definition sync_inv :: "'j sync_world \<Rightarrow> bool" where
  "sync_inv w \<longleftrightarrow> hm_invar (sw_rooms w) \<and>
     (\<forall>u room. hm_get (sw_rooms w) u = Some room \<longrightarrow> room_ok room) \<and> rpc_inv (sw_server w)"

lemma get_or_create_room_ok:
  assumes "hm_invar rooms" and "\<forall>u room. hm_get rooms u = Some room \<longrightarrow> room_ok room"
    and "get_or_create_room t rooms = (room, rooms')"
  shows "room_ok room \<and> hm_invar rooms' \<and> (\<forall>u room. hm_get rooms' u = Some room \<longrightarrow> room_ok room)"
  using assms
  by (auto simp: get_or_create_room_def hm_invar_insert hm_get_insert room_ok_new
      split: option.splits if_splits)

lemma leave_inv: "sync_inv w \<Longrightarrow> sync_inv (leave k w)"
proof -
  assume inv: "sync_inv w"
  obtain room rooms where r: "get_or_create_room (cn_telegram_id (sw_connections w ! k)) (sw_rooms w) =
      (room, rooms)" by (cases "get_or_create_room (cn_telegram_id (sw_connections w ! k)) (sw_rooms w)")
  have "room_ok room \<and> hm_invar rooms \<and> (\<forall>u room. hm_get rooms u = Some room \<longrightarrow> room_ok room)"
    by (rule get_or_create_room_ok [OF _ _ r]) (use inv in \<open>auto simp: sync_inv_def\<close>)
  with inv r show ?thesis
    by (auto simp: leave_def Let_def sync_inv_def hm_invar_insert hm_get_insert room_ok_disconnect
        split: option.splits if_splits)
qed

lemma settle_inv: "sync_inv w \<Longrightarrow> sync_inv (settle k c w)"
proof -
  assume "sync_inv w"
  then have "sync_inv (w\<lparr>sw_connections := (sw_connections w)[k := c]\<rparr>)" by (simp add: sync_inv_def)
  then show ?thesis by (simp add: settle_def Let_def leave_inv)
qed

lemma dispatch_inv: "rpc_inv s \<Longrightarrow> dispatch_rip_task_rpc env v u req s = (m, s') \<Longrightarrow> rpc_inv s'"
  using rpc.inv_step [of s "(env, u, req)"]
  by (auto simp: dispatch_rip_task_rpc_def rpc_step_def Let_def split: if_splits)

lemma handle_client_message_server:
  "rpc_inv s \<Longrightarrow> handle_client_message env msg (c, room, s) = (c', room', s') \<Longrightarrow> rpc_inv s'"
  by (cases msg) (auto simp: Let_def split: prod.splits intro: dispatch_inv)

lemma client_frame_inv:
  assumes inv: "sync_inv w"
  shows "sync_inv (sync_step w (ClientFrame k env msg))"
proof (cases "is_open k w")
  case True
  define c where "c = sw_connections w ! k"
  obtain room rooms where r: "get_or_create_room (cn_telegram_id c) (sw_rooms w) = (room, rooms)"
    by (cases "get_or_create_room (cn_telegram_id c) (sw_rooms w)")
  obtain c' room' s' where h: "handle_client_message env msg (c, room, sw_server w) = (c', room', s')"
    by (metis prod_cases3)
  have "room_ok room \<and> hm_invar rooms \<and> (\<forall>u room. hm_get rooms u = Some room \<longrightarrow> room_ok room)"
    by (rule get_or_create_room_ok [OF _ _ r]) (use inv in \<open>auto simp: sync_inv_def\<close>)
  moreover have "rpc_inv s'" using handle_client_message_server [OF _ h] inv by (simp add: sync_inv_def)
  ultimately have "sync_inv (w\<lparr>sw_rooms := hm_insert (cn_telegram_id c) room' rooms, sw_server := s'\<rparr>)"
    using handle_client_message_room [OF _ h] by (auto simp: sync_inv_def hm_invar_insert hm_get_insert)
  with True r h show ?thesis by (simp add: c_def [symmetric] settle_inv)
qed (use inv in simp)

lemma sync_step_inv: "sync_inv w \<Longrightarrow> sync_inv (sync_step w ev)"
proof (cases ev)
  case (Connected t i)
  assume inv: "sync_inv w"
  obtain room rooms where r: "get_or_create_room t (sw_rooms w) = (room, rooms)"
    by (cases "get_or_create_room t (sw_rooms w)")
  with get_or_create_room_ok [OF _ _ r] inv Connected show ?thesis by (auto simp: sync_inv_def)
qed (simp_all add: client_frame_inv settle_inv leave_inv del: sync_step.simps(2))

interpretation sync: event_machine sync_init sync_step sync_inv
proof unfold_locales
  show "sync_inv sync_init"
    using rpc.inv_init by (simp add: sync_inv_def sync_init_def)
qed (rule sync_step_inv)

section \<open>Who may change what\<close>

definition event_user :: "'j sync_world \<Rightarrow> 'j sync_event \<Rightarrow> i64" where
  "event_user w ev =
     (case ev of
        Connected t _ \<Rightarrow> t
      | ClientFrame k _ _ \<Rightarrow> cn_telegram_id (sw_connections w ! k)
      | MalformedFrame k _ _ \<Rightarrow> cn_telegram_id (sw_connections w ! k)
      | AuthRecheck k _ \<Rightarrow> cn_telegram_id (sw_connections w ! k)
      | TaskEvent k _ _ \<Rightarrow> cn_telegram_id (sw_connections w ! k)
      | Disconnected k \<Rightarrow> cn_telegram_id (sw_connections w ! k))"

lemma get_or_create_other:
  "get_or_create_room t rooms = (room, rooms') \<Longrightarrow> u \<noteq> t \<Longrightarrow> hm_get rooms' u = hm_get rooms u"
  by (auto simp: get_or_create_room_def hm_get_insert split: option.splits)

lemma leave_other:
  "u \<noteq> cn_telegram_id (sw_connections w ! k) \<Longrightarrow> hm_get (sw_rooms (leave k w)) u = hm_get (sw_rooms w) u"
  by (auto simp: leave_def Let_def hm_get_insert get_or_create_other split: prod.split option.split)

lemma settle_other:
  "k < length (sw_connections w) \<Longrightarrow> u \<noteq> cn_telegram_id c \<Longrightarrow>
   hm_get (sw_rooms (settle k c w)) u = hm_get (sw_rooms w) u"
  by (simp add: settle_def Let_def leave_other)

lemma same_user:
  "cn_telegram_id (handle_malformed env rid c) = cn_telegram_id c"
  "cn_telegram_id (handle_auth_recheck env c) = cn_telegram_id c"
  "cn_telegram_id (handle_task_event env ev c s) = cn_telegram_id c"
  by (simp_all add: handle_malformed_def handle_auth_recheck_def handle_task_event_def send_conn_def
      Let_def split: option.split)

lemma sync_step_other:
  assumes "u \<noteq> event_user w ev"
  shows "hm_get (sw_rooms (sync_step w ev)) u = hm_get (sw_rooms w) u"
proof (cases ev)
  case (Connected t i)
  with assms show ?thesis
    by (cases "get_or_create_room t (sw_rooms w)") (simp add: event_user_def get_or_create_other)
next
  case (ClientFrame k env msg)
  show ?thesis
  proof (cases "is_open k w")
    case True
    define c where "c = sw_connections w ! k"
    have u: "u \<noteq> cn_telegram_id c" using assms ClientFrame by (simp add: event_user_def c_def)
    obtain room rooms where r: "get_or_create_room (cn_telegram_id c) (sw_rooms w) = (room, rooms)"
      by (cases "get_or_create_room (cn_telegram_id c) (sw_rooms w)")
    obtain c' room' s' where h: "handle_client_message env msg (c, room, sw_server w) = (c', room', s')"
      by (metis prod_cases3)
    from True ClientFrame r h have "sync_step w ev =
        settle k c' (w\<lparr>sw_rooms := hm_insert (cn_telegram_id c) room' rooms, sw_server := s'\<rparr>)"
      by (simp add: c_def)
    with True u handle_client_message_user [OF h] get_or_create_other [OF r u] show ?thesis
      by (simp add: settle_other is_open_def hm_get_insert)
  qed (use ClientFrame in simp)
qed (use assms in \<open>simp_all add: event_user_def settle_other same_user leave_other is_open_def\<close>)

text \<open>The snapshot of a room survives everything but a report of its active device.\<close>

lemma snapshot_kept [simp]:
  "rm_latest_snapshot (send_room m room) = rm_latest_snapshot room"
  "rm_latest_snapshot (hello_room prev c d n p room) = rm_latest_snapshot room"
  "rm_latest_snapshot (transfer_room d room) = rm_latest_snapshot room"
  "rm_latest_snapshot (disconnect_room d c room) = rm_latest_snapshot room"
  by (auto simp: send_room_def hello_room_def transfer_room_def disconnect_room_def Let_def
      remove_device_connection_def split: option.split if_splits)

lemma report_state_changes:
  "rm_latest_snapshot (report_state_room d j room) \<noteq> rm_latest_snapshot room \<Longrightarrow>
   d \<noteq> None \<and> d = rm_active_device_id room \<and> rm_latest_snapshot (report_state_room d j room) = Some j"
  by (auto simp: report_state_room_def Let_def split: option.splits if_splits)

lemma handle_client_message_snapshot:
  assumes "handle_client_message env msg (c, room, s) = (c', room', s')"
    and "rm_latest_snapshot room' \<noteq> rm_latest_snapshot room"
  shows "\<exists>j. msg = ReportState j \<and> rm_latest_snapshot room' = Some j \<and>
    cn_my_device_id c \<noteq> None \<and> cn_my_device_id c = rm_active_device_id room"
  using assms
  by (cases msg) (auto simp: Let_def split: prod.splits dest!: report_state_changes)

section \<open>Properties\<close>

text \<open>
  C8: Rooms stay consistent. In every reachable state the table of devices and the table of their
  connections of every room have the same devices, each device is listed under its own id, and a
  room with a connected device has an active device.
\<close>

theorem rooms_consistent:
  assumes "hm_get (sw_rooms (sync_run es)) user = Some room"
  shows "dom (hm_get (rm_devices room)) = dom (hm_get (rm_device_connections room)) \<and>
    (\<forall>d info. hm_get (rm_devices room) d = Some info \<longrightarrow> cd_device_id info = d) \<and>
    (rm_devices room \<noteq> [] \<longrightarrow> rm_active_device_id room \<noteq> None)"
  using sync.inv_run [of es] assms by (auto simp: sync_run_def sync_inv_def room_ok_def)

definition demo_sync_env :: sync_env where
  "demo_sync_env = \<lparr>se_rpc = demo_rpc_env, se_verified = Some 5, se_send_ok = True\<rparr>"

theorem rooms_consistent_witness:
  "\<exists>room. hm_get (sw_rooms (sync_run [Connected 5 1, ClientFrame 0 demo_sync_env (Hello ''d'' ''n'' ''p'')]
      :: unit sync_world)) 5 = Some room \<and> rm_active_device_id room \<noteq> None"
proof -
  let ?es = "[Connected 5 1, ClientFrame 0 demo_sync_env (Hello ''d'' ''n'' ''p'')] :: unit sync_event list"
  have "map_option (\<lambda>room. rm_devices room \<noteq> []) (hm_get (sw_rooms (sync_run ?es)) 5) = Some True"
    by code_simp
  then obtain room where r: "hm_get (sw_rooms (sync_run ?es)) 5 = Some room" and d: "rm_devices room \<noteq> []"
    by auto
  from rooms_consistent [OF r] d r show ?thesis by blast
qed

text \<open>
  Only the active device reports playback. When a client message changes a room's latest
  snapshot, it is a state report, the connection has said hello as the device that is active in
  the room, and the new snapshot is the reported one.
\<close>

theorem only_active_device_reports:
  assumes "handle_client_message env msg (c, room, s) = (c', room', s')"
    and "rm_latest_snapshot room' \<noteq> rm_latest_snapshot room"
  shows "\<exists>j. msg = ReportState j \<and> rm_latest_snapshot room' = Some j \<and>
    cn_my_device_id c \<noteq> None \<and> cn_my_device_id c = rm_active_device_id room"
  by (rule handle_client_message_snapshot [OF assms])

definition demo_conn :: "nat connection" where
  "demo_conn = \<lparr>cn_telegram_id = 5, cn_connection_id = 1, cn_my_device_id = Some ''d'', cn_open = True,
     cn_sent = []\<rparr>"

theorem only_active_device_reports_witness:
  "\<exists>j :: nat. ReportState (3 :: nat) = ReportState j \<and>
     rm_latest_snapshot (report_state_room (Some ''d'') 3 (new_room\<lparr>rm_active_device_id := Some ''d''\<rparr>)) = Some j"
  using only_active_device_reports [of demo_sync_env "ReportState 3" demo_conn
      "new_room\<lparr>rm_active_device_id := Some ''d''\<rparr>" server_init demo_conn
      "report_state_room (Some ''d'') 3 (new_room\<lparr>rm_active_device_id := Some ''d''\<rparr>)" server_init]
  by (simp add: demo_conn_def report_state_room_def new_room_def)

text \<open>
  A stale connection cannot evict a device. When a device has connected again, the end of its
  earlier connection leaves the devices, the active device and the snapshot of the room as they
  are and only announces the room's state; when the device's own connection ends and it was the
  active one, another connected device takes over, if there is one.
\<close>

theorem disconnect_spec:
  assumes "room_ok room"
  shows "(hm_get (rm_device_connections room) d \<noteq> Some c \<longrightarrow>
      disconnect_room d c room = send_room (room_state room) room) \<and>
    (hm_get (rm_device_connections room) d = Some c \<longrightarrow>
      hm_get (rm_devices (disconnect_room d c room)) = (hm_get (rm_devices room))(d := None) \<and>
      (rm_active_device_id room = Some d \<longrightarrow>
         (case rm_active_device_id (disconnect_room d c room) of
            None \<Rightarrow> rm_devices (disconnect_room d c room) = []
          | Some d' \<Rightarrow> hm_get (rm_devices (disconnect_room d c room)) d' \<noteq> None)) \<and>
      (rm_active_device_id room \<noteq> Some d \<longrightarrow>
         rm_active_device_id (disconnect_room d c room) = rm_active_device_id room))"
proof -
  have "hm_get (rm_device_connections room) d = Some c \<Longrightarrow> hm_get (rm_devices room) d \<noteq> None"
    using assms unfolding room_ok_def by blast
  moreover have "k \<noteq> d \<and> hm_get (rm_devices room) k \<noteq> None"
    if "hm_keys (hm_remove d (rm_devices room)) = k # ks" for k ks
    using hm_keys_get [of k "hm_remove d (rm_devices room)"] that by (auto simp: hm_get_remove split: if_splits)
  ultimately show ?thesis
    by (auto simp: disconnect_room_def remove_device_connection_def send_room_def hm_get_remove Let_def
        hm_keys_Nil split: list.split)
qed

theorem disconnect_spec_witness:
  "disconnect_room ''d'' 7 (new_room :: unit sync_room) = send_room (room_state new_room) new_room"
  using disconnect_spec [OF room_ok_new, of "''d''" 7] by (simp add: new_room_def)

text \<open>
  A device that introduces itself again under another id leaves its old id behind as the active
  device: in this reachable state the room names \<open>a\<close> as active although only \<open>b\<close> is connected, and
  a state report of \<open>b\<close> is ignored.
\<close>

theorem renamed_device_dangling:
  "map_option
     (\<lambda>room. (rm_active_device_id room, hm_keys (rm_devices room), rm_latest_snapshot room))
     (hm_get (sw_rooms (sync_run
        [Connected 5 1, ClientFrame 0 demo_sync_env (Hello ''a'' ''n'' ''p''),
         ClientFrame 0 demo_sync_env (Hello ''b'' ''n'' ''p''),
         ClientFrame 0 demo_sync_env (ReportState (3 :: nat))])) 5) =
   Some (Some ''a'', [''b''], None)"
  by code_simp

text \<open>
  A task list sent to a client holds every registered task once, the newest first, with the
  ownership flag computed for that client: its own tasks, and all of them for the administrator.
\<close>

theorem task_snapshots_spec:
  "mset (task_snapshots_for_user admin tasks user) =
     mset (map (\<lambda>t. task_snapshot t (tm_owner_id t = user \<or> user = admin)) (registry_all tasks)) \<and>
   (\<exists>ts. task_snapshots_for_user admin tasks user = map (visible_snapshot admin user) ts \<and>
      mset ts = mset (registry_all tasks) \<and>
      sorted_wrt (\<lambda>a b. tm_created_at a \<ge> tm_created_at b) ts)"
proof -
  define f where "f = (\<lambda>task. (tm_created_at task, visible_snapshot admin user task))"
  define ts where "ts = sort_key (\<lambda>t. - int (tm_created_at t)) (registry_all tasks)"
  have "sort_key (\<lambda>(created_at, snap). - int created_at) (map f xs) =
      map f (sort_key (\<lambda>t. - int (tm_created_at t)) xs)" for xs
  proof (induction xs)
    case (Cons x xs)
    have "insort_key (\<lambda>(created_at, snap). - int created_at) (f x) (map f ys) =
        map f (insort_key (\<lambda>t. - int (tm_created_at t)) x ys)" for ys
      by (induction ys) (auto simp: f_def)
    with Cons show ?case by simp
  qed simp
  then have eq: "task_snapshots_for_user admin tasks user = map (visible_snapshot admin user) ts"
    by (simp add: task_snapshots_for_user_def f_def ts_def comp_def)
  have "sorted (map (\<lambda>t. - int (tm_created_at t)) ts)" by (simp add: ts_def)
  then have "sorted_wrt (\<lambda>a b. tm_created_at a \<ge> tm_created_at b) ts" by (simp add: sorted_map)
  with eq show ?thesis
    by (auto simp: ts_def visible_snapshot_def [abs_def] intro!: exI [of _ ts])
qed

text \<open>
  A rip-task request on a socket runs only while the session token still belongs to the
  connection's user; otherwise it is answered as unauthorised and the server's state is
  unchanged.
\<close>

theorem rpc_requires_session:
  assumes "verified \<noteq> Some user"
  shows "dispatch_rip_task_rpc env verified user req s =
    (SrvError (Some (request_id_of req)) RpcNotAuthorized ''session is no longer authorized'' False, s)"
  using assms by (simp add: dispatch_rip_task_rpc_def)

theorem rpc_requires_session_witness:
  "snd (dispatch_rip_task_rpc demo_rpc_env None 5 (RpcCancel ''r'' ''7'') server_init
     :: unit server_message \<times> server_state) = server_init"
  by (subst rpc_requires_session) simp_all

end
