(* ===== verification/Orchestrator.thy ===== *)
theory Orchestrator
  imports Rip_Priority Task_Model
begin

text \<open>
  The life of a rip job in the orchestrator: \<open>start_task\<close>, \<open>cancel_task\<close>, \<open>get_task\<close> and
  \<open>get_active_tasks\<close> of \<open>crates/engine/src/orchestrator/mod.rs\<close>, the table of in-flight targets of
  \<open>inflight.rs\<close>, \<open>terminalize\<close> and \<open>set_phase\<close> of \<open>events.rs\<close> and the job table guard of \<open>job_run.rs\<close>.

  Jobs run concurrently. Each critical section of \<open>start_task\<close>, \<open>terminalize\<close> and \<open>cancel_task\<close> is one function of the
  world, and the step relation interleaves them freely; \<open>run_job\<close> itself is the environment: a running job may
  change its phase and counters and ends with some result. An entry of the in-flight table is named by
  the job that owns it; waiting for it is \<open>Waiting\<close>, and \<open>notify_waiters\<close> wakes the jobs that
  wait at that moment. Job ids come from an external generator, which does not repeat.
\<close>

section \<open>State\<close>

datatype terminal_task_state = Completed | Cancelled | Failed

record active_rip_task =
  at_id :: string
  at_source_track_ids :: "string list"
  at_chat_id :: i64
  at_delivery_chat_id :: i64
  at_user_id :: i64
  at_user_name :: "string option"
  at_job_header :: string
  at_total_tracks :: nat
  at_controller_cancelled :: bool
  at_is_cancelled :: bool
  at_cancelled_by :: "string option"
  at_cached_count :: nat
  at_ripped_count :: nat
  at_failed_count :: nat
  at_completed :: bool
  at_start_time_ms :: u64
  at_queue_position :: "nat option"
  at_phase :: task_phase
  at_terminal_state :: "terminal_task_state option"
  at_skipped_count :: nat
  at_is_cache_only :: bool
  at_is_group :: bool
  at_reply_to_message_id :: "i64 option"

record inflight_target_key =
  ik_kind :: target_kind
  ik_id :: string
  ik_storefront :: "string option"

datatype orchestrator_event =
  EvCreated string
| EvProgress string "task_activity option"
| EvCompleted string
| EvCancelled string "string option"
| EvFailed string string

text \<open>
  Where a job's \<open>start_task\<close> stands. \<open>Woken\<close> is a waiting job whose notification has come and that has
  not been polled since: \<open>select!\<close> may still take the branch of the cancellation. A job whose end is \<open>Deciding\<close> has read
  \<open>is_cancelled\<close> and is about to call \<open>terminalize\<close>, one that is \<open>Announcing\<close> has left the lock in it with the event still to be sent,
  one that is \<open>Leaving\<close> is still in the job table. \<open>Dropped\<close> is a future its caller gave up.
\<close>

datatype job_pc =
  Starting | Checking | Reserving | Blocking string | Waiting string | Woken | RunningJob | Finishing "string option"
| Deciding terminal_task_state bool "string option" | Announcing "orchestrator_event option" | Leaving
| Ended | Dropped

record orch_world =
  ow_jobs :: "string list"
  ow_shared :: "string \<Rightarrow> active_rip_task option"
  ow_pc :: "string \<Rightarrow> job_pc option"
  ow_keys :: "string \<Rightarrow> inflight_target_key list"
  ow_inflight :: "inflight_target_key \<Rightarrow> string option"
  ow_success :: "string \<Rightarrow> bool"
  ow_events :: "orchestrator_event list"

definition orch_init :: orch_world where
  "orch_init = \<lparr>ow_jobs = [], ow_shared = Map.empty, ow_pc = Map.empty, ow_keys = (\<lambda>_. []),
     ow_inflight = Map.empty, ow_success = (\<lambda>_. False), ow_events = []\<rparr>"

section \<open>Starting\<close>

definition kind_header :: "target_kind \<Rightarrow> string" where
  "kind_header k = (case k of Album \<Rightarrow> ''Album '' | Playlist \<Rightarrow> ''Playlist '' | Artist \<Rightarrow> ''Artist ''
     | Track \<Rightarrow> ''Track '')"

definition job_header :: "string \<Rightarrow> rip_task_options \<Rightarrow> string" where
  "job_header dflt options =
     (case ro_parsed_items options of
        [it] \<Rightarrow> kind_header (pt_kind it) @ pt_id it
      | [] \<Rightarrow> dflt
      | items \<Rightarrow> ''Batch ('' @ show_nat (length items) @ '' links)'')"

definition target_keys :: "rip_task_options \<Rightarrow> inflight_target_key list" where
  "target_keys options =
     map (\<lambda>item. \<lparr>ik_kind = pt_kind item, ik_id = pt_id item,
            ik_storefront = (case pt_storefront item of
                               Some s \<Rightarrow> Some s
                             | None \<Rightarrow> ro_single_storefront options)\<rparr>)
       (ro_parsed_items options)"

definition new_job :: "string \<Rightarrow> string \<Rightarrow> u64 \<Rightarrow> rip_task_options \<Rightarrow> active_rip_task" where
  "new_job job_id dflt now options =
     \<lparr>at_id = job_id, at_source_track_ids = map pt_id (ro_parsed_items options),
      at_chat_id = ro_chat_id options, at_delivery_chat_id = ro_delivery_chat_id options,
      at_user_id = ro_user_id options, at_user_name = ro_user_name options,
      at_job_header = job_header dflt options, at_total_tracks = 0,
      at_controller_cancelled = False, at_is_cancelled = False, at_cancelled_by = None,
      at_cached_count = 0, at_ripped_count = 0, at_failed_count = 0, at_completed = False,
      at_start_time_ms = now, at_queue_position = None, at_phase = Resolving,
      at_terminal_state = None, at_skipped_count = 0, at_is_cache_only = ro_is_cache_only options,
      at_is_group = ro_is_group options,
      at_reply_to_message_id = ro_reply_to_message_id options\<rparr>"

definition emit :: "orchestrator_event \<Rightarrow> orch_world \<Rightarrow> orch_world" where
  "emit ev w = w\<lparr>ow_events := ow_events w @ [ev]\<rparr>"

definition set_pc :: "string \<Rightarrow> job_pc \<Rightarrow> orch_world \<Rightarrow> orch_world" where
  "set_pc j pc w = w\<lparr>ow_pc := (ow_pc w)(j \<mapsto> pc)\<rparr>"

definition on_job :: "string \<Rightarrow> (active_rip_task \<Rightarrow> active_rip_task) \<Rightarrow> orch_world \<Rightarrow> orch_world" where
  "on_job j f w = w\<lparr>ow_shared := (ow_shared w)(j := map_option f (ow_shared w j))\<rparr>"

definition begin_task :: "string \<Rightarrow> string \<Rightarrow> u64 \<Rightarrow> rip_task_options \<Rightarrow> orch_world \<Rightarrow> orch_world" where
  "begin_task j dflt now options w =
     set_pc j Starting
       (w\<lparr>ow_shared := (ow_shared w)(j \<mapsto> new_job j dflt now options),
          ow_jobs := ow_jobs w @ [j], ow_keys := (ow_keys w)(j := target_keys options)\<rparr>)"

definition announce_created :: "string \<Rightarrow> orch_world \<Rightarrow> orch_world" where
  "announce_created j w = emit (EvCreated j) (set_pc j Checking w)"

section \<open>The in-flight table\<close>

text \<open>The first critical section of the loop: is one of the targets in flight?\<close>

definition find_inflight :: "inflight_target_key list \<Rightarrow> orch_world \<Rightarrow> string option" where
  "find_inflight ks w =
     (case List.map_filter (ow_inflight w) ks of [] \<Rightarrow> None | e # _ \<Rightarrow> Some e)"

definition check_inflight :: "string \<Rightarrow> orch_world \<Rightarrow> orch_world" where
  "check_inflight j w =
     (case find_inflight (ow_keys w j) w of
        None \<Rightarrow> set_pc j Reserving w
      | Some e \<Rightarrow> set_pc j (Blocking e) w)"

text \<open>Its second one, taken after the first has been released: insert the new entry.\<close>

definition reserve_inflight :: "string \<Rightarrow> orch_world \<Rightarrow> orch_world" where
  "reserve_inflight j w =
     set_pc j RunningJob
       (w\<lparr>ow_inflight := (\<lambda>k. if k \<in> set (ow_keys w j) then Some j else ow_inflight w k)\<rparr>)"

definition set_phase :: "string \<Rightarrow> task_phase \<Rightarrow> orch_world \<Rightarrow> orch_world" where
  "set_phase j phase w = on_job j (\<lambda>t. t\<lparr>at_phase := phase\<rparr>) w"

text \<open>A duplicate announces that it waits and then waits for the entry's notification.\<close>

definition block_on :: "string \<Rightarrow> string \<Rightarrow> orch_world \<Rightarrow> orch_world" where
  "block_on j e w =
     set_pc j (Waiting e)
       (emit (EvProgress j (Some (ActWaitingDuplicate e))) (set_phase j WaitingDuplicate w))"

text \<open>\<open>InflightGuard::finish\<close> and \<open>cleanup\<close>: drop the keys, then wake who waits now.\<close>

definition wake :: "string \<Rightarrow> (string \<Rightarrow> job_pc option) \<Rightarrow> string \<Rightarrow> job_pc option" where
  "wake e pcs j = (if pcs j = Some (Waiting e) then Some Woken else pcs j)"

definition resume :: "string \<Rightarrow> orch_world \<Rightarrow> orch_world" where
  "resume j w = set_pc j Checking w"

definition cleanup_inflight :: "string \<Rightarrow> orch_world \<Rightarrow> orch_world" where
  "cleanup_inflight j w =
     w\<lparr>ow_inflight := (\<lambda>k. if k \<in> set (ow_keys w j) then None else ow_inflight w k),
       ow_pc := wake j (ow_pc w)\<rparr>"

definition finish_inflight :: "string \<Rightarrow> string option \<Rightarrow> orch_world \<Rightarrow> orch_world" where
  "finish_inflight j err w =
     set_pc j (Finishing err)
       (cleanup_inflight j
         (if err = None then w\<lparr>ow_success := (ow_success w)(j := True)\<rparr> else w))"

section \<open>Ending\<close>

text \<open>
  The end of \<open>start_task\<close> after the job has returned; \<open>None\<close> is success. It reads \<open>is_cancelled\<close> under the lock of the job
  and chooses the arguments of \<open>terminalize\<close>: the state, whether a summary is at hand, and the text of an error.
\<close>

definition decide_end :: "string \<Rightarrow> string option \<Rightarrow> orch_world \<Rightarrow> orch_world" where
  "decide_end j err w =
     (let cancelled = (case ow_shared w j of Some t \<Rightarrow> at_is_cancelled t | None \<Rightarrow> False)
      in set_pc j
           (if cancelled then Deciding Cancelled False None
            else case err of
                   None \<Rightarrow> Deciding Completed True None
                 | Some m \<Rightarrow> Deciding Failed False (Some m)) w)"

text \<open>A duplicate whose token is cancelled while it waits.\<close>

definition abort_waiting :: "string \<Rightarrow> orch_world \<Rightarrow> orch_world" where
  "abort_waiting j w = set_pc j (Deciding Cancelled False None) w"

text \<open>
  The critical section of \<open>terminalize\<close>: the first call decides, and a job that was cancelled in the meantime ends as cancelled.
  The event is composed from what the lock protects and sent after its release.
\<close>

definition end_event :: "string \<Rightarrow> terminal_task_state \<Rightarrow> bool \<Rightarrow> string option \<Rightarrow> string option \<Rightarrow> orchestrator_event option" where
  "end_event j state summary err cancelled_by =
     (case state of
        Completed \<Rightarrow> if summary then Some (EvCompleted j) else None
      | Cancelled \<Rightarrow> Some (EvCancelled j cancelled_by)
      | Failed \<Rightarrow> map_option (EvFailed j) err)"

definition terminalize :: "string \<Rightarrow> terminal_task_state \<Rightarrow> bool \<Rightarrow> string option \<Rightarrow> orch_world \<Rightarrow> orch_world" where
  "terminalize j state summary err w =
     (case ow_shared w j of
        None \<Rightarrow> w
      | Some t \<Rightarrow>
          if at_terminal_state t \<noteq> None then set_pc j Leaving w
          else
            let state' = (if state \<noteq> Cancelled \<and> (at_is_cancelled t \<or> at_controller_cancelled t)
                          then Cancelled else state)
            in set_pc j (Announcing (end_event j state' summary err (at_cancelled_by t)))
                 (on_job j (\<lambda>t. t\<lparr>at_terminal_state := Some state', at_completed := True\<rparr>) w))"

definition announce_end :: "string \<Rightarrow> orchestrator_event option \<Rightarrow> orch_world \<Rightarrow> orch_world" where
  "announce_end j ev w = set_pc j Leaving (case ev of Some e \<Rightarrow> emit e w | None \<Rightarrow> w)"

text \<open>The job leaves the job table and \<open>start_task\<close> returns.\<close>

definition remove_job :: "string \<Rightarrow> orch_world \<Rightarrow> orch_world" where
  "remove_job j w = w\<lparr>ow_jobs := filter (\<lambda>i. i \<noteq> j) (ow_jobs w)\<rparr>"

definition leave_task :: "string \<Rightarrow> orch_world \<Rightarrow> orch_world" where
  "leave_task j w = set_pc j Ended (remove_job j w)"

text \<open>Dropping the future runs the guards only.\<close>

definition drop_task :: "string \<Rightarrow> orch_world \<Rightarrow> orch_world" where
  "drop_task j w =
     set_pc j Dropped
       (remove_job j (if ow_pc w j = Some RunningJob then cleanup_inflight j w else w))"

section \<open>Queries and cancellation\<close>

definition get_task :: "string \<Rightarrow> orch_world \<Rightarrow> active_rip_task option" where
  "get_task j w = (if j \<in> set (ow_jobs w) then ow_shared w j else None)"

definition get_active_tasks :: "orch_world \<Rightarrow> active_rip_task list" where
  "get_active_tasks w =
     filter (\<lambda>t. \<not> at_completed t) (List.map_filter (ow_shared w) (ow_jobs w))"

text \<open>
  \<open>cancel_task\<close> looks the job up under the lock of the table and marks it under the lock of the job; in between the job may
  have left the table.
\<close>

definition mark_cancelled :: "string \<Rightarrow> string option \<Rightarrow> orch_world \<Rightarrow> bool \<times> orch_world" where
  "mark_cancelled j cancelled_by w =
     (case ow_shared w j of
        None \<Rightarrow> (False, w)
      | Some t \<Rightarrow>
          if at_is_cancelled t \<or> at_terminal_state t \<noteq> None then (False, w)
          else (True, on_job j (\<lambda>t. t\<lparr>at_is_cancelled := True, at_cancelled_by := cancelled_by,
                                     at_controller_cancelled := True\<rparr>) w))"

definition cancel_job :: "string \<Rightarrow> string option \<Rightarrow> orch_world \<Rightarrow> bool \<times> orch_world" where
  "cancel_job j cancelled_by w = (if j \<in> set (ow_jobs w) then mark_cancelled j cancelled_by w else (False, w))"

section \<open>Interleavings\<close>

text \<open>What \<open>run_job\<close> may do to its record while it runs.\<close>

definition job_progress ::
  "task_phase \<Rightarrow> nat \<Rightarrow> nat \<Rightarrow> nat \<Rightarrow> nat \<Rightarrow> nat \<Rightarrow> nat option \<Rightarrow> active_rip_task \<Rightarrow> active_rip_task" where
  "job_progress phase tot cached ripped failed skipped pos t =
     t\<lparr>at_phase := phase, at_total_tracks := tot, at_cached_count := cached,
       at_ripped_count := ripped, at_failed_count := failed, at_skipped_count := skipped,
       at_queue_position := pos\<rparr>"

inductive orch_step :: "orch_world \<Rightarrow> orch_world \<Rightarrow> bool" where
  step_begin: "ow_shared w j = None \<Longrightarrow> ow_pc w j = None \<Longrightarrow>
    orch_step w (begin_task j dflt now options w)"
| step_created: "ow_pc w j = Some Starting \<Longrightarrow> orch_step w (announce_created j w)"
| step_check: "ow_pc w j = Some Checking \<Longrightarrow> orch_step w (check_inflight j w)"
| step_reserve: "ow_pc w j = Some Reserving \<Longrightarrow> orch_step w (reserve_inflight j w)"
| step_block: "ow_pc w j = Some (Blocking e) \<Longrightarrow> orch_step w (block_on j e w)"
| step_resume: "ow_pc w j = Some Woken \<Longrightarrow> orch_step w (resume j w)"
| step_abort_waiting: "ow_pc w j \<in> {Some (Waiting e), Some Woken} \<Longrightarrow> ow_shared w j = Some t \<Longrightarrow>
    at_controller_cancelled t \<Longrightarrow> orch_step w (abort_waiting j w)"
| step_progress: "ow_pc w j = Some RunningJob \<Longrightarrow>
    orch_step w (on_job j (job_progress phase tot cached ripped failed skipped pos) w)"
| step_finish: "ow_pc w j = Some RunningJob \<Longrightarrow> orch_step w (finish_inflight j err w)"
| step_decide: "ow_pc w j = Some (Finishing err) \<Longrightarrow> orch_step w (decide_end j err w)"
| step_terminalize: "ow_pc w j = Some (Deciding st sm err) \<Longrightarrow> orch_step w (terminalize j st sm err w)"
| step_announce: "ow_pc w j = Some (Announcing ev) \<Longrightarrow> orch_step w (announce_end j ev w)"
| step_leave: "ow_pc w j = Some Leaving \<Longrightarrow> orch_step w (leave_task j w)"
| step_drop: "ow_pc w j \<in> {Some RunningJob, Some (Waiting e), Some Woken} \<Longrightarrow> orch_step w (drop_task j w)"
| step_cancel: "orch_step w (snd (mark_cancelled j cancelled_by w))"

inductive reachable :: "orch_world \<Rightarrow> bool" where
  reachable_init: "reachable orch_init"
| reachable_step: "reachable w \<Longrightarrow> orch_step w w' \<Longrightarrow> reachable w'"

end
