(* ===== verification/Orchestrator_Safety.thy ===== *)
theory Orchestrator_Safety
  imports Orchestrator
begin

text \<open>
  The invariant of the orchestrator over all interleavings: the in-flight table holds running jobs
  only, the job table the jobs that have not ended, and a job that ends has announced exactly one
  outcome. Two interleavings show what the split check of \<open>start_task\<close> does not guarantee.
\<close>

inductive_cases orch_stepE: "orch_step w w'"

fun terminal_event :: "string \<Rightarrow> orchestrator_event \<Rightarrow> bool" where
  "terminal_event j (EvCompleted i) = (i = j)"
| "terminal_event j (EvCancelled i _) = (i = j)"
| "terminal_event j (EvFailed i _) = (i = j)"
| "terminal_event j _ = False"

definition outcomes :: "orch_world \<Rightarrow> string \<Rightarrow> orchestrator_event list" where
  "outcomes w j = filter (terminal_event j) (ow_events w)"

definition outcome_ok :: "string \<Rightarrow> active_rip_task \<Rightarrow> orchestrator_event list \<Rightarrow> bool" where
  "outcome_ok j t evs \<longleftrightarrow>
     (case at_terminal_state t of
        None \<Rightarrow> evs = [] \<and> \<not> at_completed t
      | Some Completed \<Rightarrow> evs = [EvCompleted j] \<and> \<not> at_is_cancelled t \<and> at_completed t
      | Some Cancelled \<Rightarrow> evs = [EvCancelled j (at_cancelled_by t)] \<and> at_completed t
      | Some Failed \<Rightarrow> (\<exists>m. evs = [EvFailed j m]) \<and> \<not> at_is_cancelled t \<and> at_completed t)"

text \<open>What a job has recorded and announced at each place of its end.\<close>

fun end_ok :: "string \<Rightarrow> job_pc \<Rightarrow> active_rip_task \<Rightarrow> orchestrator_event list \<Rightarrow> bool" where
  "end_ok j (Deciding st sm err) t evs \<longleftrightarrow>
     at_terminal_state t = None \<and> outcome_ok j t evs \<and> (st = Completed \<longrightarrow> sm) \<and> (st = Failed \<longrightarrow> err \<noteq> None)"
| "end_ok j (Announcing ev) t evs \<longleftrightarrow> at_terminal_state t \<noteq> None \<and> evs = [] \<and> (\<exists>e. ev = Some e \<and> outcome_ok j t [e])"
| "end_ok j Leaving t evs \<longleftrightarrow> at_terminal_state t \<noteq> None \<and> outcome_ok j t evs"
| "end_ok j Ended t evs \<longleftrightarrow> at_terminal_state t \<noteq> None \<and> outcome_ok j t evs"
| "end_ok j pc t evs \<longleftrightarrow> at_terminal_state t = None \<and> outcome_ok j t evs"

text \<open>The places before the end.\<close>

fun quiet :: "job_pc option \<Rightarrow> bool" where
  "quiet None = False"
| "quiet (Some (Deciding _ _ _)) = False"
| "quiet (Some (Announcing _)) = False"
| "quiet (Some Leaving) = False"
| "quiet (Some Ended) = False"
| "quiet (Some Dropped) = False"
| "quiet _ = True"

lemma quiet_end_ok: "quiet (Some pc) \<Longrightarrow> end_ok j pc t evs \<longleftrightarrow> at_terminal_state t = None \<and> outcome_ok j t evs"
  by (cases pc) simp_all

lemma quiet_listed: "quiet x \<Longrightarrow> x \<notin> {None, Some Ended, Some Dropped}"
  by (cases x rule: quiet.cases) auto

text \<open>The invariant, for one job and for the in-flight table.\<close>

definition job_ok :: "orch_world \<Rightarrow> string \<Rightarrow> bool" where
  "job_ok w j \<longleftrightarrow>
     (j \<in> set (ow_jobs w) \<longleftrightarrow> ow_pc w j \<notin> {None, Some Ended, Some Dropped}) \<and>
     (case ow_shared w j of
        None \<Rightarrow> ow_pc w j = None \<and> outcomes w j = []
      | Some t \<Rightarrow> (\<exists>pc. ow_pc w j = Some pc \<and> end_ok j pc t (outcomes w j)) \<and>
          (at_is_cancelled t \<longleftrightarrow> at_controller_cancelled t))"

definition inflight_ok :: "orch_world \<Rightarrow> bool" where
  "inflight_ok w \<longleftrightarrow> (\<forall>k e. ow_inflight w k = Some e \<longrightarrow>
     ow_pc w e = Some RunningJob \<and> k \<in> set (ow_keys w e))"

definition orch_inv :: "orch_world \<Rightarrow> bool" where
  "orch_inv w \<longleftrightarrow> inflight_ok w \<and> (\<forall>j. job_ok w j)"

section \<open>Other jobs\<close>

lemma op_simps [simp]:
  "ow_events (set_pc j pc w) = ow_events w" "ow_shared (set_pc j pc w) = ow_shared w"
  "ow_jobs (set_pc j pc w) = ow_jobs w" "ow_keys (set_pc j pc w) = ow_keys w"
  "ow_inflight (set_pc j pc w) = ow_inflight w" "ow_pc (set_pc j pc w) = (ow_pc w)(j \<mapsto> pc)"
  "ow_events (emit ev w) = ow_events w @ [ev]" "ow_shared (emit ev w) = ow_shared w"
  "ow_jobs (emit ev w) = ow_jobs w" "ow_keys (emit ev w) = ow_keys w"
  "ow_inflight (emit ev w) = ow_inflight w" "ow_pc (emit ev w) = ow_pc w"
  "ow_events (on_job j f w) = ow_events w" "ow_jobs (on_job j f w) = ow_jobs w"
  "ow_keys (on_job j f w) = ow_keys w" "ow_inflight (on_job j f w) = ow_inflight w"
  "ow_pc (on_job j f w) = ow_pc w"
  "ow_shared (on_job j f w) = (ow_shared w)(j := map_option f (ow_shared w j))"
  "ow_events (remove_job j w) = ow_events w" "ow_shared (remove_job j w) = ow_shared w"
  "ow_keys (remove_job j w) = ow_keys w" "ow_inflight (remove_job j w) = ow_inflight w"
  "ow_pc (remove_job j w) = ow_pc w" "ow_jobs (remove_job j w) = filter (\<lambda>i. i \<noteq> j) (ow_jobs w)"
  by (simp_all add: set_pc_def emit_def on_job_def remove_job_def)

lemma outcomes_cong: "ow_events w' = ow_events w \<Longrightarrow> outcomes w' j = outcomes w j"
  by (simp add: outcomes_def)

lemma outcomes_shared [simp]: "outcomes (w\<lparr>ow_shared := x\<rparr>) j = outcomes w j"
  by (simp add: outcomes_def)

lemma outcomes_append: "ow_events w' = ow_events w @ [ev] \<Longrightarrow>
    outcomes w' j = outcomes w j @ (if terminal_event j ev then [ev] else [])"
  by (simp add: outcomes_def)

text \<open>A job whose record and events a step leaves alone stays ok while it moves before its end.\<close>

lemma job_ok_frame:
  assumes "job_ok w i" and "ow_shared w' i = ow_shared w i" and "outcomes w' i = outcomes w i"
    and "ow_pc w' i = ow_pc w i \<or> (quiet (ow_pc w i) \<and> quiet (ow_pc w' i))"
    and "i \<in> set (ow_jobs w') \<longleftrightarrow> i \<in> set (ow_jobs w)"
  shows "job_ok w' i"
proof (cases "ow_pc w' i = ow_pc w i")
  case True
  with assms show ?thesis by (cases "ow_shared w i") (simp_all add: job_ok_def)
next
  case False
  with assms(4) obtain pc pc' where pcs: "ow_pc w i = Some pc" "quiet (Some pc)" "ow_pc w' i = Some pc'" "quiet (Some pc')"
    by (cases "ow_pc w i"; cases "ow_pc w' i") auto
  then have "pc \<notin> {Ended, Dropped}" "pc' \<notin> {Ended, Dropped}" by auto
  with assms pcs show ?thesis by (auto simp: job_ok_def quiet_end_ok split: option.splits)
qed

lemma wake_cases:
  "wake e pcs i = pcs i \<or> (pcs i = Some (Waiting e) \<and> wake e pcs i = Some Woken)"
  by (simp add: wake_def)

lemma cleanup_simps [simp]:
  "ow_shared (cleanup_inflight j w) = ow_shared w" "ow_events (cleanup_inflight j w) = ow_events w"
  "ow_jobs (cleanup_inflight j w) = ow_jobs w" "ow_keys (cleanup_inflight j w) = ow_keys w"
  "ow_pc (cleanup_inflight j w) = wake j (ow_pc w)"
  "ow_inflight (cleanup_inflight j w) = (\<lambda>k. if k \<in> set (ow_keys w j) then None else ow_inflight w k)"
  by (simp_all add: cleanup_inflight_def)

lemma inflight_ok_frame:
  assumes "inflight_ok w" and "ow_inflight w' = ow_inflight w" and "ow_keys w' = ow_keys w"
    and "\<And>i. ow_pc w i = Some RunningJob \<Longrightarrow> ow_pc w' i = Some RunningJob"
  shows "inflight_ok w'"
  using assms by (auto simp: inflight_ok_def)

lemma inflight_ok_cleanup:
  assumes "inflight_ok w" and "ow_inflight w' = ow_inflight (cleanup_inflight j w)"
    and "ow_keys w' = ow_keys w"
    and "\<And>i. i \<noteq> j \<Longrightarrow> ow_pc w i = Some RunningJob \<Longrightarrow> ow_pc w' i = Some RunningJob"
  shows "inflight_ok w'"
  using assms unfolding inflight_ok_def by (auto split: if_splits) metis+

section \<open>Preservation\<close>

text \<open>Steps of one job that leave the records, events and places of all others alone.\<close>

lemma one_job_inv:
  assumes "orch_inv w" and "inflight_ok w'" and "job_ok w' j"
    and "\<And>i. i \<noteq> j \<Longrightarrow> ow_shared w' i = ow_shared w i" "\<And>i. i \<noteq> j \<Longrightarrow> outcomes w' i = outcomes w i"
    and "\<And>i. i \<noteq> j \<Longrightarrow> ow_pc w' i = ow_pc w i" "\<And>i. i \<noteq> j \<Longrightarrow> i \<in> set (ow_jobs w') \<longleftrightarrow> i \<in> set (ow_jobs w)"
  shows "orch_inv w'"
proof -
  have "job_ok w' i" for i
  proof (cases "i = j")
    case False
    show ?thesis by (rule job_ok_frame [of w i w']) (use False assms(1,4-) in \<open>simp_all add: orch_inv_def\<close>)
  qed (use assms(3) in simp)
  with assms(2) show ?thesis by (simp add: orch_inv_def)
qed

text \<open>Steps that only move a job from one place before its end to another.\<close>

lemma live_step_inv:
  assumes "orch_inv w" and "inflight_ok w'" and "ow_jobs w' = ow_jobs w"
    and "\<And>i. outcomes w' i = outcomes w i"
    and "\<And>i. i \<noteq> j \<Longrightarrow> ow_shared w' i = ow_shared w i"
    and pcs: "\<And>i. ow_pc w' i = ow_pc w i \<or> (quiet (ow_pc w i) \<and> quiet (ow_pc w' i))"
    and "ow_shared w' j = map_option f (ow_shared w j)"
    and f: "\<And>t. at_terminal_state (f t) = at_terminal_state t \<and> at_completed (f t) = at_completed t \<and>
      at_is_cancelled (f t) = at_is_cancelled t \<and> at_cancelled_by (f t) = at_cancelled_by t \<and>
      at_controller_cancelled (f t) = at_controller_cancelled t"
  shows "orch_inv w'"
proof -
  have same: "outcome_ok i (f t) evs = outcome_ok i t evs" for i t evs
    using f [of t] by (simp add: outcome_ok_def split: option.split terminal_task_state.split)
  have ends: "end_ok i pc (f t) evs = end_ok i pc t evs" for i pc t evs
    using f [of t] by (cases pc) (simp_all add: same)
  have "job_ok w' i" for i
  proof -
    have base: "job_ok (w'\<lparr>ow_shared := ow_shared w\<rparr>) i"
      by (rule job_ok_frame [of w i]) (use assms(1,3,4) pcs [of i] in \<open>simp_all add: orch_inv_def\<close>)
    show ?thesis
    proof (cases "i = j \<and> ow_shared w j \<noteq> None")
      case True
      then obtain t where "ow_shared w i = Some t" "i = j" by auto
      with base assms(7) f [of t] ends [of i _ t] show ?thesis by (simp add: job_ok_def)
    next
      case False
      then have "ow_shared w' i = ow_shared w i" using assms(5,7) by (cases "i = j") auto
      with base show ?thesis by (cases "ow_shared w i") (simp_all add: job_ok_def)
    qed
  qed
  with assms(2) show ?thesis by (simp add: orch_inv_def)
qed

lemma orch_invD: "orch_inv w \<Longrightarrow> inflight_ok w" "orch_inv w \<Longrightarrow> job_ok w j"
  by (simp_all add: orch_inv_def)

lemma begin_inv:
  assumes inv: "orch_inv w" and new: "ow_shared w j = None" "ow_pc w j = None"
  shows "orch_inv (begin_task j dflt now options w)"
proof -
  let ?w = "begin_task j dflt now options w"
  have "inflight_ok ?w"
    using orch_invD(1) [OF inv] new by (auto simp: inflight_ok_def begin_task_def)
  moreover have "job_ok ?w i" for i
  proof (cases "i = j")
    case True
    with orch_invD(2) [OF inv, of j] new show ?thesis
      by (auto simp: job_ok_def begin_task_def outcomes_def outcome_ok_def new_job_def)
  next
    case False
    then show ?thesis
      by (intro job_ok_frame [OF orch_invD(2) [OF inv]]) (auto simp: begin_task_def outcomes_def)
  qed
  ultimately show ?thesis by (simp add: orch_inv_def)
qed

lemma created_inv:
  assumes inv: "orch_inv w" and pc: "ow_pc w j = Some Starting"
  shows "orch_inv (announce_created j w)"
proof -
  have "inflight_ok (announce_created j w)"
    using pc by (intro inflight_ok_frame [OF orch_invD(1) [OF inv]]) (auto simp: announce_created_def)
  with pc show ?thesis
    by (intro live_step_inv [OF inv, where f = id and j = j])
      (auto simp: announce_created_def outcomes_def option.map_id)
qed

lemma check_inv:
  assumes inv: "orch_inv w" and pc: "ow_pc w j = Some Checking"
  shows "orch_inv (check_inflight j w)"
proof -
  have "inflight_ok (check_inflight j w)"
    using pc by (intro inflight_ok_frame [OF orch_invD(1) [OF inv]])
      (auto simp: check_inflight_def split: option.splits)
  with pc show ?thesis
    by (intro live_step_inv [OF inv, where f = id and j = j])
      (auto simp: check_inflight_def outcomes_def option.map_id split: option.splits)
qed

lemma reserve_inv:
  assumes inv: "orch_inv w" and pc: "ow_pc w j = Some Reserving"
  shows "orch_inv (reserve_inflight j w)"
proof -
  have "inflight_ok (reserve_inflight j w)"
    using orch_invD(1) [OF inv] by (auto simp: inflight_ok_def reserve_inflight_def split: if_splits)
  with pc show ?thesis
    by (intro live_step_inv [OF inv, where f = id and j = j])
      (auto simp: reserve_inflight_def outcomes_def option.map_id)
qed

lemma block_inv:
  assumes inv: "orch_inv w" and pc: "ow_pc w j = Some (Blocking e)"
  shows "orch_inv (block_on j e w)"
proof -
  have "inflight_ok (block_on j e w)"
    using pc by (intro inflight_ok_frame [OF orch_invD(1) [OF inv]]) (auto simp: block_on_def set_phase_def)
  with pc show ?thesis
    by (intro live_step_inv [OF inv, where f = "\<lambda>t. t\<lparr>at_phase := WaitingDuplicate\<rparr>" and j = j])
      (auto simp: block_on_def set_phase_def outcomes_def)
qed

lemma resume_inv:
  assumes inv: "orch_inv w" and pc: "ow_pc w j = Some Woken"
  shows "orch_inv (resume j w)"
proof -
  have "inflight_ok (resume j w)"
    using pc by (intro inflight_ok_frame [OF orch_invD(1) [OF inv]]) (auto simp: resume_def)
  with pc show ?thesis
    by (intro live_step_inv [OF inv, where f = id and j = j])
      (auto simp: resume_def outcomes_def option.map_id)
qed

lemma progress_inv:
  assumes inv: "orch_inv w" and pc: "ow_pc w j = Some RunningJob"
  shows "orch_inv (on_job j (job_progress ph a b c d e f) w)"
proof -
  have "inflight_ok (on_job j (job_progress ph a b c d e f) w)"
    by (intro inflight_ok_frame [OF orch_invD(1) [OF inv]]) auto
  then show ?thesis
    by (intro live_step_inv [OF inv, where f = "job_progress ph a b c d e f" and j = j])
      (auto simp: outcomes_def job_progress_def)
qed

lemma finish_simps [simp]:
  "ow_events (finish_inflight j err w) = ow_events w" "ow_shared (finish_inflight j err w) = ow_shared w"
  "ow_jobs (finish_inflight j err w) = ow_jobs w" "ow_keys (finish_inflight j err w) = ow_keys w"
  "ow_pc (finish_inflight j err w) = (wake j (ow_pc w))(j \<mapsto> Finishing err)"
  "ow_inflight (finish_inflight j err w) = ow_inflight (cleanup_inflight j w)"
  by (simp_all add: finish_inflight_def fun_eq_iff)

lemma finish_inv:
  assumes inv: "orch_inv w" and pc: "ow_pc w j = Some RunningJob"
  shows "orch_inv (finish_inflight j err w)"
proof -
  have "inflight_ok (finish_inflight j err w)"
    by (rule inflight_ok_cleanup [OF orch_invD(1) [OF inv], of _ j]) (auto simp: wake_def)
  with pc show ?thesis
    by (intro live_step_inv [OF inv, where f = id and j = j])
      (auto simp: outcomes_def wake_def option.map_id)
qed

lemma drop_inv:
  assumes inv: "orch_inv w" and pc: "ow_pc w j \<in> {Some RunningJob, Some (Waiting e), Some Woken}"
  shows "orch_inv (drop_task j w)"
proof -
  have "inflight_ok (drop_task j w)"
  proof (cases "ow_pc w j = Some RunningJob")
    case True
    then show ?thesis
      by (intro inflight_ok_cleanup [OF orch_invD(1) [OF inv], of _ j]) (auto simp: drop_task_def wake_def)
  next
    case False
    then show ?thesis
      by (intro inflight_ok_frame [OF orch_invD(1) [OF inv]]) (auto simp: drop_task_def)
  qed
  moreover have "job_ok (drop_task j w) i" for i
  proof (cases "i = j")
    case True
    with orch_invD(2) [OF inv, of j] pc show ?thesis
      by (cases "ow_shared w j") (auto simp: job_ok_def drop_task_def outcomes_def outcome_ok_def)
  next
    case False
    then show ?thesis
      by (intro job_ok_frame [OF orch_invD(2) [OF inv]]) (auto simp: drop_task_def outcomes_def wake_def)
  qed
  ultimately show ?thesis by (simp add: orch_inv_def)
qed

lemma cancel_inv:
  assumes inv: "orch_inv w"
  shows "orch_inv (snd (mark_cancelled j by w))"
proof (cases "fst (mark_cancelled j by w)")
  case True
  then obtain t where t: "ow_shared w j = Some t" "\<not> at_is_cancelled t" "at_terminal_state t = None"
    by (auto simp: mark_cancelled_def split: option.splits if_splits)
  define w' where "w' = snd (mark_cancelled j by w)"
  have w': "w' = on_job j (\<lambda>t. t\<lparr>at_is_cancelled := True, at_cancelled_by := by,
      at_controller_cancelled := True\<rparr>) w" using t by (simp add: w'_def mark_cancelled_def)
  have "inflight_ok w'" by (intro inflight_ok_frame [OF orch_invD(1) [OF inv]]) (auto simp: w')
  moreover have "job_ok w' j"
  proof -
    from orch_invD(2) [OF inv, of j] t obtain pc where pc: "ow_pc w j = Some pc" "end_ok j pc t (outcomes w j)" by (auto simp: job_ok_def)
    with t(3) have "end_ok j pc (t\<lparr>at_is_cancelled := True, at_cancelled_by := by, at_controller_cancelled := True\<rparr>) (outcomes w j)"
      by (cases pc) (auto simp: outcome_ok_def)
    with orch_invD(2) [OF inv, of j] t(1) pc(1) show ?thesis by (auto simp: job_ok_def w' outcomes_def)
  qed
  ultimately have "orch_inv w'" by (rule one_job_inv [OF inv]) (simp_all add: w' outcomes_def)
  then show ?thesis by (simp add: w'_def)
next
  case False
  with inv show ?thesis by (auto simp: mark_cancelled_def split: option.splits if_splits)
qed

section \<open>The end of a job\<close>

lemma end_step_inv:
  assumes "orch_inv w" and "ow_pc w j = Some pc" "pc \<noteq> RunningJob" and "job_ok w' j"
    and "ow_inflight w' = ow_inflight w" "ow_keys w' = ow_keys w" "ow_pc w' = (ow_pc w)(j \<mapsto> pc')"
    and "\<And>i. i \<noteq> j \<Longrightarrow> ow_shared w' i = ow_shared w i" "\<And>i. i \<noteq> j \<Longrightarrow> outcomes w' i = outcomes w i"
    and "\<And>i. i \<noteq> j \<Longrightarrow> i \<in> set (ow_jobs w') \<longleftrightarrow> i \<in> set (ow_jobs w)"
  shows "orch_inv w'"
proof (rule one_job_inv [OF assms(1) _ assms(4)])
  show "inflight_ok w'" using assms(2,3,7) by (intro inflight_ok_frame [OF orch_invD(1) [OF assms(1)] assms(5,6)]) auto
qed (use assms(7-) in simp_all)

lemma decide_inv:
  assumes inv: "orch_inv w" and pc: "ow_pc w j = Some (Finishing err)"
  shows "orch_inv (decide_end j err w)"
proof -
  obtain t where t: "ow_shared w j = Some t" "at_terminal_state t = None" "outcome_ok j t (outcomes w j)" "j \<in> set (ow_jobs w)"
      "at_is_cancelled t \<longleftrightarrow> at_controller_cancelled t"
    using orch_invD(2) [OF inv, of j] pc by (auto simp: job_ok_def split: option.splits)
  obtain st sm e where eq: "decide_end j err w = set_pc j (Deciding st sm e) w" and args: "st = Completed \<longrightarrow> sm" "st = Failed \<longrightarrow> e \<noteq> None"
    using t(1) by (cases err; cases "at_is_cancelled t") (auto simp: decide_end_def)
  have ok: "job_ok (decide_end j err w) j" using t args by (simp add: eq job_ok_def outcomes_def)
  show ?thesis by (rule end_step_inv [OF inv pc _ ok]) (simp_all add: eq outcomes_def)
qed

lemma abort_inv:
  assumes inv: "orch_inv w" and pc: "ow_pc w j \<in> {Some (Waiting e), Some Woken}"
  shows "orch_inv (abort_waiting j w)"
proof -
  obtain pc' where pc': "ow_pc w j = Some pc'" "pc' \<noteq> RunningJob" "quiet (Some pc')" using pc by auto
  have "job_ok (abort_waiting j w) j"
    using orch_invD(2) [OF inv, of j] pc' pc by (auto simp: job_ok_def abort_waiting_def outcomes_def quiet_end_ok split: option.splits)
  then show ?thesis by (rule end_step_inv [OF inv pc'(1,2)]) (simp_all add: abort_waiting_def outcomes_def)
qed

lemma end_event_ok:
  assumes "st = Completed \<longrightarrow> sm" "st = Failed \<longrightarrow> err \<noteq> None"
    and "st' = (if st \<noteq> Cancelled \<and> at_is_cancelled t then Cancelled else st)"
  shows "\<exists>e. end_event j st' sm err (at_cancelled_by t) = Some e \<and>
    outcome_ok j (t\<lparr>at_terminal_state := Some st', at_completed := True\<rparr>) [e]"
  using assms by (cases st) (auto simp: end_event_def outcome_ok_def)

lemma terminalize_inv:
  assumes inv: "orch_inv w" and pc: "ow_pc w j = Some (Deciding st sm err)"
  shows "orch_inv (terminalize j st sm err w)"
proof -
  obtain t where t: "ow_shared w j = Some t" "at_terminal_state t = None" "outcomes w j = []" "j \<in> set (ow_jobs w)"
      "at_is_cancelled t \<longleftrightarrow> at_controller_cancelled t" "st = Completed \<longrightarrow> sm" "st = Failed \<longrightarrow> err \<noteq> None"
    using orch_invD(2) [OF inv, of j] pc by (auto simp: job_ok_def outcome_ok_def split: option.splits)
  define st' where "st' = (if st \<noteq> Cancelled \<and> at_is_cancelled t then Cancelled else st)"
  have eq: "terminalize j st sm err w = set_pc j (Announcing (end_event j st' sm err (at_cancelled_by t)))
      (on_job j (\<lambda>t. t\<lparr>at_terminal_state := Some st', at_completed := True\<rparr>) w)"
    using t(1,2,5) by (simp add: terminalize_def st'_def Let_def)
  have ok: "job_ok (terminalize j st sm err w) j"
    using t end_event_ok [OF t(6,7) st'_def, of j] by (simp add: eq job_ok_def outcomes_def)
  show ?thesis by (rule end_step_inv [OF inv pc _ ok]) (simp_all add: eq outcomes_def)
qed

lemma announce_inv:
  assumes inv: "orch_inv w" and pc: "ow_pc w j = Some (Announcing ev)"
  shows "orch_inv (announce_end j ev w)"
proof -
  obtain t e where t: "ow_shared w j = Some t" "at_terminal_state t \<noteq> None" "outcomes w j = []" "j \<in> set (ow_jobs w)"
      "at_is_cancelled t \<longleftrightarrow> at_controller_cancelled t" "ev = Some e" "outcome_ok j t [e]"
    using orch_invD(2) [OF inv, of j] pc by (auto simp: job_ok_def split: option.splits)
  have own: "terminal_event i e \<longleftrightarrow> i = j" for i using t(2,7) by (auto simp: outcome_ok_def split: option.splits terminal_task_state.splits)
  have ok: "job_ok (announce_end j ev w) j"
    using t own by (auto simp: job_ok_def announce_end_def outcomes_def)
  show ?thesis by (rule end_step_inv [OF inv pc _ ok]) (use t(6) own in \<open>auto simp: announce_end_def outcomes_def\<close>)
qed

lemma leave_task_inv:
  assumes inv: "orch_inv w" and pc: "ow_pc w j = Some Leaving"
  shows "orch_inv (leave_task j w)"
proof -
  have ok: "job_ok (leave_task j w) j"
    using orch_invD(2) [OF inv, of j] pc by (auto simp: job_ok_def leave_task_def outcomes_def split: option.splits)
  show ?thesis by (rule end_step_inv [OF inv pc _ ok]) (simp_all add: leave_task_def outcomes_def)
qed

lemma orch_step_inv: "orch_step w w' \<Longrightarrow> orch_inv w \<Longrightarrow> orch_inv w'"
proof (induction rule: orch_step.induct)
  case (step_drop w j e)
  then show ?case by (intro drop_inv)
next
  case (step_abort_waiting w j e t)
  then show ?case by (intro abort_inv)
qed (simp_all add: begin_inv created_inv check_inv reserve_inv block_inv resume_inv progress_inv finish_inv cancel_inv
    decide_inv terminalize_inv announce_inv leave_task_inv)

lemma reachable_inv: "reachable w \<Longrightarrow> orch_inv w"
proof (induction rule: reachable.induct)
  case reachable_init
  show ?case by (simp add: orch_inv_def inflight_ok_def job_ok_def orch_init_def outcomes_def)
qed (rule orch_step_inv)

section \<open>Mutual exclusion when the check and the reservation are not separated\<close>

text \<open>
  Runs in which a job that finds no duplicate reserves before anything else happens: no state has
  a job between the two critical sections.
\<close>

inductive calm_step :: "orch_world \<Rightarrow> orch_world \<Rightarrow> bool" where
  calm_reserve: "ow_pc w j = Some Checking \<Longrightarrow> find_inflight (ow_keys w j) w = None \<Longrightarrow>
    calm_step w (reserve_inflight j (check_inflight j w))"
| calm_other: "orch_step w w' \<Longrightarrow> (\<And>j. ow_pc w' j \<noteq> Some Reserving) \<Longrightarrow> calm_step w w'"

inductive calm_reachable :: "orch_world \<Rightarrow> bool" where
  calm_init: "calm_reachable orch_init"
| calm_next: "calm_reachable w \<Longrightarrow> calm_step w w' \<Longrightarrow> calm_reachable w'"

definition exclusive :: "orch_world \<Rightarrow> bool" where
  "exclusive w \<longleftrightarrow> (\<forall>j k. ow_pc w j = Some RunningJob \<longrightarrow> k \<in> set (ow_keys w j) \<longrightarrow>
     ow_inflight w k = Some j)"

lemma exclusiveD:
  "exclusive w \<Longrightarrow> ow_pc w j = Some RunningJob \<Longrightarrow> k \<in> set (ow_keys w j) \<Longrightarrow> ow_inflight w k = Some j"
  by (simp add: exclusive_def)

lemma exclusive_frame:
  assumes "exclusive w" and "ow_inflight w' = ow_inflight w"
    and "\<And>j. ow_pc w' j = Some RunningJob \<Longrightarrow> ow_pc w j = Some RunningJob \<and> ow_keys w' j = ow_keys w j"
  shows "exclusive w'"
  using assms by (simp add: exclusive_def)

lemma exclusive_cleanup:
  assumes "exclusive w" and "ow_pc w j = Some RunningJob"
    and "ow_inflight w' = ow_inflight (cleanup_inflight j w)" and "ow_keys w' = ow_keys w"
    and "\<And>i. ow_pc w' i = Some RunningJob \<Longrightarrow> i \<noteq> j \<and> ow_pc w i = Some RunningJob"
  shows "exclusive w'"
  unfolding exclusive_def
proof (intro allI impI)
  fix i k
  assume i: "ow_pc w' i = Some RunningJob" "k \<in> set (ow_keys w' i)"
  with assms(4,5) have "i \<noteq> j" "ow_pc w i = Some RunningJob" "k \<in> set (ow_keys w i)" by auto
  with assms(1) have "ow_inflight w k = Some i" by (simp add: exclusive_def)
  with assms(1,2) \<open>i \<noteq> j\<close> have "k \<notin> set (ow_keys w j)" by (auto simp: exclusive_def)
  with \<open>ow_inflight w k = Some i\<close> assms(3) show "ow_inflight w' k = Some i" by simp
qed

lemma ending_simps [simp]:
  "ow_inflight (decide_end j err w) = ow_inflight w" "ow_keys (decide_end j err w) = ow_keys w"
  "ow_inflight (terminalize j st sm err w) = ow_inflight w" "ow_keys (terminalize j st sm err w) = ow_keys w"
  "ow_inflight (announce_end j ev w) = ow_inflight w" "ow_keys (announce_end j ev w) = ow_keys w"
  "ow_inflight (leave_task j w) = ow_inflight w" "ow_keys (leave_task j w) = ow_keys w"
  "ow_inflight (snd (mark_cancelled j by w)) = ow_inflight w" "ow_keys (snd (mark_cancelled j by w)) = ow_keys w"
  "ow_pc (snd (mark_cancelled j by w)) = ow_pc w" "ow_pc (leave_task j w) = (ow_pc w)(j \<mapsto> Ended)"
  "ow_pc (announce_end j ev w) = (ow_pc w)(j \<mapsto> Leaving)"
  by (auto simp: decide_end_def terminalize_def announce_end_def leave_task_def mark_cancelled_def Let_def split: option.split)

lemma ending_pc:
  "ow_pc (decide_end j err w) i = Some RunningJob \<Longrightarrow> ow_pc w i = Some RunningJob"
  "ow_pc (terminalize j st sm err w) i = Some RunningJob \<Longrightarrow> ow_pc w i = Some RunningJob"
  by (auto simp: decide_end_def terminalize_def Let_def split: option.splits if_splits)

lemma exclusive_step:
  assumes "orch_step w w'" and "exclusive w" and "\<And>j. ow_pc w j \<noteq> Some Reserving"
  shows "exclusive w'"
  using assms
proof (induction rule: orch_step.induct)
  case (step_begin w j dflt now options)
  then show ?case by (auto intro!: exclusive_frame [OF step_begin.prems(1)] simp: begin_task_def split: if_splits)
next
  case (step_resume w j)
  then show ?case
    by (auto intro!: exclusive_frame [OF step_resume.prems(1)] simp: resume_def split: if_splits)
next
  case (step_check w j)
  then show ?case
    by (auto intro!: exclusive_frame [OF step_check.prems(1)] simp: check_inflight_def split: option.splits if_splits)
next
  case (step_block w j e)
  then show ?case
    by (auto intro!: exclusive_frame [OF step_block.prems(1)] simp: block_on_def set_phase_def split: if_splits)
next
  case (step_abort_waiting w j e t)
  then show ?case
    by (auto intro!: exclusive_frame [OF step_abort_waiting.prems(1)] simp: abort_waiting_def split: if_splits)
next
  case (step_progress w j phase tot cached ripped failed skipped pos)
  then show ?case by (auto intro!: exclusive_frame [OF step_progress.prems(1)])
next
  case (step_finish w j err)
  then show ?case
    by (intro exclusive_cleanup [OF step_finish.prems(1) step_finish.hyps])
      (auto simp: wake_def split: if_splits)
next
  case (step_created w j)
  then show ?case by (auto intro!: exclusive_frame [OF step_created.prems(1)] simp: announce_created_def split: if_splits)
next
  case (step_decide w j err)
  then show ?case by (intro exclusive_frame [OF step_decide.prems(1)]) (auto dest: ending_pc)
next
  case (step_terminalize w j st sm err)
  then show ?case by (intro exclusive_frame [OF step_terminalize.prems(1)]) (auto dest: ending_pc)
next
  case (step_announce w j ev)
  then show ?case by (auto intro!: exclusive_frame [OF step_announce.prems(1)] split: if_splits)
next
  case (step_leave w j)
  then show ?case by (auto intro!: exclusive_frame [OF step_leave.prems(1)] split: if_splits)
next
  case (step_drop w j e)
  show ?case
  proof (cases "ow_pc w j = Some RunningJob")
    case True
    then show ?thesis
      by (intro exclusive_cleanup [OF step_drop.prems(1) True])
        (auto simp: drop_task_def wake_def split: if_splits)
  next
    case False
    then show ?thesis
      by (auto intro!: exclusive_frame [OF step_drop.prems(1)] simp: drop_task_def split: if_splits)
  qed
next
  case (step_cancel w j cancelled_by)
  then show ?case by (auto intro!: exclusive_frame [OF step_cancel.prems(1)])
qed blast

lemma map_filter_Nil: "List.map_filter f xs = [] \<longleftrightarrow> (\<forall>x \<in> set xs. f x = None)"
  by (induction xs) (auto simp: map_filter_simps split: option.splits)

lemma exclusive_reserve:
  assumes "exclusive w" and "ow_pc w j = Some Checking" and "find_inflight (ow_keys w j) w = None"
  shows "exclusive (reserve_inflight j (check_inflight j w))"
proof -
  have free: "ow_inflight w k = None" if "k \<in> set (ow_keys w j)" for k
    using assms(3) that by (auto simp: find_inflight_def map_filter_Nil split: list.splits)
  have "k \<notin> set (ow_keys w j)" if "ow_pc w i = Some RunningJob" "k \<in> set (ow_keys w i)" for i k
    using assms(1) free that by (fastforce simp: exclusive_def)
  with assms show ?thesis
    by (auto simp: exclusive_def reserve_inflight_def check_inflight_def split: if_splits)
qed

lemma calm_exclusive: "calm_reachable w \<Longrightarrow> exclusive w \<and> (\<forall>j. ow_pc w j \<noteq> Some Reserving)"
proof (induction rule: calm_reachable.induct)
  case calm_init
  then show ?case by (simp add: exclusive_def orch_init_def)
next
  case (calm_next w w')
  from calm_next.hyps(2) calm_next.IH show ?case
  proof (induction rule: calm_step.induct)
    case (calm_reserve w j)
    then have "exclusive (reserve_inflight j (check_inflight j w))" by (intro exclusive_reserve) auto
    moreover have "ow_pc (reserve_inflight j (check_inflight j w)) i \<noteq> Some Reserving" for i
      using calm_reserve by (simp add: reserve_inflight_def check_inflight_def)
    ultimately show ?case by blast
  next
    case (calm_other w w')
    then show ?case using exclusive_step by blast
  qed
qed

section \<open>What later steps keep\<close>

lemmas step_defs = begin_task_def announce_created_def check_inflight_def reserve_inflight_def block_on_def set_phase_def resume_def
  abort_waiting_def decide_end_def terminalize_def announce_end_def leave_task_def drop_task_def mark_cancelled_def

lemma cancelled_stable:
  assumes "orch_step w w'" and "ow_shared w j = Some t" and "at_is_cancelled t"
  shows "\<exists>t'. ow_shared w' j = Some t' \<and> at_is_cancelled t' \<and> at_cancelled_by t' = at_cancelled_by t"
  using assms
  by (induction rule: orch_step.induct)
    (auto simp: step_defs Let_def job_progress_def split: option.splits if_splits)

lemma cancelled_stable_star:
  assumes "orch_step\<^sup>*\<^sup>* w w'" and "ow_shared w j = Some t" and "at_is_cancelled t"
  shows "\<exists>t'. ow_shared w' j = Some t' \<and> at_is_cancelled t' \<and> at_cancelled_by t' = at_cancelled_by t"
  using assms
proof (induction rule: rtranclp_induct)
  case (step y z)
  then show ?case using cancelled_stable by metis
qed simp

lemma reachable_star: "orch_step\<^sup>*\<^sup>* w w' \<Longrightarrow> reachable w \<Longrightarrow> reachable w'"
  by (induction rule: rtranclp_induct) (auto intro: reachable_step)

lemma outcomes_of: "ev \<in> set (outcomes w j) \<Longrightarrow> terminal_event j ev"
  by (simp add: outcomes_def)

text \<open>
  The owner of an entry has ended: nothing wakes a job that waits for it any more, and the job leaves its place only by a
  cancellation or because its caller drops it.
\<close>

definition orphaned :: "string \<Rightarrow> string \<Rightarrow> orch_world \<Rightarrow> bool" where
  "orphaned a b w \<longleftrightarrow> ow_pc w a = Some Ended \<and>
     (ow_pc w b = Some (Waiting a) \<or> ow_pc w b = Some Dropped \<or>
      \<not> quiet (ow_pc w b) \<and> (\<exists>t. ow_shared w b = Some t \<and> at_controller_cancelled t))"

lemma orphaned_step:
  assumes "orch_step w w'" "orphaned a b w"
  shows "orphaned a b w'"
  using assms
proof (induction rule: orch_step.induct)
  case (step_decide w j err)
  then show ?case by (auto simp: orphaned_def decide_end_def split: option.splits)
next
  case (step_finish w j err)
  then show ?case by (auto simp: orphaned_def wake_def)
next
  case (step_drop w j e)
  then show ?case by (auto simp: orphaned_def drop_task_def wake_def)
qed (auto simp: orphaned_def step_defs Let_def split: option.splits if_splits)

lemma orphaned_star: "orch_step\<^sup>*\<^sup>* w w' \<Longrightarrow> orphaned a b w \<Longrightarrow> orphaned a b w'"
  by (induction rule: rtranclp_induct) (auto intro: orphaned_step)

lemma cancelled_outcomes:
  assumes "reachable w" "ow_shared w j = Some t" "at_is_cancelled t"
  shows "outcomes w j = (if ow_pc w j \<in> {Some Leaving, Some Ended} then [EvCancelled j (at_cancelled_by t)] else [])"
proof -
  obtain pc where "ow_pc w j = Some pc" "end_ok j pc t (outcomes w j)"
    using orch_invD(2) [OF reachable_inv [OF assms(1)], of j] assms(2) by (auto simp: job_ok_def)
  with assms(3) show ?thesis by (cases pc) (auto simp: outcome_ok_def split: option.splits terminal_task_state.splits)
qed

lemma calm_is_step: "calm_step w w' \<Longrightarrow> orch_step\<^sup>*\<^sup>* w w'"
proof (induction rule: calm_step.induct)
  case (calm_reserve w j)
  have "orch_step w (check_inflight j w)" by (rule step_check [OF calm_reserve(1)])
  moreover have "orch_step (check_inflight j w) (reserve_inflight j (check_inflight j w))"
    using calm_reserve by (intro step_reserve) (simp add: check_inflight_def)
  ultimately show ?case by auto
qed auto

lemma calm_is_reachable: "calm_reachable w \<Longrightarrow> reachable w"
  by (induction rule: calm_reachable.induct) (auto intro: reachable_init reachable_star calm_is_step)

section \<open>Concrete runs\<close>

definition demo_options :: rip_task_options where
  "demo_options = \<lparr>ro_chat_id = 1, ro_user_id = 7, ro_user_name = None, ro_delivery_chat_id = 1,
     ro_is_group = False, ro_is_force = False, ro_is_cache_only = False, ro_single_storefront = Some ''us'',
     ro_parsed_items = [\<lparr>pt_id = ''1440'', pt_kind = Album, pt_storefront = None\<rparr>],
     ro_reply_to_message_id = None, ro_is_admin = False, ro_codec_preference = None,
     ro_rendition_policy = PrimaryOnly, ro_origin = JobOrigin_default\<rparr>"

abbreviation demo_begin :: "string \<Rightarrow> orch_world \<Rightarrow> orch_world" where
  "demo_begin j \<equiv> begin_task j ''Rip'' 5 demo_options"

definition demo_running :: orch_world where
  "demo_running = reserve_inflight ''a'' (check_inflight ''a'' (announce_created ''a'' (demo_begin ''a'' orch_init)))"

text \<open>A cancellation that comes after \<open>start_task\<close> has read \<open>is_cancelled\<close> and before \<open>terminalize\<close> takes its lock.\<close>

definition demo_deciding :: orch_world where
  "demo_deciding = decide_end ''a'' None (finish_inflight ''a'' None demo_running)"

definition demo_cancelled :: orch_world where
  "demo_cancelled = snd (mark_cancelled ''a'' (Some ''Ann'') demo_deciding)"

definition demo_announcing :: orch_world where
  "demo_announcing = terminalize ''a'' Completed True None demo_cancelled"

definition demo_ended :: orch_world where
  "demo_ended = leave_task ''a'' (announce_end ''a'' (Some (EvCancelled ''a'' (Some ''Ann''))) demo_announcing)"

lemma demo_running_calm: "calm_reachable demo_running"
proof -
  let ?a = "demo_begin ''a'' orch_init"
  have "calm_step orch_init ?a"
    by (intro calm_other step_begin) (auto simp: orch_init_def begin_task_def split: if_splits)
  then have "calm_reachable ?a" using calm_init calm_next by blast
  moreover have "calm_step ?a (announce_created ''a'' ?a)"
    by (intro calm_other step_created) (auto simp: orch_init_def begin_task_def announce_created_def split: if_splits)
  ultimately have "calm_reachable (announce_created ''a'' ?a)" by (rule calm_next)
  moreover have "calm_step (announce_created ''a'' ?a) demo_running"
    unfolding demo_running_def
    by (intro calm_reserve) (simp_all add: orch_init_def begin_task_def announce_created_def find_inflight_def
      map_filter_Nil [THEN iffD2])
  ultimately show ?thesis by (rule calm_next)
qed

lemma demo_deciding_reachable: "reachable demo_deciding"
proof -
  have "reachable (finish_inflight ''a'' None demo_running)"
    by (rule reachable_step [OF calm_is_reachable [OF demo_running_calm] step_finish]) code_simp
  then show ?thesis unfolding demo_deciding_def by (rule reachable_step [OF _ step_decide]) code_simp
qed

lemma demo_cancel_ok: "fst (mark_cancelled ''a'' (Some ''Ann'') demo_deciding)"
  by code_simp

lemma demo_end_steps: "orch_step\<^sup>*\<^sup>* demo_cancelled demo_ended"
proof -
  have "orch_step demo_cancelled demo_announcing" unfolding demo_announcing_def by (intro step_terminalize) code_simp
  moreover have "orch_step demo_announcing (announce_end ''a'' (Some (EvCancelled ''a'' (Some ''Ann''))) demo_announcing)"
    by (intro step_announce) code_simp
  moreover have "orch_step (announce_end ''a'' (Some (EvCancelled ''a'' (Some ''Ann''))) demo_announcing) demo_ended"
    unfolding demo_ended_def by (intro step_leave) code_simp
  ultimately show ?thesis by (meson converse_rtranclp_into_rtranclp rtranclp.rtrancl_refl)
qed

lemma demo_ended_reachable: "reachable demo_ended"
proof -
  have "reachable demo_cancelled" unfolding demo_cancelled_def by (intro reachable_step [OF demo_deciding_reachable] step_cancel)
  then show ?thesis by (rule reachable_star [OF demo_end_steps])
qed

section \<open>Properties\<close>

text \<open>
  C4: Over every interleaving of the critical sections of any number of jobs and cancellations, a job has announced one outcome
  from the moment \<open>terminalize\<close> has sent it and none before, also when its future is dropped; the outcome is the one
  recorded under the lock; \<open>completed\<close> is set exactly from that record on; and the job table lists a job from its start until
  \<open>start_task\<close> returns or is dropped.
\<close>
theorem job_reports_one_outcome:
  assumes "reachable w" and "ow_shared w j = Some t"
  shows "length (outcomes w j) = (if ow_pc w j \<in> {Some Leaving, Some Ended} then 1 else 0) \<and>
    (at_completed t \<longleftrightarrow> at_terminal_state t \<noteq> None) \<and>
    (at_completed t \<longleftrightarrow> ow_pc w j \<in> {Some Leaving, Some Ended} \<union> range (\<lambda>ev. Some (Announcing ev))) \<and>
    (outcomes w j \<noteq> [] \<longrightarrow> outcome_ok j t (outcomes w j)) \<and>
    get_task j w = (if ow_pc w j \<in> {Some Ended, Some Dropped} then None else Some t)"
proof -
  obtain pc where pc: "ow_pc w j = Some pc" "end_ok j pc t (outcomes w j)" "j \<in> set (ow_jobs w) \<longleftrightarrow> pc \<notin> {Ended, Dropped}"
    using orch_invD(2) [OF reachable_inv [OF assms(1)], of j] assms(2) by (auto simp: job_ok_def)
  with assms(2) show ?thesis
    by (cases pc) (auto simp: get_task_def outcome_ok_def split: option.splits terminal_task_state.splits)
qed

lemma job_reports_one_outcome_witness:
  "ow_pc demo_ended ''a'' = Some Ended \<and> length (outcomes demo_ended ''a'') = 1 \<and> get_task ''a'' demo_ended = None"
proof -
  have pc: "ow_pc demo_ended ''a'' = Some Ended" by code_simp
  have sh: "\<exists>t. ow_shared demo_ended ''a'' = Some t"
    using orch_invD(2) [OF reachable_inv [OF demo_ended_reachable], of "''a''"] pc
    by (auto simp: job_ok_def split: option.splits)
  then obtain t where "ow_shared demo_ended ''a'' = Some t" ..
  from job_reports_one_outcome [OF demo_ended_reachable this] pc show ?thesis by simp
qed

text \<open>
  C5: Once \<open>cancel_task\<close> has marked a job as cancelled, at whatever point of its run or of its end before the outcome is
  recorded, nothing that happens later makes the job report a completion or a failure: it reports one cancellation that
  names who cancelled it, and a second cancellation is refused.
\<close>
theorem cancellation_wins:
  assumes "reachable w" and "fst (mark_cancelled j who w)" and "orch_step\<^sup>*\<^sup>* (snd (mark_cancelled j who w)) w'"
  shows "outcomes w' j = (if ow_pc w' j \<in> {Some Leaving, Some Ended} then [EvCancelled j who] else []) \<and>
    \<not> fst (mark_cancelled j who' w') \<and> \<not> fst (cancel_job j who' w')"
proof -
  from assms(2) have "\<exists>t. ow_shared (snd (mark_cancelled j who w)) j = Some t \<and> at_is_cancelled t \<and> at_cancelled_by t = who"
    by (auto simp: mark_cancelled_def split: option.splits if_splits)
  with cancelled_stable_star [OF assms(3)] obtain t where
    t: "ow_shared w' j = Some t" "at_is_cancelled t" "at_cancelled_by t = who" by blast
  have "reachable w'" by (rule reachable_star [OF assms(3) reachable_step [OF assms(1) step_cancel]])
  from cancelled_outcomes [OF this t(1,2)] t show ?thesis by (simp add: mark_cancelled_def cancel_job_def)
qed

lemma cancellation_wins_witness:
  "ow_pc demo_deciding ''a'' = Some (Deciding Completed True None) \<and>
   outcomes demo_ended ''a'' = [EvCancelled ''a'' (Some ''Ann'')] \<and> \<not> fst (cancel_job ''a'' None demo_ended)"
proof -
  have "ow_pc demo_deciding ''a'' = Some (Deciding Completed True None)" by code_simp
  then show ?thesis
    using cancellation_wins [OF demo_deciding_reachable demo_cancel_ok demo_end_steps [unfolded demo_cancelled_def]]
    by (simp add: demo_ended_def)
qed

text \<open>
  C17: The in-flight table is never stale: every entry belongs to a job that runs now and that asked
  for that target, so when no job runs the table is empty.
\<close>
theorem inflight_never_stale:
  assumes "reachable w" and "ow_inflight w k = Some e"
  shows "ow_pc w e = Some RunningJob \<and> k \<in> set (ow_keys w e) \<and> e \<in> set (ow_jobs w)"
proof -
  note inv = reachable_inv [OF assms(1)]
  from orch_invD(1) [OF inv] assms(2) have "ow_pc w e = Some RunningJob" "k \<in> set (ow_keys w e)"
    by (auto simp: inflight_ok_def)
  with orch_invD(2) [OF inv, of e] show ?thesis by (simp add: job_ok_def)
qed

definition demo_key :: inflight_target_key where
  "demo_key = \<lparr>ik_kind = Album, ik_id = ''1440'', ik_storefront = Some ''us''\<rparr>"

lemma inflight_never_stale_witness:
  "ow_inflight demo_running demo_key = Some ''a'' \<and> ''a'' \<in> set (ow_jobs demo_running)"
proof -
  have k: "ow_inflight demo_running demo_key = Some ''a''" by code_simp
  with inflight_never_stale [OF calm_is_reachable [OF demo_running_calm] k] show ?thesis by simp
qed

text \<open>
  In every run in which a job that finds its targets free reserves them before another job's
  critical section intervenes, two running jobs never share a target.
\<close>
theorem targets_exclusive:
  assumes "calm_reachable w"
    and "ow_pc w i = Some RunningJob" "ow_pc w j = Some RunningJob"
    and "k \<in> set (ow_keys w i)" "k \<in> set (ow_keys w j)"
  shows "i = j \<and> ow_inflight w k = Some i"
proof -
  have "exclusive w" using calm_exclusive [OF assms(1)] by blast
  from exclusiveD [OF this assms(2,4)] exclusiveD [OF this assms(3,5)]
  have "ow_inflight w k = Some i" "ow_inflight w k = Some j" .
  then show ?thesis by simp
qed

lemma targets_exclusive_witness: "ow_inflight demo_running demo_key = Some ''a''"
proof -
  have "ow_pc demo_running ''a'' = Some RunningJob" by code_simp
  moreover have "demo_key \<in> set (ow_keys demo_running ''a'')" by code_simp
  ultimately show ?thesis using targets_exclusive [OF demo_running_calm, of "''a''" "''a''" demo_key] by blast
qed

section \<open>What the split check allows\<close>

definition race_checked :: orch_world where
  "race_checked =
     check_inflight ''b'' (check_inflight ''a''
       (announce_created ''b'' (announce_created ''a'' (demo_begin ''b'' (demo_begin ''a'' orch_init)))))"

definition race_running :: orch_world where
  "race_running = reserve_inflight ''b'' (reserve_inflight ''a'' race_checked)"

lemma race_running_reachable: "reachable race_running"
proof -
  let ?a = "demo_begin ''a'' orch_init"
  let ?b = "demo_begin ''b'' ?a"
  have "reachable ?a" by (rule reachable_step [OF reachable_init step_begin]) code_simp+
  then have "reachable ?b" by (rule reachable_step [OF _ step_begin]) code_simp+
  then have "reachable (announce_created ''a'' ?b)" by (rule reachable_step [OF _ step_created]) code_simp
  then have "reachable (announce_created ''b'' (announce_created ''a'' ?b))" by (rule reachable_step [OF _ step_created]) code_simp
  then have "reachable (check_inflight ''a'' (announce_created ''b'' (announce_created ''a'' ?b)))"
    by (rule reachable_step [OF _ step_check]) code_simp
  then have "reachable race_checked"
    unfolding race_checked_def by (rule reachable_step [OF _ step_check]) code_simp
  then have "reachable (reserve_inflight ''a'' race_checked)"
    by (rule reachable_step [OF _ step_reserve]) code_simp
  then show ?thesis
    unfolding race_running_def by (rule reachable_step [OF _ step_reserve]) code_simp
qed

text \<open>
  The check and the insertion of \<open>start_task\<close> are two critical sections, and there is an
  interleaving in which two jobs that ask for the same album both find it free and both run it.
\<close>
theorem duplicate_jobs_can_both_run:
  "\<exists>w a b k. reachable w \<and> a \<noteq> b \<and> ow_pc w a = Some RunningJob \<and> ow_pc w b = Some RunningJob \<and>
     k \<in> set (ow_keys w a) \<inter> set (ow_keys w b)"
proof (intro exI conjI)
  show "reachable race_running" by (rule race_running_reachable)
  show "''a'' \<noteq> ''b''" by simp
  show "ow_pc race_running ''a'' = Some RunningJob" by code_simp
  show "ow_pc race_running ''b'' = Some RunningJob" by code_simp
  show "demo_key \<in> set (ow_keys race_running ''a'') \<inter> set (ow_keys race_running ''b'')" by code_simp
qed

definition blocked_b :: orch_world where
  "blocked_b = check_inflight ''b'' (announce_created ''b'' (demo_begin ''b'' demo_running))"

definition owner_gone :: orch_world where
  "owner_gone = leave_task ''a'' (announce_end ''a'' (Some (EvCompleted ''a''))
     (terminalize ''a'' Completed True None (decide_end ''a'' None (finish_inflight ''a'' None blocked_b))))"

definition lost_wakeup :: orch_world where
  "lost_wakeup = block_on ''b'' ''a'' owner_gone"

lemma lost_wakeup_reachable: "reachable lost_wakeup"
proof -
  let ?f = "finish_inflight ''a'' None blocked_b"
  let ?t = "terminalize ''a'' Completed True None (decide_end ''a'' None ?f)"
  have "reachable demo_running" by (rule calm_is_reachable [OF demo_running_calm])
  then have "reachable (demo_begin ''b'' demo_running)" by (rule reachable_step [OF _ step_begin]) code_simp+
  then have "reachable (announce_created ''b'' (demo_begin ''b'' demo_running))" by (rule reachable_step [OF _ step_created]) code_simp
  then have "reachable blocked_b" unfolding blocked_b_def by (rule reachable_step [OF _ step_check]) code_simp
  then have "reachable ?f" by (rule reachable_step [OF _ step_finish]) code_simp
  then have "reachable (decide_end ''a'' None ?f)" by (rule reachable_step [OF _ step_decide]) code_simp
  then have "reachable ?t" by (rule reachable_step [OF _ step_terminalize]) code_simp
  then have "reachable (announce_end ''a'' (Some (EvCompleted ''a'')) ?t)" by (rule reachable_step [OF _ step_announce]) code_simp
  then have "reachable owner_gone" unfolding owner_gone_def by (rule reachable_step [OF _ step_leave]) code_simp
  then show ?thesis unfolding lost_wakeup_def by (rule reachable_step [OF _ step_block]) code_simp
qed

text \<open>
  \<open>notify_waiters\<close> stores no permit. When the owner of an entry finishes after a duplicate has
  looked the entry up and before it waits for the notification, the duplicate waits for a job that has
  ended. In every continuation it waits on, is dropped, or is cancelled; unless it is cancelled it announces nothing, and then
  it announces the cancellation only.
\<close>
theorem duplicate_can_wait_forever:
  "\<exists>w a b. reachable w \<and> ow_pc w a = Some Ended \<and> ow_pc w b = Some (Waiting a) \<and>
     {w'. orch_step\<^sup>*\<^sup>* w w'} \<subseteq>
     {w'. ow_pc w' b \<in> {Some (Waiting a), Some Dropped} \<and> outcomes w' b = [] \<or>
          (\<exists>t. ow_shared w' b = Some t \<and> at_is_cancelled t \<and> outcomes w' b \<in> {[], [EvCancelled b (at_cancelled_by t)]})}"
proof (intro exI conjI subsetI CollectI)
  let ?a = "''a''" and ?b = "''b''"
  show "reachable lost_wakeup" by (rule lost_wakeup_reachable)
  show a: "ow_pc lost_wakeup ?a = Some Ended" by code_simp
  show b: "ow_pc lost_wakeup ?b = Some (Waiting ?a)" by code_simp
  fix w' assume "w' \<in> {w'. orch_step\<^sup>*\<^sup>* lost_wakeup w'}"
  then have steps: "orch_step\<^sup>*\<^sup>* lost_wakeup w'" by simp
  have "orphaned ?a ?b lost_wakeup" using a b by (simp add: orphaned_def)
  then have orph: "orphaned ?a ?b w'" by (rule orphaned_star [OF steps])
  have reach: "reachable w'" by (rule reachable_star [OF steps lost_wakeup_reachable])
  then have ok: "job_ok w' ?b" using orch_invD(2) reachable_inv by blast
  show "ow_pc w' ?b \<in> {Some (Waiting ?a), Some Dropped} \<and> outcomes w' ?b = [] \<or>
      (\<exists>t. ow_shared w' ?b = Some t \<and> at_is_cancelled t \<and> outcomes w' ?b \<in> {[], [EvCancelled ?b (at_cancelled_by t)]})"
  proof (cases "ow_pc w' ?b \<in> {Some (Waiting ?a), Some Dropped}")
    case True
    with ok show ?thesis by (auto simp: job_ok_def outcome_ok_def split: option.splits)
  next
    case False
    with orph obtain t where t: "ow_shared w' ?b = Some t" "at_controller_cancelled t" by (auto simp: orphaned_def)
    with ok have "at_is_cancelled t" by (simp add: job_ok_def)
    with cancelled_outcomes [OF reach t(1)] t(1) show ?thesis by auto
  qed
qed

end
