(* ===== verification/Unicode_Text.thy ===== *)
theory Unicode_Text
  imports Prelude
begin

text \<open>
  Rust strings seen as sequences of characters, for the code that works on \<open>chars()\<close>, on byte
  lengths and on UTF-16 lengths: a character is its Unicode scalar value. The UTF-8 and UTF-16 lengths,
  \<open>is_char_boundary\<close>, slicing at a boundary, \<open>trim\<close>, \<open>ends_with\<close>, \<open>strip_suffix\<close> and \<open>rfind\<close> are what
  the standard library specifies.
\<close>

type_synonym uchar = nat
type_synonym ustring = "nat list"

definition lit :: "string \<Rightarrow> ustring" where
  "lit s = map of_char s"

definition uchr :: "char \<Rightarrow> uchar" where
  "uchr c = of_char c"

lemma lit_simps [simp]:
  "lit [] = []" "lit (c # s) = uchr c # lit s" "lit (s @ t) = lit s @ lit t" "length (lit s) = length s"
  by (simp_all add: lit_def uchr_def)

lemma uchr_eq [simp]: "uchr a = uchr b \<longleftrightarrow> a = b"
  by (simp add: uchr_def)

lemma set_lit: "set (lit s) = uchr ` set s"
  by (simp add: lit_def uchr_def)

lemma lit_eq_iff [simp]: "lit s = lit t \<longleftrightarrow> s = t"
  unfolding lit_def by (intro inj_map_eq_map inj_onI) simp

section \<open>Lengths\<close>

definition char_len :: "uchar \<Rightarrow> nat" where
  "char_len c = (if c < 0x80 then 1 else if c < 0x800 then 2 else if c < 0x10000 then 3 else 4)"

definition str_len :: "ustring \<Rightarrow> nat" where
  "str_len s = sum_list (map char_len s)"

definition char_len_utf16 :: "uchar \<Rightarrow> nat" where
  "char_len_utf16 c = (if c < 0x10000 then 1 else 2)"

definition utf16_len :: "ustring \<Rightarrow> nat" where
  "utf16_len s = sum_list (map char_len_utf16 s)"

lemma char_len_pos [simp]: "0 < char_len c"
  by (simp add: char_len_def)

lemma str_len_simps [simp]:
  "str_len [] = 0" "str_len (c # s) = char_len c + str_len s" "str_len (s @ t) = str_len s + str_len t"
  by (simp_all add: str_len_def)

lemma utf16_len_simps [simp]:
  "utf16_len [] = 0" "utf16_len (c # s) = char_len_utf16 c + utf16_len s"
  "utf16_len (s @ t) = utf16_len s + utf16_len t"
  by (simp_all add: utf16_len_def)

lemma str_len_0 [simp]: "str_len s = 0 \<longleftrightarrow> s = []"
  by (cases s) (auto simp: less_imp_neq)

lemma length_le_str_len: "length s \<le> str_len s"
proof (induction s)
  case (Cons c s)
  moreover have "1 \<le> char_len c" by (simp add: char_len_def)
  ultimately show ?case by simp
qed simp

lemma char_len_ascii: "char_len (uchr c) = 1" if "of_char c < (128 :: nat)"
  using that by (simp add: char_len_def uchr_def)

lemma str_len_ascii: "(\<And>c. c \<in> set s \<Longrightarrow> of_char c < (128 :: nat)) \<Longrightarrow> str_len (lit s) = length s"
  by (induction s) (auto simp: char_len_ascii)

section \<open>Cutting at a character boundary\<close>

definition is_char_boundary :: "ustring \<Rightarrow> nat \<Rightarrow> bool" where
  "is_char_boundary s i \<longleftrightarrow> i \<in> set (map (\<lambda>k. str_len (take k s)) [0..<Suc (length s)])"

fun slice_to :: "ustring \<Rightarrow> nat \<Rightarrow> ustring" where
  "slice_to [] e = []"
| "slice_to (c # s) e = (if e = 0 then [] else c # slice_to s (e - char_len c))"

text \<open>The longest prefix of at most \<open>m\<close> bytes, the reference for every routine that cuts a string.\<close>

fun fit_prefix :: "ustring \<Rightarrow> nat \<Rightarrow> ustring" where
  "fit_prefix [] m = []"
| "fit_prefix (c # s) m = (if char_len c \<le> m then c # fit_prefix s (m - char_len c) else [])"

lemma fit_prefix_len: "str_len (fit_prefix s m) \<le> m"
  by (induction s m rule: fit_prefix.induct) auto

lemma fit_prefix_take: "\<exists>k \<le> length s. fit_prefix s m = take k s"
proof (induction s m rule: fit_prefix.induct)
  case (2 c s m)
  show ?case
  proof (cases "char_len c \<le> m")
    case True
    with 2 obtain k where "k \<le> length s" "fit_prefix s (m - char_len c) = take k s" by blast
    with True show ?thesis by (intro exI [of _ "Suc k"]) simp
  qed (auto intro: exI [of _ 0])
qed simp

lemma fit_prefix_set: "c \<in> set (fit_prefix s m) \<Longrightarrow> c \<in> set s"
  using fit_prefix_take [of s m] by (auto dest: in_set_takeD)

lemma fit_prefix_all: "str_len s \<le> m \<Longrightarrow> fit_prefix s m = s"
  by (induction s m rule: fit_prefix.induct) auto

lemma fit_prefix_longest: "str_len (take k s) \<le> m \<Longrightarrow> str_len (take k s) \<le> str_len (fit_prefix s m)"
proof (induction s m arbitrary: k rule: fit_prefix.induct)
  case (2 c s m)
  show ?case
  proof (cases k)
    case (Suc j)
    with 2 show ?thesis by auto
  qed simp
qed simp

lemma slice_to_take: "slice_to s (str_len (take k s)) = take k s"
proof (induction s arbitrary: k)
  case (Cons c s)
  have "char_len c \<noteq> 0" using char_len_pos [of c] by linarith
  with Cons show ?case by (cases k) auto
qed simp

lemma slice_to_fit_prefix: "slice_to s (str_len (fit_prefix s m)) = fit_prefix s m"
  using fit_prefix_take [of s m] slice_to_take [of s] by metis

lemma boundary_iff: "is_char_boundary s i \<longleftrightarrow> (\<exists>k \<le> length s. i = str_len (take k s))"
  unfolding is_char_boundary_def set_map set_upt image_iff by (auto simp: Bex_def less_Suc_eq_le)

lemma boundary_0 [simp]: "is_char_boundary s 0"
  by (auto simp: boundary_iff)

lemma boundary_fit_prefix: "is_char_boundary s (str_len (fit_prefix s m))"
  using fit_prefix_take [of s m] unfolding boundary_iff by metis

section \<open>Whitespace and affixes\<close>

definition is_whitespace :: "uchar \<Rightarrow> bool" where
  "is_whitespace c \<longleftrightarrow> (9 \<le> c \<and> c \<le> 13) \<or>
     c \<in> {0x20, 0x85, 0xA0, 0x1680, 0x2028, 0x2029, 0x202F, 0x205F, 0x3000} \<or> (0x2000 \<le> c \<and> c \<le> 0x200A)"

definition is_control :: "uchar \<Rightarrow> bool" where
  "is_control c \<longleftrightarrow> c < 0x20 \<or> (0x7F \<le> c \<and> c < 0xA0)"

definition utrim_start :: "ustring \<Rightarrow> ustring" where
  "utrim_start s = dropWhile is_whitespace s"

definition utrim_end_matches :: "(uchar \<Rightarrow> bool) \<Rightarrow> ustring \<Rightarrow> ustring" where
  "utrim_end_matches P s = rev (dropWhile P (rev s))"

definition utrim :: "ustring \<Rightarrow> ustring" where
  "utrim s = utrim_end_matches is_whitespace (utrim_start s)"

definition ends_with :: "ustring \<Rightarrow> ustring \<Rightarrow> bool" where
  "ends_with s sfx \<longleftrightarrow> length sfx \<le> length s \<and> drop (length s - length sfx) s = sfx"

definition ustrip_suffix :: "ustring \<Rightarrow> ustring \<Rightarrow> ustring option" where
  "ustrip_suffix s sfx = (if ends_with s sfx then Some (take (length s - length sfx) s) else None)"

text \<open>\<open>rfind\<close> of a character, as the number of characters before its last occurrence.\<close>

fun rfind :: "uchar \<Rightarrow> ustring \<Rightarrow> nat option" where
  "rfind c [] = None"
| "rfind c (x # s) = (case rfind c s of
     Some k \<Rightarrow> Some (Suc k)
   | None \<Rightarrow> if x = c then Some 0 else None)"

lemma rfind_Some: "rfind c s = Some k \<Longrightarrow> k < length s \<and> s ! k = c"
  by (induction s arbitrary: k) (auto split: option.splits if_splits)

lemma utrim_set: "c \<in> set (utrim s) \<Longrightarrow> c \<in> set s"
  by (auto simp: utrim_def utrim_end_matches_def utrim_start_def dest!: set_dropWhileD)

lemma utrim_length: "length (utrim s) \<le> length s"
  unfolding utrim_def utrim_end_matches_def utrim_start_def
  by (metis length_dropWhile_le length_rev order_trans)

lemma utrim_idle:
  assumes "s = [] \<or> \<not> is_whitespace (hd s) \<and> \<not> is_whitespace (last s)"
  shows "utrim s = s"
proof (cases "s = []")
  case False
  with assms obtain x xs where s: "s = x # xs" "\<not> is_whitespace x" by (cases s) auto
  moreover from False assms have "rev s \<noteq> []" "\<not> is_whitespace (hd (rev s))" by (auto simp: hd_rev)
  then have "dropWhile is_whitespace (rev s) = rev s" by (cases "rev s") auto
  ultimately show ?thesis by (simp add: utrim_def utrim_end_matches_def utrim_start_def)
qed (simp add: utrim_def utrim_end_matches_def utrim_start_def)

lemma utrim_ends:
  assumes "utrim s \<noteq> []"
  shows "\<not> is_whitespace (hd (utrim s)) \<and> \<not> is_whitespace (last (utrim s))"
proof -
  let ?d = "dropWhile is_whitespace s"
  have t: "utrim s = rev (dropWhile is_whitespace (rev ?d))"
    by (simp add: utrim_def utrim_end_matches_def utrim_start_def)
  with assms have ne: "dropWhile is_whitespace (rev ?d) \<noteq> []" by auto
  then have "last (utrim s) = hd (dropWhile is_whitespace (rev ?d))" by (simp add: t last_rev)
  with hd_dropWhile [OF ne] have l: "\<not> is_whitespace (last (utrim s))" by simp
  obtain ys where ys: "?d = utrim s @ ys"
    using takeWhile_dropWhile_id [of is_whitespace "rev ?d"] unfolding t
    by (metis rev_append rev_rev_ident)
  with assms have "hd (utrim s) = hd ?d" "?d \<noteq> []" by auto
  with hd_dropWhile [of is_whitespace s] l show ?thesis by simp
qed

lemma utrim_idem [simp]: "utrim (utrim s) = utrim s"
  using utrim_idle [of "utrim s"] utrim_ends [of s] by blast

lemma ends_with_append [simp]: "ends_with (s @ t) t"
  by (simp add: ends_with_def)

lemma ends_withE: "ends_with s t \<Longrightarrow> (\<And>p. s = p @ t \<Longrightarrow> thesis) \<Longrightarrow> thesis"
  unfolding ends_with_def by (metis append_take_drop_id)

lemma ustrip_suffix_append [simp]: "ustrip_suffix (s @ t) t = Some s"
  by (simp add: ustrip_suffix_def)

end
