(* ===== verification/Filename.thy ===== *)
theory Filename
  imports Unicode_Text
begin

text \<open>
  Bounded file names, \<open>crates/engine/src/filename.rs\<close>: validation, sanitising with a kept suffix, the
  collision id, the partial archive name and the names of tracks. A \<open>BoundedName<MAX>\<close> is its string; the
  bound is an argument. Serialisation, dereferencing and the comparison impls are the string's.
\<close>

definition MAX_FILENAME_BYTES :: nat where
  "MAX_FILENAME_BYTES = 255"

definition MAX_ARCHIVE_FILENAME_BYTES :: nat where
  "MAX_ARCHIVE_FILENAME_BYTES = 245"

definition MAX_ZIP_ENTRY_FILENAME_BYTES :: nat where
  "MAX_ZIP_ENTRY_FILENAME_BYTES = 240"

datatype filename_error = EmptyName | TooLong nat nat | InvalidCharacter uchar

definition is_forbidden_char :: "uchar \<Rightarrow> bool" where
  "is_forbidden_char c \<longleftrightarrow>
     c \<in> {uchr CHR ''<'', uchr CHR ''>'', uchr CHR '':'', uchr CHR 0x22, uchr CHR ''/'', uchr CHR 0x5C,
           uchr CHR ''|'', uchr CHR ''?'', uchr CHR ''*'', 0} \<or> is_control c"

definition dot_name :: "ustring \<Rightarrow> bool" where
  "dot_name s \<longleftrightarrow> s = lit ''.'' \<or> s = lit ''..''"

definition try_new :: "nat \<Rightarrow> ustring \<Rightarrow> filename_error + ustring" where
  "try_new cap name =
     (let trimmed = utrim name
      in if trimmed = [] then Inl EmptyName
         else if dot_name trimmed then Inl (InvalidCharacter (uchr CHR ''.''))
         else if str_len trimmed > cap then Inl (TooLong (str_len trimmed) cap)
         else case List.find is_forbidden_char trimmed of
                Some c \<Rightarrow> Inl (InvalidCharacter c)
              | None \<Rightarrow> Inr trimmed)"

text \<open>\<open>bound_utf8_prefix\<close> steps back from the byte bound to a character boundary.\<close>

fun back_to_boundary :: "ustring \<Rightarrow> nat \<Rightarrow> nat" where
  "back_to_boundary s 0 = 0"
| "back_to_boundary s (Suc e) = (if is_char_boundary s (Suc e) then Suc e else back_to_boundary s e)"

definition bound_utf8_prefix :: "ustring \<Rightarrow> nat \<Rightarrow> ustring" where
  "bound_utf8_prefix s max_bytes =
     (if str_len s \<le> max_bytes then s
      else slice_to s (back_to_boundary s (min max_bytes (str_len s))))"

definition sanitize :: "ustring \<Rightarrow> ustring" where
  "sanitize s = map (\<lambda>c. if is_forbidden_char c then uchr CHR ''_'' else c) s"

definition fallback_name :: ustring where
  "fallback_name = lit ''track''"

definition candidate_name :: "ustring \<Rightarrow> ustring" where
  "candidate_name name =
     (let trimmed = utrim (sanitize name)
      in if trimmed = [] \<or> dot_name trimmed then fallback_name else trimmed)"

definition keep_suffix :: "nat \<Rightarrow> ustring \<Rightarrow> ustring option \<Rightarrow> ustring" where
  "keep_suffix cap candidate suffix =
     (case suffix of
        Some sfx \<Rightarrow>
          if ends_with candidate sfx then
            (if str_len sfx \<ge> cap then bound_utf8_prefix candidate cap
             else
               let prefix = (case ustrip_suffix candidate sfx of Some p \<Rightarrow> p | None \<Rightarrow> candidate)
               in bound_utf8_prefix prefix (cap - str_len sfx) @ sfx)
          else bound_utf8_prefix candidate cap
      | None \<Rightarrow> bound_utf8_prefix candidate cap)"

definition sanitize_and_bound :: "nat \<Rightarrow> ustring \<Rightarrow> ustring option \<Rightarrow> ustring" where
  "sanitize_and_bound cap name suffix =
     (let bounded = keep_suffix cap (candidate_name name) suffix
      in if bounded = [] \<or> dot_name bounded then fallback_name else bounded)"

definition split_extension :: "ustring \<Rightarrow> ustring \<times> ustring" where
  "split_extension s =
     (case rfind (uchr CHR ''.'') s of
        Some idx \<Rightarrow> if idx > 0 then (take idx s, drop idx s) else (s, [])
      | None \<Rightarrow> (s, []))"

definition with_collision_id :: "nat \<Rightarrow> ustring \<Rightarrow> ustring \<Rightarrow> ustring" where
  "with_collision_id cap s collision_id =
     (let (stem, ext) = split_extension s;
          collision_suffix = lit ''_'' @ sanitize collision_id @ ext
      in if str_len collision_suffix \<ge> cap
         then sanitize_and_bound cap (stem @ collision_suffix) (Some ext)
         else bound_utf8_prefix stem (cap - str_len collision_suffix) @ collision_suffix)"

definition PARTIAL_SUFFIX :: ustring where
  "PARTIAL_SUFFIX = lit '' [Partial]''"

definition into_partial :: "ustring \<Rightarrow> ustring" where
  "into_partial s =
     (case ustrip_suffix s (lit ''.zip'') of
        Some stem \<Rightarrow> stem @ PARTIAL_SUFFIX @ lit ''.zip''
      | None \<Rightarrow> s @ PARTIAL_SUFFIX)"

section \<open>Names of tracks\<close>

text \<open>\<open>{:02}\<close> of an \<open>i64\<close>: a sign counts towards the width of two.\<close>

definition show_02 :: "int \<Rightarrow> ustring" where
  "show_02 n =
     (if n < 0 then lit (CHR ''-'' # show_nat (nat (- n)))
      else if n < 10 then lit (CHR ''0'' # show_nat (nat n))
      else lit (show_nat (nat n)))"

definition track_filename_suffix :: "bool \<Rightarrow> string \<Rightarrow> ustring" where
  "track_filename_suffix explicit codec =
     (let (label, ext) =
        (if codec = ''ec-3'' then (''Atmos'', ''m4a'')
         else if codec \<in> {''aac'', ''mp4a.40.2'', ''mp4a.40.5''} then (''AAC'', ''m4a'')
         else if codec = ''flac'' then (''FLAC'', ''flac'')
         else if codec = ''mp3'' then (''MP3'', ''mp3'')
         else (''ALAC'', ''m4a''))
      in lit ((if explicit then '' [E]'' else []) @ '' ['' @ label @ ''].'' @ ext))"

definition build_track_filename_with_codec ::
  "i64 option \<Rightarrow> ustring \<Rightarrow> ustring \<Rightarrow> bool \<Rightarrow> string \<Rightarrow> ustring" where
  "build_track_filename_with_codec track_number title artist explicit codec =
     (let number = (case track_number of Some n \<Rightarrow> if n \<noteq> 0 then n else 1 | None \<Rightarrow> 1);
          suffix = track_filename_suffix explicit codec;
          combined = show_02 number @ lit ''. '' @ title @ lit '' - '' @ artist @ suffix
      in sanitize_and_bound MAX_FILENAME_BYTES combined (Some suffix))"

definition build_track_filename :: "i64 option \<Rightarrow> ustring \<Rightarrow> ustring \<Rightarrow> bool \<Rightarrow> ustring" where
  "build_track_filename track_number title artist explicit =
     build_track_filename_with_codec track_number title artist explicit ''alac''"

section \<open>The cut is the longest prefix that fits\<close>

lemma back_to_boundary_eq: "back_to_boundary s e = str_len (fit_prefix s e)"
proof (induction e)
  case 0
  show ?case using fit_prefix_len [of s 0] by simp
next
  case (Suc e)
  show ?case
  proof (cases "is_char_boundary s (Suc e)")
    case True
    then obtain k where k: "Suc e = str_len (take k s)" by (auto simp: boundary_iff)
    then have "Suc e \<le> str_len (fit_prefix s (Suc e))"
      using fit_prefix_longest [of k s "Suc e"] by simp
    with True fit_prefix_len [of s "Suc e"] show ?thesis by simp
  next
    case False
    obtain k where k: "fit_prefix s (Suc e) = take k s" using fit_prefix_take by blast
    have "str_len (fit_prefix s (Suc e)) \<noteq> Suc e"
      using False boundary_fit_prefix [of s "Suc e"] by metis
    with fit_prefix_len [of s "Suc e"] have "str_len (take k s) \<le> e" by (simp add: k)
    from fit_prefix_longest [OF this] have "str_len (fit_prefix s (Suc e)) \<le> str_len (fit_prefix s e)"
      by (simp add: k)
    moreover obtain j where j: "fit_prefix s e = take j s" using fit_prefix_take by blast
    have "str_len (take j s) \<le> Suc e" using fit_prefix_len [of s e] j by simp
    from fit_prefix_longest [OF this] have "str_len (fit_prefix s e) \<le> str_len (fit_prefix s (Suc e))"
      by (simp add: j)
    ultimately show ?thesis using False Suc.IH by simp
  qed
qed

lemma bound_utf8_prefix_eq: "bound_utf8_prefix s m = fit_prefix s m"
  by (simp add: bound_utf8_prefix_def fit_prefix_all back_to_boundary_eq slice_to_fit_prefix min_def)

section \<open>Safe names\<close>

text \<open>
  A name that is one component of a path on every file system the server writes to: not empty, within the
  byte bound, free of separators, reserved and control characters, and neither of the two dot names.
\<close>

definition name_ok :: "nat \<Rightarrow> ustring \<Rightarrow> bool" where
  "name_ok cap s \<longleftrightarrow> s \<noteq> [] \<and> str_len s \<le> cap \<and> (\<forall>c \<in> set s. \<not> is_forbidden_char c) \<and> \<not> dot_name s"

lemma underscore_allowed [simp]: "\<not> is_forbidden_char (uchr CHR ''_'')"
  by (simp add: is_forbidden_char_def is_control_def uchr_def)

lemma sanitize_allowed: "c \<in> set (sanitize s) \<Longrightarrow> \<not> is_forbidden_char c"
  by (auto simp: sanitize_def)

lemma sanitize_append [simp]: "sanitize (s @ t) = sanitize s @ sanitize t"
  by (simp add: sanitize_def)

lemma sanitize_id: "(\<And>c. c \<in> set s \<Longrightarrow> \<not> is_forbidden_char c) \<Longrightarrow> sanitize s = s"
  by (induction s) (auto simp: sanitize_def)

lemma dot_name_length: "dot_name s \<Longrightarrow> length s \<le> 2"
  by (auto simp: dot_name_def)

lemma dot_name_set: "dot_name s \<Longrightarrow> c \<in> set s \<Longrightarrow> c = uchr CHR ''.''"
  by (auto simp: dot_name_def)

lemma track_ok: "5 \<le> cap \<Longrightarrow> name_ok cap (fallback_name)"
  by (auto simp: fallback_name_def name_ok_def dot_name_def is_forbidden_char_def is_control_def uchr_def
      char_len_def)

lemma bounded_ok:
  assumes "5 \<le> cap" and "str_len b \<le> cap" and "\<And>c. c \<in> set b \<Longrightarrow> \<not> is_forbidden_char c"
  shows "name_ok cap (if b = [] \<or> dot_name b then fallback_name else b)"
  using assms track_ok [OF assms(1)] by (auto simp: name_ok_def)

lemma candidate_allowed: "c \<in> set (candidate_name name) \<Longrightarrow> \<not> is_forbidden_char c"
  using track_ok [of 5]
  by (auto simp: candidate_name_def Let_def name_ok_def split: if_splits dest!: utrim_set sanitize_allowed)

lemma keep_suffix_cases:
  obtains (cut) "keep_suffix cap cand suffix = fit_prefix cand cap"
  | (kept) p sfx where "suffix = Some sfx" "cand = p @ sfx" "str_len sfx < cap"
      "keep_suffix cap cand suffix = fit_prefix p (cap - str_len sfx) @ sfx"
proof (cases "\<exists>sfx. suffix = Some sfx \<and> ends_with cand sfx \<and> str_len sfx < cap")
  case True
  then obtain p sfx where "suffix = Some sfx" "cand = p @ sfx" "str_len sfx < cap" by (auto elim: ends_withE)
  then show ?thesis by (intro kept) (simp_all add: keep_suffix_def bound_utf8_prefix_eq)
next
  case False
  then have "keep_suffix cap cand suffix = fit_prefix cand cap"
    by (cases suffix) (auto simp: keep_suffix_def bound_utf8_prefix_eq)
  then show ?thesis by (rule cut)
qed

lemma sanitize_and_bound_ok:
  assumes "5 \<le> cap"
  shows "name_ok cap (sanitize_and_bound cap name suffix)"
  unfolding sanitize_and_bound_def Let_def
proof (rule bounded_ok [OF assms])
  show "str_len (keep_suffix cap (candidate_name name) suffix) \<le> cap"
  proof (cases rule: keep_suffix_cases [of cap "candidate_name name" suffix])
    case (kept p sfx)
    with fit_prefix_len [of p "cap - str_len sfx"] show ?thesis by simp
  qed (simp add: fit_prefix_len)
  show "\<not> is_forbidden_char c" if "c \<in> set (keep_suffix cap (candidate_name name) suffix)" for c
  proof (cases rule: keep_suffix_cases [of cap "candidate_name name" suffix])
    case (kept p sfx)
    with that have "c \<in> set (candidate_name name)" by (auto dest: fit_prefix_set)
    then show ?thesis by (rule candidate_allowed)
  next
    case cut
    with that have "c \<in> set (candidate_name name)" by (auto dest: fit_prefix_set)
    then show ?thesis by (rule candidate_allowed)
  qed
qed

lemma split_extension_append: "split_extension s = (stem, ext) \<Longrightarrow> s = stem @ ext"
  by (auto simp: split_extension_def split: option.splits if_splits)

lemma with_collision_id_ok:
  assumes "5 \<le> cap" and "name_ok cap s"
  shows "name_ok cap (with_collision_id cap s cid)"
proof -
  obtain stem ext where e: "split_extension s = (stem, ext)" by (cases "split_extension s")
  then have s: "s = stem @ ext" by (rule split_extension_append)
  let ?suffix = "lit ''_'' @ sanitize cid @ ext"
  have allowed: "\<not> is_forbidden_char c" if "c \<in> set stem \<union> set ?suffix" for c
    using that assms(2) s by (auto simp: name_ok_def dest: sanitize_allowed)
  have "name_ok cap (fit_prefix stem (cap - str_len ?suffix) @ ?suffix)" if "str_len ?suffix < cap"
    unfolding name_ok_def
  proof (intro conjI ballI)
    show "str_len (fit_prefix stem (cap - str_len ?suffix) @ ?suffix) \<le> cap"
      using fit_prefix_len [of stem "cap - str_len ?suffix"] that by simp
    show "\<not> dot_name (fit_prefix stem (cap - str_len ?suffix) @ ?suffix)"
      using dot_name_set [of _ "uchr CHR ''_''"] by force
    show "\<not> is_forbidden_char c" if "c \<in> set (fit_prefix stem (cap - str_len ?suffix) @ ?suffix)" for c
      using that by (intro allowed) (auto dest: fit_prefix_set)
  qed simp
  then show ?thesis
    using sanitize_and_bound_ok [OF assms(1)]
    by (simp add: with_collision_id_def e bound_utf8_prefix_eq Let_def del: lit_simps)
qed

lemma into_partial_ok:
  assumes "name_ok MAX_ARCHIVE_FILENAME_BYTES s"
  shows "name_ok MAX_FILENAME_BYTES (into_partial s)"
proof -
  have suffix: "str_len PARTIAL_SUFFIX = 10" "length PARTIAL_SUFFIX = 10"
      "\<And>c. c \<in> set PARTIAL_SUFFIX \<Longrightarrow> \<not> is_forbidden_char c"
    by (auto simp: PARTIAL_SUFFIX_def char_len_def uchr_def is_forbidden_char_def is_control_def)
  obtain a b where ab: "into_partial s = a @ PARTIAL_SUFFIX @ b" "s = a @ b"
  proof (cases "ends_with s (lit ''.zip'')")
    case True
    then obtain p where "s = p @ lit ''.zip''" by (rule ends_withE)
    then show ?thesis using that [of p "lit ''.zip''"] by (simp add: into_partial_def)
  next
    case False
    then show ?thesis using that [of s "[]"] by (simp add: into_partial_def ustrip_suffix_def)
  qed
  moreover have "\<not> dot_name (a @ PARTIAL_SUFFIX @ b)"
    using dot_name_length [of "a @ PARTIAL_SUFFIX @ b"] suffix(2) by auto
  ultimately show ?thesis
    using assms suffix by (auto simp: name_ok_def MAX_FILENAME_BYTES_def MAX_ARCHIVE_FILENAME_BYTES_def)
qed

lemma try_new_iff: "try_new cap name = Inr r \<longleftrightarrow> r = utrim name \<and> name_ok cap r"
  by (auto simp: try_new_def name_ok_def Let_def find_None_iff find_Some_iff split: option.splits)

section \<open>The interface of bounded names\<close>

text \<open>
  What the engine relies on for each of its three kinds of names (\<open>BoundedName<MAX>\<close> at three
  bounds): built and disambiguated names are accepted, and an accepted name is a single path component.
\<close>

locale bounded_names =
  fixes accepted :: "ustring \<Rightarrow> bool"
    and build :: "ustring \<Rightarrow> ustring option \<Rightarrow> ustring"
    and disambiguate :: "ustring \<Rightarrow> ustring \<Rightarrow> ustring"
  assumes build_ok: "accepted (build name suffix)"
    and disambiguate_ok: "accepted s \<Longrightarrow> accepted (disambiguate s cid)"
    and component: "accepted s \<Longrightarrow> s \<noteq> [] \<and> uchr CHR ''/'' \<notin> set s \<and> \<not> dot_name s"
begin

lemma disambiguated: "accepted (foldl disambiguate (build name suffix) cids)"
  by (induction cids rule: rev_induct) (simp_all add: build_ok disambiguate_ok)

lemma disambiguated_component:
  "foldl disambiguate (build name suffix) cids \<noteq> [] \<and> uchr CHR ''/'' \<notin> set (foldl disambiguate (build name suffix) cids)"
  using component [OF disambiguated] by blast

end

lemma name_ok_component: "name_ok cap s \<Longrightarrow> s \<noteq> [] \<and> uchr CHR ''/'' \<notin> set s \<and> \<not> dot_name s"
  by (auto simp: name_ok_def is_forbidden_char_def)

lemmas bounded_laws = sanitize_and_bound_ok with_collision_id_ok name_ok_component
  MAX_FILENAME_BYTES_def MAX_ARCHIVE_FILENAME_BYTES_def MAX_ZIP_ENTRY_FILENAME_BYTES_def

interpretation standard_name: bounded_names "name_ok MAX_FILENAME_BYTES"
  "sanitize_and_bound MAX_FILENAME_BYTES" "with_collision_id MAX_FILENAME_BYTES"
  by unfold_locales (simp_all add: bounded_laws)

interpretation archive_name: bounded_names "name_ok MAX_ARCHIVE_FILENAME_BYTES"
  "sanitize_and_bound MAX_ARCHIVE_FILENAME_BYTES" "with_collision_id MAX_ARCHIVE_FILENAME_BYTES"
  by unfold_locales (simp_all add: bounded_laws)

interpretation entry_name: bounded_names "name_ok MAX_ZIP_ENTRY_FILENAME_BYTES"
  "sanitize_and_bound MAX_ZIP_ENTRY_FILENAME_BYTES" "with_collision_id MAX_ZIP_ENTRY_FILENAME_BYTES"
  by unfold_locales (simp_all add: bounded_laws)

section \<open>Suffixes are kept\<close>

lemma kept_suffix:
  assumes "hd_ok = hd (sanitize p)" "p \<noteq> []" "\<not> is_whitespace hd_ok"
    and "sfx \<noteq> []" "\<not> is_whitespace (last sfx)" "\<And>c. c \<in> set sfx \<Longrightarrow> \<not> is_forbidden_char c"
    and "str_len sfx < cap" "3 \<le> length sfx"
  shows "sanitize_and_bound cap (p @ sfx) (Some sfx) = fit_prefix (sanitize p) (cap - str_len sfx) @ sfx"
proof -
  have san: "sanitize (p @ sfx) = sanitize p @ sfx" using sanitize_id [of sfx] assms(6) by simp
  have ne: "sanitize p \<noteq> []" using assms(2) by (simp add: sanitize_def)
  have trim: "utrim (sanitize p @ sfx) = sanitize p @ sfx"
    using assms(1,3,4,5) ne by (intro utrim_idle) auto
  have long: "\<not> dot_name (q @ sfx)" for q using dot_name_length [of "q @ sfx"] assms(8) by auto
  have "candidate_name (p @ sfx) = sanitize p @ sfx"
    using assms(4) long by (simp only: candidate_name_def san trim Let_def) simp
  then have "keep_suffix cap (candidate_name (p @ sfx)) (Some sfx) =
      fit_prefix (sanitize p) (cap - str_len sfx) @ sfx"
    using assms(7) by (simp add: keep_suffix_def bound_utf8_prefix_eq)
  then show ?thesis using assms(4) long by (simp add: sanitize_and_bound_def)
qed

lemma digit_char_ok: "d < 10 \<Longrightarrow> \<not> is_forbidden_char (uchr (digit_char d)) \<and> \<not> is_whitespace (uchr (digit_char d))"
  using digit_char_code [of d] by (auto simp: is_forbidden_char_def is_control_def is_whitespace_def uchr_def)

lemma show_02_Cons:
  "\<exists>c s. show_02 n = c # s \<and> \<not> is_whitespace c \<and> \<not> is_forbidden_char c"
proof -
  have "\<exists>c s. lit (show_nat k) = c # s \<and> \<not> is_whitespace c \<and> \<not> is_forbidden_char c" for k
  proof -
    obtain c s where "show_nat k = c # s" using show_nat_nonempty [of k] by (cases "show_nat k") auto
    moreover from this obtain d where "d < 10" "c = digit_char d" using show_nat_digits [of c k] by auto
    ultimately show ?thesis using digit_char_ok [of d] by simp
  qed
  moreover have "\<not> is_whitespace (uchr c) \<and> \<not> is_forbidden_char (uchr c)" if "c \<in> {CHR ''-'', CHR ''0''}" for c
    using that by (auto simp: is_whitespace_def is_forbidden_char_def is_control_def uchr_def)
  ultimately show ?thesis by (auto simp: show_02_def)
qed

lemma track_filename_suffix_facts:
  fixes explicit codec
  defines "sfx \<equiv> track_filename_suffix explicit codec"
  shows "sfx \<noteq> [] \<and> \<not> is_whitespace (last sfx) \<and> (\<forall>c \<in> set sfx. \<not> is_forbidden_char c) \<and>
    str_len sfx < 255 \<and> 3 \<le> length sfx"
  unfolding sfx_def track_filename_suffix_def Let_def
  by (auto simp: is_whitespace_def is_forbidden_char_def is_control_def uchr_def char_len_def)

section \<open>Properties\<close>

text \<open>
  C38: Every name the engine builds is safe to use as a file name: whatever the metadata contains, a sanitised
  name, a name with a collision id and the partial form of an archive name are single path components within
  their byte bound, cut only between characters, and \<open>try_new\<close> accepts exactly such names, trimmed.
\<close>
theorem filenames_safe:
  assumes "5 \<le> cap" and "name_ok cap s" and "name_ok MAX_ARCHIVE_FILENAME_BYTES archive"
  shows "name_ok cap (sanitize_and_bound cap name suffix) \<and>
    name_ok cap (with_collision_id cap s collision_id) \<and>
    name_ok MAX_FILENAME_BYTES (into_partial archive) \<and>
    (try_new cap name = Inr r \<longleftrightarrow> r = utrim name \<and> name_ok cap r) \<and>
    bound_utf8_prefix name cap = fit_prefix name cap"
  using assms sanitize_and_bound_ok with_collision_id_ok into_partial_ok try_new_iff bound_utf8_prefix_eq
  by blast

lemma filenames_safe_witness:
  "name_ok 10 (with_collision_id 10 (lit ''song.m4a'') (lit ''x/y'')) \<and>
   with_collision_id 10 (lit ''song.m4a'') (lit ''x/y'') = lit ''so_x_y.m4a''"
proof -
  have a: "name_ok 10 (lit ''song.m4a'')" and b: "name_ok MAX_ARCHIVE_FILENAME_BYTES (lit ''song.m4a'')"
    by code_simp+
  have "with_collision_id 10 (lit ''song.m4a'') (lit ''x/y'') = lit ''so_x_y.m4a''" by code_simp
  moreover have "name_ok 10 (with_collision_id 10 (lit ''song.m4a'') (lit ''x/y''))"
    using filenames_safe [OF _ a b] by (simp del: lit_simps)
  ultimately show ?thesis by blast
qed

text \<open>
  A track's file name always ends in the full suffix with its codec label and extension, however long its
  title and artist are, and starts with the track number unless the bound cuts it.
\<close>
theorem track_filename_suffix_kept:
  "\<exists>p. build_track_filename_with_codec num title artist explicit codec =
         fit_prefix p (MAX_FILENAME_BYTES - str_len (track_filename_suffix explicit codec)) @
         track_filename_suffix explicit codec \<and>
       p = sanitize (show_02 (case num of Some n \<Rightarrow> if n \<noteq> 0 then n else 1 | None \<Rightarrow> 1) @
             lit ''. '' @ title @ lit '' - '' @ artist)"
proof -
  define n where "n = (case num of Some n \<Rightarrow> if n \<noteq> 0 then n else 1 | None \<Rightarrow> (1 :: int))"
  let ?sfx = "track_filename_suffix explicit codec" and ?p = "show_02 n @ lit ''. '' @ title @ lit '' - '' @ artist"
  obtain c rest where c: "show_02 n = c # rest" "\<not> is_whitespace c" "\<not> is_forbidden_char c"
    using show_02_Cons by blast
  have "hd (sanitize ?p) = c" using c by (simp add: sanitize_def)
  with c have "sanitize_and_bound MAX_FILENAME_BYTES (?p @ ?sfx) (Some ?sfx) =
      fit_prefix (sanitize ?p) (MAX_FILENAME_BYTES - str_len ?sfx) @ ?sfx"
    using track_filename_suffix_facts [of explicit codec]
    by (intro kept_suffix [OF refl]) (auto simp: MAX_FILENAME_BYTES_def)
  then show ?thesis
    by (simp add: build_track_filename_with_codec_def Let_def n_def [symmetric] del: lit_simps)
qed

end
