(* ===== verification/Zip_Plan.thy ===== *)
theory Zip_Plan
  imports Filename Music
begin

text \<open>
  The planning half of \<open>crates/engine/src/zip.rs\<close>: names of archives and of their entries, the
  validation of entries, and the split of an album into parts below Telegram's size limit. Sizes are
  \<open>u64\<close> values kept as naturals, with every checked addition written out; the file system's
  metadata is an argument. The hash function behind \<open>album_generation_hash\<close> is an argument, too.
\<close>

definition TELEGRAM_SPLIT_THRESHOLD_BYTES :: nat where
  "TELEGRAM_SPLIT_THRESHOLD_BYTES = 1900000000"

definition ENTRY_OVERHEAD_BYTES :: nat where
  "ENTRY_OVERHEAD_BYTES = 512"

definition ARCHIVE_HEADROOM_BYTES :: nat where
  "ARCHIVE_HEADROOM_BYTES = 64 * 1024"

record zip_track_entry =
  zt_file_path :: ustring
  zt_archive_filename :: ustring
  zt_file_size :: nat

record zip_part_plan =
  zp_part_index :: nat
  zp_total_parts :: nat
  zp_tracks :: "zip_track_entry list"
  zp_cover_path :: "ustring option"
  zp_archive_filename :: ustring

datatype zip_error =
  ZipEmpty
| InvalidLimit
| InvalidEntryName ustring
| DuplicateEntry ustring
| TrackTooLarge ustring
| ZipSource ustring string
| ZipCancelled
| ZipIo string
| ZipWriter string

section \<open>Names\<close>

definition sanitize_archive_filename :: "ustring \<Rightarrow> ustring" where
  "sanitize_archive_filename name =
     (let sanitized = map (\<lambda>c. if c \<in> {uchr CHR ''<'', uchr CHR ''>'', uchr CHR '':'', uchr CHR 0x22,
                uchr CHR ''/'', uchr CHR 0x5C, uchr CHR ''|'', uchr CHR ''?'', uchr CHR ''*''}
              then uchr CHR ''_'' else c) name;
          trimmed = utrim_end_matches (\<lambda>c. c = uchr CHR ''.'') (utrim sanitized)
      in if trimmed = [] then lit ''album'' else trimmed)"

definition entry_suffix :: "ustring \<Rightarrow> string \<Rightarrow> ustring" where
  "entry_suffix track_id codec =
     (let ext = (if codec = ''flac'' then ''flac'' else if codec = ''mp3'' then ''mp3'' else ''m4a'')
      in lit '' ['' @ track_id @ lit ''].'' @ lit ext)"

definition build_zip_entry_filename_with_codec ::
  "i64 option \<Rightarrow> ustring \<Rightarrow> ustring \<Rightarrow> ustring \<Rightarrow> string \<Rightarrow> ustring" where
  "build_zip_entry_filename_with_codec track_number title artist track_id codec =
     (let suffix = entry_suffix track_id codec;
          name = (case track_number of
                    Some num \<Rightarrow> show_02 num @ lit '' - '' @ title @ lit '' - '' @ artist @ suffix
                  | None \<Rightarrow> title @ lit '' - '' @ artist @ suffix)
      in sanitize_and_bound MAX_ZIP_ENTRY_FILENAME_BYTES name (Some suffix))"

definition build_zip_entry_filename :: "i64 option \<Rightarrow> ustring \<Rightarrow> ustring \<Rightarrow> ustring \<Rightarrow> ustring" where
  "build_zip_entry_filename track_number title artist track_id =
     build_zip_entry_filename_with_codec track_number title artist track_id ''alac''"

definition archive_codec_label :: "string \<Rightarrow> string" where
  "archive_codec_label codec =
     (if codec = ''ec-3'' then ''Atmos''
      else if codec \<in> {''aac'', ''mp4a.40.2'', ''mp4a.40.5''} then ''AAC''
      else if codec = ''flac'' then ''FLAC'' else ''ALAC'')"

definition year_part :: "ustring \<Rightarrow> ustring" where
  "year_part release_date =
     (let year = take 4 release_date
      in if str_len year = 4 \<and> list_all (\<lambda>c. 48 \<le> c \<and> c \<le> 57) year
         then lit '' ('' @ year @ lit '')'' else [])"

definition build_album_archive_base_name_with_codec ::
  "ustring \<Rightarrow> ustring \<Rightarrow> ustring \<Rightarrow> string \<Rightarrow> ustring" where
  "build_album_archive_base_name_with_codec artist album release_date codec =
     (let suffix = lit ('' ['' @ archive_codec_label codec @ '']'');
          name = artist @ lit '' - '' @ album @ year_part release_date @ suffix
      in sanitize_and_bound MAX_ARCHIVE_FILENAME_BYTES name (Some suffix))"

definition build_album_archive_base_name :: "ustring \<Rightarrow> ustring \<Rightarrow> ustring \<Rightarrow> ustring" where
  "build_album_archive_base_name artist album release_date =
     build_album_archive_base_name_with_codec artist album release_date ''alac''"

text \<open>The bytes \<open>album_generation_hash\<close> feeds to the hash, and the hash in hexadecimal.\<close>

definition generation_input :: "string \<Rightarrow> string \<Rightarrow> string list \<Rightarrow> string" where
  "generation_input provider album_id ordered_track_ids =
     ''alac-zip-gen-v1'' @ [CHR 0x00] @ provider @ [CHR 0x00] @ album_id @
     concat (map (\<lambda>tid. CHR 0x00 # tid) ordered_track_ids)"

definition album_generation_hash ::
  "(string \<Rightarrow> bytes) \<Rightarrow> string \<Rightarrow> string \<Rightarrow> string list \<Rightarrow> string" where
  "album_generation_hash sha256 provider album_id ordered_track_ids =
     hex_digest (sha256 (generation_input provider album_id ordered_track_ids))"

section \<open>Validation\<close>

fun split_path :: "ustring \<Rightarrow> ustring list" where
  "split_path [] = [[]]"
| "split_path (c # s) =
     (if c = uchr CHR ''/'' then [] # split_path s
      else case split_path s of p # ps \<Rightarrow> (c # p) # ps | [] \<Rightarrow> [[c]])"

text \<open>\<open>Path\<close> is absolute, with a root component, when it starts with a slash.\<close>

definition validate_entry_name :: "ustring \<Rightarrow> zip_error + unit" where
  "validate_entry_name name =
     (if name = [] \<or> str_len name > MAX_ZIP_ENTRY_FILENAME_BYTES \<or>
         list_ex (\<lambda>c. c = 0 \<or> c < 0x20 \<or> c = 0x7F) name \<or>
         hd name = uchr CHR ''/'' \<or> lit ''..'' \<in> set (split_path name)
      then Inl (InvalidEntryName name) else Inr ())"

fun check_tracks ::
  "(ustring \<Rightarrow> string + nat) \<Rightarrow> ustring set \<Rightarrow> zip_track_entry list \<Rightarrow> zip_error + unit" where
  "check_tracks metadata names [] = Inr ()"
| "check_tracks metadata names (track # tracks) =
     (case validate_entry_name (zt_archive_filename track) of
        Inl e \<Rightarrow> Inl e
      | Inr _ \<Rightarrow>
          if zt_archive_filename track \<in> names then Inl (DuplicateEntry (zt_archive_filename track))
          else case metadata (zt_file_path track) of
                 Inl e \<Rightarrow> Inl (ZipSource (zt_file_path track) e)
               | Inr actual_len \<Rightarrow>
                   if actual_len \<noteq> zt_file_size track
                   then Inl (ZipSource (zt_file_path track) ''file size changed'')
                   else check_tracks metadata (insert (zt_archive_filename track) names) tracks)"

section \<open>Parts\<close>

fun group_tracks ::
  "nat \<Rightarrow> nat \<Rightarrow> zip_track_entry list list \<Rightarrow> zip_track_entry list \<Rightarrow> nat \<Rightarrow> zip_track_entry list \<Rightarrow>
   zip_error + zip_track_entry list list" where
  "group_tracks usable cover_size groups current current_size [] =
     Inr (if current \<noteq> [] then groups @ [current] else groups)"
| "group_tracks usable cover_size groups current current_size (track # tracks) =
     (if zt_file_size track > usable then Inl (TrackTooLarge (zt_archive_filename track))
      else case checked_add64 current_size (zt_file_size track) of
             None \<Rightarrow> Inl InvalidLimit
           | Some next \<Rightarrow>
               let (groups', current', size') =
                     (if current \<noteq> [] \<and> next > usable then (groups @ [current], [], cover_size)
                      else (groups, current, current_size))
               in case checked_add64 size' (zt_file_size track) of
                    None \<Rightarrow> Inl InvalidLimit
                  | Some size'' \<Rightarrow>
                      group_tracks usable cover_size groups' (current' @ [track]) size'' tracks)"

definition usable_bytes :: "nat \<Rightarrow> bool \<Rightarrow> nat \<Rightarrow> nat \<Rightarrow> zip_error + nat" where
  "usable_bytes n_tracks has_cover cover_size max_part_bytes =
     (let entry_count = n_tracks + (if has_cover then 1 else 0) + 1
      in case Option.bind (checked_mul64 entry_count ENTRY_OVERHEAD_BYTES)
                (\<lambda>n. checked_add64 n ARCHIVE_HEADROOM_BYTES) of
           None \<Rightarrow> Inl InvalidLimit
         | Some overhead \<Rightarrow>
             let usable = max_part_bytes - overhead
             in if usable = 0 \<or> cover_size > usable then Inl InvalidLimit else Inr usable)"

definition part_suffix :: "string \<Rightarrow> nat \<Rightarrow> nat \<Rightarrow> ustring" where
  "part_suffix label part_index total_parts =
     (if total_parts = 1 then lit ('' ['' @ label @ ''].zip'')
      else lit ('' ['' @ label @ ''] (Part '' @ show_nat part_index @ '' of '' @ show_nat total_parts @ '').zip''))"

definition part_plan ::
  "ustring \<Rightarrow> ustring \<Rightarrow> ustring \<Rightarrow> ustring option \<Rightarrow> string \<Rightarrow> nat \<Rightarrow> nat \<Rightarrow> zip_track_entry list \<Rightarrow>
   zip_part_plan" where
  "part_plan artist album release_date cover_path codec total_parts index tracks =
     (let part_index = index + 1;
          suffix = part_suffix (archive_codec_label codec) part_index total_parts;
          name = artist @ lit '' - '' @ album @ year_part release_date @ suffix
      in \<lparr>zp_part_index = part_index, zp_total_parts = total_parts, zp_tracks = tracks,
          zp_cover_path = cover_path,
          zp_archive_filename = sanitize_and_bound MAX_ARCHIVE_FILENAME_BYTES name (Some suffix)\<rparr>)"

definition plan_cover_size :: "(ustring \<Rightarrow> string + nat) \<Rightarrow> ustring option \<Rightarrow> zip_error + nat" where
  "plan_cover_size metadata cover_path =
     (case cover_path of
        Some path \<Rightarrow> (case metadata path of Inl e \<Rightarrow> Inl (ZipSource path e) | Inr n \<Rightarrow> Inr n)
      | None \<Rightarrow> Inr 0)"

definition plan_zip_parts_with_codec ::
  "(ustring \<Rightarrow> string + nat) \<Rightarrow> ustring \<Rightarrow> ustring \<Rightarrow> ustring \<Rightarrow> zip_track_entry list \<Rightarrow> ustring option \<Rightarrow>
   nat \<Rightarrow> string \<Rightarrow> zip_error + zip_part_plan list" where
  "plan_zip_parts_with_codec metadata artist album release_date tracks cover_path max_part_bytes codec =
     (if tracks = [] then Inl ZipEmpty
      else if max_part_bytes = 0 then Inl InvalidLimit
      else case check_tracks metadata {lit ''manifest.json''} tracks of
        Inl e \<Rightarrow> Inl e
      | Inr _ \<Rightarrow>
          (case plan_cover_size metadata cover_path of
             Inl e \<Rightarrow> Inl e
           | Inr cover_size \<Rightarrow>
               (case usable_bytes (length tracks) (cover_path \<noteq> None) cover_size max_part_bytes of
                  Inl e \<Rightarrow> Inl e
                | Inr usable \<Rightarrow>
                    (case group_tracks usable cover_size [] [] cover_size tracks of
                       Inl e \<Rightarrow> Inl e
                     | Inr groups \<Rightarrow>
                         Inr (map (\<lambda>(index, ts). part_plan artist album release_date cover_path codec
                                     (length groups) index ts)
                                (enumerate 0 groups))))))"

definition plan_zip_parts ::
  "(ustring \<Rightarrow> string + nat) \<Rightarrow> ustring \<Rightarrow> ustring \<Rightarrow> ustring \<Rightarrow> zip_track_entry list \<Rightarrow> ustring option \<Rightarrow>
   nat \<Rightarrow> zip_error + zip_part_plan list" where
  "plan_zip_parts metadata artist album release_date tracks cover_path max_part_bytes =
     plan_zip_parts_with_codec metadata artist album release_date tracks cover_path max_part_bytes ''alac''"

section \<open>Entry names\<close>

lemma split_path_plain: "uchr CHR ''/'' \<notin> set s \<Longrightarrow> split_path s = [s]"
  by (induction s) auto

lemma accepted_entry_valid:
  assumes "name_ok MAX_ZIP_ENTRY_FILENAME_BYTES s"
  shows "validate_entry_name s = Inr ()"
proof -
  from assms have "s \<noteq> []" "uchr CHR ''/'' \<notin> set s" "\<not> dot_name s" by (auto dest: entry_name.component)
  then have "hd s \<noteq> uchr CHR ''/''" "lit ''..'' \<notin> set (split_path s)"
    by (auto simp: split_path_plain dot_name_def simp del: lit_simps) (metis hd_in_set)
  moreover have "\<not> list_ex (\<lambda>c. c = 0 \<or> c < 0x20 \<or> c = 0x7F) s"
  proof -
    have "\<not> is_control c" if "c \<in> set s" for c using assms that by (simp add: name_ok_def is_forbidden_char_def)
    moreover have "c = 0 \<or> c < 0x20 \<or> c = 0x7F \<Longrightarrow> is_control c" for c :: nat by (auto simp: is_control_def)
    ultimately show ?thesis unfolding list_ex_iff by blast
  qed
  ultimately show ?thesis using assms by (simp add: validate_entry_name_def name_ok_def del: lit_simps)
qed

text \<open>The names the engine builds for entries always pass the archive's validation.\<close>

lemma built_entry_valid:
  "validate_entry_name (build_zip_entry_filename_with_codec track_number title artist track_id codec) = Inr ()"
  unfolding build_zip_entry_filename_with_codec_def Let_def by (intro accepted_entry_valid entry_name.build_ok)

section \<open>The grouping\<close>

definition tracks_size :: "zip_track_entry list \<Rightarrow> nat" where
  "tracks_size ts = sum_list (map zt_file_size ts)"

lemma tracks_size_simps [simp]:
  "tracks_size [] = 0" "tracks_size (t # ts) = zt_file_size t + tracks_size ts"
  "tracks_size (ts @ us) = tracks_size ts + tracks_size us"
  by (simp_all add: tracks_size_def)

text \<open>A part fits when it and the cover are within the usable bytes, or it is a single track.\<close>

definition part_fits :: "nat \<Rightarrow> nat \<Rightarrow> zip_track_entry list \<Rightarrow> bool" where
  "part_fits usable cover ts \<longleftrightarrow>
     ts \<noteq> [] \<and> (cover + tracks_size ts \<le> usable \<or> length ts = 1) \<and> (\<forall>t \<in> set ts. zt_file_size t \<le> usable)"

definition full_before :: "nat \<Rightarrow> nat \<Rightarrow> zip_track_entry list \<Rightarrow> zip_track_entry list \<Rightarrow> bool" where
  "full_before usable cover g h \<longleftrightarrow> usable < cover + tracks_size g + zt_file_size (hd h)"

definition groups_ok :: "nat \<Rightarrow> nat \<Rightarrow> zip_track_entry list list \<Rightarrow> bool" where
  "groups_ok usable cover gs \<longleftrightarrow> list_all (part_fits usable cover) gs \<and> successively (full_before usable cover) gs"

lemma group_tracks_ok:
  assumes "group_tracks usable cover groups current sz tracks = Inr gs"
    and "sz = cover + tracks_size current"
    and "groups_ok usable cover (if current = [] then groups else groups @ [current])"
    and "current = [] \<Longrightarrow> groups = []"
  shows "concat gs = concat groups @ current @ tracks \<and> groups_ok usable cover gs"
  using assms
proof (induction tracks arbitrary: groups current sz gs)
  case Nil
  then show ?case by (auto split: if_splits)
next
  case (Cons t ts)
  let ?next = "sz + zt_file_size t"
  have fit: "zt_file_size t \<le> usable" using Cons.prems(1) by (auto split: if_splits)
  show ?case
  proof (cases "current \<noteq> [] \<and> ?next > usable")
    case True
    have "groups_ok usable cover ((groups @ [current]) @ [[t]])"
      using Cons.prems(2,3) True fit
      by (auto simp: groups_ok_def part_fits_def full_before_def successively_append_iff)
    moreover have "group_tracks usable cover (groups @ [current]) [t] (cover + zt_file_size t) ts = Inr gs"
      using Cons.prems(1) True fit by (auto simp: checked_add64_def split: if_splits option.splits)
    ultimately show ?thesis using Cons.IH [of "groups @ [current]" "[t]"] by simp
  next
    case False
    have "groups_ok usable cover (groups @ [current @ [t]])"
    proof (cases "current = []")
      case True
      with Cons.prems(4) fit show ?thesis by (simp add: groups_ok_def part_fits_def)
    next
      case ne: False
      with False Cons.prems(2,3) fit show ?thesis
        by (auto simp: groups_ok_def part_fits_def full_before_def successively_append_iff)
    qed
    moreover have "group_tracks usable cover groups (current @ [t]) ?next ts = Inr gs"
      using Cons.prems(1) False fit by (auto simp: checked_add64_def split: if_splits option.splits)
    ultimately show ?thesis using Cons.IH [of groups "current @ [t]" ?next gs] Cons.prems(2) by simp
  qed
qed

section \<open>The plan\<close>

lemma check_tracks_ok:
  assumes "check_tracks metadata names tracks = Inr ()"
  shows "distinct (map zt_archive_filename tracks) \<and> set (map zt_archive_filename tracks) \<inter> names = {} \<and>
    (\<forall>t \<in> set tracks. validate_entry_name (zt_archive_filename t) = Inr () \<and>
       metadata (zt_file_path t) = Inr (zt_file_size t))"
  using assms
  by (induction tracks arbitrary: names) (auto split: sum.splits if_splits)

lemma usable_bytes_ok:
  assumes "usable_bytes n has_cover cover_size max_part_bytes = Inr usable"
  shows "0 < usable \<and> cover_size \<le> usable \<and>
    usable + (n + of_bool has_cover + 1) * ENTRY_OVERHEAD_BYTES + ARCHIVE_HEADROOM_BYTES = max_part_bytes"
  using assms
  by (auto simp: usable_bytes_def checked_mul64_def checked_add64_def Let_def split: if_splits)

lemma plan_zip_parts_cases:
  assumes "plan_zip_parts_with_codec metadata artist album release_date tracks cover_path max_part_bytes codec = Inr parts"
  obtains cover_size usable groups
  where "tracks \<noteq> []" "check_tracks metadata {lit ''manifest.json''} tracks = Inr ()"
    "plan_cover_size metadata cover_path = Inr cover_size"
    "usable_bytes (length tracks) (cover_path \<noteq> None) cover_size max_part_bytes = Inr usable"
    "group_tracks usable cover_size [] [] cover_size tracks = Inr groups"
    "parts = map (\<lambda>(index, ts). part_plan artist album release_date cover_path codec (length groups) index ts)
       (enumerate 0 groups)"
  using assms by (auto simp: plan_zip_parts_with_codec_def split: if_splits sum.splits)

lemma part_plan_simps [simp]:
  "zp_tracks (part_plan artist album rd cover codec n i ts) = ts"
  "zp_part_index (part_plan artist album rd cover codec n i ts) = i + 1"
  "zp_total_parts (part_plan artist album rd cover codec n i ts) = n"
  "zp_cover_path (part_plan artist album rd cover codec n i ts) = cover"
  by (simp_all add: part_plan_def Let_def)

lemma part_plan_name_ok:
  "name_ok MAX_ARCHIVE_FILENAME_BYTES (zp_archive_filename (part_plan artist album rd cover codec n i ts))"
  by (simp add: part_plan_def Let_def archive_name.build_ok)

text \<open>The bytes a part needs by the planner's own accounting.\<close>

definition part_bytes :: "nat \<Rightarrow> nat \<Rightarrow> zip_track_entry list \<Rightarrow> nat" where
  "part_bytes entries cover_size ts =
     cover_size + tracks_size ts + entries * ENTRY_OVERHEAD_BYTES + ARCHIVE_HEADROOM_BYTES"

text \<open>
  C32: A plan covers the album: its parts hold all tracks, in order and each once, they are numbered
  from one and all know the number of parts, their names are valid archive names, no two entries
  share a name and none is called like the manifest. With its overhead, every part that has no cover or more than one track stays
  within the limit, and every part but the last is full: with the next track it would need more than the limit.
\<close>

theorem zip_plan_complete:
  assumes "plan_zip_parts_with_codec metadata artist album release_date tracks cover_path max_part_bytes codec = Inr parts"
  shows "concat (map zp_tracks parts) = tracks \<and>
    map zp_part_index parts = [1..<length parts + 1] \<and>
    (\<forall>p \<in> set parts. zp_total_parts p = length parts \<and> zp_cover_path p = cover_path \<and> zp_tracks p \<noteq> [] \<and>
       name_ok MAX_ARCHIVE_FILENAME_BYTES (zp_archive_filename p)) \<and>
    distinct (lit ''manifest.json'' # map zt_archive_filename tracks) \<and>
    (\<exists>cover_size. plan_cover_size metadata cover_path = Inr cover_size \<and>
       successively (\<lambda>ts us. max_part_bytes <
           part_bytes (length tracks + of_bool (cover_path \<noteq> None) + 1) cover_size (ts @ [hd us])) (map zp_tracks parts) \<and>
       (\<forall>p \<in> set parts. cover_path = None \<or> 1 < length (zp_tracks p) \<longrightarrow>
          part_bytes (length tracks + of_bool (cover_path \<noteq> None) + 1) cover_size (zp_tracks p) \<le> max_part_bytes))"
proof -
  from assms obtain cover_size usable groups
    where checked: "check_tracks metadata {lit ''manifest.json''} tracks = Inr ()"
      and cover: "plan_cover_size metadata cover_path = Inr cover_size"
      and usable: "usable_bytes (length tracks) (cover_path \<noteq> None) cover_size max_part_bytes = Inr usable"
      and groups: "group_tracks usable cover_size [] [] cover_size tracks = Inr groups"
      and parts: "parts = map (\<lambda>(index, ts). part_plan artist album release_date cover_path codec
          (length groups) index ts) (enumerate 0 groups)"
    by (rule plan_zip_parts_cases)
  have tracks: "map zp_tracks parts = groups"
    by (simp add: parts comp_def case_prod_beta)
  have ok: "concat groups = tracks" "groups_ok usable cover_size groups"
    using group_tracks_ok [OF groups] by (simp_all add: groups_ok_def)
  have index: "map zp_part_index parts = [1..<length parts + 1]"
    by (rule nth_equalityI) (simp_all add: parts nth_enumerate_eq del: upt_Suc)
  have fits: "part_bytes (length tracks + of_bool (cover_path \<noteq> None) + 1) cover_size ts \<le> max_part_bytes"
    if ts: "ts \<in> set groups" and small: "cover_path = None \<or> 1 < length ts" for ts
  proof -
    from ts ok(2) have fit: "part_fits usable cover_size ts" by (auto simp: groups_ok_def list_all_iff)
    have "cover_size + tracks_size ts \<le> usable"
    proof (cases "length ts = 1")
      case True
      with small cover have "cover_size = 0" by (simp add: plan_cover_size_def)
      moreover from True obtain t where "ts = [t]" by (cases ts) auto
      ultimately show ?thesis using fit by (simp add: part_fits_def)
    qed (use fit in \<open>simp add: part_fits_def\<close>)
    then show ?thesis using usable_bytes_ok [OF usable] by (simp add: part_bytes_def)
  qed
  have full: "successively (\<lambda>ts us. max_part_bytes <
      part_bytes (length tracks + of_bool (cover_path \<noteq> None) + 1) cover_size (ts @ [hd us])) groups"
    by (rule successively_mono [of "full_before usable cover_size"])
      (use ok(2) usable_bytes_ok [OF usable] in \<open>auto simp: groups_ok_def full_before_def part_bytes_def\<close>)
  have plain: "zp_total_parts p = length parts \<and> zp_cover_path p = cover_path \<and>
      name_ok MAX_ARCHIVE_FILENAME_BYTES (zp_archive_filename p)" if "p \<in> set parts" for p
    using that by (auto simp: parts part_plan_name_ok)
  have in_groups: "zp_tracks p \<in> set groups" if "p \<in> set parts" for p
    using that by (simp flip: tracks)
  then have ne: "zp_tracks p \<noteq> []" if "p \<in> set parts" for p
    using that ok(2) by (auto simp: groups_ok_def list_all_iff part_fits_def)
  from checked have names: "distinct (lit ''manifest.json'' # map zt_archive_filename tracks)"
    by (auto dest: check_tracks_ok)
  show ?thesis
    using tracks ok(1) index plain ne names cover fits in_groups full by auto
qed


lemma sample_names [simp]:
  "validate_entry_name (lit ''x.m4a'') = Inr ()" "validate_entry_name (lit ''y.m4a'') = Inr ()"
  by code_simp+

lemmas plan_eval = plan_zip_parts_with_codec_def plan_cover_size_def usable_bytes_def checked_mul64_def
  checked_add64_def ENTRY_OVERHEAD_BYTES_def ARCHIVE_HEADROOM_BYTES_def

lemma zip_plan_complete_witness:
  "\<exists>parts. plan_zip_parts_with_codec (\<lambda>p. Inr 3) (lit ''A'') (lit ''B'') (lit ''2024'')
      [\<lparr>zt_file_path = lit ''x'', zt_archive_filename = lit ''x.m4a'', zt_file_size = 3\<rparr>,
       \<lparr>zt_file_path = lit ''y'', zt_archive_filename = lit ''y.m4a'', zt_file_size = 3\<rparr>] None 67077 ''flac'' = Inr parts \<and>
    length parts = 2 \<and> map zp_part_index parts = [1..<length parts + 1] \<and>
    concat (map zp_tracks parts) =
      [\<lparr>zt_file_path = lit ''x'', zt_archive_filename = lit ''x.m4a'', zt_file_size = 3\<rparr>,
       \<lparr>zt_file_path = lit ''y'', zt_archive_filename = lit ''y.m4a'', zt_file_size = 3\<rparr>]"
  (is "\<exists>parts. ?plan = Inr parts \<and> _")
proof -
  have "?plan \<noteq> Inl e \<and> (case ?plan of Inl _ \<Rightarrow> 0 | Inr parts \<Rightarrow> length parts) = 2" for e
    by (simp add: plan_eval del: lit_simps)
  then obtain parts where "?plan = Inr parts" "length parts = 2" by (cases ?plan) auto
  with zip_plan_complete [OF this(1)] show ?thesis by blast
qed

text \<open>
  A part with a cover can be planned above the limit: the grouping tests a track against the
  usable bytes alone, and the first track of a part is added to the cover without a test. With a
  cover of one megabyte and a track of the usable size, the only part needs one megabyte more than
  the limit.
\<close>

theorem zip_part_exceeds_limit:
  "\<exists>p. plan_zip_parts (\<lambda>path. if path = lit ''cover'' then Inr 1000000 else Inr 1899932928)
      (lit ''A'') (lit ''B'') [] [\<lparr>zt_file_path = lit ''x'', zt_archive_filename = lit ''x.m4a'', zt_file_size = 1899932928\<rparr>]
      (Some (lit ''cover'')) TELEGRAM_SPLIT_THRESHOLD_BYTES = Inr [p] \<and>
    part_bytes 3 1000000 (zp_tracks p) = TELEGRAM_SPLIT_THRESHOLD_BYTES + 1000000"
  by (simp add: plan_zip_parts_def plan_eval part_bytes_def TELEGRAM_SPLIT_THRESHOLD_BYTES_def del: lit_simps)

end
