(* ===== verification/Result_State.thy ===== *)
theory Result_State
  imports Main
begin

text \<open>
  Code that threads a state and stops at the first error: a computation returns an error or a value
  with the new state. \<open>rs_bind\<close> is the question mark operator; an error keeps the effects that came
  before it, as they are in the program.
\<close>

type_synonym ('s, 'e, 'a) result_state = "'s \<Rightarrow> ('e + 'a) \<times> 's"

definition rs_ret :: "'a \<Rightarrow> ('s, 'e, 'a) result_state" where
  "rs_ret a s = (Inr a, s)"

definition rs_fail :: "'e \<Rightarrow> ('s, 'e, 'a) result_state" where
  "rs_fail e s = (Inl e, s)"

definition rs_bind :: "('s, 'e, 'a) result_state \<Rightarrow> ('a \<Rightarrow> ('s, 'e, 'b) result_state) \<Rightarrow> ('s, 'e, 'b) result_state" where
  "rs_bind m f s = (case m s of (Inl e, s') \<Rightarrow> (Inl e, s') | (Inr a, s') \<Rightarrow> f a s')"

definition from_option :: "'e \<Rightarrow> 'a option \<Rightarrow> ('s, 'e, 'a) result_state" where
  "from_option e r = (case r of Some a \<Rightarrow> rs_ret a | None \<Rightarrow> rs_fail e)"

definition from_result :: "'e + 'a \<Rightarrow> ('s, 'e, 'a) result_state" where
  "from_result r = (case r of Inr a \<Rightarrow> rs_ret a | Inl e \<Rightarrow> rs_fail e)"

lemma rs_bind_Inr:
  "rs_bind m f s = (Inr b, s') \<longleftrightarrow> (\<exists>a s1. m s = (Inr a, s1) \<and> f a s1 = (Inr b, s'))"
  by (auto simp: rs_bind_def split: prod.splits sum.splits)

lemma rs_ret_Inr [simp]: "rs_ret a s = (Inr b, s') \<longleftrightarrow> b = a \<and> s' = s"
  by (auto simp: rs_ret_def)

lemma rs_fail_Inr [simp]: "rs_fail e s \<noteq> (Inr b, s')"
  by (simp add: rs_fail_def)

section \<open>What a computation leaves alone\<close>

definition keeps :: "('s \<Rightarrow> 'b) \<Rightarrow> ('s, 'e, 'a) result_state \<Rightarrow> bool" where
  "keeps g m \<longleftrightarrow> (\<forall>s. g (snd (m s)) = g s)"

lemma keepsD: "keeps g m \<Longrightarrow> m s = (r, s') \<Longrightarrow> g s' = g s"
  by (metis keeps_def snd_conv)

lemma keeps_ret [intro!]: "keeps g (rs_ret a)" and keeps_fail [intro!]: "keeps g (rs_fail e)"
  by (simp_all add: keeps_def rs_ret_def rs_fail_def)

lemma keeps_from [intro!]: "keeps g (from_option e r)" "keeps g (from_result r')"
  by (auto simp: from_option_def from_result_def split: option.splits sum.splits)

lemma keeps_bind [intro!]:
  assumes "keeps g m" "\<And>a. keeps g (f a)"
  shows "keeps g (rs_bind m f)"
  using assms by (auto simp: keeps_def rs_bind_def split: prod.splits sum.splits) (metis snd_conv)+

lemma keeps_after: "keeps g m \<Longrightarrow> (\<And>s. g (u s) = g s) \<Longrightarrow> keeps g (\<lambda>s. m (u s))"
  by (simp add: keeps_def)

section \<open>Invariants\<close>

text \<open>A computation preserves an invariant on every outcome, errors included.\<close>

definition preserves :: "('s \<Rightarrow> bool) \<Rightarrow> ('s, 'e, 'a) result_state \<Rightarrow> bool" where
  "preserves I m \<longleftrightarrow> (\<forall>s. I s \<longrightarrow> I (snd (m s)))"

lemma preservesD: "preserves I m \<Longrightarrow> I s \<Longrightarrow> m s = (r, s') \<Longrightarrow> I s'"
  by (metis preserves_def snd_conv)

lemma preserves_ret [intro!]: "preserves I (rs_ret a)" and preserves_fail [intro!]: "preserves I (rs_fail e)"
  by (simp_all add: preserves_def rs_ret_def rs_fail_def)

lemma preserves_from [intro!]: "preserves I (from_option e r)" "preserves I (from_result r')"
  by (auto simp: from_option_def from_result_def split: option.splits sum.splits)

lemma preserves_bind [intro!]:
  assumes "preserves I m" "\<And>a. preserves I (f a)"
  shows "preserves I (rs_bind m f)"
  unfolding preserves_def
proof (intro allI impI)
  fix s assume s: "I s"
  obtain r s1 where m: "m s = (r, s1)" by force
  with s assms(1) have "I s1" by (blast dest: preservesD)
  with m assms(2) show "I (snd (rs_bind m f s))" by (cases r) (auto simp: rs_bind_def preserves_def)
qed

lemma preserves_if [intro!]: "preserves I m \<Longrightarrow> preserves I n \<Longrightarrow> preserves I (if c then m else n)"
  by simp

section \<open>Weakest preconditions\<close>

text \<open>
  What must hold before a computation so that its value satisfies \<open>Q\<close> and its error \<open>E\<close>. The equations for
  \<open>rs_bind\<close> and the basic operations compute it by rewriting.
\<close>

definition rs_wp :: "('s, 'e, 'a) result_state \<Rightarrow> ('a \<Rightarrow> 's \<Rightarrow> bool) \<Rightarrow> ('e \<Rightarrow> 's \<Rightarrow> bool) \<Rightarrow> 's \<Rightarrow> bool" where
  "rs_wp m Q E s = (case m s of (Inr a, s') \<Rightarrow> Q a s' | (Inl e, s') \<Rightarrow> E e s')"

named_theorems wp_simps

lemma wp_bind [wp_simps]: "rs_wp (rs_bind m f) Q E = rs_wp m (\<lambda>a. rs_wp (f a) Q E) E"
  by (rule ext) (auto simp: rs_wp_def rs_bind_def split: prod.splits sum.splits)

lemma wp_ret [wp_simps]: "rs_wp (rs_ret a) Q E = Q a"
  and wp_fail [wp_simps]: "rs_wp (rs_fail e) Q E = E e"
  by (rule ext, simp add: rs_wp_def rs_ret_def rs_fail_def)+

lemma wp_from_result [wp_simps]: "rs_wp (from_result r) Q E = (case r of Inr a \<Rightarrow> Q a | Inl e \<Rightarrow> E e)"
  by (simp add: from_result_def wp_simps split: sum.splits)

lemma wp_if [wp_simps]: "rs_wp (if c then m else n) Q E = (if c then rs_wp m Q E else rs_wp n Q E)"
  by simp

lemma wp_case_option [wp_simps]:
  "rs_wp (case r of None \<Rightarrow> m | Some a \<Rightarrow> f a) Q E = (case r of None \<Rightarrow> rs_wp m Q E | Some a \<Rightarrow> rs_wp (f a) Q E)"
  by (simp split: option.splits)

lemma wp_case_sum [wp_simps]:
  "rs_wp (case r of Inl e \<Rightarrow> f e | Inr a \<Rightarrow> g a) Q E = (case r of Inl e \<Rightarrow> rs_wp (f e) Q E | Inr a \<Rightarrow> rs_wp (g a) Q E)"
  by (simp split: sum.splits)

lemma wp_mono:
  assumes "rs_wp m Q E s" "\<And>a s'. Q a s' \<Longrightarrow> Q' a s'" "\<And>e s'. E e s' \<Longrightarrow> E' e s'"
  shows "rs_wp m Q' E' s"
  using assms by (auto simp: rs_wp_def split: prod.splits sum.splits)

lemma wp_any: "(\<And>a s'. Q a s') \<Longrightarrow> rs_wp m Q (\<lambda>_ _. True) s"
  by (simp add: rs_wp_def split: prod.splits sum.splits)

lemma wp_conj: "rs_wp m Q E s \<Longrightarrow> rs_wp m Q' E' s \<Longrightarrow> rs_wp m (\<lambda>a s. Q a s \<and> Q' a s) (\<lambda>e s. E e s \<and> E' e s) s"
  by (auto simp: rs_wp_def split: prod.splits sum.splits)

text \<open>A computation whose error is a value.\<close>

definition caught :: "('s, 'e, 'a) result_state \<Rightarrow> ('s, 'f, 'e + 'a) result_state" where
  "caught m s = (case m s of (r, s') \<Rightarrow> (Inr r, s'))"

lemma wp_caught [wp_simps]: "rs_wp (caught m) Q E = rs_wp m (\<lambda>a. Q (Inr a)) (\<lambda>e. Q (Inl e))"
  by (rule ext) (auto simp: rs_wp_def caught_def split: prod.splits sum.splits)

end
