(* ===== verification/Zip_Archive.thy ===== *)
theory Zip_Archive
  imports Zip_Plan Result_State
begin

text \<open>
  The writing half of \<open>crates/engine/src/zip.rs\<close>: \<open>create_zip_archive\<close> with every file-system call
  it makes. Each call takes its outcome from a list of faults (\<open>Some e\<close> fails with \<open>e\<close>; an empty
  list never fails again), each look at the cancellation token takes its answer from a list. The
  \<open>zip\<close>, \<open>serde_json\<close>, \<open>sha2\<close> and \<open>cuid2\<close> crates are arguments: the bytes of an archive with given
  entries, the bytes of the manifest, the digest of a byte string and the fresh identifier. The
  temporary file holds nothing until the writer is finished. Reads fill the buffer, as they do on
  regular files. Directories are not part of the state. Output paths name a file: they do not end in a slash or in a component
  of two dots, for which \<open>Path::file_name\<close> differs from \<open>path_file_name\<close>.
\<close>

record zip_io =
  zi_files :: "ustring \<Rightarrow> bytes option"
  zi_faults :: "string option list"
  zi_polls :: "bool list"
  zi_entries :: "(ustring \<times> bytes) list"
  zi_written :: nat
  zi_progress :: "(nat \<times> nat) list"

record zip_manifest =
  zm_format_version :: nat
  zm_part :: nat
  zm_total_parts :: nat
  zm_cover_sha256 :: "string option"
  zm_tracks :: "(ustring \<times> nat \<times> string) list"

type_synonym 'a zio = "(zip_io, zip_error, 'a) result_state"

section \<open>The calls\<close>

definition io_call :: "(string \<Rightarrow> zip_error) \<Rightarrow> unit zio" where
  "io_call err s =
     (case zi_faults s of
        [] \<Rightarrow> (Inr (), s)
      | None # fs \<Rightarrow> (Inr (), s\<lparr>zi_faults := fs\<rparr>)
      | Some e # fs \<Rightarrow> (Inl (err e), s\<lparr>zi_faults := fs\<rparr>))"

text \<open>\<open>File::open\<close> and \<open>fs::metadata\<close> of a source: its bytes, or an error.\<close>

definition open_source :: "ustring \<Rightarrow> bytes zio" where
  "open_source path =
     rs_bind (io_call (ZipSource path))
       (\<lambda>_ s. from_option (ZipSource path ''NotFound'') (zi_files s path) s)"

text \<open>\<open>cancel.is_some_and(|token| token.is_cancelled())\<close>\<close>

definition poll_cancel :: "bool \<Rightarrow> unit zio" where
  "poll_cancel has_cancel s =
     (if has_cancel then
        (case zi_polls s of
           [] \<Rightarrow> (Inr (), s)
         | b # bs \<Rightarrow> (if b then Inl ZipCancelled else Inr (), s\<lparr>zi_polls := bs\<rparr>))
      else (Inr (), s))"

definition BUFFER_BYTES :: nat where
  "BUFFER_BYTES = 64 * 1024"

lemma buffer_pos [simp]: "0 < BUFFER_BYTES"
  by (simp add: BUFFER_BYTES_def)

function (sequential) hash_loop :: "ustring \<Rightarrow> bytes \<Rightarrow> bytes \<Rightarrow> bytes zio" where
  "hash_loop path rest acc s =
     (case io_call (ZipSource path) s of
        (Inl e, s') \<Rightarrow> (Inl e, s')
      | (Inr _, s') \<Rightarrow>
          if rest = [] then (Inr acc, s')
          else hash_loop path (drop BUFFER_BYTES rest) (acc @ take BUFFER_BYTES rest) s')"
  by pat_completeness auto
termination by (relation "measure (\<lambda>(_, rest, _). length rest)") auto

declare hash_loop.simps [simp del]

definition hash_file :: "(bytes \<Rightarrow> bytes) \<Rightarrow> ustring \<Rightarrow> string zio" where
  "hash_file sha256 path =
     rs_bind (open_source path) (\<lambda>content.
     rs_bind (hash_loop path content []) (\<lambda>acc. rs_ret (hex_digest (sha256 acc))))"

fun hash_tracks :: "(bytes \<Rightarrow> bytes) \<Rightarrow> zip_track_entry list \<Rightarrow> string list zio" where
  "hash_tracks sha256 [] = rs_ret []"
| "hash_tracks sha256 (t # ts) =
     rs_bind (hash_file sha256 (zt_file_path t)) (\<lambda>h.
     rs_bind (hash_tracks sha256 ts) (\<lambda>hs. rs_ret (h # hs)))"

section \<open>Writing entries\<close>

definition start_file :: "ustring \<Rightarrow> unit zio" where
  "start_file name =
     rs_bind (io_call ZipWriter) (\<lambda>_ s. (Inr (), s\<lparr>zi_entries := zi_entries s @ [(name, [])]\<rparr>))"

definition append_last :: "bytes \<Rightarrow> (ustring \<times> bytes) list \<Rightarrow> (ustring \<times> bytes) list" where
  "append_last data es = (if es = [] then [] else butlast es @ [(fst (last es), snd (last es) @ data)])"

definition write_all :: "bytes \<Rightarrow> unit zio" where
  "write_all data =
     rs_bind (io_call ZipIo) (\<lambda>_ s. (Inr (), s\<lparr>zi_entries := append_last data (zi_entries s)\<rparr>))"

definition add_written :: "nat \<Rightarrow> unit zio" where
  "add_written n s =
     (case checked_add64 (zi_written s) n of
        None \<Rightarrow> (Inl InvalidLimit, s)
      | Some w \<Rightarrow> (Inr (), s\<lparr>zi_written := w\<rparr>))"

definition report_progress :: "bool \<Rightarrow> nat \<Rightarrow> unit zio" where
  "report_progress has_callback tot s =
     (Inr (), if has_callback then s\<lparr>zi_progress := zi_progress s @ [(zi_written s, tot)]\<rparr> else s)"

definition copy_chunk :: "bool \<Rightarrow> nat \<Rightarrow> bytes \<Rightarrow> unit zio" where
  "copy_chunk has_callback tot chunk =
     rs_bind (write_all chunk) (\<lambda>_.
     rs_bind (add_written (length chunk)) (\<lambda>_. report_progress has_callback tot))"

function (sequential) copy_loop :: "bool \<Rightarrow> bool \<Rightarrow> nat \<Rightarrow> bytes \<Rightarrow> unit zio" where
  "copy_loop has_callback has_cancel tot rest s =
     (case rs_bind (poll_cancel has_cancel) (\<lambda>_. io_call ZipIo) s of
        (Inl e, s') \<Rightarrow> (Inl e, s')
      | (Inr _, s') \<Rightarrow>
          if rest = [] then (Inr (), s')
          else
            (case copy_chunk has_callback tot (take BUFFER_BYTES rest) s' of
               (Inl e, s'') \<Rightarrow> (Inl e, s'')
             | (Inr _, s'') \<Rightarrow> copy_loop has_callback has_cancel tot (drop BUFFER_BYTES rest) s''))"
  by pat_completeness auto
termination by (relation "measure (\<lambda>(_, _, _, rest, _). length rest)") auto

declare copy_loop.simps [simp del]

definition copy_entry :: "bool \<Rightarrow> bool \<Rightarrow> nat \<Rightarrow> ustring \<Rightarrow> ustring \<Rightarrow> unit zio" where
  "copy_entry has_callback has_cancel tot name path =
     rs_bind (poll_cancel has_cancel) (\<lambda>_.
     rs_bind (open_source path) (\<lambda>content.
     rs_bind (start_file name) (\<lambda>_. copy_loop has_callback has_cancel tot content)))"

fun copy_tracks :: "bool \<Rightarrow> bool \<Rightarrow> nat \<Rightarrow> zip_track_entry list \<Rightarrow> unit zio" where
  "copy_tracks has_callback has_cancel tot [] = rs_ret ()"
| "copy_tracks has_callback has_cancel tot (t # ts) =
     rs_bind (copy_entry has_callback has_cancel tot (zt_archive_filename t) (zt_file_path t))
       (\<lambda>_. copy_tracks has_callback has_cancel tot ts)"

section \<open>The archive\<close>

fun check_part_names :: "ustring set \<Rightarrow> zip_track_entry list \<Rightarrow> zip_error + unit" where
  "check_part_names names [] = Inr ()"
| "check_part_names names (track # tracks) =
     (case validate_entry_name (zt_archive_filename track) of
        Inl e \<Rightarrow> Inl e
      | Inr _ \<Rightarrow>
          if zt_archive_filename track \<in> names then Inl (DuplicateEntry (zt_archive_filename track))
          else check_part_names (insert (zt_archive_filename track) names) tracks)"

fun checked_total :: "nat \<Rightarrow> zip_track_entry list \<Rightarrow> nat option" where
  "checked_total n [] = Some n"
| "checked_total n (t # ts) = Option.bind (checked_add64 n (zt_file_size t)) (\<lambda>m. checked_total m ts)"

definition path_file_name :: "ustring \<Rightarrow> ustring" where
  "path_file_name p = rev (takeWhile (\<lambda>c. c \<noteq> uchr CHR ''/'') (rev p))"

definition path_dir :: "ustring \<Rightarrow> ustring" where
  "path_dir p = rev (dropWhile (\<lambda>c. c \<noteq> uchr CHR ''/'') (rev p))"

text \<open>The temporary file stands beside the output; the directory is kept with its final slash.\<close>

definition temp_path :: "ustring \<Rightarrow> ustring \<Rightarrow> ustring" where
  "temp_path cuid output =
     (let output_name = (if path_file_name output = [] then lit ''archive'' else path_file_name output);
          temp_suffix = lit ''.'' @ cuid @ lit ''.part''
      in path_dir output @
         sanitize_and_bound MAX_FILENAME_BYTES (lit ''.'' @ output_name @ temp_suffix) (Some temp_suffix))"

definition create_new_file :: "ustring \<Rightarrow> unit zio" where
  "create_new_file path =
     rs_bind (io_call ZipIo) (\<lambda>_ s.
       if zi_files s path \<noteq> None then (Inl (ZipIo ''AlreadyExists''), s)
       else (Inr (), s\<lparr>zi_files := (zi_files s)(path \<mapsto> [])\<rparr>))"

definition finish_writer :: "((ustring \<times> bytes) list \<Rightarrow> bytes) \<Rightarrow> ustring \<Rightarrow> nat zio" where
  "finish_writer encode temp =
     rs_bind (io_call ZipWriter) (\<lambda>_.
     rs_bind (io_call ZipIo) (\<lambda>_.
     rs_bind (io_call ZipIo) (\<lambda>_ s.
       rs_bind (io_call ZipIo) (\<lambda>_. rs_ret (length (encode (zi_entries s))))
         (s\<lparr>zi_files := (zi_files s)(temp \<mapsto> encode (zi_entries s))\<rparr>))))"

definition remove_ignoring :: "ustring \<Rightarrow> zip_io \<Rightarrow> zip_io" where
  "remove_ignoring path s =
     (case io_call ZipIo s of
        (Inl _, s') \<Rightarrow> s'
      | (Inr _, s') \<Rightarrow> s'\<lparr>zi_files := (zi_files s')(path := None)\<rparr>)"

definition rename_file :: "ustring \<Rightarrow> ustring \<Rightarrow> unit zio" where
  "rename_file from to =
     rs_bind (io_call ZipIo) (\<lambda>_ s.
       (Inr (), s\<lparr>zi_files := (zi_files s)(from := None, to := zi_files s from)\<rparr>))"

text \<open>The closure that fills the temporary file.\<close>

definition write_archive ::
  "((ustring \<times> bytes) list \<Rightarrow> bytes) \<Rightarrow> bool \<Rightarrow> bool \<Rightarrow> ustring \<Rightarrow> zip_part_plan \<Rightarrow> bytes \<Rightarrow> nat \<Rightarrow> nat zio" where
  "write_archive encode has_callback has_cancel temp plan manifest tot =
     rs_bind (create_new_file temp) (\<lambda>_ s0.
       rs_bind (start_file (lit ''manifest.json'')) (\<lambda>_.
       rs_bind (write_all manifest) (\<lambda>_.
       rs_bind (add_written (length manifest)) (\<lambda>_.
       rs_bind (case zp_cover_path plan of
                Some cover \<Rightarrow> copy_entry has_callback has_cancel tot (lit ''cover.jpg'') cover
              | None \<Rightarrow> rs_ret ()) (\<lambda>_.
       rs_bind (copy_tracks has_callback has_cancel tot (zp_tracks plan)) (\<lambda>_.
       finish_writer encode temp))))) (s0\<lparr>zi_entries := [], zi_written := 0\<rparr>))"

definition commit_archive :: "ustring \<Rightarrow> ustring \<Rightarrow> nat zio \<Rightarrow> nat zio" where
  "commit_archive temp output write s =
     (case write s of
        (Inr sz, s') \<Rightarrow>
          (case rename_file temp output s' of
             (Inr _, s'') \<Rightarrow> (Inr sz, s'')
           | (Inl e, s'') \<Rightarrow> (Inl e, remove_ignoring temp s''))
      | (Inl e, s') \<Rightarrow> (Inl e, remove_ignoring temp s'))"

definition manifest_of :: "zip_part_plan \<Rightarrow> string option \<Rightarrow> string list \<Rightarrow> zip_manifest" where
  "manifest_of plan cover_sha256 track_hashes =
     \<lparr>zm_format_version = 1, zm_part = zp_part_index plan, zm_total_parts = zp_total_parts plan, zm_cover_sha256 = cover_sha256,
      zm_tracks = map (\<lambda>(t, h). (zt_archive_filename t, zt_file_size t, h)) (zip (zp_tracks plan) track_hashes)\<rparr>"

text \<open>The checks, hashes and totals before the file is created: the manifest and the total.\<close>

definition archive_inputs ::
  "(bytes \<Rightarrow> bytes) \<Rightarrow> (zip_manifest \<Rightarrow> string + bytes) \<Rightarrow> zip_part_plan \<Rightarrow> (bytes \<times> nat) zio" where
  "archive_inputs sha256 to_vec plan =
     (if zp_tracks plan = [] then rs_fail ZipEmpty
      else
        rs_bind (from_result (check_part_names
            (insert (lit ''manifest.json'') (if zp_cover_path plan \<noteq> None then {lit ''cover.jpg''} else {}))
            (zp_tracks plan))) (\<lambda>_.
        rs_bind (case zp_cover_path plan of
                 Some path \<Rightarrow> rs_bind (open_source path) (\<lambda>c. rs_ret (length c)) | None \<Rightarrow> rs_ret 0) (\<lambda>cover_size.
        rs_bind (case zp_cover_path plan of
                 Some path \<Rightarrow> rs_bind (hash_file sha256 path) (\<lambda>h. rs_ret (Some h)) | None \<Rightarrow> rs_ret None) (\<lambda>cover_sha256.
        rs_bind (hash_tracks sha256 (zp_tracks plan)) (\<lambda>track_hashes.
        rs_bind (from_result (map_sum ZipWriter id (to_vec (manifest_of plan cover_sha256 track_hashes)))) (\<lambda>manifest.
        rs_bind (from_option InvalidLimit (checked_total cover_size (zp_tracks plan))) (\<lambda>payload.
        rs_bind (from_option InvalidLimit (checked_add64 payload (length manifest))) (\<lambda>tot.
        rs_ret (manifest, tot)))))))))"

definition create_zip_archive ::
  "(bytes \<Rightarrow> bytes) \<Rightarrow> (zip_manifest \<Rightarrow> string + bytes) \<Rightarrow> ((ustring \<times> bytes) list \<Rightarrow> bytes) \<Rightarrow> ustring \<Rightarrow>
   ustring \<Rightarrow> zip_part_plan \<Rightarrow> bool \<Rightarrow> bool \<Rightarrow> nat zio" where
  "create_zip_archive sha256 to_vec encode cuid output plan has_callback has_cancel =
     rs_bind (archive_inputs sha256 to_vec plan) (\<lambda>(manifest, tot).
     rs_bind (io_call ZipIo) (\<lambda>_.
     commit_archive (temp_path cuid output) output
       (write_archive encode has_callback has_cancel (temp_path cuid output) plan manifest tot)))"

section \<open>What the calls leave alone\<close>

definition same_calls :: "(zip_io \<Rightarrow> 'b) \<Rightarrow> bool" where
  "same_calls g \<longleftrightarrow> (\<forall>s fs bs. g (s\<lparr>zi_faults := fs\<rparr>) = g s \<and> g (s\<lparr>zi_polls := bs\<rparr>) = g s)"

lemma keeps_io_call: "same_calls g \<Longrightarrow> keeps g (io_call err)"
  and keeps_poll: "same_calls g \<Longrightarrow> keeps g (poll_cancel c)"
  by (auto simp: keeps_def io_call_def poll_cancel_def same_calls_def split: list.splits option.splits)

lemma keeps_open_source: "same_calls g \<Longrightarrow> keeps g (open_source path)"
  unfolding open_source_def
  by (intro keeps_bind keeps_io_call)
    (auto simp: keeps_def from_option_def rs_ret_def rs_fail_def split: option.splits)

lemma keeps_hash_loop: "same_calls g \<Longrightarrow> keeps g (hash_loop path rest acc)"
proof -
  assume g: "same_calls g"
  have "g (snd (hash_loop path rest acc s)) = g s" for s
  proof (induction path rest acc s rule: hash_loop.induct)
    case (1 path rest acc s)
    obtain r s1 where s1: "io_call (ZipSource path) s = (r, s1)" by force
    have "g s1 = g s" by (rule keepsD [OF keeps_io_call [OF g] s1])
    with 1 s1 show ?case by (cases r) (simp_all add: hash_loop.simps [of path rest acc s])
  qed
  then show ?thesis by (simp add: keeps_def)
qed

lemma keeps_hash_file: "same_calls g \<Longrightarrow> keeps g (hash_file sha path)"
  unfolding hash_file_def by (intro keeps_bind keeps_open_source keeps_hash_loop keeps_ret)

lemma keeps_hash_tracks: "same_calls g \<Longrightarrow> keeps g (hash_tracks sha ts)"
  by (induction ts) (auto intro: keeps_hash_file)

text \<open>Writing entries leaves every file alone.\<close>

lemma same_calls_files: "same_calls zi_files" and same_calls_entries: "same_calls zi_entries"
  by (simp_all add: same_calls_def)

lemma keeps_chunk: "keeps zi_files (copy_chunk cb tot chunk)"
  unfolding copy_chunk_def write_all_def
  by (intro keeps_bind keeps_io_call same_calls_files)
    (auto simp: keeps_def add_written_def report_progress_def split: option.splits)

lemma keeps_step: "keeps zi_files (rs_bind (poll_cancel c) (\<lambda>_. io_call ZipIo))"
  by (intro keeps_bind keeps_io_call keeps_poll same_calls_files)

lemma keeps_copy_loop: "keeps zi_files (copy_loop cb c tot rest)"
proof -
  have "zi_files (snd (copy_loop cb c tot rest s)) = zi_files s" for s
  proof (induction cb c tot rest s rule: copy_loop.induct)
    case (1 cb c tot rest s)
    obtain r s1 where s1: "rs_bind (poll_cancel c) (\<lambda>_. io_call ZipIo) s = (r, s1)" by force
    obtain r' s2 where s2: "copy_chunk cb tot (take BUFFER_BYTES rest) s1 = (r', s2)" by force
    have "zi_files s1 = zi_files s" "zi_files s2 = zi_files s1"
      by (rule keepsD [OF keeps_step s1], rule keepsD [OF keeps_chunk s2])
    with 1 s1 s2 show ?case by (cases r; cases r') (simp_all add: copy_loop.simps [of cb c tot rest s])
  qed
  then show ?thesis by (simp add: keeps_def)
qed

lemma keeps_copy_entry: "keeps zi_files (copy_entry cb c tot name path)"
  unfolding copy_entry_def start_file_def
  by (intro keeps_bind keeps_poll keeps_open_source keeps_io_call keeps_copy_loop same_calls_files)
    (simp add: keeps_def)

lemma keeps_copy_tracks: "keeps zi_files (copy_tracks cb c tot ts)"
  by (induction ts) (auto intro: keeps_copy_entry)

section \<open>What the entries hold\<close>

lemma io_call_Inr: "io_call err s = (Inr u, s') \<Longrightarrow> zi_files s' = zi_files s \<and> zi_entries s' = zi_entries s"
  by (auto simp: io_call_def split: list.splits option.splits)

lemma open_source_Inr: "open_source path s = (Inr content, s') \<Longrightarrow>
    zi_files s path = Some content \<and> zi_files s' = zi_files s \<and> zi_entries s' = zi_entries s"
  unfolding open_source_def
  by (auto simp: rs_bind_Inr from_option_def rs_ret_def rs_fail_def split: option.splits dest!: io_call_Inr)

lemma append_last_simps [simp]:
  "append_last d (es @ [(n, c)]) = es @ [(n, c @ d)]"
  by (simp add: append_last_def)

lemma write_all_Inr: "write_all d s = (Inr u, s') \<Longrightarrow> zi_entries s' = append_last d (zi_entries s)"
  by (auto simp: write_all_def rs_bind_Inr dest: io_call_Inr)

lemma copy_chunk_Inr:
  assumes "copy_chunk cb tot chunk s = (Inr u, s')"
  shows "zi_entries s' = append_last chunk (zi_entries s)"
proof -
  from assms obtain s1 s2 where s: "write_all chunk s = (Inr (), s1)" "add_written (length chunk) s1 = (Inr (), s2)"
      "report_progress cb tot s2 = (Inr u, s')"
    by (auto simp: copy_chunk_def rs_bind_Inr)
  have "zi_entries s2 = zi_entries s1" "zi_entries s' = zi_entries s2"
    using s(2,3) by (auto simp: add_written_def report_progress_def split: option.splits)
  with write_all_Inr [OF s(1)] show ?thesis by simp
qed

lemma copy_loop_Inr:
  assumes "copy_loop cb c tot rest s = (Inr u, s')" "zi_entries s = es @ [(n, d)]"
  shows "zi_entries s' = es @ [(n, d @ rest)]"
  using assms
proof (induction cb c tot rest s arbitrary: d rule: copy_loop.induct)
  case (1 cb c tot rest s)
  from "1.prems"(1) obtain s1 where s1: "rs_bind (poll_cancel c) (\<lambda>_. io_call ZipIo) s = (Inr (), s1)"
    by (subst (asm) copy_loop.simps) (auto split: prod.splits sum.splits)
  have e1: "zi_entries s1 = es @ [(n, d)]"
    using keepsD [OF keeps_bind [OF keeps_poll keeps_io_call] s1] "1.prems"(2) same_calls_entries by metis
  show ?case
  proof (cases "rest = []")
    case True
    with "1.prems"(1) s1 e1 show ?thesis by (subst (asm) copy_loop.simps) simp
  next
    case False
    with "1.prems"(1) s1 obtain s2 where s2: "copy_chunk cb tot (take BUFFER_BYTES rest) s1 = (Inr (), s2)"
      and rec: "copy_loop cb c tot (drop BUFFER_BYTES rest) s2 = (Inr u, s')"
      by (subst (asm) copy_loop.simps) (auto split: prod.splits sum.splits)
    have "zi_entries s2 = es @ [(n, d @ take BUFFER_BYTES rest)]"
      using copy_chunk_Inr [OF s2] e1 by simp
    with "1.IH" [OF s1 [symmetric] refl False s2 [symmetric] refl rec] show ?thesis by simp
  qed
qed

lemma copy_entry_Inr:
  assumes "copy_entry cb c tot name path s = (Inr u, s')"
  shows "\<exists>content. zi_files s path = Some content \<and> zi_entries s' = zi_entries s @ [(name, content)]"
proof -
  from assms obtain s1 s2 s3 content where s: "poll_cancel c s = (Inr (), s1)"
      "open_source path s1 = (Inr content, s2)" "start_file name s2 = (Inr (), s3)"
      "copy_loop cb c tot content s3 = (Inr u, s')"
    by (auto simp: copy_entry_def rs_bind_Inr)
  have "zi_files s1 = zi_files s" "zi_entries s1 = zi_entries s"
    using s(1) by (auto simp: poll_cancel_def split: if_splits list.splits)
  moreover have "zi_entries s3 = zi_entries s2 @ [(name, [])]"
    using s(3) by (auto simp: start_file_def rs_bind_Inr dest!: io_call_Inr)
  ultimately show ?thesis using open_source_Inr [OF s(2)] copy_loop_Inr [OF s(4)] by simp
qed

definition entry_of :: "(ustring \<Rightarrow> bytes option) \<Rightarrow> zip_track_entry \<Rightarrow> ustring \<times> bytes" where
  "entry_of files t = (zt_archive_filename t, the (files (zt_file_path t)))"

lemma copy_tracks_Inr:
  "copy_tracks cb c tot ts s = (Inr u, s') \<Longrightarrow> zi_entries s' = zi_entries s @ map (entry_of (zi_files s)) ts"
proof (induction ts arbitrary: s)
  case (Cons t ts)
  then obtain s1 where s: "copy_entry cb c tot (zt_archive_filename t) (zt_file_path t) s = (Inr (), s1)"
      "copy_tracks cb c tot ts s1 = (Inr u, s')" by (auto simp: rs_bind_Inr)
  with Cons.IH [OF s(2)] copy_entry_Inr [OF s(1)] keepsD [OF keeps_copy_entry s(1)]
  show ?case by (auto simp: entry_of_def)
qed simp

lemma hash_tracks_Inr:
  "hash_tracks sha ts s = (Inr hs, s') \<Longrightarrow> t \<in> set ts \<Longrightarrow> zi_files s (zt_file_path t) \<noteq> None"
proof (induction ts arbitrary: s hs)
  case (Cons u ts)
  then obtain h hs' s1 where s: "hash_file sha (zt_file_path u) s = (Inr h, s1)"
      "hash_tracks sha ts s1 = (Inr hs', s')" by (auto simp: rs_bind_Inr)
  with Cons.IH [OF s(2)] Cons.prems(2) keepsD [OF keeps_hash_file [OF same_calls_files] s(1)] show ?case
    by (auto simp: hash_file_def rs_bind_Inr dest!: open_source_Inr)
qed simp

section \<open>The archive is written completely or not at all\<close>

definition archive_entries :: "(ustring \<Rightarrow> bytes option) \<Rightarrow> zip_part_plan \<Rightarrow> bytes \<Rightarrow> (ustring \<times> bytes) list" where
  "archive_entries files plan manifest =
     (lit ''manifest.json'', manifest) #
     (case zp_cover_path plan of Some cover \<Rightarrow> [(lit ''cover.jpg'', the (files cover))] | None \<Rightarrow> []) @
     map (entry_of files) (zp_tracks plan)"

definition without :: "ustring \<Rightarrow> zip_io \<Rightarrow> ustring \<Rightarrow> bytes option" where
  "without path s = (zi_files s)(path := None)"

lemma same_calls_without: "same_calls (without path)"
  by (simp add: same_calls_def without_def)

lemma keeps_without: "keeps zi_files m \<Longrightarrow> keeps (without path) m"
  by (simp add: keeps_def without_def)

lemma keeps_create_new: "keeps (without temp) (create_new_file temp)"
  unfolding create_new_file_def
  by (intro keeps_bind keeps_io_call same_calls_without) (simp add: keeps_def without_def)

lemma keeps_finish: "keeps (without temp) (finish_writer encode temp)"
proof -
  have "keeps (without temp) (\<lambda>s. rs_bind (io_call ZipIo) (\<lambda>_. rs_ret (length (encode (zi_entries s))))
      (s\<lparr>zi_files := (zi_files s)(temp \<mapsto> encode (zi_entries s))\<rparr>))"
    by (auto simp: keeps_def without_def rs_bind_def io_call_def rs_ret_def split: list.splits option.splits)
  then show ?thesis
    unfolding finish_writer_def by (intro keeps_bind keeps_io_call same_calls_without)
qed

lemma keeps_manifest: "keeps zi_files (start_file name)" "keeps zi_files (write_all d)" "keeps zi_files (add_written n)"
  unfolding start_file_def write_all_def
  by (intro keeps_bind keeps_io_call same_calls_files, simp add: keeps_def)+
    (auto simp: keeps_def add_written_def split: option.splits)

lemma keeps_cover: "keeps zi_files (case p of Some cover \<Rightarrow> copy_entry cb c tot n cover | None \<Rightarrow> rs_ret ())"
  by (cases p) (auto intro: keeps_copy_entry)

lemma keeps_write_archive: "keeps (without temp) (write_archive encode cb c temp plan manifest tot)"
  unfolding write_archive_def
proof (rule keeps_bind [OF keeps_create_new], rule keeps_after, goal_cases)
  case 1
  show ?case
    by (intro keeps_bind keeps_finish) (intro keeps_without keeps_manifest keeps_cover keeps_copy_tracks)+
qed (simp add: without_def)

lemma write_archive_Inr:
  assumes "write_archive encode cb c temp plan manifest tot s = (Inr n, s')"
  defines "es \<equiv> archive_entries ((zi_files s)(temp \<mapsto> [])) plan manifest"
  shows "zi_files s temp = None \<and> zi_files s' = (zi_files s)(temp \<mapsto> encode es) \<and> n = length (encode es)"
proof -
  from assms(1) obtain s0 s1 s2 s3 s4 s5 where s:
      "create_new_file temp s = (Inr (), s0)"
      "start_file (lit ''manifest.json'') (s0\<lparr>zi_entries := [], zi_written := 0\<rparr>) = (Inr (), s1)"
      "write_all manifest s1 = (Inr (), s2)" "add_written (length manifest) s2 = (Inr (), s3)"
      "(case zp_cover_path plan of Some cover \<Rightarrow> copy_entry cb c tot (lit ''cover.jpg'') cover | None \<Rightarrow> rs_ret ()) s3 = (Inr (), s4)"
      "copy_tracks cb c tot (zp_tracks plan) s4 = (Inr (), s5)" "finish_writer encode temp s5 = (Inr n, s')"
    by (auto simp: write_archive_def rs_bind_Inr)
  let ?fs = "(zi_files s)(temp \<mapsto> [])"
  have f0: "zi_files s temp = None" "zi_files s0 = ?fs"
    using s(1) by (auto simp: create_new_file_def rs_bind_Inr split: if_splits dest!: io_call_Inr)
  note files = keepsD [OF keeps_manifest(1) s(2)] keepsD [OF keeps_manifest(2) s(3)]
    keepsD [OF keeps_manifest(3) s(4)] keepsD [OF keeps_cover s(5)] keepsD [OF keeps_copy_tracks s(6)]
  have "zi_entries s1 = [(lit ''manifest.json'', [])]"
    using s(2) by (auto simp: start_file_def rs_bind_Inr simp del: lit_simps dest!: io_call_Inr)
  then have "zi_entries s2 = [(lit ''manifest.json'', manifest)]"
    using write_all_Inr [OF s(3)] append_last_simps [of manifest "[]"] by (simp del: lit_simps)
  moreover have "zi_entries s3 = zi_entries s2" using s(4) by (auto simp: add_written_def split: option.splits)
  ultimately have "zi_entries s5 = es"
    using copy_tracks_Inr [OF s(6)] s(5) files f0(2)
    by (cases "zp_cover_path plan") (auto simp: es_def archive_entries_def simp del: lit_simps dest!: copy_entry_Inr)
  moreover have "zi_files s' = (zi_files s5)(temp \<mapsto> encode (zi_entries s5)) \<and> n = length (encode (zi_entries s5))"
    using s(7) by (auto simp: finish_writer_def rs_bind_Inr dest!: io_call_Inr)
  ultimately show ?thesis using f0 files by simp
qed

lemma remove_ignoring_without: "without temp (remove_ignoring temp s) = without temp s"
  by (auto simp: remove_ignoring_def io_call_def without_def split: list.splits option.splits)

lemma commit_archive_outcome:
  assumes "keeps (without temp) write" "commit_archive temp output write s = (r, s')"
  shows "case r of
      Inl e \<Rightarrow> without temp s' = without temp s
    | Inr n \<Rightarrow> \<exists>s1. write s = (Inr n, s1) \<and> zi_files s' = (without temp s)(output := zi_files s1 temp)"
proof -
  obtain w s1 where w: "write s = (w, s1)" by force
  have k1: "without temp s1 = without temp s" by (rule keepsD [OF assms(1) w])
  show ?thesis
  proof (cases w)
    case (Inl e)
    with assms(2) w k1 show ?thesis by (auto simp: commit_archive_def remove_ignoring_without)
  next
    case (Inr n)
    obtain q s2 where q: "rename_file temp output s1 = (q, s2)" by force
    show ?thesis
    proof (cases q)
      case (Inl e)
      with q have "zi_files s2 = zi_files s1"
        by (auto simp: rename_file_def rs_bind_def io_call_def split: prod.splits sum.splits list.splits option.splits)
      then have "without temp s2 = without temp s" using k1 by (simp add: without_def)
      with assms(2) w \<open>w = Inr n\<close> q Inl show ?thesis by (auto simp: commit_archive_def remove_ignoring_without)
    next
      case (Inr u)
      with q have "zi_files s2 = (without temp s1)(output := zi_files s1 temp)"
        by (auto simp: rename_file_def rs_bind_Inr without_def dest!: io_call_Inr)
      with assms(2) w \<open>w = Inr n\<close> q Inr k1 show ?thesis by (auto simp: commit_archive_def)
    qed
  qed
qed

lemma archive_entries_cong:
  assumes "\<And>t. t \<in> set (zp_tracks plan) \<Longrightarrow> files (zt_file_path t) = files' (zt_file_path t)"
    and "\<And>p. zp_cover_path plan = Some p \<Longrightarrow> files p = files' p"
  shows "archive_entries files plan manifest = archive_entries files' plan manifest"
  using assms by (auto simp: archive_entries_def entry_of_def split: option.splits)

lemma keeps_cover_source:
  "keeps zi_files (case p of Some path \<Rightarrow> rs_bind (open_source path) (\<lambda>c. rs_ret (length c)) | None \<Rightarrow> rs_ret 0)"
  "keeps zi_files (case p of Some path \<Rightarrow> rs_bind (hash_file sha path) (\<lambda>h. rs_ret (Some h)) | None \<Rightarrow> rs_ret None)"
  by (cases p; auto intro: keeps_open_source keeps_hash_file same_calls_files)+

lemma keeps_inputs: "keeps zi_files (archive_inputs sha to_vec plan)"
  unfolding archive_inputs_def
  by (auto intro: keeps_cover_source keeps_hash_tracks same_calls_files)

lemma archive_inputs_Inr:
  assumes "archive_inputs sha to_vec plan s = (Inr (manifest, tot), s')"
  shows "(\<exists>cover_sha256 track_hashes. to_vec (manifest_of plan cover_sha256 track_hashes) = Inr manifest) \<and>
    (\<forall>t \<in> set (zp_tracks plan). zi_files s (zt_file_path t) \<noteq> None) \<and>
    (\<forall>p. zp_cover_path plan = Some p \<longrightarrow> zi_files s p \<noteq> None)"
proof -
  from assms obtain v cs ch hs s1 s2 s3 where s:
      "(case zp_cover_path plan of Some path \<Rightarrow> rs_bind (open_source path) (\<lambda>c. rs_ret (length c)) | None \<Rightarrow> rs_ret 0) s = (Inr cs, s1)"
      "(case zp_cover_path plan of Some path \<Rightarrow> rs_bind (hash_file sha path) (\<lambda>h. rs_ret (Some h)) | None \<Rightarrow> rs_ret None) s1 = (Inr ch, s2)"
      "hash_tracks sha (zp_tracks plan) s2 = (Inr hs, s3)"
      "to_vec (manifest_of plan ch hs) = Inr manifest"
    by (auto simp: archive_inputs_def rs_bind_Inr from_result_def from_option_def rs_fail_def
        split: if_splits sum.splits option.splits simp del: lit_simps)
      (auto simp: map_sum_def rs_fail_def rs_ret_def split: sum.splits)
  have "zi_files s2 = zi_files s"
    using keepsD [OF keeps_cover_source(1) s(1)] keepsD [OF keeps_cover_source(2) s(2)] by simp
  with s(1,4) hash_tracks_Inr [OF s(3)] show ?thesis
    by (auto simp: rs_bind_Inr dest!: open_source_Inr)
qed

text \<open>
  C31: Creating an archive is all or nothing. Whatever calls fail and whenever the job is cancelled,
  an error leaves every file but the temporary one as it was; success leaves, instead of the
  temporary file, the output with exactly the manifest, the cover and the tracks of the plan in
  order, each with the bytes its source had, and returns its size.
\<close>

theorem create_zip_archive_atomic:
  "case create_zip_archive sha256 to_vec encode cuid output plan cb c s of
     (Inl e, s') \<Rightarrow> without (temp_path cuid output) s' = without (temp_path cuid output) s
   | (Inr n, s') \<Rightarrow> \<exists>manifest cover_sha256 track_hashes.
       to_vec (manifest_of plan cover_sha256 track_hashes) = Inr manifest \<and>
       zi_files s' = (without (temp_path cuid output) s)
         (output \<mapsto> encode (archive_entries (zi_files s) plan manifest)) \<and>
       n = length (encode (archive_entries (zi_files s) plan manifest))"
proof -
  let ?temp = "temp_path cuid output"
  obtain r s' where run: "create_zip_archive sha256 to_vec encode cuid output plan cb c s = (r, s')" by force
  obtain q s1 where q: "archive_inputs sha256 to_vec plan s = (q, s1)" by force
  obtain d s2 where d: "io_call ZipIo s1 = (d, s2)" by force
  have files: "zi_files s1 = zi_files s" "zi_files s2 = zi_files s1"
    by (rule keepsD [OF keeps_inputs q], rule keepsD [OF keeps_io_call [OF same_calls_files] d])
  show ?thesis
  proof (cases "\<exists>m t. q = Inr (m, t) \<and> d = Inr ()")
    case False
    with run q d have "s' \<in> {s1, s2}" "\<exists>e. r = Inl e"
      by (cases q; cases d; auto simp: create_zip_archive_def rs_bind_def)+
    with run files show ?thesis by (auto simp: without_def)
  next
    case True
    then obtain m t where q': "q = Inr (m, t)" "d = Inr ()" by blast
    let ?fill = "write_archive encode cb c ?temp plan m t"
    from run q d q' have commit: "commit_archive ?temp output ?fill s2 = (r, s')"
      by (simp add: create_zip_archive_def rs_bind_def)
    note outcome = commit_archive_outcome [OF keeps_write_archive commit]
    show ?thesis
    proof (cases r)
      case (Inl e)
      with outcome run files show ?thesis by (simp add: without_def)
    next
      case (Inr n)
      with outcome obtain s3 where s3: "?fill s2 = (Inr n, s3)"
        "zi_files s' = (without ?temp s2)(output := zi_files s3 ?temp)" by auto
      from q q' have inputs: "archive_inputs sha256 to_vec plan s = (Inr (m, t), s1)" by simp
      have "archive_entries ((zi_files s)(?temp \<mapsto> [])) plan m = archive_entries (zi_files s) plan m"
        using archive_inputs_Inr [OF inputs] write_archive_Inr [OF s3(1)] files
        by (intro archive_entries_cong) auto
      with write_archive_Inr [OF s3(1)] s3(2) archive_inputs_Inr [OF inputs] files Inr run show ?thesis
        by (auto simp: without_def)
    qed
  qed
qed

end
