(* ===== verification/Job_Helpers.thy ===== *)
theory Job_Helpers
  imports Unicode_Text Music Retry
begin

text \<open>
  The helpers of a rip job: caption text and the bounded storage retries of
  \<open>crates/engine/src/orchestrator/helpers.rs\<close>, and the archive workspace of
  \<open>crates/engine/src/orchestrator/zip_state.rs\<close> (the codec of the archive, the first error, the ledger of
  uploaded messages that are not committed yet). The cache behind a retry is a function from the
  number of the call to its answer; the sleeps are returned with the result.
\<close>

section \<open>Caption text\<close>

definition escape_char :: "uchar \<Rightarrow> ustring" where
  "escape_char c =
     (if c = uchr CHR ''&'' then lit ''&amp;'' else if c = uchr CHR ''<'' then lit ''&lt;''
      else if c = uchr CHR ''>'' then lit ''&gt;'' else if c = uchr CHR 0x22 then lit ''&quot;''
      else if c = uchr CHR 0x27 then lit ''&#39;'' else [c])"

definition html_escape :: "ustring \<Rightarrow> ustring" where
  "html_escape input = concat (map escape_char input)"

definition ellipsis :: uchar where
  "ellipsis = 0x2026"

text \<open>The loop of \<open>clamp_str_utf16\<close> over \<open>char_indices\<close>: the byte at which the text is cut.\<close>

fun clamp_limit :: "nat \<Rightarrow> nat \<Rightarrow> nat \<Rightarrow> ustring \<Rightarrow> nat" where
  "clamp_limit bound idx curr_len [] = idx"
| "clamp_limit bound idx curr_len (c # s) =
     (if curr_len + char_len_utf16 c > bound then idx
      else clamp_limit bound (idx + char_len c) (curr_len + char_len_utf16 c) s)"

definition clamp_str_utf16 :: "ustring \<Rightarrow> nat \<Rightarrow> ustring" where
  "clamp_str_utf16 s max_utf16 =
     (if utf16_len s \<le> max_utf16 then s
      else slice_to s (clamp_limit (max_utf16 - 1) 0 0 s) @ [ellipsis])"

fun kind_str :: "target_kind \<Rightarrow> string" where
  "kind_str Track = ''track''"
| "kind_str Album = ''album''"
| "kind_str Artist = ''artist''"
| "kind_str Playlist = ''playlist''"

text \<open>The payload of a panic is a \<open>String\<close>, a \<open>&str\<close> or something else.\<close>

datatype panic_payload = PanicString ustring | PanicStr ustring | PanicOther

fun panic_message :: "panic_payload \<Rightarrow> ustring" where
  "panic_message (PanicString m) = m"
| "panic_message (PanicStr m) = m"
| "panic_message PanicOther = lit ''task panicked''"

section \<open>Storage retries\<close>

datatype track_cache_operation = CacheFind | CacheSave | CacheDelete

datatype track_cache_error =
  CacheUnavailable track_cache_operation ustring
| CacheFailed track_cache_operation ustring

definition is_unavailable :: "track_cache_error \<Rightarrow> bool" where
  "is_unavailable e = (case e of CacheUnavailable _ _ \<Rightarrow> True | CacheFailed _ _ \<Rightarrow> False)"

text \<open>The loop \<open>find_cached_tracks_with_retry\<close> and \<open>save_track_with_retry\<close> share.\<close>

function retry_loop ::
  "(nat \<Rightarrow> track_cache_error + 'a) \<Rightarrow> retry_policy \<Rightarrow> nat \<Rightarrow> nat \<Rightarrow> duration list \<Rightarrow>
   (track_cache_error + 'a) \<times> duration list" where
  "retry_loop call p attempts attempt slept =
     (case call attempt of
        Inr v \<Rightarrow> (Inr v, slept)
      | Inl e \<Rightarrow>
          if is_unavailable e \<and> attempt + 1 < attempts
          then retry_loop call p attempts (attempt + 1) (slept @ [delay_before_retry p (of_nat attempt)])
          else (Inl e, slept))"
  by pat_completeness auto
termination by (relation "measure (\<lambda>(_, _, attempts, attempt, _). attempts - attempt)") auto

declare retry_loop.simps [simp del]

definition find_cached_tracks_with_retry ::
  "(nat \<Rightarrow> track_cache_error + 'a) \<Rightarrow> retry_policy \<Rightarrow> (track_cache_error + 'a) \<times> duration list" where
  "find_cached_tracks_with_retry find_cached_tracks p =
     retry_loop find_cached_tracks p (max (unat (rp_total_attempts p)) 1) 0 []"

definition save_track_with_retry ::
  "(nat \<Rightarrow> track_cache_error + unit) \<Rightarrow> retry_policy \<Rightarrow> (track_cache_error + unit) \<times> duration list" where
  "save_track_with_retry save_track p =
     retry_loop save_track p (max (unat (rp_total_attempts p)) 1) 0 []"

section \<open>The archive workspace\<close>

definition set_primary_zip_error :: "'e option \<Rightarrow> 'e \<Rightarrow> 'e option" where
  "set_primary_zip_error primary_zip_error e =
     (case primary_zip_error of None \<Rightarrow> Some e | Some first \<Rightarrow> Some first)"

definition remember_zip_dump_message :: "'m list \<Rightarrow> 'm \<Rightarrow> 'm list" where
  "remember_zip_dump_message pending message_id = pending @ [message_id]"

fun transfer_zip_dump_messages :: "'m list \<Rightarrow> 'm list \<Rightarrow> 'm list" where
  "transfer_zip_dump_messages pending [] = pending"
| "transfer_zip_dump_messages pending (message_id # committed) =
     transfer_zip_dump_messages (remove1 message_id pending) committed"

definition take_uncommitted_zip_dump_messages :: "'m list \<Rightarrow> 'm list \<times> 'm list" where
  "take_uncommitted_zip_dump_messages pending = (pending, [])"

definition archive_codec_replaced :: "codec \<Rightarrow> codec \<Rightarrow> bool" where
  "archive_codec_replaced replacement existing =
     (case replacement of
        Alac \<Rightarrow> existing \<in> {Alac, Aac}
      | Aac \<Rightarrow> existing \<in> {Alac, Aac}
      | other \<Rightarrow> existing = other)"

fun codec_rank :: "codec \<Rightarrow> nat" where
  "codec_rank Alac = 3"
| "codec_rank Ec3 = 2"
| "codec_rank Aac = 1"

definition parsed_codec :: "string option \<Rightarrow> codec option" where
  "parsed_codec current =
     Option.bind current (\<lambda>v. case Codec_from_str v of Inr c \<Rightarrow> Some c | Inl _ \<Rightarrow> None)"

definition seed_zip_codec :: "string option \<Rightarrow> codec \<Rightarrow> string option" where
  "seed_zip_codec current c =
     (if (case parsed_codec current of None \<Rightarrow> True | Some existing \<Rightarrow> codec_rank c > codec_rank existing)
      then Some (codec_as_str c) else current)"

definition codec_allowed_for_rendition :: "rendition \<Rightarrow> codec \<Rightarrow> bool" where
  "codec_allowed_for_rendition r c =
     (case r of Primary \<Rightarrow> c \<in> {Alac, Aac} | Atmos \<Rightarrow> c = Ec3)"

section \<open>Caption text fits and is inert\<close>

definition plain_html :: "uchar \<Rightarrow> bool" where
  "plain_html c \<longleftrightarrow> c \<notin> {uchr CHR ''<'', uchr CHR ''>'', uchr CHR 0x22, uchr CHR 0x27}"

lemma escape_char_plain: "list_all plain_html (escape_char c)"
  by (simp add: escape_char_def plain_html_def)

lemma html_escape_plain: "c \<in> set (html_escape s) \<Longrightarrow> plain_html c"
  using escape_char_plain by (fastforce simp: html_escape_def list_all_iff)

lemma escape_char_prefix_free:
  assumes "escape_char a @ s = escape_char b @ t"
  shows "a = b \<and> s = t"
  using assms by (auto simp: escape_char_def split: if_splits)

lemma html_escape_inj: "html_escape s = html_escape t \<longleftrightarrow> s = t"
proof
  assume "html_escape s = html_escape t"
  then show "s = t"
  proof (induction s arbitrary: t)
    case Nil
    then show ?case by (cases t) (auto simp: html_escape_def escape_char_def split: if_splits)
  next
    case (Cons a s)
    show ?case
    proof (cases t)
      case Nil
      with Cons.prems show ?thesis by (auto simp: html_escape_def escape_char_def split: if_splits)
    next
      case (Cons b u)
      with Cons.prems have "escape_char a @ html_escape s = escape_char b @ html_escape u"
        by (simp add: html_escape_def)
      with escape_char_prefix_free Cons.IH Cons show ?thesis by blast
    qed
  qed
qed simp

lemma clamp_limit_take:
  "\<exists>k \<le> length s. clamp_limit bound idx used s = idx + str_len (take k s) \<and>
     used + utf16_len (take k s) \<le> max used bound \<and>
     (k < length s \<longrightarrow> bound < used + utf16_len (take (Suc k) s))"
proof (induction s arbitrary: idx used)
  case (Cons c s)
  show ?case
  proof (cases "used + char_len_utf16 c > bound")
    case True
    then show ?thesis by (intro exI [of _ 0]) auto
  next
    case False
    with Cons.IH [of "idx + char_len c" "used + char_len_utf16 c"] obtain k where
      "k \<le> length s" "clamp_limit bound (idx + char_len c) (used + char_len_utf16 c) s = idx + char_len c + str_len (take k s)"
      "used + char_len_utf16 c + utf16_len (take k s) \<le> max (used + char_len_utf16 c) bound"
      "k < length s \<longrightarrow> bound < used + char_len_utf16 c + utf16_len (take (Suc k) s)"
      by blast
    with False show ?thesis by (intro exI [of _ "Suc k"]) auto
  qed
qed simp

lemma clamp_str_utf16_cases:
  "clamp_str_utf16 s m = s \<and> utf16_len s \<le> m \<or>
   (\<exists>k. m < utf16_len s \<and> clamp_str_utf16 s m = take k s @ [ellipsis] \<and> utf16_len (take k s) \<le> m - 1 \<and>
      m - 1 < utf16_len (take (Suc k) s))"
proof (cases "utf16_len s \<le> m")
  case False
  from clamp_limit_take [of s "m - 1" 0 0] obtain k where k: "k \<le> length s"
      "clamp_limit (m - 1) 0 0 s = str_len (take k s)" "utf16_len (take k s) \<le> m - 1"
      "k < length s \<longrightarrow> m - 1 < utf16_len (take (Suc k) s)" by auto
  have "k \<noteq> length s" using k(3) False by auto
  with k False show ?thesis by (auto simp: clamp_str_utf16_def slice_to_take)
qed (simp add: clamp_str_utf16_def)

lemma ellipsis_len [simp]: "char_len_utf16 ellipsis = 1"
  by (simp add: ellipsis_def char_len_utf16_def)

text \<open>
  Caption text is inert and fits: escaped text has no character that Telegram's HTML reads as markup and
  determines the original; clamped text is the text itself when it fits, and otherwise its longest
  prefix that leaves room for the ellipsis, followed by it, so it never exceeds a positive bound.
\<close>

theorem caption_text_safe:
  "list_all plain_html (html_escape s) \<and> (html_escape s = html_escape t \<longleftrightarrow> s = t) \<and>
   utf16_len (clamp_str_utf16 s m) \<le> max 1 m \<and>
   (clamp_str_utf16 s m = s \<or>
    (\<exists>k. clamp_str_utf16 s m = take k s @ [ellipsis] \<and> m - 1 < utf16_len (take (Suc k) s)))"
  using clamp_str_utf16_cases [of s m] by (auto simp: list_all_iff html_escape_plain html_escape_inj)

section \<open>Retries are bounded\<close>

lemma retry_loop_spec:
  assumes "attempt < attempts"
  shows "\<exists>n < attempts. attempt \<le> n \<and>
    retry_loop call p attempts attempt slept =
      (call n, slept @ map (\<lambda>i. delay_before_retry p (of_nat i)) [attempt..<n]) \<and>
    (\<forall>i. attempt \<le> i \<and> i < n \<longrightarrow> (\<exists>e. call i = Inl e \<and> is_unavailable e)) \<and>
    (n + 1 = attempts \<or> (\<forall>e. call n = Inl e \<longrightarrow> \<not> is_unavailable e))"
  using assms
proof (induction call p attempts attempt slept rule: retry_loop.induct)
  case (1 call p attempts attempt slept)
  show ?case
  proof (cases "\<exists>e. call attempt = Inl e \<and> is_unavailable e \<and> attempt + 1 < attempts")
    case False
    then show ?thesis
      using 1(2) by (intro exI [of _ attempt])
        (auto simp: retry_loop.simps [of call p attempts attempt] split: sum.splits)
  next
    case True
    then obtain e where e: "call attempt = Inl e" "is_unavailable e" "attempt + 1 < attempts" by blast
    from "1.IH" [OF e(1)] e obtain n where n: "n < attempts" "attempt + 1 \<le> n"
      "retry_loop call p attempts (attempt + 1) (slept @ [delay_before_retry p (of_nat attempt)]) =
        (call n, slept @ [delay_before_retry p (of_nat attempt)] @
           map (\<lambda>i. delay_before_retry p (of_nat i)) [attempt + 1..<n])"
      "\<forall>i. attempt + 1 \<le> i \<and> i < n \<longrightarrow> (\<exists>e. call i = Inl e \<and> is_unavailable e)"
      "n + 1 = attempts \<or> (\<forall>e. call n = Inl e \<longrightarrow> \<not> is_unavailable e)"
      by auto
    have "[attempt..<n] = attempt # [attempt + 1..<n]" using n(2) by (simp add: upt_conv_Cons)
    moreover have "\<exists>e. call i = Inl e \<and> is_unavailable e" if "attempt \<le> i" "i < n" for i
      using n(4) e that by (cases "i = attempt") auto
    ultimately show ?thesis
      using n e by (intro exI [of _ n]) (auto simp: retry_loop.simps [of call p attempts attempt])
  qed
qed

text \<open>
  A storage call is retried only while the storage is unavailable, at most as often as the policy
  allows and at least once, with exactly the policy's delays between the calls; the answer of the
  last call is returned, whether it is a value, a permanent error or the last outage.
\<close>

theorem storage_retry_exact:
  "\<exists>n < max (unat (rp_total_attempts p)) 1.
     find_cached_tracks_with_retry call p = (call n, map (\<lambda>i. delay_before_retry p (of_nat i)) [0..<n]) \<and>
     (\<forall>i < n. \<exists>e. call i = Inl e \<and> is_unavailable e) \<and>
     (n + 1 = max (unat (rp_total_attempts p)) 1 \<or> (\<forall>e. call n = Inl e \<longrightarrow> \<not> is_unavailable e))"
  using retry_loop_spec [of 0 "max (unat (rp_total_attempts p)) 1" call p "[]"]
  by (auto simp: find_cached_tracks_with_retry_def)

lemma storage_retry_exact_witness:
  "\<exists>n < 3. find_cached_tracks_with_retry (\<lambda>_. Inl (CacheUnavailable CacheFind (lit ''down''))) RetryPolicy_default =
     (Inl (CacheUnavailable CacheFind (lit ''down'')) :: track_cache_error + nat,
      map (\<lambda>i. delay_before_retry RetryPolicy_default (of_nat i)) [0..<n])"
  using storage_retry_exact [of RetryPolicy_default "\<lambda>_. Inl (CacheUnavailable CacheFind (lit ''down'')) :: track_cache_error + nat"]
  by (auto simp: RetryPolicy_default_def RetryPolicy_new_def)

section \<open>The archive workspace\<close>

lemma transfer_mset: "mset (transfer_zip_dump_messages pending committed) = mset pending - mset committed"
  by (induction pending committed rule: transfer_zip_dump_messages.induct) simp_all

lemma parsed_codec_as_str [simp]: "parsed_codec (Some (codec_as_str c)) = Some c"
  using codec_name_roundtrip [of c] by (simp add: parsed_codec_def)

lemma seed_zip_codec_max:
  "\<exists>c. parsed_codec (fold (\<lambda>c cur. seed_zip_codec cur c) (d # ds) None) = Some c \<and> c \<in> set (d # ds) \<and>
     (\<forall>x \<in> set (d # ds). codec_rank x \<le> codec_rank c)"
proof -
  have "\<exists>c. parsed_codec (fold (\<lambda>c cur. seed_zip_codec cur c) ds (Some (codec_as_str b))) = Some c \<and>
      c \<in> set (b # ds) \<and> (\<forall>x \<in> set (b # ds). codec_rank x \<le> codec_rank c)" for b
  proof (induction ds arbitrary: b)
    case (Cons a ds)
    let ?b = "if codec_rank a > codec_rank b then a else b"
    have "seed_zip_codec (Some (codec_as_str b)) a = Some (codec_as_str ?b)" by (simp add: seed_zip_codec_def)
    with Cons.IH [of ?b] show ?case by (auto split: if_splits)
  qed simp
  from this [of d] show ?thesis by (simp add: seed_zip_codec_def parsed_codec_def)
qed

end
