(* ===== verification/Box_Bytes.thy ===== *)
theory Box_Bytes
  imports Prelude
begin

text \<open>
  Bytes of ISO base media files: big-endian numbers, writing in place, and the encoding of a box with a
  32-bit size. Shared by the duration reader of the media crate and the fragment code of the Apple crate.
\<close>

section \<open>Big-endian numbers\<close>

definition ascii :: "string \<Rightarrow> bytes" where
  "ascii s = map of_char s"

lemma length_ascii [simp]: "length (ascii s) = length s"
  by (simp add: ascii_def)

definition be_nat :: "bytes \<Rightarrow> nat" where
  "be_nat bs = foldl (\<lambda>acc b. acc * 256 + unat b) 0 bs"

fun to_be :: "nat \<Rightarrow> nat \<Rightarrow> bytes" where
  "to_be 0 n = []"
| "to_be (Suc w) n = to_be w (n div 256) @ [of_nat n]"

lemma be_nat_snoc [simp]: "be_nat (bs @ [b]) = be_nat bs * 256 + unat b"
  by (simp add: be_nat_def)

lemma be_nat_Nil [simp]: "be_nat [] = 0"
  by (simp add: be_nat_def)

lemma length_to_be [simp]: "length (to_be w n) = w"
  by (induction w n rule: to_be.induct) simp_all

lemma be_nat_to_be: "be_nat (to_be w n) = n mod 256 ^ w"
proof (induction w n rule: to_be.induct)
  case (2 w n)
  have "n mod 256 ^ Suc w = 256 * (n div 256 mod 256 ^ w) + n mod 256"
    using mod_mult2_eq [of n 256 "256 ^ w"] by simp
  with 2 show ?case by (simp add: unat_of_nat)
qed simp

lemma to_be_4: "to_be 4 n = [of_nat (n div 256 div 256 div 256), of_nat (n div 256 div 256), of_nat (n div 256), of_nat n]"
proof -
  have "(4 :: nat) = Suc (Suc (Suc (Suc 0)))" by simp
  then show ?thesis by (simp only:) simp
qed

lemma be_nat_less: "be_nat bs < 256 ^ length bs"
proof (induction bs rule: rev_induct)
  case (snoc b bs)
  have "unat b < 256" using unsigned_less [of b, where ?'a = nat] by simp
  with snoc show ?case by simp
qed simp

lemma drop_to_be: "drop m (to_be (m + w) n) = to_be w n"
proof (induction w arbitrary: n)
  case (Suc w)
  then show ?case by simp
qed simp

definition flag_set :: "nat \<Rightarrow> nat \<Rightarrow> bool" where
  "flag_set flags k \<longleftrightarrow> odd (flags div 2 ^ k)"

section \<open>Reading and writing in place\<close>

definition read_exact :: "bytes \<Rightarrow> nat \<Rightarrow> nat \<Rightarrow> bytes option" where
  "read_exact file_bytes offset n =
     (if offset + n \<le> length file_bytes then Some (take n (drop offset file_bytes)) else None)"

definition overwrite :: "bytes \<Rightarrow> nat \<Rightarrow> bytes \<Rightarrow> bytes" where
  "overwrite b at new = take at b @ new @ drop (at + length new) b"

lemma length_overwrite [simp]: "at + length new \<le> length b \<Longrightarrow> length (overwrite b at new) = length b"
  by (simp add: overwrite_def)

lemma nth_overwrite:
  "at + length new \<le> length b \<Longrightarrow> i < at \<or> at + length new \<le> i \<Longrightarrow> overwrite b at new ! i = b ! i"
  by (auto simp: overwrite_def nth_append min_def) (metis add_leD1 antisym add_diff_cancel_left')

lemma take_drop_overwrite: "at + length new \<le> length b \<Longrightarrow> take (length new) (drop at (overwrite b at new)) = new"
  by (simp add: overwrite_def)

section \<open>Boxes\<close>

text \<open>A box is its kind and its body.\<close>

definition box_of :: "bytes \<times> bytes \<Rightarrow> bytes" where
  "box_of bx = to_be 4 (length (snd bx) + 8) @ fst bx @ snd bx"

definition box_ok :: "bytes \<times> bytes \<Rightarrow> bool" where
  "box_ok bx \<longleftrightarrow> length (fst bx) = 4 \<and> length (snd bx) + 8 < 2 ^ 32"

lemma length_box_of: "box_ok bx \<Longrightarrow> length (box_of bx) = length (snd bx) + 8"
  by (simp add: box_of_def box_ok_def)

end
