(* ===== verification/Mp4_Fragments.thy ===== *)
theory Mp4_Fragments
  imports Box_Bytes
begin

text \<open>
  \<open>crates/media/src/fragmented.rs\<close>: the duration of a fragmented MP4 file, read from its fragments and
  stamped into its headers. The reader is the byte list of the file; a seek and \<open>read_exact\<close> past its
  end fail. Offsets and sizes are 64-bit values kept as naturals, with the checked additions written
  out; the sums of an offset inside the file and a small constant cannot overflow. A duration is the
  pair of ticks and timescale whose quotient the code computes in floating point.
\<close>

record box_header =
  bh_start :: nat
  bh_size :: nat
  bh_kind :: bytes
  bh_header :: nat

definition bh_body :: "box_header \<Rightarrow> nat" where
  "bh_body h = bh_start h + bh_header h"

definition bh_end :: "box_header \<Rightarrow> nat" where
  "bh_end h = bh_start h + bh_size h"

definition bh_is :: "box_header \<Rightarrow> string \<Rightarrow> bool" where
  "bh_is h kind \<longleftrightarrow> bh_kind h = ascii kind"

record full_box_header =
  fb_version :: nat
  fb_payload :: nat

definition time_prefix :: "full_box_header \<Rightarrow> nat" where
  "time_prefix b = (if fb_version b = 1 then 16 else 8)"

record duration_field =
  df_offset :: nat
  df_wide :: bool

definition duration_offset :: "full_box_header \<Rightarrow> box_header \<Rightarrow> duration_field" where
  "duration_offset b h = \<lparr>df_offset = bh_body h + 4 + time_prefix b + 4, df_wide = (fb_version b = 1)\<rparr>"

definition df_width :: "duration_field \<Rightarrow> nat" where
  "df_width f = (if df_wide f then 8 else 4)"

section \<open>Duration fields\<close>

text \<open>\<open>DurationField::encode\<close> keeps the low bytes of the 64-bit number, right-aligned in eight bytes.\<close>

definition df_encode :: "duration_field \<Rightarrow> nat \<Rightarrow> bytes" where
  "df_encode f ticks =
     (let bs = to_be 8 ticks
      in replicate (8 - df_width f) 0 @ drop (8 - df_width f) bs)"

section \<open>Reading\<close>

definition u8_at :: "bytes \<Rightarrow> nat \<Rightarrow> nat option" where
  "u8_at b offset = map_option be_nat (read_exact b offset 1)"

definition u32_at :: "bytes \<Rightarrow> nat \<Rightarrow> nat option" where
  "u32_at b offset = map_option be_nat (read_exact b offset 4)"

definition u64_at :: "bytes \<Rightarrow> nat \<Rightarrow> nat option" where
  "u64_at b offset = map_option be_nat (read_exact b offset 8)"

definition read_header :: "bytes \<Rightarrow> nat \<Rightarrow> nat \<Rightarrow> box_header option" where
  "read_header b offset limit =
     (if offset + 8 \<ge> 2 ^ 64 \<or> offset + 8 > limit then None
      else case read_exact b offset 8 of
        None \<Rightarrow> None
      | Some head \<Rightarrow>
          let size32 = be_nat (take 4 head);
              resolved =
                (if size32 = 1 then map_option (\<lambda>wide. (be_nat wide, 16)) (read_exact b (offset + 8) 8)
                 else if size32 = 0 then Some (limit - offset, 8)
                 else Some (size32, 8))
          in case resolved of
               None \<Rightarrow> None
             | Some (sz, header) \<Rightarrow>
                 if sz < header \<or> offset + sz \<ge> 2 ^ 64 \<or> offset + sz > limit then None
                 else Some \<lparr>bh_start = offset, bh_size = sz, bh_kind = drop 4 head, bh_header = header\<rparr>)"

lemma read_header_bounds:
  assumes "read_header b offset limit = Some h"
  shows "bh_start h = offset \<and> offset + 8 \<le> bh_body h \<and> bh_body h \<le> bh_end h \<and> bh_end h \<le> limit"
  using assms
  by (auto simp: read_header_def bh_body_def bh_end_def Let_def split: if_splits option.splits)

function children :: "bytes \<Rightarrow> nat \<Rightarrow> nat \<Rightarrow> box_header list" where
  "children b offset limit =
     (case read_header b offset limit of
        None \<Rightarrow> []
      | Some h \<Rightarrow> h # children b (bh_end h) limit)"
  by pat_completeness auto
termination
  by (relation "measure (\<lambda>(_, offset, limit). limit - offset)") (auto dest!: read_header_bounds)

declare children.simps [simp del]

definition flags_at :: "bytes \<Rightarrow> nat \<Rightarrow> nat option" where
  "flags_at b body = map_option (\<lambda>v. (v div 2 ^ 8) mod 2 ^ 24) (u32_at b (body + 1))"

definition full_box :: "bytes \<Rightarrow> box_header \<Rightarrow> full_box_header option" where
  "full_box b h = map_option (\<lambda>v. \<lparr>fb_version = v, fb_payload = bh_body h + 4\<rparr>) (u8_at b (bh_body h))"

section \<open>Scanning\<close>

record fragment_scan =
  fs_fragments :: nat
  fs_timescale :: nat
  fs_end_ticks :: nat
  fs_sum_ticks :: nat
  fs_trex_default :: "nat option"
  fs_mvhd :: "duration_field option"
  fs_mdhd :: "duration_field option"

definition FragmentScan_default :: fragment_scan where
  "FragmentScan_default =
     \<lparr>fs_fragments = 0, fs_timescale = 0, fs_end_ticks = 0, fs_sum_ticks = 0, fs_trex_default = None,
      fs_mvhd = None, fs_mdhd = None\<rparr>"

definition scan_ticks :: "fragment_scan \<Rightarrow> nat" where
  "scan_ticks s = (if fs_end_ticks s > 0 then fs_end_ticks s else fs_sum_ticks s)"

definition duration_secs :: "fragment_scan \<Rightarrow> (nat \<times> nat) option" where
  "duration_secs s =
     (if fs_fragments s = 0 \<or> fs_timescale s = 0 then None
      else if scan_ticks s = 0 then None
      else Some (scan_ticks s, fs_timescale s))"

definition scan_full_header :: "bytes \<Rightarrow> box_header \<Rightarrow> bool \<Rightarrow> fragment_scan \<Rightarrow> fragment_scan" where
  "scan_full_header b h is_media s =
     (case full_box b h of
        None \<Rightarrow> s
      | Some full \<Rightarrow>
          (case u32_at b (fb_payload full + time_prefix full) of
             None \<Rightarrow> s
           | Some timescale \<Rightarrow>
               let s1 = (if is_media \<or> fs_timescale s = 0 then s\<lparr>fs_timescale := timescale\<rparr> else s);
                   field = Some (duration_offset full h)
               in if is_media then s1\<lparr>fs_mdhd := field\<rparr> else s1\<lparr>fs_mvhd := field\<rparr>))"

definition scan_mdia :: "bytes \<Rightarrow> box_header \<Rightarrow> fragment_scan \<Rightarrow> fragment_scan" where
  "scan_mdia b trak s =
     fold (\<lambda>child s.
       if \<not> bh_is child ''mdia'' then s
       else fold (\<lambda>grand s. if bh_is grand ''mdhd'' then scan_full_header b grand True s else s)
              (children b (bh_body child) (bh_end child)) s)
       (children b (bh_body trak) (bh_end trak)) s"

definition scan_moov :: "bytes \<Rightarrow> box_header \<Rightarrow> fragment_scan \<Rightarrow> fragment_scan" where
  "scan_moov b moov s =
     fold (\<lambda>child s.
       if bh_is child ''mvhd'' then scan_full_header b child False s
       else if bh_is child ''trak'' then scan_mdia b child s
       else if bh_is child ''mvex'' then
         fold (\<lambda>grand s. if bh_is grand ''trex'' then s\<lparr>fs_trex_default := u32_at b (bh_body grand + 12)\<rparr> else s)
           (children b (bh_body child) (bh_end child)) s
       else s)
       (children b (bh_body moov) (bh_end moov)) s"

definition tfhd_default_duration :: "bytes \<Rightarrow> box_header \<Rightarrow> nat option" where
  "tfhd_default_duration b h =
     (case flags_at b (bh_body h) of
        None \<Rightarrow> None
      | Some flags \<Rightarrow>
          let offset = bh_body h + 8 + (if flag_set flags 0 then 8 else 0) + (if flag_set flags 1 then 4 else 0)
          in if \<not> flag_set flags 3 then None else u32_at b offset)"

text \<open>The loop over the samples of a run, from \<open>index\<close> on.\<close>

fun sample_ticks :: "bytes \<Rightarrow> nat \<Rightarrow> nat \<Rightarrow> nat \<Rightarrow> nat \<Rightarrow> nat \<Rightarrow> nat option" where
  "sample_ticks b offset stride index 0 acc = Some acc"
| "sample_ticks b offset stride index (Suc remaining) acc =
     Option.bind (checked_mul64 index stride) (\<lambda>m.
     Option.bind (checked_add64 offset m) (\<lambda>at.
     Option.bind (u32_at b at) (\<lambda>v.
     Option.bind (checked_add64 acc v) (\<lambda>acc'.
     sample_ticks b offset stride (index + 1) remaining acc'))))"

definition run_stride :: "nat \<Rightarrow> nat \<Rightarrow> nat" where
  "run_stride flags version =
     4 * of_bool (flag_set flags 8) + 4 * of_bool (flag_set flags 9) + 4 * of_bool (flag_set flags 10) +
     (if flag_set flags 11 then (if version = 1 then 8 else 4) else 0)"

definition run_ticks :: "bytes \<Rightarrow> box_header \<Rightarrow> nat option \<Rightarrow> nat option" where
  "run_ticks b h default_duration =
     Option.bind (flags_at b (bh_body h)) (\<lambda>flags.
     Option.bind (u32_at b (bh_body h + 4)) (\<lambda>count.
     Option.bind (u8_at b (bh_body h)) (\<lambda>version.
       let offset = bh_body h + 8 + (if flag_set flags 0 then 4 else 0) + (if flag_set flags 2 then 4 else 0)
       in if \<not> flag_set flags 8 then Option.bind default_duration (\<lambda>d. checked_mul64 count d)
          else sample_ticks b offset (run_stride flags version) 0 count 0)))"

text \<open>\<open>fragment_ticks\<close>: the outer option is the early return of the question mark.\<close>

fun traf_runs :: "bytes \<Rightarrow> nat option \<Rightarrow> box_header list \<Rightarrow> nat \<times> bool \<Rightarrow> (nat \<times> bool) option" where
  "traf_runs b default_duration [] acc = Some acc"
| "traf_runs b default_duration (child # cs) (tot, resolved) =
     (if bh_is child ''trun'' then
        Option.bind (run_ticks b child default_duration) (\<lambda>t.
        Option.bind (checked_add64 tot t) (\<lambda>tot'. traf_runs b default_duration cs (tot', True)))
      else traf_runs b default_duration cs (tot, resolved))"

fun moof_trafs :: "bytes \<Rightarrow> nat option \<Rightarrow> box_header list \<Rightarrow> nat \<times> bool \<Rightarrow> (nat \<times> bool) option" where
  "moof_trafs b trex_default [] acc = Some acc"
| "moof_trafs b trex_default (traf # ts) acc =
     (if \<not> bh_is traf ''traf'' then moof_trafs b trex_default ts acc
      else
        let cs = children b (bh_body traf) (bh_end traf);
            declared = Option.bind (List.find (\<lambda>c. bh_is c ''tfhd'') cs) (tfhd_default_duration b);
            default_duration =
              (case declared of
                 Some d \<Rightarrow> Some d
               | None \<Rightarrow> (case trex_default of Some v \<Rightarrow> if v > 0 then Some v else None | None \<Rightarrow> None))
        in Option.bind (traf_runs b default_duration cs acc) (moof_trafs b trex_default ts))"

definition fragment_ticks :: "bytes \<Rightarrow> box_header \<Rightarrow> nat option \<Rightarrow> nat option" where
  "fragment_ticks b moof trex_default =
     Option.bind (moof_trafs b trex_default (children b (bh_body moof) (bh_end moof)) (0, False))
       (\<lambda>(tot, resolved). if resolved then Some tot else None)"

text \<open>\<open>base_decode_time\<close> returns at the first \<open>tfdt\<close> it meets.\<close>

definition base_decode_time :: "bytes \<Rightarrow> box_header \<Rightarrow> nat option" where
  "base_decode_time b moof =
     (let trafs = filter (\<lambda>c. bh_is c ''traf'') (children b (bh_body moof) (bh_end moof));
          tfdts = filter (\<lambda>c. bh_is c ''tfdt'') (concat (map (\<lambda>t. children b (bh_body t) (bh_end t)) trafs))
      in case tfdts of
           [] \<Rightarrow> None
         | c # _ \<Rightarrow>
             (case u8_at b (bh_body c) of
                None \<Rightarrow> None
              | Some v \<Rightarrow> if v = 1 then u64_at b (bh_body c + 4) else u32_at b (bh_body c + 4)))"

definition saturating_add64 :: "nat \<Rightarrow> nat \<Rightarrow> nat" where
  "saturating_add64 a c = min (a + c) (2 ^ 64 - 1)"

definition scan_box :: "bytes \<Rightarrow> box_header \<Rightarrow> fragment_scan \<Rightarrow> fragment_scan" where
  "scan_box b h s =
     (if bh_is h ''moov'' then scan_moov b h s
      else if bh_is h ''moof'' then
        let s1 = s\<lparr>fs_fragments := fs_fragments s + 1\<rparr>
        in case fragment_ticks b h (fs_trex_default s1) of
             None \<Rightarrow> s1
           | Some ticks \<Rightarrow>
               let s2 = s1\<lparr>fs_sum_ticks := saturating_add64 (fs_sum_ticks s1) ticks\<rparr>
               in (case base_decode_time b h of
                     None \<Rightarrow> s2
                   | Some base \<Rightarrow> s2\<lparr>fs_end_ticks := max (fs_end_ticks s2) (saturating_add64 base ticks)\<rparr>)
      else s)"

definition scan :: "bytes \<Rightarrow> nat \<Rightarrow> fragment_scan" where
  "scan b limit = fold (scan_box b) (children b 0 limit) FragmentScan_default"

definition fragmented_duration_secs :: "bytes option \<Rightarrow> (nat \<times> nat) option" where
  "fragmented_duration_secs source = Option.bind source (\<lambda>b. duration_secs (scan b (length b)))"

section \<open>Stamping\<close>

text \<open>The slice is mutated field by field: a field outside the file ends the loop with what was written.\<close>

fun stamp_fields :: "nat \<Rightarrow> duration_field list \<Rightarrow> bytes \<Rightarrow> bool \<times> bytes" where
  "stamp_fields ticks [] b = (True, b)"
| "stamp_fields ticks (f # fs) b =
     (let width = df_width f; at = df_offset f
      in if at + width > length b then (False, b)
         else stamp_fields ticks fs (overwrite b at (drop (8 - width) (df_encode f ticks))))"

definition option_list :: "'a option \<Rightarrow> 'a list" where
  "option_list v = (case v of Some a \<Rightarrow> [a] | None \<Rightarrow> [])"

definition stamp_fragmented_duration :: "bytes \<Rightarrow> (nat \<times> nat) option \<times> bytes" where
  "stamp_fragmented_duration fmp4 =
     (let s = scan fmp4 (length fmp4)
      in case duration_secs s of
           None \<Rightarrow> (None, fmp4)
         | Some duration \<Rightarrow>
             (case stamp_fields (scan_ticks s) (option_list (fs_mvhd s) @ option_list (fs_mdhd s)) fmp4 of
                (True, b) \<Rightarrow> (Some duration, b)
              | (False, b) \<Rightarrow> (None, b)))"

section \<open>Numbers\<close>

lemma df_width_le [simp]: "df_width f \<le> 8"
  by (simp add: df_width_def)

lemma stamped_bytes: "drop (8 - df_width f) (df_encode f ticks) = to_be (df_width f) ticks"
  using drop_to_be [of "8 - df_width f" "df_width f" ticks] by (simp add: df_encode_def)

section \<open>The boxes of a file\<close>

text \<open>Consecutive boxes: each begins where the one before ends, and all lie below the limit.\<close>

fun box_chain :: "nat \<Rightarrow> nat \<Rightarrow> box_header list \<Rightarrow> bool" where
  "box_chain offset limit [] \<longleftrightarrow> True"
| "box_chain offset limit (h # hs) \<longleftrightarrow>
     bh_start h = offset \<and> offset < bh_body h \<and> bh_body h \<le> bh_end h \<and> bh_end h \<le> limit \<and>
     box_chain (bh_end h) limit hs"

lemma children_chain: "box_chain offset limit (children b offset limit)"
proof (induction b offset limit rule: children.induct)
  case (1 b offset limit)
  show ?case
  proof (cases "read_header b offset limit")
    case (Some h)
    with 1 read_header_bounds [OF Some] show ?thesis by (simp add: children.simps [of b offset])
  qed (simp add: children.simps)
qed

text \<open>The encoding of a box with a 32-bit size, and the headers of a sequence of boxes.\<close>

fun box_headers :: "nat \<Rightarrow> (bytes \<times> bytes) list \<Rightarrow> box_header list" where
  "box_headers offset [] = []"
| "box_headers offset (bx # bs) =
     \<lparr>bh_start = offset, bh_size = length (snd bx) + 8, bh_kind = fst bx, bh_header = 8\<rparr> #
     box_headers (offset + length (snd bx) + 8) bs"

lemma read_header_box:
  assumes ok: "box_ok bx" and fits: "length pre + length (box_of bx) \<le> limit" "limit < 2 ^ 64"
  shows "read_header (pre @ box_of bx @ post) (length pre) limit =
    Some \<lparr>bh_start = length pre, bh_size = length (snd bx) + 8, bh_kind = fst bx, bh_header = 8\<rparr>"
proof -
  have head: "read_exact (pre @ box_of bx @ post) (length pre) 8 = Some (to_be 4 (length (snd bx) + 8) @ fst bx)"
    using ok by (simp add: read_exact_def box_of_def box_ok_def)
  have "be_nat (to_be 4 (length (snd bx) + 8)) = length (snd bx) + 8"
    using ok by (simp add: be_nat_to_be box_ok_def)
  with head fits ok length_box_of [OF ok] show ?thesis
    by (simp add: read_header_def box_ok_def Let_def)
qed

lemma children_boxes:
  assumes "list_all box_ok boxes" "limit = length pre + length (concat (map box_of boxes))" "limit < 2 ^ 64"
  shows "children (pre @ concat (map box_of boxes) @ post) (length pre) limit = box_headers (length pre) boxes"
  using assms
proof (induction boxes arbitrary: pre)
  case Nil
  then show ?case by (simp add: children.simps read_header_def)
next
  case (Cons bx boxes)
  have ok: "box_ok bx" using Cons.prems(1) by simp
  have "children ((pre @ box_of bx) @ concat (map box_of boxes) @ post) (length (pre @ box_of bx)) limit =
      box_headers (length (pre @ box_of bx)) boxes"
    using Cons.prems by (intro Cons.IH) simp_all
  with read_header_box [OF ok, of pre limit "concat (map box_of boxes) @ post"] Cons.prems length_box_of [OF ok]
  show ?case by (simp add: children.simps [of _ "length pre"] bh_end_def add.assoc)
qed

section \<open>What stamping changes\<close>

definition field_value :: "bytes \<Rightarrow> duration_field \<Rightarrow> nat" where
  "field_value b f = be_nat (take (df_width f) (drop (df_offset f) b))"

definition covers :: "duration_field \<Rightarrow> nat \<Rightarrow> bool" where
  "covers f i \<longleftrightarrow> df_offset f \<le> i \<and> i < df_offset f + df_width f"

definition overlap :: "duration_field \<Rightarrow> duration_field \<Rightarrow> bool" where
  "overlap f g \<longleftrightarrow> df_offset f < df_offset g + df_width g \<and> df_offset g < df_offset f + df_width f"

lemma stamp_fields_frame:
  assumes "stamp_fields ticks fs b = (done, b')"
  shows "length b' = length b \<and> (list_ex (\<lambda>f. covers f i) fs \<or> b' ! i = b ! i)"
  using assms
proof (induction ticks fs b rule: stamp_fields.induct)
  case (2 ticks f fs b)
  show ?case
  proof (cases "df_offset f + df_width f > length b")
    case True
    with "2.prems" show ?thesis by simp
  next
    case False
    let ?b = "overwrite b (df_offset f) (to_be (df_width f) ticks)"
    from False "2.prems" have "stamp_fields ticks fs ?b = (done, b')" by (simp add: stamped_bytes)
    with "2.IH" [OF refl refl False] False have "length b' = length b"
      "list_ex (\<lambda>f. covers f i) fs \<or> b' ! i = ?b ! i" by (simp_all add: stamped_bytes)
    moreover have "covers f i \<or> ?b ! i = b ! i"
      using False by (auto simp: covers_def intro!: nth_overwrite)
    ultimately show ?thesis by auto
  qed
qed simp

lemma stamped_value: "df_offset f + df_width f \<le> length b \<Longrightarrow>
    field_value (overwrite b (df_offset f) (to_be (df_width f) ticks)) f = ticks mod 256 ^ df_width f"
  using take_drop_overwrite [of "df_offset f" "to_be (df_width f) ticks" b]
  by (simp add: field_value_def be_nat_to_be)

lemma field_value_cong:
  assumes "length b' = length b" "\<And>i. covers f i \<Longrightarrow> b' ! i = b ! i"
  shows "field_value b' f = field_value b f"
proof -
  have "take (df_width f) (drop (df_offset f) b') = take (df_width f) (drop (df_offset f) b)"
    using assms by (intro nth_equalityI) (auto simp: covers_def)
  then show ?thesis by (simp add: field_value_def)
qed

lemma stamp_fields_values:
  assumes "stamp_fields ticks fs b = (True, b')"
  shows "\<forall>pre f post. fs = pre @ f # post \<longrightarrow> list_ex (overlap f) post \<or> field_value b' f = ticks mod 256 ^ df_width f"
  using assms
proof (induction ticks fs b rule: stamp_fields.induct)
  case (2 ticks f fs b)
  let ?b = "overwrite b (df_offset f) (to_be (df_width f) ticks)"
  from "2.prems" have fit: "\<not> df_offset f + df_width f > length b" and rest: "stamp_fields ticks fs ?b = (True, b')"
    by (auto simp: stamped_bytes Let_def split: if_splits)
  have first: "list_ex (overlap f) fs \<or> field_value b' f = ticks mod 256 ^ df_width f"
  proof (cases "list_ex (overlap f) fs")
    case False
    have "field_value b' f = field_value ?b f"
    proof (rule field_value_cong)
      show "length b' = length ?b" using stamp_fields_frame [OF rest] by blast
      fix i assume "covers f i"
      with False have "\<not> list_ex (\<lambda>g. covers g i) fs" by (force simp: list_ex_iff covers_def overlap_def)
      with stamp_fields_frame [OF rest, of i] show "b' ! i = ?b ! i" by blast
    qed
    with fit stamped_value [of f b ticks] show ?thesis by simp
  qed simp
  from "2.IH" [OF refl refl fit] rest have
    "\<forall>pre f post. fs = pre @ f # post \<longrightarrow> list_ex (overlap f) post \<or> field_value b' f = ticks mod 256 ^ df_width f"
    by (simp add: stamped_bytes)
  with first show ?case by (auto simp: Cons_eq_append_conv)
qed simp

definition stamp_targets :: "bytes \<Rightarrow> duration_field list" where
  "stamp_targets b = option_list (fs_mvhd (scan b (length b))) @ option_list (fs_mdhd (scan b (length b)))"

text \<open>
  C33: Stamping a duration changes nothing but the duration fields: the file keeps its length and every
  byte outside the two fields. When it succeeds, it returns the duration of the scan, and the media
  field reads back as its ticks modulo the width of the field; so does the movie field, unless a malformed
  file makes the two overlap.
\<close>

theorem stamp_exact:
  "case stamp_fragmented_duration b of (r, b') \<Rightarrow>
     length b' = length b \<and>
     (\<forall>i. list_ex (\<lambda>f. covers f i) (stamp_targets b) \<or> b' ! i = b ! i) \<and>
     (case r of
        None \<Rightarrow> True
      | Some (ticks, timescale) \<Rightarrow>
          duration_secs (scan b (length b)) = Some (ticks, timescale) \<and>
          pred_option (\<lambda>f. field_value b' f = ticks mod 256 ^ df_width f) (fs_mdhd (scan b (length b))) \<and>
          pred_option (\<lambda>f. (\<exists>g. fs_mdhd (scan b (length b)) = Some g \<and> overlap f g) \<or>
             field_value b' f = ticks mod 256 ^ df_width f) (fs_mvhd (scan b (length b))))"
proof (cases "duration_secs (scan b (length b))")
  case None
  then show ?thesis by (simp add: stamp_fragmented_duration_def)
next
  case (Some d)
  let ?s = "scan b (length b)"
  from Some have d: "d = (scan_ticks ?s, fs_timescale ?s)" by (simp add: duration_secs_def split: if_splits)
  obtain ok b' where w: "stamp_fields (scan_ticks ?s) (stamp_targets b) b = (ok, b')" by force
  have result: "stamp_fragmented_duration b = (if ok then Some d else None, b')"
    using w Some by (simp add: stamp_fragmented_duration_def stamp_targets_def split: bool.split)
  have vals: "list_ex (overlap f) post \<or> field_value b' f = scan_ticks ?s mod 256 ^ df_width f"
    if ok "stamp_targets b = pre @ f # post" for pre f post
    using stamp_fields_values [of "scan_ticks ?s" "stamp_targets b" b b'] w that by simp
  have "pred_option (\<lambda>f. field_value b' f = scan_ticks ?s mod 256 ^ df_width f) (fs_mdhd ?s)" if ok
    using vals [OF that, of "option_list (fs_mvhd ?s)" _ "[]"]
    by (cases "fs_mdhd ?s") (simp_all add: stamp_targets_def option_list_def)
  moreover have "pred_option (\<lambda>f. (\<exists>g. fs_mdhd ?s = Some g \<and> overlap f g) \<or>
      field_value b' f = scan_ticks ?s mod 256 ^ df_width f) (fs_mvhd ?s)" if ok
    using vals [OF that, of "[]" _ "option_list (fs_mdhd ?s)"]
    by (cases "fs_mvhd ?s"; cases "fs_mdhd ?s") (simp_all add: stamp_targets_def option_list_def)
  ultimately show ?thesis using result d Some stamp_fields_frame [OF w] by auto
qed

text \<open>
  C34: The box scanner inverts the box encoding: a file made of well-formed boxes is split into exactly
  those boxes, with their kinds, offsets and sizes; and on any input it terminates with consecutive boxes
  below its limit.
\<close>

theorem boxes_roundtrip:
  assumes "list_all box_ok boxes" "length (concat (map box_of boxes)) < 2 ^ 64"
  shows "children (concat (map box_of boxes)) 0 (length (concat (map box_of boxes))) = box_headers 0 boxes \<and>
    box_chain offset limit (children b offset limit)"
  using children_boxes [of boxes "length (concat (map box_of boxes))" "[]" "[]"] assms children_chain by simp

lemma boxes_roundtrip_witness:
  "children (box_of (ascii ''free'', [1, 2]) @ box_of (ascii ''mdat'', [])) 0 18 =
     [\<lparr>bh_start = 0, bh_size = 10, bh_kind = ascii ''free'', bh_header = 8\<rparr>,
      \<lparr>bh_start = 10, bh_size = 8, bh_kind = ascii ''mdat'', bh_header = 8\<rparr>]"
  using boxes_roundtrip [of "[(ascii ''free'', [1, 2]), (ascii ''mdat'', [])]"]
  by (simp add: box_ok_def ascii_def box_of_def)

section \<open>A small file\<close>

text \<open>
  A movie header with 1000 ticks per second, a media header with 44100, and one fragment with one
  sample of 44100 ticks.
\<close>

definition sample_file :: bytes where
  "sample_file =
     [0, 0, 0, 80, 109, 111, 111, 118, 0, 0, 0, 28, 109, 118, 104, 100, 0, 0, 0, 0,
      0, 0, 0, 0, 0, 0, 0, 0, 0, 0, 3, 232, 0, 0, 0, 0, 0, 0, 0, 44,
      116, 114, 97, 107, 0, 0, 0, 36, 109, 100, 105, 97, 0, 0, 0, 28, 109, 100, 104, 100,
      0, 0, 0, 0, 0, 0, 0, 0, 0, 0, 0, 0, 0, 0, 172, 68, 0, 0, 0, 0,
      0, 0, 0, 36, 109, 111, 111, 102, 0, 0, 0, 28, 116, 114, 97, 102, 0, 0, 0, 20,
      116, 114, 117, 110, 0, 0, 1, 0, 0, 0, 0, 1, 0, 0, 172, 68]"

lemma length_sample [simp]: "length sample_file = 116"
  by (simp add: sample_file_def)

lemma sample_headers:
  "read_header sample_file 0 116 = Some \<lparr>bh_start = 0, bh_size = 80, bh_kind = ascii ''moov'', bh_header = 8\<rparr>"
  "read_header sample_file 80 116 = Some \<lparr>bh_start = 80, bh_size = 36, bh_kind = ascii ''moof'', bh_header = 8\<rparr>"
  "read_header sample_file 116 116 = None"
  "read_header sample_file 8 80 = Some \<lparr>bh_start = 8, bh_size = 28, bh_kind = ascii ''mvhd'', bh_header = 8\<rparr>"
  "read_header sample_file 36 80 = Some \<lparr>bh_start = 36, bh_size = 44, bh_kind = ascii ''trak'', bh_header = 8\<rparr>"
  "read_header sample_file 80 80 = None"
  "read_header sample_file 44 80 = Some \<lparr>bh_start = 44, bh_size = 36, bh_kind = ascii ''mdia'', bh_header = 8\<rparr>"
  "read_header sample_file 52 80 = Some \<lparr>bh_start = 52, bh_size = 28, bh_kind = ascii ''mdhd'', bh_header = 8\<rparr>"
  "read_header sample_file 88 116 = Some \<lparr>bh_start = 88, bh_size = 28, bh_kind = ascii ''traf'', bh_header = 8\<rparr>"
  "read_header sample_file 96 116 = Some \<lparr>bh_start = 96, bh_size = 20, bh_kind = ascii ''trun'', bh_header = 8\<rparr>"
  by (simp_all add: read_header_def read_exact_def be_nat_def ascii_def sample_file_def)

lemma sample_children:
  "children sample_file 0 116 = [\<lparr>bh_start = 0, bh_size = 80, bh_kind = ascii ''moov'', bh_header = 8\<rparr>, \<lparr>bh_start = 80, bh_size = 36, bh_kind = ascii ''moof'', bh_header = 8\<rparr>]"
  "children sample_file 8 80 = [\<lparr>bh_start = 8, bh_size = 28, bh_kind = ascii ''mvhd'', bh_header = 8\<rparr>, \<lparr>bh_start = 36, bh_size = 44, bh_kind = ascii ''trak'', bh_header = 8\<rparr>]"
  "children sample_file 44 80 = [\<lparr>bh_start = 44, bh_size = 36, bh_kind = ascii ''mdia'', bh_header = 8\<rparr>]"
  "children sample_file 52 80 = [\<lparr>bh_start = 52, bh_size = 28, bh_kind = ascii ''mdhd'', bh_header = 8\<rparr>]"
  "children sample_file 88 116 = [\<lparr>bh_start = 88, bh_size = 28, bh_kind = ascii ''traf'', bh_header = 8\<rparr>]"
  "children sample_file 96 116 = [\<lparr>bh_start = 96, bh_size = 20, bh_kind = ascii ''trun'', bh_header = 8\<rparr>]"
  by (simp_all add: children.simps [of sample_file] sample_headers bh_end_def)

lemma sample_reads:
  "u8_at sample_file 16 = Some 0" "u8_at sample_file 60 = Some 0" "u8_at sample_file 104 = Some 0"
  "u32_at sample_file 28 = Some 1000" "u32_at sample_file 72 = Some 44100"
  "u32_at sample_file 105 = Some 65536" "u32_at sample_file 108 = Some 1" "u32_at sample_file 112 = Some 44100"
  by (simp_all add: u8_at_def u32_at_def read_exact_def be_nat_def sample_file_def)

lemma sample_scan:
  "scan sample_file 116 =
     \<lparr>fs_fragments = 1, fs_timescale = 44100, fs_end_ticks = 0, fs_sum_ticks = 44100, fs_trex_default = None,
      fs_mvhd = Some \<lparr>df_offset = 32, df_wide = False\<rparr>, fs_mdhd = Some \<lparr>df_offset = 76, df_wide = False\<rparr>\<rparr>"
  by (simp add: scan_def scan_box_def sample_children FragmentScan_default_def bh_is_def scan_moov_def bh_body_def
      bh_end_def scan_full_header_def full_box_def sample_reads scan_mdia_def time_prefix_def duration_offset_def
      fragment_ticks_def run_ticks_def flags_at_def flag_set_def checked_mul64_def checked_add64_def run_stride_def
      base_decode_time_def saturating_add64_def Let_def ascii_def)

text \<open>
  The ISO base media format gives a composition offset four bytes in both versions of a run; the
  stride of version 1 is four bytes too long.
\<close>

lemma version1_stride: "run_stride 0x900 0 = 8 \<and> run_stride 0x900 1 = 12"
  by (simp add: run_stride_def flag_set_def)

text \<open>
  The ticks are counted in the timescale of the media header and written unconverted into the movie
  header, whose own timescale may differ: the sample is one second long, and its stamped movie header
  says 44100 ticks of a millisecond.
\<close>

theorem movie_duration_in_media_ticks:
  "u32_at sample_file 28 = Some 1000 \<and> fst (stamp_fragmented_duration sample_file) = Some (44100, 44100) \<and>
   field_value (snd (stamp_fragmented_duration sample_file)) \<lparr>df_offset = 32, df_wide = False\<rparr> = 44100"
proof -
  have fits: "stamp_fields 44100 [\<lparr>df_offset = 32, df_wide = False\<rparr>, \<lparr>df_offset = 76, df_wide = False\<rparr>] sample_file =
      (True, snd (stamp_fragmented_duration sample_file))" and "fst (stamp_fragmented_duration sample_file) = Some (44100, 44100)"
    by (simp_all add: stamp_fragmented_duration_def sample_scan duration_secs_def scan_ticks_def option_list_def
        df_width_def overwrite_def df_encode_def Let_def)
  moreover have "field_value (snd (stamp_fragmented_duration sample_file)) \<lparr>df_offset = 32, df_wide = False\<rparr> = 44100"
    using stamp_fields_values [OF fits, rule_format, of "[]"] by (simp add: overlap_def df_width_def)
  ultimately show ?thesis by (simp add: sample_reads)
qed

end
