(* ===== verification/Mp4_Boxes.thy ===== *)
theory Mp4_Boxes
  imports Box_Bytes Result_State
begin

text \<open>
  The box scanner of \<open>crates/apple/src/wrapper/decryptor.rs\<close>, the sample rate it reads from an init segment and
  the normalisation of the decode times of a fragmented file. Offsets are 64-bit; the only sum of offsets
  that can leave 64 bits is the end of a box whose header carries a 64-bit size. The model is the release build, which has no
  overflow checks: arithmetic on 32-bit values wraps. Only a run in which the end of a box passes \<open>2 ^ 64\<close> is not followed further:
  there the release build wraps around and walks backwards, which \<open>wrapping_next\<close> below gives step by step, a build with
  overflow checks panics, and the definitions end with \<open>Overflows\<close>. \<open>Panics\<close> is a slice or a
  drain out of range, \<open>Fails\<close> a \<open>WrapperError::Message\<close>.
\<close>

datatype stop = Fails string | Overflows | Panics

definition bytes_at :: "bytes \<Rightarrow> nat \<Rightarrow> nat \<Rightarrow> bytes" where
  "bytes_at b i n = take n (drop i b)"

definition read_u16_be :: "bytes \<Rightarrow> nat \<Rightarrow> nat" where
  "read_u16_be b i = be_nat (bytes_at b i 2)"

definition read_u24_be :: "bytes \<Rightarrow> nat \<Rightarrow> nat" where
  "read_u24_be b i = be_nat (bytes_at b i 3)"

definition read_u32_be :: "bytes \<Rightarrow> nat \<Rightarrow> nat" where
  "read_u32_be b i = be_nat (bytes_at b i 4)"

definition read_u64_be :: "bytes \<Rightarrow> nat \<Rightarrow> nat" where
  "read_u64_be b i = be_nat (bytes_at b i 8)"

definition write_u32_be :: "bytes \<Rightarrow> nat \<Rightarrow> nat \<Rightarrow> bytes" where
  "write_u32_be b i v = overwrite b i (to_be 4 v)"

definition write_u64_be :: "bytes \<Rightarrow> nat \<Rightarrow> nat \<Rightarrow> bytes" where
  "write_u64_be b i v = overwrite b i (to_be 8 v)"

section \<open>Boxes\<close>

definition read_box_header :: "bytes \<Rightarrow> nat \<Rightarrow> (nat \<times> bytes \<times> nat) option" where
  "read_box_header b offset =
     (if offset + 8 > length b then None
      else
        let size32 = read_u32_be b offset; box_type = bytes_at b (offset + 4) 4
        in if size32 = 1 then
             (if offset + 16 > length b then None else Some (read_u64_be b (offset + 8), box_type, 16))
           else if size32 = 0 then Some (length b - offset, box_type, 8)
           else Some (size32, box_type, 8))"

text \<open>
  The loop over consecutive boxes below a limit: the boxes it visits with their offset, length and kind,
  and whether it stopped at a box whose end overflows. A box that is too short or passes the limit ends
  the loop.
\<close>

type_synonym placed_box = "nat \<times> nat \<times> bytes"

function walk :: "bytes \<Rightarrow> nat \<Rightarrow> nat \<Rightarrow> placed_box list \<times> bool" where
  "walk b limit cur =
     (if cur + 8 > limit then ([], False)
      else case read_box_header b cur of
        None \<Rightarrow> ([], False)
      | Some (box_len, box_type, _) \<Rightarrow>
          if box_len < 8 then ([], False)
          else if cur + box_len \<ge> 2 ^ 64 then ([], True)
          else if cur + box_len > limit then ([], False)
          else (case walk b limit (cur + box_len) of (bs, over) \<Rightarrow> ((cur, box_len, box_type) # bs, over)))"
  by pat_completeness auto
termination
  by (relation "measure (\<lambda>(_, limit, cur). limit - cur)") auto

declare walk.simps [simp del]

definition of_kind :: "string \<Rightarrow> placed_box list \<Rightarrow> (nat \<times> nat) list" where
  "of_kind kind bs = map (\<lambda>(off, len, _). (off, len)) (filter (\<lambda>(_, _, k). k = ascii kind) bs)"

definition find_child_box :: "bytes \<Rightarrow> nat \<Rightarrow> nat \<Rightarrow> string \<Rightarrow> stop + (nat \<times> nat) option" where
  "find_child_box b parent_start parent_end target =
     (case walk b (min parent_end (length b)) parent_start of (bs, over) \<Rightarrow>
        (case of_kind target bs of
           hit # _ \<Rightarrow> Inr (Some hit)
         | [] \<Rightarrow> if over then Inl Overflows else Inr None))"

definition find_all_child_boxes :: "bytes \<Rightarrow> nat \<Rightarrow> nat \<Rightarrow> string \<Rightarrow> stop + (nat \<times> nat) list" where
  "find_all_child_boxes b parent_start parent_end target =
     (case walk b (min parent_end (length b)) parent_start of (bs, over) \<Rightarrow>
        if over then Inl Overflows else Inr (of_kind target bs))"

text \<open>Sequencing of computations that may stop; \<open>sum_try\<close> is the question mark on an option.\<close>

definition sum_bind :: "'e + 'a \<Rightarrow> ('a \<Rightarrow> 'e + 'b) \<Rightarrow> 'e + 'b" where
  "sum_bind m f = (case m of Inl e \<Rightarrow> Inl e | Inr a \<Rightarrow> f a)"

definition sum_try :: "'e + 'a option \<Rightarrow> ('a \<Rightarrow> 'e + 'b option) \<Rightarrow> 'e + 'b option" where
  "sum_try m f = sum_bind m (\<lambda>r. case r of None \<Rightarrow> Inr None | Some a \<Rightarrow> f a)"

section \<open>The sample rate of an init segment\<close>

definition child_of :: "bytes \<Rightarrow> nat \<times> nat \<Rightarrow> string \<Rightarrow> stop + (nat \<times> nat) option" where
  "child_of b parent target = find_child_box b (fst parent + 8) (fst parent + snd parent) target"

definition entry_sample_rate :: "bytes \<Rightarrow> nat \<times> nat \<Rightarrow> nat option" where
  "entry_sample_rate b stsd =
     (if snd stsd < 16 then None
      else let entry_start = fst stsd + 16
        in case read_box_header b entry_start of
             None \<Rightarrow> None
           | Some (entry_len, _, _) \<Rightarrow>
               if entry_len < 36 \<or> entry_start + 36 > length b then None
               else let rate = read_u32_be b (entry_start + 32) div 2 ^ 16
                 in if rate > 0 then Some rate else None)"

fun trak_sample_rate :: "bytes \<Rightarrow> (nat \<times> nat) list \<Rightarrow> stop + nat option" where
  "trak_sample_rate b [] = Inr None"
| "trak_sample_rate b (trak # traks) =
     sum_bind (child_of b trak ''mdia'') (\<lambda>m. case m of
       None \<Rightarrow> trak_sample_rate b traks
     | Some mdia \<Rightarrow> sum_bind (child_of b mdia ''hdlr'') (\<lambda>h. case h of
         None \<Rightarrow> trak_sample_rate b traks
       | Some (hdlr_off, hdlr_len) \<Rightarrow>
           if hdlr_len < 20 \<or> bytes_at b (hdlr_off + 16) 4 \<noteq> ascii ''soun'' then trak_sample_rate b traks
           else sum_try (child_of b mdia ''minf'') (\<lambda>minf.
             sum_try (child_of b minf ''stbl'') (\<lambda>stbl.
             sum_try (child_of b stbl ''stsd'') (\<lambda>stsd. Inr (entry_sample_rate b stsd))))))"

definition audio_sample_rate :: "bytes \<Rightarrow> stop + nat option" where
  "audio_sample_rate b =
     sum_try (find_child_box b 0 (length b) ''moov'') (\<lambda>moov.
       sum_bind (find_all_child_boxes b (fst moov + 8) (fst moov + snd moov) ''trak'') (trak_sample_rate b))"

section \<open>Decode times\<close>

text \<open>
  \<open>normalize_fragment_start_time\<close> collects the decode time of every track fragment and shifts them so that
  the first is zero. A field is its offset, its version and its value; \<open>None\<close> is the return of false.
\<close>

type_synonym time_field = "nat \<times> nat \<times> nat"

definition tfdt_field :: "bytes \<Rightarrow> nat \<times> nat \<Rightarrow> time_field option" where
  "tfdt_field b tfdt =
     (if fst tfdt + 8 \<ge> length b then None
      else let version = unat (b ! (fst tfdt + 8)) in
        if version = 0 \<and> snd tfdt \<ge> 16 then Some (fst tfdt + 12, version, read_u32_be b (fst tfdt + 12))
        else if version = 1 \<and> snd tfdt \<ge> 20 then Some (fst tfdt + 12, version, read_u64_be b (fst tfdt + 12))
        else None)"

fun traf_fields :: "bytes \<Rightarrow> (nat \<times> nat) list \<Rightarrow> stop + time_field list option" where
  "traf_fields b [] = Inr (Some [])"
| "traf_fields b (traf # trafs) =
     sum_bind (child_of b traf ''tfdt'') (\<lambda>t. case t of
       None \<Rightarrow> traf_fields b trafs
     | Some tfdt \<Rightarrow> sum_try (Inr (tfdt_field b tfdt)) (\<lambda>f.
         sum_try (traf_fields b trafs) (\<lambda>fs. Inr (Some (f # fs)))))"

function time_fields :: "bytes \<Rightarrow> nat \<Rightarrow> stop + time_field list option" where
  "time_fields b offset =
     (if offset + 8 > length b then Inr (Some [])
      else case read_box_header b offset of
        None \<Rightarrow> Inr None
      | Some (box_len, box_type, _) \<Rightarrow>
          if box_len < 8 then Inr None
          else if offset + box_len \<ge> 2 ^ 64 then Inl Overflows
          else if offset + box_len > length b then Inr None
          else sum_try
            (if box_type = ascii ''moof''
             then sum_bind (find_all_child_boxes b (offset + 8) (offset + box_len) ''traf'') (traf_fields b)
             else Inr (Some []))
            (\<lambda>fs. sum_try (time_fields b (offset + box_len)) (\<lambda>rest. Inr (Some (fs @ rest)))))"
  by pat_completeness auto
termination
  by (relation "measure (\<lambda>(b, offset). length b - offset)") auto

declare time_fields.simps [simp del]

fun write_times :: "nat \<Rightarrow> time_field list \<Rightarrow> bytes \<Rightarrow> bool \<times> bytes" where
  "write_times first_time [] b = (True, b)"
| "write_times first_time ((off, version, v) # fs) b =
     (let normalized = v - first_time
      in if version = 0 then
           (if normalized \<ge> 2 ^ 32 then (False, b)
            else write_times first_time fs (write_u32_be b off normalized))
         else write_times first_time fs (write_u64_be b off normalized))"

definition first_time :: "time_field list \<Rightarrow> nat" where
  "first_time fs = Min (set (map (\<lambda>(_, _, v). v) fs))"

definition normalize_fragment_start_time :: "(bytes, stop, bool) result_state" where
  "normalize_fragment_start_time b =
     (case time_fields b 0 of
        Inl e \<Rightarrow> (Inl e, b)
      | Inr None \<Rightarrow> (Inr False, b)
      | Inr (Some fs) \<Rightarrow>
          if fs = [] \<or> first_time fs = 0 then (Inr False, b)
          else (case write_times (first_time fs) fs b of (ok, b') \<Rightarrow> (Inr ok, b')))"

section \<open>Where boxes lie\<close>

text \<open>Consecutive regions between two offsets.\<close>

fun apart :: "nat \<Rightarrow> nat \<Rightarrow> (nat \<times> nat) list \<Rightarrow> bool" where
  "apart lo hi [] \<longleftrightarrow> True"
| "apart lo hi ((off, len) # rs) \<longleftrightarrow> lo \<le> off \<and> off + len \<le> hi \<and> apart (off + len) hi rs"

lemma apart_weaken: "apart lo hi rs \<Longrightarrow> lo' \<le> lo \<Longrightarrow> hi \<le> hi' \<Longrightarrow> apart lo' hi' rs"
proof (induction rs arbitrary: lo lo')
  case (Cons r rs)
  then show ?case by (cases r) auto
qed simp

lemma apart_append: "apart lo mid rs \<Longrightarrow> apart mid hi ss \<Longrightarrow> lo \<le> mid \<Longrightarrow> mid \<le> hi \<Longrightarrow> apart lo hi (rs @ ss)"
proof (induction rs arbitrary: lo)
  case Nil
  then show ?case using apart_weaken [of mid hi ss lo hi] by simp
next
  case (Cons r rs)
  then show ?case by (cases r) auto
qed

lemma apart_inside: "apart lo hi rs \<Longrightarrow> (off, len) \<in> set rs \<Longrightarrow> lo \<le> off \<and> off + len \<le> hi"
proof (induction rs arbitrary: lo)
  case (Cons r rs)
  then show ?case by (cases r) force
qed simp

lemma apart_filter: "apart lo hi (map f bs) \<Longrightarrow> apart lo hi (map f (filter P bs))"
proof (induction bs arbitrary: lo)
  case (Cons r bs)
  obtain off len where r: "f r = (off, len)" by force
  with Cons have "apart (off + len) hi (map f (filter P bs))" by simp
  moreover from this have "apart off hi (map f (filter P bs))" by (rule apart_weaken) simp_all
  ultimately show ?case using Cons.prems r by (auto intro: apart_weaken [of off])
qed simp

abbreviation region :: "placed_box \<Rightarrow> nat \<times> nat" where
  "region \<equiv> \<lambda>(off, len, _). (off, len)"

lemma walk_apart: "apart cur limit (map region (fst (walk b limit cur)))"
proof (induction b limit cur rule: walk.induct)
  case (1 b limit cur)
  then show ?case
    by (subst walk.simps) (auto split: option.splits prod.splits if_splits, metis fst_conv)
qed

lemma walk_long: "(off, len, k) \<in> set (fst (walk b limit cur)) \<Longrightarrow> 8 \<le> len"
proof (induction b limit cur rule: walk.induct)
  case (1 b limit cur)
  then show ?case by (subst (asm) (2) walk.simps) (auto split: option.splits prod.splits if_splits)
qed

lemma of_kind_apart: "apart lo hi (map region bs) \<Longrightarrow> apart lo hi (of_kind kind bs)"
  unfolding of_kind_def by (rule apart_filter)

lemma of_kind_long: "(off, len) \<in> set (of_kind kind (fst (walk b limit cur))) \<Longrightarrow> 8 \<le> len"
  by (auto simp: of_kind_def dest: walk_long)

lemma walk_kind_apart: "walk b limit cur = (bs, over) \<Longrightarrow> apart cur limit (of_kind kind bs)"
  using of_kind_apart [OF walk_apart [of cur limit b], of kind] by simp

lemma find_all_child_boxes_apart:
  "find_all_child_boxes b lo hi kind = Inr rs \<Longrightarrow> apart lo (min hi (length b)) rs"
  by (auto simp: find_all_child_boxes_def split: prod.splits if_splits intro: walk_kind_apart)

lemma find_child_box_inside:
  assumes "find_child_box b lo hi kind = Inr (Some (off, len))"
  shows "lo \<le> off \<and> off + len \<le> hi \<and> off + len \<le> length b \<and> 8 \<le> len"
proof -
  obtain bs over where w: "walk b (min hi (length b)) lo = (bs, over)" by force
  with assms obtain rest where k: "of_kind kind bs = (off, len) # rest"
    by (auto simp: find_child_box_def split: list.splits if_splits)
  have "apart lo (min hi (length b)) ((off, len) # rest)" using walk_kind_apart [OF w, of kind] k by simp
  moreover have "8 \<le> len" using of_kind_long [of off len kind b "min hi (length b)" lo] w k by simp
  ultimately show ?thesis by simp
qed

text \<open>\<open>find_child_box\<close> is the first result of \<open>find_all_child_boxes\<close>.\<close>

lemma find_child_box_first:
  "find_all_child_boxes b lo hi kind = Inr rs \<Longrightarrow>
     find_child_box b lo hi kind = Inr (case rs of [] \<Rightarrow> None | r # _ \<Rightarrow> Some r)"
  by (auto simp: find_all_child_boxes_def find_child_box_def split: prod.splits if_splits list.splits)

section \<open>Normalised decode times\<close>

fun field_region :: "time_field \<Rightarrow> nat \<times> nat" where
  "field_region (off, version, v) = (off, if version = 0 then 4 else 8)"

fun field_at :: "bytes \<Rightarrow> time_field \<Rightarrow> nat" where
  "field_at b (off, version, v) = (if version = 0 then read_u32_be b off else read_u64_be b off)"

definition field_covers :: "nat \<Rightarrow> time_field \<Rightarrow> bool" where
  "field_covers i f \<longleftrightarrow> fst (field_region f) \<le> i \<and> i < fst (field_region f) + snd (field_region f)"

definition time_of :: "time_field \<Rightarrow> nat" where
  "time_of = (\<lambda>(off, version, v). v)"

lemma sum_try_Some: "sum_try m f = Inr (Some y) \<longleftrightarrow> (\<exists>x. m = Inr (Some x) \<and> f x = Inr (Some y))"
  by (auto simp: sum_try_def sum_bind_def split: sum.splits option.splits)

lemma sum_bind_Inr: "sum_bind m f = Inr y \<longleftrightarrow> (\<exists>x. m = Inr x \<and> f x = Inr y)"
  by (auto simp: sum_bind_def split: sum.splits)

lemma tfdt_field_spec:
  assumes "tfdt_field b (off, len) = Some f" "off + len \<le> hi" "lo \<le> off"
  shows "lo \<le> fst (field_region f) \<and> fst (field_region f) + snd (field_region f) \<le> hi \<and> time_of f = field_at b f"
  using assms by (auto simp: tfdt_field_def Let_def time_of_def split: if_splits)

lemma traf_fields_spec:
  assumes "traf_fields b trafs = Inr (Some fs)" "apart lo hi trafs"
  shows "apart lo hi (map field_region fs) \<and> list_all (\<lambda>f. time_of f = field_at b f) fs"
  using assms
proof (induction b trafs arbitrary: fs lo rule: traf_fields.induct)
  case (2 b traf trafs)
  obtain off len where traf: "traf = (off, len)" by force
  with "2.prems" have place: "lo \<le> off" "off + len \<le> hi" "apart (off + len) hi trafs" by auto
  from "2.prems"(1) obtain t where t: "child_of b traf ''tfdt'' = Inr t" by (auto simp: sum_bind_Inr)
  show ?case
  proof (cases t)
    case None
    with "2.prems"(1) t have "traf_fields b trafs = Inr (Some fs)" by (simp add: sum_bind_def)
    from "2.IH"(1) [OF this place(3)] place show ?thesis by (auto intro: apart_weaken [of "off + len"])
  next
    case (Some tfdt)
    obtain toff tlen where tf: "tfdt = (toff, tlen)" by force
    from "2.prems"(1) t Some obtain f gs where f: "tfdt_field b tfdt = Some f"
      and gs: "traf_fields b trafs = Inr (Some gs)" and fs: "fs = f # gs"
      by (auto simp: sum_bind_Inr sum_try_Some)
    have "off + 8 \<le> toff" "toff + tlen \<le> off + len"
      using find_child_box_inside [of b "off + 8" "off + len" "''tfdt''" toff tlen] t Some tf traf
      by (simp_all add: child_of_def)
    with tfdt_field_spec [of b toff tlen f "off + len" lo] f tf place
    have "lo \<le> fst (field_region f)" "fst (field_region f) + snd (field_region f) \<le> off + len" "time_of f = field_at b f"
      by simp_all
    moreover have "apart (off + len) hi (map field_region gs) \<and> list_all (\<lambda>f. time_of f = field_at b f) gs"
      using "2.IH"(1) [OF gs place(3)] .
    ultimately show ?thesis using fs place by (cases "field_region f") (auto intro: apart_weaken [of "off + len"])
  qed
qed simp

lemma time_fields_spec:
  assumes "time_fields b offset = Inr (Some fs)"
  shows "apart offset (length b) (map field_region fs) \<and> list_all (\<lambda>f. time_of f = field_at b f) fs"
  using assms
proof (induction b offset arbitrary: fs rule: time_fields.induct)
  case (1 b offset)
  show ?case
  proof (cases "offset + 8 > length b")
    case True
    with "1.prems" show ?thesis by (simp add: time_fields.simps)
  next
    case False
    then obtain box_len box_type hd where h: "read_box_header b offset = Some (box_len, box_type, hd)"
      and g: "\<not> box_len < 8" "\<not> offset + box_len \<ge> 2 ^ 64" "\<not> offset + box_len > length b"
      using "1.prems" by (subst (asm) time_fields.simps) (auto split: option.splits if_splits)
    let ?here = "if box_type = ascii ''moof''
      then sum_bind (find_all_child_boxes b (offset + 8) (offset + box_len) ''traf'') (traf_fields b) else Inr (Some [])"
    from "1.prems" False h g obtain here rest where here: "?here = Inr (Some here)"
      and rest: "time_fields b (offset + box_len) = Inr (Some rest)" and fs: "fs = here @ rest"
      by (subst (asm) time_fields.simps) (auto simp: sum_try_Some)
    from here have "apart offset (offset + box_len) (map field_region here) \<and> list_all (\<lambda>f. time_of f = field_at b f) here"
    proof (cases "box_type = ascii ''moof''")
      case True
      with here obtain trafs where t: "find_all_child_boxes b (offset + 8) (offset + box_len) ''traf'' = Inr trafs"
        and f: "traf_fields b trafs = Inr (Some here)" by (auto simp: sum_bind_Inr)
      have "apart offset (offset + box_len) trafs"
        using find_all_child_boxes_apart [OF t] by (rule apart_weaken) simp_all
      with traf_fields_spec [OF f] show ?thesis by blast
    qed auto
    moreover have "apart (offset + box_len) (length b) (map field_region rest) \<and> list_all (\<lambda>f. time_of f = field_at b f) rest"
      using "1.IH" [OF False h refl refl g rest] .
    ultimately show ?thesis using fs g by (auto intro: apart_append)
  qed
qed

lemma bytes_at_length_le: "length (bytes_at b i n) \<le> n"
  by (simp add: bytes_at_def)

lemma field_at_less: "field_at b f < 256 ^ snd (field_region f)"
proof -
  have bound: "be_nat (bytes_at b i n) < 256 ^ n" for i n
    using be_nat_less [of "bytes_at b i n"] power_increasing [OF bytes_at_length_le, of "256 :: nat" b i n]
    by (simp only: order.strict_trans2 simp_thms one_le_numeral)
  obtain off version v where f: "f = (off, version, v)" using prod_cases3 by blast
  show ?thesis using bound [of off 4] bound [of off 8] by (simp add: f read_u32_be_def read_u64_be_def)
qed

lemma bytes_at_cong:
  assumes "take m b' = take m b" "i + n \<le> m"
  shows "bytes_at b' i n = bytes_at b i n"
  by (metis assms bytes_at_def drop_take le_add_diff_inverse min.absorb1 take_take add_le_imp_le_diff add.commute)

lemma field_at_cong: "take m b' = take m b \<Longrightarrow> fst (field_region f) + snd (field_region f) \<le> m \<Longrightarrow> field_at b' f = field_at b f"
  by (cases f) (auto simp: read_u32_be_def read_u64_be_def intro!: arg_cong [where f = be_nat] bytes_at_cong split: if_splits)

text \<open>One field written: it reads back, and nothing else changes.\<close>

definition put_field :: "bytes \<Rightarrow> time_field \<Rightarrow> nat \<Rightarrow> bytes" where
  "put_field b f n = overwrite b (fst (field_region f)) (to_be (snd (field_region f)) n)"

lemma put_field_spec:
  assumes "fst (field_region f) + snd (field_region f) \<le> length b" "n < 256 ^ snd (field_region f)"
  shows "length (put_field b f n) = length b" "field_at (put_field b f n) f = n"
    "\<not> field_covers i f \<Longrightarrow> put_field b f n ! i = b ! i"
    "m \<le> fst (field_region f) \<Longrightarrow> take m (put_field b f n) = take m b"
proof -
  obtain off version v where f: "f = (off, version, v)" using prod_cases3 by blast
  let ?w = "snd (field_region f)"
  show "length (put_field b f n) = length b" using assms by (simp add: put_field_def)
  have "bytes_at (put_field b f n) off ?w = to_be ?w n"
    using take_drop_overwrite [of off "to_be ?w n" b] assms by (simp add: put_field_def bytes_at_def f)
  with assms(2) show "field_at (put_field b f n) f = n"
    by (auto simp: f read_u32_be_def read_u64_be_def be_nat_to_be split: if_splits)
  show "put_field b f n ! i = b ! i" if "\<not> field_covers i f"
    using that assms by (auto simp: put_field_def field_covers_def intro!: nth_overwrite)
  show "take m (put_field b f n) = take m b" if "m \<le> fst (field_region f)"
    using that assms by (simp add: put_field_def overwrite_def)
qed

lemma write_times_put:
  assumes "time_of f - t < 256 ^ snd (field_region f)"
  shows "write_times t (f # fs) b = write_times t fs (put_field b f (time_of f - t))"
  using assms by (cases f) (auto simp: put_field_def time_of_def write_u32_be_def write_u64_be_def Let_def split: if_splits)

lemma write_times_spec:
  assumes "apart lo (length b) (map field_region fs)" "list_all (\<lambda>f. time_of f - t < 256 ^ snd (field_region f)) fs"
  shows "\<exists>b'. write_times t fs b = (True, b') \<and> length b' = length b \<and> take lo b' = take lo b \<and>
    map (field_at b') fs = map (\<lambda>f. time_of f - t) fs \<and> (\<forall>i. list_ex (field_covers i) fs \<or> b' ! i = b ! i)"
  using assms
proof (induction fs arbitrary: lo b)
  case (Cons f fs)
  obtain off w where r: "field_region f = (off, w)" by force
  let ?b = "put_field b f (time_of f - t)"
  from Cons.prems r have place: "lo \<le> off" "off + w \<le> length b" "apart (off + w) (length b) (map field_region fs)"
    and small: "time_of f - t < 256 ^ w" by auto
  note put = put_field_spec [of f b "time_of f - t"]
  from Cons.IH [of "off + w" ?b] place put(1) r small Cons.prems(2) obtain b' where
    w: "write_times t fs ?b = (True, b')" "length b' = length b" "take (off + w) b' = take (off + w) ?b"
      "map (field_at b') fs = map (\<lambda>f. time_of f - t) fs" "\<And>i. list_ex (field_covers i) fs \<or> b' ! i = ?b ! i"
    by auto
  have "field_at b' f = time_of f - t"
    using field_at_cong [OF w(3), of f] put(2) r place small by simp
  moreover have "take lo b' = take lo b"
  proof -
    have "take lo b' = take lo (take (off + w) b')" using place by (simp add: min_def)
    also have "\<dots> = take lo ?b" using w(3) place by (simp add: min_def)
    also have "\<dots> = take lo b" using put(4) [of lo] r place small by simp
    finally show ?thesis .
  qed
  moreover have "list_ex (field_covers i) (f # fs) \<or> b' ! i = b ! i" for i
    using w(5) [of i] put(3) [of i] r place small by auto
  ultimately show ?case using write_times_put [of f t fs b] small r w by auto
qed simp

text \<open>
  C36: Normalising the start time either leaves the file alone or succeeds, and then every decode time of
  its track fragments is lowered by the first of them, which becomes zero: differences between decode
  times are kept, and so is every byte outside the fields. It is never left half done.
\<close>

theorem start_time_normalized:
  "case normalize_fragment_start_time b of (r, b') \<Rightarrow>
     if r = Inr True then
       length b' = length b \<and>
       (\<exists>fs. time_fields b 0 = Inr (Some fs) \<and> 0 < first_time fs \<and> map time_of fs = map (field_at b) fs \<and>
          map (field_at b') fs = map (\<lambda>f. field_at b f - first_time fs) fs \<and>
          0 \<in> set (map (field_at b') fs) \<and> (\<forall>i. list_ex (field_covers i) fs \<or> b' ! i = b ! i))
     else b' = b"
proof (cases "\<exists>fs. time_fields b 0 = Inr (Some fs) \<and> fs \<noteq> [] \<and> first_time fs \<noteq> 0")
  case True
  then obtain fs where fs: "time_fields b 0 = Inr (Some fs)" "fs \<noteq> []" "first_time fs \<noteq> 0" by blast
  note spec = time_fields_spec [OF fs(1)]
  then have times: "map time_of fs = map (field_at b) fs" by (simp add: list_all_iff)
  have "list_all (\<lambda>f. time_of f - first_time fs < 256 ^ snd (field_region f)) fs"
    using spec by (auto simp: list_all_iff intro: le_less_trans [OF diff_le_self field_at_less])
  with write_times_spec [of 0 b fs "first_time fs"] spec obtain b' where
    w: "write_times (first_time fs) fs b = (True, b')" "length b' = length b"
      "map (field_at b') fs = map (\<lambda>f. time_of f - first_time fs) fs" "\<forall>i. list_ex (field_covers i) fs \<or> b' ! i = b ! i"
    by auto
  have "first_time fs \<in> set (map time_of fs)"
    using Min_in [of "set (map time_of fs)"] fs(2) by (simp add: first_time_def time_of_def)
  then have "0 \<in> set (map (\<lambda>f. time_of f - first_time fs) fs)" by force
  moreover have "map (\<lambda>f. time_of f - first_time fs) fs = map (\<lambda>f. field_at b f - first_time fs) fs"
    using times by simp
  ultimately show ?thesis using fs w times by (simp add: normalize_fragment_start_time_def)
next
  case False
  then show ?thesis by (auto simp: normalize_fragment_start_time_def split: sum.splits option.splits)
qed

section \<open>Sizes that overflow\<close>

text \<open>
  One iteration of the loop of \<open>find_child_box\<close> in a release build, on a box that is not the target:
  the offset it continues at, with the wrap-around of the sum. A file whose second box claims
  $2^{64} - 16$ bytes sends the loop back to its start, for ever.
\<close>

definition wrapping_next :: "bytes \<Rightarrow> nat \<Rightarrow> nat \<Rightarrow> nat option" where
  "wrapping_next b limit cur =
     (if cur + 8 > limit then None
      else case read_box_header b cur of
        None \<Rightarrow> None
      | Some (box_len, _, _) \<Rightarrow>
          let next_cur = (cur + box_len) mod 2 ^ 64
          in if box_len < 8 \<or> next_cur > limit then None else Some next_cur)"

text \<open>Where no sum overflows, the loop and its release build agree.\<close>

lemma wrapping_next_walk:
  assumes "walk b limit cur = ((off, len, k) # bs, over)"
  shows "off = cur \<and> wrapping_next b limit cur = Some (cur + len) \<and> walk b limit (cur + len) = (bs, over)"
  using assms
  by (subst (asm) walk.simps) (auto simp: wrapping_next_def Let_def split: if_splits option.splits prod.splits)

definition looping_file :: bytes where
  "looping_file =
     [0, 0, 0, 16, 102, 114, 101, 101, 0, 0, 0, 0, 0, 0, 0, 0,
      0, 0, 0, 1, 102, 114, 101, 101, 255, 255, 255, 255, 255, 255, 255, 240]"

theorem wide_box_loops:
  "wrapping_next looping_file 32 0 = Some 16 \<and> wrapping_next looping_file 32 16 = Some 0 \<and>
   find_child_box looping_file 0 32 ''moof'' = Inl Overflows"
proof -
  have h: "read_box_header looping_file 0 = Some (16, ascii ''free'', 8)"
    "read_box_header looping_file 16 = Some (2 ^ 64 - 16, ascii ''free'', 16)"
    by (simp_all add: looping_file_def read_box_header_def bytes_at_def read_u32_be_def read_u64_be_def be_nat_def
        ascii_def)
  then have "walk looping_file 32 16 = ([], True)" by (simp add: walk.simps [of _ _ 16])
  with h have "walk looping_file 32 0 = ([(0, 16, ascii ''free'')], True)" by (simp add: walk.simps [of _ _ 0])
  moreover have "length looping_file = 32" by (simp add: looping_file_def)
  ultimately show ?thesis using h
    by (simp add: wrapping_next_def find_child_box_def of_kind_def ascii_def)
qed

end
