(* ===== verification/Fragment_Layout.thy ===== *)
theory Fragment_Layout
  imports Mp4_Boxes
begin

text \<open>
  The layout of a well-formed movie fragment and how the box scanner sees it: the boxes before the
  \<open>moof\<close> box, its children before and after the first \<open>traf\<close> box, the children of that box, and the
  bytes after the fragment header, which hold the sample data. The operations that rewrite a fragment are
  specified on this layout.
\<close>

type_synonym box = "bytes \<times> bytes"

abbreviation boxes_of :: "box list \<Rightarrow> bytes" where
  "boxes_of bxs \<equiv> concat (map box_of bxs)"

abbreviation box_len :: "box \<Rightarrow> nat" where
  "box_len bx \<equiv> length (snd bx) + 8"

abbreviation boxes_len :: "box list \<Rightarrow> nat" where
  "boxes_len bxs \<equiv> sum_list (map box_len bxs)"

lemma length_boxes_of: "list_all box_ok bxs \<Longrightarrow> length (boxes_of bxs) = boxes_len bxs"
  by (induction bxs) (simp_all add: length_box_of)

fun placed :: "nat \<Rightarrow> box list \<Rightarrow> placed_box list" where
  "placed off [] = []"
| "placed off (bx # bxs) = (off, box_len bx, fst bx) # placed (off + box_len bx) bxs"

lemma placed_append: "placed off (xs @ ys) = placed off xs @ placed (off + boxes_len xs) ys"
  by (induction xs arbitrary: off) (simp_all add: add.assoc)

lemma read_box_header_box:
  assumes "box_ok bx"
  shows "read_box_header (pre @ box_of bx @ post) (length pre) = Some (box_len bx, fst bx, 8)"
proof -
  have "bytes_at (pre @ box_of bx @ post) (length pre) 4 = to_be 4 (box_len bx)"
    "bytes_at (pre @ box_of bx @ post) (length pre + 4) 4 = fst bx"
    using assms by (simp_all add: bytes_at_def box_of_def box_ok_def)
  moreover have "be_nat (to_be 4 (box_len bx)) = box_len bx"
    using assms by (simp add: be_nat_to_be box_ok_def)
  ultimately show ?thesis using assms length_box_of [OF assms]
    by (simp add: read_box_header_def read_u32_be_def)
qed

lemma walk_boxes:
  assumes "list_all box_ok bxs" "length pre + boxes_len bxs \<le> limit" "limit < 2 ^ 64" "b = pre @ boxes_of bxs @ post"
  shows "walk b limit (length pre) =
    (case walk b limit (length pre + boxes_len bxs) of (bs, over) \<Rightarrow> (placed (length pre) bxs @ bs, over))"
  using assms
proof (induction bxs arbitrary: pre)
  case (Cons bx bxs)
  have ok: "box_ok bx" using Cons.prems by simp
  have "walk b limit (length (pre @ box_of bx)) =
    (case walk b limit (length (pre @ box_of bx) + boxes_len bxs) of
       (bs, over) \<Rightarrow> (placed (length (pre @ box_of bx)) bxs @ bs, over))"
    using Cons.prems ok by (intro Cons.IH) (simp_all add: length_box_of)
  moreover have "read_box_header b (length pre) = Some (box_len bx, fst bx, 8)"
    using read_box_header_box [OF ok, of pre "boxes_of bxs @ post"] Cons.prems by simp
  ultimately show ?case using Cons.prems length_box_of [OF ok]
    by (subst walk.simps) (simp add: add.assoc split: prod.split)
qed (simp split: prod.split)

lemma walk_end: "limit < cur + 8 \<Longrightarrow> walk b limit cur = ([], False)"
  by (simp add: walk.simps)

lemma walk_all_boxes:
  assumes "list_all box_ok bxs" "limit = cur + boxes_len bxs" "limit < 2 ^ 64" "b = pre @ boxes_of bxs @ post" "length pre = cur"
  shows "walk b limit cur = (placed cur bxs, False)"
  using walk_boxes [of bxs pre limit b post] assms by (simp add: walk_end)

lemma of_kind_append: "of_kind k (xs @ ys) = of_kind k xs @ of_kind k ys"
  by (simp add: of_kind_def)

lemma of_kind_Cons [simp]:
  "of_kind k ((off, len, k') # bs) = (if k' = ascii k then [(off, len)] else []) @ of_kind k bs"
  by (simp add: of_kind_def)

lemma of_kind_placed_none: "list_all (\<lambda>bx. fst bx \<noteq> ascii k) bxs \<Longrightarrow> of_kind k (placed off bxs) = []"
  by (induction bxs arbitrary: off) (simp_all, simp add: of_kind_def)

text \<open>The first child of a kind is found where it was put, whatever follows it.\<close>

lemma find_child_box_layout:
  assumes ok: "list_all box_ok (xs @ [bx])" and none: "list_all (\<lambda>y. fst y \<noteq> ascii k) xs" and kind: "fst bx = ascii k"
    and b: "b = pre @ boxes_of (xs @ [bx]) @ post" "length pre = cur" and lim: "cur + boxes_len (xs @ [bx]) \<le> hi" "length b < 2 ^ 64"
  shows "find_child_box b cur hi k = Inr (Some (cur + boxes_len xs, box_len bx))"
proof -
  let ?limit = "min hi (length b)"
  have len: "length (boxes_of (xs @ [bx])) = boxes_len (xs @ [bx])" using ok by (rule length_boxes_of)
  obtain bs over where rest: "walk b ?limit (cur + boxes_len (xs @ [bx])) = (bs, over)" by force
  have "walk b ?limit cur = (placed cur (xs @ [bx]) @ bs, over)"
    using walk_boxes [OF ok, of pre ?limit b post] b lim len rest by simp
  with none kind show ?thesis
    by (simp add: find_child_box_def of_kind_append of_kind_placed_none placed_append)
qed

section \<open>Layouts\<close>

record layout =
  la_before :: "box list"
  la_moof_before :: "box list"
  la_traf :: "box list"
  la_moof_after :: "box list"
  la_rest :: bytes

definition traf_of :: "layout \<Rightarrow> box" where
  "traf_of F = (ascii ''traf'', boxes_of (la_traf F))"

definition moof_of :: "layout \<Rightarrow> box" where
  "moof_of F = (ascii ''moof'', boxes_of (la_moof_before F @ [traf_of F] @ la_moof_after F))"

definition encode_layout :: "layout \<Rightarrow> bytes" where
  "encode_layout F = boxes_of (la_before F @ [moof_of F]) @ la_rest F"

definition layout_ok :: "layout \<Rightarrow> bool" where
  "layout_ok F \<longleftrightarrow>
     list_all box_ok (la_before F @ [moof_of F]) \<and> list_all box_ok (la_moof_before F @ [traf_of F]) \<and>
     list_all box_ok (la_moof_after F) \<and> list_all box_ok (la_traf F) \<and>
     list_all (\<lambda>bx. fst bx \<noteq> ascii ''moof'') (la_before F) \<and> list_all (\<lambda>bx. fst bx \<noteq> ascii ''traf'') (la_moof_before F) \<and>
     length (encode_layout F) < 2 ^ 64"

definition moof_off :: "layout \<Rightarrow> nat" where
  "moof_off F = boxes_len (la_before F)"

definition traf_off :: "layout \<Rightarrow> nat" where
  "traf_off F = moof_off F + 8 + boxes_len (la_moof_before F)"

definition header_of :: "nat \<Rightarrow> string \<Rightarrow> bytes" where
  "header_of len kind = to_be 4 len @ ascii kind"

definition moof_pre :: "layout \<Rightarrow> nat \<Rightarrow> bytes" where
  "moof_pre F len = boxes_of (la_before F) @ header_of len ''moof''"

definition traf_pre :: "layout \<Rightarrow> nat \<Rightarrow> nat \<Rightarrow> bytes" where
  "traf_pre F len1 len2 = moof_pre F len1 @ boxes_of (la_moof_before F) @ header_of len2 ''traf''"

lemma length_header [simp]: "length kind = 4 \<Longrightarrow> length (header_of len kind) = 8"
  by (simp add: header_of_def ascii_def)

lemma encode_layout_moof:
  "encode_layout F = moof_pre F (box_len (moof_of F)) @ boxes_of (la_moof_before F @ [traf_of F] @ la_moof_after F) @ la_rest F"
  by (simp add: encode_layout_def box_of_def [of "moof_of F"] header_of_def moof_pre_def) (simp add: moof_of_def)

lemma encode_layout_traf:
  "encode_layout F = traf_pre F (box_len (moof_of F)) (box_len (traf_of F)) @ boxes_of (la_traf F) @ boxes_of (la_moof_after F) @ la_rest F"
  by (simp add: encode_layout_moof box_of_def [of "traf_of F"] header_of_def traf_pre_def) (simp add: traf_of_def)

lemma layout_lengths:
  assumes "layout_ok F"
  shows "length (moof_pre F n) = moof_off F + 8" "length (traf_pre F n m) = traf_off F + 8"
    "moof_off F + box_len (moof_of F) = traf_off F + box_len (traf_of F) + boxes_len (la_moof_after F)"
    "moof_off F + box_len (moof_of F) \<le> length (encode_layout F)"
    "traf_off F + box_len (traf_of F) = traf_off F + 8 + boxes_len (la_traf F)"
proof -
  have ok: "list_all box_ok (la_before F)" "list_all box_ok (la_moof_before F)" "list_all box_ok (la_moof_after F)"
    "list_all box_ok (la_traf F)" "box_ok (traf_of F)"
    using assms by (simp_all add: layout_ok_def)
  note len = ok(1-4) [THEN length_boxes_of] length_box_of [OF ok(5)]
  show "length (moof_pre F n) = moof_off F + 8" "length (traf_pre F n m) = traf_off F + 8"
    by (simp_all add: len moof_off_def traf_off_def moof_pre_def traf_pre_def)
  have m: "box_len (moof_of F) = boxes_len (la_moof_before F) + box_len (traf_of F) + boxes_len (la_moof_after F) + 8"
    using len by (simp add: moof_of_def)
  then show "moof_off F + box_len (moof_of F) = traf_off F + box_len (traf_of F) + boxes_len (la_moof_after F)"
    by (simp add: traf_off_def)
  have "length (encode_layout F) = moof_off F + 8 + length (boxes_of (la_moof_before F @ [traf_of F] @ la_moof_after F)) + length (la_rest F)"
    using len by (simp add: encode_layout_moof moof_off_def moof_pre_def)
  then show "moof_off F + box_len (moof_of F) \<le> length (encode_layout F)" by (simp add: moof_of_def)
  show "traf_off F + box_len (traf_of F) = traf_off F + 8 + boxes_len (la_traf F)" using len by (simp add: traf_of_def)
qed

lemma layout_find_moof:
  assumes "layout_ok F"
  shows "find_child_box (encode_layout F) 0 (length (encode_layout F)) ''moof'' = Inr (Some (moof_off F, box_len (moof_of F)))"
proof -
  have "find_child_box (encode_layout F) 0 (length (encode_layout F)) ''moof'' = Inr (Some (0 + boxes_len (la_before F), box_len (moof_of F)))"
  proof (rule find_child_box_layout)
    show "0 + boxes_len (la_before F @ [moof_of F]) \<le> length (encode_layout F)"
      using layout_lengths(4) [OF assms] by (simp add: moof_off_def)
    show "encode_layout F = [] @ boxes_of (la_before F @ [moof_of F]) @ la_rest F" by (simp add: encode_layout_def)
  qed (use assms in \<open>simp_all add: layout_ok_def, simp add: moof_of_def\<close>)
  then show ?thesis by (simp add: moof_off_def)
qed

lemma layout_find_traf:
  assumes "layout_ok F"
  shows "find_child_box (encode_layout F) (moof_off F + 8) (moof_off F + box_len (moof_of F)) ''traf'' =
    Inr (Some (traf_off F, box_len (traf_of F)))"
  unfolding traf_off_def
proof (rule find_child_box_layout)
  show "moof_off F + 8 + boxes_len (la_moof_before F @ [traf_of F]) \<le> moof_off F + box_len (moof_of F)"
    using layout_lengths(3) [OF assms] by (simp add: traf_off_def)
  show "encode_layout F = moof_pre F (box_len (moof_of F)) @ boxes_of (la_moof_before F @ [traf_of F]) @ boxes_of (la_moof_after F) @ la_rest F"
    by (simp add: encode_layout_moof)
qed (use assms layout_lengths(1) [OF assms] in \<open>simp_all add: layout_ok_def, simp add: traf_of_def\<close>)

lemma layout_walk_moof:
  assumes "layout_ok F"
  shows "walk (encode_layout F) (moof_off F + box_len (moof_of F)) (moof_off F + 8) =
    (placed (moof_off F + 8) (la_moof_before F @ [traf_of F] @ la_moof_after F), False)"
  using assms layout_lengths [OF assms] by (intro walk_all_boxes [OF _ _ _ encode_layout_moof]) (simp_all add: layout_ok_def traf_off_def)

lemma layout_walk_traf:
  assumes "layout_ok F"
  shows "walk (encode_layout F) (traf_off F + box_len (traf_of F)) (traf_off F + 8) = (placed (traf_off F + 8) (la_traf F), False)"
  using assms layout_lengths [OF assms] by (intro walk_all_boxes [OF _ _ _ encode_layout_traf]) (simp_all add: layout_ok_def)

end
