(* ===== verification/Box_Strip.thy ===== *)
theory Box_Strip
  imports Fragment_Layout "HOL-Library.Multiset"
begin

text \<open>
  \<open>strip_encryption_boxes\<close> of \<open>crates/apple/src/wrapper/cenc.rs\<close>: it takes the protection boxes out of the
  headers of a movie fragment, shortens the \<open>traf\<close> and \<open>moof\<close> boxes by what it removed and moves the data
  offsets of the runs with the sample data. The loops that only look read the same unchanged bytes, so one walk
  serves them all; the loop over the runs writes while it walks. As in \<open>Mp4_Boxes\<close> the arithmetic is that of the release
  build, and a run in which the end of a box passes \<open>2 ^ 64\<close> is followed up to that point only.
\<close>

definition rs_gets :: "('s \<Rightarrow> 'e + 'a) \<Rightarrow> ('s, 'e, 'a) result_state" where
  "rs_gets g s = (g s, s)"

definition rs_modify :: "('s \<Rightarrow> 's) \<Rightarrow> ('s, 'e, unit) result_state" where
  "rs_modify f s = (Inr (), f s)"

definition require_box :: "string \<Rightarrow> (bytes \<Rightarrow> stop + 'a option) \<Rightarrow> (bytes, stop, 'a) result_state" where
  "require_box message look =
     rs_bind (rs_gets look) (\<lambda>r. case r of None \<Rightarrow> rs_fail (Fails message) | Some a \<Rightarrow> rs_ret a)"

definition walked :: "nat \<Rightarrow> nat \<Rightarrow> bytes \<Rightarrow> stop + placed_box list" where
  "walked start limit b = (case walk b limit start of (bs, over) \<Rightarrow> if over then Inl Overflows else Inr bs)"

definition strip_kinds :: "string list" where
  "strip_kinds = [''senc'', ''saiz'', ''saio'', ''uuid'']"

definition is_protection_group :: "bytes \<Rightarrow> placed_box \<Rightarrow> bool" where
  "is_protection_group b = (\<lambda>(cur, len, kind).
     (kind = ascii ''sgpd'' \<or> kind = ascii ''sbgp'') \<and> cur + 16 \<le> length b \<and>
     (bytes_at b (cur + 12) 4 = ascii ''seam'' \<or> bytes_at b (cur + 12) 4 = ascii ''seig''))"

definition sub32 :: "nat \<Rightarrow> nat \<Rightarrow> nat" where
  "sub32 n k = nat ((int n - int k) mod 2 ^ 32)"

definition traf_removals :: "bytes \<Rightarrow> placed_box list \<Rightarrow> (nat \<times> nat) list" where
  "traf_removals b bs =
     concat (map (\<lambda>kind. of_kind kind bs) strip_kinds) @ map region (filter (is_protection_group b) bs)"

text \<open>The loop over the runs ends at a box shorter than a header, but not at one that passes the end.\<close>

function shift_runs :: "nat \<Rightarrow> nat \<Rightarrow> nat \<Rightarrow> (bytes, stop, unit) result_state" where
  "shift_runs removed limit cur b =
     (if cur + 8 > limit then (Inr (), b)
      else case read_box_header b cur of
        None \<Rightarrow> (Inr (), b)
      | Some (len, box_type, _) \<Rightarrow>
          if len < 8 then (Inr (), b)
          else if box_type = ascii ''trun'' \<and> cur + 20 > length b then (Inl (Fails ''trun data offset''), b)
          else
            let b' = (if box_type = ascii ''trun''
                      then write_u32_be b (cur + 16) (sub32 (read_u32_be b (cur + 16)) removed) else b)
            in if cur + len \<ge> 2 ^ 64 then (Inl Overflows, b') else shift_runs removed limit (cur + len) b')"
  by pat_completeness auto
termination
  by (relation "measure (\<lambda>(_, limit, cur, _). limit - cur)") auto

declare shift_runs.simps [simp del]

definition shrink_header :: "string \<Rightarrow> nat \<Rightarrow> nat \<Rightarrow> (bytes, stop, unit) result_state" where
  "shrink_header message off removed b =
     (if off + 4 > length b then (Inl (Fails message), b)
      else (Inr (), write_u32_be b off (sub32 (read_u32_be b off) removed)))"

fun drain_all :: "(nat \<times> nat) list \<Rightarrow> (bytes, stop, unit) result_state" where
  "drain_all [] b = (Inr (), b)"
| "drain_all ((off, len) # rs) b =
     (if off + len > length b then (Inl Panics, b) else drain_all rs (take off b @ drop (off + len) b))"

definition by_offset_desc :: "(nat \<times> nat) list \<Rightarrow> (nat \<times> nat) list" where
  "by_offset_desc = sort_key (\<lambda>(off, _). - int off)"

definition strip_encryption_boxes :: "(bytes, stop, unit) result_state" where
  "strip_encryption_boxes =
     rs_bind (require_box ''Missing moof box in fragment'' (\<lambda>b. find_child_box b 0 (length b) ''moof'')) (\<lambda>(moof_off, moof_len).
     rs_bind (require_box ''Missing traf box in moof''
       (\<lambda>b. find_child_box b (moof_off + 8) (moof_off + moof_len) ''traf'')) (\<lambda>(traf_off, traf_len).
     rs_bind (rs_gets (\<lambda>b. sum_bind (walked (traf_off + 8) (traf_off + traf_len) b) (\<lambda>bs. Inr (traf_removals b bs)))) (\<lambda>in_traf.
     rs_bind (rs_gets (\<lambda>b. sum_bind (walked (moof_off + 8) (moof_off + moof_len) b) (\<lambda>bs. Inr (of_kind ''pssh'' bs)))) (\<lambda>in_moof.
       let removed_from_traf = sum_list (map snd in_traf);
           removed_from_moof = removed_from_traf + sum_list (map snd in_moof)
       in if removed_from_moof = 0 then rs_ret ()
          else
            rs_bind (shift_runs removed_from_moof (traf_off + traf_len) (traf_off + 8)) (\<lambda>_.
            rs_bind (shrink_header ''traf header truncated'' traf_off removed_from_traf) (\<lambda>_.
            rs_bind (shrink_header ''moof header truncated'' moof_off removed_from_moof) (\<lambda>_.
            drain_all (by_offset_desc (in_traf @ in_moof)))))))))"

section \<open>The order of removal\<close>

fun descending :: "nat \<Rightarrow> (nat \<times> nat) list \<Rightarrow> bool" where
  "descending hi [] \<longleftrightarrow> True"
| "descending hi ((off, len) # rs) \<longleftrightarrow> off + len \<le> hi \<and> descending off rs"

lemma descending_snoc: "descending hi rs \<Longrightarrow> (\<forall>(off, len) \<in> set rs. m \<le> off) \<Longrightarrow> o' + l' \<le> m \<Longrightarrow> m \<le> hi \<Longrightarrow>
    descending hi (rs @ [(o', l')])"
proof (induction rs arbitrary: hi)
  case (Cons r rs)
  then show ?case by (cases r) auto
qed simp

lemma apart_rev_descending: "apart lo hi rs \<Longrightarrow> descending hi (rev rs)"
proof (induction rs arbitrary: lo)
  case (Cons r rs)
  obtain off len where r: "r = (off, len)" by force
  with Cons.prems have "apart (off + len) hi rs" "off + len \<le> hi" by auto
  then show ?case using Cons.IH apart_inside [of "off + len" hi rs] r
    by (auto intro!: descending_snoc [of _ _ "off + len"])
qed simp

lemma drain_all_descending:
  assumes "descending hi rs" "hi \<le> length b"
  shows "\<exists>b'. drain_all rs b = (Inr (), b') \<and> length b' + sum_list (map snd rs) = length b"
  using assms
proof (induction rs arbitrary: b hi)
  case (Cons r rs)
  obtain off len where r: "r = (off, len)" by force
  let ?b = "take off b @ drop (off + len) b"
  from Cons.prems r have "off + len \<le> length b" "descending off rs" by auto
  moreover from this have "off \<le> length ?b" by simp
  ultimately obtain b' where "drain_all rs ?b = (Inr (), b')" "length b' + sum_list (map snd rs) = length b - len"
    using Cons.IH [of off ?b] by auto
  with r \<open>off + len \<le> length b\<close> show ?case by simp
qed simp

lemma apart_increasing:
  "apart lo hi rs \<Longrightarrow> list_all (\<lambda>r. 0 < snd r) rs \<Longrightarrow> sorted_wrt (<) (map fst rs)"
proof (induction rs arbitrary: lo)
  case (Cons r rs)
  then show ?case by (cases r) (fastforce dest: apart_inside)
qed simp

lemma by_offset_desc_apart:
  assumes "mset rs = mset asc" "apart lo hi asc" "list_all (\<lambda>r. 0 < snd r) asc"
  shows "by_offset_desc rs = rev asc"
  unfolding by_offset_desc_def
proof (rule sort_key_inj_key_eq)
  have inc: "sorted_wrt (<) (map fst asc)" using assms(2,3) by (rule apart_increasing)
  then have "inj_on fst (set asc)" by (simp add: strict_sorted_iff distinct_map)
  then show "inj_on (\<lambda>(off, _). - int off) (set rs)"
    using mset_eq_setD [OF assms(1)] by (simp add: inj_on_def) (metis case_prod_beta of_nat_eq_iff neg_equal_iff_equal)
  have "sorted (map (\<lambda>(off, _). - int off) (rev asc))"
    using inc by (simp add: rev_map [symmetric] sorted_wrt_rev sorted_wrt_map case_prod_beta) (erule sorted_wrt_mono_rel [rotated], simp)
  then show "sorted (map (\<lambda>(off, _). - int off) (rev asc))" .
qed (use assms in simp)

text \<open>What goes out of the \<open>traf\<close> box, in the order of the file.\<close>

definition removed_box :: "bytes \<Rightarrow> placed_box \<Rightarrow> bool" where
  "removed_box b bx \<longleftrightarrow> snd (snd bx) \<in> ascii ` set strip_kinds \<or> is_protection_group b bx"

lemma traf_removals_mset: "mset (traf_removals b bs) = mset (map region (filter (removed_box b) bs))"
proof (induction bs)
  case Nil
  then show ?case by (simp add: traf_removals_def of_kind_def strip_kinds_def)
next
  case (Cons bx bs)
  obtain off len k where bx: "bx = (off, len, k)" using prod_cases3 by blast
  have distinct: "distinct (map ascii (strip_kinds @ [''sgpd'', ''sbgp'']))"
    by (simp add: strip_kinds_def ascii_def)
  show ?case
  proof (cases "k \<in> ascii ` set strip_kinds")
    case True
    then have "\<not> is_protection_group b bx" using distinct by (auto simp: bx is_protection_group_def image_iff)
    with True Cons bx distinct show ?thesis
      by (auto simp: traf_removals_def removed_box_def strip_kinds_def)
  next
    case False
    with Cons bx show ?thesis
      by (auto simp: traf_removals_def removed_box_def strip_kinds_def)
  qed
qed

lemma apart_split:
  "apart lo hi (rs @ (off, len) # ss) \<Longrightarrow> apart lo off rs \<and> lo \<le> off \<and> off + len \<le> hi \<and> apart (off + len) hi ss"
proof (induction rs arbitrary: lo)
  case (Cons r rs)
  then show ?case by (cases r) fastforce
qed simp

lemma find_child_box_walk:
  assumes "find_child_box b lo hi k = Inr (Some (off, len))"
  obtains xs ys over where "walk b (min hi (length b)) lo = (xs @ (off, len, ascii k) # ys, over)" "of_kind k xs = []"
proof -
  obtain bs over where w: "walk b (min hi (length b)) lo = (bs, over)" by force
  with assms obtain rest where "of_kind k bs = (off, len) # rest"
    by (auto simp: find_child_box_def split: list.splits if_splits)
  then obtain bx ts where f: "filter (\<lambda>(_, _, k'). k' = ascii k) bs = bx # ts" and bx: "region bx = (off, len)"
    by (auto simp: of_kind_def)
  from f obtain xs ys where "bs = xs @ bx # ys" "filter (\<lambda>(_, _, k'). k' = ascii k) xs = []" "(\<lambda>(_, _, k'). k' = ascii k) bx"
    by (auto simp: filter_eq_Cons_iff filter_empty_conv)
  moreover from this bx have "bx = (off, len, ascii k)" by auto
  ultimately show ?thesis using that w by (simp add: of_kind_def)
qed

text \<open>All removals in the order of the file; the code removes them from the last to the first.\<close>

definition removals :: "bytes \<Rightarrow> placed_box list \<Rightarrow> placed_box list \<Rightarrow> placed_box list \<Rightarrow> (nat \<times> nat) list" where
  "removals b xs bs ys = of_kind ''pssh'' xs @ map region (filter (removed_box b) bs) @ of_kind ''pssh'' ys"

lemma of_kind_all: "list_all (\<lambda>bx. P (region bx)) bs \<Longrightarrow> list_all P (of_kind k bs)"
  by (induction bs) (auto simp: of_kind_def)

lemma region_filter_all: "list_all (\<lambda>bx. P (region bx)) bs \<Longrightarrow> list_all P (map region (filter Q bs))"
  by (induction bs) auto

lemma removal_order:
  assumes moof: "apart lo hi (map region (xs @ (off, len, ascii ''traf'') # ys))"
    and traf: "apart (off + 8) (off + len) (map region bs)"
    and long: "list_all (\<lambda>bx. 8 \<le> snd (region bx)) (xs @ ys @ bs)"
  shows "apart lo hi (removals b xs bs ys)"
    and "by_offset_desc (traf_removals b bs @ of_kind ''pssh'' (xs @ (off, len, ascii ''traf'') # ys)) = rev (removals b xs bs ys)"
proof -
  from moof have place: "apart lo off (map region xs)" "lo \<le> off" "off + len \<le> hi" "apart (off + len) hi (map region ys)"
    using apart_split [of lo hi "map region xs" off len "map region ys"] by simp_all
  have "apart off (off + len) (map region (filter (removed_box b) bs))"
    by (rule apart_weaken [OF apart_filter [OF traf]]) simp_all
  with place show ap: "apart lo hi (removals b xs bs ys)"
    unfolding removals_def by (intro apart_append [of lo off] apart_append [of off "off + len"] of_kind_apart) simp_all
  have "mset (traf_removals b bs @ of_kind ''pssh'' (xs @ (off, len, ascii ''traf'') # ys)) = mset (removals b xs bs ys)"
    by (simp add: removals_def traf_removals_mset of_kind_append ascii_def)
  moreover have "list_all (\<lambda>r. 0 < snd r) (removals b xs bs ys)"
  proof -
    have "list_all (\<lambda>bx. 0 < snd (region bx)) (xs @ ys @ bs)" using long by (rule list.pred_mono_strong) (erule less_le_trans [rotated], simp)
    then show ?thesis
      by (simp add: removals_def of_kind_all [where P = "\<lambda>r. 0 < snd r"] region_filter_all [where P = "\<lambda>r. 0 < snd r"])
  qed
  ultimately show "by_offset_desc (traf_removals b bs @ of_kind ''pssh'' (xs @ (off, len, ascii ''traf'') # ys)) =
      rev (removals b xs bs ys)"
    using ap by (intro by_offset_desc_apart)
qed

section \<open>No input makes it panic\<close>

lemma shift_runs_length: "shift_runs removed limit cur b = (r, b') \<Longrightarrow> length b' = length b \<and> r \<noteq> Inl Panics"
proof (induction removed limit cur b rule: shift_runs.induct)
  case (1 removed limit cur b)
  show ?case
  proof (cases "cur + 8 > limit \<or> read_box_header b cur = None")
    case True
    with "1.prems" show ?thesis by (subst (asm) shift_runs.simps) (auto split: if_splits)
  next
    case False
    then obtain len k h where hd: "read_box_header b cur = Some (len, k, h)" by (cases "read_box_header b cur") auto
    let ?b = "if k = ascii ''trun'' then write_u32_be b (cur + 16) (sub32 (read_u32_be b (cur + 16)) removed) else b"
    show ?thesis
    proof (cases "len < 8 \<or> k = ascii ''trun'' \<and> cur + 20 > length b")
      case True
      with "1.prems" False hd show ?thesis by (subst (asm) shift_runs.simps) (auto split: if_splits)
    next
      case go: False
      then have "length ?b = length b" by (auto simp: write_u32_be_def)
      moreover have "\<not> 2 ^ 64 \<le> cur + len \<and> shift_runs removed limit (cur + len) ?b = (r, b') \<or> r = Inl Overflows \<and> b' = ?b"
        using "1.prems" False hd go by (subst (asm) shift_runs.simps) (auto simp: Let_def split: if_splits)
      ultimately show ?thesis using "1.IH" [of "(len, k, h)" len "(k, h)" k h ?b] False hd go by (auto split: if_splits)
    qed
  qed
qed

lemma shrink_header_length: "shrink_header m off removed b = (r, b') \<Longrightarrow> length b' = length b \<and> r \<noteq> Inl Panics"
  by (auto simp: shrink_header_def write_u32_be_def split: if_splits)

lemma require_box_cases:
  "require_box m look b = (case look b of Inl e \<Rightarrow> Inl e | Inr None \<Rightarrow> Inl (Fails m) | Inr (Some a) \<Rightarrow> Inr a, b)"
  by (simp add: require_box_def rs_bind_def rs_gets_def rs_fail_def rs_ret_def split: sum.splits option.splits)

lemma find_child_box_no_panic: "find_child_box b lo hi k \<noteq> Inl Panics"
  by (auto simp: find_child_box_def split: prod.splits list.splits if_splits)

lemma walked_no_panic: "walked lo hi b \<noteq> Inl Panics"
  by (auto simp: walked_def split: prod.splits if_splits)

lemma rewrite_safe:
  assumes "descending (length b) rs"
  shows "case rs_bind (shift_runs n limit cur) (\<lambda>_. rs_bind (shrink_header m1 o1 n1) (\<lambda>_. rs_bind (shrink_header m2 o2 n2)
      (\<lambda>_. drain_all rs))) b of (r, b') \<Rightarrow> r \<noteq> Inl Panics \<and> length b' \<le> length b"
proof -
  obtain r1 b1 where 1: "shift_runs n limit cur b = (r1, b1)" by force
  obtain r2 b2 where 2: "shrink_header m1 o1 n1 b1 = (r2, b2)" by force
  obtain r3 b3 where 3: "shrink_header m2 o2 n2 b2 = (r3, b3)" by force
  note ok = shift_runs_length [OF 1] shrink_header_length [OF 2] shrink_header_length [OF 3]
  then obtain b4 where "drain_all rs b3 = (Inr (), b4)" "length b4 + sum_list (map snd rs) = length b3"
    using drain_all_descending [OF assms, of b3] by auto
  with 1 2 3 ok show ?thesis by (cases r1; cases r2; cases r3) (auto simp: rs_bind_def)
qed

lemma strip_unfold:
  assumes "find_child_box b 0 (length b) ''moof'' = Inr (Some (m, ml))" "find_child_box b (m + 8) (m + ml) ''traf'' = Inr (Some (t, tlen))"
    "walk b (m + ml) (m + 8) = (bsm, False)" "walk b (t + tlen) (t + 8) = (bs, False)"
  shows "strip_encryption_boxes b = (let n1 = sum_list (map snd (traf_removals b bs)); n = n1 + sum_list (map snd (of_kind ''pssh'' bsm)) in
      if n = 0 then (Inr (), b) else
      rs_bind (shift_runs n (t + tlen) (t + 8)) (\<lambda>_. rs_bind (shrink_header ''traf header truncated'' t n1)
        (\<lambda>_. rs_bind (shrink_header ''moof header truncated'' m n)
        (\<lambda>_. drain_all (by_offset_desc (traf_removals b bs @ of_kind ''pssh'' bsm))))) b)"
  using assms
  by (simp add: strip_encryption_boxes_def rs_bind_def [of "require_box _ _"] rs_bind_def [of "rs_gets _"] require_box_cases rs_gets_def
      walked_def sum_bind_def Let_def rs_ret_def)

text \<open>
  A run in which no box ends past the 64-bit range never slices or drains out of range, and never makes the fragment longer. A
  run in which one does ends here as \<open>Overflows\<close>; the release build goes on behind the wrapped offset, and what it does then is
  not modelled: it may take such a box for removal and drain a range whose end is before its start.
\<close>

theorem strip_never_panics:
  "case strip_encryption_boxes b of (r, b') \<Rightarrow> r \<noteq> Inl Panics \<and> length b' \<le> length b"
proof (cases "\<exists>moof traf. find_child_box b 0 (length b) ''moof'' = Inr (Some moof) \<and>
    find_child_box b (fst moof + 8) (fst moof + snd moof) ''traf'' = Inr (Some traf)")
  case False
  then show ?thesis using find_child_box_no_panic
    by (auto simp: strip_encryption_boxes_def rs_bind_def require_box_cases split: sum.splits option.splits)
next
  case True
  then obtain m ml t tl where m: "find_child_box b 0 (length b) ''moof'' = Inr (Some (m, ml))"
    and t: "find_child_box b (m + 8) (m + ml) ''traf'' = Inr (Some (t, tl))" by auto
  note inside = find_child_box_inside [OF m] find_child_box_inside [OF t]
  then have "min (m + ml) (length b) = m + ml" by simp
  with find_child_box_walk [OF t] obtain xs ys over where
    w: "walk b (m + ml) (m + 8) = (xs @ (t, tl, ascii ''traf'') # ys, over)" by metis
  obtain bs over' where v: "walk b (t + tl) (t + 8) = (bs, over')" by force
  have "apart (m + 8) (m + ml) (map region (xs @ (t, tl, ascii ''traf'') # ys))"
    using walk_apart [of "m + 8" "m + ml" b] w by simp
  moreover have "apart (t + 8) (t + tl) (map region bs)" using walk_apart [of "t + 8" "t + tl" b] v by simp
  moreover have "list_all (\<lambda>bx. 8 \<le> snd (region bx)) (xs @ ys @ bs)"
    using walk_long [of _ _ _ b "m + ml" "m + 8"] walk_long [of _ _ _ b "t + tl" "t + 8"] w v
    by (fastforce simp: list_all_iff)
  ultimately have order: "apart (m + 8) (m + ml) (removals b xs bs ys)"
    "by_offset_desc (traf_removals b bs @ of_kind ''pssh'' (xs @ (t, tl, ascii ''traf'') # ys)) = rev (removals b xs bs ys)"
    using removal_order by blast+
  have desc: "descending (length b) (rev (removals b xs bs ys))"
    using apart_weaken [OF order(1), of 0 "length b"] inside by (intro apart_rev_descending) simp
  show ?thesis
  proof (cases "over \<or> over'")
    case True
    with m t w v show ?thesis
      by (auto simp: strip_encryption_boxes_def rs_bind_def require_box_cases rs_gets_def walked_def sum_bind_def Let_def)
  next
    case False
    from False w v have "walk b (m + ml) (m + 8) = (xs @ (t, tl, ascii ''traf'') # ys, False)" "walk b (t + tl) (t + 8) = (bs, False)"
      by simp_all
    from strip_unfold [OF m t this] show ?thesis using rewrite_safe [OF desc] by (simp add: Let_def order(2))
  qed
qed

section \<open>What stripping means\<close>

text \<open>The regions of the boxes that satisfy a predicate, when the boxes are laid out from an offset on.\<close>

fun regions_of :: "(box \<Rightarrow> bool) \<Rightarrow> nat \<Rightarrow> box list \<Rightarrow> (nat \<times> nat) list" where
  "regions_of P off [] = []"
| "regions_of P off (bx # bxs) = (if P bx then [(off, box_len bx)] else []) @ regions_of P (off + box_len bx) bxs"

lemma of_kind_placed: "of_kind k (placed off bxs) = regions_of (\<lambda>bx. fst bx = ascii k) off bxs"
  by (induction bxs arbitrary: off) (simp_all, simp add: of_kind_def)

lemma regions_of_map:
  assumes "list_all (\<lambda>bx. box_len (f bx) = box_len bx \<and> P (f bx) = P bx) bxs"
  shows "regions_of P off (map f bxs) = regions_of P off bxs"
  using assms by (induction bxs arbitrary: off) simp_all

lemma sum_regions_of: "sum_list (map snd (regions_of P off bxs)) = boxes_len (filter P bxs)"
  by (induction bxs arbitrary: off) simp_all

lemma drain_all_append:
  "drain_all (rs @ ss) b = (case drain_all rs b of (Inl e, b') \<Rightarrow> (Inl e, b') | (Inr _, b') \<Rightarrow> drain_all ss b')"
  by (induction rs b rule: drain_all.induct) auto

lemma drain_regions:
  assumes "list_all box_ok bxs" "off = length pre"
  shows "drain_all (rev (regions_of P off bxs)) (pre @ boxes_of bxs @ post) = (Inr (), pre @ boxes_of (filter (\<lambda>bx. \<not> P bx) bxs) @ post)"
  using assms
proof (induction bxs arbitrary: pre off)
  case (Cons bx bxs)
  have ok: "box_ok bx" using Cons.prems by simp
  have "drain_all (rev (regions_of P (off + box_len bx) bxs)) ((pre @ box_of bx) @ boxes_of bxs @ post) =
      (Inr (), (pre @ box_of bx) @ boxes_of (filter (\<lambda>bx. \<not> P bx) bxs) @ post)"
    using Cons.prems length_box_of [OF ok] by (intro Cons.IH) simp_all
  then show ?case using length_box_of [OF ok] Cons.prems by (simp add: drain_all_append)
qed simp

text \<open>A run with its data offset moved by the bytes removed before the sample data.\<close>

definition shift_run :: "nat \<Rightarrow> box \<Rightarrow> box" where
  "shift_run n bx =
     (if fst bx = ascii ''trun''
      then (fst bx, take 8 (snd bx) @ to_be 4 (sub32 (be_nat (bytes_at (snd bx) 8 4)) n) @ drop 12 (snd bx)) else bx)"

definition run_ok :: "box \<Rightarrow> bool" where
  "run_ok bx \<longleftrightarrow> fst bx \<noteq> ascii ''trun'' \<or> 12 \<le> length (snd bx)"

lemma shift_run_len: "run_ok bx \<Longrightarrow> length (snd (shift_run n bx)) = length (snd bx)" and fst_shift_run [simp]: "fst (shift_run n bx) = fst bx"
  by (auto simp: shift_run_def run_ok_def)

lemma shift_run_ok: "run_ok bx \<Longrightarrow> box_ok bx \<Longrightarrow> box_ok (shift_run n bx)"
  using shift_run_len [of bx n] by (simp add: box_ok_def)

lemma write_run:
  assumes "fst bx = ascii ''trun''" "run_ok bx" "box_ok bx"
  shows "write_u32_be (pre @ box_of bx @ post) (length pre + 16) (sub32 (read_u32_be (pre @ box_of bx @ post) (length pre + 16)) n) =
    pre @ box_of (shift_run n bx) @ post"
proof -
  have len: "12 \<le> length (snd bx)" "length (fst bx) = 4" using assms by (simp_all add: run_ok_def box_ok_def)
  then have "read_u32_be (pre @ box_of bx @ post) (length pre + 16) = be_nat (bytes_at (snd bx) 8 4)"
    by (simp add: read_u32_be_def bytes_at_def box_of_def)
  moreover have "box_of (shift_run n bx) = to_be 4 (box_len bx) @ fst bx @ snd (shift_run n bx)"
    using shift_run_len [OF assms(2), of n] by (simp add: box_of_def)
  ultimately show ?thesis using assms(1) len
    by (simp add: write_u32_be_def overwrite_def box_of_def shift_run_def)
qed

lemma shift_runs_boxes:
  assumes "list_all box_ok bxs" "list_all run_ok bxs" "limit = length pre + boxes_len bxs" "limit < 2 ^ 64"
  shows "shift_runs n limit (length pre) (pre @ boxes_of bxs @ post) = (Inr (), pre @ boxes_of (map (shift_run n) bxs) @ post)"
  using assms
proof (induction bxs arbitrary: pre)
  case Nil
  then show ?case by (simp add: shift_runs.simps)
next
  case (Cons bx bxs)
  have ok: "box_ok bx" "run_ok bx" using Cons.prems by simp_all
  have len: "length (box_of (shift_run n bx)) = box_len bx"
    using length_box_of [OF shift_run_ok [OF ok(2,1)]] shift_run_len [OF ok(2)] by simp
  have "shift_runs n limit (length (pre @ box_of (shift_run n bx))) ((pre @ box_of (shift_run n bx)) @ boxes_of bxs @ post) =
      (Inr (), (pre @ box_of (shift_run n bx)) @ boxes_of (map (shift_run n) bxs) @ post)"
    using Cons.prems len by (intro Cons.IH) simp_all
  moreover have "shift_runs n limit (length pre) (pre @ boxes_of (bx # bxs) @ post) =
      shift_runs n limit (length pre + box_len bx) (pre @ box_of (shift_run n bx) @ boxes_of bxs @ post)"
  proof -
    have "length pre + 20 \<le> length (pre @ box_of bx @ boxes_of bxs @ post)" if "fst bx = ascii ''trun''"
      using that ok length_box_of [OF ok(1)] by (simp add: run_ok_def)
    moreover have "\<not> limit < length pre + 8" "\<not> 2 ^ 64 \<le> length pre + box_len bx" using Cons.prems by simp_all
    moreover have "shift_run n bx = bx" if "fst bx \<noteq> ascii ''trun''" using that by (simp add: shift_run_def)
    ultimately show ?thesis
      using read_box_header_box [OF ok(1), of pre "boxes_of bxs @ post"] write_run [OF _ ok(2,1), of pre "boxes_of bxs @ post" n]
      by (subst shift_runs.simps) (auto simp: Let_def)
  qed
  ultimately show ?case using len by simp
qed

text \<open>The boxes that describe the protection of samples; a grouping box names its grouping type after four bytes.\<close>

definition protection :: "box \<Rightarrow> bool" where
  "protection bx \<longleftrightarrow> fst bx \<in> ascii ` set strip_kinds \<or>
     (fst bx = ascii ''sgpd'' \<or> fst bx = ascii ''sbgp'') \<and>
     (bytes_at (snd bx) 4 4 = ascii ''seam'' \<or> bytes_at (snd bx) 4 4 = ascii ''seig'')"

definition group_ok :: "box \<Rightarrow> bool" where
  "group_ok bx \<longleftrightarrow> (fst bx \<noteq> ascii ''sgpd'' \<and> fst bx \<noteq> ascii ''sbgp'') \<or> 8 \<le> length (snd bx)"

definition is_pssh :: "box \<Rightarrow> bool" where
  "is_pssh bx \<longleftrightarrow> fst bx = ascii ''pssh''"

definition removed_in_traf :: "layout \<Rightarrow> nat" where
  "removed_in_traf F = boxes_len (filter protection (la_traf F))"

definition removed_in_moof :: "layout \<Rightarrow> nat" where
  "removed_in_moof F = removed_in_traf F + boxes_len (filter is_pssh (la_moof_before F @ la_moof_after F))"

definition strip_layout :: "layout \<Rightarrow> layout" where
  "strip_layout F =
     (if removed_in_moof F = 0 then F
      else F\<lparr>la_moof_before := filter (\<lambda>bx. \<not> is_pssh bx) (la_moof_before F),
             la_traf := map (shift_run (removed_in_moof F)) (filter (\<lambda>bx. \<not> protection bx) (la_traf F)),
             la_moof_after := filter (\<lambda>bx. \<not> is_pssh bx) (la_moof_after F)\<rparr>)"

lemma removed_box_placed:
  assumes "list_all box_ok bxs" "list_all group_ok bxs" "off = length pre"
  shows "map region (filter (removed_box (pre @ boxes_of bxs @ post)) (placed off bxs)) = regions_of protection off bxs"
  using assms
proof (induction bxs arbitrary: pre off)
  case (Cons bx bxs)
  have ok: "box_ok bx" "group_ok bx" using Cons.prems by simp_all
  let ?b = "pre @ boxes_of (bx # bxs) @ post"
  have "map region (filter (removed_box ((pre @ box_of bx) @ boxes_of bxs @ post)) (placed (off + box_len bx) bxs)) =
      regions_of protection (off + box_len bx) bxs"
    using Cons.prems length_box_of [OF ok(1)] by (intro Cons.IH) simp_all
  moreover have "removed_box ?b (off, box_len bx, fst bx) = protection bx"
  proof (cases "fst bx = ascii ''sgpd'' \<or> fst bx = ascii ''sbgp''")
    case True
    with ok have len: "8 \<le> length (snd bx)" "length (fst bx) = 4" by (auto simp: group_ok_def box_ok_def)
    then have "bytes_at ?b (off + 12) 4 = bytes_at (snd bx) 4 4" using Cons.prems(3) by (simp add: bytes_at_def box_of_def)
    with True len Cons.prems(3) length_box_of [OF ok(1)] show ?thesis
      by (simp add: removed_box_def protection_def is_protection_group_def)
  next
    case False
    then show ?thesis by (auto simp: removed_box_def protection_def is_protection_group_def)
  qed
  ultimately show ?case by simp
qed simp

lemma sub32_diff: "k \<le> n \<Longrightarrow> n < 2 ^ 32 \<Longrightarrow> sub32 n k = n - k"
  by (simp add: sub32_def of_nat_diff [symmetric] zmod_int [symmetric] del: of_nat_diff)

lemma shrink_header_at:
  assumes "k \<le> len" "len < 2 ^ 32" "length pre = off"
  shows "shrink_header m off k (pre @ to_be 4 len @ post) = (Inr (), pre @ to_be 4 (len - k) @ post)"
proof -
  have "read_u32_be (pre @ to_be 4 len @ post) off = len"
    using assms by (simp add: read_u32_be_def bytes_at_def be_nat_to_be)
  with assms show ?thesis by (simp add: shrink_header_def sub32_diff write_u32_be_def overwrite_def)
qed

lemma boxes_len_filter: "boxes_len (filter P bxs) + boxes_len (filter (\<lambda>bx. \<not> P bx) bxs) = boxes_len bxs"
  by (induction bxs) auto

lemma protection_shift [simp]: "protection (shift_run n bx) = protection bx"
  by (auto simp: protection_def shift_run_def strip_kinds_def ascii_def)

text \<open>The bytes that \<open>strip_encryption_boxes\<close> removes from a layout, in the order of the file.\<close>

definition strip_regions :: "layout \<Rightarrow> (nat \<times> nat) list" where
  "strip_regions F = regions_of is_pssh (moof_off F + 8) (la_moof_before F) @ regions_of protection (traf_off F + 8) (la_traf F) @
     regions_of is_pssh (traf_off F + box_len (traf_of F)) (la_moof_after F)"

lemma sum_snd_mset: "mset rs = mset ss \<Longrightarrow> sum_list (map snd rs) = sum_list (map snd (ss :: (nat \<times> nat) list))"
  by (subst (1 2) sum_mset_sum_list [symmetric]) simp

lemma strip_program:
  assumes ok: "layout_ok F" and groups: "list_all group_ok (la_traf F)"
  shows "strip_encryption_boxes (encode_layout F) =
    (if removed_in_moof F = 0 then (Inr (), encode_layout F)
     else rs_bind (shift_runs (removed_in_moof F) (traf_off F + box_len (traf_of F)) (traf_off F + 8))
       (\<lambda>_. rs_bind (shrink_header ''traf header truncated'' (traf_off F) (removed_in_traf F))
       (\<lambda>_. rs_bind (shrink_header ''moof header truncated'' (moof_off F) (removed_in_moof F))
       (\<lambda>_. drain_all (rev (strip_regions F))))) (encode_layout F))"
proof -
  let ?b = "encode_layout F"
  let ?xs = "placed (moof_off F + 8) (la_moof_before F)" and ?bs = "placed (traf_off F + 8) (la_traf F)"
    and ?ys = "placed (traf_off F + box_len (traf_of F)) (la_moof_after F)"
  let ?t = "(traf_off F, box_len (traf_of F), ascii ''traf'')"
  have kind: "fst (traf_of F) = ascii ''traf''" by (simp add: traf_of_def)
  have w: "walk ?b (moof_off F + box_len (moof_of F)) (moof_off F + 8) = (?xs @ ?t # ?ys, False)"
    using layout_walk_moof [OF ok] kind by (simp add: placed_append traf_off_def add.assoc)
  have v: "walk ?b (traf_off F + box_len (traf_of F)) (traf_off F + 8) = (?bs, False)"
    using layout_walk_traf [OF ok] .
  have inner: "map region (filter (removed_box ?b) ?bs) = regions_of protection (traf_off F + 8) (la_traf F)"
    using removed_box_placed [of "la_traf F" "traf_off F + 8" "traf_pre F (box_len (moof_of F)) (box_len (traf_of F))"
        "boxes_of (la_moof_after F) @ la_rest F"] ok groups layout_lengths(2) [OF ok]
    by (simp add: layout_ok_def encode_layout_traf)
  then have regions: "removals ?b ?xs ?bs ?ys = strip_regions F"
    by (simp add: removals_def strip_regions_def of_kind_placed is_pssh_def [abs_def])
  have order: "by_offset_desc (traf_removals ?b ?bs @ of_kind ''pssh'' (?xs @ ?t # ?ys)) = rev (strip_regions F)"
  proof -
    have "apart (moof_off F + 8) (moof_off F + box_len (moof_of F)) (map region (?xs @ ?t # ?ys))"
      using walk_apart [of "moof_off F + 8" "moof_off F + box_len (moof_of F)" ?b] w by simp
    moreover have "apart (traf_off F + 8) (traf_off F + box_len (traf_of F)) (map region ?bs)"
      using walk_apart [of "traf_off F + 8" "traf_off F + box_len (traf_of F)" ?b] v by simp
    moreover have "list_all (\<lambda>bx. 8 \<le> snd (region bx)) (placed off bxs)" for off bxs
      by (induction bxs arbitrary: off) simp_all
    ultimately show ?thesis using removal_order(2) [of _ _ ?xs "traf_off F" "box_len (traf_of F)" ?ys ?bs ?b] regions by simp
  qed
  have in_traf: "sum_list (map snd (traf_removals ?b ?bs)) = removed_in_traf F"
  proof -
    have "sum_list (map snd (traf_removals ?b ?bs)) = sum_list (map snd (map region (filter (removed_box ?b) ?bs)))"
      by (rule sum_snd_mset [OF traf_removals_mset])
    then show ?thesis by (simp only: inner sum_regions_of removed_in_traf_def)
  qed
  have in_moof: "sum_list (map snd (of_kind ''pssh'' (?xs @ ?t # ?ys))) = boxes_len (filter is_pssh (la_moof_before F @ la_moof_after F))"
    by (simp add: of_kind_append of_kind_placed sum_regions_of is_pssh_def [abs_def] ascii_def)
  show ?thesis
    unfolding strip_unfold [OF layout_find_moof [OF ok] layout_find_traf [OF ok] w v]
    by (simp only: Let_def in_traf in_moof order removed_in_moof_def)
qed

lemma rs_bind_step: "m s = (Inr a, s') \<Longrightarrow> rs_bind m f s = f a s'"
  by (simp add: rs_bind_def)

text \<open>The headers of a layout with the given sizes around the given children.\<close>

definition framed :: "layout \<Rightarrow> nat \<Rightarrow> nat \<Rightarrow> box list \<Rightarrow> box list \<Rightarrow> box list \<Rightarrow> bytes" where
  "framed F m t xs bxs ys = boxes_of (la_before F) @ header_of m ''moof'' @ boxes_of xs @ header_of t ''traf'' @
     boxes_of bxs @ boxes_of ys @ la_rest F"

lemma framed_encode:
  assumes "m = boxes_len xs + boxes_len bxs + boxes_len ys + 16" "t = boxes_len bxs + 8" "list_all box_ok (xs @ bxs @ ys)"
  shows "encode_layout (F\<lparr>la_moof_before := xs, la_traf := bxs, la_moof_after := ys\<rparr>) = framed F m t xs bxs ys"
  using assms
  by (simp add: encode_layout_def framed_def box_of_def [of "moof_of _"] header_of_def)
    (simp add: moof_of_def traf_of_def box_of_def [of "(ascii ''traf'', _)"] length_boxes_of ac_simps)

lemma shrink_framed:
  assumes "n1 \<le> t" "t < 2 ^ 32" "n \<le> m" "m < 2 ^ 32" "length (boxes_of (la_before F)) = o2"
    "o2 + 8 + length (boxes_of xs) = o1"
  shows "shrink_header m1 o1 n1 (framed F m t xs bxs ys) = (Inr (), framed F m (t - n1) xs bxs ys)"
    and "shrink_header m2 o2 n (framed F m t xs bxs ys) = (Inr (), framed F (m - n) t xs bxs ys)"
  using assms shrink_header_at [of n1 t "boxes_of (la_before F) @ header_of m ''moof'' @ boxes_of xs" o1]
    shrink_header_at [of n m "boxes_of (la_before F)" o2]
  by (simp_all add: framed_def header_of_def ascii_def)

lemma drain_framed:
  assumes "list_all box_ok (xs @ bxs @ ys)" "length (boxes_of (la_before F)) = o2"
    "o1 = o2 + 8 + boxes_len xs"
  shows "drain_all (rev (regions_of P (o2 + 8) xs @ regions_of Q (o1 + 8) bxs @ regions_of P (o1 + 8 + boxes_len bxs) ys))
      (framed F m t xs bxs ys) =
    (Inr (), framed F m t (filter (\<lambda>bx. \<not> P bx) xs) (filter (\<lambda>bx. \<not> Q bx) bxs) (filter (\<lambda>bx. \<not> P bx) ys))"
proof -
  let ?ys = "filter (\<lambda>bx. \<not> P bx) ys" and ?bxs = "filter (\<lambda>bx. \<not> Q bx) bxs"
  have ok: "list_all box_ok xs" "list_all box_ok bxs" "list_all box_ok ys" using assms(1) by simp_all
  note len = ok [THEN length_boxes_of]
  let ?pre = "boxes_of (la_before F) @ header_of m ''moof''"
  let ?pre2 = "?pre @ boxes_of xs @ header_of t ''traf''"
  have 1: "drain_all (rev (regions_of P (o1 + 8 + boxes_len bxs) ys)) (framed F m t xs bxs ys) = (Inr (), framed F m t xs bxs ?ys)"
    using drain_regions [OF ok(3), of "o1 + 8 + boxes_len bxs" "?pre2 @ boxes_of bxs" P "la_rest F"] assms len
    by (simp add: framed_def)
  have 2: "drain_all (rev (regions_of Q (o1 + 8) bxs)) (framed F m t xs bxs ?ys) = (Inr (), framed F m t xs ?bxs ?ys)"
    using drain_regions [OF ok(2), of "o1 + 8" ?pre2 Q "boxes_of ?ys @ la_rest F"] assms len by (simp add: framed_def)
  have 3: "drain_all (rev (regions_of P (o2 + 8) xs)) (framed F m t xs ?bxs ?ys) =
      (Inr (), framed F m t (filter (\<lambda>bx. \<not> P bx) xs) ?bxs ?ys)"
    using drain_regions [OF ok(1), of "o2 + 8" ?pre P "header_of t ''traf'' @ boxes_of ?bxs @ boxes_of ?ys @ la_rest F"] assms len
    by (simp add: framed_def)
  from 1 2 3 show ?thesis by (simp add: drain_all_append)
qed

lemma framed_rest:
  assumes "list_all box_ok (la_before F @ xs @ bxs @ ys)" "m = boxes_len xs + boxes_len bxs + boxes_len ys + 16" "m \<le> d"
  shows "drop (moof_off F + d) (framed F m t xs bxs ys) = drop (d - m) (la_rest F)"
proof -
  have "list_all box_ok (la_before F)" "list_all box_ok xs" "list_all box_ok bxs" "list_all box_ok ys" using assms(1) by simp_all
  note len = this [THEN length_boxes_of]
  have "framed F m t xs bxs ys = (boxes_of (la_before F) @ header_of m ''moof'' @ boxes_of xs @ header_of t ''traf'' @
      boxes_of bxs @ boxes_of ys) @ la_rest F" by (simp add: framed_def)
  with len assms(2,3) show ?thesis by (simp add: moof_off_def ac_simps)
qed

lemma encode_layout_rest:
  assumes "layout_ok F" "box_len (moof_of F) \<le> d"
  shows "drop (moof_off F + d) (encode_layout F) = drop (d - box_len (moof_of F)) (la_rest F)"
proof -
  have "length (boxes_of (la_before F)) = moof_off F" "length (box_of (moof_of F)) = box_len (moof_of F)"
    using assms length_boxes_of [of "la_before F"] length_box_of [of "moof_of F"] by (simp_all add: layout_ok_def moof_off_def)
  with assms(2) show ?thesis by (simp add: encode_layout_def)
qed

text \<open>The boxes of the track fragment with their runs lowered, and the boxes that stay.\<close>

abbreviation lowered :: "layout \<Rightarrow> (u8 list \<times> u8 list) list" where
  "lowered F \<equiv> map (shift_run (removed_in_moof F)) (la_traf F)"

abbreviation keep_moof :: "(u8 list \<times> u8 list) list \<Rightarrow> (u8 list \<times> u8 list) list" where
  "keep_moof \<equiv> filter (\<lambda>bx. \<not> is_pssh bx)"

abbreviation keep_traf :: "(u8 list \<times> u8 list) list \<Rightarrow> (u8 list \<times> u8 list) list" where
  "keep_traf \<equiv> filter (\<lambda>bx. \<not> protection bx)"

lemma layout_okD:
  assumes "layout_ok F"
  shows "list_all box_ok (la_before F)" "list_all box_ok (la_moof_before F)" "list_all box_ok (la_moof_after F)" "list_all box_ok (la_traf F)"
    "box_ok (moof_of F)" "box_ok (traf_of F)" "length (encode_layout F) < 2 ^ 64"
  using assms by (simp_all add: layout_ok_def)

lemma lowered_boxes:
  assumes ok: "layout_ok F" and runs: "list_all run_ok (la_traf F)"
  shows "list_all box_ok (lowered F)" "boxes_len (lowered F) = boxes_len (la_traf F)"
    "regions_of protection off (lowered F) = regions_of protection off (la_traf F)"
proof -
  have shifted: "list_all (\<lambda>bx. box_len (shift_run (removed_in_moof F) bx) = box_len bx \<and> box_ok (shift_run (removed_in_moof F) bx)) (la_traf F)"
    using runs layout_okD(4) [OF ok] by (auto simp: list_all_iff shift_run_len shift_run_ok)
  then show "list_all box_ok (lowered F)" "boxes_len (lowered F) = boxes_len (la_traf F)"
    by (simp_all add: list_all_iff list.pred_map o_def cong: map_cong)
  show "regions_of protection off (lowered F) = regions_of protection off (la_traf F)"
    using shifted by (intro regions_of_map) (auto simp: list_all_iff)
qed

lemma kept_boxes_ok:
  assumes "layout_ok F" "list_all run_ok (la_traf F)"
  shows "list_all box_ok (la_before F @ keep_moof (la_moof_before F) @ keep_traf (lowered F) @ keep_moof (la_moof_after F))"
  using layout_okD [OF assms(1)] lowered_boxes(1) [OF assms] by (auto simp: list_all_iff)

lemma stripped_sizes:
  assumes ok: "layout_ok F" and runs: "list_all run_ok (la_traf F)"
  shows "removed_in_traf F \<le> box_len (traf_of F)" "box_len (traf_of F) < 2 ^ 32"
    "removed_in_moof F \<le> box_len (moof_of F)" "box_len (moof_of F) < 2 ^ 32"
    "box_len (moof_of F) - removed_in_moof F =
       boxes_len (keep_moof (la_moof_before F)) + boxes_len (keep_traf (lowered F)) + boxes_len (keep_moof (la_moof_after F)) + 16"
    "box_len (traf_of F) - removed_in_traf F = boxes_len (keep_traf (lowered F)) + 8"
proof -
  note lens = layout_lengths [OF ok]
  have traf: "box_len (traf_of F) = boxes_len (la_traf F) + 8" using lens(5) by simp
  have moof: "box_len (moof_of F) = boxes_len (la_moof_before F) + box_len (traf_of F) + boxes_len (la_moof_after F) + 8"
    using lens(3) by (simp add: traf_off_def)
  have prot: "removed_in_traf F + boxes_len (keep_traf (lowered F)) = boxes_len (la_traf F)"
    using boxes_len_filter [of protection "lowered F"] lowered_boxes(2) [OF ok runs]
      sum_regions_of [of protection 0 "lowered F"] sum_regions_of [of protection 0 "la_traf F"]
    by (simp only: lowered_boxes(3) [OF ok runs] removed_in_traf_def)
  have pssh: "removed_in_moof F = removed_in_traf F + boxes_len (filter is_pssh (la_moof_before F)) + boxes_len (filter is_pssh (la_moof_after F))"
    by (simp add: removed_in_moof_def)
  note parts = boxes_len_filter [of is_pssh "la_moof_before F"] boxes_len_filter [of is_pssh "la_moof_after F"]
  show "removed_in_traf F \<le> box_len (traf_of F)" "removed_in_moof F \<le> box_len (moof_of F)"
    "box_len (traf_of F) - removed_in_traf F = boxes_len (keep_traf (lowered F)) + 8"
    "box_len (moof_of F) - removed_in_moof F =
       boxes_len (keep_moof (la_moof_before F)) + boxes_len (keep_traf (lowered F)) + boxes_len (keep_moof (la_moof_after F)) + 16"
    using traf moof prot pssh parts by linarith+
  show "box_len (traf_of F) < 2 ^ 32" "box_len (moof_of F) < 2 ^ 32" using layout_okD(5,6) [OF ok] by (simp_all add: box_ok_def)
qed

text \<open>The frame of the headers, with the sizes of the stripped fragment or with those it had.\<close>

abbreviation framed_old :: "layout \<Rightarrow> nat \<Rightarrow> nat \<Rightarrow> u8 list" where
  "framed_old F n n1 \<equiv> framed F (box_len (moof_of F) - n) (box_len (traf_of F) - n1) (la_moof_before F) (lowered F) (la_moof_after F)"

lemma lowered_encoding:
  assumes ok: "layout_ok F" and runs: "list_all run_ok (la_traf F)"
  shows "shift_runs (removed_in_moof F) (traf_off F + box_len (traf_of F)) (traf_off F + 8) (encode_layout F) = (Inr (), framed_old F 0 0)"
proof -
  let ?n = "removed_in_moof F" and ?M = "box_len (moof_of F)" and ?T = "box_len (traf_of F)"
  note lens = layout_lengths [OF ok] and oks = layout_okD [OF ok]
  have "shift_runs ?n (traf_off F + ?T) (length (traf_pre F ?M ?T)) (traf_pre F ?M ?T @ boxes_of (la_traf F) @ boxes_of (la_moof_after F) @ la_rest F) =
      (Inr (), traf_pre F ?M ?T @ boxes_of (lowered F) @ boxes_of (la_moof_after F) @ la_rest F)"
    using lens oks by (intro shift_runs_boxes [OF oks(4) runs]) simp_all
  then show ?thesis
    unfolding lens(2) encode_layout_traf by (simp only: framed_def traf_pre_def moof_pre_def append_assoc diff_zero)
qed

lemma shrunk_encoding:
  assumes ok: "layout_ok F" and runs: "list_all run_ok (la_traf F)"
  shows "shrink_header ''traf header truncated'' (traf_off F) (removed_in_traf F) (framed_old F 0 0) = (Inr (), framed_old F 0 (removed_in_traf F))"
    "shrink_header ''moof header truncated'' (moof_off F) (removed_in_moof F) (framed_old F 0 (removed_in_traf F)) =
      (Inr (), framed_old F (removed_in_moof F) (removed_in_traf F))"
proof -
  note small = stripped_sizes(1-4) [OF assms] and before = length_boxes_of [OF layout_okD(1) [OF ok]] length_boxes_of [OF layout_okD(2) [OF ok]]
  show "shrink_header ''traf header truncated'' (traf_off F) (removed_in_traf F) (framed_old F 0 0) = (Inr (), framed_old F 0 (removed_in_traf F))"
    "shrink_header ''moof header truncated'' (moof_off F) (removed_in_moof F) (framed_old F 0 (removed_in_traf F)) =
      (Inr (), framed_old F (removed_in_moof F) (removed_in_traf F))"
    using shrink_framed [OF small, of F "moof_off F" "la_moof_before F" "traf_off F"]
      shrink_framed(2) [of 0 "box_len (traf_of F) - removed_in_traf F" "removed_in_moof F" "box_len (moof_of F)" F "moof_off F" "la_moof_before F" "traf_off F"]
      small before
    by (simp_all add: moof_off_def traf_off_def)
qed

lemma drained_encoding:
  assumes ok: "layout_ok F" and runs: "list_all run_ok (la_traf F)"
  shows "drain_all (rev (strip_regions F)) (framed F M T (la_moof_before F) (lowered F) (la_moof_after F)) =
      (Inr (), framed F M T (keep_moof (la_moof_before F)) (keep_traf (lowered F)) (keep_moof (la_moof_after F)))"
proof -
  note oks = layout_okD [OF ok] and low = lowered_boxes [OF assms]
  have regions: "strip_regions F = regions_of is_pssh (moof_off F + 8) (la_moof_before F) @ regions_of protection (traf_off F + 8) (lowered F) @
      regions_of is_pssh (traf_off F + 8 + boxes_len (lowered F)) (la_moof_after F)"
    by (simp only: strip_regions_def low layout_lengths(5) [OF ok])
  show ?thesis unfolding regions
    using oks low(1) length_boxes_of [OF oks(1)] length_boxes_of [OF oks(2)] by (intro drain_framed) (simp_all add: moof_off_def traf_off_def)
qed

lemma encode_stripped:
  assumes ok: "layout_ok F" and runs: "list_all run_ok (la_traf F)" and some: "removed_in_moof F \<noteq> 0"
  shows "encode_layout (strip_layout F) = framed F (box_len (moof_of F) - removed_in_moof F) (box_len (traf_of F) - removed_in_traf F)
      (keep_moof (la_moof_before F)) (keep_traf (lowered F)) (keep_moof (la_moof_after F))"
proof -
  have "strip_layout F = F\<lparr>la_moof_before := keep_moof (la_moof_before F), la_traf := keep_traf (lowered F), la_moof_after := keep_moof (la_moof_after F)\<rparr>"
    using some by (simp add: strip_layout_def filter_map o_def)
  then show ?thesis using framed_encode [OF stripped_sizes(5,6) [OF ok runs]] kept_boxes_ok [OF ok runs] by simp
qed

text \<open>
  C35: On a well-formed fragment, taking out the protection boxes yields exactly the encoding of the
  fragment without them: every other box and all sample data are kept, the sizes of \<open>traf\<close> and \<open>moof\<close>
  count what is left, and every run's data offset moves with the sample data, so that an offset past the
  fragment header, lowered by the bytes removed, still addresses the same bytes.
\<close>

theorem strip_refines:
  assumes ok: "layout_ok F" and groups: "list_all group_ok (la_traf F)" and runs: "list_all run_ok (la_traf F)"
    and past: "box_len (moof_of F) \<le> d"
  shows "strip_encryption_boxes (encode_layout F) = (Inr (), encode_layout (strip_layout F)) \<and>
    drop (moof_off F + (d - removed_in_moof F)) (encode_layout (strip_layout F)) = drop (moof_off F + d) (encode_layout F)"
proof (cases "removed_in_moof F = 0")
  case True
  then show ?thesis using strip_program [OF ok groups]
    by (simp add: strip_layout_def)
next
  case False
  note stripped = encode_stripped [OF ok runs False]
  have "drop (moof_off F + (d - removed_in_moof F)) (encode_layout (strip_layout F)) = drop (moof_off F + d) (encode_layout F)"
    using framed_rest [OF kept_boxes_ok [OF ok runs] stripped_sizes(5) [OF ok runs], of "d - removed_in_moof F"]
      encode_layout_rest [OF ok past] stripped past stripped_sizes(3) [OF ok runs] by simp
  then show ?thesis
    using False strip_program [OF ok groups] lowered_encoding [OF ok runs] shrunk_encoding [OF ok runs] drained_encoding [OF ok runs] stripped
    by (simp add: rs_bind_step)
qed

text \<open>
  A fragment whose only run has a sample size but no data offset, beside an empty \<open>senc\<close> box: the sample
  of 100 bytes is announced with 92 bytes, because the field after the sample count is lowered
  whether or not the flags of the run say that it is a data offset.
\<close>

definition sizes_only :: "u8 \<Rightarrow> layout" where
  "sizes_only n = \<lparr>la_before = [], la_moof_before = [], la_traf = [(ascii ''trun'', [0, 0, 2, 0, 0, 0, 0, 1, 0, 0, 0, n])],
     la_moof_after = [], la_rest = [7]\<rparr>"

lemma strip_refines_witness:
  "strip_encryption_boxes (encode_layout ((sizes_only 100)\<lparr>la_traf := la_traf (sizes_only 100) @ [(ascii ''senc'', [])]\<rparr>)) =
    (Inr (), encode_layout (sizes_only 92))"
proof -
  let ?F = "(sizes_only 100)\<lparr>la_traf := la_traf (sizes_only 100) @ [(ascii ''senc'', [])]\<rparr>"
  have ok: "layout_ok ?F" "list_all group_ok (la_traf ?F)" "list_all run_ok (la_traf ?F)" "box_len (moof_of ?F) \<le> 44"
    by (simp_all add: layout_ok_def sizes_only_def encode_layout_def moof_of_def traf_of_def box_of_def box_ok_def ascii_def
        group_ok_def run_ok_def)
  have "filter protection (la_traf ?F) = [(ascii ''senc'', [])]" "filter (\<lambda>bx. \<not> protection bx) (la_traf ?F) = la_traf (sizes_only 100)"
    by (simp_all add: sizes_only_def protection_def strip_kinds_def ascii_def)
  moreover have "shift_run 8 (ascii ''trun'', [0, 0, 2, 0, 0, 0, 0, 1, 0, 0, 0, 100]) = (ascii ''trun'', [0, 0, 2, 0, 0, 0, 0, 1, 0, 0, 0, 92])"
    by (simp add: shift_run_def ascii_def bytes_at_def be_nat_def sub32_def to_be_4)
  ultimately have "strip_layout ?F = sizes_only 92"
    by (simp add: strip_layout_def removed_in_moof_def removed_in_traf_def sizes_only_def)
  with strip_refines [OF ok] show ?thesis by simp
qed

end
