(* ===== verification/Track_Sequencer.thy ===== *)
theory Track_Sequencer
  imports Prelude
begin

text \<open>
  \<open>deliver_sequenced\<close> of \<open>crates/engine/src/orchestrator/upload_lane.rs\<close> for the tracks of a job with several
  tracks: upload tasks run concurrently and hand their message over under the index of their track;
  whoever holds the delivery lock copies the messages to the chat in the order of the indices. A task is
  a number; its steps between two awaits are atomic. A registration of \<open>None\<close> lets the sequence pass
  over an index. Indices are \<open>u32\<close> in the code and count the tracks of a job; here they do not wrap.
\<close>

datatype 'e delivery_reply = Sent nat | Preview | SendError 'e

datatype ('m, 'e) seq_result = SeqOk | SeqPreview | SeqFailed 'e

datatype ('m, 'e) seq_phase = AwaitLock | Draining | Sending nat 'm | SeqDone "('m, 'e) seq_result"

record ('m, 'e) sequencer =
  sq_pending :: "nat \<Rightarrow> 'm option option"
  sq_next :: nat
  sq_lock :: "nat option"
  sq_phase :: "nat \<Rightarrow> ('m, 'e) seq_phase option"
  sq_chat :: "(nat \<times> 'm) list"
  sq_first :: "nat option"

definition seq_init :: "('m, 'e) sequencer" where
  "seq_init = \<lparr>sq_pending = Map.empty, sq_next = 1, sq_lock = None, sq_phase = Map.empty, sq_chat = [], sq_first = None\<rparr>"

text \<open>The entry of a call: a task that is not in a call inserts its message and waits for the lock.\<close>

definition in_call :: "('m, 'e) seq_phase option \<Rightarrow> bool" where
  "in_call p = (case p of None \<Rightarrow> False | Some (SeqDone _) \<Rightarrow> False | _ \<Rightarrow> True)"

definition seq_register :: "nat \<Rightarrow> nat \<Rightarrow> 'm option \<Rightarrow> ('m, 'e) sequencer \<Rightarrow> ('m, 'e) sequencer" where
  "seq_register t idx message s =
     (if in_call (sq_phase s t) then s
      else s\<lparr>sq_pending := (sq_pending s)(idx \<mapsto> message), sq_phase := (sq_phase s)(t \<mapsto> AwaitLock)\<rparr>)"

definition seq_acquire :: "nat \<Rightarrow> ('m, 'e) sequencer \<Rightarrow> ('m, 'e) sequencer" where
  "seq_acquire t s =
     (if sq_phase s t = Some AwaitLock \<and> sq_lock s = None
      then s\<lparr>sq_lock := Some t, sq_phase := (sq_phase s)(t \<mapsto> Draining)\<rparr> else s)"

definition seq_leave :: "nat \<Rightarrow> ('m, 'e) seq_result \<Rightarrow> ('m, 'e) sequencer \<Rightarrow> ('m, 'e) sequencer" where
  "seq_leave t r s = s\<lparr>sq_lock := None, sq_phase := (sq_phase s)(t \<mapsto> SeqDone r)\<rparr>"

text \<open>One turn of the loop up to its await: take the entry of the next index.\<close>

definition seq_take :: "nat \<Rightarrow> ('m, 'e) sequencer \<Rightarrow> ('m, 'e) sequencer" where
  "seq_take t s =
     (if sq_phase s t \<noteq> Some Draining then s
      else
        let s' = s\<lparr>sq_pending := (sq_pending s)(sq_next s := None)\<rparr>
        in case sq_pending s (sq_next s) of
             None \<Rightarrow> seq_leave t SeqOk s'
           | Some None \<Rightarrow> s'\<lparr>sq_next := sq_next s + 1\<rparr>
           | Some (Some m) \<Rightarrow> s'\<lparr>sq_phase := (sq_phase s)(t \<mapsto> Sending (sq_next s) m)\<rparr>)"

text \<open>The answer of \<open>deliver_to_chat\<close>: only a message advances the sequence.\<close>

definition seq_reply :: "nat \<Rightarrow> 'e delivery_reply \<Rightarrow> ('m, 'e) sequencer \<Rightarrow> ('m, 'e) sequencer" where
  "seq_reply t r s =
     (case sq_phase s t of
        Some (Sending i m) \<Rightarrow>
          (case r of
             Sent sent_id \<Rightarrow> s\<lparr>sq_chat := sq_chat s @ [(i, m)],
               sq_first := (case sq_first s of None \<Rightarrow> Some sent_id | first \<Rightarrow> first),
               sq_next := sq_next s + 1, sq_phase := (sq_phase s)(t \<mapsto> Draining)\<rparr>
           | Preview \<Rightarrow> seq_leave t SeqPreview s
           | SendError e \<Rightarrow> seq_leave t (SeqFailed e) s)
      | _ \<Rightarrow> s)"

datatype ('m, 'e) seq_event =
  Register nat nat "'m option" | Acquire nat | Take nat | Reply nat "'e delivery_reply"

fun seq_step :: "('m, 'e) sequencer \<Rightarrow> ('m, 'e) seq_event \<Rightarrow> ('m, 'e) sequencer" where
  "seq_step s (Register t idx m) = seq_register t idx m s"
| "seq_step s (Acquire t) = seq_acquire t s"
| "seq_step s (Take t) = seq_take t s"
| "seq_step s (Reply t r) = seq_reply t r s"

definition seq_run :: "('m, 'e) seq_event list \<Rightarrow> ('m, 'e) sequencer" where
  "seq_run es = foldl seq_step seq_init es"

section \<open>Deliveries follow the indices\<close>

text \<open>The registrations an event makes.\<close>

fun registered :: "('m, 'e) seq_event \<Rightarrow> (nat \<times> 'm option) set" where
  "registered (Register t idx m) = {(idx, m)}"
| "registered _ = {}"

definition holds_lock :: "('m, 'e) seq_phase option \<Rightarrow> bool" where
  "holds_lock p = (case p of Some Draining \<Rightarrow> True | Some (Sending _ _) \<Rightarrow> True | _ \<Rightarrow> False)"

definition will_look :: "('m, 'e) seq_phase option \<Rightarrow> bool" where
  "will_look p \<longleftrightarrow> p = Some AwaitLock \<or> p = Some Draining"

definition seq_inv :: "(nat \<times> 'm option) set \<Rightarrow> ('m, 'e) sequencer \<Rightarrow> bool" where
  "seq_inv R s \<longleftrightarrow>
     (\<forall>t. holds_lock (sq_phase s t) \<longleftrightarrow> sq_lock s = Some t) \<and>
     (\<forall>t i m. sq_phase s t = Some (Sending i m) \<longrightarrow> i = sq_next s \<and> (i, Some m) \<in> R) \<and>
     (\<forall>i m. sq_pending s i = Some m \<longrightarrow> (i, m) \<in> R) \<and>
     sorted_wrt (<) (map fst (sq_chat s)) \<and>
     (\<forall>(i, m) \<in> set (sq_chat s). i < sq_next s \<and> (i, Some m) \<in> R) \<and>
     1 \<le> sq_next s \<and> (\<forall>k. 1 \<le> k \<and> k < sq_next s \<longrightarrow> k \<in> fst ` R) \<and>
     (sq_pending s (sq_next s) \<noteq> None \<longrightarrow> (\<exists>t. will_look (sq_phase s t)))"

lemma seq_inv_mono: "seq_inv R s \<Longrightarrow> R \<subseteq> R' \<Longrightarrow> seq_inv R' s"
  unfolding seq_inv_def by (elim conjE, intro conjI) (blast | fastforce)+

lemma seq_inv_passed:
  assumes "seq_inv R s" "(sq_next s, entry) \<in> R" "1 \<le> k" "k < sq_next s + 1"
  shows "k \<in> fst ` R"
proof (cases "k = sq_next s")
  case True
  then show ?thesis using image_eqI [of k fst "(k, entry)" R] assms(2) by simp
next
  case False
  with assms(3,4) have "k < sq_next s" by simp
  with assms(1,3) show ?thesis by (simp add: seq_inv_def)
qed

lemma in_call_cases: "in_call p \<longleftrightarrow> holds_lock p \<or> p = Some AwaitLock"
  by (auto simp: in_call_def holds_lock_def split: option.splits seq_phase.splits)

lemma seq_inv_register:
  assumes "seq_inv R s"
  shows "seq_inv (insert (idx, m) R) (seq_register t idx m s)"
proof (cases "in_call (sq_phase s t)")
  case True
  then show ?thesis using seq_inv_mono [OF assms] by (auto simp: seq_register_def)
next
  case False
  then have "\<not> holds_lock (sq_phase s t)" by (simp add: in_call_cases)
  with False assms show ?thesis
    unfolding seq_inv_def seq_register_def
    by (elim conjE, intro conjI) (auto simp: holds_lock_def will_look_def split: if_splits)
qed

lemma seq_inv_acquire:
  assumes "seq_inv R s"
  shows "seq_inv R (seq_acquire t s)"
  using assms unfolding seq_inv_def seq_acquire_def
  by (elim conjE, intro conjI) (auto simp: holds_lock_def will_look_def split: if_splits)

lemma seq_inv_leave:
  assumes inv: "seq_inv R s" and lock: "sq_lock s = Some t" and empty: "sq_phase s t = Some Draining \<Longrightarrow> sq_pending s (sq_next s) = None"
  shows "seq_inv R (seq_leave t r s)"
proof -
  have holder: "holds_lock (sq_phase s t') \<longleftrightarrow> t' = t" for t' using inv lock by (auto simp: seq_inv_def)
  have "\<exists>t'. will_look (((sq_phase s)(t \<mapsto> SeqDone r)) t')" if next_ready: "sq_pending s (sq_next s) \<noteq> None"
  proof -
    from inv next_ready obtain t' where t': "will_look (sq_phase s t')" by (auto simp: seq_inv_def)
    moreover have "t' \<noteq> t"
    proof
      assume "t' = t"
      with t' holder [of t] empty next_ready show False by (auto simp: will_look_def holds_lock_def)
    qed
    ultimately show ?thesis by (intro exI [of _ t']) simp
  qed
  with inv holder lock show ?thesis
    unfolding seq_inv_def seq_leave_def by (elim conjE, intro conjI) (auto simp: holds_lock_def split: if_splits)
qed

lemma seq_inv_take:
  assumes inv: "seq_inv R s"
  shows "seq_inv R (seq_take t s)"
proof (cases "sq_phase s t = Some Draining")
  case False
  then show ?thesis using inv by (simp add: seq_take_def)
next
  case True
  then have "holds_lock (sq_phase s t)" by (simp add: holds_lock_def)
  with inv have lock: "sq_lock s = Some t" by (auto simp: seq_inv_def)
  have holder: "holds_lock (sq_phase s t') \<longleftrightarrow> t' = t" for t' using inv lock by (auto simp: seq_inv_def)
  show ?thesis
  proof (cases "sq_pending s (sq_next s)")
    case None
    then have "(sq_pending s)(sq_next s := None) = sq_pending s" by auto
    then have "seq_take t s = seq_leave t SeqOk s" using True None by (simp add: seq_take_def)
    then show ?thesis using seq_inv_leave [OF inv lock] None by simp
  next
    case (Some entry)
    with inv have reg: "(sq_next s, entry) \<in> R" by (auto simp: seq_inv_def)
    have not_sending: "sq_phase s t' \<noteq> Some (Sending i m)" for t' i m
      using holder [of t'] True by (auto simp: holds_lock_def)
    show ?thesis
    proof (cases entry)
      case None
      have "\<exists>t'. will_look (sq_phase s t')" using True by (auto simp: will_look_def)
      moreover note seq_inv_passed [OF inv reg]
      ultimately show ?thesis using inv True Some None not_sending
        unfolding seq_inv_def seq_take_def by (elim conjE, intro conjI) (auto split: if_splits)
    next
      case (Some m)
      with \<open>sq_pending s (sq_next s) = Some entry\<close> True inv reg holder lock show ?thesis
        unfolding seq_inv_def seq_take_def by (elim conjE, intro conjI) (auto simp: holds_lock_def split: if_splits)
    qed
  qed
qed

lemma seq_inv_reply:
  assumes inv: "seq_inv R s"
  shows "seq_inv R (seq_reply t r s)"
proof (cases "\<exists>i m. sq_phase s t = Some (Sending i m)")
  case False
  then show ?thesis using inv by (auto simp: seq_reply_def split: option.splits seq_phase.splits)
next
  case True
  then obtain i m where ph: "sq_phase s t = Some (Sending i m)" by blast
  then have "holds_lock (sq_phase s t)" by (simp add: holds_lock_def)
  with inv have lock: "sq_lock s = Some t" by (auto simp: seq_inv_def)
  have holder: "holds_lock (sq_phase s t') \<longleftrightarrow> t' = t" for t' using inv lock by (auto simp: seq_inv_def)
  show ?thesis
  proof (cases r)
    case (Sent n)
    have i: "i = sq_next s" "(i, Some m) \<in> R" using inv ph by (auto simp: seq_inv_def)
    have others: "\<not> holds_lock (sq_phase s t')" if "t' \<noteq> t" for t' using holder [of t'] that by simp
    have quiet: "((sq_phase s)(t \<mapsto> Draining)) t' \<noteq> Some (Sending i' m')" for t' i' m'
      using others [of t'] by (auto simp: holds_lock_def)
    have held: "holds_lock (((sq_phase s)(t \<mapsto> Draining)) t') \<longleftrightarrow> sq_lock s = Some t'" for t'
      using lock others [of t'] by (auto simp: holds_lock_def)
    have below: "i' < sq_next s \<and> (i', Some m') \<in> R" if "(i', m') \<in> set (sq_chat s)" for i' m'
      using inv that by (auto simp: seq_inv_def)
    have "sorted_wrt (<) (map fst (sq_chat s))" using inv by (simp add: seq_inv_def)
    then have ordered: "sorted_wrt (<) (map fst (sq_chat s @ [(i, m)]))"
      using i below by (auto simp: sorted_wrt_append)
    have pending: "(i', m') \<in> R" if "sq_pending s i' = Some m'" for i' m'
      using inv that by (simp add: seq_inv_def)
    have passed: "k \<in> fst ` R" if "1 \<le> k" "k < sq_next s + 1" for k
      using seq_inv_passed [OF inv, of "Some m"] i that by simp
    have looks: "\<exists>t'. will_look (((sq_phase s)(t \<mapsto> Draining)) t')"
      by (intro exI [of _ t]) (simp add: will_look_def)
    have result: "seq_reply t r s = s\<lparr>sq_chat := sq_chat s @ [(i, m)],
        sq_first := (case sq_first s of None \<Rightarrow> Some n | first \<Rightarrow> first),
        sq_next := sq_next s + 1, sq_phase := (sq_phase s)(t \<mapsto> Draining)\<rparr>"
      using Sent ph by (simp add: seq_reply_def)
    have said: "\<forall>(i', m') \<in> set (sq_chat s @ [(i, m)]). i' < sq_next s + 1 \<and> (i', Some m') \<in> R"
      using below i by fastforce
    show ?thesis unfolding result seq_inv_def
      using quiet held ordered pending passed looks said by simp
  next
    case Preview
    then show ?thesis using seq_inv_leave [OF inv lock] ph by (simp add: seq_reply_def)
  next
    case (SendError e)
    then show ?thesis using seq_inv_leave [OF inv lock] ph by (simp add: seq_reply_def)
  qed
qed

definition registrations :: "('m, 'e) seq_event list \<Rightarrow> (nat \<times> 'm option) set" where
  "registrations es = \<Union> (registered ` set es)"

lemma seq_inv_step: "seq_inv R s \<Longrightarrow> seq_inv (R \<union> registered e) (seq_step s e)"
  by (cases e) (simp_all add: seq_inv_register seq_inv_acquire seq_inv_take seq_inv_reply)

lemma seq_inv_run: "seq_inv (registrations es) (seq_run es)"
proof (induction es rule: rev_induct)
  case Nil
  then show ?case by (simp add: seq_inv_def seq_run_def seq_init_def holds_lock_def)
next
  case (snoc e es)
  from seq_inv_step [OF this, of e] show ?case by (simp add: seq_run_def registrations_def Un_commute)
qed

section \<open>Every track is delivered when every track is handed over\<close>

text \<open>
  The tasks, indices and messages of the registrations in their order, and the messages of the indices
  below a bound in the order of the indices.
\<close>

fun handed_over :: "('m, 'e) seq_event \<Rightarrow> (nat \<times> nat \<times> 'm option) list" where
  "handed_over (Register t idx m) = [(t, idx, m)]"
| "handed_over _ = []"

definition hand_overs :: "('m, 'e) seq_event list \<Rightarrow> (nat \<times> nat \<times> 'm option) list" where
  "hand_overs es = concat (map handed_over es)"

definition in_turn :: "(nat \<Rightarrow> 'm option option) \<Rightarrow> nat \<Rightarrow> (nat \<times> 'm) list" where
  "in_turn h n = List.map_filter (\<lambda>i. case h i of Some (Some m) \<Rightarrow> Some (i, m) | _ \<Rightarrow> None) [1..<n]"

lemma in_turn_cong: "(\<And>i. 1 \<le> i \<Longrightarrow> i < n \<Longrightarrow> h i = h' i) \<Longrightarrow> in_turn h n = in_turn h' n"
  unfolding in_turn_def List.map_filter_def by (intro map_cong filter_cong arg_cong [where f = "map _"]) auto

lemma in_turn_Suc:
  "1 \<le> n \<Longrightarrow> in_turn h (Suc n) = in_turn h n @ (case h n of Some (Some m) \<Rightarrow> [(n, m)] | _ \<Rightarrow> [])"
  by (simp add: in_turn_def List.map_filter_def split: option.splits)

definition sending :: "('m, 'e) sequencer \<Rightarrow> bool" where
  "sending s \<longleftrightarrow> (\<exists>t i m. sq_phase s t = Some (Sending i m))"

lemma sending_cong:
  "(\<And>t i m. sq_phase s t = Some (Sending i m) \<longleftrightarrow> sq_phase s' t = Some (Sending i m)) \<Longrightarrow> sending s = sending s'"
  by (simp add: sending_def)

definition seq_full :: "nat set \<Rightarrow> (nat \<Rightarrow> 'm option option) \<Rightarrow> ('m, 'e) sequencer \<Rightarrow> bool" where
  "seq_full T h s \<longleftrightarrow>
     sq_chat s = in_turn h (sq_next s) \<and> 1 \<le> sq_next s \<and>
     (\<forall>k. 1 \<le> k \<and> k < sq_next s \<longrightarrow> h k \<noteq> None) \<and>
     (\<forall>i. sq_pending s i = (if 1 \<le> i \<and> (i < sq_next s \<or> i = sq_next s \<and> sending s) then None else h i)) \<and>
     (\<forall>t i m. sq_phase s t = Some (Sending i m) \<longrightarrow> i = sq_next s \<and> h i = Some (Some m)) \<and>
     (\<forall>t. sq_phase s t \<noteq> None \<longrightarrow> t \<in> T)"

lemma seq_fullD:
  assumes "seq_full T h s"
  shows "sq_chat s = in_turn h (sq_next s)" "1 \<le> sq_next s"
    "\<And>k. 1 \<le> k \<Longrightarrow> k < sq_next s \<Longrightarrow> h k \<noteq> None"
    "\<And>i. sq_pending s i = (if 1 \<le> i \<and> (i < sq_next s \<or> i = sq_next s \<and> sending s) then None else h i)"
    "\<And>t i m. sq_phase s t = Some (Sending i m) \<Longrightarrow> i = sq_next s \<and> h i = Some (Some m)"
    "\<And>t. sq_phase s t \<noteq> None \<Longrightarrow> t \<in> T"
  using assms unfolding seq_full_def by blast+

lemma seq_full_register:
  assumes full: "seq_full T h s" and fresh: "t \<notin> T" "h idx = None"
  shows "seq_full (insert t T) (h(idx \<mapsto> m)) (seq_register t idx m s)"
proof -
  note f = seq_fullD [OF full]
  have phase: "sq_phase s t = None" using f(6) fresh(1) by blast
  have result: "seq_register t idx m s = s\<lparr>sq_pending := (sq_pending s)(idx \<mapsto> m), sq_phase := (sq_phase s)(t \<mapsto> AwaitLock)\<rparr>"
    by (simp add: seq_register_def in_call_def phase)
  have sends: "sending (seq_register t idx m s) = sending s"
    by (rule sending_cong) (use phase in \<open>auto simp: result\<close>)
  have ahead: "\<not> (1 \<le> idx \<and> (idx < sq_next s \<or> idx = sq_next s \<and> sending s))"
    using f(3) [of idx] f(5) fresh(2) by (auto simp: sending_def)
  have "in_turn (h(idx \<mapsto> m)) (sq_next s) = in_turn h (sq_next s)"
    using ahead by (intro in_turn_cong) auto
  moreover have "sq_pending (seq_register t idx m s) i =
      (if 1 \<le> i \<and> (i < sq_next s \<or> i = sq_next s \<and> sending s) then None else (h(idx \<mapsto> m)) i)" for i
    using ahead f(4) [of i] by (auto simp: result)
  ultimately show ?thesis unfolding seq_full_def sends
    using f(1,2,3,5,6) fresh(2) by (auto simp: result split: if_splits)
qed

lemma seq_full_acquire: "seq_full T h s \<Longrightarrow> seq_full T h (seq_acquire t s)"
proof (cases "sq_phase s t = Some AwaitLock \<and> sq_lock s = None")
  case True
  assume full: "seq_full T h s"
  note f = seq_fullD [OF this]
  have result: "seq_acquire t s = s\<lparr>sq_lock := Some t, sq_phase := (sq_phase s)(t \<mapsto> Draining)\<rparr>"
    using True by (simp add: seq_acquire_def)
  have sends: "sending (seq_acquire t s) = sending s" by (rule sending_cong) (use True in \<open>auto simp: result\<close>)
  show ?thesis unfolding seq_full_def sends using f True by (auto simp: result)
qed (auto simp: seq_acquire_def)

lemma seq_full_leave:
  assumes full: "seq_full T h s" and idle: "sq_phase s t = Some Draining"
  shows "seq_full T h (seq_leave t r s)"
proof -
  note f = seq_fullD [OF full]
  have sends: "sending (seq_leave t r s) = sending s" by (rule sending_cong) (use idle in \<open>auto simp: seq_leave_def\<close>)
  show ?thesis unfolding seq_full_def sends using f idle by (auto simp: seq_leave_def)
qed

lemma not_sending_while_draining:
  assumes "seq_inv R s" "sq_phase s t = Some Draining"
  shows "\<not> sending s"
proof -
  have "holds_lock (sq_phase s t)" using assms(2) by (simp add: holds_lock_def)
  with assms(1) have lock: "sq_lock s = Some t" by (auto simp: seq_inv_def)
  have holder: "holds_lock (sq_phase s t') \<longleftrightarrow> t' = t" for t' using assms(1) lock by (auto simp: seq_inv_def)
  have "sq_phase s t' \<noteq> Some (Sending i m)" for t' i m
    using holder [of t'] assms(2) by (auto simp: holds_lock_def)
  then show ?thesis by (simp add: sending_def)
qed

lemma seq_full_take:
  assumes inv: "seq_inv R s" and full: "seq_full T h s"
  shows "seq_full T h (seq_take t s)"
proof (cases "sq_phase s t = Some Draining")
  case False
  then show ?thesis using full by (simp add: seq_take_def)
next
  case True
  note f = seq_fullD [OF full]
  have quiet: "\<not> sending s" using not_sending_while_draining [OF inv True] .
  then have at: "sq_pending s (sq_next s) = h (sq_next s)" using f(4) by simp
  show ?thesis
  proof (cases "h (sq_next s)")
    case None
    then have "(sq_pending s)(sq_next s := None) = sq_pending s" using at by auto
    then have "seq_take t s = seq_leave t SeqOk s" using True None at by (simp add: seq_take_def)
    then show ?thesis using seq_full_leave [OF full True] by simp
  next
    case (Some entry)
    show ?thesis
    proof (cases entry)
      case None
      have result: "seq_take t s = s\<lparr>sq_pending := (sq_pending s)(sq_next s := None), sq_next := sq_next s + 1\<rparr>"
        using True at Some None by (simp add: seq_take_def)
      have sends: "\<not> sending (seq_take t s)" using quiet by (simp add: result sending_def)
      have chat: "in_turn h (sq_next s + 1) = sq_chat s"
        using in_turn_Suc [OF f(2), of h] Some None f(1) by simp
      show ?thesis unfolding seq_full_def using f(2,3,4,6) quiet sends chat Some
        by (auto simp: result less_Suc_eq sending_def)
    next
      case (Some m)
      then have entry: "h (sq_next s) = Some (Some m)" using \<open>h (sq_next s) = Some entry\<close> by simp
      have result: "seq_take t s = s\<lparr>sq_pending := (sq_pending s)(sq_next s := None), sq_phase := (sq_phase s)(t \<mapsto> Sending (sq_next s) m)\<rparr>"
        using True at entry by (simp add: seq_take_def)
      have sends: "sending (seq_take t s)" unfolding sending_def result by (rule exI [of _ t]) simp
      show ?thesis unfolding seq_full_def using f quiet sends entry True
        by (auto simp: result sending_def)
    qed
  qed
qed

lemma seq_full_sent:
  assumes inv: "seq_inv R s" and full: "seq_full T h s"
  shows "seq_full T h (seq_reply t (Sent n) s)"
proof (cases "\<exists>i m. sq_phase s t = Some (Sending i m)")
  case False
  then show ?thesis using full by (auto simp: seq_reply_def split: option.splits seq_phase.splits)
next
  case True
  note f = seq_fullD [OF full]
  from True f(5) obtain m where ph: "sq_phase s t = Some (Sending (sq_next s) m)" and m: "h (sq_next s) = Some (Some m)" by metis
  have result: "seq_reply t (Sent n) s = s\<lparr>sq_chat := sq_chat s @ [(sq_next s, m)],
        sq_first := (case sq_first s of None \<Rightarrow> Some n | first \<Rightarrow> first),
        sq_next := sq_next s + 1, sq_phase := (sq_phase s)(t \<mapsto> Draining)\<rparr>"
    using ph by (simp add: seq_reply_def)
  have sent: "sending s" using ph by (auto simp: sending_def)
  have drains: "sq_phase (seq_reply t (Sent n) s) t = Some Draining" by (simp add: result)
  have sends: "\<not> sending (seq_reply t (Sent n) s)"
    using not_sending_while_draining [OF seq_inv_reply [OF inv, of t "Sent n"] drains] .
  then have quiet: "sq_phase (seq_reply t (Sent n) s) t' \<noteq> Some (Sending i' m')" for t' i' m'
    by (auto simp: sending_def)
  have chat: "in_turn h (sq_next s + 1) = sq_chat s @ [(sq_next s, m)]"
    using in_turn_Suc [OF f(2), of h] m f(1) by simp
  have pending: "sq_pending s i = (if 1 \<le> i \<and> i < sq_next s + 1 then None else h i)" for i
    using f(2) f(4) [of i] sent by auto
  have known: "sq_phase (seq_reply t (Sent n) s) t' \<noteq> None \<Longrightarrow> t' \<in> T" for t'
    using f(6) [of t'] f(6) [of t] ph by (auto simp: result split: if_splits)
  have passed: "h k \<noteq> None" if "1 \<le> k" "k < sq_next s + 1" for k
    using f(3) [of k] m that by (cases "k = sq_next s") auto
  have fields: "sq_chat (seq_reply t (Sent n) s) = sq_chat s @ [(sq_next s, m)]" "sq_next (seq_reply t (Sent n) s) = sq_next s + 1"
      "sq_pending (seq_reply t (Sent n) s) = sq_pending s" by (simp_all add: result)
  show ?thesis unfolding seq_full_def fields
    using sends quiet chat pending known passed by auto
qed

fun delivers :: "('m, 'e) seq_event \<Rightarrow> bool" where
  "delivers (Reply t (Sent n)) = True"
| "delivers (Reply t _) = False"
| "delivers _ = True"

lemma hand_overs_snoc: "hand_overs (es @ [e]) = hand_overs es @ handed_over e"
  by (simp add: hand_overs_def)

lemma seq_full_run:
  assumes "distinct (map fst (hand_overs es))" "distinct (map (fst \<circ> snd) (hand_overs es))" "list_all delivers es"
  shows "seq_full (set (map fst (hand_overs es))) (map_of (map snd (hand_overs es))) (seq_run es)"
  using assms
proof (induction es rule: rev_induct)
  case Nil
  then show ?case by (simp add: seq_full_def seq_run_def seq_init_def hand_overs_def in_turn_def sending_def)
next
  case (snoc e es)
  then have full: "seq_full (set (map fst (hand_overs es))) (map_of (map snd (hand_overs es))) (seq_run es)"
    by (simp add: hand_overs_snoc)
  note inv = seq_inv_run [of es]
  have step: "seq_run (es @ [e']) = seq_step (seq_run es) e'" for e' by (simp add: seq_run_def)
  show ?case
  proof (cases e)
    case (Register t idx m)
    with snoc.prems have fresh: "t \<notin> set (map fst (hand_overs es))" "idx \<notin> set (map (fst \<circ> snd) (hand_overs es))"
      by (simp_all add: hand_overs_snoc)
    then have "map_of (map snd (hand_overs es)) idx = None" by (simp add: map_of_eq_None_iff image_comp)
    moreover from this have "map_of (map snd (hand_overs (es @ [e]))) = (map_of (map snd (hand_overs es)))(idx \<mapsto> m)"
      using Register by (auto simp: hand_overs_snoc map_add_def split: option.splits)
    moreover have "set (map fst (hand_overs (es @ [e]))) = insert t (set (map fst (hand_overs es)))"
      using Register by (simp add: hand_overs_snoc)
    moreover have "seq_run (es @ [e]) = seq_register t idx m (seq_run es)" using Register step by simp
    ultimately show ?thesis using seq_full_register [OF full fresh(1)] by metis
  next
    case (Reply t r)
    with snoc.prems obtain n where "r = Sent n" by (cases r) auto
    then show ?thesis using seq_full_sent [OF inv full] Reply by (simp add: step hand_overs_snoc)
  qed (simp_all add: step hand_overs_snoc seq_full_acquire [OF full, simplified] seq_full_take [OF inv full, simplified])
qed

text \<open>
  C29: However the upload tasks of a job interleave, the chat receives their messages in the order of the
  tracks, each at most once and only as handed over for its track. No message that is next in turn is
  left behind when all calls have ended; and behind an index that no task ever hands over, nothing is
  ever delivered.
\<close>

theorem deliveries_in_order:
  "sorted_wrt (<) (map fst (sq_chat (seq_run es))) \<and>
   (\<forall>(i, m) \<in> set (sq_chat (seq_run es)). (i, Some m) \<in> registrations es) \<and>
   ((\<forall>t. \<not> in_call (sq_phase (seq_run es) t)) \<longrightarrow> sq_pending (seq_run es) (sq_next (seq_run es)) = None) \<and>
   (\<forall>k. 1 \<le> k \<and> k \<notin> fst ` registrations es \<longrightarrow> (\<forall>(i, m) \<in> set (sq_chat (seq_run es)). i < k))"
proof -
  note inv = seq_inv_run [of es, unfolded seq_inv_def]
  have "sq_next (seq_run es) \<le> k" if "1 \<le> k" "k \<notin> fst ` registrations es" for k
    using inv that by (meson not_le)
  moreover have "\<not> will_look (sq_phase (seq_run es) t)" if "\<not> in_call (sq_phase (seq_run es) t)" for t
    using that by (auto simp: in_call_cases will_look_def holds_lock_def)
  ultimately show ?thesis using inv by fastforce
qed

theorem deliveries_in_order_witness:
  "sq_chat (seq_run [Register 2 2 (Some CHR ''b''), Acquire 2, Register 1 1 (Some CHR ''a''), Take 2,
     Reply 2 (Sent 7 :: nat delivery_reply), Take 2, Reply 2 (Sent 8)]) = [(1, CHR ''a''), (2, CHR ''b'')] \<and>
   list_all (\<lambda>(i, m). i < 3) (sq_chat (seq_run [Register 2 2 (Some CHR ''b''), Acquire 2, Register 1 1 (Some CHR ''a''), Take 2,
     Reply 2 (Sent 7 :: nat delivery_reply), Take 2, Reply 2 (Sent 8)]))"
proof -
  let ?es = "[Register 2 2 (Some CHR ''b''), Acquire 2, Register 1 1 (Some CHR ''a''), Take 2,
     Reply 2 (Sent 7 :: nat delivery_reply), Take 2, Reply 2 (Sent 8)]"
  have "(3::nat) \<notin> fst ` registrations ?es" by (simp add: registrations_def)
  then have "\<forall>(i, m) \<in> set (sq_chat (seq_run ?es)). i < 3"
    using deliveries_in_order [of ?es] by (metis one_le_numeral)
  moreover have "sq_chat (seq_run ?es) = [(1, CHR ''a''), (2, CHR ''b'')]" by code_simp
  ultimately show ?thesis by (simp add: list_all_iff)
qed

text \<open>
  C30: When every track of a job is handed over once, with a message or as failed, by a task of its own,
  and every copy to the chat succeeds, then however the tasks interleave the chat has exactly the
  messages of all tracks in the order of the tracks once all calls have ended.
\<close>

theorem sequenced_delivery_complete:
  assumes once: "distinct (map fst (hand_overs es))" "distinct (map (fst \<circ> snd) (hand_overs es))"
    and all: "set (map (fst \<circ> snd) (hand_overs es)) = {1..n}"
    and sent: "list_all delivers es"
    and ended: "\<And>t. \<not> in_call (sq_phase (seq_run es) t)"
  shows "sq_chat (seq_run es) = in_turn (map_of (map snd (hand_overs es))) (n + 1) \<and>
    sq_next (seq_run es) = n + 1"
proof -
  let ?h = "map_of (map snd (hand_overs es))"
  note f = seq_fullD [OF seq_full_run [OF once sent]]
  have dom: "?h k \<noteq> None \<longleftrightarrow> 1 \<le> k \<and> k \<le> n" for k
    using all by (simp add: map_of_eq_None_iff image_comp)
  have idle: "\<not> holds_lock (sq_phase (seq_run es) t)" "\<not> will_look (sq_phase (seq_run es) t)" for t
    using ended [of t] by (auto simp: in_call_cases will_look_def holds_lock_def)
  have "sq_phase (seq_run es) t \<noteq> Some (Sending i m)" for t i m
    using idle(1) [of t] by (auto simp: holds_lock_def)
  then have quiet: "\<not> sending (seq_run es)" by (simp add: sending_def)
  have "sq_pending (seq_run es) (sq_next (seq_run es)) = None"
    using seq_inv_run [of es] idle(2) by (auto simp: seq_inv_def)
  with quiet f(4) [of "sq_next (seq_run es)"] have "?h (sq_next (seq_run es)) = None" by simp
  then have high: "n < sq_next (seq_run es)" using dom f(2) by (metis not_le)
  have "sq_next (seq_run es) \<le> n + 1"
  proof (rule ccontr)
    assume "\<not> ?thesis"
    with f(3) [of "n + 1"] dom [of "n + 1"] show False by simp
  qed
  with high have "sq_next (seq_run es) = n + 1" by simp
  with f(1) show ?thesis by simp
qed

theorem sequenced_delivery_complete_witness:
  "sq_chat (seq_run [Register 2 2 (None :: char option), Acquire 2, Take 2, Register 3 3 (Some CHR ''c''), Register 1 1 (Some CHR ''a''),
     Acquire 1, Take 1, Reply 1 (Sent 7 :: nat delivery_reply), Take 1, Take 1, Reply 1 (Sent 8), Take 1, Acquire 3, Take 3]) =
   [(1, CHR ''a''), (3, CHR ''c'')]"
proof -
  let ?es = "[Register 2 2 (None :: char option), Acquire 2, Take 2, Register 3 3 (Some CHR ''c''), Register 1 1 (Some CHR ''a''),
     Acquire 1, Take 1, Reply 1 (Sent 7 :: nat delivery_reply), Take 1, Take 1, Reply 1 (Sent 8), Take 1, Acquire 3, Take 3]"
  have "sq_phase (seq_run ?es) = [1 \<mapsto> SeqDone SeqOk, 2 \<mapsto> SeqDone SeqOk, 3 \<mapsto> SeqDone SeqOk]"
    by (rule ext) (simp add: seq_run_def seq_init_def seq_register_def seq_acquire_def seq_take_def seq_reply_def seq_leave_def in_call_def)
  then have "\<not> in_call (sq_phase (seq_run ?es) t)" for t by (simp add: in_call_def)
  moreover have "set (map (fst \<circ> snd) (hand_overs ?es)) = {1..3}" by (auto simp: hand_overs_def)
  ultimately have "sq_chat (seq_run ?es) = in_turn (map_of (map snd (hand_overs ?es))) (3 + 1)"
    by (intro sequenced_delivery_complete [THEN conjunct1]) (simp_all add: hand_overs_def)
  also have "\<dots> = [(1, CHR ''a''), (3, CHR ''c'')]" by code_simp
  finally show ?thesis .
qed

text \<open>
  A failed copy loses more than its own track: the entry is removed and the sequence stays at its index,
  while the task whose drain failed passes over its own index only. Here task 1 delivers track 1, fails
  to copy the message of track 2 and then registers track 1 as failed; all four calls end, and track 3
  is never delivered.
\<close>

lemma failed_send_blocks:
  defines "es \<equiv> [Register 1 1 (Some CHR ''a''), Register 2 2 (Some CHR ''b''), Acquire 1, Take 1,
     Reply 1 (Sent 7), Take 1, Reply 1 (SendError ''flood''), Register 1 1 None, Acquire 2, Take 2, Acquire 1, Take 1,
     Register 3 3 (Some CHR ''c''), Acquire 3, Take 3]"
  shows "sq_chat (seq_run es) = [(1, CHR ''a'')]" "sq_next (seq_run es) = 2"
    "sq_pending (seq_run es) 3 = Some (Some CHR ''c'')"
    "list_all (\<lambda>t. sq_phase (seq_run es) t = Some (SeqDone SeqOk)) [1, 2, 3]"
  unfolding es_def by code_simp+

end
