(* ===== verification/Bot_Settings.thy ===== *)
theory Bot_Settings
  imports Prelude
begin

text \<open>
  \<open>crates/core/src/settings.rs\<close>: the runtime settings of the bot, the permissions they grant and the
  lyrics endpoint. The URL parser of the \<open>reqwest\<close> crate is an argument that returns the parts the
  code looks at; serde and the free-form extra fields are outside.
\<close>

datatype ripping_mode = Live | CacheOnly | Paused

fun ripping_mode_as_str :: "ripping_mode \<Rightarrow> string" where
  "ripping_mode_as_str Live = ''live''"
| "ripping_mode_as_str CacheOnly = ''cache_only''"
| "ripping_mode_as_str Paused = ''paused''"

definition RippingMode_parse :: "string \<Rightarrow> ripping_mode option" where
  "RippingMode_parse s =
     (if s = ''live'' then Some Live else if s = ''cache_only'' then Some CacheOnly
      else if s = ''paused'' then Some Paused else None)"

record bot_settings =
  bs_ripping_mode :: ripping_mode
  bs_album_rip_enabled :: bool
  bs_playlist_rip_enabled :: bool
  bs_artist_rip_enabled :: bool
  bs_txt_rip_enabled :: bool
  bs_multi_link_rip_enabled :: bool
  bs_apple_rip_enabled :: bool
  bs_stream_public_url :: "string option"
  bs_stream_server_port :: nat
  bs_default_storefront :: string
  bs_lyricsporn_api_url :: "string option"

definition FALLBACK_STOREFRONT :: string where
  "FALLBACK_STOREFRONT = ''in''"

definition BotSettings_default :: bot_settings where
  "BotSettings_default =
     \<lparr>bs_ripping_mode = Live, bs_album_rip_enabled = True, bs_playlist_rip_enabled = True,
      bs_artist_rip_enabled = True, bs_txt_rip_enabled = True, bs_multi_link_rip_enabled = True,
      bs_apple_rip_enabled = True, bs_stream_public_url = None, bs_stream_server_port = 4444,
      bs_default_storefront = FALLBACK_STOREFRONT, bs_lyricsporn_api_url = None\<rparr>"

definition can_rip_live :: "bot_settings \<Rightarrow> bool \<Rightarrow> bool" where
  "can_rip_live s is_admin = (if is_admin then True else bs_ripping_mode s = Live)"

definition can_rip_apple :: "bot_settings \<Rightarrow> bool \<Rightarrow> bool" where
  "can_rip_apple s is_admin \<longleftrightarrow> is_admin \<or> bs_apple_rip_enabled s"

definition can_serve_cache :: "bot_settings \<Rightarrow> bool \<Rightarrow> bool" where
  "can_serve_cache s is_admin = (if is_admin then True else bs_ripping_mode s \<noteq> Paused)"

definition can_rip_album :: "bot_settings \<Rightarrow> bool \<Rightarrow> bool" where
  "can_rip_album s is_admin \<longleftrightarrow> is_admin \<or> bs_album_rip_enabled s"

definition can_rip_playlist :: "bot_settings \<Rightarrow> bool \<Rightarrow> bool" where
  "can_rip_playlist s is_admin \<longleftrightarrow> is_admin \<or> bs_playlist_rip_enabled s"

definition can_rip_artist :: "bot_settings \<Rightarrow> bool \<Rightarrow> bool" where
  "can_rip_artist s is_admin \<longleftrightarrow> is_admin \<or> bs_artist_rip_enabled s"

definition can_rip_txt :: "bot_settings \<Rightarrow> bool \<Rightarrow> bool" where
  "can_rip_txt s is_admin \<longleftrightarrow> is_admin \<or> bs_txt_rip_enabled s"

definition can_rip_multi_link :: "bot_settings \<Rightarrow> bool \<Rightarrow> bool" where
  "can_rip_multi_link s is_admin \<longleftrightarrow> is_admin \<or> bs_multi_link_rip_enabled s"

definition cycled_mode :: "bot_settings \<Rightarrow> ripping_mode" where
  "cycled_mode s =
     (case bs_ripping_mode s of Live \<Rightarrow> CacheOnly | CacheOnly \<Rightarrow> Paused | Paused \<Rightarrow> Live)"

definition resolve_default_storefront :: "bot_settings \<Rightarrow> string" where
  "resolve_default_storefront s =
     (let trimmed = trim (bs_default_storefront s) in if trimmed = [] then FALLBACK_STOREFRONT else trimmed)"

section \<open>The lyrics endpoint\<close>

record url_parts =
  up_scheme :: string
  up_host :: "string option"
  up_username :: string
  up_password :: "string option"
  up_query :: "string option"
  up_fragment :: "string option"

definition strip_slashes :: "string \<Rightarrow> string" where
  "strip_slashes s = rev (dropWhile (\<lambda>c. c = CHR ''/'') (rev s))"

definition normalize_lyricsporn_api_url :: "(string \<Rightarrow> url_parts option) \<Rightarrow> string \<Rightarrow> string option" where
  "normalize_lyricsporn_api_url parse value =
     (let trimmed = strip_slashes (trim value)
      in case parse trimmed of
           None \<Rightarrow> None
         | Some u \<Rightarrow>
             if up_scheme u \<notin> {''http'', ''https''} \<or> up_host u = None \<or> up_username u \<noteq> [] \<or>
                up_password u \<noteq> None \<or> up_query u \<noteq> None \<or> up_fragment u \<noteq> None
             then None else Some trimmed)"

text \<open>\<open>LyricspornApiEndpoint::set\<close>: whether the value was accepted, and the new content of the cell.\<close>

definition endpoint_set :: "(string \<Rightarrow> url_parts option) \<Rightarrow> string option \<Rightarrow> string option \<Rightarrow> bool \<times> string option" where
  "endpoint_set parse value cell =
     (case value of
        Some v \<Rightarrow>
          (case normalize_lyricsporn_api_url parse v of
             Some u \<Rightarrow> (True, Some u)
           | None \<Rightarrow> (False, cell))
      | None \<Rightarrow> (True, None))"

definition endpoint_new :: "(string \<Rightarrow> url_parts option) \<Rightarrow> string option \<Rightarrow> string option" where
  "endpoint_new parse value = snd (endpoint_set parse value None)"

section \<open>Lemmas\<close>

lemma ripping_mode_roundtrip: "RippingMode_parse s = Some m \<longleftrightarrow> s = ripping_mode_as_str m"
  by (cases m) (auto simp: RippingMode_parse_def)

text \<open>An endpoint that is in use was accepted: it has a web scheme and carries no credentials or query.\<close>

definition endpoint_clean :: "(string \<Rightarrow> url_parts option) \<Rightarrow> string \<Rightarrow> bool" where
  "endpoint_clean parse s \<longleftrightarrow>
     (case parse s of
        Some u \<Rightarrow> up_scheme u \<in> {''http'', ''https''} \<and> up_host u \<noteq> None \<and> up_username u = [] \<and>
          up_password u = None \<and> up_query u = None \<and> up_fragment u = None
      | None \<Rightarrow> False)"

lemma normalize_clean: "normalize_lyricsporn_api_url parse v = Some s \<Longrightarrow> endpoint_clean parse s"
  by (auto simp: normalize_lyricsporn_api_url_def endpoint_clean_def Let_def split: option.splits if_splits)

interpretation lyrics_endpoint: event_machine "endpoint_new parse v0" "\<lambda>cell v. snd (endpoint_set parse v cell)"
  "pred_option (endpoint_clean parse)" for parse v0
  by unfold_locales (auto simp: endpoint_new_def endpoint_set_def split: option.splits dest: normalize_clean)

lemmas endpoint_always_clean = lyrics_endpoint.inv_run

text \<open>Administrators bypass every switch; for everyone else a mode that rips serves the cache too.\<close>

lemma admin_bypass:
  "can_rip_live s True \<and> can_rip_apple s True \<and> can_serve_cache s True \<and> can_rip_album s True \<and>
   can_rip_playlist s True \<and> can_rip_artist s True \<and> can_rip_txt s True \<and> can_rip_multi_link s True"
  by (simp add: can_rip_live_def can_rip_apple_def can_serve_cache_def can_rip_album_def can_rip_playlist_def
      can_rip_artist_def can_rip_txt_def can_rip_multi_link_def)

lemma rip_implies_cache: "can_rip_live s is_admin \<Longrightarrow> can_serve_cache s is_admin"
  by (auto simp: can_rip_live_def can_serve_cache_def split: if_splits)

lemma cycled_mode_period:
  "cycled_mode (s\<lparr>bs_ripping_mode := cycled_mode (s\<lparr>bs_ripping_mode := cycled_mode s\<rparr>)\<rparr>) = bs_ripping_mode s"
  by (cases "bs_ripping_mode s") (simp_all add: cycled_mode_def)

end
