(* ===== verification/Job_World.thy ===== *)
theory Job_World
  imports Job_Helpers Orchestrator Zip_Plan Bot_Settings Result_State
begin

text \<open>
  What the lanes of a running job work on: the task record and its progress display (\<open>TaskShared\<close> and the
  event bus of \<open>crates/engine/src/orchestrator/events.rs\<close>), the shared fields of \<open>TaskContext\<close>
  (\<open>crates/engine/src/orchestrator/mod.rs\<close>) and the dependencies of \<open>crates/engine/src/orchestrator/deps\<close>.

  Dependencies are the environment of the model: every call has a number, counted by the state, and the
  environment gives the answer of the call with that number; the call and its answer are written down.
  A call raced against the cancellation of the job may be interrupted. A cancellation arrives at any call or
  look, and stays. Text is a list of Unicode scalar values, as the file names and captions need it.
\<close>

section \<open>Text\<close>

definition utf8_char :: "uchar \<Rightarrow> nat list" where
  "utf8_char c =
     (if c < 0x80 then [c]
      else if c < 0x800 then [0xC0 + c div 64, 0x80 + c mod 64]
      else if c < 0x10000 then [0xE0 + c div 4096, 0x80 + c div 64 mod 64, 0x80 + c mod 64]
      else [0xF0 + c div 262144, 0x80 + c div 4096 mod 64, 0x80 + c div 64 mod 64, 0x80 + c mod 64])"

definition utf8 :: "ustring \<Rightarrow> string" where
  "utf8 s = map char_of (concat (map utf8_char s))"

section \<open>The data of the dependencies\<close>

type_synonym message_ref = i64

datatype track_caption = Machine ustring string | Plain ustring

record zip_caption =
  zc_album_id :: ustring
  zc_codec :: "string option"
  zc_part_index :: i32
  zc_total_parts :: i32
  zc_generation_hash :: string
  zc_is_complete :: bool

record album_details_caption =
  ac_album :: ustring
  ac_artist :: ustring
  ac_album_url :: "ustring option"
  ac_total_tracks :: nat
  ac_delivered_tracks :: "nat option"
  ac_size_bytes :: i64
  ac_total_parts :: nat
  ac_release_year :: ustring
  ac_genre :: "ustring option"
  ac_record_label :: "ustring option"
  ac_is_partial :: bool
  ac_user_name :: "string option"
  ac_user_id :: i64
  ac_codec :: "string option"

datatype dump_publish =
  TrackAudio ustring ustring ustring i64 track_caption
| ZipPublish ustring "ustring option" zip_caption

datatype chat_delivery =
  DumpCopy i64 message_ref "i64 option" bool
| ZipToChat i64 ustring "ustring option" zip_caption
| Photo i64 bytes album_details_caption

record dump_publication =
  dp_message :: message_ref
  dp_file_id :: string
  dp_file_unique_id :: string

datatype delivery_receipt = Message i64 | PreviewDelivered

datatype delivery_rejection = EntityBoundsInvalid | CaptionTooLong | OtherRejection ustring

datatype delivery_error =
  Transient ustring
| Rejected delivery_rejection
| UnexpectedMedia
| DeliveryLocalIo ustring
| DeliveryUnavailable ustring

fun is_transient :: "delivery_error \<Rightarrow> bool" where
  "is_transient (Transient _) = True"
| "is_transient _ = False"

fun show_rejection :: "delivery_rejection \<Rightarrow> ustring" where
  "show_rejection EntityBoundsInvalid = lit ''entity bounds invalid''"
| "show_rejection CaptionTooLong = lit ''caption too long''"
| "show_rejection (OtherRejection detail) = detail"

fun show_delivery_error :: "delivery_error \<Rightarrow> ustring" where
  "show_delivery_error (Transient d) = lit ''transient delivery failure: '' @ d"
| "show_delivery_error (Rejected r) = lit ''delivery rejected: '' @ show_rejection r"
| "show_delivery_error UnexpectedMedia = lit ''delivery returned unexpected media''"
| "show_delivery_error (DeliveryLocalIo d) = lit ''local delivery I/O failed: '' @ d"
| "show_delivery_error (DeliveryUnavailable d) = lit ''delivery unavailable: '' @ d"

fun show_cache_operation :: "track_cache_operation \<Rightarrow> ustring" where
  "show_cache_operation CacheFind = lit ''find track''"
| "show_cache_operation CacheSave = lit ''save track''"
| "show_cache_operation CacheDelete = lit ''delete track''"

fun show_cache_error :: "track_cache_error \<Rightarrow> ustring" where
  "show_cache_error (CacheUnavailable op detail) = show_cache_operation op @ lit '' unavailable: '' @ detail"
| "show_cache_error (CacheFailed op detail) = show_cache_operation op @ lit '' failed: '' @ detail"

record cached_track =
  ct_track_id :: ustring
  ct_codec :: codec
  ct_message_id :: message_ref
  ct_file_id :: string
  ct_file_unique_id :: string

type_synonym cached_tracks_map = "(ustring \<times> codec, cached_track) hash_map"

text \<open>The cache of album archives.\<close>

record album_upload =
  au_album_id :: ustring
  au_codec :: codec
  au_part_index :: i32
  au_total_parts :: i32
  au_message_id :: message_ref
  au_file_id :: string
  au_file_unique_id :: string
  au_file_size :: i64
  au_generation_hash :: string

datatype album_replacement_expectation = ExpectEmpty | ExpectGeneration string | ExpectMixed

datatype album_replacement_result = Committed "message_ref list" | Stale

record cached_album =
  ca_part_index :: i32
  ca_total_parts :: i32
  ca_message_id :: message_ref
  ca_file_unique_id :: string
  ca_generation_hash :: string
  ca_file_size :: i64
  ca_codec :: codec

datatype album_cache_operation = AlbumFind | AlbumSave | AlbumReplace | AlbumDelete

datatype album_cache_error =
  AlbumUnavailable album_cache_operation ustring
| AlbumConflict album_cache_operation ustring
| AlbumFailed album_cache_operation ustring

fun show_album_operation :: "album_cache_operation \<Rightarrow> ustring" where
  "show_album_operation AlbumFind = lit ''find album''"
| "show_album_operation AlbumSave = lit ''save album''"
| "show_album_operation AlbumReplace = lit ''replace album''"
| "show_album_operation AlbumDelete = lit ''delete album''"

fun show_album_error :: "album_cache_error \<Rightarrow> ustring" where
  "show_album_error (AlbumUnavailable op detail) = show_album_operation op @ lit '' unavailable: '' @ detail"
| "show_album_error (AlbumConflict op detail) = show_album_operation op @ lit '' conflicted: '' @ detail"
| "show_album_error (AlbumFailed op detail) = show_album_operation op @ lit '' failed: '' @ detail"

record track_rip_result =
  tr_file_path :: ustring
  tr_title :: ustring
  tr_artist :: ustring
  tr_album :: ustring
  tr_artwork_url :: ustring
  tr_duration :: i64
  tr_bit_depth :: u32
  tr_sample_rate :: u32
  tr_codec :: string
  tr_genre :: ustring
  tr_release_date :: ustring
  tr_track_number :: i64
  tr_track_count :: i64
  tr_isrc :: "ustring option"

text \<open>\<open>SaveTrackInput\<close> has the fields of \<open>CachedTrack\<close>. A codec that does not parse is saved as ALAC.\<close>

definition rip_codec :: "track_rip_result \<Rightarrow> codec option" where
  "rip_codec rip = (case Codec_from_str (tr_codec rip) of Inr c \<Rightarrow> Some c | Inl _ \<Rightarrow> None)"

definition from_rip_result :: "ustring \<Rightarrow> track_rip_result \<Rightarrow> dump_publication \<Rightarrow> cached_track" where
  "from_rip_result track_id rip p =
     \<lparr>ct_track_id = track_id, ct_codec = (case rip_codec rip of Some c \<Rightarrow> c | None \<Rightarrow> Alac),
      ct_message_id = dp_message p, ct_file_id = dp_file_id p, ct_file_unique_id = dp_file_unique_id p\<rparr>"

section \<open>The data of a job\<close>

datatype failed_track_kind =
  KindTrackUnavailable | KindRenditionUnavailable | KindSourceOffline | KindCancelled | KindTimeout
| KindAuthentication | KindLocalIo

datatype source_id =
  PrimaryMirror | WrapperLite ustring | WrapperCandidate ustring | ProviderBackend ustring ustring | NativeProvider ustring

fun show_source :: "source_id \<Rightarrow> ustring" where
  "show_source PrimaryMirror = lit ''primary mirror''"
| "show_source (WrapperLite url) = lit ''wrapper-lite ('' @ url @ lit '')''"
| "show_source (WrapperCandidate endpoint) = lit ''wrapper candidate ('' @ endpoint @ lit '')''"
| "show_source (ProviderBackend provider url) = provider @ lit '' backend ('' @ url @ lit '')''"
| "show_source (NativeProvider provider) = provider @ lit '' native ripper''"

datatype rip_error =
  RipCancelled
| TrackUnavailable ustring
| RenditionUnavailable ustring
| RipLocalIo ustring
| SourceOffline source_id
| StreamCorrupt source_id ustring
| IncompleteBody source_id nat nat
| StreamStalled source_id nat
| RipTimeout "source_id option" ustring
| Authentication source_id
| PlaylistParse ustring ustring
| License ustring
| Decrypt ustring
| Decode "source_id option" ustring
| RipMessage ustring

fun show_rip_error :: "rip_error \<Rightarrow> ustring" where
  "show_rip_error RipCancelled = lit ''Download was cancelled''"
| "show_rip_error (TrackUnavailable reason) = lit ''track unavailable: '' @ reason"
| "show_rip_error (RenditionUnavailable reason) = lit ''rendition unavailable: '' @ reason"
| "show_rip_error (RipLocalIo message) = lit ''local file error: '' @ message"
| "show_rip_error (SourceOffline src) = show_source src @ lit '' is offline''"
| "show_rip_error (StreamCorrupt src detail) = lit ''stream corrupt on '' @ show_source src @ lit '': '' @ detail"
| "show_rip_error (IncompleteBody src expected received) =
     lit ''incomplete audio body from '' @ show_source src @ lit '': expected '' @ lit (show_nat expected) @
     lit '' bytes, received '' @ lit (show_nat received)"
| "show_rip_error (StreamStalled src secs) =
     lit ''audio stream stalled on '' @ show_source src @ lit '': no data received for '' @ lit (show_nat secs) @ lit ''s''"
| "show_rip_error (RipTimeout _ detail) = lit ''operation timed out: '' @ detail"
| "show_rip_error (Authentication src) = lit ''authentication failed on '' @ show_source src"
| "show_rip_error (PlaylistParse which detail) = which @ lit '' playlist parse failed: '' @ detail"
| "show_rip_error (License detail) = lit ''license error: '' @ detail"
| "show_rip_error (Decrypt detail) = lit ''decrypt failed: '' @ detail"
| "show_rip_error (Decode _ detail) = lit ''audio decode failed: '' @ detail"
| "show_rip_error (RipMessage message) = message"

fun failed_kind_of :: "rip_error \<Rightarrow> failed_track_kind option" where
  "failed_kind_of (TrackUnavailable _) = Some KindTrackUnavailable"
| "failed_kind_of (RenditionUnavailable _) = Some KindRenditionUnavailable"
| "failed_kind_of (SourceOffline _) = Some KindSourceOffline"
| "failed_kind_of RipCancelled = Some KindCancelled"
| "failed_kind_of (RipTimeout _ _) = Some KindTimeout"
| "failed_kind_of (Authentication _) = Some KindAuthentication"
| "failed_kind_of (RipLocalIo _) = Some KindLocalIo"
| "failed_kind_of _ = None"

record failed_track =
  ft_id :: ustring
  ft_error :: ustring
  ft_kind :: "failed_track_kind option"
  ft_title :: "ustring option"
  ft_artist :: "ustring option"
  ft_storefront :: "string option"

record pipeline_item =
  pi_track_id :: ustring
  pi_storefront :: "string option"
  pi_meta_title :: "ustring option"
  pi_meta_artist :: "ustring option"
  pi_artwork_url :: "ustring option"
  pi_is_streamable :: "bool option"
  pi_rendition :: rendition
  pi_cached :: "cached_track option"
  pi_track_index :: "nat option"
  pi_total_tracks :: "nat option"

record pipeline_rip_result =
  pr_track_id :: ustring
  pr_rip_result :: track_rip_result
  pr_start_time_ms :: u64
  pr_rendition :: rendition
  pr_track_index :: "nat option"
  pr_total_tracks :: "nat option"

record zip_state =
  zs_rendition :: rendition
  zs_dir :: ustring
  zs_sources :: "zip_track_entry list"
  zs_codec :: "string option"
  zs_generation_hash :: "string option"

record zip_delivery_info =
  zi_album :: ustring
  zi_artist :: ustring
  zi_release_year :: ustring
  zi_total_tracks :: nat
  zi_delivered_tracks :: "nat option"
  zi_total_parts :: nat
  zi_size_bytes :: i64
  zi_is_partial :: bool
  zi_album_id :: ustring
  zi_album_url :: "ustring option"
  zi_artwork_url :: "ustring option"
  zi_genre :: "ustring option"
  zi_record_label :: "ustring option"
  zi_copyright :: "ustring option"
  zi_photo_delivered :: bool
  zi_codec :: "string option"

record task_progress =
  tp_total_tracks :: nat
  tp_completed_tracks :: nat
  tp_cached_count :: nat
  tp_ripped_count :: nat
  tp_failed_count :: nat
  tp_skipped_count :: nat
  tp_job_activity :: "task_activity option"
  tp_download :: "download_lane option"
  tp_upload :: "upload_lane option"
  tp_uploads :: "upload_lane list"
  tp_codec :: "string option"

section \<open>The environment and the state\<close>

text \<open>
  The settings of the job and the answers of its dependencies, and whether the cancellation interrupts a
  raced call. The reports of an upload or download in progress belong to its call. The result of the sequenced delivery of a track is an answer too; the
  theory \<open>Track_Sequencer\<close> is its model.
\<close>

record job_env =
  je_options :: rip_task_options
  je_storage_retry :: retry_policy
  je_upload_retry :: retry_config
  je_zip_build :: bool
  je_zip_deliver :: bool
  je_zip_reuse :: "(rendition, cached_album list) hash_map"
  je_zip_expectations :: "(rendition, album_replacement_expectation) hash_map"
  je_zip_reuse_atmos_track_count :: "nat option"
  je_zip_album :: ustring
  je_zip_artist :: ustring
  je_zip_album_id :: ustring
  je_zip_album_url :: "ustring option"
  je_zip_genre :: "ustring option"
  je_zip_record_label :: "ustring option"
  je_zip_copyright :: "ustring option"
  je_zip_artwork_url :: "ustring option"
  je_zip_release_date :: ustring
  je_warnings :: "ustring list"
  je_queue_start_time_ms :: u64
  je_is_multi_track :: bool
  je_cancel :: "nat \<Rightarrow> bool"
  je_find_cached_tracks :: "nat \<Rightarrow> track_cache_error + cached_tracks_map"
  je_save_track :: "nat \<Rightarrow> track_cache_error + unit"
  je_delete_track :: "nat \<Rightarrow> track_cache_error + bool"
  je_interrupt :: "nat \<Rightarrow> bool"
  je_publish_to_dump :: "nat \<Rightarrow> delivery_error + dump_publication"
  je_progress :: "nat \<Rightarrow> (nat \<times> nat \<times> nat option \<times> i32 option) list"
  je_deliver_to_chat :: "nat \<Rightarrow> delivery_error + delivery_receipt"
  je_deliver_sequenced :: "nat \<Rightarrow> ustring + unit"
  je_materialize_cached :: "nat \<Rightarrow> delivery_error + unit"
  je_retract_dump :: "nat \<Rightarrow> delivery_error + unit"
  je_copy :: "nat \<Rightarrow> ustring + unit"
  je_metadata_len :: "nat \<Rightarrow> ustring + nat"
  je_now_ms :: "nat \<Rightarrow> u64"
  je_settings :: bot_settings
  je_queue_cancel :: "nat \<Rightarrow> bool"
  je_unavailable_message :: ustring
  je_rip :: "nat \<Rightarrow> rip_error + track_rip_result"
  je_rip_progress :: "nat \<Rightarrow> rip_activity list"
  je_find_albums :: "nat \<Rightarrow> album_cache_error + cached_album list"
  je_replace_albums :: "nat \<Rightarrow> album_cache_error + album_replacement_result"
  je_fetch_artwork :: "nat \<Rightarrow> bytes option"
  je_artwork_url_at_size :: "ustring \<Rightarrow> nat \<Rightarrow> ustring"
  je_write :: "nat \<Rightarrow> bool"
  je_file_size :: "nat \<Rightarrow> ustring \<Rightarrow> string + nat"
  je_build_archive :: "nat \<Rightarrow> (ustring + (ustring + nat))"
  je_debug_path :: "ustring \<Rightarrow> ustring"

text \<open>The calls of a lane that others can see, in their order, with their answers.\<close>

datatype job_call =
  FindCachedTracks "ustring list"
| SaveTrack cached_track "track_cache_error + unit"
| DeleteTrack ustring "codec option" "track_cache_error + bool"
| PublishToDump dump_publish "(delivery_error + dump_publication) option"
| DeliverToChat chat_delivery "(delivery_error + delivery_receipt) option"
| DeliverSequenced nat "message_ref option" "ustring + unit"
| MaterializeCached message_ref ustring "(delivery_error + unit) option"
| RetractDump "message_ref list" "delivery_error + unit"
| CopyFile ustring ustring "ustring + unit"
| RemoveFile ustring
| RipTrack ustring string codec_preference "rip_error + track_rip_result"
| FindAlbums ustring "codec option" "album_cache_error + cached_album list"
| ReplaceAlbums ustring codec album_replacement_expectation "album_upload list" "album_cache_error + album_replacement_result"
| FetchArtwork ustring "bytes option"
| WriteFile ustring bool
| BuildArchive ustring zip_part_plan "ustring + (ustring + nat)"
| CreateDir ustring "ustring + unit"
| RemoveDir ustring
| EmitStarted

record job_state =
  js_step :: nat
  js_calls :: "job_call list"
  js_job :: active_rip_task
  js_queue_cancelled :: bool
  js_job_activity :: "task_activity option"
  js_download :: "download_lane option"
  js_uploads :: "(string, upload_lane) hash_map"
  js_codec :: "string option"
  js_events :: "task_progress list"
  js_failed_tracks :: "failed_track list"
  js_ripped_count :: nat
  js_first_delivered_msg_id :: "i64 option"
  js_zip_states :: "zip_state list"
  js_atmos_warning :: "ustring option"
  js_fatal_error :: "ustring option"
  js_primary_zip_error :: "ustring option"
  js_zip_new_dump_messages :: "message_ref list"
  js_zip_delivery_infos :: "zip_delivery_info list"
  js_finalizing_rendition :: "rendition option"
  js_workspace_paths :: "ustring list"

text \<open>One look at the cancellation, or the passage of time in a call.\<close>

definition cancel_now :: "job_state \<Rightarrow> job_state" where
  "cancel_now s = s\<lparr>js_job := (js_job s)\<lparr>at_is_cancelled := True, at_controller_cancelled := True\<rparr>\<rparr>"

definition tick :: "job_env \<Rightarrow> job_state \<Rightarrow> job_state" where
  "tick env s =
     (let s' = s\<lparr>js_step := js_step s + 1, js_queue_cancelled := js_queue_cancelled s \<or> je_queue_cancel env (js_step s)\<rparr>
      in if je_cancel env (js_step s) then cancel_now s' else s')"

definition cancelled :: "job_state \<Rightarrow> bool" where
  "cancelled s \<longleftrightarrow> at_is_cancelled (js_job s) \<or> at_controller_cancelled (js_job s)"

definition is_cancelled :: "job_env \<Rightarrow> (job_state, 'e, bool) result_state" where
  "is_cancelled env s = (let s' = tick env s in (Inr (cancelled s'), s'))"

text \<open>An update of the state; a call with its answer; a call raced against the cancellation.\<close>

definition modify :: "(job_state \<Rightarrow> job_state) \<Rightarrow> (job_state, 'e, unit) result_state" where
  "modify f s = (Inr (), f s)"

definition note_call :: "job_call \<Rightarrow> job_state \<Rightarrow> job_state" where
  "note_call c s = s\<lparr>js_calls := js_calls s @ [c]\<rparr>"

definition call_dep :: "job_env \<Rightarrow> (nat \<Rightarrow> 'a) \<Rightarrow> ('a \<Rightarrow> job_call) \<Rightarrow> (job_state, 'e, 'a) result_state" where
  "call_dep env answer entry s =
     (let r = answer (js_step s) in (Inr r, note_call (entry r) (tick env s)))"

definition race_dep ::
  "job_env \<Rightarrow> (nat \<Rightarrow> 'a) \<Rightarrow> ('a option \<Rightarrow> job_call) \<Rightarrow> (nat \<times> nat \<times> nat option \<times> i32 option \<Rightarrow> job_state \<Rightarrow> job_state) \<Rightarrow>
   (job_state, 'e, 'a option) result_state" where
  "race_dep env answer entry report s =
     (let s' = tick env (fold report (je_progress env (js_step s)) s)
      in if je_interrupt env (js_step s) then (Inr None, cancel_now (note_call (entry None) s'))
         else let r = Some (answer (js_step s)) in (Inr r, note_call (entry r) s'))"

definition no_report :: "nat \<times> nat \<times> nat option \<times> i32 option \<Rightarrow> job_state \<Rightarrow> job_state" where
  "no_report p s = s"

text \<open>A retried storage call sees the answers of consecutive numbers.\<close>

definition retried ::
  "job_env \<Rightarrow> ((nat \<Rightarrow> track_cache_error + 'a) \<Rightarrow> retry_policy \<Rightarrow> (track_cache_error + 'a) \<times> duration list) \<Rightarrow>
   (nat \<Rightarrow> track_cache_error + 'a) \<Rightarrow> (track_cache_error + 'a \<Rightarrow> job_call) \<Rightarrow>
   (job_state, 'e, track_cache_error + 'a) result_state" where
  "retried env with_retry answer entry s =
     (case with_retry (\<lambda>i. answer (js_step s + i)) (je_storage_retry env) of
        (r, slept) \<Rightarrow> (Inr r, note_call (entry r) (tick env (s\<lparr>js_step := js_step s + length slept\<rparr>))))"

text \<open>A body that returns early: both ends give the value.\<close>

definition returned :: "(job_state, 'a, 'a) result_state \<Rightarrow> job_state \<Rightarrow> 'a \<times> job_state" where
  "returned m s = (case m s of (Inl v, s') \<Rightarrow> (v, s') | (Inr v, s') \<Rightarrow> (v, s'))"

section \<open>The event bus\<close>

definition set_job_activity :: "task_activity option \<Rightarrow> job_state \<Rightarrow> job_state" where
  "set_job_activity activity s = s\<lparr>js_job_activity := activity\<rparr>"

definition set_download :: "download_lane option \<Rightarrow> job_state \<Rightarrow> job_state" where
  "set_download lane s = s\<lparr>js_download := lane\<rparr>"

definition upsert_upload :: "string \<Rightarrow> upload_lane \<Rightarrow> job_state \<Rightarrow> job_state" where
  "upsert_upload key lane s = s\<lparr>js_uploads := hm_insert key lane (js_uploads s)\<rparr>"

definition remove_upload :: "string \<Rightarrow> job_state \<Rightarrow> job_state" where
  "remove_upload key s = s\<lparr>js_uploads := hm_remove key (js_uploads s)\<rparr>"

definition set_codec :: "string option \<Rightarrow> job_state \<Rightarrow> job_state" where
  "set_codec codec s = (if codec = None then s else s\<lparr>js_codec := codec\<rparr>)"

text \<open>Uploads are shown by the index of their track, then by the name of their stage.\<close>

fun option_le :: "nat option \<Rightarrow> nat option \<Rightarrow> bool" where
  "option_le None _ = True"
| "option_le (Some _) None = False"
| "option_le (Some a) (Some b) = (a \<le> b)"

fun string_le :: "string \<Rightarrow> string \<Rightarrow> bool" where
  "string_le [] _ = True"
| "string_le (_ # _) [] = False"
| "string_le (a # s) (b # t) = (if a = b then string_le s t else (of_char a :: nat) < of_char b)"

definition upload_le :: "upload_lane \<Rightarrow> upload_lane \<Rightarrow> bool" where
  "upload_le a b =
     (if upload_track_index a = upload_track_index b then string_le (upload_stage_name a) (upload_stage_name b)
      else option_le (upload_track_index a) (upload_track_index b))"

fun insert_upload :: "upload_lane \<Rightarrow> upload_lane list \<Rightarrow> upload_lane list" where
  "insert_upload u [] = [u]"
| "insert_upload u (v # vs) = (if upload_le u v then u # v # vs else v # insert_upload u vs)"

definition sorted_uploads :: "upload_lane list \<Rightarrow> upload_lane list" where
  "sorted_uploads us = foldr insert_upload us []"

definition first_of :: "'a list \<Rightarrow> 'a option" where
  "first_of xs = (case xs of [] \<Rightarrow> None | x # _ \<Rightarrow> Some x)"

definition current_progress :: "job_state \<Rightarrow> task_progress" where
  "current_progress s =
     (let job = js_job s; uploads = sorted_uploads (hm_values (js_uploads s))
      in \<lparr>tp_total_tracks = at_total_tracks job,
          tp_completed_tracks = at_cached_count job + at_ripped_count job + at_failed_count job + at_skipped_count job,
          tp_cached_count = at_cached_count job, tp_ripped_count = at_ripped_count job,
          tp_failed_count = at_failed_count job, tp_skipped_count = at_skipped_count job,
          tp_job_activity = js_job_activity s, tp_download = js_download s,
          tp_upload = first_of uploads, tp_uploads = uploads, tp_codec = js_codec s\<rparr>)"

definition emit_progress :: "job_state \<Rightarrow> job_state" where
  "emit_progress s = s\<lparr>js_events := js_events s @ [current_progress s]\<rparr>"

section \<open>Failures and warnings\<close>

definition set_fatal_error :: "ustring \<Rightarrow> job_state \<Rightarrow> job_state" where
  "set_fatal_error e s = s\<lparr>js_fatal_error := (case js_fatal_error s of None \<Rightarrow> Some e | first \<Rightarrow> first)\<rparr>"

definition push_failure :: "failed_track \<Rightarrow> job_state \<Rightarrow> job_state" where
  "push_failure f s =
     (let failures = js_failed_tracks s @ [f]
      in s\<lparr>js_failed_tracks := failures, js_job := (js_job s)\<lparr>at_failed_count := length failures\<rparr>\<rparr>)"

definition record_failure :: "ustring \<Rightarrow> ustring \<Rightarrow> ustring option \<Rightarrow> ustring option \<Rightarrow> job_state \<Rightarrow> job_state" where
  "record_failure track_id err_msg title artist =
     push_failure \<lparr>ft_id = track_id, ft_error = err_msg, ft_kind = None, ft_title = title, ft_artist = artist, ft_storefront = None\<rparr>"

definition record_lane_task_panic :: "ustring \<Rightarrow> ustring \<Rightarrow> job_state \<Rightarrow> job_state" where
  "record_lane_task_panic item_id message s =
     (let error = lit ''lane-2 task panicked for '' @ item_id @ lit '': '' @ message;
          s' = set_fatal_error error s
      in if (\<exists>failure \<in> set (js_failed_tracks s'). ft_id failure = item_id) then s'
         else record_failure item_id error None None s')"

definition remember_first :: "i64 \<Rightarrow> job_state \<Rightarrow> job_state" where
  "remember_first sent_id s =
     s\<lparr>js_first_delivered_msg_id := (case js_first_delivered_msg_id s of None \<Rightarrow> Some sent_id | first \<Rightarrow> first)\<rparr>"

definition zip_state_of :: "rendition \<Rightarrow> job_state \<Rightarrow> zip_state option" where
  "zip_state_of r s = List.find (\<lambda>z. zs_rendition z = r) (js_zip_states s)"

definition with_zip_state :: "rendition \<Rightarrow> (zip_state option \<Rightarrow> (job_state, 'e, 'a) result_state) \<Rightarrow> (job_state, 'e, 'a) result_state" where
  "with_zip_state r f s = f (zip_state_of r s) s"

text \<open>The archive state of a rendition is one shared object: the first of the list with it.\<close>

fun update_zip :: "rendition \<Rightarrow> (zip_state \<Rightarrow> zip_state) \<Rightarrow> zip_state list \<Rightarrow> zip_state list" where
  "update_zip r f [] = []"
| "update_zip r f (z # zs) = (if zs_rendition z = r then f z # zs else z # update_zip r f zs)"

definition reply_to :: "job_env \<Rightarrow> i64 option" where
  "reply_to env =
     (if ro_delivery_chat_id (je_options env) = ro_chat_id (je_options env)
      then ro_reply_to_message_id (je_options env) else None)"

definition dump_copy :: "job_env \<Rightarrow> message_ref \<Rightarrow> bool \<Rightarrow> chat_delivery" where
  "dump_copy env source_msg silent = DumpCopy (ro_delivery_chat_id (je_options env)) source_msg (reply_to env) silent"

section \<open>Reasoning about the lanes\<close>

lemma wp_is_cancelled [wp_simps]: "rs_wp (is_cancelled env) Q E = (\<lambda>s. Q (cancelled (tick env s)) (tick env s))"
  by (rule ext) (simp add: rs_wp_def is_cancelled_def Let_def)

lemma wp_with_zip_state [wp_simps]: "rs_wp (with_zip_state r f) Q E = (\<lambda>s. rs_wp (f (zip_state_of r s)) Q E s)"
  by (rule ext) (simp add: rs_wp_def with_zip_state_def)

lemma wp_modify [wp_simps]: "rs_wp (modify f) Q E = (\<lambda>s. Q () (f s))"
  by (rule ext) (simp add: rs_wp_def modify_def)

lemma wp_call_dep [wp_simps]:
  "rs_wp (call_dep env answer entry) Q E =
     (\<lambda>s. let r = answer (js_step s) in Q r (note_call (entry r) (tick env s)))"
  by (rule ext) (simp add: rs_wp_def call_dep_def Let_def)

lemma wp_race_dep [wp_simps]:
  "rs_wp (race_dep env answer entry report) Q E =
     (\<lambda>s. let s' = tick env (fold report (je_progress env (js_step s)) s)
      in if je_interrupt env (js_step s) then Q None (cancel_now (note_call (entry None) s'))
         else let r = Some (answer (js_step s)) in Q r (note_call (entry r) s'))"
  by (rule ext) (simp add: rs_wp_def race_dep_def Let_def)

lemma wp_retried [wp_simps]:
  "rs_wp (retried env with_retry answer entry) Q E =
     (\<lambda>s. case with_retry (\<lambda>i. answer (js_step s + i)) (je_storage_retry env) of
        (r, slept) \<Rightarrow> Q r (note_call (entry r) (tick env (s\<lparr>js_step := js_step s + length slept\<rparr>))))"
  by (rule ext) (simp add: rs_wp_def retried_def split: prod.splits)

lemma returned_wp: "rs_wp m (\<lambda>v s'. R (v, s')) (\<lambda>v s'. R (v, s')) s \<Longrightarrow> R (returned m s)"
  by (simp add: rs_wp_def returned_def split: prod.splits sum.splits)

text \<open>What the lanes count, and what they call.\<close>

definition counts :: "job_state \<Rightarrow> nat \<times> nat \<times> failed_track list" where
  "counts s = (js_ripped_count s, at_cached_count (js_job s), js_failed_tracks s)"

named_theorems job_simps

lemma counts_simps [job_simps]:
  "counts (tick env s) = counts s" "counts (cancel_now s) = counts s" "counts (note_call c s) = counts s"
  "counts (set_codec k s) = counts s" "counts (emit_progress s) = counts s" "counts (set_job_activity a s) = counts s"
  "counts (set_download d s) = counts s" "counts (upsert_upload key u s) = counts s" "counts (remove_upload key s) = counts s"
  "counts (remember_first i s) = counts s" "counts (s\<lparr>js_step := n\<rparr>) = counts s" "counts (set_fatal_error e s) = counts s"
  by (simp_all add: counts_def tick_def cancel_now_def note_call_def set_codec_def emit_progress_def set_job_activity_def
      set_download_def upsert_upload_def remove_upload_def remember_first_def set_fatal_error_def Let_def)

lemma calls_simps [job_simps]:
  "js_calls (tick env s) = js_calls s" "js_calls (cancel_now s) = js_calls s" "js_calls (note_call c s) = js_calls s @ [c]"
  "js_calls (set_codec k s) = js_calls s" "js_calls (emit_progress s) = js_calls s" "js_calls (set_job_activity a s) = js_calls s"
  "js_calls (set_download d s) = js_calls s" "js_calls (upsert_upload key u s) = js_calls s" "js_calls (remove_upload key s) = js_calls s"
  "js_calls (remember_first i s) = js_calls s" "js_calls (s\<lparr>js_step := n\<rparr>) = js_calls s" "js_calls (set_fatal_error e s) = js_calls s"
  "js_calls (push_failure f s) = js_calls s"
  by (simp_all add: tick_def cancel_now_def note_call_def set_codec_def emit_progress_def set_job_activity_def
      set_download_def upsert_upload_def remove_upload_def remember_first_def set_fatal_error_def push_failure_def Let_def)

text \<open>A cancellation stays.\<close>

lemma cancelled_simps [job_simps]:
  "cancelled (cancel_now s)" "cancelled (note_call c s) = cancelled s"
  "cancelled (set_codec k s) = cancelled s" "cancelled (emit_progress s) = cancelled s" "cancelled (set_job_activity a s) = cancelled s"
  "cancelled (set_download d s) = cancelled s" "cancelled (upsert_upload key u s) = cancelled s" "cancelled (remove_upload key s) = cancelled s"
  "cancelled (remember_first i s) = cancelled s" "cancelled (s\<lparr>js_step := n\<rparr>) = cancelled s" "cancelled (set_fatal_error e s) = cancelled s"
  "cancelled (push_failure f s) = cancelled s"
  by (simp_all add: cancelled_def cancel_now_def note_call_def set_codec_def emit_progress_def set_job_activity_def
      set_download_def upsert_upload_def remove_upload_def remember_first_def set_fatal_error_def push_failure_def Let_def)

lemma cancelled_tick [job_simps]: "cancelled s \<Longrightarrow> cancelled (tick env s)"
  by (simp add: cancelled_def tick_def cancel_now_def Let_def)

lemma not_cancelled_tick: "\<not> cancelled (tick env s) \<Longrightarrow> \<not> cancelled s"
  by (auto simp: cancelled_tick)

section \<open>A plain job\<close>

text \<open>A job for one chat whose dependencies all succeed, for examples.\<close>

definition plain_options :: rip_task_options where
  "plain_options = \<lparr>ro_chat_id = 1, ro_user_id = 2, ro_user_name = None, ro_delivery_chat_id = 1, ro_is_group = False,
     ro_is_force = False, ro_is_cache_only = False, ro_single_storefront = None, ro_parsed_items = [],
     ro_reply_to_message_id = None, ro_is_admin = False, ro_codec_preference = None, ro_rendition_policy = PrimaryOnly,
     ro_origin = JobOrigin_default\<rparr>"

definition plain_rip :: track_rip_result where
  "plain_rip = \<lparr>tr_file_path = lit ''p'', tr_title = lit ''a'', tr_artist = lit ''b'', tr_album = lit ''c'', tr_artwork_url = [],
     tr_duration = 3, tr_bit_depth = 16, tr_sample_rate = 44100, tr_codec = ''alac'', tr_genre = [], tr_release_date = [],
     tr_track_number = 1, tr_track_count = 2, tr_isrc = None\<rparr>"

definition plain_env :: job_env where
  "plain_env = \<lparr>je_options = plain_options, je_storage_retry = RetryPolicy_new 1 0,
     je_upload_retry = \<lparr>rc_retries = 0, rc_base_delay_ms = 0\<rparr>, je_zip_build = False, je_zip_deliver = False,
     je_zip_reuse = [], je_zip_expectations = [], je_zip_reuse_atmos_track_count = None,
     je_zip_album = lit ''c'', je_zip_artist = lit ''b'', je_zip_album_id = lit ''1'', je_zip_album_url = None, je_zip_genre = None,
     je_zip_record_label = None, je_zip_copyright = None, je_zip_artwork_url = None, je_zip_release_date = [],
     je_warnings = [], je_queue_start_time_ms = 0, je_is_multi_track = True, je_cancel = (\<lambda>_. False),
     je_find_cached_tracks = (\<lambda>_. Inr []), je_save_track = (\<lambda>_. Inr ()), je_delete_track = (\<lambda>_. Inr True),
     je_interrupt = (\<lambda>_. False),
     je_publish_to_dump = (\<lambda>_. Inr \<lparr>dp_message = 7, dp_file_id = ''f'', dp_file_unique_id = ''u''\<rparr>),
     je_progress = (\<lambda>_. []), je_deliver_to_chat = (\<lambda>_. Inr (Message 9)), je_deliver_sequenced = (\<lambda>_. Inr ()),
     je_materialize_cached = (\<lambda>_. Inr ()), je_retract_dump = (\<lambda>_. Inr ()), je_copy = (\<lambda>_. Inr ()),
     je_metadata_len = (\<lambda>_. Inr 3), je_now_ms = (\<lambda>_. 0), je_settings = BotSettings_default, je_queue_cancel = (\<lambda>_. False),
     je_unavailable_message = lit ''gone'', je_rip = (\<lambda>_. Inr plain_rip), je_rip_progress = (\<lambda>_. []),
     je_find_albums = (\<lambda>_. Inr []), je_replace_albums = (\<lambda>_. Inr (Committed [])), je_fetch_artwork = (\<lambda>_. None),
     je_artwork_url_at_size = (\<lambda>url _. url), je_write = (\<lambda>_. True), je_file_size = (\<lambda>_ _. Inr 3),
     je_build_archive = (\<lambda>_. Inr (Inr 10)), je_debug_path = id\<rparr>"

definition plain_state :: job_state where
  "plain_state = \<lparr>js_step = 0, js_calls = [], js_job = new_job ''j'' ''Rip'' 0 plain_options,
     js_queue_cancelled = False, js_job_activity = None,
     js_download = None, js_uploads = [], js_codec = None, js_events = [], js_failed_tracks = [], js_ripped_count = 0,
     js_first_delivered_msg_id = None, js_zip_states = [], js_atmos_warning = None, js_fatal_error = None,
     js_primary_zip_error = None, js_zip_new_dump_messages = [], js_zip_delivery_infos = [], js_finalizing_rendition = None, js_workspace_paths = []\<rparr>"

end
