(* ===== verification/Upload_Lane.thy ===== *)
theory Upload_Lane
  imports Job_World
begin

text \<open>
  The upload of one track (\<open>upload_one\<close> and \<open>run_upload_item\<close> of
  \<open>crates/engine/src/orchestrator/upload_lane.rs\<close>): a track that the cache has by now is delivered from it;
  otherwise the file is published to the dump channel with retries and a plain caption as a fallback, saved in
  the cache, delivered, counted, and taken back when the job is cancelled on the way. A call that the cancellation drops
  unanswered is taken to have had no effect. The durations of the log lines, differences of clock readings, are left out, and
  with them the overflow of a clock that runs backwards.
\<close>

definition show_rendition :: "rendition \<Rightarrow> string" where
  "show_rendition r = (case r of Primary \<Rightarrow> ''Primary'' | Atmos \<Rightarrow> ''Atmos'')"

definition upload_key :: "pipeline_rip_result \<Rightarrow> string" where
  "upload_key item = ''track_'' @ utf8 (pr_track_id item) @ ''_'' @ show_rendition (pr_rendition item)"

text \<open>A number that does not fit \<open>u32\<close> or is zero gives no position.\<close>

definition positive_u32 :: "i64 \<Rightarrow> nat option" where
  "positive_u32 n = (if 0 < n \<and> n < 2 ^ 32 then Some (nat n) else None)"

definition or_else :: "'a option \<Rightarrow> 'a option \<Rightarrow> 'a option" where
  "or_else a b = (case a of None \<Rightarrow> b | Some x \<Rightarrow> Some x)"

definition upload_label :: "pipeline_rip_result \<Rightarrow> track_label" where
  "upload_label item =
     (let rip = pr_rip_result item
      in with_position
           (with_artwork_url (TrackLabel_new (utf8 (tr_title rip)) (utf8 (tr_artist rip)))
              (if tr_artwork_url rip = [] then None else Some (utf8 (tr_artwork_url rip))))
           (or_else (pr_track_index item) (positive_u32 (tr_track_number rip)))
           (or_else (pr_total_tracks item) (positive_u32 (tr_track_count rip))))"

definition machine_caption :: "pipeline_rip_result \<Rightarrow> track_caption" where
  "machine_caption item = Machine (pr_track_id item) (tr_codec (pr_rip_result item))"

definition plain_caption :: "pipeline_rip_result \<Rightarrow> ustring" where
  "plain_caption item =
     (let rip = pr_rip_result item in tr_title rip @ lit '' - '' @ tr_artist rip @ [10] @ tr_album rip)"

definition rollback_cancelled ::
  "job_env \<Rightarrow> ustring \<Rightarrow> message_ref \<Rightarrow> bool \<Rightarrow> codec option \<Rightarrow> (job_state, 'e, unit) result_state" where
  "rollback_cancelled env track_id dump_message_id delete_record codec =
     rs_bind (call_dep env (je_retract_dump env) (RetractDump [dump_message_id])) (\<lambda>removed.
       if removed = Inr () \<and> delete_record
       then rs_bind (call_dep env (je_delete_track env) (DeleteTrack track_id codec)) (\<lambda>_. rs_ret ())
       else rs_ret ())"

text \<open>A panic of the task is a fatal error; the first failure of the track gets its title.\<close>

fun label_failure :: "pipeline_rip_result \<Rightarrow> failed_track list \<Rightarrow> failed_track list" where
  "label_failure item [] = []"
| "label_failure item (f # fs) =
     (if ft_id f = pr_track_id item
      then f\<lparr>ft_title := Some (tr_title (pr_rip_result item)), ft_artist := Some (tr_artist (pr_rip_result item))\<rparr> # fs
      else f # label_failure item fs)"

definition upload_panicked :: "pipeline_rip_result \<Rightarrow> ustring \<Rightarrow> job_state \<Rightarrow> job_state" where
  "upload_panicked item message s =
     (let s' = record_lane_task_panic (pr_track_id item) message s
      in if pr_rendition item = Primary then s'\<lparr>js_failed_tracks := label_failure item (js_failed_tracks s')\<rparr> else s')"

text \<open>Without an index the copy is made at once; with one, the sequencer answers.\<close>

definition deliver_sequenced ::
  "job_env \<Rightarrow> nat option \<Rightarrow> message_ref option \<Rightarrow> (job_state, 'e, ustring + unit) result_state" where
  "deliver_sequenced env track_index message =
     (if ro_is_cache_only (je_options env) \<or> je_zip_deliver env then rs_ret (Inr ())
      else case track_index of
        Some idx \<Rightarrow> call_dep env (je_deliver_sequenced env) (DeliverSequenced idx message)
      | None \<Rightarrow>
          (case message of
             None \<Rightarrow> rs_ret (Inr ())
           | Some msg \<Rightarrow>
               let delivery = dump_copy env msg (je_is_multi_track env)
               in rs_bind (call_dep env (je_deliver_to_chat env) (\<lambda>r. DeliverToChat delivery (Some r))) (\<lambda>r.
                    case r of
                      Inl e \<Rightarrow> rs_ret (Inl (show_delivery_error e))
                    | Inr PreviewDelivered \<Rightarrow> rs_ret (Inl (lit ''track delivery returned a preview receipt''))
                    | Inr (Message sent_id) \<Rightarrow> rs_bind (modify (remember_first sent_id)) (\<lambda>_. rs_ret (Inr ())))))"

section \<open>A track the cache has by now\<close>

definition find_existing :: "pipeline_rip_result \<Rightarrow> cached_tracks_map \<Rightarrow> cached_track option" where
  "find_existing item existing =
     or_else (Option.bind (rip_codec (pr_rip_result item)) (\<lambda>c. hm_get existing (pr_track_id item, c)))
       (first_of (List.map_filter (\<lambda>c. hm_get existing (pr_track_id item, c)) (accepted_cache_codecs (pr_rendition item))))"

definition pre_cached :: "job_env \<Rightarrow> pipeline_rip_result \<Rightarrow> (job_state, 'e, cached_track option) result_state" where
  "pre_cached env item =
     (if ro_is_force (je_options env) \<and> ro_is_admin (je_options env) then rs_ret None
      else rs_bind (retried env find_cached_tracks_with_retry (je_find_cached_tracks env) (\<lambda>_. FindCachedTracks [pr_track_id item])) (\<lambda>r.
        case r of Inr existing \<Rightarrow> rs_ret (find_existing item existing) | Inl _ \<Rightarrow> rs_ret None))"

definition count_cached :: "rendition \<Rightarrow> job_state \<Rightarrow> job_state" where
  "count_cached r s =
     (if r = Primary then s\<lparr>js_job := (js_job s)\<lparr>at_cached_count := at_cached_count (js_job s) + 1\<rparr>\<rparr> else s)"

text \<open>A failed copy deletes the stale record and falls back to the upload; success ends the upload.\<close>

definition deliver_existing ::
  "job_env \<Rightarrow> pipeline_rip_result \<Rightarrow> cached_track \<Rightarrow> (job_state, bool, unit) result_state" where
  "deliver_existing env item cached =
     rs_bind (is_cancelled env) (\<lambda>c. if c then rs_fail False else
     rs_bind
       (if \<not> ro_is_cache_only (je_options env) \<and> \<not> je_zip_deliver env
        then rs_bind (deliver_sequenced env (pr_track_index item) (Some (ct_message_id cached))) (\<lambda>r.
          case r of
            Inr _ \<Rightarrow> rs_ret True
          | Inl _ \<Rightarrow> rs_bind (call_dep env (je_delete_track env) (DeleteTrack (pr_track_id item) (Some (ct_codec cached)))) (\<lambda>_. rs_ret False))
        else rs_ret True) (\<lambda>deliver_succeeded.
     rs_bind (is_cancelled env) (\<lambda>c. if c then rs_fail False else
     if deliver_succeeded
     then rs_bind (modify (\<lambda>s. emit_progress (set_job_activity (Some ActCachedDelivered)
            (count_cached (pr_rendition item) (remove_upload (upload_key item) s))))) (\<lambda>_. rs_fail True)
     else rs_ret ())))"

section \<open>Publishing with retries\<close>

definition track_upload :: "pipeline_rip_result \<Rightarrow> nat \<Rightarrow> nat option \<Rightarrow> nat option \<Rightarrow> i32 option \<Rightarrow> upload_lane" where
  "track_upload item completed tot worker dc =
     TrackUpload (upload_label item) \<lparr>bp_completed = completed, bp_total = tot\<rparr> worker dc"

definition on_upload :: "pipeline_rip_result \<Rightarrow> nat \<times> nat \<times> nat option \<times> i32 option \<Rightarrow> job_state \<Rightarrow> job_state" where
  "on_upload item = (\<lambda>(uploaded, tot, worker_id, dc_id) s.
     emit_progress (upsert_upload (upload_key item)
       (track_upload item uploaded (if tot > 0 then Some tot else None) worker_id dc_id) s))"

definition track_audio :: "pipeline_rip_result \<Rightarrow> track_caption \<Rightarrow> dump_publish" where
  "track_audio item caption =
     (let rip = pr_rip_result item in TrackAudio (tr_file_path rip) (tr_title rip) (tr_artist rip) (tr_duration rip) caption)"

definition caption_rejected :: "delivery_error \<Rightarrow> bool" where
  "caption_rejected e \<longleftrightarrow> e = Rejected EntityBoundsInvalid \<or> e = Rejected CaptionTooLong"

definition upload_failed :: "pipeline_rip_result \<Rightarrow> ustring \<Rightarrow> job_state \<Rightarrow> job_state" where
  "upload_failed item err_msg s =
     (if pr_rendition item = Primary
      then record_failure (pr_track_id item) err_msg (Some (tr_title (pr_rip_result item))) (Some (tr_artist (pr_rip_result item))) s
      else s)"

text \<open>
  The loop over \<open>0..=max_retries\<close>, by the attempts that are left: a published message, or nothing after a
  break. A rejected caption uses up an attempt without being a failure of its own. The sleep before a retry is a
  passage of time.
\<close>

fun upload_loop ::
  "job_env \<Rightarrow> pipeline_rip_result \<Rightarrow> nat \<Rightarrow> track_caption \<Rightarrow> bool \<Rightarrow> (job_state, bool, dump_publication option) result_state" where
  "upload_loop env item 0 caption used_plain_caption = rs_ret None"
| "upload_loop env item (Suc left) caption used_plain_caption =
     rs_bind (is_cancelled env) (\<lambda>c. if c then rs_ret None else
     rs_bind (race_dep env (je_publish_to_dump env) (PublishToDump (track_audio item caption)) (on_upload item)) (\<lambda>r.
     case r of
       None \<Rightarrow> rs_ret None
     | Some (Inr upload) \<Rightarrow> rs_ret (Some upload)
     | Some (Inl upload_err) \<Rightarrow>
         rs_bind (is_cancelled env) (\<lambda>c. if c then rs_ret None
         else if caption_rejected upload_err \<and> \<not> used_plain_caption
         then upload_loop env item left (Plain (clamp_str_utf16 (plain_caption item) 1024)) True
         else if is_transient upload_err \<and> 0 < left
         then rs_bind (modify (tick env)) (\<lambda>_. upload_loop env item left caption used_plain_caption)
         else
           rs_bind (modify (upload_failed item (show_delivery_error upload_err))) (\<lambda>_.
           rs_bind (deliver_sequenced env (pr_track_index item) None) (\<lambda>_.
           rs_bind (modify (\<lambda>s. emit_progress (remove_upload (upload_key item) s))) (\<lambda>_.
           rs_fail False))))))"

section \<open>After the upload\<close>

definition deliver_saved ::
  "job_env \<Rightarrow> pipeline_rip_result \<Rightarrow> dump_publication \<Rightarrow> (job_state, ustring, unit) result_state" where
  "deliver_saved env item upload =
     (let rollback = rs_bind (rollback_cancelled env (pr_track_id item) (dp_message upload) True (rip_codec (pr_rip_result item)))
            (\<lambda>_. rs_fail (lit ''cancelled''))
      in rs_bind (is_cancelled env) (\<lambda>c. if c then rollback else
         rs_bind (if \<not> ro_is_cache_only (je_options env) \<and> \<not> je_zip_deliver env
                  then rs_bind (deliver_sequenced env (pr_track_index item) (Some (dp_message upload))) from_result
                  else rs_ret ()) (\<lambda>_.
         rs_bind (is_cancelled env) (\<lambda>c. if c then rollback else rs_ret ()))))"

definition post_upload ::
  "job_env \<Rightarrow> pipeline_rip_result \<Rightarrow> dump_publication \<Rightarrow> (job_state, ustring, unit) result_state" where
  "post_upload env item upload =
     (let retract = call_dep env (je_retract_dump env) (RetractDump [dp_message upload])
      in rs_bind (is_cancelled env) (\<lambda>c.
           if c then rs_bind retract (\<lambda>_. rs_fail (lit ''cancelled''))
           else
           rs_bind (let cache_input = from_rip_result (pr_track_id item) (pr_rip_result item) upload
                    in retried env save_track_with_retry (je_save_track env) (SaveTrack cache_input)) (\<lambda>saved.
           case saved of
             Inl e \<Rightarrow> rs_bind retract (\<lambda>_. rs_fail (lit ''track cache persistence failed: '' @ show_cache_error e))
           | Inr _ \<Rightarrow> deliver_saved env item upload)))"

definition count_ripped :: "rendition \<Rightarrow> job_state \<Rightarrow> job_state" where
  "count_ripped r s =
     (if r = Primary
      then let new_count = js_ripped_count s + 1
           in s\<lparr>js_ripped_count := new_count, js_job := (js_job s)\<lparr>at_ripped_count := new_count\<rparr>\<rparr>
      else s)"

definition settle_upload :: "job_env \<Rightarrow> pipeline_rip_result \<Rightarrow> ustring + unit \<Rightarrow> (job_state, bool, bool) result_state" where
  "settle_upload env item outcome =
     (case outcome of
        Inr _ \<Rightarrow>
          rs_bind (modify (\<lambda>s. emit_progress (count_ripped (pr_rendition item) (remove_upload (upload_key item) s)))) (\<lambda>_.
          rs_ret True)
      | Inl err_msg \<Rightarrow>
          rs_bind (modify (remove_upload (upload_key item))) (\<lambda>_.
          rs_bind (deliver_sequenced env (pr_track_index item) None) (\<lambda>_.
          rs_bind (is_cancelled env) (\<lambda>c. if c then rs_fail False else
          rs_bind (modify (\<lambda>s. emit_progress (upload_failed item err_msg s))) (\<lambda>_. rs_ret False)))))"

definition upload_body :: "job_env \<Rightarrow> pipeline_rip_result \<Rightarrow> (job_state, bool, bool) result_state" where
  "upload_body env item =
     rs_bind (modify (set_codec (Some (tr_codec (pr_rip_result item))))) (\<lambda>_.
     rs_bind (is_cancelled env) (\<lambda>c. if c then rs_fail False else
     rs_bind (pre_cached env item) (\<lambda>cached.
     rs_bind (case cached of None \<Rightarrow> rs_ret () | Some existing \<Rightarrow> deliver_existing env item existing) (\<lambda>_.
     rs_bind (modify (\<lambda>s. emit_progress (upsert_upload (upload_key item) (track_upload item 0 None None None) s))) (\<lambda>_.
     rs_bind (upload_loop env item (unat (rc_retries (je_upload_retry env)) + 1) (machine_caption item) False) (\<lambda>outcome.
     case outcome of
       None \<Rightarrow>
         rs_bind (deliver_sequenced env (pr_track_index item) None) (\<lambda>_.
         rs_bind (modify (\<lambda>s. emit_progress (remove_upload (upload_key item) s))) (\<lambda>_. rs_fail False))
     | Some upload \<Rightarrow>
         rs_bind (caught (post_upload env item upload)) (settle_upload env item)))))))"

definition upload_one :: "job_env \<Rightarrow> pipeline_rip_result \<Rightarrow> job_state \<Rightarrow> bool \<times> job_state" where
  "upload_one env item = returned (upload_body env item)"

section \<open>Staging for the archive\<close>

definition path_join :: "ustring \<Rightarrow> ustring \<Rightarrow> ustring" where
  "path_join dir name = dir @ [uchr CHR ''/''] @ name"

definition zip_warning :: "rendition \<Rightarrow> ustring \<Rightarrow> ustring \<Rightarrow> job_state \<Rightarrow> job_state" where
  "zip_warning r primary optional s =
     (if r = Primary then s\<lparr>js_primary_zip_error := set_primary_zip_error (js_primary_zip_error s) primary\<rparr>
      else s\<lparr>js_atmos_warning := Some optional\<rparr>)"

definition add_source :: "rendition \<Rightarrow> codec option \<Rightarrow> zip_track_entry \<Rightarrow> job_state \<Rightarrow> job_state" where
  "add_source r codec entry s =
     s\<lparr>js_zip_states := update_zip r (\<lambda>z. z\<lparr>zs_codec := (case codec of Some c \<Rightarrow> seed_zip_codec (zs_codec z) c | None \<Rightarrow> zs_codec z),
         zs_sources := zs_sources z @ [entry]\<rparr>) (js_zip_states s)\<rparr>"

definition remove_file :: "job_env \<Rightarrow> ustring \<Rightarrow> (job_state, 'e, unit) result_state" where
  "remove_file env path = call_dep env (\<lambda>_. ()) (\<lambda>_. RemoveFile path)"

definition metadata_len :: "job_env \<Rightarrow> (job_state, 'e, ustring + nat) result_state" where
  "metadata_len env s = (Inr (je_metadata_len env (js_step s)), tick env s)"

definition stage_upload :: "job_env \<Rightarrow> pipeline_rip_result \<Rightarrow> zip_state \<Rightarrow> (job_state, 'e, unit) result_state" where
  "stage_upload env item state =
     (let rip = pr_rip_result item; r = pr_rendition item;
          filename = build_zip_entry_filename_with_codec (Some (tr_track_number rip)) (tr_title rip) (tr_artist rip)
            (pr_track_id item) (tr_codec rip);
          destination = path_join (zs_dir state) filename
      in rs_bind (call_dep env (je_copy env) (CopyFile (tr_file_path rip) destination)) (\<lambda>copied.
         case copied of
           Inl error \<Rightarrow> modify (zip_warning r
             (lit ''primary ZIP staging failed for '' @ pr_track_id item @ lit '': '' @ error)
             (lit ''optional Atmos ZIP staging failed for '' @ pr_track_id item @ lit '': '' @ error))
         | Inr _ \<Rightarrow>
             rs_bind (is_cancelled env) (\<lambda>c. if c then remove_file env destination else
             rs_bind (metadata_len env) (\<lambda>metadata.
             case metadata of
               Inr len \<Rightarrow> modify (add_source r
                 (case rip_codec rip of Some c \<Rightarrow> if codec_allowed_for_rendition r c then Some c else None | None \<Rightarrow> None)
                 \<lparr>zt_file_path = destination, zt_archive_filename = filename, zt_file_size = len\<rparr>)
             | Inl error \<Rightarrow>
                 rs_bind (remove_file env destination) (\<lambda>_. modify (zip_warning r
                   (lit ''primary ZIP source metadata failed for '' @ pr_track_id item @ lit '': '' @ error)
                   (lit ''optional Atmos ZIP source metadata failed for '' @ pr_track_id item @ lit '': '' @ error)))))))"

text \<open>An uploaded track is staged for the archive; its own file is removed in every case.\<close>

definition stage_body :: "job_env \<Rightarrow> pipeline_rip_result \<Rightarrow> bool \<Rightarrow> (job_state, unit, unit) result_state" where
  "stage_body env item uploaded_ok =
     rs_bind (is_cancelled env) (\<lambda>c.
       if uploaded_ok \<and> je_zip_build env \<and> \<not> c
       then with_zip_state (pr_rendition item)
              (\<lambda>state. case state of Some z \<Rightarrow> stage_upload env item z | None \<Rightarrow> rs_ret ())
       else rs_ret ())"

definition run_upload_item :: "job_env \<Rightarrow> pipeline_rip_result \<Rightarrow> job_state \<Rightarrow> job_state" where
  "run_upload_item env item s =
     (case upload_one env item s of (uploaded_ok, s1) \<Rightarrow>
        snd (rs_bind (stage_body env item uploaded_ok) (\<lambda>_. remove_file env (tr_file_path (pr_rip_result item))) s1))"

section \<open>What an upload leaves behind\<close>

lemma fold_keeps: "(\<And>x s. g (f x s) = g s) \<Longrightarrow> g (fold f xs s) = g s"
  by (induction xs arbitrary: s) simp_all

lemma fold_on_upload [job_simps]:
  "counts (fold (on_upload item) ps s) = counts s" "js_calls (fold (on_upload item) ps s) = js_calls s"
  "cancelled (fold (on_upload item) ps s) = cancelled s"
  by (rule fold_keeps, simp add: on_upload_def job_simps split: prod.splits)+

fun is_publish :: "job_call \<Rightarrow> bool" where
  "is_publish (PublishToDump _ _) = True"
| "is_publish _ = False"

definition publishes :: "job_state \<Rightarrow> job_call list" where
  "publishes s = filter is_publish (js_calls s)"

text \<open>The last publication was refused for its caption.\<close>

definition caption_refused :: "job_state \<Rightarrow> bool" where
  "caption_refused s \<longleftrightarrow> publishes s \<noteq> [] \<and> (\<exists>p e. last (publishes s) = PublishToDump p (Some (Inl e)) \<and> caption_rejected e)"

text \<open>
  A message in the dump channel is loose while it is published and neither saved in a cache, as a track or as a part of
  an archive, nor asked to be taken back.
\<close>

fun loose_after :: "job_call \<Rightarrow> message_ref set \<Rightarrow> message_ref set" where
  "loose_after (PublishToDump _ (Some (Inr p))) L = insert (dp_message p) L"
| "loose_after (SaveTrack t (Inr _)) L = L - {ct_message_id t}"
| "loose_after (ReplaceAlbums _ _ _ us (Inr (Committed _))) L = L - set (map au_message_id us)"
| "loose_after (RetractDump ms _) L = L - set ms"
| "loose_after _ L = L"

definition loose :: "job_state \<Rightarrow> message_ref set" where
  "loose s = fold loose_after (js_calls s) {}"

fun hands_over :: "nat \<Rightarrow> job_call \<Rightarrow> bool" where
  "hands_over idx (DeliverSequenced i _ _) = (i = idx)"
| "hands_over _ _ = False"

definition hand_over_count :: "nat \<Rightarrow> job_state \<Rightarrow> nat" where
  "hand_over_count idx s = length (filter (hands_over idx) (js_calls s))"

lemmas obs_defs = publishes_def loose_def hand_over_count_def

lemma deliver_sequenced_wp:
  "rs_wp (deliver_sequenced env idx msg)
     (\<lambda>_ s'. counts s' = counts s \<and> publishes s' = publishes s \<and> loose s' = loose s \<and> (cancelled s \<longrightarrow> cancelled s') \<and>
        (\<forall>i. hand_over_count i s' = hand_over_count i s +
          (if idx = Some i \<and> \<not> ro_is_cache_only (je_options env) \<and> \<not> je_zip_deliver env then 1 else 0)))
     (\<lambda>_ _. False) s"
  by (auto simp: deliver_sequenced_def wp_simps job_simps obs_defs Let_def split: option.splits sum.splits delivery_receipt.splits)

text \<open>The outcome of a call as its counters show it: counted once, or failed once.\<close>

definition failure_of :: "pipeline_rip_result \<Rightarrow> ustring \<Rightarrow> failed_track" where
  "failure_of item err_msg = \<lparr>ft_id = pr_track_id item, ft_error = err_msg, ft_kind = None,
     ft_title = Some (tr_title (pr_rip_result item)), ft_artist = Some (tr_artist (pr_rip_result item)), ft_storefront = None\<rparr>"

definition failed_counts :: "pipeline_rip_result \<Rightarrow> nat \<times> nat \<times> failed_track list \<Rightarrow> nat \<times> nat \<times> failed_track list \<Rightarrow> bool" where
  "failed_counts item before after =
     (case before of (r, c, fs) \<Rightarrow> if pr_rendition item = Primary then (\<exists>e. after = (r, c, fs @ [failure_of item e])) else after = before)"

definition done_counts :: "pipeline_rip_result \<Rightarrow> nat \<times> nat \<times> failed_track list \<Rightarrow> nat \<times> nat \<times> failed_track list \<Rightarrow> bool" where
  "done_counts item before after =
     (case before of (r, c, fs) \<Rightarrow> if pr_rendition item = Primary then after = (r + 1, c, fs) \<or> after = (r, c + 1, fs) else after = before)"

lemma upload_failed_counts: "failed_counts item (counts s) (counts (upload_failed item e s))"
  by (auto simp: failed_counts_def counts_def upload_failed_def record_failure_def push_failure_def failure_of_def Let_def)

lemma failed_counts_from: "counts s = C \<Longrightarrow> failed_counts item C (counts (upload_failed item e s))"
  using upload_failed_counts by metis

lemma upload_failed_simps [job_simps]:
  "js_calls (upload_failed item e s) = js_calls s" "cancelled (upload_failed item e s) = cancelled s"
  by (simp_all add: upload_failed_def record_failure_def job_simps)

definition delivers_tracks :: "job_env \<Rightarrow> bool" where
  "delivers_tracks env \<longleftrightarrow> \<not> ro_is_cache_only (je_options env) \<and> \<not> je_zip_deliver env"

definition handed_once :: "job_env \<Rightarrow> pipeline_rip_result \<Rightarrow> job_state \<Rightarrow> job_state \<Rightarrow> bool" where
  "handed_once env item s s' \<longleftrightarrow>
     (\<forall>i. hand_over_count i s' = hand_over_count i s + (if pr_track_index item = Some i \<and> delivers_tracks env then 1 else 0))"

lemma deliver_failed_wp:
  "rs_wp (deliver_sequenced env (pr_track_index item) msg)
     (\<lambda>_ s'. counts s' = counts s \<and> publishes s' = publishes s \<and> loose s' = loose s \<and> (cancelled s \<longrightarrow> cancelled s') \<and> handed_once env item s s')
     (\<lambda>_ _. False) s"
  by (rule wp_mono [OF deliver_sequenced_wp]) (auto simp: handed_once_def delivers_tracks_def)

definition loop_ends :: "nat \<Rightarrow> job_state \<Rightarrow> dump_publication option \<Rightarrow> job_state \<Rightarrow> bool" where
  "loop_ends left s r s' \<longleftrightarrow>
     counts s' = counts s \<and> length (publishes s') \<le> length (publishes s) + left \<and> (cancelled s \<longrightarrow> cancelled s') \<and>
     (\<forall>i. hand_over_count i s' = hand_over_count i s) \<and>
     (case r of None \<Rightarrow> loose s' = loose s \<and> (cancelled s' \<or> caption_refused s')
      | Some p \<Rightarrow> loose s' = insert (dp_message p) (loose s))"

definition loop_fails :: "job_env \<Rightarrow> pipeline_rip_result \<Rightarrow> nat \<Rightarrow> job_state \<Rightarrow> bool \<Rightarrow> job_state \<Rightarrow> bool" where
  "loop_fails env item left s ok s' \<longleftrightarrow>
     \<not> ok \<and> failed_counts item (counts s) (counts s') \<and> length (publishes s') \<le> length (publishes s) + left \<and>
     (cancelled s \<longrightarrow> cancelled s') \<and> loose s' = loose s \<and> handed_once env item s s'"

text \<open>A failed attempt before the rest of the loop, and the ends of an attempt.\<close>

lemma loop_after_failure:
  assumes calls: "js_calls s1 = js_calls s @ [PublishToDump p (Some (Inl e))]" and keep: "counts s1 = counts s" "cancelled s \<longrightarrow> cancelled s1"
  shows "loop_ends left s1 r s' \<Longrightarrow> loop_ends (Suc left) s r s'" "loop_fails env item left s1 ok s' \<Longrightarrow> loop_fails env item (Suc left) s ok s'"
proof -
  have "length (publishes s1) = Suc (length (publishes s))" "loose s1 = loose s" "\<And>i. hand_over_count i s1 = hand_over_count i s"
    using calls by (simp_all add: obs_defs)
  then show "loop_ends left s1 r s' \<Longrightarrow> loop_ends (Suc left) s r s'" "loop_fails env item left s1 ok s' \<Longrightarrow> loop_fails env item (Suc left) s ok s'"
    using keep by (auto simp: loop_ends_def loop_fails_def handed_once_def split: option.splits)
qed

lemma loop_interrupted:
  assumes "js_calls s1 = js_calls s \<or> (\<exists>p r. js_calls s1 = js_calls s @ [PublishToDump p r] \<and> (\<forall>u. r \<noteq> Some (Inr u)))"
    "counts s1 = counts s" "cancelled s1"
  shows "loop_ends (Suc left) s None s1"
proof -
  have quiet: "loose_after (PublishToDump p r) L = L" if "\<forall>u. r \<noteq> Some (Inr u)" for p r L
    using that by (cases r rule: option.exhaust; cases "the r") auto
  have "length (publishes s1) \<le> Suc (length (publishes s))" "loose s1 = loose s" "\<And>i. hand_over_count i s1 = hand_over_count i s"
    using assms(1) quiet by (auto simp: obs_defs)
  with assms(2,3) show ?thesis by (simp add: loop_ends_def)
qed

lemma loop_published:
  assumes "js_calls s1 = js_calls s @ [PublishToDump p (Some (Inr u))]" "counts s1 = counts s" "cancelled s \<longrightarrow> cancelled s1"
  shows "loop_ends (Suc left) s (Some u) s1"
  using assms by (simp add: loop_ends_def obs_defs)

lemma caption_refused_now: "js_calls s1 = js_calls s @ [PublishToDump p (Some (Inl e))] \<Longrightarrow> caption_rejected e \<Longrightarrow> caption_refused s1"
  by (auto simp: caption_refused_def publishes_def)

lemma give_up_wp:
  assumes "js_calls s1 = js_calls s @ [PublishToDump p (Some (Inl e))]" "counts s1 = counts s" "cancelled s \<longrightarrow> cancelled s1"
  shows "rs_wp (deliver_sequenced env (pr_track_index item) None)
     (\<lambda>_ s'. loop_fails env item (Suc left) s False (emit_progress (remove_upload (upload_key item) s'))) E (upload_failed item m s1)"
proof (rule wp_mono [OF deliver_failed_wp [where s = "upload_failed item m s1"]], goal_cases)
  case (1 a s')
  moreover have "failed_counts item (counts s) (counts (upload_failed item m s1))"
    using upload_failed_counts [of item s1 m] assms(2) by simp
  ultimately show ?case using assms(1,3)
    by (simp add: loop_fails_def handed_once_def obs_defs job_simps)
qed simp

lemma upload_loop_wp:
  "(left = 0 \<Longrightarrow> caption_refused s) \<Longrightarrow>
   rs_wp (upload_loop env item left caption used) (loop_ends left s) (loop_fails env item left s) s"
proof (induction left arbitrary: s caption used)
  case 0
  then show ?case by (simp add: wp_simps loop_ends_def)
next
  case (Suc left)
  have rest: "rs_wp (upload_loop env item left caption' used') (loop_ends (Suc left) s) (loop_fails env item (Suc left) s) s1"
    if "js_calls s1 = js_calls s @ [PublishToDump p (Some (Inl e))]" "counts s1 = counts s" "cancelled s \<longrightarrow> cancelled s1"
      "left = 0 \<longrightarrow> caption_rejected e" for s1 caption' used' p e
    using that caption_refused_now [OF that(1)]
    by (intro wp_mono [OF Suc.IH]) (auto intro: loop_after_failure [OF that(1-3)])
  have rest_none: "rs_wp (upload_loop env item 0 caption' used') (loop_ends (Suc 0) s) (loop_fails env item (Suc 0) s) s1"
    if "left = 0" "js_calls s1 = js_calls s @ [PublishToDump p (Some (Inl e))]" "counts s1 = counts s" "cancelled s \<longrightarrow> cancelled s1"
      "caption_rejected e" for s1 caption' used' p e
    using rest [OF that(2-4)] that(1,5) by blast
  show ?case unfolding upload_loop.simps(2)
    by (auto simp: wp_simps Let_def job_simps simp del: upload_loop.simps split: sum.splits
        intro!: rest rest_none give_up_wp loop_interrupted loop_published)
qed

text \<open>After the publication the message is saved or taken back, whatever happens.\<close>

definition settled :: "dump_publication \<Rightarrow> job_state \<Rightarrow> job_state \<Rightarrow> bool" where
  "settled upload s s' \<longleftrightarrow>
     counts s' = counts s \<and> publishes s' = publishes s \<and> (cancelled s \<longrightarrow> cancelled s') \<and>
     loose s' \<subseteq> loose s - {dp_message upload} \<and> (\<forall>i. hand_over_count i s \<le> hand_over_count i s')"

lemma settled_step:
  "settled upload s s1 \<Longrightarrow> counts s2 = counts s1 \<Longrightarrow> (cancelled s1 \<longrightarrow> cancelled s2) \<Longrightarrow>
   js_calls s2 = js_calls s1 \<or> js_calls s2 = js_calls s1 @ [RetractDump ms r] \<or> js_calls s2 = js_calls s1 @ [DeleteTrack i c r'] \<or>
   js_calls s2 = js_calls s1 @ [RetractDump ms r, DeleteTrack i c r'] \<Longrightarrow> settled upload s s2"
  by (auto simp: settled_def obs_defs)

lemma rollback_wp:
  assumes "settled upload s s1"
  shows "rs_wp (rollback_cancelled env i m d c) (\<lambda>_. settled upload s) E s1"
  using assms by (auto simp: rollback_cancelled_def wp_simps job_simps Let_def intro!: settled_step [OF assms])

lemma settled_saved:
  assumes "js_calls s1 = js_calls s @ [SaveTrack (from_rip_result i rip upload) (Inr ())]" "counts s1 = counts s" "cancelled s \<longrightarrow> cancelled s1"
  shows "settled upload s s1"
  using assms by (auto simp: settled_def obs_defs from_rip_result_def)

lemma settled_retracted:
  assumes "js_calls s1 = js_calls s @ [RetractDump [dp_message upload] r] \<or>
      js_calls s1 = js_calls s @ [SaveTrack t (Inl e), RetractDump [dp_message upload] r]" "counts s1 = counts s" "cancelled s \<longrightarrow> cancelled s1"
  shows "settled upload s s1"
  using assms by (auto simp: settled_def obs_defs)

lemma settled_delivered:
  fixes item :: pipeline_rip_result
  assumes "settled upload s s1"
  shows "rs_wp (deliver_sequenced env (pr_track_index item) msg) (\<lambda>_ s'. settled upload s s' \<and>
      (\<forall>i. pr_track_index item = Some i \<and> delivers_tracks env \<longrightarrow> hand_over_count i s < hand_over_count i s')) E s1"
  using assms by (intro wp_mono [OF deliver_failed_wp]) (auto simp: settled_def handed_once_def le_imp_less_Suc le_SucI split: if_splits)

lemma settled_tick: "settled upload s s1 \<Longrightarrow> settled upload s (tick env s1)"
  by (auto simp: settled_def obs_defs job_simps)

abbreviation handed_over :: "job_env \<Rightarrow> pipeline_rip_result \<Rightarrow> job_state \<Rightarrow> job_state \<Rightarrow> bool" where
  "handed_over env item s s' \<equiv> (\<forall>i. pr_track_index item = Some i \<and> delivers_tracks env \<longrightarrow> hand_over_count i s < hand_over_count i s')"

lemma obs_tick [job_simps]: "publishes (tick env s) = publishes s" "loose (tick env s) = loose s" "hand_over_count i (tick env s) = hand_over_count i s"
  by (simp_all add: obs_defs job_simps)

lemma deliver_saved_wp:
  assumes "settled upload s s1"
  shows "rs_wp (deliver_saved env item upload) (\<lambda>_ s'. settled upload s s' \<and> handed_over env item s s') (\<lambda>_. settled upload s) s1"
proof -
  note start = settled_tick [OF assms, of env]
  have idle: "rs_wp (deliver_sequenced env (pr_track_index item) (Some (dp_message upload))) (\<lambda>_ s'. settled upload s s' \<and> handed_over env item s s')
      (\<lambda>_ _. False) (tick env s1)" by (rule settled_delivered [OF start])
  consider "cancelled (tick env s1)" | "\<not> cancelled (tick env s1)" "delivers_tracks env" | "\<not> cancelled (tick env s1)" "\<not> delivers_tracks env" by blast
  then show ?thesis
  proof cases
    case 1
    then show ?thesis using start by (auto simp: deliver_saved_def wp_simps Let_def intro!: rollback_wp)
  next
    case 2
    then show ?thesis
      by (simp add: deliver_saved_def wp_simps Let_def delivers_tracks_def)
        (rule wp_mono [OF idle], auto simp: wp_simps job_simps delivers_tracks_def split: sum.splits intro: rollback_wp settled_tick)
  next
    case 3
    then show ?thesis using settled_tick [OF start, of env]
      by (auto simp: deliver_saved_def wp_simps Let_def delivers_tracks_def intro!: rollback_wp)
  qed
qed

lemma post_upload_wp:
  "rs_wp (post_upload env item upload) (\<lambda>_ s'. settled upload s s' \<and> handed_over env item s s') (\<lambda>_. settled upload s) s"
proof -
  obtain r slept where save: "save_track_with_retry (\<lambda>i. je_save_track env (js_step (tick env s) + i)) (je_storage_retry env) = (r, slept)"
    by fastforce
  show ?thesis
  proof (cases r)
    case (Inl e)
    with save show ?thesis
      by (auto simp: post_upload_def wp_simps Let_def job_simps intro!: settled_retracted)
  next
    case (Inr u)
    with save show ?thesis
      by (auto simp: post_upload_def wp_simps Let_def job_simps intro!: deliver_saved_wp intro: settled_saved settled_retracted)
  qed
qed

text \<open>The whole call.\<close>

definition upload_ends :: "job_env \<Rightarrow> pipeline_rip_result \<Rightarrow> job_state \<Rightarrow> bool \<Rightarrow> job_state \<Rightarrow> bool" where
  "upload_ends env item s ok s' \<longleftrightarrow>
     length (publishes s') \<le> length (publishes s) + unat (rc_retries (je_upload_retry env)) + 1 \<and>
     loose s' \<subseteq> loose s \<and>
     (\<not> cancelled s' \<longrightarrow>
        (if ok then done_counts item (counts s) (counts s')
         else failed_counts item (counts s) (counts s') \<or> (counts s' = counts s \<and> caption_refused s')) \<and>
        handed_over env item s s')"

lemma settle_upload_wp:
  assumes calls: "length (publishes s1) \<le> length (publishes s) + unat (rc_retries (je_upload_retry env)) + 1" "loose s1 \<subseteq> loose s"
    and keep: "counts s1 = counts s" "\<And>i. hand_over_count i s \<le> hand_over_count i s1" and
    r: "case r of Inr _ \<Rightarrow> handed_over env item s s1 | Inl _ \<Rightarrow> True"
  shows "rs_wp (settle_upload env item r) (upload_ends env item s) (upload_ends env item s) s1"
proof (cases r)
  case (Inr u)
  have "done_counts item (counts s1) (counts (count_ripped (pr_rendition item) s'))" if "counts s' = counts s1" for s'
    using that by (auto simp: done_counts_def count_ripped_def counts_def Let_def)
  moreover have "js_calls (count_ripped R s') = js_calls s'" "cancelled (count_ripped R s') = cancelled s'" for R s'
    by (simp_all add: count_ripped_def cancelled_def Let_def)
  ultimately show ?thesis using assms Inr
    by (simp add: settle_upload_def wp_simps upload_ends_def job_simps obs_defs)
next
  case (Inl e)
  show ?thesis unfolding Inl
    by (simp add: settle_upload_def wp_simps)
      (rule wp_mono [OF deliver_failed_wp [where item = item]], goal_cases, insert assms(1-4),
        auto simp: failed_counts_from upload_ends_def job_simps obs_defs handed_once_def le_imp_less_Suc split: if_splits)
qed

definition undisturbed :: "job_state \<Rightarrow> job_state \<Rightarrow> bool" where
  "undisturbed s s' \<longleftrightarrow> counts s' = counts s \<and> publishes s' = publishes s \<and> loose s' = loose s \<and>
     (\<forall>i. hand_over_count i s \<le> hand_over_count i s')"

lemma undisturbed_step:
  "undisturbed s s1 \<Longrightarrow> counts s2 = counts s1 \<Longrightarrow>
   js_calls s2 = js_calls s1 \<or> js_calls s2 = js_calls s1 @ [FindCachedTracks ids] \<or> js_calls s2 = js_calls s1 @ [DeleteTrack i c r] \<Longrightarrow>
   undisturbed s s2"
  by (auto simp: undisturbed_def obs_defs)

lemma cancelled_ends: "undisturbed s s' \<Longrightarrow> cancelled s' \<Longrightarrow> upload_ends env item s False s'"
  by (simp add: upload_ends_def undisturbed_def)

lemma delivered_ends:
  assumes "undisturbed s s'" "handed_over env item s s'"
  shows "upload_ends env item s True (emit_progress (set_job_activity a (count_cached (pr_rendition item) (remove_upload k s'))))"
proof -
  have "done_counts item (counts s) (counts (count_cached (pr_rendition item) (remove_upload k s')))"
    using assms(1) by (auto simp: done_counts_def count_cached_def counts_def undisturbed_def remove_upload_def)
  moreover have "js_calls (count_cached R s1) = js_calls s1" for R s1 by (simp add: count_cached_def)
  ultimately show ?thesis using assms
    by (auto simp: upload_ends_def undisturbed_def job_simps obs_defs)
qed

lemma existing_delivery_wp:
  fixes item :: pipeline_rip_result
  assumes "undisturbed s s1"
  shows "rs_wp (deliver_sequenced env (pr_track_index item) msg)
    (\<lambda>_ s'. undisturbed s s' \<and> handed_over env item s s') (\<lambda>_ _. False) s1"
  using assms by (intro wp_mono [OF deliver_failed_wp])
    (auto simp: undisturbed_def handed_once_def le_imp_less_Suc le_SucI split: if_splits)

lemma deliver_existing_wp:
  assumes "undisturbed s s1"
  shows "rs_wp (deliver_existing env item cached) (\<lambda>_. undisturbed s) (upload_ends env item s) s1"
proof -
  have start: "undisturbed s (tick env s1)" using assms by (rule undisturbed_step) (simp_all add: job_simps)
  have next_look: "undisturbed s (tick env s2)" if "undisturbed s s2" for s2 using that by (rule undisturbed_step) (simp_all add: job_simps)
  have deleted: "undisturbed s (note_call (DeleteTrack i c r) (tick env s2))" if "undisturbed s s2" for s2 i c r
    using that by (rule undisturbed_step) (simp_all add: job_simps)
  show ?thesis
  proof (cases "delivers_tracks env")
    case True
    then show ?thesis
      by (simp add: deliver_existing_def wp_simps delivers_tracks_def)
        (intro conjI impI, simp add: cancelled_ends [OF start], rule wp_mono [OF existing_delivery_wp [OF start, of env item]],
          auto simp: wp_simps job_simps delivers_tracks_def Let_def split: sum.splits intro!: delivered_ends cancelled_ends next_look deleted)
  next
    case False
    then show ?thesis
      by (auto simp: deliver_existing_def wp_simps delivers_tracks_def intro!: delivered_ends cancelled_ends next_look start)
  qed
qed

lemma loop_ends_upload:
  fixes item :: pipeline_rip_result
  assumes start: "undisturbed s s1" and lp: "loop_ends (unat (rc_retries (je_upload_retry env)) + 1) s1 outcome s2"
  shows "rs_wp (case outcome of
       None \<Rightarrow>
         rs_bind (deliver_sequenced env (pr_track_index item) None) (\<lambda>_.
         rs_bind (modify (\<lambda>s. emit_progress (remove_upload (upload_key item) s))) (\<lambda>_. rs_fail False))
     | Some upload \<Rightarrow>
         rs_bind (caught (post_upload env item upload)) (settle_upload env item))
   (upload_ends env item s) (upload_ends env item s) s2"
proof (cases outcome)
  case None
  with assms show ?thesis
    by (simp add: wp_simps)
      (rule wp_mono [OF deliver_failed_wp [where item = item]],
        auto simp: upload_ends_def job_simps loop_ends_def undisturbed_def handed_once_def caption_refused_def obs_defs le_imp_less_Suc split: if_splits)
next
  case (Some upload)
  from assms Some have s2: "counts s2 = counts s" "loose s2 = insert (dp_message upload) (loose s)"
    "length (publishes s2) \<le> length (publishes s) + unat (rc_retries (je_upload_retry env)) + 1" "\<And>i. hand_over_count i s \<le> hand_over_count i s2"
    by (simp_all add: loop_ends_def undisturbed_def)
  have "rs_wp (settle_upload env item r) (upload_ends env item s) (upload_ends env item s) s3"
    if "settled upload s2 s3" "case r of Inr _ \<Rightarrow> handed_over env item s2 s3 | Inl _ \<Rightarrow> True" for r s3
  proof (rule settle_upload_wp)
    show "case r of Inr _ \<Rightarrow> handed_over env item s s3 | Inl _ \<Rightarrow> True"
      using that(2) s2(4) by (auto split: sum.splits intro: le_less_trans)
    show "hand_over_count i s \<le> hand_over_count i s3" for i using that(1) s2(4) by (auto simp: settled_def intro: order_trans)
  qed (use that(1) s2 in \<open>auto simp: settled_def\<close>)
  with Some show ?thesis
    by (simp add: wp_simps) (rule wp_mono [OF post_upload_wp], auto)
qed

lemma upload_body_wp: "rs_wp (upload_body env item) (upload_ends env item s) (upload_ends env item s) s"
proof -
  let ?s1 = "tick env (set_codec (Some (tr_codec (pr_rip_result item))) s)"
  let ?show = "\<lambda>s. emit_progress (upsert_upload (upload_key item) (track_upload item 0 None None None) s)"
  have start: "undisturbed s ?s1" by (simp add: undisturbed_def obs_defs job_simps)
  have looped: "rs_wp (upload_loop env item (unat (rc_retries (je_upload_retry env)) + 1) (machine_caption item) False)
      (\<lambda>outcome. rs_wp (case outcome of
       None \<Rightarrow>
         rs_bind (deliver_sequenced env (pr_track_index item) None) (\<lambda>_.
         rs_bind (modify (\<lambda>s. emit_progress (remove_upload (upload_key item) s))) (\<lambda>_. rs_fail False))
     | Some upload \<Rightarrow>
         rs_bind (caught (post_upload env item upload)) (settle_upload env item)) (upload_ends env item s) (upload_ends env item s))
      (upload_ends env item s) (?show s2)" if s2: "undisturbed s s2" for s2
  proof -
    have shown: "undisturbed s (?show s2)" using s2 by (rule undisturbed_step) (simp_all add: job_simps)
    show ?thesis
    proof (rule wp_mono [OF upload_loop_wp], goal_cases)
      case (2 outcome s3)
      with loop_ends_upload [OF shown] show ?case by simp
    next
      case (3 ok s3)
      with shown show ?case by (auto simp: loop_fails_def upload_ends_def undisturbed_def handed_once_def le_imp_less_Suc)
    qed simp
  qed
  have found: "rs_wp (pre_cached env item) (\<lambda>_. undisturbed s) (\<lambda>_ _. False) ?s1"
    using start by (auto simp: pre_cached_def wp_simps split: prod.splits sum.splits intro!: undisturbed_step [OF start] simp: job_simps)
  show ?thesis
  proof (cases "cancelled ?s1")
    case True
    then show ?thesis by (simp add: upload_body_def wp_simps cancelled_ends [OF start])
  next
    case False
    show ?thesis
      unfolding upload_body_def wp_bind wp_modify wp_is_cancelled if_not_P [OF False]
    proof (rule wp_mono [OF found], goal_cases)
      case (1 cached s2)
      show ?case
      proof (cases cached)
        case None
        then show ?thesis using looped [OF 1] by (simp add: wp_ret)
      next
        case (Some existing)
        show ?thesis unfolding Some option.case by (rule wp_mono [OF deliver_existing_wp [OF 1]]) (use looped in blast)+
      qed
    qed simp
  qed
qed


definition plain_item :: pipeline_rip_result where
  "plain_item = \<lparr>pr_track_id = lit ''t'', pr_rip_result = plain_rip, pr_start_time_ms = 0, pr_rendition = Primary, pr_track_index = Some 1, pr_total_tracks = Some 2\<rparr>"

text \<open>With no retries left, a caption the channel refuses loses the track without a recorded failure.\<close>

definition refusing_env :: job_env where
  "refusing_env = plain_env\<lparr>je_publish_to_dump := (\<lambda>_. Inl (Rejected CaptionTooLong))\<rparr>"

lemmas run_defs = returned_def upload_body_def rs_bind_def rs_ret_def rs_fail_def modify_def is_cancelled_def call_dep_def
  race_dep_def retried_def pre_cached_def deliver_sequenced_def caught_def Let_def

lemma caption_refusal_unrecorded:
  "case upload_one refusing_env plain_item plain_state of (ok, s') \<Rightarrow>
     \<not> ok \<and> \<not> cancelled s' \<and> counts s' = counts plain_state \<and> js_fatal_error s' = None"
  by (simp add: upload_one_def run_defs refusing_env_def plain_env_def plain_item_def plain_rip_def plain_options_def plain_state_def
      RetryPolicy_new_def find_cached_tracks_with_retry_def retry_loop.simps find_existing_def or_else_def first_of_def hm_get_def
      rip_codec_def Codec_from_str_def tick_def cancelled_def new_job_def caption_rejected_def counts_def set_codec_def note_call_def
      emit_progress_def upsert_upload_def remove_upload_def)


section \<open>Staging\<close>

lemma stage_body_ok: "\<exists>s'. stage_body env item ok s = (Inr (), s')"
proof -
  have "rs_wp (stage_body env item ok) (\<lambda>_ _. True) (\<lambda>_ _. False) s"
    by (auto simp: stage_body_def stage_upload_def wp_simps Let_def remove_file_def metadata_len_def rs_wp_def rs_ret_def
        rs_bind_def call_dep_def is_cancelled_def modify_def with_zip_state_def split: option.splits sum.splits)
  then show ?thesis by (auto simp: rs_wp_def split: prod.splits sum.splits)
qed

text \<open>Whatever the upload did, the last thing its task does is to remove the ripped file.\<close>

lemma upload_removes_file:
  "\<exists>calls. js_calls (run_upload_item env item s) = calls @ [RemoveFile (tr_file_path (pr_rip_result item))]"
proof -
  obtain ok s1 where up: "upload_one env item s = (ok, s1)" by fastforce
  obtain s2 where "stage_body env item ok s1 = (Inr (), s2)" using stage_body_ok by blast
  with up show ?thesis by (simp add: run_upload_item_def rs_bind_def remove_file_def call_dep_def job_simps)
qed

end
