(* ===== verification/Finalize.thy ===== *)
theory Finalize
  imports Upload_Lane Zip_Plan
begin

text \<open>
  The end of a job (\<open>crates/engine/src/orchestrator/finalize.rs\<close>): after the last upload the album archives are
  built, published to the dump channel, copied to the chat and recorded in the archive cache, and the summary
  of the job is sent to whoever waits for it. The ledger of \<open>zip_state.rs\<close> remembers the archive messages
  that no cache entry owns yet; what is still in it when the finalisation fails or is cancelled is taken back.

  Building one archive is an answer of the environment; the theory \<open>Zip_Archive\<close> is its model. Elapsed
  times stay in milliseconds.
\<close>

section \<open>Data\<close>

record rip_task_summary =
  su_job_id :: string
  su_job_header :: string
  su_total_tracks :: nat
  su_cached_count :: nat
  su_ripped_count :: nat
  su_failed_count :: nat
  su_failed_tracks :: "failed_track list"
  su_skipped_uncached_tracks :: "ustring list"
  su_total_elapsed_ms :: u64
  su_is_cache_only :: bool
  su_is_group :: bool
  su_warnings :: "ustring list"
  su_zip_delivery :: "zip_delivery_info option"
  su_zip_deliveries :: "zip_delivery_info list"
  su_first_delivered_msg_id :: "i64 option"
  su_codec :: "string option"

fun show_zip_error :: "job_env \<Rightarrow> zip_error \<Rightarrow> ustring" where
  "show_zip_error env ZipEmpty = lit ''ZIP contains no tracks''"
| "show_zip_error env InvalidLimit = lit ''ZIP size limit must be greater than zero''"
| "show_zip_error env (InvalidEntryName name) = lit ''archive entry name is invalid: '' @ name"
| "show_zip_error env (DuplicateEntry name) = lit ''archive entry name is duplicated: '' @ name"
| "show_zip_error env (TrackTooLarge name) = lit ''track '' @ name @ lit '' is larger than the ZIP part limit''"
| "show_zip_error env (ZipSource path e) =
     lit ''source file '' @ je_debug_path env path @ lit '' is missing or unreadable: '' @ lit e"
| "show_zip_error env ZipCancelled = lit ''ZIP build cancelled''"
| "show_zip_error env (ZipIo e) = lit ''ZIP I/O failed: '' @ lit e"
| "show_zip_error env (ZipWriter e) = lit ''ZIP writer failed: '' @ lit e"

text \<open>Conversions with \<open>as\<close> keep the low bits.\<close>

definition as_i32 :: "nat \<Rightarrow> i32" where
  "as_i32 n = (int n + 2 ^ 31) mod 2 ^ 32 - 2 ^ 31"

definition as_i64 :: "nat \<Rightarrow> i64" where
  "as_i64 n = (int n + 2 ^ 63) mod 2 ^ 64 - 2 ^ 63"

text \<open>The order of strings, which is the order of their scalar values, and the stable sort by archive name.\<close>

fun ustring_le :: "ustring \<Rightarrow> ustring \<Rightarrow> bool" where
  "ustring_le [] _ = True"
| "ustring_le (_ # _) [] = False"
| "ustring_le (a # s) (b # t) = (if a = b then ustring_le s t else a < b)"

fun insert_entry :: "zip_track_entry \<Rightarrow> zip_track_entry list \<Rightarrow> zip_track_entry list" where
  "insert_entry e [] = [e]"
| "insert_entry e (f # fs) =
     (if ustring_le (zt_archive_filename e) (zt_archive_filename f) then e # f # fs else f # insert_entry e fs)"

definition sort_entries :: "zip_track_entry list \<Rightarrow> zip_track_entry list" where
  "sort_entries es = foldr insert_entry es []"

section \<open>Ends of the finalisation\<close>

text \<open>
  \<open>finalize_zip_inner\<close> leaves its loops by \<open>return\<close>: with an error, or with the first delivery so far. Both are
  the error of the monad here, and the end of the function turns them back.
\<close>

type_synonym zip_end = "ustring + zip_delivery_info option"

definition look :: "(job_state \<Rightarrow> 'a) \<Rightarrow> (job_state, 'e, 'a) result_state" where
  "look f s = (Inr (f s), s)"

definition stop_if_cancelled :: "job_env \<Rightarrow> zip_delivery_info option \<Rightarrow> (job_state, zip_end, unit) result_state" where
  "stop_if_cancelled env first = rs_bind (is_cancelled env) (\<lambda>c. if c then rs_fail (Inr first) else rs_ret ())"

definition or_return :: "(job_state, ustring, 'a) result_state \<Rightarrow> (job_state, zip_end, 'a) result_state" where
  "or_return m = rs_bind (caught m) (\<lambda>r. case r of Inl e \<Rightarrow> rs_fail (Inl e) | Inr a \<Rightarrow> rs_ret a)"

definition delivers_zip :: "job_env \<Rightarrow> bool" where
  "delivers_zip env \<longleftrightarrow> je_zip_deliver env \<and> \<not> ro_is_cache_only (je_options env)"

definition zip_info ::
  "job_env \<Rightarrow> nat \<Rightarrow> nat option \<Rightarrow> nat \<Rightarrow> i64 \<Rightarrow> bool \<Rightarrow> bool \<Rightarrow> string \<Rightarrow> zip_delivery_info" where
  "zip_info env expected_tracks delivered_tracks parts bytes partial photo codec =
     \<lparr>zi_album = je_zip_album env, zi_artist = je_zip_artist env, zi_release_year = take 4 (je_zip_release_date env),
      zi_total_tracks = expected_tracks, zi_delivered_tracks = delivered_tracks, zi_total_parts = parts,
      zi_size_bytes = bytes, zi_is_partial = partial, zi_album_id = je_zip_album_id env, zi_album_url = je_zip_album_url env,
      zi_artwork_url = je_zip_artwork_url env, zi_genre = je_zip_genre env, zi_record_label = je_zip_record_label env,
      zi_copyright = je_zip_copyright env, zi_photo_delivered = photo, zi_codec = Some codec\<rparr>"

definition push_info ::
  "zip_delivery_info \<Rightarrow> zip_delivery_info option \<Rightarrow> (job_state, zip_end, zip_delivery_info option) result_state" where
  "push_info info first =
     rs_bind (modify (\<lambda>s. s\<lparr>js_zip_delivery_infos := js_zip_delivery_infos s @ [info]\<rparr>)) (\<lambda>_. rs_ret (or_else first (Some info)))"

section \<open>Archives that the cache has\<close>

text \<open>\<open>deliver_cached_zip_rows\<close>: the parts in order; a failure ends the job for the primary rendition only.\<close>

fun deliver_rows ::
  "job_env \<Rightarrow> rendition \<Rightarrow> bool \<Rightarrow> cached_album list \<Rightarrow> nat \<Rightarrow> i64 \<Rightarrow> (job_state, ustring, nat \<times> i64) result_state" where
  "deliver_rows env r silent [] delivered bytes = rs_ret (delivered, bytes)"
| "deliver_rows env r silent (row # rows) delivered bytes =
     rs_bind (is_cancelled env) (\<lambda>c. if c then rs_ret (delivered, bytes) else
     rs_bind (call_dep env (je_deliver_to_chat env) (\<lambda>x. DeliverToChat (dump_copy env (ca_message_id row) silent) (Some x))) (\<lambda>result.
     case result of
       Inr (Message sent_id) \<Rightarrow>
         rs_bind (is_cancelled env) (\<lambda>c. if c then rs_ret (delivered, bytes) else
         rs_bind (modify (remember_first sent_id)) (\<lambda>_. deliver_rows env r silent rows (delivered + 1) (bytes + ca_file_size row)))
     | Inr PreviewDelivered \<Rightarrow>
         if r = Primary then rs_fail (lit ''primary ZIP delivery returned a preview receipt'')
         else deliver_rows env r silent rows delivered bytes
     | Inl e \<Rightarrow>
         if r = Primary then rs_fail (lit ''primary ZIP delivery failed: '' @ show_delivery_error e)
         else deliver_rows env r silent rows delivered bytes))"

definition deliver_cached_zip_rows ::
  "job_env \<Rightarrow> rendition \<Rightarrow> cached_album list \<Rightarrow> (job_state, ustring, nat \<times> i64) result_state" where
  "deliver_cached_zip_rows env r rows = deliver_rows env r (length rows > 1) rows 0 0"

definition deliver_archive ::
  "job_env \<Rightarrow> nat \<Rightarrow> rendition \<Rightarrow> cached_album list \<Rightarrow> zip_delivery_info option \<Rightarrow>
   (job_state, zip_end, zip_delivery_info option) result_state" where
  "deliver_archive env expected_tracks r rows first =
     (if delivers_zip env
      then rs_bind (or_return (deliver_cached_zip_rows env r rows)) (\<lambda>(delivered, bytes).
        if delivered > 0
        then push_info (zip_info env expected_tracks
               (if r = Primary then Some expected_tracks else je_zip_reuse_atmos_track_count env)
               delivered bytes False False (codec_as_str (ca_codec (hd rows)))) first
        else rs_ret first)
      else rs_ret first)"

text \<open>
  Rows that make up a whole archive of this generation. The cast of a part index to \<open>usize\<close> meets a part
  number only when both are the same number.
\<close>

definition archive_complete :: "zip_state \<Rightarrow> cached_album list \<Rightarrow> bool" where
  "archive_complete state rows \<longleftrightarrow>
     (case zs_generation_hash state of Some hash \<Rightarrow> list_all (\<lambda>row. ca_generation_hash row = hash) rows | None \<Rightarrow> True) \<and>
     rows \<noteq> [] \<and> length rows = nat (max 1 (ca_total_parts (hd rows))) \<and>
     list_all (\<lambda>(n, row). ca_part_index row = int n) (enumerate 1 rows)"

definition existing_archive ::
  "job_env \<Rightarrow> zip_state \<Rightarrow> codec \<Rightarrow> bool \<Rightarrow> (job_state, 'e, cached_album list option) result_state" where
  "existing_archive env state album_codec complete =
     (if complete \<and> \<not> (ro_is_force (je_options env) \<and> ro_is_admin (je_options env))
      then rs_bind (call_dep env (je_find_albums env) (FindAlbums (je_zip_album_id env) (Some album_codec))) (\<lambda>found.
        case found of
          Inr rows \<Rightarrow> rs_ret (if archive_complete state rows then Some rows else None)
        | Inl _ \<Rightarrow> rs_ret None)
      else rs_ret None)"

section \<open>Building and sending one part\<close>

record part_progress =
  pp_parts :: nat
  pp_size :: i64
  pp_all_uploaded :: bool
  pp_uploads :: "album_upload list"
  pp_messages :: "message_ref list"

definition fetch_artwork :: "job_env \<Rightarrow> ustring \<Rightarrow> (job_state, 'e, bytes option) result_state" where
  "fetch_artwork env url = call_dep env (je_fetch_artwork env) (FetchArtwork url)"

definition write_file :: "job_env \<Rightarrow> ustring \<Rightarrow> (job_state, 'e, ustring option) result_state" where
  "write_file env path =
     rs_bind (call_dep env (je_write env) (WriteFile path)) (\<lambda>ok. rs_ret (if ok then Some path else None))"

text \<open>The cover and its thumbnail, as files of the workspace, and the bytes of the cover.\<close>

definition fetch_covers ::
  "job_env \<Rightarrow> zip_state \<Rightarrow> zip_delivery_info option \<Rightarrow>
   (job_state, zip_end, bytes option \<times> ustring option \<times> ustring option) result_state" where
  "fetch_covers env state first =
     rs_bind (case je_zip_artwork_url env of Some url \<Rightarrow> fetch_artwork env url | None \<Rightarrow> rs_ret None) (\<lambda>cover_bytes.
     rs_bind (stop_if_cancelled env first) (\<lambda>_.
     rs_bind (case cover_bytes of Some _ \<Rightarrow> write_file env (path_join (zs_dir state) (lit ''cover.jpg'')) | None \<Rightarrow> rs_ret None) (\<lambda>cover_path.
     rs_bind (case je_zip_artwork_url env of
                Some url \<Rightarrow>
                  if url = [] then rs_ret None
                  else rs_bind (fetch_artwork env (je_artwork_url_at_size env url 320)) (\<lambda>thumb.
                    case thumb of
                      Some bytes \<Rightarrow> if bytes = [] then rs_ret None else write_file env (path_join (zs_dir state) (lit ''cover_thumb.jpg''))
                    | None \<Rightarrow> rs_ret None)
              | None \<Rightarrow> rs_ret None) (\<lambda>thumb_path.
     rs_bind (stop_if_cancelled env first) (\<lambda>_. rs_ret (cover_bytes, cover_path, thumb_path))))))"

definition skip_part ::
  "rendition \<Rightarrow> ustring \<Rightarrow> part_progress \<Rightarrow> (job_state, zip_end, part_progress) result_state" where
  "skip_part r error acc = (if r = Primary then rs_fail (Inl error) else rs_ret (acc\<lparr>pp_all_uploaded := False\<rparr>))"

definition archive_key :: "string \<Rightarrow> rendition \<Rightarrow> zip_part_plan \<Rightarrow> string" where
  "archive_key stage r plan = ''archive_'' @ stage @ ''_'' @ show_rendition r @ ''_'' @ show_nat (zp_part_index plan)"

definition show_lane :: "string \<Rightarrow> upload_lane \<Rightarrow> job_state \<Rightarrow> job_state" where
  "show_lane key lane s = emit_progress (upsert_upload key lane s)"

definition hide_lane :: "string \<Rightarrow> job_state \<Rightarrow> job_state" where
  "hide_lane key s = emit_progress (remove_upload key s)"

text \<open>The task that builds the archive; a panic of the task leaves its lane on display.\<close>

definition build_archive ::
  "job_env \<Rightarrow> zip_state \<Rightarrow> codec \<Rightarrow> zip_part_plan \<Rightarrow> ustring \<Rightarrow> ustring \<Rightarrow> (job_state, 'e, ustring + (ustring + nat)) result_state" where
  "build_archive env state album_codec plan archive_name output s =
     (let key = archive_key ''build'' (zs_rendition state) plan;
          lane = (\<lambda>done tot. ArchiveBuild (utf8 archive_name) \<lparr>bp_completed = done, bp_total = tot\<rparr>);
          s1 = show_lane key (lane 0 None) (set_codec (Some (codec_as_str album_codec)) s);
          s2 = fold (\<lambda>(uploaded, tot, _, _). show_lane key (lane uploaded (Some tot))) (je_progress env (js_step s1)) s1;
          built = je_build_archive env (js_step s1);
          s3 = note_call (BuildArchive output plan built) (tick env s2)
      in (Inr built, case built of Inl _ \<Rightarrow> s3 | Inr _ \<Rightarrow> hide_lane key s3))"

definition zip_caption_of :: "job_env \<Rightarrow> zip_state \<Rightarrow> codec \<Rightarrow> bool \<Rightarrow> zip_part_plan \<Rightarrow> zip_caption" where
  "zip_caption_of env state album_codec complete plan =
     \<lparr>zc_album_id = je_zip_album_id env, zc_codec = Some (codec_as_str album_codec),
      zc_part_index = as_i32 (zp_part_index plan), zc_total_parts = as_i32 (zp_total_parts plan),
      zc_generation_hash = (case zs_generation_hash state of Some h \<Rightarrow> h | None \<Rightarrow> []), zc_is_complete = complete\<rparr>"

datatype zip_send_outcome = Published dump_publication | Delivered

text \<open>
  A complete part goes to the dump channel, an incomplete one straight to the chat; a cancellation during
  the call ends the finalisation.
\<close>

definition send_part ::
  "job_env \<Rightarrow> zip_delivery_info option \<Rightarrow> zip_state \<Rightarrow> codec \<Rightarrow> bool \<Rightarrow> zip_part_plan \<Rightarrow> ustring \<Rightarrow> ustring \<Rightarrow> ustring option \<Rightarrow>
   (job_state, zip_end, delivery_error + zip_send_outcome) result_state" where
  "send_part env first state album_codec complete plan archive_name output thumb_path =
     (let key = archive_key ''upload'' (zs_rendition state) plan;
          lane = (\<lambda>done tot. ArchiveUpload (utf8 archive_name) \<lparr>bp_completed = done, bp_total = tot\<rparr>);
          report = (\<lambda>(uploaded, tot, worker, dc). show_lane key (lane uploaded (if tot > 0 then Some tot else None) worker dc));
          caption = zip_caption_of env state album_codec complete plan;
          interrupted = rs_bind (modify (hide_lane key)) (\<lambda>_. rs_fail (Inr first))
      in rs_bind (modify (\<lambda>s. show_lane key (lane 0 None None None) (set_codec (Some (codec_as_str album_codec)) s))) (\<lambda>_.
         rs_bind
           (if complete
            then rs_bind (race_dep env (je_publish_to_dump env) (PublishToDump (ZipPublish output thumb_path caption)) report) (\<lambda>result.
              case result of
                None \<Rightarrow> interrupted
              | Some (Inr upload) \<Rightarrow> rs_ret (Inr (Published upload))
              | Some (Inl e) \<Rightarrow> rs_ret (Inl e))
            else rs_bind (race_dep env (je_deliver_to_chat env)
                (DeliverToChat (ZipToChat (ro_delivery_chat_id (je_options env)) output thumb_path caption)) report) (\<lambda>result.
              case result of
                None \<Rightarrow> interrupted
              | Some (Inr (Message sent_id)) \<Rightarrow> rs_bind (modify (remember_first sent_id)) (\<lambda>_. rs_ret (Inr Delivered))
              | Some (Inr PreviewDelivered) \<Rightarrow> rs_ret (Inl UnexpectedMedia)
              | Some (Inl e) \<Rightarrow> rs_ret (Inl e))) (\<lambda>sent.
         rs_bind (modify (hide_lane key)) (\<lambda>_. rs_ret sent))))"

text \<open>A published part enters the ledger before anything else can happen to it, and is copied to the chat.\<close>

definition remember_part :: "message_ref \<Rightarrow> job_state \<Rightarrow> job_state" where
  "remember_part m s = s\<lparr>js_zip_new_dump_messages := remember_zip_dump_message (js_zip_new_dump_messages s) m\<rparr>"

definition copy_part ::
  "job_env \<Rightarrow> zip_delivery_info option \<Rightarrow> rendition \<Rightarrow> zip_part_plan \<Rightarrow> nat \<Rightarrow> message_ref \<Rightarrow> part_progress \<Rightarrow>
   (job_state, zip_end, part_progress) result_state" where
  "copy_part env first r plan bytes message acc =
     (if delivers_zip env
      then
        rs_bind (stop_if_cancelled env first) (\<lambda>_.
        rs_bind (race_dep env (je_deliver_to_chat env) (DeliverToChat (dump_copy env message (zp_total_parts plan > 1))) no_report) (\<lambda>result.
        case result of
          None \<Rightarrow> rs_fail (Inr first)
        | Some (Inr (Message sent_id)) \<Rightarrow>
            rs_bind (stop_if_cancelled env first) (\<lambda>_.
            rs_bind (modify (remember_first sent_id)) (\<lambda>_.
            rs_ret (acc\<lparr>pp_parts := pp_parts acc + 1, pp_size := pp_size acc + as_i64 bytes\<rparr>)))
        | Some (Inr PreviewDelivered) \<Rightarrow>
            if r = Primary then rs_fail (Inl (lit ''primary ZIP delivery returned a preview receipt'')) else rs_ret acc
        | Some (Inl e) \<Rightarrow>
            if r = Primary then rs_fail (Inl (lit ''primary ZIP delivery failed: '' @ show_delivery_error e)) else rs_ret acc))
      else rs_ret acc)"

definition album_upload_of ::
  "job_env \<Rightarrow> zip_state \<Rightarrow> codec \<Rightarrow> zip_part_plan \<Rightarrow> nat \<Rightarrow> dump_publication \<Rightarrow> album_upload" where
  "album_upload_of env state album_codec plan bytes upload =
     \<lparr>au_album_id = je_zip_album_id env, au_codec = album_codec, au_part_index = as_i32 (zp_part_index plan),
      au_total_parts = as_i32 (zp_total_parts plan), au_message_id = dp_message upload, au_file_id = dp_file_id upload,
      au_file_unique_id = dp_file_unique_id upload, au_file_size = as_i64 bytes,
      au_generation_hash = (case zs_generation_hash state of Some h \<Rightarrow> h | None \<Rightarrow> [])\<rparr>"

definition record_part ::
  "job_env \<Rightarrow> zip_delivery_info option \<Rightarrow> zip_state \<Rightarrow> codec \<Rightarrow> bool \<Rightarrow> zip_part_plan \<Rightarrow> nat \<Rightarrow> delivery_error + zip_send_outcome \<Rightarrow>
   part_progress \<Rightarrow> (job_state, zip_end, part_progress) result_state" where
  "record_part env first state album_codec complete plan bytes sent acc =
     (case sent of
        Inr (Published upload) \<Rightarrow>
          if complete
          then rs_bind (modify (remember_part (dp_message upload))) (\<lambda>_.
            rs_bind (stop_if_cancelled env first) (\<lambda>_.
            rs_bind (copy_part env first (zs_rendition state) plan bytes (dp_message upload)
              (acc\<lparr>pp_messages := pp_messages acc @ [dp_message upload]\<rparr>)) (\<lambda>acc.
            rs_ret (acc\<lparr>pp_uploads := pp_uploads acc @ [album_upload_of env state album_codec plan bytes upload]\<rparr>))))
          else rs_ret (acc\<lparr>pp_all_uploaded := False\<rparr>)
      | Inr Delivered \<Rightarrow>
          if \<not> complete \<and> \<not> ro_is_cache_only (je_options env)
          then rs_ret (acc\<lparr>pp_parts := pp_parts acc + 1, pp_size := pp_size acc + as_i64 bytes\<rparr>)
          else rs_ret acc
      | Inl e \<Rightarrow> skip_part (zs_rendition state) (lit ''primary ZIP upload failed: '' @ show_delivery_error e) acc)"

definition send_built ::
  "job_env \<Rightarrow> zip_delivery_info option \<Rightarrow> zip_state \<Rightarrow> codec \<Rightarrow> bool \<Rightarrow> zip_part_plan \<Rightarrow> ustring \<Rightarrow> ustring \<Rightarrow> ustring option \<Rightarrow>
   nat \<Rightarrow> part_progress \<Rightarrow> (job_state, zip_end, part_progress) result_state" where
  "send_built env first state album_codec complete plan archive_name output thumb_path bytes acc =
     rs_bind (is_cancelled env) (\<lambda>c.
       if c then rs_bind (remove_file env output) (\<lambda>_. rs_fail (Inr first))
       else
         rs_bind (send_part env first state album_codec complete plan archive_name output thumb_path) (\<lambda>sent.
         record_part env first state album_codec complete plan bytes sent acc))"

definition finalize_part ::
  "job_env \<Rightarrow> zip_delivery_info option \<Rightarrow> zip_state \<Rightarrow> codec \<Rightarrow> bool \<Rightarrow> ustring option \<Rightarrow> zip_part_plan \<Rightarrow> part_progress \<Rightarrow>
   (job_state, zip_end, part_progress) result_state" where
  "finalize_part env first state album_codec complete thumb_path plan acc =
     (let archive_name = (if complete then zp_archive_filename plan else into_partial (zp_archive_filename plan));
          output = path_join (zs_dir state) archive_name;
          r = zs_rendition state
      in rs_bind (stop_if_cancelled env first) (\<lambda>_.
         rs_bind (build_archive env state album_codec plan archive_name output) (\<lambda>built.
         rs_bind (is_cancelled env) (\<lambda>c.
         if c then rs_bind (remove_file env output) (\<lambda>_. rs_fail (Inr first))
         else case built of
           Inl e \<Rightarrow> rs_bind (remove_file env output) (\<lambda>_. skip_part r (lit ''primary ZIP build task failed: '' @ e) acc)
         | Inr (Inl e) \<Rightarrow> rs_bind (remove_file env output) (\<lambda>_. skip_part r (lit ''primary ZIP build failed: '' @ e) acc)
         | Inr (Inr bytes) \<Rightarrow>
             if bytes > TELEGRAM_SPLIT_THRESHOLD_BYTES
             then rs_bind (remove_file env output) (\<lambda>_. skip_part r (lit ''primary ZIP exceeds the upload size limit'') acc)
             else send_built env first state album_codec complete plan archive_name output thumb_path bytes acc))))"

fun finalize_parts ::
  "job_env \<Rightarrow> zip_delivery_info option \<Rightarrow> zip_state \<Rightarrow> codec \<Rightarrow> bool \<Rightarrow> ustring option \<Rightarrow> zip_part_plan list \<Rightarrow> part_progress \<Rightarrow>
   (job_state, zip_end, part_progress) result_state" where
  "finalize_parts env first state album_codec complete thumb_path [] acc = rs_ret acc"
| "finalize_parts env first state album_codec complete thumb_path (plan # plans) acc =
     rs_bind (finalize_part env first state album_codec complete thumb_path plan acc)
       (finalize_parts env first state album_codec complete thumb_path plans)"

section \<open>Recording the archive\<close>

definition retract_parts :: "job_env \<Rightarrow> message_ref list \<Rightarrow> (job_state, 'e, unit) result_state" where
  "retract_parts env messages = rs_bind (call_dep env (je_retract_dump env) (RetractDump messages)) (\<lambda>_. rs_ret ())"

definition transfer_parts :: "message_ref list \<Rightarrow> (job_state, 'e, unit) result_state" where
  "transfer_parts messages =
     modify (\<lambda>s. s\<lparr>js_zip_new_dump_messages := transfer_zip_dump_messages (js_zip_new_dump_messages s) messages\<rparr>)"

definition discard_parts :: "job_env \<Rightarrow> message_ref list \<Rightarrow> (job_state, 'e, unit) result_state" where
  "discard_parts env messages = rs_bind (retract_parts env messages) (\<lambda>_. transfer_parts messages)"

text \<open>Another job recorded the album first: its archive is delivered instead.\<close>

definition deliver_winner ::
  "job_env \<Rightarrow> zip_state \<Rightarrow> codec \<Rightarrow> part_progress \<Rightarrow> (job_state, zip_end, part_progress) result_state" where
  "deliver_winner env state album_codec acc =
     rs_bind (call_dep env (je_find_albums env) (FindAlbums (je_zip_album_id env) (Some album_codec))) (\<lambda>found.
     rs_bind (case found of
                Inr rows \<Rightarrow> rs_ret rows
              | Inl e \<Rightarrow>
                  if zs_rendition state = Primary
                  then rs_fail (Inl (lit ''primary ZIP cache conflict winner lookup failed: '' @ show_album_error e))
                  else rs_ret []) (\<lambda>winner_rows.
     if winner_rows = []
     then if zs_rendition state = Primary then rs_fail (Inl (lit ''primary ZIP cache conflict had no committed winner'')) else rs_ret acc
     else if delivers_zip env
     then rs_bind (or_return (deliver_cached_zip_rows env (zs_rendition state) winner_rows)) (\<lambda>(winner_parts, winner_size).
            rs_ret (acc\<lparr>pp_parts := winner_parts, pp_size := winner_size\<rparr>))
     else rs_ret acc))"

definition replace_archive ::
  "job_env \<Rightarrow> zip_state \<Rightarrow> codec \<Rightarrow> part_progress \<Rightarrow> (job_state, zip_end, part_progress) result_state" where
  "replace_archive env state album_codec acc =
     (let r = zs_rendition state;
          new_messages = map au_message_id (pp_uploads acc);
          expected = (case hm_get (je_zip_expectations env) r of Some e \<Rightarrow> e | None \<Rightarrow> ExpectMixed)
      in rs_bind (call_dep env (je_replace_albums env) (ReplaceAlbums (je_zip_album_id env) album_codec expected (pp_uploads acc))) (\<lambda>replacement.
         case replacement of
           Inl e \<Rightarrow>
             (case e of
                AlbumConflict _ _ \<Rightarrow> rs_bind (discard_parts env (pp_messages acc)) (\<lambda>_. deliver_winner env state album_codec acc)
              | _ \<Rightarrow>
                  if r = Primary then rs_fail (Inl (lit ''primary ZIP cache replacement failed: '' @ show_album_error e))
                  else rs_bind (discard_parts env (pp_messages acc)) (\<lambda>_. rs_ret acc))
         | Inr Stale \<Rightarrow> rs_bind (discard_parts env (pp_messages acc)) (\<lambda>_. rs_ret acc)
         | Inr (Committed displaced) \<Rightarrow>
             rs_bind (transfer_parts new_messages) (\<lambda>_.
             (let old_messages = filter (\<lambda>m. m \<notin> set new_messages) displaced
              in if old_messages = [] then rs_ret acc else rs_bind (retract_parts env old_messages) (\<lambda>_. rs_ret acc)))))"

definition settle_archive ::
  "job_env \<Rightarrow> zip_state \<Rightarrow> codec \<Rightarrow> bool \<Rightarrow> nat \<Rightarrow> part_progress \<Rightarrow> (job_state, zip_end, part_progress) result_state" where
  "settle_archive env state album_codec complete expected_parts acc =
     (if complete \<and> pp_all_uploaded acc \<and> length (pp_uploads acc) = expected_parts then replace_archive env state album_codec acc
      else if complete \<and> zs_rendition state = Atmos then rs_bind (discard_parts env (pp_messages acc)) (\<lambda>_. rs_ret acc)
      else if zs_rendition state = Primary \<and> complete then rs_fail (Inl (lit ''primary ZIP publication was incomplete''))
      else rs_ret acc)"

section \<open>Announcing the archive\<close>

definition details_caption ::
  "job_env \<Rightarrow> nat \<Rightarrow> nat \<Rightarrow> bool \<Rightarrow> string \<Rightarrow> part_progress \<Rightarrow> album_details_caption" where
  "details_caption env expected_tracks n_entries complete codec acc =
     \<lparr>ac_album = je_zip_album env, ac_artist = je_zip_artist env, ac_album_url = je_zip_album_url env,
      ac_total_tracks = expected_tracks, ac_delivered_tracks = Some n_entries, ac_size_bytes = pp_size acc,
      ac_total_parts = pp_parts acc, ac_release_year = take 4 (je_zip_release_date env), ac_genre = je_zip_genre env,
      ac_record_label = je_zip_record_label env, ac_is_partial = (\<not> complete), ac_user_name = ro_user_name (je_options env),
      ac_user_id = ro_user_id (je_options env), ac_codec = Some codec\<rparr>"

definition send_photo ::
  "job_env \<Rightarrow> zip_delivery_info option \<Rightarrow> album_details_caption \<Rightarrow> bytes option \<Rightarrow> (job_state, zip_end, bool) result_state" where
  "send_photo env first details cover =
     (case cover of
        None \<Rightarrow> rs_ret False
      | Some bytes \<Rightarrow>
          rs_bind (stop_if_cancelled env first) (\<lambda>_.
          rs_bind (race_dep env (je_deliver_to_chat env) (DeliverToChat (Photo (ro_delivery_chat_id (je_options env)) bytes details)) no_report) (\<lambda>result.
          case result of
            None \<Rightarrow> rs_fail (Inr first)
          | Some receipt \<Rightarrow> rs_bind (stop_if_cancelled env first) (\<lambda>_. rs_ret (receipt = Inr PreviewDelivered)))))"

definition announce_archive ::
  "job_env \<Rightarrow> nat \<Rightarrow> nat \<Rightarrow> bool \<Rightarrow> string \<Rightarrow> bytes option \<Rightarrow> zip_delivery_info option \<Rightarrow> part_progress \<Rightarrow>
   (job_state, zip_end, zip_delivery_info option) result_state" where
  "announce_archive env expected_tracks n_entries complete codec cover first acc =
     (if delivers_zip env \<and> pp_parts acc > 0
      then rs_bind (send_photo env first (details_caption env expected_tracks n_entries complete codec acc) cover) (\<lambda>photo.
        push_info (zip_info env expected_tracks (Some n_entries) (pp_parts acc) (pp_size acc) (\<not> complete) photo codec) first)
      else rs_ret first)"

section \<open>One rendition, and all of them\<close>

definition archive_codec :: "zip_state \<Rightarrow> string" where
  "archive_codec state =
     (case zs_codec state of Some c \<Rightarrow> c | None \<Rightarrow> if zs_rendition state = Atmos then ''ec-3'' else ''alac'')"

definition archive_album_codec :: "zip_state \<Rightarrow> codec" where
  "archive_album_codec state = (case Codec_from_str (archive_codec state) of Inr c \<Rightarrow> c | Inl _ \<Rightarrow> Alac)"

definition entries_complete :: "nat \<Rightarrow> failed_track list \<Rightarrow> zip_state \<Rightarrow> bool" where
  "entries_complete expected_tracks failures state =
     (case zs_rendition state of
        Primary \<Rightarrow> failures = [] \<and> length (zs_sources state) = expected_tracks
      | Atmos \<Rightarrow> True)"

definition plan_archive ::
  "job_env \<Rightarrow> zip_state \<Rightarrow> zip_track_entry list \<Rightarrow> ustring option \<Rightarrow> (job_state, 'e, zip_error + zip_part_plan list) result_state" where
  "plan_archive env state entries cover_path s =
     (Inr (plan_zip_parts_with_codec (je_file_size env (js_step s)) (je_zip_artist env) (je_zip_album env) (je_zip_release_date env)
        entries cover_path TELEGRAM_SPLIT_THRESHOLD_BYTES (archive_codec state)), tick env s)"

definition no_parts :: part_progress where
  "no_parts = \<lparr>pp_parts = 0, pp_size = 0, pp_all_uploaded = True, pp_uploads = [], pp_messages = []\<rparr>"

definition publish_archive ::
  "job_env \<Rightarrow> nat \<Rightarrow> bool \<Rightarrow> zip_state \<Rightarrow> zip_delivery_info option \<Rightarrow> (job_state, zip_end, zip_delivery_info option) result_state" where
  "publish_archive env expected_tracks complete state first =
     (let entries = sort_entries (zs_sources state); album_codec = archive_album_codec state
      in rs_bind (fetch_covers env state first) (\<lambda>(cover_bytes, cover_path, thumb_path).
         rs_bind (plan_archive env state entries cover_path) (\<lambda>planned.
         case planned of
           Inl e \<Rightarrow>
             if zs_rendition state = Primary then rs_fail (Inl (lit ''primary ZIP planning failed: '' @ show_zip_error env e))
             else rs_ret first
         | Inr plans \<Rightarrow>
             rs_bind (finalize_parts env first state album_codec complete thumb_path plans no_parts) (\<lambda>acc.
             rs_bind (settle_archive env state album_codec complete (length plans) acc) (\<lambda>acc.
             announce_archive env expected_tracks (length entries) complete (archive_codec state) cover_bytes first acc)))))"

definition finalize_rendition ::
  "job_env \<Rightarrow> nat \<Rightarrow> failed_track list \<Rightarrow> zip_state \<Rightarrow> zip_delivery_info option \<Rightarrow>
   (job_state, zip_end, zip_delivery_info option) result_state" where
  "finalize_rendition env expected_tracks failures state first =
     (let r = zs_rendition state; complete = entries_complete expected_tracks failures state
      in rs_bind (modify (\<lambda>s. s\<lparr>js_finalizing_rendition := Some r\<rparr>)) (\<lambda>_.
         rs_bind (stop_if_cancelled env first) (\<lambda>_.
         rs_bind (look js_primary_zip_error) (\<lambda>primary_error.
         case primary_error of
           Some e \<Rightarrow> rs_fail (Inl e)
         | None \<Rightarrow>
             (case hm_get (je_zip_reuse env) r of
                Some rows \<Rightarrow> deliver_archive env expected_tracks r rows first
              | None \<Rightarrow>
                  if zs_sources state = [] \<or> \<not> (complete \<or> delivers_zip env) then rs_ret first
                  else rs_bind (existing_archive env state (archive_album_codec state) complete) (\<lambda>existing.
                    case existing of
                      Some rows \<Rightarrow> deliver_archive env expected_tracks r rows first
                    | None \<Rightarrow> publish_archive env expected_tracks complete state first))))))"

fun finalize_renditions ::
  "job_env \<Rightarrow> nat \<Rightarrow> failed_track list \<Rightarrow> zip_state list \<Rightarrow> zip_delivery_info option \<Rightarrow>
   (job_state, zip_end, zip_delivery_info option) result_state" where
  "finalize_renditions env expected_tracks failures [] first = rs_ret first"
| "finalize_renditions env expected_tracks failures (state # states) first =
     rs_bind (finalize_rendition env expected_tracks failures state first)
       (finalize_renditions env expected_tracks failures states)"

definition zip_body :: "job_env \<Rightarrow> (job_state, zip_end, zip_end) result_state" where
  "zip_body env =
     rs_bind (stop_if_cancelled env None) (\<lambda>_.
     rs_bind (look (\<lambda>s. (at_total_tracks (js_job s), js_failed_tracks s, js_zip_states s))) (\<lambda>(expected_tracks, failures, states).
     rs_bind (finalize_renditions env expected_tracks failures states None) (\<lambda>first. rs_ret (Inr first))))"

text \<open>The guard of the rendition in progress clears it on every return.\<close>

definition finalize_zip_inner :: "job_env \<Rightarrow> (job_state, ustring, zip_delivery_info option) result_state" where
  "finalize_zip_inner env s =
     (if \<not> je_zip_build env then (Inr None, s)
      else case js_primary_zip_error s of
        Some e \<Rightarrow> (Inl e, s)
      | None \<Rightarrow> (case returned (zip_body env) s of (r, s') \<Rightarrow> (r, s'\<lparr>js_finalizing_rendition := None\<rparr>)))"

definition take_uncommitted :: "(job_state, 'e, message_ref list) result_state" where
  "take_uncommitted s =
     (case take_uncommitted_zip_dump_messages (js_zip_new_dump_messages s) of
        (taken, left) \<Rightarrow> (Inr taken, s\<lparr>js_zip_new_dump_messages := left\<rparr>))"

definition finalize_zip :: "job_env \<Rightarrow> (job_state, ustring, zip_delivery_info option) result_state" where
  "finalize_zip env =
     rs_bind (caught (finalize_zip_inner env)) (\<lambda>result.
     rs_bind (is_cancelled env) (\<lambda>c.
     rs_bind (if (\<exists>e. result = Inl e) \<or> c
              then rs_bind take_uncommitted (\<lambda>messages. if messages = [] then rs_ret () else retract_parts env messages)
              else rs_ret ()) (\<lambda>_.
     from_result result)))"

section \<open>The summary and the marker\<close>

definition saturating_minus :: "u64 \<Rightarrow> u64 \<Rightarrow> u64" where
  "saturating_minus a b = (if a < b then 0 else a - b)"

definition build_job_summary :: "job_env \<Rightarrow> zip_delivery_info option \<Rightarrow> job_state \<Rightarrow> rip_task_summary" where
  "build_job_summary env zip_delivery s =
     \<lparr>su_job_id = at_id (js_job s), su_job_header = at_job_header (js_job s), su_total_tracks = at_total_tracks (js_job s),
      su_cached_count = at_cached_count (js_job s), su_ripped_count = js_ripped_count s,
      su_failed_count = length (js_failed_tracks s), su_failed_tracks = js_failed_tracks s, su_skipped_uncached_tracks = [],
      su_total_elapsed_ms = saturating_minus (je_now_ms env (js_step s)) (je_queue_start_time_ms env),
      su_is_cache_only = ro_is_cache_only (je_options env), su_is_group = ro_is_group (je_options env),
      su_warnings = (case js_atmos_warning s of Some w \<Rightarrow> [w] | None \<Rightarrow> []) @ je_warnings env,
      su_zip_delivery = or_else (first_of (js_zip_delivery_infos s)) zip_delivery,
      su_zip_deliveries = js_zip_delivery_infos s,
      su_first_delivered_msg_id = js_first_delivered_msg_id s,
      su_codec = or_else (js_codec s) (Option.bind (first_of (js_zip_delivery_infos s)) zi_codec)\<rparr>"

definition fail_if_fatal :: "(job_state, ustring, unit) result_state" where
  "fail_if_fatal = rs_bind (look js_fatal_error) (\<lambda>e. case e of Some error \<Rightarrow> rs_fail error | None \<Rightarrow> rs_ret ())"

text \<open>The wait for the pending uploads is the theory \<open>Upload_Barrier\<close>; here time passes.\<close>

definition finalize_job :: "job_env \<Rightarrow> (job_state, ustring, rip_task_summary) result_state" where
  "finalize_job env =
     rs_bind (modify (tick env)) (\<lambda>_.
     rs_bind fail_if_fatal (\<lambda>_.
     rs_bind (finalize_zip env) (\<lambda>zip_delivery.
     rs_bind fail_if_fatal (\<lambda>_.
     look (build_job_summary env zip_delivery)))))"

text \<open>
  The guard owns the sender of the summary, which can send once, and the directories of the job. It is
  dropped at the end of the marker, or with a marker that the upload lane did not take.
\<close>

record finalization_guard =
  fg_summary_tx :: bool
  fg_workspace_paths :: "ustring list"
  fg_sent :: "(ustring + rip_task_summary) list"
  fg_removed :: "ustring list"

definition guard_new :: "ustring \<Rightarrow> zip_state list \<Rightarrow> finalization_guard" where
  "guard_new rip_job_dir states =
     \<lparr>fg_summary_tx = True, fg_workspace_paths = rip_job_dir # map zs_dir states, fg_sent = [], fg_removed = []\<rparr>"

definition guard_send :: "ustring + rip_task_summary \<Rightarrow> finalization_guard \<Rightarrow> finalization_guard" where
  "guard_send result g = (if fg_summary_tx g then g\<lparr>fg_summary_tx := False, fg_sent := fg_sent g @ [result]\<rparr> else g)"

definition remove_paths :: "finalization_guard \<Rightarrow> finalization_guard" where
  "remove_paths g = g\<lparr>fg_removed := fg_removed g @ fg_workspace_paths g\<rparr>"

definition guard_finish :: "ustring + rip_task_summary \<Rightarrow> finalization_guard \<Rightarrow> finalization_guard" where
  "guard_finish result g = guard_send result (remove_paths g)"

definition guard_drop :: "finalization_guard \<Rightarrow> finalization_guard" where
  "guard_drop g = guard_send (Inl (lit ''finalize marker stopped unexpectedly'')) (remove_paths g)"

text \<open>How the lane treats the marker: it refuses it, runs it to the end, or the job panics in a state.\<close>

datatype marker_fate = Refused | Ran | Panicked job_state

definition marker_result :: "job_env \<Rightarrow> marker_fate \<Rightarrow> job_state \<Rightarrow> (ustring + rip_task_summary) \<times> job_state" where
  "marker_result env fate s =
     (case fate of
        Panicked s' \<Rightarrow>
          (if js_finalizing_rendition s' = Some Atmos then Inr (build_job_summary env None s')
           else Inl (lit ''finalize marker panicked''), s')
      | _ \<Rightarrow> finalize_job env s)"

definition run_finalize_marker ::
  "job_env \<Rightarrow> marker_fate \<Rightarrow> finalization_guard \<Rightarrow> job_state \<Rightarrow> finalization_guard \<times> job_state" where
  "run_finalize_marker env fate g s =
     (if fate = Refused then (guard_drop g, s)
      else case marker_result env fate s of (result, s') \<Rightarrow> (guard_drop (guard_finish result g), s'))"

section \<open>Archive messages never stay loose\<close>

text \<open>What the steps of the finalisation leave alone: the ledger, and the loose messages of the dump channel.\<close>

named_theorems zip_simps

lemma zip_ledger_simps [zip_simps]:
  "js_zip_new_dump_messages (tick env s) = js_zip_new_dump_messages s"
  "js_zip_new_dump_messages (cancel_now s) = js_zip_new_dump_messages s"
  "js_zip_new_dump_messages (note_call c s) = js_zip_new_dump_messages s"
  "js_zip_new_dump_messages (set_codec k s) = js_zip_new_dump_messages s"
  "js_zip_new_dump_messages (show_lane key u s) = js_zip_new_dump_messages s"
  "js_zip_new_dump_messages (hide_lane key s) = js_zip_new_dump_messages s"
  "js_zip_new_dump_messages (remember_first i s) = js_zip_new_dump_messages s"
  "js_zip_new_dump_messages (remember_part m s) = js_zip_new_dump_messages s @ [m]"
  by (simp_all add: tick_def cancel_now_def note_call_def set_codec_def emit_progress_def show_lane_def hide_lane_def
      upsert_upload_def remove_upload_def remember_first_def remember_part_def remember_zip_dump_message_def Let_def)

lemma zip_cancelled_simps [zip_simps]:
  "cancelled (show_lane key u s) = cancelled s" "cancelled (hide_lane key s) = cancelled s" "cancelled (remember_part m s) = cancelled s"
  "cancelled (s\<lparr>js_zip_new_dump_messages := ms\<rparr>) = cancelled s" "cancelled (s\<lparr>js_finalizing_rendition := r\<rparr>) = cancelled s"
  "cancelled (s\<lparr>js_zip_delivery_infos := infos\<rparr>) = cancelled s"
  by (simp_all add: show_lane_def hide_lane_def remember_part_def job_simps) (simp_all add: cancelled_def)

lemma zip_calls_simps:
  "js_calls (show_lane key u s) = js_calls s" "js_calls (hide_lane key s) = js_calls s" "js_calls (remember_part m s) = js_calls s"
  by (simp_all add: show_lane_def hide_lane_def remember_part_def job_simps)

lemma loose_note [zip_simps]: "loose (note_call c s) = loose_after c (loose s)"
  by (simp add: loose_def job_simps)

lemma loose_calls: "js_calls s' = js_calls s \<Longrightarrow> loose s' = loose s"
  by (simp add: loose_def)

lemma zip_loose_simps [zip_simps]:
  "loose (tick env s) = loose s" "loose (cancel_now s) = loose s" "loose (set_codec k s) = loose s"
  "loose (show_lane key u s) = loose s" "loose (hide_lane key s) = loose s" "loose (remember_first i s) = loose s"
  "loose (remember_part m s) = loose s" "loose (s\<lparr>js_zip_new_dump_messages := ms\<rparr>) = loose s"
  "loose (s\<lparr>js_finalizing_rendition := r\<rparr>) = loose s" "loose (s\<lparr>js_zip_delivery_infos := infos\<rparr>) = loose s"
  by (rule loose_calls, simp add: job_simps zip_calls_simps)+

lemma wp_look [wp_simps]: "rs_wp (look f) Q E = (\<lambda>s. Q (f s) s)"
  by (rule ext) (simp add: rs_wp_def look_def)

lemma wp_stop_if_cancelled [wp_simps]:
  "rs_wp (stop_if_cancelled env first) Q E = (\<lambda>s. if cancelled (tick env s) then E (Inr first) (tick env s) else Q () (tick env s))"
  by (rule ext) (simp add: stop_if_cancelled_def wp_simps)

lemma wp_or_return [wp_simps]: "rs_wp (or_return m) Q E = rs_wp m Q (\<lambda>e. E (Inl e))"
  by (simp add: or_return_def wp_simps)

text \<open>The invariant: every loose message was loose before or is in the ledger; a return on the way is an error or a cancellation.\<close>

definition covered :: "message_ref set \<Rightarrow> job_state \<Rightarrow> bool" where
  "covered L s \<longleftrightarrow> loose s \<subseteq> L \<union> set (js_zip_new_dump_messages s)"

definition left_zip :: "message_ref set \<Rightarrow> zip_end \<Rightarrow> job_state \<Rightarrow> bool" where
  "left_zip L e s \<longleftrightarrow> covered L s \<and> (case e of Inl _ \<Rightarrow> True | Inr _ \<Rightarrow> cancelled s)"

definition kept_ledger :: "job_state \<Rightarrow> job_state \<Rightarrow> bool" where
  "kept_ledger s s' \<longleftrightarrow> loose s' \<subseteq> loose s \<and> js_zip_new_dump_messages s' = js_zip_new_dump_messages s"

lemma kept_covered: "kept_ledger s s' \<Longrightarrow> covered L s \<Longrightarrow> covered L s'"
  by (auto simp: kept_ledger_def covered_def)

lemma kept_trans: "kept_ledger s s1 \<Longrightarrow> kept_ledger s1 s2 \<Longrightarrow> kept_ledger s s2"
  by (auto simp: kept_ledger_def)

lemma kept_refl [simp]: "kept_ledger s s"
  by (simp add: kept_ledger_def)

lemma deliver_rows_wp:
  "kept_ledger s0 s \<Longrightarrow> rs_wp (deliver_rows env r silent rows n b) (\<lambda>_ s'. kept_ledger s0 s') (\<lambda>_ s'. kept_ledger s0 s') s"
  by (induction rows arbitrary: n b s)
    (auto simp: wp_simps Let_def kept_ledger_def zip_simps split: sum.splits delivery_receipt.splits)

lemma deliver_archive_wp:
  "kept_ledger s0 s \<Longrightarrow> covered L s0 \<Longrightarrow>
   rs_wp (deliver_archive env n r rows first) (\<lambda>_ s'. kept_ledger s0 s') (left_zip L) s"
  unfolding deliver_archive_def deliver_cached_zip_rows_def
  by (auto simp: wp_simps push_info_def intro!: wp_mono [OF deliver_rows_wp])
    (auto simp: kept_ledger_def zip_simps left_zip_def covered_def)

lemma fetch_covers_wp:
  "kept_ledger s0 s \<Longrightarrow> covered L s0 \<Longrightarrow> rs_wp (fetch_covers env state first) (\<lambda>_ s'. kept_ledger s0 s') (left_zip L) s"
  unfolding fetch_covers_def fetch_artwork_def write_file_def
  by (auto simp: wp_simps Let_def zip_simps kept_ledger_def left_zip_def covered_def split: option.splits)

lemma existing_archive_wp:
  "kept_ledger s0 s \<Longrightarrow> rs_wp (existing_archive env state c complete) (\<lambda>_ s'. kept_ledger s0 s') E s"
  unfolding existing_archive_def
  by (auto simp: wp_simps Let_def zip_simps kept_ledger_def split: sum.splits)

lemma fold_show_lane [zip_simps]:
  "js_zip_new_dump_messages (fold (\<lambda>(a, b, c, d). show_lane key (lane a b c d)) ps s) = js_zip_new_dump_messages s"
  "loose (fold (\<lambda>(a, b, c, d). show_lane key (lane a b c d)) ps s) = loose s"
  by (rule fold_keeps, simp add: zip_simps split: prod.splits)+

lemma build_archive_wp:
  assumes "kept_ledger s0 s"
  shows "rs_wp (build_archive env state c plan name output) (\<lambda>_ s'. kept_ledger s0 s') E s"
  using assms
  by (auto simp: rs_wp_def build_archive_def Let_def kept_ledger_def zip_simps split: sum.splits)

lemma remove_file_kept [wp_simps]:
  "rs_wp (remove_file env path) Q E = (\<lambda>s. Q () (note_call (RemoveFile path) (tick env s)))"
  by (simp add: remove_file_def wp_simps Let_def)

text \<open>A part that was sent: only a publication of a complete part adds a loose message, its own.\<close>

definition part_sent :: "bool \<Rightarrow> delivery_error + zip_send_outcome \<Rightarrow> job_state \<Rightarrow> job_state \<Rightarrow> bool" where
  "part_sent complete sent s s' \<longleftrightarrow>
     js_zip_new_dump_messages s' = js_zip_new_dump_messages s \<and>
     (case sent of Inr (Published u) \<Rightarrow> complete \<and> loose s' \<subseteq> insert (dp_message u) (loose s) | _ \<Rightarrow> loose s' \<subseteq> loose s)"

lemma send_part_wp:
  assumes "kept_ledger s0 s" "covered L s0"
  shows "rs_wp (send_part env first state c complete plan name output thumb) (\<lambda>sent s'. part_sent complete sent s0 s') (left_zip L) s"
  using assms unfolding send_part_def
  by (auto simp: wp_simps Let_def zip_simps part_sent_def kept_ledger_def left_zip_def covered_def job_simps
      split: option.splits sum.splits delivery_receipt.splits)

text \<open>The parts so far are the ledger, and each has its row for the cache.\<close>

definition parts_ok :: "bool \<Rightarrow> part_progress \<Rightarrow> job_state \<Rightarrow> bool" where
  "parts_ok complete acc s \<longleftrightarrow>
     js_zip_new_dump_messages s = pp_messages acc \<and> map au_message_id (pp_uploads acc) = pp_messages acc \<and>
     (\<not> complete \<longrightarrow> pp_messages acc = [])"

lemma copy_part_wp:
  assumes "covered L s" "js_zip_new_dump_messages s = pp_messages acc"
  shows "rs_wp (copy_part env first r plan b m acc)
     (\<lambda>acc' s'. covered L s' \<and> js_zip_new_dump_messages s' = pp_messages acc' \<and> pp_messages acc' = pp_messages acc \<and> pp_uploads acc' = pp_uploads acc)
     (left_zip L) s"
  using assms unfolding copy_part_def
  by (auto simp: wp_simps Let_def zip_simps left_zip_def covered_def no_report_def fold_keeps job_simps
      split: option.splits sum.splits delivery_receipt.splits)

lemma record_part_wp:
  assumes sent: "part_sent complete sent s s1" and cov: "covered L s" and parts: "parts_ok complete acc s"
  shows "rs_wp (record_part env first state c complete plan b sent acc) (\<lambda>acc' s'. covered L s' \<and> parts_ok complete acc' s') (left_zip L) s1"
proof (cases "\<exists>u. sent = Inr (Published u)")
  case True
  then obtain u where u: "sent = Inr (Published u)" by blast
  let ?acc = "acc\<lparr>pp_messages := pp_messages acc @ [dp_message u]\<rparr>" and ?s = "tick env (remember_part (dp_message u) s1)"
  have "covered L ?s" "js_zip_new_dump_messages ?s = pp_messages ?acc" and complete: complete
    using sent cov parts u by (auto simp: part_sent_def covered_def parts_ok_def zip_simps)
  then show ?thesis using parts u unfolding record_part_def
    by (auto simp: wp_simps left_zip_def parts_ok_def album_upload_of_def intro!: wp_mono [OF copy_part_wp])
next
  case False
  then show ?thesis using sent cov parts unfolding record_part_def skip_part_def
    by (auto simp: wp_simps part_sent_def covered_def parts_ok_def left_zip_def split: sum.splits zip_send_outcome.splits)
qed

lemma parts_ok_kept: "kept_ledger s s' \<Longrightarrow> parts_ok complete acc s \<Longrightarrow> parts_ok complete acc s'"
  by (simp add: parts_ok_def kept_ledger_def)

lemma send_built_wp:
  assumes "kept_ledger s0 s" "covered L s0" "parts_ok complete acc s0"
  shows "rs_wp (send_built env first state c complete plan name output thumb b acc) (\<lambda>acc' s'. covered L s' \<and> parts_ok complete acc' s') (left_zip L) s"
proof -
  have "kept_ledger s0 (tick env s)" using assms(1) by (simp add: kept_ledger_def zip_simps)
  then show ?thesis using assms(2,3) unfolding send_built_def
    by (auto simp: wp_simps Let_def intro!: wp_mono [OF send_part_wp] elim!: record_part_wp)
      (auto simp: left_zip_def covered_def zip_simps job_simps kept_ledger_def)
qed

lemma skip_part_wp:
  "covered L s \<Longrightarrow> parts_ok complete acc s \<Longrightarrow>
   rs_wp (skip_part r e acc) (\<lambda>acc' s'. covered L s' \<and> parts_ok complete acc' s') (left_zip L) s"
  by (simp add: skip_part_def wp_simps left_zip_def parts_ok_def)

lemma finalize_part_wp:
  assumes cov: "covered L s" and parts: "parts_ok complete acc s"
  shows "rs_wp (finalize_part env first state c complete thumb plan acc) (\<lambda>acc' s'. covered L s' \<and> parts_ok complete acc' s') (left_zip L) s"
proof -
  let ?Q = "\<lambda>acc' s'. covered L s' \<and> parts_ok complete acc' s'"
  have kept: "kept_ledger s (tick env s1)" "kept_ledger s (note_call (RemoveFile path) (tick env s1))"
    if "kept_ledger s s1" for s1 path using that by (auto simp: kept_ledger_def zip_simps)
  have skip: "rs_wp (skip_part r e acc) ?Q (left_zip L) s1" if "kept_ledger s s1" for r e s1
    using skip_part_wp [OF kept_covered [OF that cov] parts_ok_kept [OF that parts]] .
  have removed: "rs_wp (remove_file env path) (\<lambda>_. rs_wp (skip_part r e acc) ?Q (left_zip L)) (left_zip L) s1"
    if "kept_ledger s s1" for path r e s1
    unfolding remove_file_kept by (rule skip [OF kept(2) [OF that]])
  have gone: "left_zip L (Inr first) (note_call (RemoveFile path) (tick env s1))" "left_zip L (Inr first) s1" if "kept_ledger s s1" "cancelled s1" for path s1
    using kept_covered [OF kept(2) [OF that(1)] cov] kept_covered [OF that(1) cov] that(2) by (simp_all add: left_zip_def job_simps)
  have built: "rs_wp (build_archive env state c plan name out) (\<lambda>_. kept_ledger s) (left_zip L) (tick env s)" for name out
    by (rule build_archive_wp) (simp add: kept_ledger_def zip_simps)
  have core: "rs_wp (build_archive env state c plan name out) (\<lambda>built. rs_wp (rs_bind (is_cancelled env) (\<lambda>cancel.
         if cancel then rs_bind (remove_file env out) (\<lambda>_. rs_fail (Inr first))
         else case built of
           Inl e \<Rightarrow> rs_bind (remove_file env out) (\<lambda>_. skip_part r (e1 @ e) acc)
         | Inr (Inl e) \<Rightarrow> rs_bind (remove_file env out) (\<lambda>_. skip_part r (e2 @ e) acc)
         | Inr (Inr bytes) \<Rightarrow>
             if bytes > TELEGRAM_SPLIT_THRESHOLD_BYTES then rs_bind (remove_file env out) (\<lambda>_. skip_part r e3 acc)
             else send_built env first state c complete plan name out thumb bytes acc)) ?Q (left_zip L)) (left_zip L) (tick env s)"
    for name out r e1 e2 e3
    using kept removed gone send_built_wp [OF _ cov parts]
    by (intro wp_mono [OF built]) (simp_all add: wp_bind wp_if wp_fail wp_is_cancelled wp_case_sum remove_file_kept split: sum.splits)
  show ?thesis
    unfolding finalize_part_def Let_def wp_bind [of "stop_if_cancelled env first"] wp_stop_if_cancelled wp_bind [of "build_archive env state c plan x y" for x y]
    using core gone(2) [of "tick env s"] kept(1) [OF kept_refl] by simp
qed

lemma finalize_parts_wp:
  "covered L s \<Longrightarrow> parts_ok complete acc s \<Longrightarrow>
   rs_wp (finalize_parts env first state c complete thumb plans acc) (\<lambda>acc' s'. covered L s' \<and> parts_ok complete acc' s') (left_zip L) s"
  by (induction plans arbitrary: acc s) (auto simp: wp_simps intro!: wp_mono [OF finalize_part_wp])

text \<open>Settling an archive empties the ledger: what it held is recorded in the cache, or taken back.\<close>

lemma transfer_all [simp]: "transfer_zip_dump_messages ms ms = []"
  by (induction ms) simp_all

definition all_settled :: "message_ref set \<Rightarrow> job_state \<Rightarrow> bool" where
  "all_settled L s \<longleftrightarrow> loose s \<subseteq> L \<and> js_zip_new_dump_messages s = []"

lemma settled_kept: "all_settled L s \<Longrightarrow> kept_ledger s s' \<Longrightarrow> all_settled L s'"
  by (auto simp: all_settled_def kept_ledger_def)

lemma settled_covered: "all_settled L s \<Longrightarrow> covered L s"
  by (simp add: all_settled_def covered_def)

lemma discard_parts_wp:
  assumes "covered L s" "js_zip_new_dump_messages s = ms"
  shows "rs_wp (discard_parts env ms) (\<lambda>_ s'. all_settled L s') E s"
  using assms unfolding discard_parts_def retract_parts_def transfer_parts_def
  by (auto simp: wp_simps Let_def zip_simps all_settled_def covered_def)

lemma deliver_winner_wp:
  assumes "all_settled L s"
  shows "rs_wp (deliver_winner env state c acc) (\<lambda>_ s'. all_settled L s') (left_zip L) s"
proof -
  have kept: "kept_ledger s (note_call (FindAlbums i k x) (tick env s))" for i k x by (simp add: kept_ledger_def zip_simps)
  show ?thesis unfolding deliver_winner_def deliver_cached_zip_rows_def
    using kept_covered [OF kept settled_covered [OF assms]]
    by (auto simp: wp_simps Let_def left_zip_def intro!: wp_mono [OF deliver_rows_wp [OF kept]] settled_kept [OF assms]
        settled_covered [OF settled_kept [OF assms]] kept split: sum.splits)
qed

lemma replace_archive_wp:
  assumes cov: "covered L s" and parts: "parts_ok complete acc s"
  shows "rs_wp (replace_archive env state c acc) (\<lambda>_ s'. all_settled L s') (left_zip L) s"
proof -
  have refused: "covered L (note_call (ReplaceAlbums i k x us (Inl e)) (tick env s))" "covered L (note_call (ReplaceAlbums i k x us (Inr Stale)) (tick env s))"
    for i k x us e using cov by (simp_all add: covered_def zip_simps)
  have ledger: "js_zip_new_dump_messages (note_call call (tick env s)) = pp_messages acc" for call
    using parts by (simp add: parts_ok_def zip_simps)
  show ?thesis unfolding replace_archive_def
    using parts cov
    by (auto simp: wp_simps Let_def refused ledger split: sum.splits album_cache_error.splits album_replacement_result.splits
        intro!: wp_mono [OF discard_parts_wp] deliver_winner_wp)
      (auto simp: wp_simps transfer_parts_def retract_parts_def Let_def zip_simps all_settled_def parts_ok_def covered_def left_zip_def refused)
qed

lemma settle_archive_wp:
  assumes cov: "covered L s" and parts: "parts_ok complete acc s"
  shows "rs_wp (settle_archive env state c complete n acc) (\<lambda>_ s'. all_settled L s') (left_zip L) s"
proof -
  have "js_zip_new_dump_messages s = pp_messages acc" using parts by (simp add: parts_ok_def)
  moreover have "all_settled L s" if "\<not> complete" using cov parts that by (simp add: parts_ok_def all_settled_def covered_def)
  ultimately show ?thesis unfolding settle_archive_def using cov replace_archive_wp [OF assms]
    by (cases "zs_rendition state") (auto simp: wp_simps left_zip_def intro!: wp_mono [OF discard_parts_wp])
qed

lemma send_photo_wp:
  assumes "all_settled L s"
  shows "rs_wp (send_photo env first details cover) (\<lambda>_ s'. all_settled L s') (left_zip L) s"
  using assms unfolding send_photo_def
  by (auto simp: wp_simps Let_def zip_simps job_simps all_settled_def left_zip_def covered_def no_report_def fold_keeps split: option.splits)

lemma announce_archive_wp:
  assumes "all_settled L s"
  shows "rs_wp (announce_archive env n k complete codec cover first acc) (\<lambda>_ s'. all_settled L s') (left_zip L) s"
  using assms unfolding announce_archive_def push_info_def
  by (auto simp: wp_simps intro!: wp_mono [OF send_photo_wp [OF assms]]) (auto simp: all_settled_def zip_simps)

lemma publish_archive_wp:
  assumes s: "all_settled L s"
  shows "rs_wp (publish_archive env n complete state first) (\<lambda>_ s'. all_settled L s') (left_zip L) s"
proof -
  let ?Q = "\<lambda>_. all_settled L"
  have sent: "rs_wp (finalize_parts env first state c complete thumb plans no_parts)
      (\<lambda>acc. rs_wp (settle_archive env state c complete (length plans) acc)
        (\<lambda>acc. rs_wp (announce_archive env n k complete codec cover first acc) ?Q (left_zip L)) (left_zip L)) (left_zip L) s1"
    if "all_settled L s1" for c thumb plans k codec cover s1
  proof -
    have "parts_ok complete no_parts s1" using that by (simp add: all_settled_def parts_ok_def no_parts_def)
    then show ?thesis
      using settled_covered [OF that] by (intro wp_mono [OF finalize_parts_wp] wp_mono [OF settle_archive_wp] announce_archive_wp) auto
  qed
  have planned: "all_settled L (tick env s1)" "left_zip L (Inl e) (tick env s1)" if "all_settled L s1" for s1 e
    using that by (simp_all add: all_settled_def left_zip_def covered_def zip_simps)
  have wp_plan: "rs_wp (plan_archive env state entries cover) Q E s1 =
      Q (plan_zip_parts_with_codec (je_file_size env (js_step s1)) (je_zip_artist env) (je_zip_album env) (je_zip_release_date env)
        entries cover TELEGRAM_SPLIT_THRESHOLD_BYTES (archive_codec state)) (tick env s1)" for entries cover Q E s1
    by (simp add: rs_wp_def plan_archive_def)
  show ?thesis unfolding publish_archive_def Let_def wp_bind [of "fetch_covers env state first"]
    using sent planned
    by (intro wp_mono [OF fetch_covers_wp [OF kept_refl settled_covered [OF s]]])
      (auto simp: wp_bind wp_plan wp_case_sum wp_if wp_fail wp_ret dest: settled_kept [OF s] split: sum.splits prod.splits)
qed

lemma finalize_rendition_wp:
  assumes "all_settled L s"
  shows "rs_wp (finalize_rendition env n failures state first) (\<lambda>_ s'. all_settled L s') (left_zip L) s"
proof -
  let ?s = "tick env (s\<lparr>js_finalizing_rendition := Some (zs_rendition state)\<rparr>)"
  have s: "all_settled L ?s" using assms by (simp add: all_settled_def zip_simps)
  note cov = settled_covered [OF s]
  have delivered: "rs_wp (deliver_archive env n r rows first) (\<lambda>_. all_settled L) (left_zip L) s1" if "kept_ledger ?s s1" for r rows s1
    by (rule wp_mono [OF deliver_archive_wp [OF that cov]]) (simp_all add: settled_kept [OF s])
  have "rs_wp (existing_archive env state c complete) (\<lambda>x. rs_wp (case x of
        Some rows \<Rightarrow> deliver_archive env n r rows first
      | None \<Rightarrow> publish_archive env n complete state first) (\<lambda>_. all_settled L) (left_zip L)) (left_zip L) ?s" for r c complete
  proof (rule wp_mono [OF existing_archive_wp [OF kept_refl, where E = "\<lambda>_ _. False"]], goal_cases)
    case (1 x s1)
    then show ?case using delivered publish_archive_wp [OF settled_kept [OF s]] by (cases x) simp_all
  qed simp
  then show ?thesis unfolding finalize_rendition_def Let_def
    using s cov delivered [OF kept_refl]
    by (simp add: wp_bind wp_modify wp_stop_if_cancelled wp_look wp_case_option wp_if wp_fail wp_ret left_zip_def split: option.splits)
qed

lemma finalize_renditions_wp:
  "all_settled L s \<Longrightarrow> rs_wp (finalize_renditions env n failures states first) (\<lambda>_ s'. all_settled L s') (left_zip L) s"
  by (induction states arbitrary: first s) (auto simp: wp_simps intro!: wp_mono [OF finalize_rendition_wp])

lemma zip_body_wp:
  assumes "all_settled L s"
  shows "rs_wp (zip_body env) (\<lambda>r s'. all_settled L s' \<and> (\<exists>first. r = Inr first)) (left_zip L) s"
proof -
  have s: "all_settled L (tick env s)" "covered L (tick env s)" using assms by (simp_all add: all_settled_def covered_def zip_simps)
  then show ?thesis unfolding zip_body_def
    by (auto simp: wp_simps left_zip_def intro!: wp_mono [OF finalize_renditions_wp [OF s(1)], unfolded left_zip_def])
qed

lemma finalize_zip_inner_wp:
  assumes "all_settled L s"
  shows "rs_wp (finalize_zip_inner env) (\<lambda>_ s'. covered L s' \<and> (cancelled s' \<or> all_settled L s')) (\<lambda>_ s'. covered L s') s"
proof -
  obtain r s' where run: "returned (zip_body env) s = (r, s')" by force
  let ?s = "s'\<lparr>js_finalizing_rendition := None\<rparr>"
  have "case returned (zip_body env) s of (r, s') \<Rightarrow> left_zip L r s' \<or> all_settled L s' \<and> (\<exists>first. r = Inr first)"
    by (rule returned_wp) (auto intro: wp_mono [OF zip_body_wp [OF assms]])
  then have "covered L ?s \<and> (case r of Inl _ \<Rightarrow> True | Inr _ \<Rightarrow> cancelled ?s \<or> all_settled L ?s)"
    unfolding run by (auto simp: left_zip_def covered_def all_settled_def zip_simps split: sum.splits)
  then show ?thesis using assms settled_covered [OF assms] run
    by (simp add: rs_wp_def finalize_zip_inner_def split: option.splits sum.splits)
qed


text \<open>An album of one track whose archive is published and refused by the cache: the part is deleted again.\<close>

definition album_env :: job_env where
  "album_env = plain_env\<lparr>je_zip_build := True, je_replace_albums := (\<lambda>_. Inl (AlbumFailed AlbumReplace []))\<rparr>"

definition album_state :: job_state where
  "album_state = plain_state\<lparr>js_job := (js_job plain_state)\<lparr>at_total_tracks := 1\<rparr>,
     js_zip_states := [\<lparr>zs_rendition = Primary, zs_dir = lit ''d'',
       zs_sources = [\<lparr>zt_file_path = lit ''d/a'', zt_archive_filename = lit ''a'', zt_file_size = 3\<rparr>], zs_codec = None, zs_generation_hash = None\<rparr>]\<rparr>"

lemma album_state_simps:
  "js_zip_new_dump_messages album_state = []" "loose album_state = {}"
  by (simp_all add: album_state_def plain_state_def loose_def)


text \<open>
  Whoever waits for a job gets exactly one answer: the result of the finalisation when the upload lane runs its
  marker, an error when the lane refuses it or the job panics, and the summary of the primary rendition when only
  the optional one panicked. In each case the workspace of the job is removed.
\<close>

theorem marker_answers_once:
  "case run_finalize_marker env fate (guard_new dir states) s of (g, s') \<Rightarrow>
     fg_sent g = [case fate of
        Refused \<Rightarrow> Inl (lit ''finalize marker stopped unexpectedly'')
      | Ran \<Rightarrow> fst (finalize_job env s)
      | Panicked p \<Rightarrow> if js_finalizing_rendition p = Some Atmos then Inr (build_job_summary env None p)
                      else Inl (lit ''finalize marker panicked'')] \<and>
     set (fg_removed g) = insert dir (zs_dir ` set states) \<and> \<not> fg_summary_tx g"
  by (auto simp: run_finalize_marker_def marker_result_def guard_new_def guard_drop_def guard_finish_def guard_send_def remove_paths_def
      simp del: lit_simps split: marker_fate.splits prod.splits)

lemma finalize_fatal:
  assumes "js_fatal_error (tick env s) = Some e"
  shows "finalize_job env s = (Inl e, tick env s)"
  using assms by (simp add: finalize_job_def rs_bind_def modify_def fail_if_fatal_def look_def rs_fail_def)

end
