(* ===== verification/Rip_Lane.thy ===== *)
theory Rip_Lane
  imports Upload_Lane
begin

text \<open>
  One item of a job before its upload: \<open>rip_fresh_item\<close> of
  \<open>crates/engine/src/orchestrator/rip_lane.rs\<close>, and \<open>resolve_cached_item\<close> of \<open>cached_lane.rs\<close>, which delivers a
  cached track and stages it for the archive, or asks for a new rip when the cached copy cannot be used. The
  cached lane runs under the job's own cancellation token. The duration of the log line, a difference of clock readings, is left
  out, and with it the overflow of a clock that runs backwards.
\<close>

section \<open>A fresh rip\<close>

datatype rip_lane_outcome = Ripped pipeline_rip_result | Finished | LaneCancelled | Stop

definition is_lane_cancelled :: "job_env \<Rightarrow> (job_state, 'e, bool) result_state" where
  "is_lane_cancelled env s = (let s' = tick env s in (Inr (cancelled s' \<or> js_queue_cancelled s'), s'))"

fun set_rip_track :: "track_label \<Rightarrow> rip_activity \<Rightarrow> rip_activity" where
  "set_rip_track t ResolvingMetadata = ResolvingMetadata"
| "set_rip_track t (Connecting _) = Connecting t"
| "set_rip_track t (Downloading _ p) = Downloading t p"
| "set_rip_track t (MaterializingCachedMedia _ p) = MaterializingCachedMedia t p"
| "set_rip_track t (Decrypting _) = Decrypting t"
| "set_rip_track t (Tagging _) = Tagging t"

definition fill_position :: "pipeline_item \<Rightarrow> track_label \<Rightarrow> track_label" where
  "fill_position item t =
     t\<lparr>lb_track_index := or_else (lb_track_index t) (pi_track_index item),
       lb_total_tracks := or_else (lb_total_tracks t) (pi_total_tracks item)\<rparr>"

definition filled_activity :: "pipeline_item \<Rightarrow> rip_activity \<Rightarrow> rip_activity" where
  "filled_activity item activity =
     (case rip_track activity of None \<Rightarrow> activity | Some t \<Rightarrow> set_rip_track (fill_position item t) activity)"

text \<open>Escaping replaces ASCII characters only, so it may work on the bytes of a label.\<close>

definition escape_bytes :: "string \<Rightarrow> string" where
  "escape_bytes s = concat (map (\<lambda>c. map char_of (escape_char (of_char c))) s)"

definition track_header :: "track_label \<Rightarrow> string" where
  "track_header t =
     (if lb_artist t = [] then lb_title t
      else if lb_title t = [] then lb_artist t
      else lb_title t @ '' - '' @ lb_artist t)"

definition show_header :: "rip_activity \<Rightarrow> job_state \<Rightarrow> job_state" where
  "show_header activity s =
     (case rip_track activity of
        None \<Rightarrow> s
      | Some t \<Rightarrow>
          if track_header t = [] then s
          else s\<lparr>js_job := (js_job s)\<lparr>at_job_header := ''<b>'' @ escape_bytes (track_header t) @ ''</b>''\<rparr>\<rparr>)"

definition on_rip_progress :: "job_env \<Rightarrow> pipeline_item \<Rightarrow> rip_activity \<Rightarrow> job_state \<Rightarrow> job_state" where
  "on_rip_progress env item activity s =
     (let filled = filled_activity item activity;
          s1 = (if \<not> je_is_multi_track env \<and> pi_meta_title item = None \<and> pi_meta_artist item = None
                then show_header filled s else s)
      in emit_progress (set_download (Some (Rip filled)) s1))"

definition item_failure :: "pipeline_item \<Rightarrow> ustring \<Rightarrow> failed_track_kind option \<Rightarrow> failed_track" where
  "item_failure item err_msg kind =
     \<lparr>ft_id = pi_track_id item, ft_error = err_msg, ft_kind = kind, ft_title = pi_meta_title item,
      ft_artist = pi_meta_artist item, ft_storefront = pi_storefront item\<rparr>"

definition rip_preference :: "job_env \<Rightarrow> rendition \<Rightarrow> codec_preference" where
  "rip_preference env r =
     (if r = Atmos then AtmosPreference
      else case ro_codec_preference (je_options env) of Some p \<Rightarrow> p | None \<Rightarrow> rendition_codec_preference r)"

definition initial_codec :: "rendition \<Rightarrow> codec_preference \<Rightarrow> string" where
  "initial_codec r p = (if r = Atmos \<or> p = AtmosPreference then ''ec-3'' else ''alac'')"

definition item_storefront :: "job_env \<Rightarrow> pipeline_item \<Rightarrow> string" where
  "item_storefront env item =
     (case pi_storefront item of Some sf \<Rightarrow> sf | None \<Rightarrow> resolve_default_storefront (je_settings env))"

definition rip_dep :: "job_env \<Rightarrow> pipeline_item \<Rightarrow> (job_state, 'e, rip_error + track_rip_result) result_state" where
  "rip_dep env item s =
     call_dep env (je_rip env) (RipTrack (pi_track_id item) (item_storefront env item) (rip_preference env (pi_rendition item)))
       (fold (on_rip_progress env item) (je_rip_progress env (js_step s)) s)"

definition now_ms :: "job_env \<Rightarrow> (job_state, 'e, u64) result_state" where
  "now_ms env s = (Inr (je_now_ms env (js_step s)), tick env s)"

definition rip_failed :: "job_env \<Rightarrow> pipeline_item \<Rightarrow> rip_error \<Rightarrow> (job_state, rip_lane_outcome, 'a) result_state" where
  "rip_failed env item error =
     rs_bind (modify (set_download None)) (\<lambda>_.
     rs_bind (is_lane_cancelled env) (\<lambda>c.
     if c then rs_bind (modify emit_progress) (\<lambda>_. rs_fail LaneCancelled)
     else if pi_rendition item = Atmos \<and> (case error of RenditionUnavailable _ \<Rightarrow> True | _ \<Rightarrow> False)
     then rs_bind (modify emit_progress) (\<lambda>_. rs_fail Finished)
     else rs_bind (now_ms env) (\<lambda>_.
          rs_bind (modify (\<lambda>s. if pi_rendition item = Primary
            then push_failure (item_failure item (show_rip_error error) (failed_kind_of error)) s else s)) (\<lambda>_.
          rs_bind (modify (\<lambda>s. emit_progress (set_job_activity (Some ActProcessingNext) s))) (\<lambda>_. rs_fail Finished)))))"

definition rip_fresh_body :: "job_env \<Rightarrow> pipeline_item \<Rightarrow> (job_state, rip_lane_outcome, rip_lane_outcome) result_state" where
  "rip_fresh_body env item =
     rs_bind (is_lane_cancelled env) (\<lambda>c. if c then rs_fail LaneCancelled else
     rs_bind (modify (\<lambda>s. emit_progress (set_download None (set_job_activity None s)))) (\<lambda>_.
     if pi_is_streamable item = Some False
     then if pi_rendition item = Atmos then rs_fail Finished
          else rs_bind (modify (\<lambda>s. emit_progress (set_job_activity (Some ActProcessingNext)
                 (push_failure (item_failure item (je_unavailable_message env) (Some KindTrackUnavailable)) s)))) (\<lambda>_. rs_fail Finished)
     else
     rs_bind (now_ms env) (\<lambda>track_start_time.
     rs_bind (modify (set_codec (Some (initial_codec (pi_rendition item) (rip_preference env (pi_rendition item)))))) (\<lambda>_.
     rs_bind (rip_dep env item) (\<lambda>r.
     case r of
       Inl error \<Rightarrow> rip_failed env item error
     | Inr rip_result \<Rightarrow>
         rs_bind (modify (\<lambda>s. emit_progress (set_download None (set_codec (Some (tr_codec rip_result)) s)))) (\<lambda>_.
         rs_bind (is_lane_cancelled env) (\<lambda>c. if c then rs_fail LaneCancelled
         else rs_ret (Ripped
           \<lparr>pr_track_id = pi_track_id item, pr_rip_result = rip_result, pr_start_time_ms = track_start_time,
            pr_rendition = pi_rendition item, pr_track_index = pi_track_index item,
            pr_total_tracks = pi_total_tracks item\<rparr>))))))))"

definition rip_fresh_item :: "job_env \<Rightarrow> pipeline_item \<Rightarrow> job_state \<Rightarrow> rip_lane_outcome \<times> job_state" where
  "rip_fresh_item env item = returned (rip_fresh_body env item)"

section \<open>A cached track\<close>

datatype cache_resolution = Hit | Rerip | CacheCancelled | ResolutionFailed ustring

definition item_label :: "pipeline_item \<Rightarrow> track_label" where
  "item_label item =
     with_position
       (with_artwork_url
         (TrackLabel_new (case pi_meta_title item of Some t \<Rightarrow> utf8 t | None \<Rightarrow> [])
                         (case pi_meta_artist item of Some a \<Rightarrow> utf8 a | None \<Rightarrow> []))
         (map_option utf8 (pi_artwork_url item)))
       (pi_track_index item) (pi_total_tracks item)"

definition rerip_stale :: "job_env \<Rightarrow> cached_track \<Rightarrow> (job_state, cache_resolution, 'a) result_state" where
  "rerip_stale env cached =
     rs_bind (call_dep env (je_delete_track env) (DeleteTrack (ct_track_id cached) (Some (ct_codec cached)))) (\<lambda>_. rs_fail Rerip)"

definition deliver_cached_copy :: "job_env \<Rightarrow> cached_track \<Rightarrow> (job_state, cache_resolution, unit) result_state" where
  "deliver_cached_copy env cached =
     (let delivery = dump_copy env (ct_message_id cached) (je_is_multi_track env)
      in rs_bind (race_dep env (je_deliver_to_chat env) (DeliverToChat delivery) no_report) (\<lambda>r.
         case r of
           None \<Rightarrow> rs_fail CacheCancelled
         | Some (Inr (Message sent_id)) \<Rightarrow>
             rs_bind (is_cancelled env) (\<lambda>c. if c then rs_fail CacheCancelled else modify (remember_first sent_id))
         | Some _ \<Rightarrow> rerip_stale env cached))"

definition materializing :: "pipeline_item \<Rightarrow> nat \<Rightarrow> nat option \<Rightarrow> job_state \<Rightarrow> job_state" where
  "materializing item completed tot s =
     emit_progress (set_download (Some (Rip (MaterializingCachedMedia (item_label item) \<lparr>bp_completed = completed, bp_total = tot\<rparr>))) s)"

definition on_materialize :: "pipeline_item \<Rightarrow> nat \<times> nat \<times> nat option \<times> i32 option \<Rightarrow> job_state \<Rightarrow> job_state" where
  "on_materialize item = (\<lambda>(completed, tot, _, _). materializing item completed (if tot > 0 then Some tot else None))"

text \<open>Every way out of the download of a cached file for the archive removes the file, except success.\<close>

definition stage_cached ::
  "job_env \<Rightarrow> pipeline_item \<Rightarrow> cached_track \<Rightarrow> zip_state \<Rightarrow> (job_state, cache_resolution, unit) result_state" where
  "stage_cached env item cached state =
     (let filename = build_zip_entry_filename_with_codec None
            (case pi_meta_title item of Some t \<Rightarrow> t | None \<Rightarrow> []) (case pi_meta_artist item of Some a \<Rightarrow> a | None \<Rightarrow> [])
            (pi_track_id item) (codec_as_str (ct_codec cached));
          destination = path_join (zs_dir state) filename;
          remove_and = (\<lambda>result. rs_bind (remove_file env destination) (\<lambda>_. result))
      in rs_bind (modify (materializing item 0 None)) (\<lambda>_.
         rs_bind (race_dep env (je_materialize_cached env) (MaterializeCached (ct_message_id cached) destination) (on_materialize item)) (\<lambda>r.
         case r of
           None \<Rightarrow> remove_and (rs_fail CacheCancelled)
         | Some (Inl _) \<Rightarrow> remove_and (rerip_stale env cached)
         | Some (Inr _) \<Rightarrow>
             rs_bind (is_cancelled env) (\<lambda>c. if c then remove_and (rs_fail CacheCancelled) else
             rs_bind (metadata_len env) (\<lambda>metadata.
             case metadata of
               Inr len \<Rightarrow> modify (add_source (pi_rendition item) (Some (ct_codec cached))
                 \<lparr>zt_file_path = destination, zt_archive_filename = filename, zt_file_size = len\<rparr>)
             | Inl _ \<Rightarrow> remove_and (rerip_stale env cached))))))"

definition resolve_cached_body :: "job_env \<Rightarrow> pipeline_item \<Rightarrow> cached_track \<Rightarrow> (job_state, cache_resolution, cache_resolution) result_state" where
  "resolve_cached_body env item cached =
     rs_bind (if \<not> ro_is_cache_only (je_options env) \<and> \<not> je_zip_deliver env then deliver_cached_copy env cached else rs_ret ()) (\<lambda>_.
     rs_bind (with_zip_state (pi_rendition item) (\<lambda>state. case state of
               Some z \<Rightarrow> if je_zip_build env \<and> hm_get (je_zip_reuse env) (pi_rendition item) = None then stage_cached env item cached z else rs_ret ()
             | None \<Rightarrow> rs_ret ())) (\<lambda>_.
     rs_bind (is_cancelled env) (\<lambda>c. if c then rs_fail CacheCancelled else
     rs_bind (modify (\<lambda>s. set_job_activity (Some ActCachedDelivered) (count_cached (pi_rendition item) s))) (\<lambda>_. rs_ret Hit))))"

text \<open>The guard of the display clears the download when the body is left, on every way.\<close>

definition drop_progress :: "job_state \<Rightarrow> job_state" where
  "drop_progress s = emit_progress (set_download None s)"

definition resolve_cached_item :: "job_env \<Rightarrow> pipeline_item \<Rightarrow> cached_track \<Rightarrow> job_state \<Rightarrow> cache_resolution \<times> job_state" where
  "resolve_cached_item env item cached s =
     (let look = tick env s
      in if cancelled look then (CacheCancelled, look)
         else if \<not> codec_allowed_for_rendition (pi_rendition item) (ct_codec cached)
         then returned (rerip_stale env cached) look
         else case returned (resolve_cached_body env item cached)
                (emit_progress (set_download (Some (CachedDelivery (item_label item)))
                   (set_codec (Some (codec_as_str (ct_codec cached))) (set_job_activity None look)))) of
              (r, s') \<Rightarrow> (r, drop_progress s'))"

section \<open>What an item counts\<close>

definition lane_cancelled :: "job_state \<Rightarrow> bool" where
  "lane_cancelled s \<longleftrightarrow> cancelled s \<or> js_queue_cancelled s"

lemma wp_is_lane_cancelled [wp_simps]:
  "rs_wp (is_lane_cancelled env) Q E = (\<lambda>s. Q (lane_cancelled (tick env s)) (tick env s))"
  by (rule ext) (simp add: rs_wp_def is_lane_cancelled_def lane_cancelled_def Let_def)

lemma wp_now_ms [wp_simps]: "rs_wp (now_ms env) Q E = (\<lambda>s. Q (je_now_ms env (js_step s)) (tick env s))"
  by (rule ext) (simp add: rs_wp_def now_ms_def)

lemma wp_metadata_len [wp_simps]: "rs_wp (metadata_len env) Q E = (\<lambda>s. Q (je_metadata_len env (js_step s)) (tick env s))"
  by (rule ext) (simp add: rs_wp_def metadata_len_def)

lemma wp_remove_file [wp_simps]: "rs_wp (remove_file env p) Q E = (\<lambda>s. Q () (note_call (RemoveFile p) (tick env s)))"
  by (rule ext) (simp add: remove_file_def wp_simps)

lemma wp_rip_dep [wp_simps]:
  "rs_wp (rip_dep env item) Q E = (\<lambda>s. let s' = fold (on_rip_progress env item) (je_rip_progress env (js_step s)) s;
     r = je_rip env (js_step s') in Q r (note_call (RipTrack (pi_track_id item) (item_storefront env item) (rip_preference env (pi_rendition item)) r) (tick env s')))"
  by (rule ext) (simp add: rs_wp_def rip_dep_def call_dep_def Let_def)

lemma show_header_simps [job_simps]:
  "counts (show_header a s) = counts s" "js_calls (show_header a s) = js_calls s" "cancelled (show_header a s) = cancelled s"
  by (simp_all add: show_header_def counts_def cancelled_def split: option.splits)

lemma fold_on_rip_progress [job_simps]:
  "counts (fold (on_rip_progress env item) as s) = counts s" "js_calls (fold (on_rip_progress env item) as s) = js_calls s"
  "cancelled (fold (on_rip_progress env item) as s) = cancelled s"
  by (rule fold_keeps, simp add: on_rip_progress_def job_simps Let_def)+

lemma fold_materialize [job_simps]:
  "counts (fold (on_materialize item) ps s) = counts s" "js_calls (fold (on_materialize item) ps s) = js_calls s"
  "cancelled (fold (on_materialize item) ps s) = cancelled s"
  by (rule fold_keeps, simp add: on_materialize_def materializing_def job_simps split: prod.splits)+

lemma fold_no_report [job_simps]: "fold no_report ps s = s"
  by (induction ps arbitrary: s) (simp_all add: no_report_def)

lemma lane_cancelled_simps [job_simps]:
  "lane_cancelled (emit_progress s) = lane_cancelled s" "lane_cancelled (set_download d s) = lane_cancelled s"
  by (simp_all add: lane_cancelled_def job_simps emit_progress_def set_download_def) (simp_all add: cancelled_def)

text \<open>The calls to the provider among the calls of a state.\<close>

fun is_rip :: "job_call \<Rightarrow> bool" where
  "is_rip (RipTrack _ _ _ _) = True"
| "is_rip _ = False"

definition fails_once :: "pipeline_item \<Rightarrow> nat \<times> nat \<times> failed_track list \<Rightarrow> nat \<times> nat \<times> failed_track list \<Rightarrow> bool" where
  "fails_once item before after =
     (case before of (r, c, fs) \<Rightarrow>
        if pi_rendition item = Primary then (\<exists>e k. after = (r, c, fs @ [item_failure item e k])) else after = before)"

lemma counts_push_failure: "counts (push_failure f s) = (case counts s of (r, c, fs) \<Rightarrow> (r, c, fs @ [f]))"
  by (simp add: counts_def push_failure_def Let_def)

lemma fails_once_simps [job_simps]:
  "pi_rendition item = Primary \<Longrightarrow> fails_once item C (case C of (r, c, fs) \<Rightarrow> (r, c, fs @ [item_failure item e k]))"
  "pi_rendition item = Atmos \<Longrightarrow> fails_once item C C"
  by (auto simp: fails_once_def split: prod.splits)

definition rip_ends :: "pipeline_item \<Rightarrow> job_state \<Rightarrow> rip_lane_outcome \<Rightarrow> job_state \<Rightarrow> bool" where
  "rip_ends item s outcome s' \<longleftrightarrow>
     (case outcome of
        Ripped result \<Rightarrow> counts s' = counts s \<and> \<not> lane_cancelled s' \<and>
          pr_track_id result = pi_track_id item \<and> pr_rendition result = pi_rendition item \<and> pr_track_index result = pi_track_index item \<and>
          (\<exists>sf p. js_calls s' = js_calls s @ [RipTrack (pi_track_id item) sf p (Inr (pr_rip_result result))])
      | Finished \<Rightarrow> fails_once item (counts s) (counts s')
      | LaneCancelled \<Rightarrow> counts s' = counts s \<and> lane_cancelled s'
      | Stop \<Rightarrow> False) \<and>
     length (filter is_rip (js_calls s')) \<le> length (filter is_rip (js_calls s)) + 1"

lemma rip_fresh_body_wp: "rs_wp (rip_fresh_body env item) (rip_ends item s) (rip_ends item s) s"
proof (cases "pi_rendition item")
  case Primary
  then show ?thesis
    by (auto simp: rip_fresh_body_def rip_failed_def wp_simps rip_ends_def counts_push_failure Let_def job_simps split: sum.splits rip_error.splits)
next
  case Atmos
  then show ?thesis
    by (auto simp: rip_fresh_body_def rip_failed_def wp_simps rip_ends_def counts_push_failure Let_def job_simps split: sum.splits rip_error.splits)
qed

text \<open>
  C26: A fresh rip ends in one of three ways. Either it hands on the provider's result for exactly this item, with nothing
  counted and the lane not cancelled; or it is finished, and then a primary rendition has recorded exactly one failure
  of the item and an optional one has recorded nothing; or it stops because the lane was cancelled, with nothing counted.
  The provider is asked at most once.
\<close>

theorem rip_fresh_exact: "case rip_fresh_item env item s of (outcome, s') \<Rightarrow> rip_ends item s outcome s'"
  unfolding rip_fresh_item_def by (rule returned_wp) (simp add: rip_fresh_body_wp)

section \<open>What a cached track counts\<close>

lemma zip_states_simps [job_simps]:
  "js_zip_states (tick env s) = js_zip_states s" "js_zip_states (cancel_now s) = js_zip_states s" "js_zip_states (note_call c s) = js_zip_states s"
  "js_zip_states (set_codec k s) = js_zip_states s" "js_zip_states (emit_progress s) = js_zip_states s"
  "js_zip_states (set_job_activity a s) = js_zip_states s" "js_zip_states (set_download d s) = js_zip_states s"
  "js_zip_states (remember_first i s) = js_zip_states s" "js_zip_states (count_cached r s) = js_zip_states s"
  "js_zip_states (fold (on_materialize item) ps s) = js_zip_states s"
proof -
  show "js_zip_states (fold (on_materialize item) ps s) = js_zip_states s"
    by (rule fold_keeps) (simp add: on_materialize_def materializing_def emit_progress_def set_download_def split: prod.splits)
qed (simp_all add: tick_def cancel_now_def note_call_def set_codec_def emit_progress_def set_job_activity_def
      set_download_def remember_first_def count_cached_def Let_def)

lemma cached_simps [job_simps]:
  "counts (add_source r k e s) = counts s" "js_calls (add_source r k e s) = js_calls s" "cancelled (add_source r k e s) = cancelled s"
  "js_calls (count_cached r s) = js_calls s" "cancelled (count_cached r s) = cancelled s"
  "counts (count_cached r s) = (case counts s of (n, c, fs) \<Rightarrow> (n, if r = Primary then c + 1 else c, fs))"
  by (simp_all add: add_source_def counts_def cancelled_def count_cached_def)

lemma materializing_simps [job_simps]:
  "counts (materializing item n t s) = counts s" "js_calls (materializing item n t s) = js_calls s"
  "cancelled (materializing item n t s) = cancelled s" "js_zip_states (materializing item n t s) = js_zip_states s"
  by (simp_all add: materializing_def job_simps)

definition new_calls :: "job_state \<Rightarrow> job_state \<Rightarrow> job_call list" where
  "new_calls s s' = drop (length (js_calls s)) (js_calls s')"

definition cached_ends :: "job_env \<Rightarrow> pipeline_item \<Rightarrow> cached_track \<Rightarrow> job_state \<Rightarrow> cache_resolution \<Rightarrow> job_state \<Rightarrow> bool" where
  "cached_ends env item cached s r s' \<longleftrightarrow>
     (case r of
        Hit \<Rightarrow> counts s' = (case counts s of (n, c, fs) \<Rightarrow> (n, if pi_rendition item = Primary then c + 1 else c, fs)) \<and> \<not> cancelled s' \<and>
          (delivers_tracks env \<longrightarrow> (\<exists>sent. DeliverToChat (dump_copy env (ct_message_id cached) (je_is_multi_track env)) (Some (Inr (Message sent))) \<in> set (new_calls s s')))
      | Rerip \<Rightarrow> counts s' = counts s \<and> js_zip_states s' = js_zip_states s \<and>
          (\<exists>d. DeleteTrack (ct_track_id cached) (Some (ct_codec cached)) d \<in> set (new_calls s s'))
      | CacheCancelled \<Rightarrow> counts s' = counts s \<and> cancelled s'
      | ResolutionFailed _ \<Rightarrow> False)"

lemma deliver_cached_copy_wp:
  assumes "counts s1 = counts s" "js_calls s1 = js_calls s" "js_zip_states s1 = js_zip_states s"
  shows "rs_wp (deliver_cached_copy env cached)
     (\<lambda>_ s'. counts s' = counts s \<and> js_zip_states s' = js_zip_states s \<and> (\<exists>cs. js_calls s' = js_calls s @ cs \<and>
       (\<exists>sent. DeliverToChat (dump_copy env (ct_message_id cached) (je_is_multi_track env)) (Some (Inr (Message sent))) \<in> set cs)))
     (cached_ends env item cached s) s1"
  using assms
  by (auto simp: deliver_cached_copy_def rerip_stale_def wp_simps Let_def job_simps cached_ends_def new_calls_def
      split: option.splits sum.splits delivery_receipt.splits)

lemma stage_cached_wp:
  assumes "counts s1 = counts s" "js_calls s1 = js_calls s @ cs" "js_zip_states s1 = js_zip_states s"
  shows "rs_wp (stage_cached env item cached state)
     (\<lambda>_ s'. counts s' = counts s \<and> (\<exists>cs'. js_calls s' = js_calls s @ cs @ cs'))
     (cached_ends env item cached s) s1"
  using assms
  by (auto simp: stage_cached_def rerip_stale_def wp_simps Let_def job_simps cached_ends_def new_calls_def
      split: option.splits sum.splits)

lemma resolve_cached_body_wp:
  assumes s1: "counts s1 = counts s" "js_calls s1 = js_calls s" "js_zip_states s1 = js_zip_states s"
  shows "rs_wp (resolve_cached_body env item cached) (cached_ends env item cached s) (cached_ends env item cached s) s1"
proof -
  let ?sent = "\<lambda>cs. delivers_tracks env \<longrightarrow> (\<exists>sent. DeliverToChat (dump_copy env (ct_message_id cached) (je_is_multi_track env)) (Some (Inr (Message sent))) \<in> set cs)"
  let ?fin = "rs_bind (is_cancelled env) (\<lambda>c. if c then rs_fail CacheCancelled else
     rs_bind (modify (\<lambda>s. set_job_activity (Some ActCachedDelivered) (count_cached (pi_rendition item) s))) (\<lambda>_. rs_ret Hit))"
  have ends: "rs_wp ?fin (cached_ends env item cached s) (cached_ends env item cached s) s3"
    if "counts s3 = counts s" "js_calls s3 = js_calls s @ cs" "?sent cs" for s3 cs
    using that by (auto simp: wp_simps job_simps cached_ends_def new_calls_def)
  have staged: "rs_wp (with_zip_state (pi_rendition item) (\<lambda>state. case state of
               Some z \<Rightarrow> if je_zip_build env \<and> hm_get (je_zip_reuse env) (pi_rendition item) = None then stage_cached env item cached z else rs_ret ()
             | None \<Rightarrow> rs_ret ())) (\<lambda>_. rs_wp ?fin (cached_ends env item cached s) (cached_ends env item cached s)) (cached_ends env item cached s) s2"
    if "counts s2 = counts s" "js_calls s2 = js_calls s @ cs" "js_zip_states s2 = js_zip_states s" "?sent cs" for s2 cs
  proof -
    have "rs_wp (stage_cached env item cached state) (\<lambda>_. rs_wp ?fin (cached_ends env item cached s) (cached_ends env item cached s)) (cached_ends env item cached s) s2" for state
    proof (rule wp_mono [OF stage_cached_wp [OF that(1-3)]], goal_cases)
      case (1 a s3)
      then obtain cs' where "counts s3 = counts s" "js_calls s3 = js_calls s @ (cs @ cs')" by auto
      moreover have "?sent (cs @ cs')" using that(4) by auto
      ultimately show ?case by (rule ends)
    qed
    then show ?thesis unfolding wp_with_zip_state using ends [OF that(1,2,4)] by (auto simp: wp_ret split: option.splits)
  qed
  note staged = staged [unfolded wp_bind]
  show ?thesis
  proof (cases "delivers_tracks env")
    case True
    then show ?thesis unfolding resolve_cached_body_def wp_bind
      by (auto simp: delivers_tracks_def intro!: wp_mono [OF deliver_cached_copy_wp [OF s1]] intro: staged)
  next
    case False
    then show ?thesis unfolding resolve_cached_body_def wp_bind
      using staged [of s1 "[]"] s1 by (auto simp: delivers_tracks_def wp_ret)
  qed
qed

text \<open>
  C27: A cached track is resolved in one of three ways. On a hit a track of the primary rendition is counted
  once and one of an optional rendition not at all, and unless the job only fills the cache or builds an archive the copy has reached the chat; when the copy cannot be used the deletion of its record has been requested, nothing is
  counted and nothing is staged; and a cancellation leaves the counters alone.
\<close>

theorem cached_resolution_exact:
  "case resolve_cached_item env item cached s of (r, s') \<Rightarrow> cached_ends env item cached s r s'"
proof -
  let ?s1 = "emit_progress (set_download (Some (CachedDelivery (item_label item)))
                   (set_codec (Some (codec_as_str (ct_codec cached))) (set_job_activity None (tick env s))))"
  have body: "case returned (resolve_cached_body env item cached) ?s1 of (r, s') \<Rightarrow> cached_ends env item cached s r s'"
    by (rule returned_wp, simp only: prod.case, rule resolve_cached_body_wp) (simp_all add: job_simps)
  have dropped: "cached_ends env item cached s r (drop_progress s')" if "cached_ends env item cached s r s'" for r s'
    using that by (cases r) (simp_all add: cached_ends_def drop_progress_def job_simps new_calls_def)
  show ?thesis
    using body dropped
    by (auto simp: resolve_cached_item_def Let_def rerip_stale_def returned_def rs_bind_def call_dep_def rs_fail_def
        cached_ends_def [of _ _ _ _ Rerip] cached_ends_def [of _ _ _ _ CacheCancelled] new_calls_def job_simps split: if_splits prod.splits)
qed

end
