(* ===== verification/Job_Run.thy ===== *)
theory Job_Run
  imports Finalize Rip_Lane
begin

text \<open>
  The body of a job before its lanes start (\<open>run_job\<close> of \<open>crates/engine/src/orchestrator/job_run.rs\<close>): the targets are
  resolved to tracks, looked up in the caches and turned into pipeline items; a job whose tracks are all
  cached is delivered at once, any other is handed to the queue with the context its lanes share.

  Identifiers, storefronts and codecs are ASCII text. Elapsed times stay in milliseconds.
\<close>

section \<open>Data\<close>

record track_meta =
  tm_id :: ustring
  tm_title :: ustring
  tm_artist :: ustring
  tm_album :: ustring
  tm_genre :: "ustring option"
  tm_release_date :: ustring
  tm_artwork_url :: ustring
  tm_record_label :: "ustring option"
  tm_copyright :: "ustring option"
  tm_is_streamable :: "bool option"

record playlist_track =
  pl_id :: ustring
  pl_title :: ustring
  pl_artist :: ustring

record resolved_track_item =
  rt_id :: ustring
  rt_title :: "ustring option"
  rt_artist :: "ustring option"
  rt_artwork_url :: "ustring option"
  rt_storefront :: "string option"
  rt_is_streamable :: "bool option"

record resolution_failure =
  rf_kind :: target_kind
  rf_id :: string
  rf_error :: ustring

datatype run_error = RunCancelled | RunMessage ustring | ResolutionFailed "resolution_failure list"

definition show_failure :: "resolution_failure \<Rightarrow> ustring" where
  "show_failure f =
     lit (case rf_kind f of Track \<Rightarrow> ''track'' | Album \<Rightarrow> ''album'' | Artist \<Rightarrow> ''artist'' | Playlist \<Rightarrow> ''playlist'') @
     lit '' '' @ lit (rf_id f) @ lit '': '' @ rf_error f"

fun join_failures :: "resolution_failure list \<Rightarrow> ustring" where
  "join_failures [] = []"
| "join_failures [f] = show_failure f"
| "join_failures (f # fs) = show_failure f @ lit ''; '' @ join_failures fs"

fun show_run_error :: "run_error \<Rightarrow> ustring" where
  "show_run_error RunCancelled = lit ''Download was cancelled''"
| "show_run_error (RunMessage message) = message"
| "show_run_error (ResolutionFailed failures) =
     lit ''Failed to resolve any tracks'' @ (if failures = [] then [] else lit '': '' @ join_failures failures)"

text \<open>The catalogue, the file system and the identifiers of a run, as answers of the environment.\<close>

record run_env =
  rv_album :: "nat \<Rightarrow> ustring + (track_meta \<times> track_meta list)"
  rv_artist :: "nat \<Rightarrow> ustring + (ustring \<times> track_meta list)"
  rv_playlist :: "nat \<Rightarrow> ustring + playlist_track list"
  rv_album_url :: "string \<Rightarrow> string \<Rightarrow> ustring option"
  rv_sha256 :: "string \<Rightarrow> bytes"
  rv_create_id :: "nat \<Rightarrow> ustring"
  rv_temp_dir :: ustring
  rv_create_dir :: "nat \<Rightarrow> ustring + unit"
  rv_permit :: "nat \<Rightarrow> bool"

section \<open>Resolving the targets\<close>

record resolution =
  re_tracks :: "resolved_track_item list"
  re_album_name :: "ustring option"
  re_album_artist :: "ustring option"
  re_artwork_url :: "ustring option"
  re_release_date :: "ustring option"
  re_genre :: "ustring option"
  re_record_label :: "ustring option"
  re_copyright :: "ustring option"
  re_album_id :: "string option"
  re_album_sf :: "string option"
  re_failures :: "resolution_failure list"

definition no_resolution :: resolution where
  "no_resolution = \<lparr>re_tracks = [], re_album_name = None, re_album_artist = None, re_artwork_url = None, re_release_date = None,
     re_genre = None, re_record_label = None, re_copyright = None, re_album_id = None, re_album_sf = None, re_failures = []\<rparr>"

definition effective_sf :: "job_env \<Rightarrow> parsed_target_item \<Rightarrow> string" where
  "effective_sf env item =
     (case or_else (pt_storefront item) (ro_single_storefront (je_options env)) of
        Some sf \<Rightarrow> sf | None \<Rightarrow> resolve_default_storefront (je_settings env))"

definition non_empty :: "ustring option \<Rightarrow> ustring option" where
  "non_empty s = (case s of Some t \<Rightarrow> if t = [] then None else Some t | None \<Rightarrow> None)"

definition resolved_meta :: "string \<Rightarrow> ustring option \<Rightarrow> bool option \<Rightarrow> track_meta \<Rightarrow> resolved_track_item" where
  "resolved_meta sf artwork streamable t =
     \<lparr>rt_id = tm_id t, rt_title = Some (tm_title t), rt_artist = Some (tm_artist t), rt_artwork_url = artwork,
      rt_storefront = Some sf, rt_is_streamable = streamable\<rparr>"

definition resolved_single :: "string \<Rightarrow> parsed_target_item \<Rightarrow> resolved_track_item" where
  "resolved_single sf item =
     \<lparr>rt_id = lit (pt_id item), rt_title = None, rt_artist = None, rt_artwork_url = None, rt_storefront = Some sf, rt_is_streamable = None\<rparr>"

definition resolved_album :: "string \<Rightarrow> string \<Rightarrow> track_meta \<Rightarrow> track_meta list \<Rightarrow> resolution \<Rightarrow> resolution" where
  "resolved_album sf album_id album tracks res =
     res\<lparr>re_tracks := re_tracks res @ map (\<lambda>t. resolved_meta sf
           (if tm_artwork_url t = [] then non_empty (Some (tm_artwork_url album)) else Some (tm_artwork_url t)) (tm_is_streamable t) t) tracks,
         re_album_name := Some (tm_album album), re_album_artist := Some (tm_artist album),
         re_artwork_url := Some (tm_artwork_url album), re_release_date := Some (tm_release_date album),
         re_genre := tm_genre album, re_record_label := tm_record_label album, re_copyright := tm_copyright album,
         re_album_id := Some album_id, re_album_sf := Some sf\<rparr>"

definition resolved_artist :: "string \<Rightarrow> ustring \<Rightarrow> track_meta list \<Rightarrow> resolution \<Rightarrow> resolution" where
  "resolved_artist sf artist_name tracks res =
     res\<lparr>re_album_artist := Some artist_name,
         re_tracks := re_tracks res @ map (\<lambda>t. resolved_meta sf (non_empty (Some (tm_artwork_url t))) None t) tracks\<rparr>"

definition resolved_playlist :: "string \<Rightarrow> playlist_track list \<Rightarrow> resolution \<Rightarrow> resolution" where
  "resolved_playlist sf tracks res =
     res\<lparr>re_tracks := re_tracks res @ map (\<lambda>t. \<lparr>rt_id = pl_id t, rt_title = Some (pl_title t), rt_artist = Some (pl_artist t),
           rt_artwork_url = None, rt_storefront = Some sf, rt_is_streamable = None\<rparr>) tracks\<rparr>"

definition unresolved :: "parsed_target_item \<Rightarrow> ustring \<Rightarrow> resolution \<Rightarrow> resolution" where
  "unresolved item e res = res\<lparr>re_failures := re_failures res @ [\<lparr>rf_kind = pt_kind item, rf_id = pt_id item, rf_error = e\<rparr>]\<rparr>"

definition ask :: "job_env \<Rightarrow> (nat \<Rightarrow> 'a) \<Rightarrow> (job_state, 'e, 'a) result_state" where
  "ask env answer s = (Inr (answer (js_step s)), tick env s)"

definition resolve_item ::
  "job_env \<Rightarrow> run_env \<Rightarrow> parsed_target_item \<Rightarrow> resolution \<Rightarrow> (job_state, 'e, resolution) result_state" where
  "resolve_item env rv item res =
     (let sf = effective_sf env item
      in case pt_kind item of
           Track \<Rightarrow> rs_ret (res\<lparr>re_tracks := re_tracks res @ [resolved_single sf item]\<rparr>)
         | Album \<Rightarrow> rs_bind (ask env (rv_album rv)) (\<lambda>r.
             rs_ret (case r of Inr (album, tracks) \<Rightarrow> resolved_album sf (pt_id item) album tracks res | Inl e \<Rightarrow> unresolved item e res))
         | Artist \<Rightarrow> rs_bind (ask env (rv_artist rv)) (\<lambda>r.
             rs_ret (case r of Inr (name, tracks) \<Rightarrow> resolved_artist sf name tracks res | Inl e \<Rightarrow> unresolved item e res))
         | Playlist \<Rightarrow> rs_bind (ask env (rv_playlist rv)) (\<lambda>r.
             rs_ret (case r of Inr tracks \<Rightarrow> resolved_playlist sf tracks res | Inl e \<Rightarrow> unresolved item e res)))"

text \<open>The body looks at the token of its controller only.\<close>

definition controller_cancelled :: "job_env \<Rightarrow> (job_state, 'e, bool) result_state" where
  "controller_cancelled env s = (let s' = tick env s in (Inr (at_controller_cancelled (js_job s')), s'))"

definition fail_if_cancelled :: "job_env \<Rightarrow> (job_state, run_error, unit) result_state" where
  "fail_if_cancelled env = rs_bind (controller_cancelled env) (\<lambda>c. if c then rs_fail RunCancelled else rs_ret ())"

fun resolve_items ::
  "job_env \<Rightarrow> run_env \<Rightarrow> parsed_target_item list \<Rightarrow> resolution \<Rightarrow> (job_state, run_error, resolution) result_state" where
  "resolve_items env rv [] res = rs_ret res"
| "resolve_items env rv (item # items) res =
     rs_bind (fail_if_cancelled env) (\<lambda>_. rs_bind (resolve_item env rv item res) (resolve_items env rv items))"

definition no_tracks_failure :: resolution_failure where
  "no_tracks_failure = \<lparr>rf_kind = Track, rf_id = [], rf_error = lit ''No valid tracks found to process.''\<rparr>"

text \<open>The first track of every identifier stays.\<close>

fun first_by_id :: "ustring set \<Rightarrow> resolved_track_item list \<Rightarrow> resolved_track_item list" where
  "first_by_id seen [] = []"
| "first_by_id seen (t # ts) = (if rt_id t \<in> seen then first_by_id seen ts else t # first_by_id (insert (rt_id t) seen) ts)"

definition resolve_targets :: "job_env \<Rightarrow> run_env \<Rightarrow> (job_state, run_error, resolution) result_state" where
  "resolve_targets env rv =
     rs_bind (resolve_items env rv (ro_parsed_items (je_options env)) no_resolution) (\<lambda>res.
       if re_tracks res = []
       then rs_fail (ResolutionFailed (if re_failures res = [] then [no_tracks_failure] else re_failures res))
       else rs_ret (res\<lparr>re_tracks := first_by_id {} (re_tracks res)\<rparr>))"

section \<open>The header of the job\<close>

definition bold :: "ustring \<Rightarrow> ustring" where
  "bold s = lit ''<b>'' @ html_escape s @ lit ''</b>''"

definition job_header_of :: "job_env \<Rightarrow> run_env \<Rightarrow> resolution \<Rightarrow> ustring" where
  "job_header_of env rv res =
     (let cache_only = ro_is_cache_only (je_options env); n = length (re_tracks res);
          batch = lit (if cache_only then ''Batch Cache: <b>'' else ''Batch: <b>'') @ lit (show_nat n) @ lit '' tracks</b>''
      in case (non_empty (re_album_name res), non_empty (re_album_artist res)) of
           (Some name, Some artist) \<Rightarrow>
             (case Option.bind (re_album_id res) (\<lambda>i. Option.bind (re_album_sf res) (rv_album_url rv i)) of
                Some album_url \<Rightarrow> lit ''Album: <a href='' @ [34] @ album_url @ [34] @ lit ''>'' @ bold name @ lit ''</a> by '' @ bold artist
              | None \<Rightarrow> lit ''Album: '' @ bold name @ lit '' by '' @ bold artist)
         | _ \<Rightarrow>
             (case re_tracks res of
                [t] \<Rightarrow>
                  (case (non_empty (rt_title t), non_empty (rt_artist t)) of
                     (Some title, Some artist) \<Rightarrow> bold title @ lit '' - '' @ bold artist
                   | _ \<Rightarrow> lit (if cache_only then ''Track Cache: <code>'' else ''Track ID: <code>'') @ html_escape (rt_id t) @ lit ''</code>'')
              | _ \<Rightarrow> batch))"

section \<open>Workspaces\<close>

definition create_dir :: "job_env \<Rightarrow> run_env \<Rightarrow> ustring \<Rightarrow> (job_state, 'e, ustring + unit) result_state" where
  "create_dir env rv path =
     rs_bind (modify (\<lambda>s. s\<lparr>js_workspace_paths := js_workspace_paths s @ [path]\<rparr>)) (\<lambda>_.
     call_dep env (rv_create_dir rv) (CreateDir path))"

definition rendition_suffix :: "rendition \<Rightarrow> ustring" where
  "rendition_suffix r = lit (case r of Primary \<Rightarrow> ''_primary'' | Atmos \<Rightarrow> ''_atmos'')"

fun create_zip_states ::
  "job_env \<Rightarrow> run_env \<Rightarrow> string option \<Rightarrow> rendition list \<Rightarrow> (job_state, run_error, zip_state list) result_state" where
  "create_zip_states env rv hash [] = rs_ret []"
| "create_zip_states env rv hash (r # rs) =
     rs_bind (ask env (rv_create_id rv)) (\<lambda>cuid.
     (let dir = path_join (rv_temp_dir rv) (lit ''zip_job_'' @ cuid @ rendition_suffix r)
      in rs_bind (create_dir env rv dir) (\<lambda>created.
         case created of
           Inl e \<Rightarrow> rs_fail (RunMessage (lit ''create ZIP workspace: '' @ e))
         | Inr _ \<Rightarrow> rs_bind (create_zip_states env rv hash rs) (\<lambda>states.
             rs_ret (\<lparr>zs_rendition = r, zs_dir = dir, zs_sources = [], zs_codec = None, zs_generation_hash = hash\<rparr> # states)))))"

section \<open>What the caches have\<close>

text \<open>An administrator's forced rip forgets the cached tracks of the job and deletes their messages.\<close>

fun forget_cached ::
  "job_env \<Rightarrow> (ustring \<times> codec) list \<Rightarrow> cached_tracks_map \<Rightarrow> message_ref list \<Rightarrow>
   (job_state, 'e, cached_tracks_map \<times> message_ref list) result_state" where
  "forget_cached env [] existing old = rs_ret (existing, old)"
| "forget_cached env ((track_id, codec) # keys) existing old =
     (case hm_get existing (track_id, codec) of
        None \<Rightarrow> forget_cached env keys existing old
      | Some cached \<Rightarrow>
          rs_bind (call_dep env (je_delete_track env) (DeleteTrack track_id (Some codec))) (\<lambda>_.
          forget_cached env keys (hm_remove (track_id, codec) existing) (old @ [ct_message_id cached])))"

definition cache_keys :: "job_env \<Rightarrow> resolved_track_item list \<Rightarrow> (ustring \<times> codec) list" where
  "cache_keys env tracks =
     concat (map (\<lambda>t. concat (map (\<lambda>r. map (\<lambda>c. (rt_id t, c)) (accepted_cache_codecs r))
       (renditions (ro_rendition_policy (je_options env))))) tracks)"

definition forget_forced ::
  "job_env \<Rightarrow> resolved_track_item list \<Rightarrow> cached_tracks_map \<Rightarrow> (job_state, 'e, cached_tracks_map) result_state" where
  "forget_forced env tracks existing =
     (if ro_is_force (je_options env) \<and> ro_is_admin (je_options env)
      then rs_bind (forget_cached env (cache_keys env tracks) existing []) (\<lambda>(existing, old).
        if old = [] then rs_ret existing
        else rs_bind (call_dep env (je_retract_dump env) (RetractDump old)) (\<lambda>_. rs_ret existing))
      else rs_ret existing)"

text \<open>What the archive cache must still hold when the new archive is recorded.\<close>

definition replacement_codec :: "rendition \<Rightarrow> codec" where
  "replacement_codec r = (case r of Primary \<Rightarrow> Alac | Atmos \<Rightarrow> Ec3)"

definition expectation :: "rendition \<Rightarrow> cached_album list \<Rightarrow> album_replacement_expectation" where
  "expectation r existing =
     (case filter (\<lambda>row. archive_codec_replaced (replacement_codec r) (ca_codec row)) existing of
        [] \<Rightarrow> ExpectEmpty
      | first # rows \<Rightarrow>
          if list_all (\<lambda>row. ca_generation_hash row = ca_generation_hash first) (first # rows)
          then ExpectGeneration (ca_generation_hash first) else ExpectMixed)"

definition zip_expectations :: "job_env \<Rightarrow> bool \<Rightarrow> cached_album list \<Rightarrow> (rendition, album_replacement_expectation) hash_map" where
  "zip_expectations env zip_build existing =
     (if zip_build then map (\<lambda>r. (r, expectation r existing)) (renditions (ro_rendition_policy (je_options env))) else [])"

text \<open>An archive of the same generation is used again when every part of one codec is there.\<close>

definition rows_reusable :: "string \<Rightarrow> cached_album list \<Rightarrow> bool" where
  "rows_reusable hash rows \<longleftrightarrow>
     rows \<noteq> [] \<and> list_all (\<lambda>row. ca_generation_hash row = hash) rows \<and>
     length rows = nat (max 1 (ca_total_parts (hd rows))) \<and>
     list_all (\<lambda>(n, row). ca_part_index row = int n) (enumerate 1 rows)"

fun reusable_codec :: "string \<Rightarrow> cached_album list \<Rightarrow> codec list \<Rightarrow> cached_album list option" where
  "reusable_codec hash existing [] = None"
| "reusable_codec hash existing (c # cs) =
     (let rows = filter (\<lambda>row. ca_codec row = c) existing
      in if rows_reusable hash rows then Some rows else reusable_codec hash existing cs)"

definition zip_reuse_found :: "job_env \<Rightarrow> string option \<Rightarrow> cached_album list \<Rightarrow> (rendition, cached_album list) hash_map" where
  "zip_reuse_found env hash existing =
     (case hash of
        Some h \<Rightarrow>
          if ro_is_force (je_options env) then []
          else List.map_filter (\<lambda>r. map_option (\<lambda>rows. (r, rows)) (reusable_codec h existing (accepted_cache_codecs r)))
                 (renditions (ro_rendition_policy (je_options env)))
      | None \<Rightarrow> [])"

section \<open>Pipeline items\<close>

definition pipeline_item_of ::
  "cached_tracks_map \<Rightarrow> nat \<Rightarrow> nat \<Rightarrow> resolved_track_item \<Rightarrow> rendition \<Rightarrow> pipeline_item" where
  "pipeline_item_of existing n index t r =
     \<lparr>pi_track_id = rt_id t, pi_storefront = rt_storefront t, pi_meta_title = rt_title t, pi_meta_artist = rt_artist t,
      pi_artwork_url = rt_artwork_url t, pi_is_streamable = rt_is_streamable t, pi_rendition = r,
      pi_cached = first_of (List.map_filter (\<lambda>c. hm_get existing (rt_id t, c)) (accepted_cache_codecs r)),
      pi_track_index = (if n > 1 then Some ((index + 1) mod 2 ^ 32) else None),
      pi_total_tracks = (if n > 1 then Some (n mod 2 ^ 32) else None)\<rparr>"

fun build_items ::
  "job_env \<Rightarrow> cached_tracks_map \<Rightarrow> nat \<Rightarrow> nat \<Rightarrow> resolved_track_item list \<Rightarrow> (job_state, run_error, pipeline_item list) result_state" where
  "build_items env existing n index [] = rs_ret []"
| "build_items env existing n index (t # ts) =
     rs_bind (fail_if_cancelled env) (\<lambda>_.
     rs_bind (build_items env existing n (index + 1) ts) (\<lambda>items.
     rs_ret (map (pipeline_item_of existing n index t) (renditions (ro_rendition_policy (je_options env))) @ items)))"

text \<open>The archive of the primary rendition is used again only when every track of it is cached too.\<close>

definition zip_reuse_kept ::
  "(rendition, cached_album list) hash_map \<Rightarrow> pipeline_item list \<Rightarrow> (rendition, cached_album list) hash_map" where
  "zip_reuse_kept reuse items =
     filter (\<lambda>(r, _). r = Atmos \<or> list_all (\<lambda>item. pi_rendition item = r \<longrightarrow> pi_cached item \<noteq> None) items) reuse"

definition atmos_track_count :: "cached_tracks_map \<Rightarrow> resolved_track_item list \<Rightarrow> (rendition, cached_album list) hash_map \<Rightarrow> nat option" where
  "atmos_track_count existing tracks reuse =
     (if hm_get reuse Atmos = None then None
      else let n = length (filter (\<lambda>t. case hm_get existing (rt_id t, Ec3) of Some c \<Rightarrow> ct_codec c = Ec3 | None \<Rightarrow> False) tracks)
           in if n > 0 then Some n else None)"

definition drop_reused :: "(rendition, cached_album list) hash_map \<Rightarrow> pipeline_item list \<Rightarrow> pipeline_item list" where
  "drop_reused reuse items = (if hm_get reuse Atmos = None then items else filter (\<lambda>item. pi_rendition item \<noteq> Atmos) items)"

section \<open>Delivering a job that is cached entirely\<close>

record prepared =
  pj_resolution :: resolution
  pj_zip_build :: bool
  pj_zip_deliver :: bool
  pj_zip_states :: "zip_state list"
  pj_expectations :: "(rendition, album_replacement_expectation) hash_map"
  pj_reuse :: "(rendition, cached_album list) hash_map"
  pj_atmos_count :: "nat option"
  pj_warnings :: "ustring list"

definition run_summary ::
  "job_env \<Rightarrow> prepared \<Rightarrow> nat \<Rightarrow> ustring list \<Rightarrow> zip_delivery_info option \<Rightarrow> i64 option \<Rightarrow> job_state \<Rightarrow> rip_task_summary" where
  "run_summary env job cached_count skipped zip_delivery first_msg_id s =
     \<lparr>su_job_id = at_id (js_job s), su_job_header = at_job_header (js_job s), su_total_tracks = at_total_tracks (js_job s),
      su_cached_count = cached_count, su_ripped_count = 0, su_failed_count = 0, su_failed_tracks = [],
      su_skipped_uncached_tracks = skipped,
      su_total_elapsed_ms = saturating_minus (je_now_ms env (js_step s)) (at_start_time_ms (js_job s)),
      su_is_cache_only = ro_is_cache_only (je_options env), su_is_group = ro_is_group (je_options env),
      su_warnings = pj_warnings job, su_zip_delivery = zip_delivery,
      su_zip_deliveries = (case zip_delivery of Some z \<Rightarrow> [z] | None \<Rightarrow> []), su_first_delivered_msg_id = first_msg_id,
      su_codec = Option.bind zip_delivery zi_codec\<rparr>"

text \<open>
  How the direct delivery ends: the job was cancelled on the way, every item was delivered, or a copy failed and the job
  goes to the queue with its items.
\<close>

datatype direct_end = DirectCancelled nat "i64 option" | DirectDone nat "i64 option" | DirectFailed "pipeline_item list"

definition set_cached_count :: "nat \<Rightarrow> job_state \<Rightarrow> job_state" where
  "set_cached_count n s = s\<lparr>js_job := (js_job s)\<lparr>at_cached_count := n\<rparr>\<rparr>"

fun direct_items ::
  "job_env \<Rightarrow> bool \<Rightarrow> pipeline_item list \<Rightarrow> pipeline_item list \<Rightarrow> nat \<Rightarrow> i64 option \<Rightarrow> (job_state, 'e, direct_end) result_state" where
  "direct_items env multi done [] n first = rs_ret (DirectDone n first)"
| "direct_items env multi done (item # items) n first =
     rs_bind (controller_cancelled env) (\<lambda>c. if c then rs_ret (DirectCancelled n first)
     else case pi_cached item of
       None \<Rightarrow> direct_items env multi (done @ [item]) items n first
     | Some cached \<Rightarrow>
         rs_bind (modify (\<lambda>s. emit_progress (set_download (Some (CachedDelivery (item_label item))) s))) (\<lambda>_.
         rs_bind (race_dep env (je_deliver_to_chat env) (DeliverToChat (dump_copy env (ct_message_id cached) multi)) no_report) (\<lambda>result.
         case result of
           None \<Rightarrow> rs_ret (DirectCancelled n first)
         | Some (Inr (Message sent_id)) \<Rightarrow>
             rs_bind (modify (\<lambda>s. tick env (emit_progress (set_job_activity (Some ActCachedDelivered) (set_download None
               (set_cached_count (n + 1) s)))))) (\<lambda>_.
             direct_items env multi (done @ [item]) items (n + 1) (or_else first (Some sent_id)))
         | _ \<Rightarrow>
             rs_bind (call_dep env (je_delete_track env) (DeleteTrack (pi_track_id item) (Some (ct_codec cached)))) (\<lambda>_.
             rs_bind (modify (set_download None)) (\<lambda>_.
             rs_ret (DirectFailed (done @ item\<lparr>pi_cached := None\<rparr> # items)))))))"

text \<open>\<open>deliver_cached_zip_rows_direct\<close>: as \<open>deliver_cached_zip_rows\<close>, with the call raced and the first message passed along.\<close>

fun deliver_rows_direct ::
  "job_env \<Rightarrow> rendition \<Rightarrow> bool \<Rightarrow> cached_album list \<Rightarrow> nat \<Rightarrow> i64 \<Rightarrow> i64 option \<Rightarrow>
   (job_state, 'e, (ustring + nat \<times> i64) \<times> i64 option) result_state" where
  "deliver_rows_direct env r silent [] delivered bytes first = rs_ret (Inr (delivered, bytes), first)"
| "deliver_rows_direct env r silent (row # rows) delivered bytes first =
     rs_bind (is_cancelled env) (\<lambda>c. if c then rs_ret (Inr (delivered, bytes), first) else
     rs_bind (race_dep env (je_deliver_to_chat env) (DeliverToChat (dump_copy env (ca_message_id row) silent)) no_report) (\<lambda>result.
     case result of
       None \<Rightarrow> rs_ret (Inr (delivered, bytes), first)
     | Some (Inr (Message sent_id)) \<Rightarrow>
         rs_bind (is_cancelled env) (\<lambda>c. if c then rs_ret (Inr (delivered, bytes), first) else
         rs_bind (modify (tick env)) (\<lambda>_.
         deliver_rows_direct env r silent rows (delivered + 1) (bytes + ca_file_size row) (or_else first (Some sent_id))))
     | Some (Inr PreviewDelivered) \<Rightarrow>
         if r = Primary then rs_ret (Inl (lit ''primary ZIP delivery returned a preview receipt''), first)
         else deliver_rows_direct env r silent rows delivered bytes first
     | Some (Inl e) \<Rightarrow>
         if r = Primary then rs_ret (Inl (lit ''primary ZIP delivery failed: '' @ show_delivery_error e), first)
         else deliver_rows_direct env r silent rows delivered bytes first))"

text \<open>The fields of the archive that the context of the job gets, too.\<close>

definition zip_context :: "run_env \<Rightarrow> prepared \<Rightarrow> job_env \<Rightarrow> job_env" where
  "zip_context rv job env =
     (let res = pj_resolution job
      in env\<lparr>je_zip_build := pj_zip_build job, je_zip_deliver := pj_zip_deliver job,
         je_zip_reuse := pj_reuse job, je_zip_expectations := pj_expectations job, je_zip_reuse_atmos_track_count := pj_atmos_count job,
         je_zip_album := (case re_album_name res of Some n \<Rightarrow> n | None \<Rightarrow> lit ''Album''),
         je_zip_artist := (case re_album_artist res of Some a \<Rightarrow> a | None \<Rightarrow> lit ''Unknown Artist''),
         je_zip_album_id := (case ro_parsed_items (je_options env) of item # _ \<Rightarrow> lit (pt_id item) | [] \<Rightarrow> []),
         je_zip_album_url := Option.bind (re_album_id res) (\<lambda>i. Option.bind (re_album_sf res) (rv_album_url rv i)),
         je_zip_genre := re_genre res, je_zip_record_label := re_record_label res, je_zip_copyright := re_copyright res,
         je_zip_artwork_url := non_empty (re_artwork_url res),
         je_zip_release_date := (case re_release_date res of Some d \<Rightarrow> d | None \<Rightarrow> []),
         je_warnings := pj_warnings job, je_is_multi_track := length (re_tracks res) > 1\<rparr>)"

fun direct_archives ::
  "job_env \<Rightarrow> nat \<Rightarrow> zip_state list \<Rightarrow> zip_delivery_info list \<Rightarrow> i64 option \<Rightarrow>
   (job_state, 'e, zip_delivery_info list option \<times> i64 option) result_state" where
  "direct_archives env n [] infos first = rs_ret (Some infos, first)"
| "direct_archives env n (state # states) infos first =
     (case hm_get (je_zip_reuse env) (zs_rendition state) of
        None \<Rightarrow> direct_archives env n states infos first
      | Some rows \<Rightarrow>
          rs_bind (deliver_rows_direct env (zs_rendition state) (length rows > 1) rows 0 0 first) (\<lambda>(result, first).
          case result of
            Inl _ \<Rightarrow> rs_ret (None, first)
          | Inr (delivered, bytes) \<Rightarrow>
              direct_archives env n states
                (if delivered > 0
                 then infos @ [zip_info env n (if zs_rendition state = Primary then Some n else je_zip_reuse_atmos_track_count env)
                   delivered bytes False False (codec_as_str (ca_codec (hd rows)))]
                 else infos) first))"

definition delivered_all :: "nat \<Rightarrow> (job_state, 'e, unit) result_state" where
  "delivered_all n = modify (\<lambda>s. emit_progress (set_job_activity (Some ActCachedDelivered) (set_cached_count n s)))"

text \<open>The delivery of a cached job: its summary, or the items that the queue has to take after all.\<close>

definition deliver_cached_job ::
  "job_env \<Rightarrow> prepared \<Rightarrow> pipeline_item list \<Rightarrow> (job_state, run_error, rip_task_summary + pipeline_item list) result_state" where
  "deliver_cached_job env job items =
     (let n = length (re_tracks (pj_resolution job)); cache_only = ro_is_cache_only (je_options env)
      in if \<not> cache_only \<and> \<not> pj_zip_deliver job
         then rs_bind (direct_items env (n > 1) [] items 0 None) (\<lambda>outcome.
           case outcome of
             DirectCancelled k first \<Rightarrow> rs_bind (look (run_summary env job k [] None first)) (\<lambda>summary. rs_ret (Inl summary))
           | DirectDone k first \<Rightarrow> rs_bind (look (run_summary env job k [] None first)) (\<lambda>summary. rs_ret (Inl summary))
           | DirectFailed items' \<Rightarrow> rs_ret (Inr items'))
         else if pj_zip_deliver job \<and> \<not> cache_only
         then rs_bind (direct_archives env n (pj_zip_states job) [] None) (\<lambda>(archives, first).
           case archives of
             Some infos \<Rightarrow>
               rs_bind (delivered_all n) (\<lambda>_.
               rs_bind (look (run_summary env job n [] (first_of infos) first)) (\<lambda>summary.
               rs_ret (Inl (summary\<lparr>su_zip_deliveries := infos\<rparr>))))
           | None \<Rightarrow> rs_ret (Inr items))
         else rs_bind (delivered_all n) (\<lambda>_.
           rs_bind (look (run_summary env job n [] None None)) (\<lambda>summary. rs_ret (Inl summary))))"

section \<open>The run\<close>

definition set_phase :: "task_phase \<Rightarrow> job_state \<Rightarrow> job_state" where
  "set_phase phase s = s\<lparr>js_job := (js_job s)\<lparr>at_phase := phase\<rparr>\<rparr>"

definition enter_phase :: "task_phase \<Rightarrow> task_activity \<Rightarrow> (job_state, 'e, unit) result_state" where
  "enter_phase phase activity = modify (\<lambda>s. emit_progress (set_job_activity (Some activity) (set_phase phase s)))"

definition is_album_job :: "job_env \<Rightarrow> resolution \<Rightarrow> bool" where
  "is_album_job env res \<longleftrightarrow>
     (case ro_parsed_items (je_options env) of [item] \<Rightarrow> pt_kind item = Album \<and> length (re_tracks res) > 1 | _ \<Rightarrow> False)"

definition generation_hash :: "job_env \<Rightarrow> run_env \<Rightarrow> resolution \<Rightarrow> string option" where
  "generation_hash env rv res =
     (if is_album_job env res
      then Some (album_generation_hash (rv_sha256 rv) ''apple'' (pt_id (hd (ro_parsed_items (je_options env)))) (map (utf8 \<circ> rt_id) (re_tracks res)))
      else None)"

definition find_existing_albums :: "job_env \<Rightarrow> bool \<Rightarrow> (job_state, run_error, cached_album list) result_state" where
  "find_existing_albums env zip_build =
     (if zip_build
      then (let album_id = lit (pt_id (hd (ro_parsed_items (je_options env))))
            in rs_bind (call_dep env (je_find_albums env) (FindAlbums album_id None)) (\<lambda>found.
               case found of Inr rows \<Rightarrow> rs_ret rows | Inl e \<Rightarrow> rs_fail (RunMessage (lit ''album ZIP cache lookup failed: '' @ show_album_error e))))
      else rs_ret [])"

definition assemble ::
  "job_env \<Rightarrow> run_env \<Rightarrow> resolution \<Rightarrow> zip_state list \<Rightarrow> cached_tracks_map \<Rightarrow> cached_album list \<Rightarrow> pipeline_item list \<Rightarrow>
   prepared \<times> pipeline_item list" where
  "assemble env rv res states existing albums items =
     (let album_job = is_album_job env res; reuse = zip_reuse_kept (zip_reuse_found env (generation_hash env rv res) albums) items
      in (\<lparr>pj_resolution = res, pj_zip_build = album_job, pj_zip_deliver = (album_job \<and> \<not> ro_is_cache_only (je_options env)),
           pj_zip_states = states, pj_expectations = zip_expectations env album_job albums, pj_reuse = reuse,
           pj_atmos_count = atmos_track_count existing (re_tracks res) reuse, pj_warnings = []\<rparr>,
          drop_reused reuse items))"

text \<open>From the targets to the items of the pipeline.\<close>

definition prepare_job :: "job_env \<Rightarrow> run_env \<Rightarrow> (job_state, run_error, prepared \<times> pipeline_item list) result_state" where
  "prepare_job env rv =
     rs_bind (enter_phase Resolving ActResolving) (\<lambda>_.
     rs_bind (resolve_targets env rv) (\<lambda>res.
     (let tracks = re_tracks res; album_job = is_album_job env res; header = utf8 (job_header_of env rv res)
      in rs_bind (modify (\<lambda>s. s\<lparr>js_job := (js_job s)\<lparr>at_job_header := header, at_total_tracks := length tracks\<rparr>\<rparr>)) (\<lambda>_.
         rs_bind (if album_job then create_zip_states env rv (generation_hash env rv res) (renditions (ro_rendition_policy (je_options env)))
                  else rs_ret []) (\<lambda>states.
         rs_bind (enter_phase CheckingCache (ActCheckingCache header)) (\<lambda>_.
         rs_bind (retried env find_cached_tracks_with_retry (je_find_cached_tracks env) (\<lambda>_. FindCachedTracks (map rt_id tracks))) (\<lambda>looked_up.
         case looked_up of
           Inl e \<Rightarrow> rs_fail (RunMessage (show_cache_error e))
         | Inr existing \<Rightarrow>
             rs_bind (modify (set_job_activity None)) (\<lambda>_.
             rs_bind (forget_forced env tracks existing) (\<lambda>existing.
             rs_bind (find_existing_albums env album_job) (\<lambda>albums.
             rs_bind (build_items env existing (length tracks) 0 tracks) (\<lambda>items.
             rs_ret (assemble env rv res states existing albums items))))))))))))"

definition can_rip :: "job_env \<Rightarrow> bool" where
  "can_rip env \<longleftrightarrow> can_rip_live (je_settings env) (ro_is_admin (je_options env)) \<and> can_rip_apple (je_settings env) (ro_is_admin (je_options env))"

definition is_fresh :: "pipeline_item \<Rightarrow> bool" where
  "is_fresh item \<longleftrightarrow> pi_cached item = None"

definition skipped_tracks :: "pipeline_item list \<Rightarrow> ustring list" where
  "skipped_tracks items = map pi_track_id (filter (\<lambda>item. is_fresh item \<and> pi_rendition item = Primary) items)"

definition disabled_warnings :: "job_env \<Rightarrow> pipeline_item list \<Rightarrow> ustring list" where
  "disabled_warnings env items =
     (if \<not> can_rip env \<and> \<not> can_rip_apple (je_settings env) (ro_is_admin (je_options env)) \<and>
         (list_ex is_fresh items \<or> \<not> list_ex (\<lambda>item. \<not> is_fresh item) items)
      then [lit ''Apple Music live ripping is currently disabled by administrator.''] else [])"

definition set_skipped :: "nat \<Rightarrow> job_state \<Rightarrow> job_state" where
  "set_skipped n s = s\<lparr>js_job := (js_job s)\<lparr>at_skipped_count := n\<rparr>\<rparr>"

datatype run_outcome = RunDone rip_task_summary | RunQueued job_env "pipeline_item list" "zip_state list" ustring

text \<open>The handover to the queue: the context of the lanes and the directory of the rips.\<close>

definition queue_job ::
  "job_env \<Rightarrow> run_env \<Rightarrow> prepared \<Rightarrow> pipeline_item list \<Rightarrow> (job_state, run_error, run_outcome) result_state" where
  "queue_job env rv job items =
     rs_bind (enter_phase Queued (ActQueued 1)) (\<lambda>_.
     rs_bind (look (\<lambda>s. at_start_time_ms (js_job s))) (\<lambda>start.
     rs_bind (ask env (rv_create_id rv)) (\<lambda>cuid.
     (let dir = path_join (rv_temp_dir rv) (lit ''rip_job_'' @ cuid)
      in rs_bind (create_dir env rv dir) (\<lambda>created.
         case created of
           Inl e \<Rightarrow> rs_fail (RunMessage (lit ''create rip workspace: '' @ e))
         | Inr _ \<Rightarrow> rs_ret (RunQueued ((zip_context rv job env)\<lparr>je_queue_start_time_ms := start\<rparr>) items (pj_zip_states job) dir))))))"

definition run_cached ::
  "job_env \<Rightarrow> run_env \<Rightarrow> prepared \<Rightarrow> pipeline_item list \<Rightarrow> (job_state, run_error, run_outcome) result_state" where
  "run_cached env rv job items =
     rs_bind (enter_phase Delivering ActCachedDelivered) (\<lambda>_.
     rs_bind (ask env (rv_permit rv)) (\<lambda>permit. if \<not> permit then rs_fail RunCancelled else
     rs_bind (controller_cancelled env) (\<lambda>c.
       if c then rs_bind (look (run_summary env job 0 [] None None)) (\<lambda>summary. rs_ret (RunDone summary))
       else
         rs_bind (modify (note_call EmitStarted)) (\<lambda>_.
         rs_bind (deliver_cached_job (zip_context rv job env) job items) (\<lambda>outcome.
         case outcome of Inl summary \<Rightarrow> rs_ret (RunDone summary) | Inr items' \<Rightarrow> queue_job env rv job items')))))"

definition run_body :: "job_env \<Rightarrow> run_env \<Rightarrow> (job_state, run_error, run_outcome) result_state" where
  "run_body env rv =
     rs_bind (prepare_job env rv) (\<lambda>(job, items).
     (let fresh = list_ex is_fresh items; hits = list_ex (\<lambda>item. \<not> is_fresh item) items;
          job = job\<lparr>pj_warnings := disabled_warnings env items\<rparr>;
          skipped = skipped_tracks items
      in if \<not> can_rip env \<and> (\<not> pj_zip_build job \<or> fresh) \<and> \<not> hits
         then rs_bind (modify (\<lambda>s. emit_progress (set_job_activity (Some ActSkippingUncached) (set_skipped (length skipped) s)))) (\<lambda>_.
           rs_bind (look (run_summary env job 0 skipped None None)) (\<lambda>summary. rs_ret (RunDone summary)))
         else
           rs_bind (if \<not> can_rip env \<and> fresh \<and> hits then modify (set_skipped (length skipped)) else rs_ret ()) (\<lambda>_.
           (let items = (if \<not> can_rip env \<and> fresh \<and> hits then filter (\<lambda>item. \<not> is_fresh item) items else items)
            in if list_all (\<lambda>item. \<not> is_fresh item) items \<and> (\<not> pj_zip_build job \<or> hm_get (pj_reuse job) Primary \<noteq> None)
               then run_cached env rv job items
               else queue_job env rv job items))))"

text \<open>The guard removes the directories unless the queued task took it over.\<close>

definition drop_workspace :: "job_state \<Rightarrow> job_state" where
  "drop_workspace s = fold (\<lambda>path. note_call (RemoveDir path)) (js_workspace_paths s) (s\<lparr>js_workspace_paths := []\<rparr>)"

definition run_job :: "job_env \<Rightarrow> run_env \<Rightarrow> (job_state, run_error, run_outcome) result_state" where
  "run_job env rv s =
     (case run_body env rv (s\<lparr>js_workspace_paths := []\<rparr>) of
        (Inr (RunQueued ctx items states dir), s') \<Rightarrow> (Inr (RunQueued ctx items states dir), s')
      | (r, s') \<Rightarrow> (r, drop_workspace s'))"

text \<open>While the job waits in the queue, when it starts, and when its summary arrives.\<close>

definition on_position_change :: "nat \<Rightarrow> job_state \<Rightarrow> job_state" where
  "on_position_change position s =
     emit_progress (set_job_activity (Some (ActQueued (if position < 2 ^ 32 then position else 2 ^ 32 - 1)))
       (s\<lparr>js_job := (js_job s)\<lparr>at_queue_position := Some position\<rparr>\<rparr>))"

definition on_start :: "job_state \<Rightarrow> job_state" where
  "on_start s =
     emit_progress (set_job_activity None (note_call EmitStarted
       (s\<lparr>js_job := (js_job s)\<lparr>at_phase := Processing, at_queue_position := Some 0\<rparr>\<rparr>)))"

definition queue_refused :: "ustring \<Rightarrow> zip_state list \<Rightarrow> ustring \<Rightarrow> (job_state, run_error, 'a) result_state" where
  "queue_refused dir states e =
     rs_bind (modify (fold (\<lambda>path. note_call (RemoveDir path)) (dir # map zs_dir states))) (\<lambda>_. rs_fail (RunMessage e))"

definition await_summary ::
  "ustring \<Rightarrow> zip_state list \<Rightarrow> (ustring + rip_task_summary) option \<Rightarrow> (job_state, run_error, rip_task_summary) result_state" where
  "await_summary dir states received =
     (case received of
        Some (Inr summary) \<Rightarrow> rs_ret summary
      | Some (Inl e) \<Rightarrow> rs_fail (RunMessage e)
      | None \<Rightarrow> queue_refused dir states (lit ''finalize marker stopped unexpectedly''))"

end
