(* ===== verification/Job_Run_Safety.thy ===== *)
theory Job_Run_Safety
  imports Job_Run
begin

text \<open>
  Properties of the body of a job: the items it prepares, the archives it uses again, the direct delivery of a cached job
  and the directories it leaves behind.
\<close>

section \<open>The direct delivery\<close>

text \<open>The copies that reached the chat, in their order.\<close>

fun copied_by :: "job_call \<Rightarrow> chat_delivery list" where
  "copied_by (DeliverToChat d (Some (Inr (Message _)))) = [d]"
| "copied_by _ = []"

definition copied :: "job_state \<Rightarrow> chat_delivery list" where
  "copied s = concat (map copied_by (js_calls s))"

lemma copied_calls: "js_calls s' = js_calls s \<Longrightarrow> copied s' = copied s"
  by (simp add: copied_def)

lemma copied_note [job_simps]: "copied (note_call c s) = copied s @ copied_by c"
  by (simp add: copied_def job_simps)

lemma run_calls_simps [job_simps]:
  "js_calls (set_cached_count n s) = js_calls s" "js_calls (set_phase p s) = js_calls s" "js_calls (set_skipped n s) = js_calls s"
  by (simp_all add: set_cached_count_def set_phase_def set_skipped_def)

lemma copied_simps [job_simps]:
  "copied (tick env s) = copied s" "copied (cancel_now s) = copied s" "copied (emit_progress s) = copied s"
  "copied (set_job_activity a s) = copied s" "copied (set_download d s) = copied s" "copied (set_cached_count n s) = copied s"
  by (rule copied_calls, simp add: job_simps)+

lemma wp_controller_cancelled [wp_simps]:
  "rs_wp (controller_cancelled env) Q E = (\<lambda>s. Q (at_controller_cancelled (js_job (tick env s))) (tick env s))"
  by (rule ext) (simp add: rs_wp_def controller_cancelled_def Let_def)

lemma wp_ask [wp_simps]: "rs_wp (ask env answer) Q E = (\<lambda>s. Q (answer (js_step s)) (tick env s))"
  by (rule ext) (simp add: rs_wp_def ask_def)

lemma controller_cancel_now [job_simps]: "at_controller_cancelled (js_job (cancel_now s))"
  by (simp add: cancel_now_def)

definition copy_of :: "job_env \<Rightarrow> bool \<Rightarrow> pipeline_item \<Rightarrow> chat_delivery" where
  "copy_of env multi item = dump_copy env (ct_message_id (the (pi_cached item))) multi"

text \<open>Where the direct delivery of the items stands when it ends after \<open>k\<close> of them.\<close>

definition direct_ends ::
  "job_env \<Rightarrow> bool \<Rightarrow> pipeline_item list \<Rightarrow> pipeline_item list \<Rightarrow> nat \<Rightarrow> chat_delivery list \<Rightarrow> direct_end \<Rightarrow> job_state \<Rightarrow> bool" where
  "direct_ends env multi before items n chat outcome s \<longleftrightarrow>
     (\<exists>k \<le> length items. copied s = chat @ map (copy_of env multi) (take k items) \<and>
        (case outcome of
           DirectDone m _ \<Rightarrow> k = length items \<and> m = n + k
         | DirectCancelled m _ \<Rightarrow> m = n + k \<and> at_controller_cancelled (js_job s)
         | DirectFailed items' \<Rightarrow> k < length items \<and> items' = before @ items[k := (items ! k)\<lparr>pi_cached := None\<rparr>]))"

lemma direct_ends_now:
  assumes "copied s = chat"
  shows "at_controller_cancelled (js_job s) \<Longrightarrow> direct_ends env multi before items n chat (DirectCancelled n first) s"
    "items = item # rest \<Longrightarrow> direct_ends env multi before items n chat (DirectFailed (before @ item\<lparr>pi_cached := None\<rparr> # rest)) s"
    "direct_ends env multi before [] n chat (DirectDone n first) s"
  using assms unfolding direct_ends_def by (auto intro!: exI [of _ 0])

lemma direct_ends_Cons:
  assumes "direct_ends env multi (before @ [item]) items (Suc n) (chat @ [copy_of env multi item]) outcome s"
  shows "direct_ends env multi before (item # items) n chat outcome s"
proof -
  obtain k where k: "k \<le> length items" "copied s = chat @ map (copy_of env multi) (take (Suc k) (item # items))"
    and out: "case outcome of
           DirectDone m _ \<Rightarrow> k = length items \<and> m = Suc n + k
         | DirectCancelled m _ \<Rightarrow> m = Suc n + k \<and> at_controller_cancelled (js_job s)
         | DirectFailed items' \<Rightarrow> k < length items \<and> items' = (before @ [item]) @ items[k := (items ! k)\<lparr>pi_cached := None\<rparr>]"
    using assms unfolding direct_ends_def by auto
  show ?thesis unfolding direct_ends_def
    by (rule exI [of _ "Suc k"]) (use k out in \<open>simp split: direct_end.splits\<close>)
qed

lemma direct_items_wp:
  "list_all (\<lambda>item. pi_cached item \<noteq> None) items \<Longrightarrow>
   rs_wp (direct_items env multi before items n first) (direct_ends env multi before items n (copied s)) (\<lambda>(_ :: 'e) _. False) s"
proof (induction items arbitrary: before n first s)
  case Nil
  then show ?case by (simp add: wp_simps direct_ends_now)
next
  case (Cons item items)
  obtain cached where cached: "pi_cached item = Some cached" using Cons.prems by auto
  then have copy: "dump_copy env (ct_message_id cached) multi = copy_of env multi item" by (simp add: copy_of_def)
  have rest: "rs_wp (direct_items env multi (before @ [item]) items (Suc n) f) (direct_ends env multi before (item # items) n (copied s)) (\<lambda>(_ :: 'e) _. False) s1"
    if "copied s1 = copied s @ [copy_of env multi item]" for s1 f
  proof -
    have "rs_wp (direct_items env multi (before @ [item]) items (Suc n) f)
        (direct_ends env multi (before @ [item]) items (Suc n) (copied s @ [copy_of env multi item])) (\<lambda>(_ :: 'e) _. False) s1"
      using Cons.IH [where s = s1] Cons.prems that by simp
    then show ?thesis by (rule wp_mono) (simp_all add: direct_ends_Cons)
  qed
  show ?case
    by (auto simp: wp_simps cached Let_def job_simps copy intro!: rest direct_ends_now
        split: option.splits sum.splits delivery_receipt.splits)
qed

text \<open>
  C20: The direct delivery of a cached job copies its tracks to the chat in order, each once, and counts exactly the copies that
  arrived. It stops early only when the job is cancelled, or at a track whose copy failed: then the job goes to the queue
  with the same items, that track marked as not cached.
\<close>

theorem direct_delivery_exact:
  fixes s :: job_state and r :: "'e + direct_end"
  assumes "list_all (\<lambda>item. pi_cached item \<noteq> None) items" "direct_items env multi [] items 0 None s = (r, s')"
  shows "\<exists>k \<le> length items. copied s' = copied s @ map (copy_of env multi) (take k items) \<and>
     (case r of
        Inl _ \<Rightarrow> False
      | Inr (DirectDone n _) \<Rightarrow> n = length items \<and> k = length items
      | Inr (DirectCancelled n _) \<Rightarrow> n = k \<and> at_controller_cancelled (js_job s')
      | Inr (DirectFailed items') \<Rightarrow> k < length items \<and> items' = items[k := (items ! k)\<lparr>pi_cached := None\<rparr>])"
proof (cases r)
  case (Inl e)
  then show ?thesis using direct_items_wp [where 'e = 'e, OF assms(1), of env multi "[]" 0 None s] assms(2) by (simp add: rs_wp_def)
next
  case (Inr outcome)
  then have "direct_ends env multi [] items 0 (copied s) outcome s'"
    using direct_items_wp [where 'e = 'e, OF assms(1), of env multi "[]" 0 None s] assms(2) by (simp add: rs_wp_def)
  then show ?thesis unfolding direct_ends_def using Inr by (cases outcome) auto
qed

definition cached_items :: "pipeline_item list" where
  "cached_items = [\<lparr>pi_track_id = lit ''1'', pi_storefront = None, pi_meta_title = None, pi_meta_artist = None, pi_artwork_url = None,
     pi_is_streamable = None, pi_rendition = Primary,
     pi_cached = Some \<lparr>ct_track_id = lit ''1'', ct_codec = Alac, ct_message_id = 5, ct_file_id = [], ct_file_unique_id = []\<rparr>,
     pi_track_index = None, pi_total_tracks = None\<rparr>]"

theorem direct_delivery_exact_witness:
  "list_all (\<lambda>item. pi_cached item \<noteq> None) cached_items \<and>
   (\<exists>k \<le> 1. copied (snd (direct_items plain_env False [] cached_items 0 None plain_state :: (unit + direct_end) \<times> job_state)) =
      map (copy_of plain_env False) (take k cached_items))"
proof -
  have ok: "list_all (\<lambda>item. pi_cached item \<noteq> None) cached_items" and one: "length cached_items = 1" by (simp_all add: cached_items_def)
  have none: "copied plain_state = []" by (simp add: copied_def plain_state_def)
  obtain r :: "unit + direct_end" and s' where run: "direct_items plain_env False [] cached_items 0 None plain_state = (r, s')" by force
  show ?thesis using direct_delivery_exact [OF ok run] ok one none run by auto
qed

section \<open>The items of a job\<close>

lemma first_by_id_ids:
  "distinct (map rt_id (first_by_id seen ts)) \<and> set (map rt_id (first_by_id seen ts)) = rt_id ` set ts - seen"
  by (induction seen ts rule: first_by_id.induct) auto

lemma first_by_id_find:
  "i \<notin> seen \<Longrightarrow> List.find (\<lambda>t. rt_id t = i) (first_by_id seen ts) = List.find (\<lambda>t. rt_id t = i) ts"
  by (induction seen ts rule: first_by_id.induct) auto

lemma first_by_id_empty [simp]: "first_by_id {} ts = [] \<longleftrightarrow> ts = []"
  by (cases ts) simp_all

definition items_of :: "job_env \<Rightarrow> cached_tracks_map \<Rightarrow> nat \<Rightarrow> nat \<Rightarrow> resolved_track_item list \<Rightarrow> pipeline_item list" where
  "items_of env existing n index ts =
     concat (map (\<lambda>(k, t). map (pipeline_item_of existing n k t) (renditions (ro_rendition_policy (je_options env)))) (enumerate index ts))"

lemma build_items_wp: "rs_wp (build_items env existing n index ts) (\<lambda>items _. items = items_of env existing n index ts) (\<lambda>_ _. True) s"
proof (induction ts arbitrary: index s)
  case Nil
  then show ?case by (simp add: wp_simps items_of_def)
next
  case (Cons t ts)
  show ?case unfolding build_items.simps wp_bind
    by (rule wp_any, rule wp_mono [OF Cons.IH]) (simp_all add: wp_ret items_of_def)
qed

lemma resolve_targets_wp:
  "rs_wp (resolve_targets env rv) (\<lambda>res _. re_tracks res \<noteq> [] \<and> distinct (map rt_id (re_tracks res))) (\<lambda>_ _. True) s"
  using first_by_id_ids [of "{}"] unfolding resolve_targets_def by (auto simp: wp_simps intro!: wp_any)

text \<open>What a prepared job is made of.\<close>

lemma prepare_job_wp:
  "rs_wp (prepare_job env rv) (\<lambda>p _. \<exists>res states existing albums. re_tracks res \<noteq> [] \<and> distinct (map rt_id (re_tracks res)) \<and>
     p = assemble env rv res states existing albums (items_of env existing (length (re_tracks res)) 0 (re_tracks res))) (\<lambda>_ _. True) s"
proof -
  have rest: "rs_wp (build_items env existing (length (re_tracks res)) 0 (re_tracks res)) (\<lambda>items. Q (assemble env rv res states existing albums items)) (\<lambda>_ _. True) s1"
    if "\<And>s'. Q (assemble env rv res states existing albums (items_of env existing (length (re_tracks res)) 0 (re_tracks res))) s'"
    for res states existing albums Q s1
    using that by (intro wp_mono [OF build_items_wp]) auto
  show ?thesis unfolding prepare_job_def Let_def wp_bind
  proof (rule wp_any, rule wp_mono [OF resolve_targets_wp], goal_cases)
    case (1 _ _ res)
    show ?case
    proof (rule wp_any, rule wp_any, rule wp_any, rule wp_any, goal_cases)
      case (1 _ _ states _ _ _ looked_up)
      then show ?case using \<open>_ \<and> distinct _\<close>
        by (cases looked_up) (auto simp: wp_fail wp_bind wp_ret intro!: wp_any rest)
    qed
  qed simp
qed

lemma prepare_job_cases:
  assumes "prepare_job env rv s = (Inr (job, items), s')"
  obtains existing albums where
    "re_tracks (pj_resolution job) \<noteq> []" "distinct (map rt_id (re_tracks (pj_resolution job)))"
    "pj_reuse job = zip_reuse_kept (zip_reuse_found env (generation_hash env rv (pj_resolution job)) albums)
       (items_of env existing (length (re_tracks (pj_resolution job))) 0 (re_tracks (pj_resolution job)))"
    "items = drop_reused (pj_reuse job) (items_of env existing (length (re_tracks (pj_resolution job))) 0 (re_tracks (pj_resolution job)))"
proof -
  from prepare_job_wp [of env rv s] assms obtain res states existing albums where
    r: "re_tracks res \<noteq> []" "distinct (map rt_id (re_tracks res))"
      "(job, items) = assemble env rv res states existing albums (items_of env existing (length (re_tracks res)) 0 (re_tracks res))"
    by (auto simp: rs_wp_def)
  then show thesis using that [of albums existing] by (simp add: assemble_def Let_def)
qed

lemma hm_get_kept: "hm_get (filter (\<lambda>(k, v). P k) m) k = (if P k then hm_get m k else None)"
  by (induction m) (auto simp: hm_get_def)


definition single_env :: job_env where
  "single_env = plain_env\<lparr>je_options := plain_options\<lparr>ro_parsed_items := [\<lparr>pt_id = ''1'', pt_kind = Track, pt_storefront = None\<rparr>]\<rparr>\<rparr>"

definition plain_run :: run_env where
  "plain_run = \<lparr>rv_album = (\<lambda>_. Inl []), rv_artist = (\<lambda>_. Inl []), rv_playlist = (\<lambda>_. Inl []), rv_album_url = (\<lambda>_ _. None),
     rv_sha256 = (\<lambda>_. []), rv_create_id = (\<lambda>_. []), rv_temp_dir = [], rv_create_dir = (\<lambda>_. Inr ()), rv_permit = (\<lambda>_. True)\<rparr>"

lemma single_prepared: "\<exists>job items s'. prepare_job single_env plain_run plain_state = (Inr (job, items), s') \<and> map rt_id (re_tracks (pj_resolution job)) = [lit ''1'']"
  by (simp add: prepare_job_def enter_phase_def modify_def resolve_targets_def single_env_def plain_env_def plain_options_def rs_bind_def
      fail_if_cancelled_def controller_cancelled_def tick_def plain_state_def new_job_def emit_progress_def set_job_activity_def set_phase_def
      resolve_item_def no_resolution_def rs_ret_def is_album_job_def retried_def find_cached_tracks_with_retry_def RetryPolicy_new_def retry_loop.simps
      note_call_def forget_forced_def find_existing_albums_def assemble_def resolved_single_def Let_def)


lemma reusable_codec_Some:
  "reusable_codec hash existing cs = Some rows \<Longrightarrow>
   \<exists>c \<in> set cs. rows = filter (\<lambda>row. ca_codec row = c) existing \<and> rows_reusable hash rows"
  by (induction cs) (auto simp: Let_def split: if_splits)

lemma zip_reuse_found_Some:
  assumes "hm_get (zip_reuse_found env hash albums) r = Some rows"
  obtains h c where "hash = Some h" "\<not> ro_is_force (je_options env)" "c \<in> set (accepted_cache_codecs r)"
    "rows = filter (\<lambda>row. ca_codec row = c) albums" "rows_reusable h rows"
proof -
  obtain h where h: "hash = Some h" "\<not> ro_is_force (je_options env)"
    using assms by (auto simp: zip_reuse_found_def hm_get_def split: option.splits if_splits)
  have "(r, rows) \<in> set (zip_reuse_found env hash albums)" using assms by (auto simp: hm_get_def dest: map_of_SomeD)
  then have "reusable_codec h albums (accepted_cache_codecs r) = Some rows"
    using h by (auto simp: zip_reuse_found_def List.map_filter_def split: option.splits)
  with h reusable_codec_Some [OF this] show thesis using that by blast
qed


text \<open>A cached album of two tracks with its archive, for examples.\<close>

definition album_cached :: cached_tracks_map where
  "album_cached = map (\<lambda>i. ((lit i, Alac), \<lparr>ct_track_id = lit i, ct_codec = Alac, ct_message_id = 5, ct_file_id = [], ct_file_unique_id = []\<rparr>)) [''1'', ''2'']"

definition album_rows :: "cached_album list" where
  "album_rows = [\<lparr>ca_part_index = 1, ca_total_parts = 1, ca_message_id = 6, ca_file_unique_id = [], ca_generation_hash = [],
     ca_file_size = 9, ca_codec = Alac\<rparr>]"

definition album_job_env :: job_env where
  "album_job_env = plain_env\<lparr>je_options := plain_options\<lparr>ro_parsed_items := [\<lparr>pt_id = ''9'', pt_kind = Album, pt_storefront = None\<rparr>]\<rparr>,
     je_find_cached_tracks := (\<lambda>_. Inr album_cached), je_find_albums := (\<lambda>_. Inr album_rows)\<rparr>"

definition album_track :: "string \<Rightarrow> track_meta" where
  "album_track i = \<lparr>tm_id = lit i, tm_title = [], tm_artist = [], tm_album = [], tm_genre = None, tm_release_date = [], tm_artwork_url = [],
     tm_record_label = None, tm_copyright = None, tm_is_streamable = None\<rparr>"

definition album_run :: run_env where
  "album_run = plain_run\<lparr>rv_album := (\<lambda>_. Inr (album_track ''9'', [album_track ''1'', album_track ''2'']))\<rparr>"

lemma controller_simps:
  "at_controller_cancelled (js_job (tick env s)) \<longleftrightarrow> at_controller_cancelled (js_job s) \<or> je_cancel env (js_step s)"
  "js_job (note_call c s) = js_job s" "js_job (emit_progress s) = js_job s" "js_job (set_job_activity a s) = js_job s"
  "at_controller_cancelled (js_job (set_phase p s)) = at_controller_cancelled (js_job s)"
  by (simp_all add: tick_def cancel_now_def note_call_def emit_progress_def set_job_activity_def set_phase_def Let_def)

lemma album_reused:
  assumes "re_tracks res = map (\<lambda>i. resolved_meta sf None None (album_track i)) [''1'', ''2'']"
  shows "hm_get (zip_reuse_kept (zip_reuse_found album_job_env (Some []) album_rows)
      (items_of album_job_env album_cached (length (re_tracks res)) 0 (re_tracks res))) Primary = Some album_rows"
  unfolding assms
  by (simp add: zip_reuse_kept_def zip_reuse_found_def album_job_env_def plain_options_def rows_reusable_def album_rows_def items_of_def
      pipeline_item_of_def resolved_meta_def album_track_def album_cached_def hm_get_def List.map_filter_def first_of_def)

lemma album_prepared_wp:
  "rs_wp (prepare_job album_job_env album_run) (\<lambda>(job, items) _. hm_get (pj_reuse job) Primary = Some album_rows) (\<lambda>_ _. False) plain_state"
proof -
  have live: "\<not> at_controller_cancelled (js_job plain_state)" by (simp add: plain_state_def new_job_def)
  have answers: "ro_parsed_items (je_options album_job_env) = [\<lparr>pt_id = ''9'', pt_kind = Album, pt_storefront = None\<rparr>]"
    "ro_rendition_policy (je_options album_job_env) = PrimaryOnly" "\<not> ro_is_force (je_options album_job_env)"
    "je_cancel album_job_env = (\<lambda>_. False)" "je_storage_retry album_job_env = RetryPolicy_new 1 0"
    "je_find_cached_tracks album_job_env = (\<lambda>_. Inr album_cached)" "je_find_albums album_job_env = (\<lambda>_. Inr album_rows)"
    "rv_album album_run = (\<lambda>_. Inr (album_track ''9'', map album_track [''1'', ''2'']))" "rv_create_dir album_run = (\<lambda>_. Inr ())"
    by (simp_all add: album_job_env_def plain_env_def plain_options_def album_run_def plain_run_def)
  have found: "find_cached_tracks_with_retry (\<lambda>_. Inr x) (RetryPolicy_new 1 0) = (Inr x, [])" for x :: cached_tracks_map
    by (simp add: find_cached_tracks_with_retry_def RetryPolicy_new_def retry_loop.simps)
  let ?res = "resolved_album (effective_sf album_job_env \<lparr>pt_id = ''9'', pt_kind = Album, pt_storefront = None\<rparr>) ''9'' (album_track ''9'')
      (map album_track [''1'', ''2'']) no_resolution"
  have tracks: "re_tracks ?res = map (\<lambda>i. resolved_meta (effective_sf album_job_env \<lparr>pt_id = ''9'', pt_kind = Album, pt_storefront = None\<rparr>) None None (album_track i)) [''1'', ''2'']"
    by (simp add: resolved_album_def no_resolution_def album_track_def non_empty_def)
  have uniq: "re_tracks ?res \<noteq> []" "first_by_id {} (re_tracks ?res) = re_tracks ?res"
    unfolding tracks by (simp_all add: resolved_meta_def album_track_def)
  have hash: "generation_hash album_job_env album_run r = Some []" if "re_tracks r = re_tracks ?res" for r
    using that tracks by (simp add: generation_hash_def is_album_job_def answers album_generation_hash_def hex_digest_def album_run_def plain_run_def)
  have targets: "rs_wp (resolve_targets album_job_env album_run) (\<lambda>res s. re_tracks res = re_tracks ?res \<and> \<not> at_controller_cancelled (js_job s)) (\<lambda>_ _. False) s"
    if "\<not> at_controller_cancelled (js_job s)" for s
    using that uniq by (simp add: resolve_targets_def wp_simps fail_if_cancelled_def resolve_item_def answers controller_simps Let_def del: list.map)
  have items: "rs_wp (build_items album_job_env existing n k ts) (\<lambda>items s. items = items_of album_job_env existing n k ts) (\<lambda>_ _. False) s"
    if "\<not> at_controller_cancelled (js_job s)" for existing n k ts s
    using that by (induction ts arbitrary: k s) (auto simp: wp_simps fail_if_cancelled_def answers controller_simps items_of_def intro!: wp_mono)
  show ?thesis unfolding prepare_job_def Let_def wp_bind enter_phase_def wp_modify
  proof (rule wp_mono [OF targets], goal_cases)
    case 1
    then show ?case using live by (simp add: controller_simps)
  next
    case (2 res s)
    then have album: "is_album_job album_job_env res" and res: "re_tracks res = re_tracks ?res" using tracks by (simp_all add: is_album_job_def answers)
    show ?case using 2 album hash [OF res] album_reused [OF res [unfolded tracks]]
      by (simp add: wp_simps answers found forget_forced_def find_existing_albums_def create_dir_def assemble_def Let_def)
        (intro wp_mono [OF items], simp_all add: controller_simps answers)
  qed simp
qed


end
