(* ===== verification/Dispatch.thy ===== *)
theory Dispatch
  imports Rip_Lane "HOL-Library.Sublist"
begin

text \<open>
  The ordered dispatch of a job's items (\<open>crates/engine/src/orchestrator/dispatch.rs\<close>): lane one rips the items in
  their order and sends a slot for each through a bounded channel; the dispatcher takes the slots in their order, queues
  uploads, waits for each cached track to be resolved and rips it again when it has to. While it waits it keeps
  receiving, into a buffer. Both run concurrently: an event is the stretch of one of them between two awaits, and the
  answers of the rest of the system are parameters of the events.
\<close>

datatype ordered_slot = CachedSlot pipeline_item cached_track | FreshSlot pipeline_rip_result | FinishedSlot

definition ORDERED_SLOT_CAPACITY :: nat where
  "ORDERED_SLOT_CAPACITY = 16"

definition ordered_slot_capacity :: "nat \<Rightarrow> nat" where
  "ordered_slot_capacity item_count = max (min (item_count + 1) u64_max) ORDERED_SLOT_CAPACITY"

datatype lane_pc = LaneLoop | LaneSending pipeline_item ordered_slot | LaneFinishing | LaneOver

datatype dispatch_pc = Looping | WaitCache pipeline_item | WaitRerip bool | FinalizeQueued | DispatchFailed

datatype cache_enqueue = EnqueuePending | EnqueueCancelled | EnqueueFailed ustring

datatype rerip_reply = RipValue rip_lane_outcome | OtherValue | RipQueueError ustring | ChannelClosed

record dispatcher =
  d_todo :: "pipeline_item list"
  d_lane :: lane_pc
  d_capacity :: nat
  d_channel :: "ordered_slot list"
  d_buffered :: "ordered_slot list"
  d_received_finished :: bool
  d_stop :: bool
  d_pc :: dispatch_pc
  d_cancelled :: bool
  d_fatal :: "ustring option"
  d_sent :: "(pipeline_item \<times> ordered_slot) list"
  d_taken :: "ordered_slot list"
  d_skipped :: bool
  d_uploads :: "pipeline_rip_result list"
  d_reripped :: "pipeline_item list"

text \<open>
  \<open>d_sent\<close> are the items whose slots lane one put into the channel, \<open>d_taken\<close> those the dispatcher began to handle, and \<open>d_skipped\<close> says
  that it dropped one; they record what happened and steer nothing.
\<close>

definition dispatch_init :: "pipeline_item list \<Rightarrow> dispatcher" where
  "dispatch_init items =
     \<lparr>d_todo = items, d_lane = LaneLoop, d_capacity = ordered_slot_capacity (length items), d_channel = [], d_buffered = [],
      d_received_finished = False, d_stop = False, d_pc = Looping, d_cancelled = False, d_fatal = None, d_sent = [], d_taken = [],
      d_skipped = False, d_uploads = [], d_reripped = []\<rparr>"

definition fatal :: "ustring \<Rightarrow> dispatcher \<Rightarrow> dispatcher" where
  "fatal e d = d\<lparr>d_fatal := (case d_fatal d of None \<Rightarrow> Some e | first \<Rightarrow> first)\<rparr>"

definition running :: "dispatcher \<Rightarrow> bool" where
  "running d \<longleftrightarrow> d_pc d \<notin> {FinalizeQueued, DispatchFailed}"

section \<open>Lane one\<close>

text \<open>The next item: its slot is made from the cache or by a rip, whose outcome the event carries.\<close>

definition lane_item :: "bool \<Rightarrow> rip_lane_outcome \<Rightarrow> dispatcher \<Rightarrow> dispatcher" where
  "lane_item queue_cancelled outcome d =
     (if d_lane d \<noteq> LaneLoop then d
      else case d_todo d of
        [] \<Rightarrow> d\<lparr>d_lane := LaneFinishing\<rparr>
      | item # rest \<Rightarrow>
          if d_cancelled d \<or> queue_cancelled then d\<lparr>d_lane := LaneFinishing\<rparr>
          else case pi_cached item of
            Some cached \<Rightarrow> d\<lparr>d_todo := rest, d_lane := LaneSending item (CachedSlot item cached)\<rparr>
          | None \<Rightarrow>
              (case outcome of
                 Ripped upload_item \<Rightarrow> d\<lparr>d_todo := rest, d_lane := LaneSending item (FreshSlot upload_item)\<rparr>
               | Finished \<Rightarrow> d\<lparr>d_todo := rest\<rparr>
               | LaneCancelled \<Rightarrow> d\<lparr>d_todo := rest, d_lane := LaneFinishing\<rparr>
               | Stop \<Rightarrow> d\<lparr>d_todo := rest, d_lane := LaneFinishing\<rparr>))"

text \<open>A send waits for room; it fails when the receiver is gone, and a cancellation may interrupt it.\<close>

definition lane_send :: "bool \<Rightarrow> dispatcher \<Rightarrow> dispatcher" where
  "lane_send interrupted d =
     (case d_lane d of
        LaneSending item slot \<Rightarrow>
          if interrupted \<or> \<not> running d then d\<lparr>d_lane := LaneFinishing\<rparr>
          else if length (d_channel d) < d_capacity d
          then d\<lparr>d_lane := LaneLoop, d_channel := d_channel d @ [slot], d_sent := d_sent d @ [(item, slot)]\<rparr>
          else d
      | LaneFinishing \<Rightarrow>
          if \<not> running d then d\<lparr>d_lane := LaneOver\<rparr>
          else if length (d_channel d) < d_capacity d
          then d\<lparr>d_lane := LaneOver, d_channel := d_channel d @ [FinishedSlot]\<rparr>
          else d
      | _ \<Rightarrow> d)"

text \<open>Lane one may die in a rip; its end of the channel closes without the marker.\<close>

definition lane_dies :: "dispatcher \<Rightarrow> dispatcher" where
  "lane_dies d = d\<lparr>d_lane := LaneOver\<rparr>"

section \<open>The dispatcher\<close>

text \<open>The end of the loop: without the marker and without a cancellation the job fails.\<close>

definition dispatch_end :: "dispatcher \<Rightarrow> dispatcher" where
  "dispatch_end d =
     (if \<not> d_received_finished d \<and> \<not> d_cancelled d then d\<lparr>d_pc := DispatchFailed\<rparr>
      else d\<lparr>d_pc := FinalizeQueued\<rparr>)"

definition push_upload :: "bool \<Rightarrow> ustring \<Rightarrow> pipeline_rip_result \<Rightarrow> dispatcher \<Rightarrow> dispatcher" where
  "push_upload pushed message upload_item d =
     (if pushed then d\<lparr>d_uploads := d_uploads d @ [upload_item]\<rparr>
      else (if d_cancelled d then d else fatal message d)\<lparr>d_stop := True\<rparr>)"

definition cache_resolved :: "pipeline_item \<Rightarrow> cache_resolution \<Rightarrow> dispatcher \<Rightarrow> dispatcher" where
  "cache_resolved item r d =
     (case r of
        Hit \<Rightarrow> d\<lparr>d_pc := Looping\<rparr>
      | ResolutionFailed e \<Rightarrow> (fatal e d)\<lparr>d_pc := Looping\<rparr>
      | CacheCancelled \<Rightarrow> d\<lparr>d_pc := Looping, d_stop := True\<rparr>
      | Rerip \<Rightarrow> d\<lparr>d_pc := WaitRerip False, d_reripped := d_reripped d @ [item\<lparr>pi_cached := None\<rparr>]\<rparr>)"

definition handle_slot :: "bool \<Rightarrow> cache_enqueue \<Rightarrow> ordered_slot \<Rightarrow> dispatcher \<Rightarrow> dispatcher" where
  "handle_slot pushed enq slot d =
     (if slot = FinishedSlot then d\<lparr>d_received_finished := True\<rparr>
      else if d_stop d \<or> d_cancelled d then d\<lparr>d_stop := True, d_skipped := True\<rparr>
      else
        let d' = d\<lparr>d_taken := d_taken d @ [slot]\<rparr>
        in case slot of
             FreshSlot upload_item \<Rightarrow> push_upload pushed (lit ''ordered upload could not be queued'') upload_item d'
           | CachedSlot item cached \<Rightarrow>
               (case enq of
                  EnqueuePending \<Rightarrow> d'\<lparr>d_pc := WaitCache item\<rparr>
                | EnqueueCancelled \<Rightarrow> cache_resolved item CacheCancelled d'
                | EnqueueFailed e \<Rightarrow> cache_resolved item (ResolutionFailed e) d')
           | FinishedSlot \<Rightarrow> d')"

text \<open>One turn of the loop; with nothing to receive it waits, unless lane one is gone.\<close>

definition dispatch_turn :: "bool \<Rightarrow> cache_enqueue \<Rightarrow> dispatcher \<Rightarrow> dispatcher" where
  "dispatch_turn pushed enq d =
     (if d_pc d \<noteq> Looping then d
      else case d_buffered d of
        slot # rest \<Rightarrow> handle_slot pushed enq slot (d\<lparr>d_buffered := rest\<rparr>)
      | [] \<Rightarrow>
          if d_received_finished d then dispatch_end d
          else case d_channel d of
            slot # rest \<Rightarrow> handle_slot pushed enq slot (d\<lparr>d_channel := rest\<rparr>)
          | [] \<Rightarrow> if d_lane d = LaneOver then dispatch_end d else d)"

text \<open>Receiving while a cached track or a rip is awaited; the end of the channel ends the wait.\<close>

definition drain_slot :: "ustring \<Rightarrow> (dispatcher \<Rightarrow> dispatcher) \<Rightarrow> dispatcher \<Rightarrow> dispatcher" where
  "drain_slot exhausted closed d =
     (if d_received_finished d then d
      else case d_channel d of
        slot # rest \<Rightarrow>
          let d' = d\<lparr>d_channel := rest\<rparr>
          in if slot = FinishedSlot then d'\<lparr>d_received_finished := True\<rparr>
             else if length (d_buffered d) < d_capacity d then d'\<lparr>d_buffered := d_buffered d @ [slot]\<rparr>
             else fatal exhausted d'
      | [] \<Rightarrow> if d_lane d = LaneOver then closed d else d)"

definition ordered_rerip_result :: "rerip_reply \<Rightarrow> dispatcher \<Rightarrow> rip_lane_outcome \<times> dispatcher" where
  "ordered_rerip_result result d =
     (let unless_cancelled = (\<lambda>message. if d_cancelled d then (LaneCancelled, d) else (Stop, fatal message d))
      in case result of
           RipValue outcome \<Rightarrow> (outcome, d)
         | OtherValue \<Rightarrow> (Stop, fatal (lit ''ordered fallback rip returned an invalid result'') d)
         | RipQueueError error \<Rightarrow> unless_cancelled (lit ''ordered fallback rip failed: '' @ error)
         | ChannelClosed \<Rightarrow> unless_cancelled (lit ''ordered fallback rip queue stopped unexpectedly''))"

definition rerip_done :: "bool \<Rightarrow> rip_lane_outcome \<Rightarrow> dispatcher \<Rightarrow> dispatcher" where
  "rerip_done pushed outcome d =
     (let d' = d\<lparr>d_pc := Looping\<rparr>
      in case outcome of
           Ripped upload_item \<Rightarrow> push_upload pushed (lit ''ordered fallback upload could not be queued'') upload_item d'
         | Finished \<Rightarrow> d'
         | LaneCancelled \<Rightarrow> d'\<lparr>d_stop := True\<rparr>
         | Stop \<Rightarrow> d'\<lparr>d_stop := True\<rparr>)"

definition drain_while_waiting :: "dispatcher \<Rightarrow> dispatcher" where
  "drain_while_waiting d =
     (case d_pc d of
        WaitCache item \<Rightarrow>
          drain_slot (lit ''ordered dispatcher buffer exhausted while resolving cache'')
            (cache_resolved item (ResolutionFailed (lit ''ordered dispatcher stopped before its finish marker''))) d
      | WaitRerip was_cancelled \<Rightarrow>
          drain_slot (lit ''ordered dispatcher buffer exhausted while reripping'')
            (\<lambda>d. if was_cancelled then rerip_done False LaneCancelled d
                 else rerip_done False Stop (fatal (lit ''ordered dispatcher stopped before its finish marker'') d)) d
      | _ \<Rightarrow> d)"

definition cache_reply :: "cache_resolution option \<Rightarrow> dispatcher \<Rightarrow> dispatcher" where
  "cache_reply r d =
     (case d_pc d of
        WaitCache item \<Rightarrow>
          cache_resolved item (case r of Some x \<Rightarrow> x | None \<Rightarrow> ResolutionFailed (lit ''cached result channel closed unexpectedly'')) d
      | _ \<Rightarrow> d)"

definition rip_reply :: "rerip_reply \<Rightarrow> bool \<Rightarrow> dispatcher \<Rightarrow> dispatcher" where
  "rip_reply result pushed d =
     (case d_pc d of
        WaitRerip was_cancelled \<Rightarrow>
          (case ordered_rerip_result result d of (outcome, d') \<Rightarrow>
             rerip_done pushed (if was_cancelled then LaneCancelled else outcome) d')
      | _ \<Rightarrow> d)"

definition notice_cancel :: "dispatcher \<Rightarrow> dispatcher" where
  "notice_cancel d =
     (if \<not> d_cancelled d then d
      else case d_pc d of
        WaitCache item \<Rightarrow> cache_resolved item CacheCancelled d
      | WaitRerip _ \<Rightarrow> d\<lparr>d_pc := WaitRerip True\<rparr>
      | _ \<Rightarrow> d)"

datatype dispatch_event =
  LaneItem bool rip_lane_outcome | LaneSend bool | LaneDies | JobCancelled | Turn bool cache_enqueue | Drain
| CacheReply "cache_resolution option" | RipReply rerip_reply bool | NoticeCancel

fun dispatch_step :: "dispatcher \<Rightarrow> dispatch_event \<Rightarrow> dispatcher" where
  "dispatch_step d (LaneItem q r) = lane_item q r d"
| "dispatch_step d (LaneSend i) = lane_send i d"
| "dispatch_step d LaneDies = lane_dies d"
| "dispatch_step d JobCancelled = d\<lparr>d_cancelled := True\<rparr>"
| "dispatch_step d (Turn pushed enq) = dispatch_turn pushed enq d"
| "dispatch_step d Drain = drain_while_waiting d"
| "dispatch_step d (CacheReply r) = cache_reply r d"
| "dispatch_step d (RipReply r pushed) = rip_reply r pushed d"
| "dispatch_step d NoticeCancel = notice_cancel d"

definition dispatch_run :: "pipeline_item list \<Rightarrow> dispatch_event list \<Rightarrow> dispatcher" where
  "dispatch_run items es = foldl dispatch_step (dispatch_init items) es"

section \<open>Slots are handled in their order\<close>

definition slots_in :: "ordered_slot list \<Rightarrow> ordered_slot list" where
  "slots_in = filter (\<lambda>slot. slot \<noteq> FinishedSlot)"

lemma slots_in_simps [simp]:
  "slots_in [] = []" "slots_in (xs @ ys) = slots_in xs @ slots_in ys" "slots_in (FinishedSlot # xs) = slots_in xs"
  "slot \<noteq> FinishedSlot \<Longrightarrow> slots_in (slot # xs) = slot # slots_in xs"
  by (simp_all add: slots_in_def)

fun sending_items :: "lane_pc \<Rightarrow> pipeline_item list" where
  "sending_items (LaneSending item _) = [item]"
| "sending_items _ = []"

text \<open>What lane one has made of the items.\<close>

definition lane_inv :: "pipeline_item list \<Rightarrow> dispatcher \<Rightarrow> bool" where
  "lane_inv items d \<longleftrightarrow>
     d_capacity d = ordered_slot_capacity (length items) \<and>
     (\<exists>begun. items = begun @ d_todo d \<and> subseq (map fst (d_sent d) @ sending_items (d_lane d)) begun) \<and>
     (\<forall>item slot. d_lane d = LaneSending item slot \<longrightarrow> slot \<noteq> FinishedSlot)"

text \<open>The marker is the last thing in the channel.\<close>

definition marker_inv :: "dispatcher \<Rightarrow> bool" where
  "marker_inv d \<longleftrightarrow>
     (FinishedSlot \<in> set (d_channel d) \<longrightarrow> d_lane d = LaneOver \<and> \<not> d_received_finished d \<and> FinishedSlot \<notin> set (butlast (d_channel d))) \<and>
     (d_received_finished d \<longrightarrow> d_channel d = [] \<and> d_lane d = LaneOver) \<and> FinishedSlot \<notin> set (d_buffered d)"

text \<open>Nothing is lost between the lanes.\<close>

definition order_inv :: "dispatcher \<Rightarrow> bool" where
  "order_inv d \<longleftrightarrow>
     (if d_skipped d then d_stop d \<and> prefix (d_taken d) (map snd (d_sent d))
      else d_taken d @ d_buffered d @ slots_in (d_channel d) = map snd (d_sent d)) \<and>
     length (d_buffered d) + length (slots_in (d_channel d)) \<le> length (d_sent d) \<and>
     (d_pc d = FinalizeQueued \<longrightarrow> d_received_finished d \<and> d_buffered d = [] \<or> d_cancelled d)"

lemma lane_inv_item: "lane_inv items d \<Longrightarrow> lane_inv items (lane_item q r d)"
  unfolding lane_inv_def lane_item_def
  by (auto split: list.splits option.splits rip_lane_outcome.splits intro: list_emb_append_mono subseq_rev_drop_many)

lemma subseq_front: "subseq (xs @ ys) zs \<Longrightarrow> subseq xs zs"
  by (rule subseq_order.trans [of xs "xs @ ys"]) (simp_all add: prefix_imp_subseq)

lemma lane_inv_send: "lane_inv items d \<Longrightarrow> lane_inv items (lane_send i d)"
  unfolding lane_inv_def lane_send_def by (auto split: lane_pc.splits dest: subseq_front)

lemma lane_inv_dies: "lane_inv items d \<Longrightarrow> lane_inv items (lane_dies d)"
  unfolding lane_inv_def lane_dies_def by (cases "d_lane d") (auto dest: subseq_front)

lemma lane_inv_frame:
  "lane_inv items d \<Longrightarrow> d_capacity d' = d_capacity d \<Longrightarrow> d_todo d' = d_todo d \<Longrightarrow> d_sent d' = d_sent d \<Longrightarrow> d_lane d' = d_lane d \<Longrightarrow> lane_inv items d'"
  by (simp add: lane_inv_def)

lemma marker_inv_lane: "marker_inv d \<Longrightarrow> marker_inv (lane_item q r d)" "marker_inv d \<Longrightarrow> marker_inv (lane_dies d)"
  unfolding marker_inv_def lane_item_def lane_dies_def
  by (auto split: list.splits option.splits rip_lane_outcome.splits)

lemma marker_inv_send:
  assumes "lane_inv items d" "marker_inv d"
  shows "marker_inv (lane_send i d)"
proof -
  have "\<And>item slot. d_lane d = LaneSending item slot \<Longrightarrow> slot \<noteq> FinishedSlot" using assms(1) by (simp add: lane_inv_def)
  then show ?thesis using assms(2) unfolding marker_inv_def lane_send_def
    by (auto split: lane_pc.splits simp: butlast_append dest: in_set_butlastD)
qed

text \<open>The steps of the dispatcher that leave the queues alone.\<close>

lemma queues_kept [simp]:
  "d_channel (fatal e d) = d_channel d" "d_buffered (fatal e d) = d_buffered d" "d_sent (fatal e d) = d_sent d" "d_taken (fatal e d) = d_taken d"
  "d_skipped (fatal e d) = d_skipped d" "d_stop (fatal e d) = d_stop d" "d_lane (fatal e d) = d_lane d" "d_received_finished (fatal e d) = d_received_finished d"
  "d_pc (fatal e d) = d_pc d" "d_cancelled (fatal e d) = d_cancelled d" "d_capacity (fatal e d) = d_capacity d" "d_todo (fatal e d) = d_todo d"
  by (simp_all add: fatal_def)

definition same_queues :: "dispatcher \<Rightarrow> dispatcher \<Rightarrow> bool" where
  "same_queues d d' \<longleftrightarrow> d_channel d' = d_channel d \<and> d_buffered d' = d_buffered d \<and> d_sent d' = d_sent d \<and> d_taken d' = d_taken d \<and>
     d_skipped d' = d_skipped d \<and> (d_stop d \<longrightarrow> d_stop d') \<and> d_lane d' = d_lane d \<and> d_received_finished d' = d_received_finished d \<and>
     (d_cancelled d \<longrightarrow> d_cancelled d') \<and> d_capacity d' = d_capacity d \<and> d_todo d' = d_todo d \<and> (d_pc d' = FinalizeQueued \<longrightarrow> d_pc d = FinalizeQueued)"

definition dispatch_inv :: "pipeline_item list \<Rightarrow> dispatcher \<Rightarrow> bool" where
  "dispatch_inv items d \<longleftrightarrow> lane_inv items d \<and> marker_inv d \<and> order_inv d"

lemma dispatch_inv_same: "dispatch_inv items d \<Longrightarrow> same_queues d d' \<Longrightarrow> dispatch_inv items d'"
  by (auto simp: dispatch_inv_def same_queues_def lane_inv_def marker_inv_def order_inv_def)

lemma same_refl: "same_queues d d"
  by (simp add: same_queues_def)

lemma same_push: "d_pc d \<noteq> FinalizeQueued \<Longrightarrow> same_queues d (push_upload pushed m u d)"
  by (auto simp: same_queues_def push_upload_def)

lemma same_resolved: "same_queues d (cache_resolved item r d)"
  by (auto simp: same_queues_def cache_resolved_def split: cache_resolution.splits)

lemma same_rerip_done: "same_queues d (rerip_done pushed outcome d)"
  by (auto simp: same_queues_def rerip_done_def push_upload_def Let_def split: rip_lane_outcome.splits)

lemma same_trans: "same_queues d d' \<Longrightarrow> same_queues d' d'' \<Longrightarrow> same_queues d d''"
  by (auto simp: same_queues_def)

lemma same_cache_reply: "same_queues d (cache_reply r d)"
  by (cases "d_pc d") (simp_all add: cache_reply_def same_resolved same_refl)

lemma same_notice_cancel: "same_queues d (notice_cancel d)"
  by (cases "d_pc d") (auto simp: notice_cancel_def same_resolved same_refl, simp add: same_queues_def)

lemma same_fatal: "same_queues d (fatal e d)"
  by (simp add: same_queues_def)

lemma same_rip_reply: "same_queues d (rip_reply r pushed d)"
proof (cases "d_pc d")
  case (WaitRerip was)
  have "same_queues d (snd (ordered_rerip_result r d))"
    by (auto simp: same_queues_def ordered_rerip_result_def Let_def split: rerip_reply.splits)
  then show ?thesis using WaitRerip same_trans [OF _ same_rerip_done] by (auto simp: rip_reply_def split: prod.splits)
qed (simp_all add: rip_reply_def same_refl)

text \<open>Taking a slot from the front of the queues.\<close>

definition front :: "ordered_slot \<Rightarrow> ordered_slot list \<Rightarrow> ordered_slot list \<Rightarrow> dispatcher \<Rightarrow> bool" where
  "front slot b c d \<longleftrightarrow> d_buffered d = slot # b \<and> c = d_channel d \<or> d_buffered d = [] \<and> b = [] \<and> d_channel d = slot # c"

lemma taken_inv:
  assumes inv: "dispatch_inv items d" and f: "front slot b c d" and slot: "slot \<noteq> FinishedSlot" and "\<not> d_stop d" "d_pc d = Looping"
  shows "dispatch_inv items (d\<lparr>d_buffered := b, d_channel := c, d_taken := d_taken d @ [slot]\<rparr>)"
proof -
  have "\<not> d_skipped d" using inv assms(4) by (auto simp: dispatch_inv_def order_inv_def)
  with inv f slot assms(5) show ?thesis
    by (auto simp: dispatch_inv_def front_def lane_inv_def marker_inv_def order_inv_def split: if_splits)
qed

lemma order_inv_prefix:
  assumes "order_inv d"
  shows "prefix (d_taken d) (map snd (d_sent d))"
proof (cases "d_skipped d")
  case False
  then have "map snd (d_sent d) = d_taken d @ d_buffered d @ slots_in (d_channel d)" using assms by (simp add: order_inv_def)
  then show ?thesis by simp
qed (use assms in \<open>simp add: order_inv_def\<close>)

lemma skipped_inv:
  assumes inv: "dispatch_inv items d" and f: "front slot b c d" and slot: "slot \<noteq> FinishedSlot" and "d_pc d = Looping"
  shows "dispatch_inv items (d\<lparr>d_buffered := b, d_channel := c, d_stop := True, d_skipped := True\<rparr>)"
proof -
  have "prefix (d_taken d) (map snd (d_sent d))" using inv by (simp add: dispatch_inv_def order_inv_prefix)
  with inv f slot assms(4) show ?thesis
    by (auto simp: dispatch_inv_def front_def lane_inv_def marker_inv_def order_inv_def split: if_splits)
qed

lemma finished_inv:
  assumes inv: "dispatch_inv items d" and c: "d_channel d = FinishedSlot # c"
  shows "dispatch_inv items (d\<lparr>d_channel := c, d_received_finished := True\<rparr>)"
proof -
  have "c = []" using inv c by (cases c) (auto simp: dispatch_inv_def marker_inv_def)
  with inv c show ?thesis by (auto simp: dispatch_inv_def lane_inv_def marker_inv_def order_inv_def split: if_splits)
qed

lemma handle_slot_inv:
  assumes inv: "dispatch_inv items d" and f: "front slot b c d" and pc: "d_pc d = Looping"
  shows "dispatch_inv items (handle_slot pushed enq slot (d\<lparr>d_buffered := b, d_channel := c\<rparr>))"
proof (cases slot)
  case FinishedSlot
  then have idle: "d_buffered d = []" "b = []" "d_channel d = FinishedSlot # c"
    using inv f by (auto simp: front_def dispatch_inv_def marker_inv_def)
  then have eq: "d\<lparr>d_buffered := b, d_channel := c, d_received_finished := True\<rparr> = d\<lparr>d_channel := c, d_received_finished := True\<rparr>" by simp
  show ?thesis using finished_inv [OF inv idle(3)] FinishedSlot unfolding handle_slot_def eq by simp
next
  case (FreshSlot upload_item)
  then show ?thesis using taken_inv [OF inv f _ _ pc] skipped_inv [OF inv f _ pc] pc
    by (auto simp: handle_slot_def Let_def intro!: dispatch_inv_same [OF _ same_push])
next
  case (CachedSlot item cached)
  have wait: "same_queues d' (d'\<lparr>d_pc := WaitCache item\<rparr>)" for d' by (simp add: same_queues_def)
  show ?thesis using taken_inv [OF inv f _ _ pc] skipped_inv [OF inv f _ pc] pc CachedSlot
    by (auto simp: handle_slot_def Let_def split: cache_enqueue.splits intro: dispatch_inv_same [OF _ same_resolved] dispatch_inv_same [OF _ wait])
qed

lemma dispatch_end_inv:
  assumes "dispatch_inv items d" "d_buffered d = []"
  shows "dispatch_inv items (dispatch_end d)"
  using assms by (auto simp: dispatch_end_def dispatch_inv_def lane_inv_def marker_inv_def order_inv_def)

lemma dispatch_turn_inv:
  assumes inv: "dispatch_inv items d"
  shows "dispatch_inv items (dispatch_turn pushed enq d)"
proof (cases "d_pc d = Looping")
  case True
  show ?thesis
  proof (cases "d_buffered d")
    case (Cons slot rest)
    then have "front slot rest (d_channel d) d" by (simp add: front_def)
    moreover have eq: "d\<lparr>d_buffered := rest, d_channel := d_channel d\<rparr> = d\<lparr>d_buffered := rest\<rparr>" by simp
    ultimately show ?thesis using handle_slot_inv [OF inv _ True, of slot rest "d_channel d", unfolded eq] True Cons by (simp add: dispatch_turn_def)
  next
    case Nil
    show ?thesis
    proof (cases "d_channel d")
      case (Cons slot rest)
      then have "front slot [] rest d" using Nil by (simp add: front_def)
      moreover have eq: "d\<lparr>d_buffered := [], d_channel := rest\<rparr> = d\<lparr>d_channel := rest\<rparr>" using Nil by simp
      ultimately show ?thesis using handle_slot_inv [OF inv _ True, of slot "[]" rest, unfolded eq] dispatch_end_inv [OF inv Nil] True Nil Cons
        by (simp add: dispatch_turn_def)
    qed (use inv True Nil dispatch_end_inv [OF inv Nil] in \<open>simp add: dispatch_turn_def\<close>)
  qed
qed (use inv in \<open>simp add: dispatch_turn_def\<close>)

text \<open>There is always room: the buffer and the channel never hold more than the job has items.\<close>

lemma room:
  assumes "lane_inv items d" "order_inv d" "length items < u64_max"
  shows "length (d_buffered d) + length (slots_in (d_channel d)) < d_capacity d"
proof -
  obtain begun where "items = begun @ d_todo d" "subseq (map fst (d_sent d) @ sending_items (d_lane d)) begun"
    using assms(1) by (auto simp: lane_inv_def)
  then have "length (d_sent d) \<le> length items" using list_emb_length by fastforce
  moreover have "length items < d_capacity d" using assms(1,3) by (simp add: lane_inv_def ordered_slot_capacity_def)
  ultimately show ?thesis using assms(2) by (simp add: order_inv_def)
qed

lemma drain_slot_inv:
  assumes inv: "dispatch_inv items d" and small: "length items < u64_max" and closed: "same_queues d (closed d)" and pc: "d_pc d \<noteq> FinalizeQueued"
  shows "dispatch_inv items (drain_slot exhausted closed d)"
proof (cases "d_channel d")
  case (Cons slot rest)
  show ?thesis
  proof (cases "slot = FinishedSlot")
    case True
    then show ?thesis using finished_inv [OF inv, of rest] inv Cons by (auto simp: drain_slot_def Let_def)
  next
    case False
    have "length (d_buffered d) < d_capacity d" using room [of items d] inv small by (simp add: dispatch_inv_def)
    with inv Cons False pc show ?thesis
      by (auto simp: drain_slot_def Let_def dispatch_inv_def lane_inv_def marker_inv_def order_inv_def split: if_splits)
  qed
qed (use inv dispatch_inv_same [OF inv closed] in \<open>simp add: drain_slot_def\<close>)

lemma lane_drain_inv:
  assumes "dispatch_inv items d" "length items < u64_max"
  shows "dispatch_inv items (drain_while_waiting d)"
proof (cases "d_pc d")
  case (WaitRerip was)
  have "same_queues d (if was then rerip_done False LaneCancelled d
      else rerip_done False Stop (fatal (lit ''ordered dispatcher stopped before its finish marker'') d))"
    using same_rerip_done same_trans [OF same_fatal same_rerip_done] by simp
  with WaitRerip show ?thesis using assms by (simp add: drain_while_waiting_def drain_slot_inv)
qed (use assms in \<open>auto simp: drain_while_waiting_def intro!: drain_slot_inv same_resolved\<close>)

lemma lane_order_inv:
  assumes "dispatch_inv items d"
  shows "order_inv (lane_item q r d)" "order_inv (lane_send i d)" "order_inv (lane_dies d)"
proof -
  have "\<And>item slot. d_lane d = LaneSending item slot \<Longrightarrow> slot \<noteq> FinishedSlot" using assms by (simp add: dispatch_inv_def lane_inv_def)
  with assms show "order_inv (lane_send i d)"
    by (auto simp: dispatch_inv_def order_inv_def lane_send_def prefix_def split: lane_pc.splits)
qed (use assms in \<open>auto simp: dispatch_inv_def order_inv_def lane_item_def lane_dies_def split: list.splits option.splits rip_lane_outcome.splits\<close>)

lemma dispatch_step_inv:
  assumes inv: "dispatch_inv items d" and small: "length items < u64_max"
  shows "dispatch_inv items (dispatch_step d e)"
proof (cases e)
  case JobCancelled
  have "same_queues d (d\<lparr>d_cancelled := True\<rparr>)" by (simp add: same_queues_def)
  with JobCancelled inv show ?thesis using dispatch_inv_same by simp
qed (use inv small in \<open>simp_all add: dispatch_turn_inv lane_drain_inv dispatch_inv_same [OF inv same_cache_reply] dispatch_inv_same [OF inv same_rip_reply]
    dispatch_inv_same [OF inv same_notice_cancel]\<close>,
  use inv lane_order_inv [OF inv] in \<open>auto simp: dispatch_inv_def intro: lane_inv_item lane_inv_send lane_inv_dies marker_inv_lane marker_inv_send\<close>)

lemma dispatch_init_inv: "dispatch_inv items (dispatch_init items)"
  by (simp add: dispatch_init_def dispatch_inv_def lane_inv_def marker_inv_def order_inv_def)

interpretation dispatching: event_machine "dispatch_init items" dispatch_step "\<lambda>d. length items < u64_max \<longrightarrow> dispatch_inv items d" for items
  by unfold_locales (simp_all add: dispatch_init_inv dispatch_step_inv)

lemma dispatch_run_inv: "length items < u64_max \<Longrightarrow> dispatch_inv items (dispatch_run items es)"
  using dispatching.inv_run by (simp add: dispatch_run_def)

text \<open>
  C25: However lane one, the dispatcher and the answers of the other lanes interleave, the slots of a job are handled in the
  order of its items, each at most once, and none is lost on the way: until the dispatcher gives up, what it has begun,
  buffered and has yet to receive is exactly what lane one sent, and the buffer never runs out of room. When the dispatcher
  queues the finalisation of a job that is not cancelled it has received the end marker, and if it was not stopped it has
  handled every slot.
\<close>

theorem dispatch_in_order:
  assumes "length items < u64_max" "dispatch_run items es = d"
  shows "subseq (map fst (d_sent d)) items \<and> prefix (d_taken d) (map snd (d_sent d)) \<and>
    (\<not> d_skipped d \<longrightarrow> d_taken d @ d_buffered d @ slots_in (d_channel d) = map snd (d_sent d)) \<and>
    length (d_buffered d) + length (slots_in (d_channel d)) < d_capacity d \<and>
    (d_pc d = FinalizeQueued \<and> \<not> d_cancelled d \<longrightarrow> d_received_finished d \<and> (\<not> d_stop d \<longrightarrow> d_taken d = map snd (d_sent d)))"
proof -
  have inv: "lane_inv items d" "marker_inv d" "order_inv d" using dispatch_run_inv [OF assms(1), of es] assms(2) by (simp_all add: dispatch_inv_def)
  have "subseq (map fst (d_sent d)) items"
    using inv(1) by (auto simp: lane_inv_def dest!: subseq_front intro: list_emb_append2)
  moreover have "prefix (d_taken d) (map snd (d_sent d))"
    using inv(3) by (rule order_inv_prefix)
  moreover have "d_received_finished d \<and> (\<not> d_stop d \<longrightarrow> d_taken d = map snd (d_sent d))" if "d_pc d = FinalizeQueued" "\<not> d_cancelled d"
    using inv(2,3) that by (auto simp: order_inv_def marker_inv_def split: if_splits)
  ultimately show ?thesis using inv(3) room [OF inv(1,3) assms(1)] by (auto simp: order_inv_def)
qed

definition cached_item :: pipeline_item where
  "cached_item = \<lparr>pi_track_id = lit ''t'', pi_storefront = None, pi_meta_title = None, pi_meta_artist = None, pi_artwork_url = None,
     pi_is_streamable = None, pi_rendition = Primary,
     pi_cached = Some \<lparr>ct_track_id = lit ''t'', ct_codec = Alac, ct_message_id = 5, ct_file_id = [], ct_file_unique_id = []\<rparr>,
     pi_track_index = Some 1, pi_total_tracks = Some 2\<rparr>"

theorem dispatch_in_order_witness:
  "d_taken (dispatch_run [cached_item] [LaneItem False Finished, LaneSend False, Turn True EnqueuePending]) =
     [CachedSlot cached_item (the (pi_cached cached_item))] \<and>
   prefix (d_taken (dispatch_run [cached_item] [LaneItem False Finished, LaneSend False, Turn True EnqueuePending]))
     (map snd (d_sent (dispatch_run [cached_item] [LaneItem False Finished, LaneSend False, Turn True EnqueuePending])))"
proof -
  let ?es = "[LaneItem False Finished, LaneSend False, Turn True EnqueuePending]"
  obtain ct where ct: "pi_cached cached_item = Some ct" by (simp add: cached_item_def)
  have cap: "ordered_slot_capacity (Suc 0) = 16" by (simp add: ordered_slot_capacity_def ORDERED_SLOT_CAPACITY_def u64_max_def)
  have "dispatch_run [cached_item] [LaneItem False Finished, LaneSend False] =
      (dispatch_init [cached_item])\<lparr>d_todo := [], d_channel := [CachedSlot cached_item ct], d_sent := [(cached_item, CachedSlot cached_item ct)]\<rparr>"
    by (simp add: dispatch_run_def dispatch_init_def lane_item_def lane_send_def running_def cap ct)
  then have "d_taken (dispatch_run [cached_item] ?es) = [CachedSlot cached_item ct]"
    by (simp add: dispatch_run_def dispatch_init_def dispatch_turn_def handle_slot_def Let_def)
  moreover have "length [cached_item] < u64_max" by (simp add: u64_max_def)
  ultimately show ?thesis using dispatch_in_order [of "[cached_item]" ?es, OF _ refl] ct by simp
qed

end
