(* ===== verification/Upload_Barrier.thy ===== *)
theory Upload_Barrier
  imports Prelude
begin

text \<open>
  How the finalisation of a job waits for its uploads: the counter \<open>pending_uploads\<close> and the notification
  \<open>uploads_finished\<close> of \<open>TaskContext\<close>, raised and lowered by \<open>enqueue_upload_task\<close> and \<open>PendingUploadGuard\<close> of
  \<open>crates/engine/src/orchestrator/upload_lane.rs\<close>, and the loop at the head of \<open>finalize_job\<close> in \<open>finalize.rs\<close>. Uploads are
  numbered; an event is one atomic step of one of them or of the finalisation. A notification wakes the waits that
  were begun before it and is not remembered. The end of an upload lowers the counter and notifies in one step: whatever the
  finalisation does between the two it could as well do before the one or after the other. The counter is a \<open>usize\<close> and counts
  uploads of one job; it does not wrap.
\<close>

datatype upload_pc = Pushing | InLane | UploadRunning | UploadOver

datatype finalize_pc = NotStarted | AtLoop | SawPending | Notified_wait | Passed

record barrier =
  b_pending :: nat
  b_upload :: "nat \<Rightarrow> upload_pc option"
  b_finalize :: finalize_pc
  b_cancelled :: bool

definition barrier_init :: barrier where
  "barrier_init = \<lparr>b_pending = 0, b_upload = Map.empty, b_finalize = NotStarted, b_cancelled = False\<rparr>"

text \<open>\<open>fetch_sub\<close> and the notification when the counter was one.\<close>

definition lower :: "barrier \<Rightarrow> barrier" where
  "lower b =
     (let b' = b\<lparr>b_pending := b_pending b - 1\<rparr>
      in if b_pending b = 1 \<and> b_finalize b = Notified_wait then b'\<lparr>b_finalize := AtLoop\<rparr> else b')"

definition begin_upload :: "nat \<Rightarrow> barrier \<Rightarrow> barrier" where
  "begin_upload u b =
     (if b_upload b u \<noteq> None then b
      else b\<lparr>b_pending := b_pending b + 1, b_upload := (b_upload b)(u \<mapsto> Pushing)\<rparr>)"

definition pushed_upload :: "nat \<Rightarrow> bool \<Rightarrow> barrier \<Rightarrow> barrier" where
  "pushed_upload u ok b =
     (if b_upload b u \<noteq> Some Pushing then b
      else if ok then b\<lparr>b_upload := (b_upload b)(u \<mapsto> InLane)\<rparr>
      else lower (b\<lparr>b_upload := (b_upload b)(u \<mapsto> UploadOver)\<rparr>))"

definition start_upload :: "nat \<Rightarrow> barrier \<Rightarrow> barrier" where
  "start_upload u b =
     (if b_upload b u \<noteq> Some InLane then b else b\<lparr>b_upload := (b_upload b)(u \<mapsto> UploadRunning)\<rparr>)"

text \<open>The guard is dropped when the task returns and when it panics.\<close>

definition end_upload :: "nat \<Rightarrow> barrier \<Rightarrow> barrier" where
  "end_upload u b =
     (if b_upload b u \<noteq> Some UploadRunning then b else lower (b\<lparr>b_upload := (b_upload b)(u \<mapsto> UploadOver)\<rparr>))"

definition finalize_load :: "barrier \<Rightarrow> barrier" where
  "finalize_load b =
     (if b_finalize b \<in> {NotStarted, AtLoop}
      then b\<lparr>b_finalize := (if b_pending b > 0 then SawPending else Passed)\<rparr> else b)"

definition finalize_wait :: "barrier \<Rightarrow> barrier" where
  "finalize_wait b = (if b_finalize b = SawPending then b\<lparr>b_finalize := Notified_wait\<rparr> else b)"

definition finalize_cancel :: "barrier \<Rightarrow> barrier" where
  "finalize_cancel b = (if b_finalize b = Notified_wait \<and> b_cancelled b then b\<lparr>b_finalize := Passed\<rparr> else b)"

datatype barrier_event =
  BeginUpload nat | Pushed nat bool | StartUpload nat | EndUpload nat | FinalizeLoad | FinalizeWait | FinalizeCancel | CancelJob

fun barrier_step :: "barrier \<Rightarrow> barrier_event \<Rightarrow> barrier" where
  "barrier_step b (BeginUpload u) = begin_upload u b"
| "barrier_step b (Pushed u ok) = pushed_upload u ok b"
| "barrier_step b (StartUpload u) = start_upload u b"
| "barrier_step b (EndUpload u) = end_upload u b"
| "barrier_step b FinalizeLoad = finalize_load b"
| "barrier_step b FinalizeWait = finalize_wait b"
| "barrier_step b FinalizeCancel = finalize_cancel b"
| "barrier_step b CancelJob = b\<lparr>b_cancelled := True\<rparr>"

definition active :: "barrier \<Rightarrow> nat set" where
  "active b = {u. b_upload b u \<in> {Some Pushing, Some InLane, Some UploadRunning}}"

definition barrier_inv :: "barrier \<Rightarrow> bool" where
  "barrier_inv b \<longleftrightarrow> finite (active b) \<and> b_pending b = card (active b)"

lemma active_lower [simp]: "active (lower b) = active b"
  by (simp add: active_def lower_def Let_def)

lemma pending_lower [simp]: "b_pending (lower b) = b_pending b - 1"
  by (simp add: lower_def Let_def)

lemma barrier_inv_over:
  assumes "barrier_inv b" "u \<in> active b"
  shows "barrier_inv (lower (b\<lparr>b_upload := (b_upload b)(u \<mapsto> UploadOver)\<rparr>))"
proof -
  have "active (b\<lparr>b_upload := (b_upload b)(u \<mapsto> UploadOver)\<rparr>) = active b - {u}" by (auto simp: active_def)
  with assms show ?thesis by (simp add: barrier_inv_def)
qed

lemma barrier_inv_step: "barrier_inv b \<Longrightarrow> barrier_inv (barrier_step b e)"
proof (cases e)
  case (BeginUpload u)
  assume inv: "barrier_inv b"
  show ?thesis
  proof (cases "b_upload b u")
    case None
    then have "active (b\<lparr>b_pending := p, b_upload := (b_upload b)(u \<mapsto> Pushing)\<rparr>) = insert u (active b)" "u \<notin> active b" for p
      by (auto simp: active_def)
    then show ?thesis using inv BeginUpload None by (simp add: barrier_inv_def begin_upload_def)
  qed (use inv BeginUpload in \<open>simp add: begin_upload_def\<close>)
next
  case (Pushed u ok)
  assume inv: "barrier_inv b"
  have "active (b\<lparr>b_upload := (b_upload b)(u \<mapsto> InLane)\<rparr>) = active b" "u \<in> active b" if "b_upload b u = Some Pushing"
    using that by (auto simp: active_def)
  then show ?thesis using inv Pushed barrier_inv_over [OF inv] by (auto simp: barrier_inv_def pushed_upload_def)
next
  case (StartUpload u)
  assume inv: "barrier_inv b"
  have "active (b\<lparr>b_upload := (b_upload b)(u \<mapsto> UploadRunning)\<rparr>) = active b" if "b_upload b u = Some InLane"
    using that by (auto simp: active_def)
  then show ?thesis using inv StartUpload by (auto simp: barrier_inv_def start_upload_def)
next
  case (EndUpload u)
  assume inv: "barrier_inv b"
  have "u \<in> active b" if "b_upload b u = Some UploadRunning" using that by (simp add: active_def)
  then show ?thesis using inv EndUpload barrier_inv_over [OF inv] by (auto simp: end_upload_def)
qed (auto simp: barrier_inv_def active_def finalize_load_def finalize_wait_def finalize_cancel_def)

interpretation uploads: event_machine barrier_init barrier_step barrier_inv
  by unfold_locales (simp_all add: barrier_inv_step, simp add: barrier_inv_def barrier_init_def active_def)

definition barrier_run :: "barrier_event list \<Rightarrow> barrier" where
  "barrier_run es = foldl barrier_step barrier_init es"

text \<open>
  C28: The finalisation of a job passes its uploads only when none is left: the counter is the number of uploads that have begun
  and not ended, whether their push failed, they returned or they panicked, so a look that lets the finalisation pass without
  a cancellation finds every upload over.
\<close>

theorem finalize_waits_for_uploads:
  "b_pending (barrier_run es) = card (active (barrier_run es)) \<and>
   (b_finalize (barrier_step (barrier_run es) e) = Passed \<and> b_finalize (barrier_run es) \<noteq> Passed \<longrightarrow>
      active (barrier_run es) = {} \<or> b_cancelled (barrier_run es))"
proof -
  have inv: "barrier_inv (barrier_run es)" using uploads.inv_run by (simp add: barrier_run_def)
  moreover have "b_pending (barrier_run es) = 0 \<or> b_cancelled (barrier_run es)"
    if "b_finalize (barrier_step (barrier_run es) e) = Passed" "b_finalize (barrier_run es) \<noteq> Passed"
    using that by (cases e) (auto simp: begin_upload_def pushed_upload_def start_upload_def end_upload_def lower_def finalize_load_def
        finalize_wait_def finalize_cancel_def Let_def split: if_splits)
  ultimately show ?thesis by (auto simp: barrier_inv_def)
qed

theorem finalize_waits_for_uploads_witness:
  "b_finalize (barrier_run [BeginUpload 1, Pushed 1 True, FinalizeLoad, FinalizeWait, StartUpload 1, EndUpload 1]) = AtLoop \<and>
   active (barrier_run [BeginUpload 1, Pushed 1 True, FinalizeLoad, FinalizeWait, StartUpload 1, EndUpload 1]) = {}"
proof -
  let ?es = "[BeginUpload 1, Pushed 1 True, FinalizeLoad, FinalizeWait, StartUpload 1, EndUpload 1]"
  have run: "barrier_run ?es = \<lparr>b_pending = 0, b_upload = [1 \<mapsto> UploadOver], b_finalize = AtLoop, b_cancelled = False\<rparr>"
    by (simp add: barrier_run_def barrier_init_def begin_upload_def pushed_upload_def start_upload_def end_upload_def lower_def finalize_load_def finalize_wait_def)
  then have "b_finalize (barrier_step (barrier_run ?es) FinalizeLoad) = Passed" by (simp add: finalize_load_def)
  then show ?thesis using finalize_waits_for_uploads [of ?es FinalizeLoad] run by simp
qed

text \<open>
  The wait can miss the last notification: when the last upload ends after the look at the counter and before the wait begins,
  nothing but a cancellation ends the wait.
\<close>

lemma finalize_lost_wakeup:
  defines "b \<equiv> barrier_run [BeginUpload 1, Pushed 1 True, StartUpload 1, FinalizeLoad, EndUpload 1, FinalizeWait]"
  shows "b_pending b = 0 \<and> active b = {} \<and> b_finalize b = Notified_wait"
    and "e \<noteq> CancelJob \<Longrightarrow> (\<forall>u. e \<noteq> BeginUpload u) \<Longrightarrow> barrier_step b e = b"
proof -
  have b: "b = \<lparr>b_pending = 0, b_upload = [1 \<mapsto> UploadOver], b_finalize = Notified_wait, b_cancelled = False\<rparr>"
    by (simp add: b_def barrier_run_def barrier_init_def begin_upload_def pushed_upload_def start_upload_def end_upload_def lower_def finalize_load_def finalize_wait_def)
  show "b_pending b = 0 \<and> active b = {} \<and> b_finalize b = Notified_wait" by (simp add: b active_def)
  show "barrier_step b e = b" if "e \<noteq> CancelJob" "\<forall>u. e \<noteq> BeginUpload u"
    using that by (cases e) (auto simp: b pushed_upload_def start_upload_def end_upload_def finalize_load_def finalize_wait_def finalize_cancel_def)
qed

end
