(* ===== verification/Library_Store.thy ===== *)
theory Library_Store
  imports Job_World
begin

text \<open>
  The tables of cached tracks and album archives (\<open>crates/db/src/tracks.rs\<close>, \<open>crates/db/src/albums.rs\<close>) and the adapter
  through which the jobs use them (\<open>crates/bot/src/rip_deps.rs\<close>). Tables are lists of rows; a statement is one atomic
  change that respects the unique keys and checks of the schema and takes its fault, if any, from a list. A
  transaction gives back the old tables when its body fails; the advisory lock and the row locks of the archive
  replacement make it atomic. A transaction that fails at its commit has the effect of one that fails at its last
  statement. Rows without an order come in the order of the table, and the time an archive row was created, which no
  code reads, is left out.
\<close>

section \<open>Rows and errors\<close>

datatype db_error_kind = ClosedConnection | UnableToSendCommand | UniqueViolation | CheckViolation | OtherKind

datatype store_error = StorePool ustring | StoreDatabase db_error_kind ustring | StoreRow ustring

record track_row =
  tk_id :: nat
  tk_track_id :: ustring
  tk_codec :: codec
  tk_message_id :: i32
  tk_file_id :: string
  tk_file_unique_id :: string
  tk_created_at :: instant
  tk_updated_at :: instant

record album_row =
  al_id :: nat
  al_album_id :: ustring
  al_codec :: codec
  al_part_index :: i32
  al_total_parts :: i32
  al_message_id :: i32
  al_file_id :: string
  al_file_unique_id :: string
  al_file_size :: i64
  al_generation_hash :: string

text \<open>Identifiers come from sequences, which never give a number twice.\<close>

record library_db =
  ld_tracks :: "track_row list"
  ld_albums :: "album_row list"
  ld_next_id :: nat
  ld_now :: instant
  ld_faults :: "store_error option list"

type_synonym 'a libio = "(library_db, store_error, 'a) result_state"

section \<open>Statements\<close>

definition lib_call :: "unit libio" where
  "lib_call s =
     (case ld_faults s of
        [] \<Rightarrow> (Inr (), s)
      | None # fs \<Rightarrow> (Inr (), s\<lparr>ld_faults := fs\<rparr>)
      | Some e # fs \<Rightarrow> (Inl e, s\<lparr>ld_faults := fs\<rparr>))"

definition lib_select :: "(library_db \<Rightarrow> 'a) \<Rightarrow> 'a libio" where
  "lib_select f = rs_bind lib_call (\<lambda>_ s. (Inr (f s), s))"

text \<open>A statement that leaves tables without their keys is refused and changes nothing.\<close>

definition album_key :: "album_row \<Rightarrow> ustring \<times> codec \<times> i32" where
  "album_key a = (al_album_id a, al_codec a, al_part_index a)"

definition album_checked :: "album_row \<Rightarrow> bool" where
  "album_checked a \<longleftrightarrow>
     0 < al_part_index a \<and> 0 < al_total_parts a \<and> al_part_index a \<le> al_total_parts a \<and> 0 < al_message_id a \<and> 0 < al_file_size a"

definition albums_ok :: "album_row list \<Rightarrow> bool" where
  "albums_ok as \<longleftrightarrow> distinct (map album_key as) \<and> distinct (map al_file_unique_id as) \<and> list_all album_checked as"

definition track_key :: "track_row \<Rightarrow> ustring \<times> codec" where
  "track_key t = (tk_track_id t, tk_codec t)"

definition tracks_ok :: "track_row list \<Rightarrow> bool" where
  "tracks_ok ts \<longleftrightarrow> distinct (map track_key ts) \<and> distinct (map tk_file_unique_id ts)"

definition write_albums :: "(library_db \<Rightarrow> album_row list) \<Rightarrow> unit libio" where
  "write_albums f =
     rs_bind lib_call (\<lambda>_ s.
       if list_all album_checked (f s)
       then if albums_ok (f s) then (Inr (), s\<lparr>ld_albums := f s, ld_next_id := ld_next_id s + length (f s)\<rparr>)
            else (Inl (StoreDatabase UniqueViolation (lit ''duplicate key'')), s)
       else (Inl (StoreDatabase CheckViolation (lit ''check constraint'')), s))"

definition write_tracks :: "(library_db \<Rightarrow> track_row list) \<Rightarrow> unit libio" where
  "write_tracks f =
     rs_bind lib_call (\<lambda>_ s.
       if tracks_ok (f s) then (Inr (), s\<lparr>ld_tracks := f s, ld_next_id := ld_next_id s + 1\<rparr>)
       else (Inl (StoreDatabase UniqueViolation (lit ''duplicate key'')), s))"

definition transaction :: "'a libio \<Rightarrow> 'a libio" where
  "transaction body s =
     (case body s of
        (Inr a, s') \<Rightarrow> (Inr a, s')
      | (Inl e, s') \<Rightarrow> (Inl e, s'\<lparr>ld_tracks := ld_tracks s, ld_albums := ld_albums s\<rparr>))"

definition try_i32 :: "ustring \<Rightarrow> i64 \<Rightarrow> i32 libio" where
  "try_i32 message n = (if - (2 ^ 31) \<le> n \<and> n < 2 ^ 31 then rs_ret n else rs_fail (StoreRow message))"

definition out_of_range :: ustring where
  "out_of_range = lit ''out of range integral type conversion attempted''"

section \<open>Tracks\<close>

definition cached_track_of :: "track_row \<Rightarrow> cached_track" where
  "cached_track_of t =
     \<lparr>ct_track_id = tk_track_id t, ct_codec = tk_codec t, ct_message_id = tk_message_id t, ct_file_id = tk_file_id t,
      ct_file_unique_id = tk_file_unique_id t\<rparr>"

definition find_cached_tracks :: "ustring list \<Rightarrow> cached_tracks_map libio" where
  "find_cached_tracks track_ids =
     (let unique_ids = filter (\<lambda>i. i \<noteq> []) track_ids
      in if unique_ids = [] then rs_ret []
         else rs_bind lib_call (\<lambda>_.
           rs_bind (lib_select (\<lambda>s. filter (\<lambda>t. tk_track_id t \<in> set unique_ids) (ld_tracks s))) (\<lambda>rows.
           rs_ret (fold (\<lambda>t. hm_insert (track_key t) (cached_track_of t)) rows []))))"

definition find_track_by_file_unique_id :: "string \<Rightarrow> track_row option libio" where
  "find_track_by_file_unique_id uid =
     rs_bind lib_call (\<lambda>_. lib_select (\<lambda>s. List.find (\<lambda>t. tk_file_unique_id t = uid) (ld_tracks s)))"

definition find_track_by_id :: "nat \<Rightarrow> track_row option libio" where
  "find_track_by_id i = rs_bind lib_call (\<lambda>_. lib_select (\<lambda>s. List.find (\<lambda>t. tk_id t = i) (ld_tracks s)))"

text \<open>The row with the largest key among some rows.\<close>

fun newest :: "('r \<Rightarrow> nat) \<Rightarrow> 'r list \<Rightarrow> 'r option" where
  "newest key [] = None"
| "newest key (r # rs) = (case newest key rs of None \<Rightarrow> Some r | Some q \<Rightarrow> Some (if key q \<le> key r then r else q))"

definition get_track_by_apple_id :: "ustring \<Rightarrow> track_row option libio" where
  "get_track_by_apple_id track_id =
     rs_bind lib_call (\<lambda>_. lib_select (\<lambda>s. newest tk_id (filter (\<lambda>t. tk_track_id t = track_id) (ld_tracks s))))"

definition find_track_formats :: "ustring list \<Rightarrow> (nat \<times> ustring \<times> codec) list libio" where
  "find_track_formats track_ids =
     (if track_ids = [] then rs_ret []
      else rs_bind lib_call (\<lambda>_. lib_select (\<lambda>s.
        map (\<lambda>t. (tk_id t, tk_track_id t, tk_codec t)) (filter (\<lambda>t. tk_track_id t \<in> set track_ids) (ld_tracks s)))))"

definition find_latest_track :: "track_row option libio" where
  "find_latest_track = rs_bind lib_call (\<lambda>_. lib_select (\<lambda>s. newest tk_created_at (ld_tracks s)))"

text \<open>Insert, or update the row with the same track and codec.\<close>

definition upsert_track :: "cached_track \<Rightarrow> i32 \<Rightarrow> library_db \<Rightarrow> track_row list" where
  "upsert_track input message_id s =
     (let key = (ct_track_id input, ct_codec input)
      in if key \<in> set (map track_key (ld_tracks s))
         then map (\<lambda>t. if track_key t = key
             then t\<lparr>tk_message_id := message_id, tk_file_id := ct_file_id input, tk_file_unique_id := ct_file_unique_id input, tk_updated_at := ld_now s\<rparr>
             else t) (ld_tracks s)
         else ld_tracks s @ [\<lparr>tk_id = ld_next_id s, tk_track_id = ct_track_id input, tk_codec = ct_codec input, tk_message_id = message_id,
             tk_file_id = ct_file_id input, tk_file_unique_id = ct_file_unique_id input, tk_created_at = ld_now s, tk_updated_at = ld_now s\<rparr>])"

definition save_track :: "cached_track \<Rightarrow> track_row libio" where
  "save_track input =
     rs_bind (try_i32 (lit ''message_id out of range: '' @ out_of_range) (ct_message_id input)) (\<lambda>message_id.
     rs_bind lib_call (\<lambda>_.
     rs_bind (write_tracks (upsert_track input message_id)) (\<lambda>_.
     rs_bind (lib_select (\<lambda>s. List.find (\<lambda>t. track_key t = (ct_track_id input, ct_codec input)) (ld_tracks s))) (\<lambda>row.
     from_option (StoreDatabase OtherKind (lit ''Record not found'')) row))))"

definition track_matches :: "ustring \<Rightarrow> codec option \<Rightarrow> track_row \<Rightarrow> bool" where
  "track_matches track_id codec t \<longleftrightarrow> tk_track_id t = track_id \<and> (case codec of Some c \<Rightarrow> tk_codec t = c | None \<Rightarrow> True)"

definition delete_tracks_where :: "(track_row \<Rightarrow> bool) \<Rightarrow> nat libio" where
  "delete_tracks_where P =
     rs_bind lib_call (\<lambda>_ s. (Inr (length (filter P (ld_tracks s))), s\<lparr>ld_tracks := filter (\<lambda>t. \<not> P t) (ld_tracks s)\<rparr>))"

definition delete_track :: "ustring \<Rightarrow> codec option \<Rightarrow> bool libio" where
  "delete_track track_id codec =
     rs_bind lib_call (\<lambda>_. rs_bind (delete_tracks_where (track_matches track_id codec)) (\<lambda>n. rs_ret (n > 0)))"

definition get_all_track_ids :: "(ustring \<times> codec) list libio" where
  "get_all_track_ids = rs_bind lib_call (\<lambda>_. lib_select (\<lambda>s. map track_key (ld_tracks s)))"

definition delete_tracks_not_in :: "(ustring \<times> codec) list \<Rightarrow> nat libio" where
  "delete_tracks_not_in valid =
     rs_bind lib_call (\<lambda>_. transaction (
       rs_bind (lib_select (\<lambda>s. map tk_id (filter (\<lambda>t. track_key t \<notin> set valid) (ld_tracks s)))) (\<lambda>stale_ids.
       if stale_ids = [] then rs_ret 0 else delete_tracks_where (\<lambda>t. tk_id t \<in> set stale_ids))))"

fun insert_by :: "('r \<Rightarrow> int) \<Rightarrow> 'r \<Rightarrow> 'r list \<Rightarrow> 'r list" where
  "insert_by key r [] = [r]"
| "insert_by key r (q # qs) = (if key r \<le> key q then r # q # qs else q # insert_by key r qs)"

definition order_by :: "('r \<Rightarrow> int) \<Rightarrow> 'r list \<Rightarrow> 'r list" where
  "order_by key rs = foldr (insert_by key) rs []"

definition find_all_by_track_id :: "ustring \<Rightarrow> track_row list libio" where
  "find_all_by_track_id track_id =
     rs_bind lib_call (\<lambda>_. lib_select (\<lambda>s. order_by (int \<circ> tk_id) (filter (\<lambda>t. tk_track_id t = track_id) (ld_tracks s))))"

section \<open>Album archives\<close>

definition album_matches :: "ustring \<Rightarrow> codec option \<Rightarrow> album_row \<Rightarrow> bool" where
  "album_matches album_id codec a \<longleftrightarrow> al_album_id a = album_id \<and> (case codec of Some c \<Rightarrow> al_codec a = c | None \<Rightarrow> True)"

definition find_albums :: "ustring \<Rightarrow> codec option \<Rightarrow> album_row list libio" where
  "find_albums album_id codec =
     rs_bind lib_call (\<lambda>_. lib_select (\<lambda>s. order_by al_part_index (filter (album_matches album_id codec) (ld_albums s))))"

text \<open>The database orders text by its collation, an argument that ranks the identifiers.\<close>

definition find_album_parts_by_ids :: "(ustring \<Rightarrow> int) \<Rightarrow> ustring list \<Rightarrow> album_row list libio" where
  "find_album_parts_by_ids collation album_ids =
     (if album_ids = [] then rs_ret []
      else rs_bind lib_call (\<lambda>_. lib_select (\<lambda>s.
        order_by (collation \<circ> al_album_id) (order_by al_part_index (filter (\<lambda>a. al_album_id a \<in> set album_ids) (ld_albums s))))))"

definition find_by_file_unique_id :: "string \<Rightarrow> album_row option libio" where
  "find_by_file_unique_id uid =
     rs_bind lib_call (\<lambda>_. lib_select (\<lambda>s. List.find (\<lambda>a. al_file_unique_id a = uid) (ld_albums s)))"

definition new_album :: "album_upload \<Rightarrow> i32 \<Rightarrow> nat \<Rightarrow> album_row" where
  "new_album upload message_id i =
     \<lparr>al_id = i, al_album_id = au_album_id upload, al_codec = au_codec upload, al_part_index = au_part_index upload,
      al_total_parts = au_total_parts upload, al_message_id = message_id, al_file_id = au_file_id upload,
      al_file_unique_id = au_file_unique_id upload, al_file_size = au_file_size upload, al_generation_hash = au_generation_hash upload\<rparr>"

definition upsert_album :: "album_upload \<Rightarrow> i32 \<Rightarrow> library_db \<Rightarrow> album_row list" where
  "upsert_album input message_id s =
     (let row = new_album input message_id (ld_next_id s)
      in if album_key row \<in> set (map album_key (ld_albums s))
         then map (\<lambda>a. if album_key a = album_key row then row\<lparr>al_id := al_id a\<rparr> else a) (ld_albums s)
         else ld_albums s @ [row])"

definition save_album :: "album_upload \<Rightarrow> i32 \<Rightarrow> album_row libio" where
  "save_album input message_id =
     rs_bind lib_call (\<lambda>_.
     rs_bind (write_albums (upsert_album input message_id)) (\<lambda>_.
     rs_bind (lib_select (\<lambda>s. List.find (\<lambda>a. album_key a = (au_album_id input, au_codec input, au_part_index input)) (ld_albums s))) (\<lambda>row.
     from_option (StoreDatabase OtherKind (lit ''Record not found'')) row)))"

text \<open>The codecs an archive of a codec replaces.\<close>

definition codec_group :: "codec \<Rightarrow> codec list" where
  "codec_group c = (case c of Alac \<Rightarrow> [Alac, Aac] | Aac \<Rightarrow> [Alac, Aac] | Ec3 \<Rightarrow> [Ec3])"

definition in_group :: "ustring \<Rightarrow> codec \<Rightarrow> album_row \<Rightarrow> bool" where
  "in_group album_id c a \<longleftrightarrow> al_album_id a = album_id \<and> al_codec a \<in> set (codec_group c)"

fun new_albums :: "ustring \<Rightarrow> codec \<Rightarrow> album_upload list \<Rightarrow> (album_upload \<times> i32) list libio" where
  "new_albums album_id codec [] = rs_ret []"
| "new_albums album_id codec (u # us) =
     (if au_album_id u \<noteq> album_id \<or> au_codec u \<noteq> codec then rs_fail (StoreRow (lit ''album replacement contains a mismatched part''))
      else rs_bind (try_i32 out_of_range (au_message_id u)) (\<lambda>m.
           rs_bind (new_albums album_id codec us) (\<lambda>rest. rs_ret ((u, m) # rest))))"

definition expectation_holds :: "album_replacement_expectation \<Rightarrow> album_row list \<Rightarrow> bool" where
  "expectation_holds expected existing =
     (case expected of
        ExpectEmpty \<Rightarrow> existing = []
      | ExpectGeneration g \<Rightarrow> existing \<noteq> [] \<and> list_all (\<lambda>a. al_generation_hash a = g) existing
      | ExpectMixed \<Rightarrow> False)"

definition delete_albums_where :: "(album_row \<Rightarrow> bool) \<Rightarrow> unit libio" where
  "delete_albums_where P = rs_bind lib_call (\<lambda>_ s. (Inr (), s\<lparr>ld_albums := filter (\<lambda>a. \<not> P a) (ld_albums s)\<rparr>))"

definition with_ids :: "nat \<Rightarrow> (album_upload \<times> i32) list \<Rightarrow> album_row list" where
  "with_ids i news = map (\<lambda>(k, u, m). new_album u m k) (enumerate i news)"

definition replacement_body ::
  "ustring \<Rightarrow> codec \<Rightarrow> album_replacement_expectation \<Rightarrow> (album_upload \<times> i32) list \<Rightarrow> album_replacement_result libio" where
  "replacement_body album_id codec expected news =
     rs_bind lib_call (\<lambda>_.
     rs_bind (lib_select (\<lambda>s. filter (in_group album_id codec) (ld_albums s))) (\<lambda>existing.
     if \<not> expectation_holds expected existing then rs_ret Stale
     else
       rs_bind (delete_albums_where (in_group album_id codec)) (\<lambda>_.
       rs_bind (if news = [] then rs_ret () else write_albums (\<lambda>s. ld_albums s @ with_ids (ld_next_id s) news)) (\<lambda>_.
       rs_ret (Committed (map al_message_id existing))))))"

definition replace_albums ::
  "ustring \<Rightarrow> codec \<Rightarrow> album_replacement_expectation \<Rightarrow> album_upload list \<Rightarrow> album_replacement_result libio" where
  "replace_albums album_id codec expected uploads =
     rs_bind (new_albums album_id codec uploads) (\<lambda>news.
     rs_bind lib_call (\<lambda>_. transaction (replacement_body album_id codec expected news)))"

definition delete_albums :: "ustring \<Rightarrow> codec option \<Rightarrow> album_row list libio" where
  "delete_albums album_id codec =
     rs_bind (find_albums album_id codec) (\<lambda>existing.
     if existing = [] then rs_ret []
     else rs_bind lib_call (\<lambda>_. rs_bind (delete_albums_where (album_matches album_id codec)) (\<lambda>_. rs_ret existing)))"

definition list_albums :: "album_row list libio" where
  "list_albums = rs_bind lib_call (\<lambda>_. lib_select (\<lambda>s. order_by (\<lambda>a. - int (al_id a)) (ld_albums s)))"

section \<open>The adapter of the jobs\<close>

fun db_is_unavailable :: "store_error \<Rightarrow> bool" where
  "db_is_unavailable (StorePool _) = True"
| "db_is_unavailable (StoreDatabase kind _) = (kind = ClosedConnection \<or> kind = UnableToSendCommand)"
| "db_is_unavailable (StoreRow _) = False"

fun show_store_error :: "store_error \<Rightarrow> ustring" where
  "show_store_error (StorePool e) = lit ''database pool error: '' @ e"
| "show_store_error (StoreDatabase _ e) = lit ''database error: '' @ e"
| "show_store_error (StoreRow e) = lit ''database row error: '' @ e"

definition track_cache_error_of :: "track_cache_operation \<Rightarrow> store_error \<Rightarrow> track_cache_error" where
  "track_cache_error_of op e =
     (if db_is_unavailable e then CacheUnavailable op (show_store_error e) else CacheFailed op (show_store_error e))"

definition album_cache_error_of :: "album_cache_operation \<Rightarrow> store_error \<Rightarrow> album_cache_error" where
  "album_cache_error_of op e =
     (if db_is_unavailable e then AlbumUnavailable op (show_store_error e) else AlbumFailed op (show_store_error e))"

definition map_error :: "('e \<Rightarrow> 'f) \<Rightarrow> ('s, 'e, 'a) result_state \<Rightarrow> ('s, 'f, 'a) result_state" where
  "map_error f m s = (case m s of (Inl e, s') \<Rightarrow> (Inl (f e), s') | (Inr a, s') \<Rightarrow> (Inr a, s'))"

definition deps_find_cached_tracks :: "ustring list \<Rightarrow> (library_db, track_cache_error, cached_tracks_map) result_state" where
  "deps_find_cached_tracks ids = map_error (track_cache_error_of CacheFind) (find_cached_tracks ids)"

definition deps_save_track :: "cached_track \<Rightarrow> (library_db, track_cache_error, unit) result_state" where
  "deps_save_track input = map_error (track_cache_error_of CacheSave) (rs_bind (save_track input) (\<lambda>_. rs_ret ()))"

definition deps_delete_track :: "ustring \<Rightarrow> codec option \<Rightarrow> (library_db, track_cache_error, bool) result_state" where
  "deps_delete_track track_id codec = map_error (track_cache_error_of CacheDelete) (delete_track track_id codec)"

definition cached_album_of :: "album_row \<Rightarrow> cached_album" where
  "cached_album_of a =
     \<lparr>ca_part_index = al_part_index a, ca_total_parts = al_total_parts a, ca_message_id = al_message_id a,
      ca_file_unique_id = al_file_unique_id a, ca_generation_hash = al_generation_hash a, ca_file_size = al_file_size a, ca_codec = al_codec a\<rparr>"

definition deps_save_album :: "album_upload \<Rightarrow> (library_db, album_cache_error, unit) result_state" where
  "deps_save_album upload =
     (if - (2 ^ 31) \<le> au_message_id upload \<and> au_message_id upload < 2 ^ 31
      then map_error (album_cache_error_of AlbumSave) (rs_bind (save_album upload (au_message_id upload)) (\<lambda>_. rs_ret ()))
      else rs_fail (AlbumFailed AlbumSave (lit ''message_id out of range: '' @ out_of_range)))"

definition deps_replace_albums ::
  "ustring \<Rightarrow> codec \<Rightarrow> album_replacement_expectation \<Rightarrow> album_upload list \<Rightarrow> (library_db, album_cache_error, album_replacement_result) result_state" where
  "deps_replace_albums album_id codec expected uploads =
     map_error (album_cache_error_of AlbumReplace) (replace_albums album_id codec expected uploads)"

definition deps_find_albums :: "ustring \<Rightarrow> codec option \<Rightarrow> (library_db, album_cache_error, cached_album list) result_state" where
  "deps_find_albums album_id codec =
     map_error (album_cache_error_of AlbumFind) (rs_bind (find_albums album_id codec) (\<lambda>rows. rs_ret (map cached_album_of rows)))"

definition deps_delete_albums :: "ustring \<Rightarrow> codec option \<Rightarrow> (library_db, album_cache_error, unit) result_state" where
  "deps_delete_albums album_id codec =
     map_error (album_cache_error_of AlbumDelete) (rs_bind (delete_albums album_id codec) (\<lambda>_. rs_ret ()))"

section \<open>Keys\<close>

definition library_ok :: "library_db \<Rightarrow> bool" where
  "library_ok s \<longleftrightarrow> tracks_ok (ld_tracks s) \<and> albums_ok (ld_albums s)"

lemma tracks_ok_filter: "tracks_ok ts \<Longrightarrow> tracks_ok (filter P ts)"
  by (simp add: tracks_ok_def distinct_map_filter)

lemma albums_ok_filter: "albums_ok as \<Longrightarrow> albums_ok (filter P as)"
  by (auto simp: albums_ok_def distinct_map_filter list_all_iff)

lemma lib_call_preserves [intro!]: "preserves library_ok lib_call"
  by (auto simp: preserves_def lib_call_def library_ok_def split: list.splits option.splits)

lemma lib_select_preserves [intro!]: "preserves library_ok (lib_select f)"
  unfolding lib_select_def by (intro preserves_bind lib_call_preserves) (simp add: preserves_def)

lemma write_preserves [intro!]:
  "preserves library_ok (write_albums f)" "preserves library_ok (write_tracks g)"
  unfolding write_albums_def write_tracks_def
  by (intro preserves_bind lib_call_preserves, simp add: preserves_def library_ok_def)+

lemma delete_preserves [intro!]:
  "preserves library_ok (delete_albums_where P)" "preserves library_ok (delete_tracks_where Q)"
  unfolding delete_albums_where_def delete_tracks_where_def
  by (intro preserves_bind lib_call_preserves, simp add: preserves_def library_ok_def tracks_ok_filter albums_ok_filter)+

lemma transaction_preserves [intro!]: "preserves library_ok m \<Longrightarrow> preserves library_ok (transaction m)"
  by (auto simp: preserves_def transaction_def library_ok_def split: prod.splits sum.splits)

lemma try_i32_preserves [intro!]: "preserves I (try_i32 m n)"
  by (auto simp: try_i32_def)

lemma new_albums_preserves [intro!]: "preserves I (new_albums album_id codec us)"
  by (induction us) auto

lemma map_error_preserves [intro!]: "preserves I m \<Longrightarrow> preserves I (map_error f m)"
  by (auto simp: preserves_def map_error_def split: prod.splits sum.splits)

text \<open>
  Every operation of the jobs on the library, whatever fails in it, leaves tables that respect their keys: one row for a track and codec,
  one for a part of an archive and codec, no file twice, and part numbers within their totals.
\<close>

theorem library_keys_kept:
  assumes "library_ok s"
  shows "library_ok (snd (deps_find_cached_tracks ids s)) \<and> library_ok (snd (deps_save_track input s)) \<and>
    library_ok (snd (deps_delete_track track_id c s)) \<and> library_ok (snd (delete_tracks_not_in valid s)) \<and>
    library_ok (snd (deps_save_album upload s)) \<and> library_ok (snd (deps_replace_albums album_id codec expected uploads s)) \<and>
    library_ok (snd (deps_find_albums album_id c s)) \<and> library_ok (snd (deps_delete_albums album_id c s))"
proof -
  have "preserves library_ok (deps_find_cached_tracks ids)" "preserves library_ok (deps_save_track input)"
    "preserves library_ok (deps_delete_track track_id c)" "preserves library_ok (delete_tracks_not_in valid)"
    "preserves library_ok (deps_save_album upload)" "preserves library_ok (deps_replace_albums album_id codec expected uploads)"
    "preserves library_ok (deps_find_albums album_id c)" "preserves library_ok (deps_delete_albums album_id c)"
    unfolding deps_find_cached_tracks_def find_cached_tracks_def deps_save_track_def save_track_def deps_delete_track_def delete_track_def
      delete_tracks_not_in_def deps_save_album_def save_album_def deps_replace_albums_def replace_albums_def replacement_body_def
      deps_find_albums_def find_albums_def deps_delete_albums_def delete_albums_def Let_def
    by auto
  with assms show ?thesis by (simp add: preserves_def)
qed

theorem library_keys_kept_witness:
  "library_ok (snd (deps_delete_track (lit ''1'') None \<lparr>ld_tracks = [], ld_albums = [], ld_next_id = 1, ld_now = 0, ld_faults = []\<rparr>))"
  using library_keys_kept [of "\<lparr>ld_tracks = [], ld_albums = [], ld_next_id = 1, ld_now = 0, ld_faults = []\<rparr>"]
  by (simp add: library_ok_def tracks_ok_def albums_ok_def)

section \<open>Replacing an archive\<close>

text \<open>A row that stores an upload.\<close>

definition stores :: "album_row \<Rightarrow> album_upload \<Rightarrow> bool" where
  "stores a u \<longleftrightarrow> al_album_id a = au_album_id u \<and> al_codec a = au_codec u \<and> al_part_index a = au_part_index u \<and>
     al_total_parts a = au_total_parts u \<and> al_message_id a = au_message_id u \<and> al_file_id a = au_file_id u \<and>
     al_file_unique_id a = au_file_unique_id u \<and> al_file_size a = au_file_size u \<and> al_generation_hash a = au_generation_hash u"

lemma new_albums_wp:
  "rs_wp (new_albums album_id codec us)
     (\<lambda>news s'. s' = s \<and> map fst news = us \<and> list_all (\<lambda>(u, m). m = au_message_id u) news \<and> list_all (\<lambda>u. au_album_id u = album_id \<and> au_codec u = codec) us)
     (\<lambda>_ s'. s' = s) s"
  by (induction us) (auto simp: wp_simps try_i32_def intro!: wp_mono)

lemma with_ids_stores:
  "list_all (\<lambda>(u, m). m = au_message_id u) news \<Longrightarrow> list_all2 stores (with_ids i news) (map fst news)"
  by (induction news arbitrary: i) (auto simp: with_ids_def stores_def new_album_def)

definition same_tables :: "library_db \<Rightarrow> library_db \<Rightarrow> bool" where
  "same_tables s s' \<longleftrightarrow> ld_tracks s' = ld_tracks s \<and> ld_albums s' = ld_albums s"

lemma lib_call_wp: "rs_wp lib_call (\<lambda>_ s'. same_tables s s') (\<lambda>_ s'. same_tables s s') s"
  by (auto simp: rs_wp_def lib_call_def same_tables_def split: list.splits option.splits)

lemma lib_select_wp:
  assumes "\<And>s'. ld_tracks s' = ld_tracks s \<Longrightarrow> ld_albums s' = ld_albums s \<Longrightarrow> f s' = f s"
  shows "rs_wp (lib_select f) (\<lambda>a s'. same_tables s s' \<and> a = f s) (\<lambda>_ s'. same_tables s s') s"
  unfolding lib_select_def wp_bind
  by (rule wp_mono [OF lib_call_wp]) (auto simp: rs_wp_def same_tables_def intro: assms)

lemma delete_albums_wp:
  "rs_wp (delete_albums_where P) (\<lambda>_ s'. ld_tracks s' = ld_tracks s \<and> ld_albums s' = filter (\<lambda>a. \<not> P a) (ld_albums s)) (\<lambda>_ _. True) s"
  unfolding delete_albums_where_def wp_bind
  by (rule wp_mono [OF lib_call_wp]) (auto simp: rs_wp_def same_tables_def)

lemma append_albums_wp:
  "rs_wp (write_albums (\<lambda>s. ld_albums s @ with_ids (ld_next_id s) news))
     (\<lambda>_ s'. ld_tracks s' = ld_tracks s \<and> (\<exists>i. ld_albums s' = ld_albums s @ with_ids i news)) (\<lambda>_ _. True) s"
  unfolding write_albums_def wp_bind
  by (rule wp_mono [OF lib_call_wp]) (auto simp: rs_wp_def same_tables_def)

text \<open>What a replacement did to the tables, for each of its results.\<close>

definition replaced ::
  "ustring \<Rightarrow> codec \<Rightarrow> album_replacement_expectation \<Rightarrow> album_upload list \<Rightarrow> library_db \<Rightarrow> store_error + album_replacement_result \<Rightarrow> library_db \<Rightarrow> bool" where
  "replaced album_id codec expected uploads s r s' \<longleftrightarrow>
     (case r of
        Inr (Committed displaced) \<Rightarrow>
          (let old = filter (in_group album_id codec) (ld_albums s)
           in expectation_holds expected old \<and> displaced = map al_message_id old \<and>
              (\<exists>rows. list_all2 stores rows uploads \<and> list_all (in_group album_id codec) rows \<and>
                 ld_albums s' = filter (\<lambda>a. \<not> in_group album_id codec a) (ld_albums s) @ rows \<and> ld_tracks s' = ld_tracks s))
      | _ \<Rightarrow> same_tables s s')"

lemma replacement_body_wp:
  assumes msgs: "list_all (\<lambda>(u, m). m = au_message_id u) news" and own: "list_all (\<lambda>u. au_album_id u = album_id \<and> au_codec u = codec) (map fst news)"
  shows "rs_wp (replacement_body album_id codec expected news) (\<lambda>r s'. replaced album_id codec expected (map fst news) s (Inr r) s') (\<lambda>_ _. True) s"
proof -
  have rows: "list_all2 stores (with_ids i news) (map fst news)" "list_all (in_group album_id codec) (with_ids i news)" for i
  proof -
    show "list_all2 stores (with_ids i news) (map fst news)" by (rule with_ids_stores [OF msgs])
    then have "list_all2 (\<lambda>a _. in_group album_id codec a) (with_ids i news) (map fst news)"
      using own by (auto simp: list_all2_conv_all_nth list_all_length stores_def in_group_def codec_group_def split: codec.splits)
    then show "list_all (in_group album_id codec) (with_ids i news)" by (auto simp: list_all2_conv_all_nth list_all_length)
  qed
  have select: "rs_wp (lib_select (\<lambda>s. filter (in_group album_id codec) (ld_albums s)))
      (\<lambda>old s'. same_tables s s' \<and> old = filter (in_group album_id codec) (ld_albums s)) (\<lambda>_ _. True) s1" if "same_tables s s1" for s1
    using that by (intro wp_mono [OF lib_select_wp]) (auto simp: same_tables_def)
  show ?thesis unfolding replacement_body_def wp_bind
  proof (rule wp_mono [OF lib_call_wp], rule wp_mono [OF select], assumption, goal_cases)
    case (1 _ _ old s1)
    show ?case
    proof (cases "expectation_holds expected old")
      case False
      then show ?thesis using 1 by (simp add: wp_simps replaced_def)
    next
      case True
      have committed: "replaced album_id codec expected (map fst news) s (Inr (Committed (map al_message_id old))) s3"
        if "ld_tracks s3 = ld_tracks s" "ld_albums s3 = filter (\<lambda>a. \<not> in_group album_id codec a) (ld_albums s) @ with_ids i news" for s3 i
        using True 1 that rows [of i] by (auto simp: replaced_def Let_def)
      have none: "with_ids i [] = []" for i by (simp add: with_ids_def)
      have "rs_wp (delete_albums_where (in_group album_id codec)) (\<lambda>_. rs_wp
          (if news = [] then rs_ret () else write_albums (\<lambda>s. ld_albums s @ with_ids (ld_next_id s) news))
          (\<lambda>_. replaced album_id codec expected (map fst news) s (Inr (Committed (map al_message_id old)))) (\<lambda>_ _. True)) (\<lambda>_ _. True) s1"
      proof (rule wp_mono [OF delete_albums_wp], goal_cases)
        case (1 _ s2)
        then have s2: "ld_tracks s2 = ld_tracks s" "ld_albums s2 = filter (\<lambda>a. \<not> in_group album_id codec a) (ld_albums s)"
          using \<open>same_tables s s1 \<and> _\<close> by (simp_all add: same_tables_def)
        show ?case
        proof (cases "news = []")
          case True
          then show ?thesis using committed [of s2 0] s2 none by (simp add: wp_ret)
        next
          case False
          have "rs_wp (write_albums (\<lambda>s. ld_albums s @ with_ids (ld_next_id s) news))
              (\<lambda>_. replaced album_id codec expected (map fst news) s (Inr (Committed (map al_message_id old)))) (\<lambda>_ _. True) s2"
            by (rule wp_mono [OF append_albums_wp]) (use committed s2 in auto)
          with False show ?thesis by simp
        qed
      qed simp
      with True show ?thesis by (simp add: wp_bind wp_ret)
    qed
  qed simp_all
qed

lemma transaction_wp:
  assumes "rs_wp m Q (\<lambda>_ _. True) s"
  shows "rs_wp (transaction m) Q (\<lambda>_ s'. same_tables s s') s"
  using assms by (auto simp: rs_wp_def transaction_def same_tables_def split: prod.splits sum.splits)

lemma replaced_from:
  "same_tables s s1 \<Longrightarrow> replaced album_id codec expected uploads s1 r s' \<Longrightarrow> replaced album_id codec expected uploads s r s'"
  by (auto simp: replaced_def same_tables_def Let_def split: sum.splits album_replacement_result.splits)

lemma replace_albums_wp:
  "rs_wp (replace_albums album_id codec expected uploads) (\<lambda>r s'. replaced album_id codec expected uploads s (Inr r) s')
     (\<lambda>e s'. replaced album_id codec expected uploads s (Inl e) s') s"
  unfolding replace_albums_def wp_bind
proof (rule wp_mono [OF new_albums_wp], goal_cases)
  case (1 news s1)
  then have news: "list_all (\<lambda>(u, m). m = au_message_id u) news" "list_all (\<lambda>u. au_album_id u = album_id \<and> au_codec u = codec) (map fst news)"
    and us: "uploads = map fst news" and s1: "s1 = s" by auto
  show ?case unfolding us s1
    by (rule wp_mono [OF lib_call_wp], rule wp_mono [OF transaction_wp [OF replacement_body_wp [OF news]]])
      (auto intro: replaced_from, auto simp: replaced_def same_tables_def)
qed (simp add: replaced_def same_tables_def)

lemma replacement_run:
  assumes "replace_albums album_id codec expected uploads s = (r, s')"
  shows "replaced album_id codec expected uploads s r s'"
  using replace_albums_wp [of album_id codec expected uploads s] assms by (simp add: rs_wp_def split: sum.splits)

lemma committed_iff_held:
  assumes "replace_albums album_id codec expected uploads s = (Inr (Committed d), s')"
  shows "expectation_holds expected (filter (in_group album_id codec) (ld_albums s))"
    and "list_all2 stores (filter (in_group album_id codec) (ld_albums s')) uploads"
  using replacement_run [OF assms] by (auto simp: replaced_def Let_def filter_empty_conv list_all_iff filter_id_conv)

text \<open>
  C23: Replacing the archive of an album is a compare-and-swap: it is committed only when the cache still holds what the job
  found when it started, and then the rows of the album and its codec group are exactly the new parts, while the
  messages of the old ones are reported; stale, refused or failed, it changes nothing.
\<close>

theorem album_replacement_atomic:
  assumes "replace_albums album_id codec expected uploads s = (r, s')"
  shows "case r of
      Inr (Committed displaced) \<Rightarrow>
        expectation_holds expected (filter (in_group album_id codec) (ld_albums s)) \<and>
        displaced = map al_message_id (filter (in_group album_id codec) (ld_albums s)) \<and>
        list_all2 stores (filter (in_group album_id codec) (ld_albums s')) uploads \<and>
        filter (\<lambda>a. \<not> in_group album_id codec a) (ld_albums s') = filter (\<lambda>a. \<not> in_group album_id codec a) (ld_albums s) \<and>
        ld_tracks s' = ld_tracks s
    | _ \<Rightarrow> ld_albums s' = ld_albums s \<and> ld_tracks s' = ld_tracks s"
  using replacement_run [OF assms]
  by (auto simp: replaced_def same_tables_def Let_def filter_empty_conv list_all_iff filter_id_conv split: sum.splits album_replacement_result.splits)

definition empty_library :: library_db where
  "empty_library = \<lparr>ld_tracks = [], ld_albums = [], ld_next_id = 1, ld_now = 0, ld_faults = []\<rparr>"

definition one_part :: album_upload where
  "one_part = \<lparr>au_album_id = lit ''9'', au_codec = Alac, au_part_index = 1, au_total_parts = 1, au_message_id = 7, au_file_id = ''f'',
     au_file_unique_id = ''u'', au_file_size = 10, au_generation_hash = ''h''\<rparr>"

lemma one_part_committed:
  "\<exists>s'. replace_albums (lit ''9'') Alac ExpectEmpty [one_part] empty_library = (Inr (Committed []), s')"
  by (simp add: replace_albums_def rs_bind_def one_part_def empty_library_def try_i32_def rs_ret_def lib_call_def transaction_def replacement_body_def
      lib_select_def expectation_holds_def delete_albums_where_def write_albums_def with_ids_def new_album_def album_checked_def albums_ok_def)

theorem album_replacement_atomic_witness:
  "\<exists>s'. replace_albums (lit ''9'') Alac ExpectEmpty [one_part] empty_library = (Inr (Committed []), s') \<and>
     list_all2 stores (filter (in_group (lit ''9'') Alac) (ld_albums s')) [one_part]"
proof -
  obtain s' where run: "replace_albums (lit ''9'') Alac ExpectEmpty [one_part] empty_library = (Inr (Committed []), s')"
    by (rule one_part_committed [THEN exE])
  with album_replacement_atomic [OF run] show ?thesis by auto
qed

text \<open>
  Of two jobs that started from the same archive, or from none, at most one records its own: after the first commit the second
  finds that its expectation no longer holds.
\<close>

lemma one_replacement_wins:
  assumes first: "replace_albums album_id codec expected uploads s = (Inr (Committed d), s1)"
    and new: "uploads \<noteq> []" "\<forall>u \<in> set uploads. expected \<noteq> ExpectGeneration (au_generation_hash u)"
    and grp: "codec_group codec' = codec_group codec"
    and second: "replace_albums album_id codec' expected uploads' s1 = (r, s2)"
  shows "r \<noteq> Inr (Committed d')"
proof
  assume "r = Inr (Committed d')"
  then have holds: "expectation_holds expected (filter (in_group album_id codec) (ld_albums s1))"
    using committed_iff_held(1) second grp by (fastforce simp: in_group_def [abs_def])
  have stored: "list_all2 stores (filter (in_group album_id codec) (ld_albums s1)) uploads" by (rule committed_iff_held(2) [OF first])
  then obtain a as u us where "filter (in_group album_id codec) (ld_albums s1) = a # as" "u \<in> set uploads" "stores a u"
    using new(1) by (cases uploads) (auto simp: list_all2_Cons2)
  with holds new(2) show False by (auto simp: expectation_holds_def stores_def split: album_replacement_expectation.splits)
qed

lemma mixed_never_replaced: "fst (replace_albums album_id codec ExpectMixed uploads s) \<noteq> Inr (Committed d)"
  by (cases "replace_albums album_id codec ExpectMixed uploads s") (auto simp: expectation_holds_def dest: committed_iff_held(1))

lemma replacement_never_conflicts: "fst (deps_replace_albums album_id codec expected uploads s) \<noteq> Inl (AlbumConflict op e)"
  by (auto simp: deps_replace_albums_def map_error_def album_cache_error_of_def split: prod.splits sum.splits if_splits)

section \<open>Saved tracks are found\<close>

lemma fold_insert_get:
  "distinct (map track_key ts) \<Longrightarrow>
   hm_get (fold (\<lambda>t. hm_insert (track_key t) (cached_track_of t)) ts m) k =
     (case List.find (\<lambda>t. track_key t = k) ts of Some t \<Rightarrow> Some (cached_track_of t) | None \<Rightarrow> hm_get m k)"
proof (induction ts arbitrary: m)
  case (Cons t ts)
  have "List.find (\<lambda>u. track_key u = track_key t) ts = None" using Cons.prems by (auto simp: find_None_iff) (metis image_eqI)
  then show ?case using Cons by (auto simp: hm_get_insert split: option.splits)
qed simp

lemma find_upsert:
  "map_option cached_track_of (List.find (\<lambda>t. track_key t = k) (upsert_track input m s)) =
     (if k = (ct_track_id input, ct_codec input) then Some (input\<lparr>ct_message_id := m\<rparr>)
      else map_option cached_track_of (List.find (\<lambda>t. track_key t = k) (ld_tracks s)))"
proof (cases "(ct_track_id input, ct_codec input) \<in> set (map track_key (ld_tracks s))")
  case True
  let ?key = "(ct_track_id input, ct_codec input)"
  let ?set = "\<lambda>t. if track_key t = ?key
      then t\<lparr>tk_message_id := m, tk_file_id := ct_file_id input, tk_file_unique_id := ct_file_unique_id input, tk_updated_at := ld_now s\<rparr> else t"
  have other: "map_option cached_track_of (List.find (\<lambda>t. track_key t = k) (map ?set ts)) = map_option cached_track_of (List.find (\<lambda>t. track_key t = k) ts)"
    if "k \<noteq> ?key" for ts using that by (induction ts) (auto simp: track_key_def)
  have this_one: "map_option cached_track_of (List.find (\<lambda>t. track_key t = ?key) (map ?set ts)) = Some (input\<lparr>ct_message_id := m\<rparr>)"
    if "?key \<in> set (map track_key ts)" for ts
    using that by (induction ts) (auto simp: track_key_def cached_track_of_def)
  show ?thesis using True other this_one [OF True] by (simp add: upsert_track_def Let_def)
next
  case False
  have "List.find P (xs @ [x]) = (case List.find P xs of None \<Rightarrow> if P x then Some x else None | Some y \<Rightarrow> Some y)" for P and xs :: "track_row list" and x
    by (induction xs) auto
  moreover have "List.find (\<lambda>t. track_key t = (ct_track_id input, ct_codec input)) (ld_tracks s) = None"
    using False by (auto simp: find_None_iff) (metis image_eqI)
  ultimately show ?thesis using False
    by (auto simp: upsert_track_def Let_def track_key_def cached_track_of_def split: option.splits)
qed

lemma save_track_wp:
  "rs_wp (save_track input) (\<lambda>_ s'. tracks_ok (ld_tracks s') \<and> (\<exists>s1. same_tables s s1 \<and> ld_tracks s' = upsert_track input (ct_message_id input) s1)) (\<lambda>_ _. True) s"
proof -
  have written: "rs_wp (write_tracks (upsert_track input m)) (\<lambda>_ s'. tracks_ok (ld_tracks s') \<and> (\<exists>s2. same_tables s s2 \<and> ld_tracks s' = upsert_track input m s2)) (\<lambda>_ _. True) s1"
    if "same_tables s s1" for s1 m unfolding write_tracks_def wp_bind
    by (rule wp_mono [OF lib_call_wp]) (use that in \<open>auto simp: rs_wp_def same_tables_def\<close>)
  have same: "rs_wp (lib_select f) (\<lambda>a s'. ld_tracks s' = ld_tracks s1) (\<lambda>_ _. True) s1" for f :: "library_db \<Rightarrow> track_row option" and s1
    unfolding lib_select_def wp_bind by (rule wp_mono [OF lib_call_wp]) (auto simp: rs_wp_def same_tables_def)
  have read: "rs_wp (lib_select f) (\<lambda>row. rs_wp (from_option e row) (\<lambda>_ s'. Q (ld_tracks s')) (\<lambda>_ _. True)) (\<lambda>_ _. True) s1"
    if "Q (ld_tracks s1)" for f :: "library_db \<Rightarrow> track_row option" and e :: store_error and Q s1
    by (rule wp_mono [OF same]) (use that in \<open>auto simp: rs_wp_def from_option_def rs_ret_def rs_fail_def split: option.splits\<close>)
  let ?Q = "\<lambda>m ts. tracks_ok ts \<and> (\<exists>s1. same_tables s s1 \<and> ts = upsert_track input m s1)"
  have "rs_wp lib_call (\<lambda>_. rs_wp (write_tracks (upsert_track input m)) (\<lambda>_. rs_wp (lib_select f)
      (\<lambda>row. rs_wp (from_option e row) (\<lambda>_ s'. ?Q m (ld_tracks s')) (\<lambda>_ _. True))
      (\<lambda>_ _. True)) (\<lambda>_ _. True)) (\<lambda>_ _. True) s" for m and f :: "library_db \<Rightarrow> track_row option" and e :: store_error
  proof (rule wp_mono [OF lib_call_wp], goal_cases)
    case (1 u s1)
    then show ?case by (intro wp_mono [OF written [of s1 m]] read [where Q = "?Q m"]) auto
  qed simp
  then show ?thesis unfolding save_track_def wp_bind by (simp add: try_i32_def wp_ret wp_fail)
qed

lemma find_cached_tracks_wp:
  assumes "ids \<noteq> []" "[] \<notin> set ids"
  shows "rs_wp (find_cached_tracks ids)
     (\<lambda>m _. m = fold (\<lambda>t. hm_insert (track_key t) (cached_track_of t)) (filter (\<lambda>t. tk_track_id t \<in> set ids) (ld_tracks s)) []) (\<lambda>_ _. True) s"
proof -
  have "filter (\<lambda>i. i \<noteq> []) ids = ids" using assms(2) by (auto simp: filter_id_conv)
  then show ?thesis using assms(1) unfolding find_cached_tracks_def Let_def
    by (auto simp: wp_bind wp_ret same_tables_def intro!: wp_mono [OF lib_call_wp] wp_mono [OF lib_select_wp])
qed

text \<open>
  A track that was saved is what the next lookup of its identifier finds, under its codec, and every other cached rendition is found
  as before.
\<close>

theorem saved_track_found:
  assumes saved: "deps_save_track input s = (Inr (), s')" and found: "deps_find_cached_tracks [ct_track_id input] s' = (Inr m, s'')"
    and id: "ct_track_id input \<noteq> []"
  shows "hm_get m (ct_track_id input, ct_codec input) = Some input \<and>
    (c \<noteq> ct_codec input \<longrightarrow> hm_get m (ct_track_id input, c) =
       map_option cached_track_of (List.find (\<lambda>t. track_key t = (ct_track_id input, c)) (ld_tracks s)))"
proof -
  let ?key = "(ct_track_id input, ct_codec input)"
  obtain s1 where s': "tracks_ok (ld_tracks s')" "ld_tracks s' = upsert_track input (ct_message_id input) s1" "ld_tracks s1 = ld_tracks s"
    using save_track_wp [of input s] saved
    by (auto simp: deps_save_track_def map_error_def rs_bind_def rs_wp_def same_tables_def rs_ret_def split: prod.splits sum.splits)
  let ?own = "filter (\<lambda>t. tk_track_id t \<in> {ct_track_id input}) (ld_tracks s')"
  have m: "m = fold (\<lambda>t. hm_insert (track_key t) (cached_track_of t)) ?own []"
    using find_cached_tracks_wp [of "[ct_track_id input]" s'] found id
    by (auto simp: deps_find_cached_tracks_def map_error_def rs_wp_def split: prod.splits sum.splits)
  have own: "List.find (\<lambda>t. track_key t = (ct_track_id input, c)) (filter (\<lambda>t. tk_track_id t \<in> {ct_track_id input}) ts) =
      List.find (\<lambda>t. track_key t = (ct_track_id input, c)) ts" for c ts by (induction ts) (auto simp: track_key_def)
  have "distinct (map track_key ?own)" using tracks_ok_filter [OF s'(1)] by (simp add: tracks_ok_def)
  then have "hm_get m (ct_track_id input, c) = map_option cached_track_of (List.find (\<lambda>t. track_key t = (ct_track_id input, c)) (ld_tracks s'))" for c
    unfolding m fold_insert_get [OF \<open>distinct _\<close>] own by (simp split: option.splits)
  then show ?thesis by (simp add: s' find_upsert)
qed

definition one_track :: cached_track where
  "one_track = \<lparr>ct_track_id = lit ''5'', ct_codec = Alac, ct_message_id = 7, ct_file_id = ''f'', ct_file_unique_id = ''u''\<rparr>"

lemma one_track_round_trip:
  "\<exists>s' s'' m. deps_save_track one_track empty_library = (Inr (), s') \<and> deps_find_cached_tracks [ct_track_id one_track] s' = (Inr m, s'')"
  by (simp add: deps_save_track_def deps_find_cached_tracks_def map_error_def save_track_def rs_bind_def try_i32_def one_track_def empty_library_def
      rs_ret_def lib_call_def write_tracks_def upsert_track_def tracks_ok_def lib_select_def track_key_def from_option_def find_cached_tracks_def lit_def)

theorem saved_track_found_witness:
  "\<exists>s' s'' m. deps_save_track one_track empty_library = (Inr (), s') \<and> deps_find_cached_tracks [ct_track_id one_track] s' = (Inr m, s'') \<and>
     hm_get m (lit ''5'', Alac) = Some one_track"
proof -
  obtain s' s'' m where run: "deps_save_track one_track empty_library = (Inr (), s')" "deps_find_cached_tracks [ct_track_id one_track] s' = (Inr m, s'')"
    using one_track_round_trip by blast
  have "ct_track_id one_track \<noteq> []" by (simp add: one_track_def lit_def)
  with saved_track_found [OF run] run show ?thesis by (auto simp: one_track_def)
qed

end
