(* ===== verification/Playlist_Store.thy ===== *)
theory Playlist_Store
  imports Lookup Unicode_Text Result_State
begin

text \<open>
  The playlists of the users: the tables and transactions of \<open>crates/db/src/playlists.rs\<close> and the endpoints of
  \<open>crates/server/src/playlists.rs\<close>. A statement is one atomic change that respects the keys, checks and cascades of the
  schema and takes its fault, if any, from a list. A transaction gives back the old tables when its body or its commit
  fails. The advisory lock of a user serialises the creation and import of playlists, which are modelled in two phases, so
  that every other statement may run between the count and the insertion. The statements of the second phase are one step,
  like those of a replacement of tracks: the key on playlist and position lets only one of two overlapping insertions in. A
  row gets the time of its statement, where PostgreSQL takes that of the transaction. Fresh identifiers are arguments; rows
  that tie in an order keep the order of the table.
\<close>

section \<open>Tables\<close>

record playlist_row =
  pl_id :: ustring
  pl_telegram_id :: i64
  pl_name :: ustring
  pl_is_favorites :: bool
  pl_source_url :: "ustring option"
  pl_created_at :: instant
  pl_updated_at :: instant

record playlist_track_row =
  pt_playlist_id :: ustring
  pt_position :: i32
  pt_track_id :: ustring

record playlist_db =
  pd_users :: "i64 list"
  pd_playlists :: "playlist_row list"
  pd_tracks :: "playlist_track_row list"
  pd_now :: instant
  pd_faults :: "string option list"

record playlist =
  py_id :: ustring
  py_name :: ustring
  py_is_favorites :: bool
  py_source_url :: "ustring option"
  py_track_count :: nat
  py_preview_track_ids :: "ustring list"
  py_created_at :: instant
  py_updated_at :: instant

record playlist_detail =
  pe_playlist :: playlist
  pe_track_ids :: "ustring list"

type_synonym 'a plio = "(playlist_db, db_error, 'a) result_state"

definition MAX_CUSTOM_PLAYLISTS :: nat where
  "MAX_CUSTOM_PLAYLISTS = 7"

definition MAX_PLAYLIST_TRACKS :: nat where
  "MAX_PLAYLIST_TRACKS = 1000"

definition is_digit :: "uchar \<Rightarrow> bool" where
  "is_digit c \<longleftrightarrow> 0x30 \<le> c \<and> c \<le> 0x39"

definition sql_trim :: "ustring \<Rightarrow> ustring" where
  "sql_trim s = utrim_end_matches (\<lambda>c. c = 0x20) (dropWhile (\<lambda>c. c = 0x20) s)"

definition playlists_ok :: "i64 list \<Rightarrow> playlist_row list \<Rightarrow> bool" where
  "playlists_ok users ps \<longleftrightarrow>
     distinct (map pl_id ps) \<and>
     distinct (map pl_telegram_id (filter pl_is_favorites ps)) \<and>
     distinct (map (\<lambda>p. (pl_telegram_id p, pl_source_url p)) (filter (\<lambda>p. pl_source_url p \<noteq> None) ps)) \<and>
     list_all (\<lambda>p. pl_telegram_id p \<in> set users \<and> 1 \<le> length (sql_trim (pl_name p)) \<and> length (sql_trim (pl_name p)) \<le> 80) ps"

definition tracks_checked :: "playlist_row list \<Rightarrow> playlist_track_row list \<Rightarrow> bool" where
  "tracks_checked ps ts \<longleftrightarrow>
     distinct (map (\<lambda>t. (pt_playlist_id t, pt_position t)) ts) \<and>
     list_all (\<lambda>t. pt_playlist_id t \<in> set (map pl_id ps) \<and> 0 \<le> pt_position t \<and> pt_track_id t \<noteq> [] \<and> list_all is_digit (pt_track_id t)) ts"

definition schema_ok :: "playlist_db \<Rightarrow> bool" where
  "schema_ok s \<longleftrightarrow> playlists_ok (pd_users s) (pd_playlists s) \<and> tracks_checked (pd_playlists s) (pd_tracks s)"

section \<open>Statements\<close>

definition pl_call :: "(string \<Rightarrow> db_error) \<Rightarrow> unit plio" where
  "pl_call err s =
     (case pd_faults s of
        [] \<Rightarrow> (Inr (), s)
      | None # fs \<Rightarrow> (Inr (), s\<lparr>pd_faults := fs\<rparr>)
      | Some e # fs \<Rightarrow> (Inl (err e), s\<lparr>pd_faults := fs\<rparr>))"

definition pl_connection :: "unit plio" where
  "pl_connection = pl_call DbPool"

definition pl_select :: "(playlist_db \<Rightarrow> 'a) \<Rightarrow> 'a plio" where
  "pl_select f = rs_bind (pl_call DbDatabase) (\<lambda>_ s. (Inr (f s), s))"

text \<open>A statement that would break the schema is refused; otherwise it reports the rows it touched.\<close>

definition pl_execute :: "(playlist_db \<Rightarrow> nat) \<Rightarrow> (playlist_db \<Rightarrow> playlist_row list) \<Rightarrow> (playlist_db \<Rightarrow> playlist_track_row list) \<Rightarrow> nat plio" where
  "pl_execute n f g =
     rs_bind (pl_call DbDatabase) (\<lambda>_ s.
       if schema_ok (s\<lparr>pd_playlists := f s, pd_tracks := g s\<rparr>) then (Inr (n s), s\<lparr>pd_playlists := f s, pd_tracks := g s\<rparr>)
       else (Inl (DbDatabase ''constraint violation''), s))"

definition insert_playlist :: "playlist_row \<Rightarrow> nat plio" where
  "insert_playlist row = pl_execute (\<lambda>_. 1) (\<lambda>s. pd_playlists s @ [row\<lparr>pl_created_at := pd_now s, pl_updated_at := pd_now s\<rparr>]) pd_tracks"

definition update_playlists :: "(playlist_row \<Rightarrow> bool) \<Rightarrow> (instant \<Rightarrow> playlist_row \<Rightarrow> playlist_row) \<Rightarrow> nat plio" where
  "update_playlists P f =
     pl_execute (\<lambda>s. length (filter P (pd_playlists s))) (\<lambda>s. map (\<lambda>p. if P p then f (pd_now s) p else p) (pd_playlists s)) pd_tracks"

text \<open>The tracks of a deleted playlist go with it.\<close>

definition delete_playlists :: "(playlist_row \<Rightarrow> bool) \<Rightarrow> nat plio" where
  "delete_playlists P =
     pl_execute (\<lambda>s. length (filter P (pd_playlists s))) (\<lambda>s. filter (\<lambda>p. \<not> P p) (pd_playlists s))
       (\<lambda>s. filter (\<lambda>t. pt_playlist_id t \<notin> set (map pl_id (filter P (pd_playlists s)))) (pd_tracks s))"

definition delete_playlist_tracks :: "(playlist_db \<Rightarrow> playlist_track_row \<Rightarrow> bool) \<Rightarrow> nat plio" where
  "delete_playlist_tracks P =
     pl_execute (\<lambda>s. length (filter (P s) (pd_tracks s))) pd_playlists (\<lambda>s. filter (\<lambda>t. \<not> P s t) (pd_tracks s))"

definition insert_playlist_tracks :: "playlist_track_row list \<Rightarrow> nat plio" where
  "insert_playlist_tracks ts = pl_execute (\<lambda>_. length ts) pd_playlists (\<lambda>s. pd_tracks s @ ts)"

definition undone :: "playlist_db \<Rightarrow> playlist_db \<Rightarrow> playlist_db" where
  "undone s s' = s'\<lparr>pd_playlists := pd_playlists s, pd_tracks := pd_tracks s\<rparr>"

text \<open>The end of a transaction that found the tables of \<open>s\<close>; a failure of the rollback is ignored.\<close>

definition finish_transaction :: "playlist_db \<Rightarrow> (db_error + 'a) \<times> playlist_db \<Rightarrow> (db_error + 'a) \<times> playlist_db" where
  "finish_transaction s outcome =
     (case outcome of
        (Inr v, s') \<Rightarrow> (case pl_call DbDatabase s' of (Inr _, s'') \<Rightarrow> (Inr v, s'') | (Inl e, s'') \<Rightarrow> (Inl e, undone s s''))
      | (Inl e, s') \<Rightarrow> (Inl e, undone s (snd (pl_call DbDatabase s'))))"

definition in_transaction :: "'a plio \<Rightarrow> 'a plio" where
  "in_transaction body = rs_bind (pl_call DbDatabase) (\<lambda>_ s. finish_transaction s (body s))"

section \<open>Validation\<close>

definition normalize_name :: "ustring \<Rightarrow> db_error + ustring" where
  "normalize_name name =
     (let name = utrim name
      in if name = [] \<or> length name > 80
         then Inl (DbValidation (''Playlist name must be 1'' @ [CHR 0xE2, CHR 0x80, CHR 0x93] @ ''80 characters''))
         else Inr name)"

definition validate_track_ids :: "ustring list \<Rightarrow> db_error + unit" where
  "validate_track_ids track_ids =
     (if length track_ids > MAX_PLAYLIST_TRACKS
      then Inl (DbValidation (''Playlist cannot contain more than '' @ show_nat MAX_PLAYLIST_TRACKS @ '' tracks''))
      else if list_ex (\<lambda>t. let t = utrim t in t = [] \<or> str_len t > 128 \<or> \<not> list_all is_digit t) track_ids
      then Inl (DbValidation ''Every playlist track needs a numeric Apple catalog ID'')
      else Inr ())"

definition playlist_not_found :: db_error where
  "playlist_not_found = DbNotFound ''Playlist not found''"

definition playlist_limit_reached :: db_error where
  "playlist_limit_reached = DbValidation (''You can create up to '' @ show_nat MAX_CUSTOM_PLAYLISTS @ '' playlists'')"

section \<open>Operations\<close>

definition tracks_of :: "playlist_db \<Rightarrow> ustring \<Rightarrow> ustring list" where
  "tracks_of s i = map pt_track_id (sort_key pt_position (filter (\<lambda>t. pt_playlist_id t = i) (pd_tracks s)))"

definition playlist_select :: "playlist_db \<Rightarrow> playlist_row \<Rightarrow> playlist" where
  "playlist_select s p =
     \<lparr>py_id = pl_id p, py_name = pl_name p, py_is_favorites = pl_is_favorites p, py_source_url = pl_source_url p,
      py_track_count = length (filter (\<lambda>t. pt_playlist_id t = pl_id p) (pd_tracks s)),
      py_preview_track_ids = take 4 (tracks_of s (pl_id p)), py_created_at = pl_created_at p, py_updated_at = pl_updated_at p\<rparr>"

definition owned :: "i64 \<Rightarrow> ustring \<Rightarrow> playlist_row \<Rightarrow> bool" where
  "owned telegram_id i p \<longleftrightarrow> pl_telegram_id p = telegram_id \<and> pl_id p = i"

definition find_playlist :: "i64 \<Rightarrow> ustring \<Rightarrow> playlist plio" where
  "find_playlist telegram_id i =
     rs_bind (pl_select (\<lambda>s. map_option (playlist_select s) (List.find (owned telegram_id i) (pd_playlists s)))) (from_option playlist_not_found)"

definition favorites_row :: "i64 \<Rightarrow> playlist_row" where
  "favorites_row telegram_id =
     \<lparr>pl_id = lit (''favorites-'' @ show_int telegram_id), pl_telegram_id = telegram_id, pl_name = lit ''Favorites'', pl_is_favorites = True,
      pl_source_url = None, pl_created_at = 0, pl_updated_at = 0\<rparr>"

definition ensure_favorites :: "i64 \<Rightarrow> nat plio" where
  "ensure_favorites telegram_id s =
     (if list_ex (\<lambda>p. pl_telegram_id p = telegram_id \<and> pl_is_favorites p) (pd_playlists s)
      then rs_bind (pl_call DbDatabase) (\<lambda>_. rs_ret 0) s
      else insert_playlist (favorites_row telegram_id) s)"

definition list_playlists :: "i64 \<Rightarrow> playlist list plio" where
  "list_playlists telegram_id =
     rs_bind pl_connection (\<lambda>_.
     rs_bind (ensure_favorites telegram_id) (\<lambda>_.
     pl_select (\<lambda>s. map (playlist_select s)
       (sort_key (\<lambda>p. - int (pl_updated_at p)) (filter (\<lambda>p. pl_telegram_id p = telegram_id \<and> \<not> pl_is_favorites p) (pd_playlists s))))))"

definition lock_user_playlists :: "i64 \<Rightarrow> unit plio" where
  "lock_user_playlists telegram_id = pl_call DbDatabase"

definition customs :: "i64 \<Rightarrow> playlist_row list \<Rightarrow> nat" where
  "customs telegram_id ps = length (filter (\<lambda>p. pl_telegram_id p = telegram_id \<and> \<not> pl_is_favorites p) ps)"

definition custom_playlist_count :: "i64 \<Rightarrow> nat plio" where
  "custom_playlist_count telegram_id = pl_select (\<lambda>s. customs telegram_id (pd_playlists s))"

definition check_limit :: "i64 \<Rightarrow> unit plio" where
  "check_limit telegram_id =
     rs_bind (custom_playlist_count telegram_id) (\<lambda>count.
     if count \<ge> MAX_CUSTOM_PLAYLISTS then rs_fail playlist_limit_reached else rs_ret ())"

definition create_begin :: "i64 \<Rightarrow> unit plio" where
  "create_begin telegram_id = rs_bind (lock_user_playlists telegram_id) (\<lambda>_. check_limit telegram_id)"

definition custom_row :: "ustring \<Rightarrow> i64 \<Rightarrow> ustring \<Rightarrow> ustring option \<Rightarrow> playlist_row" where
  "custom_row new_id telegram_id name url =
     \<lparr>pl_id = new_id, pl_telegram_id = telegram_id, pl_name = name, pl_is_favorites = False, pl_source_url = url, pl_created_at = 0, pl_updated_at = 0\<rparr>"

definition create_finish :: "ustring \<Rightarrow> i64 \<Rightarrow> ustring \<Rightarrow> playlist plio" where
  "create_finish new_id telegram_id name =
     rs_bind (insert_playlist (custom_row new_id telegram_id name None)) (\<lambda>_. find_playlist telegram_id new_id)"

definition create_playlist :: "ustring \<Rightarrow> i64 \<Rightarrow> ustring \<Rightarrow> playlist plio" where
  "create_playlist new_id telegram_id name =
     rs_bind (from_result (normalize_name name)) (\<lambda>name.
     rs_bind pl_connection (\<lambda>_.
     in_transaction (rs_bind (create_begin telegram_id) (\<lambda>_. create_finish new_id telegram_id name))))"

definition touch :: "(playlist_row \<Rightarrow> bool) \<Rightarrow> nat plio" where
  "touch P = update_playlists P (\<lambda>now p. p\<lparr>pl_updated_at := now\<rparr>)"

definition rows_at :: "ustring \<Rightarrow> ustring list \<Rightarrow> playlist_track_row list" where
  "rows_at i track_ids = map (\<lambda>(n, t). \<lparr>pt_playlist_id = i, pt_position = int n, pt_track_id = t\<rparr>) (enumerate 0 track_ids)"

definition replace_tracks_for_playlist :: "ustring \<Rightarrow> ustring list \<Rightarrow> unit plio" where
  "replace_tracks_for_playlist i track_ids =
     rs_bind (delete_playlist_tracks (\<lambda>_ t. pt_playlist_id t = i)) (\<lambda>_.
     rs_bind (if track_ids = [] then rs_ret 0 else insert_playlist_tracks (rows_at i (map utrim track_ids))) (\<lambda>_.
     rs_bind (touch (\<lambda>p. pl_id p = i)) (\<lambda>_. rs_ret ())))"

text \<open>The playlist imported from the same source before, or permission for a new one.\<close>

definition import_begin :: "i64 \<Rightarrow> ustring \<Rightarrow> ustring option plio" where
  "import_begin telegram_id url =
     rs_bind (lock_user_playlists telegram_id) (\<lambda>_.
     rs_bind (pl_select (\<lambda>s. List.find (\<lambda>p. pl_telegram_id p = telegram_id \<and> pl_source_url p = Some url) (pd_playlists s))) (\<lambda>existing.
     case existing of
       Some p \<Rightarrow> rs_ret (Some (pl_id p))
     | None \<Rightarrow> rs_bind (check_limit telegram_id) (\<lambda>_. rs_ret None)))"

definition import_finish :: "ustring \<Rightarrow> i64 \<Rightarrow> ustring \<Rightarrow> ustring \<Rightarrow> ustring list \<Rightarrow> ustring option \<Rightarrow> playlist plio" where
  "import_finish new_id telegram_id name url track_ids existing =
     rs_bind (case existing of
         Some i \<Rightarrow> rs_bind (update_playlists (\<lambda>p. pl_id p = i) (\<lambda>now p. p\<lparr>pl_name := name, pl_updated_at := now\<rparr>)) (\<lambda>_. rs_ret i)
       | None \<Rightarrow> rs_bind (insert_playlist (custom_row new_id telegram_id name (Some url))) (\<lambda>_. rs_ret new_id)) (\<lambda>i.
     rs_bind (replace_tracks_for_playlist i track_ids) (\<lambda>_. find_playlist telegram_id i))"

definition valid_source :: "ustring \<Rightarrow> db_error + ustring" where
  "valid_source url =
     (let url = utrim url in if url = [] \<or> str_len url > 2048 then Inl (DbValidation ''Invalid playlist source URL'') else Inr url)"

definition import_playlist :: "ustring \<Rightarrow> i64 \<Rightarrow> ustring \<Rightarrow> ustring \<Rightarrow> ustring list \<Rightarrow> playlist plio" where
  "import_playlist new_id telegram_id name url track_ids =
     rs_bind (from_result (normalize_name name)) (\<lambda>name.
     rs_bind (from_result (validate_track_ids track_ids)) (\<lambda>_.
     rs_bind (from_result (valid_source url)) (\<lambda>url.
     rs_bind pl_connection (\<lambda>_.
     in_transaction (rs_bind (import_begin telegram_id url) (import_finish new_id telegram_id name url track_ids))))))"

definition get_playlist_on :: "i64 \<Rightarrow> ustring \<Rightarrow> playlist_detail plio" where
  "get_playlist_on telegram_id i =
     rs_bind (find_playlist telegram_id i) (\<lambda>p.
     rs_bind (pl_select (\<lambda>s. tracks_of s i)) (\<lambda>ts.
     rs_ret \<lparr>pe_playlist = p, pe_track_ids = ts\<rparr>))"

definition get_playlist :: "i64 \<Rightarrow> ustring \<Rightarrow> playlist_detail plio" where
  "get_playlist telegram_id i = rs_bind pl_connection (\<lambda>_. get_playlist_on telegram_id i)"

definition get_favorite_track_ids :: "i64 \<Rightarrow> ustring list \<Rightarrow> ustring set plio" where
  "get_favorite_track_ids telegram_id track_ids =
     (if track_ids = [] then rs_ret {}
      else rs_bind pl_connection (\<lambda>_. pl_select (\<lambda>s.
        set (map pt_track_id (filter (\<lambda>t. pt_track_id t \<in> set track_ids \<and>
          pt_playlist_id t \<in> set (map pl_id (filter (\<lambda>p. pl_telegram_id p = telegram_id \<and> pl_is_favorites p) (pd_playlists s)))) (pd_tracks s))))))"

definition rename_playlist :: "i64 \<Rightarrow> ustring \<Rightarrow> ustring \<Rightarrow> playlist plio" where
  "rename_playlist telegram_id i name =
     rs_bind (from_result (normalize_name name)) (\<lambda>name.
     rs_bind pl_connection (\<lambda>_.
     rs_bind (update_playlists (\<lambda>p. owned telegram_id i p \<and> \<not> pl_is_favorites p) (\<lambda>now p. p\<lparr>pl_name := name, pl_updated_at := now\<rparr>)) (\<lambda>updated.
     if updated = 0 then rs_fail playlist_not_found else find_playlist telegram_id i)))"

definition delete_playlist :: "i64 \<Rightarrow> ustring \<Rightarrow> unit plio" where
  "delete_playlist telegram_id i =
     rs_bind pl_connection (\<lambda>_.
     rs_bind (delete_playlists (\<lambda>p. owned telegram_id i p \<and> \<not> pl_is_favorites p)) (\<lambda>deleted.
     if deleted = 0 then rs_fail playlist_not_found else rs_ret ()))"

definition replace_playlist_tracks :: "i64 \<Rightarrow> ustring \<Rightarrow> ustring list \<Rightarrow> playlist_detail plio" where
  "replace_playlist_tracks telegram_id i track_ids =
     rs_bind (from_result (validate_track_ids track_ids)) (\<lambda>_.
     rs_bind pl_connection (\<lambda>_.
     in_transaction (
       rs_bind (find_playlist telegram_id i) (\<lambda>_.
       rs_bind (replace_tracks_for_playlist i track_ids) (\<lambda>_. get_playlist_on telegram_id i)))))"

text \<open>The deletion joins the track with a playlist of the user under the given identifier.\<close>

definition own_track :: "i64 \<Rightarrow> ustring \<Rightarrow> ustring \<Rightarrow> playlist_db \<Rightarrow> playlist_track_row \<Rightarrow> bool" where
  "own_track telegram_id i track_id s t \<longleftrightarrow>
     pt_playlist_id t = i \<and> list_ex (owned telegram_id i) (pd_playlists s) \<and> pt_track_id t = track_id"

definition remove_playlist_track :: "i64 \<Rightarrow> ustring \<Rightarrow> ustring \<Rightarrow> unit plio" where
  "remove_playlist_track telegram_id i track_id =
     rs_bind pl_connection (\<lambda>_.
     rs_bind (delete_playlist_tracks (own_track telegram_id i track_id)) (\<lambda>removed.
     if removed = 0 then rs_fail (DbNotFound ''Playlist track not found'')
     else rs_bind (touch (owned telegram_id i)) (\<lambda>_. rs_ret ())))"

section \<open>Endpoints\<close>

record playlist_response =
  pr_id :: ustring
  pr_name :: ustring
  pr_is_favorites :: bool
  pr_source_url :: "ustring option"
  pr_track_count :: nat
  pr_preview_track_ids :: "ustring list"

record playlist_detail_response =
  pq_playlist :: playlist_response
  pq_track_ids :: "ustring list"

type_synonym 'a endpoint = "(playlist_db, server_error, 'a) result_state"

definition PlaylistResponse_from :: "playlist \<Rightarrow> playlist_response" where
  "PlaylistResponse_from p =
     \<lparr>pr_id = py_id p, pr_name = py_name p, pr_is_favorites = py_is_favorites p, pr_source_url = py_source_url p,
      pr_track_count = py_track_count p, pr_preview_track_ids = py_preview_track_ids p\<rparr>"

definition PlaylistDetailResponse_from :: "playlist_detail \<Rightarrow> playlist_detail_response" where
  "PlaylistDetailResponse_from d = \<lparr>pq_playlist = PlaylistResponse_from (pe_playlist d), pq_track_ids = pe_track_ids d\<rparr>"

definition answer :: "('a \<Rightarrow> 'b) \<Rightarrow> 'a plio \<Rightarrow> 'b endpoint" where
  "answer f m s = (case m s of (Inr a, s') \<Rightarrow> (Inr (f a), s') | (Inl e, s') \<Rightarrow> (Inl (ServerError_from_db e), s'))"

definition list_endpoint :: "i64 \<Rightarrow> playlist_response list endpoint" where
  "list_endpoint user = answer (map PlaylistResponse_from) (list_playlists user)"

definition create_endpoint :: "ustring \<Rightarrow> i64 \<Rightarrow> ustring \<Rightarrow> (nat \<times> playlist_response) endpoint" where
  "create_endpoint new_id user name = answer (\<lambda>p. (201, PlaylistResponse_from p)) (create_playlist new_id user name)"

definition import_endpoint :: "ustring \<Rightarrow> i64 \<Rightarrow> ustring \<Rightarrow> ustring \<Rightarrow> ustring list \<Rightarrow> playlist_response endpoint" where
  "import_endpoint new_id user name url track_ids =
     (if \<not> is_prefix (lit ''https://www.youtube.com/playlist'') url \<and> \<not> is_prefix (lit ''https://music.youtube.com/playlist'') url
      then rs_fail (BadRequest ''Only public YouTube playlists can be imported'')
      else answer PlaylistResponse_from (import_playlist new_id user name url track_ids))"

definition get_endpoint :: "i64 \<Rightarrow> ustring \<Rightarrow> playlist_detail_response endpoint" where
  "get_endpoint user i = answer PlaylistDetailResponse_from (get_playlist user i)"

definition rename_endpoint :: "i64 \<Rightarrow> ustring \<Rightarrow> ustring \<Rightarrow> playlist_response endpoint" where
  "rename_endpoint user i name = answer PlaylistResponse_from (rename_playlist user i name)"

definition delete_endpoint :: "i64 \<Rightarrow> ustring \<Rightarrow> nat endpoint" where
  "delete_endpoint user i = answer (\<lambda>_. 204) (delete_playlist user i)"

definition replace_endpoint :: "i64 \<Rightarrow> ustring \<Rightarrow> ustring list \<Rightarrow> playlist_detail_response endpoint" where
  "replace_endpoint user i track_ids = answer PlaylistDetailResponse_from (replace_playlist_tracks user i track_ids)"

section \<open>What statements do\<close>

text \<open>A fault is taken from the list before the statement is applied; the tables a computation finds are those of \<open>s\<close>.\<close>

lemma pl_call_wp: "(\<And>fs. Q () (s\<lparr>pd_faults := fs\<rparr>)) \<Longrightarrow> (\<And>e fs. E (err e) (s\<lparr>pd_faults := fs\<rparr>)) \<Longrightarrow> rs_wp (pl_call err) Q E s"
proof -
  assume q: "\<And>fs. Q () (s\<lparr>pd_faults := fs\<rparr>)" and e: "\<And>e fs. E (err e) (s\<lparr>pd_faults := fs\<rparr>)"
  from q [of "pd_faults s"] have "Q () s" by simp
  with q e show ?thesis by (auto simp: rs_wp_def pl_call_def split: list.splits option.splits)
qed

lemma pl_select_wp:
  "(\<And>fs. Q (f (s\<lparr>pd_faults := fs\<rparr>)) (s\<lparr>pd_faults := fs\<rparr>)) \<Longrightarrow> (\<And>e fs. E e (s\<lparr>pd_faults := fs\<rparr>)) \<Longrightarrow> rs_wp (pl_select f) Q E s"
  unfolding pl_select_def wp_bind by (rule pl_call_wp) (simp_all add: rs_wp_def)

lemma pl_execute_wp:
  assumes "\<And>fs. schema_ok (s\<lparr>pd_faults := fs, pd_playlists := f (s\<lparr>pd_faults := fs\<rparr>), pd_tracks := g (s\<lparr>pd_faults := fs\<rparr>)\<rparr>) \<Longrightarrow>
      Q (n (s\<lparr>pd_faults := fs\<rparr>)) (s\<lparr>pd_faults := fs, pd_playlists := f (s\<lparr>pd_faults := fs\<rparr>), pd_tracks := g (s\<lparr>pd_faults := fs\<rparr>)\<rparr>)"
    and "\<And>e fs. E e (s\<lparr>pd_faults := fs\<rparr>)"
  shows "rs_wp (pl_execute n f g) Q E s"
  unfolding pl_execute_def wp_bind by (rule pl_call_wp) (use assms in \<open>auto simp: rs_wp_def\<close>)

lemma wp_snd: "rs_wp m (\<lambda>_. I) (\<lambda>_. I) s \<longleftrightarrow> I (snd (m s))"
  by (cases "m s"; cases "fst (m s)") (simp_all add: rs_wp_def)

lemma preserves_wp: "preserves I m \<longleftrightarrow> (\<forall>s. I s \<longrightarrow> rs_wp m (\<lambda>_. I) (\<lambda>_. I) s)"
  by (simp add: preserves_def wp_snd)

text \<open>Properties of the tables alone.\<close>

definition table_property :: "(playlist_db \<Rightarrow> bool) \<Rightarrow> bool" where
  "table_property I \<longleftrightarrow> (\<forall>s s'. I s \<longrightarrow> pd_users s' = pd_users s \<longrightarrow> pd_playlists s' = pd_playlists s \<longrightarrow> pd_tracks s' = pd_tracks s \<longrightarrow> I s')"

lemma table_propertyD: "table_property I \<Longrightarrow> I s \<Longrightarrow> I (s\<lparr>pd_faults := fs\<rparr>)"
  by (simp add: table_property_def)

lemma pl_call_preserves [intro]: "table_property I \<Longrightarrow> preserves I (pl_call err)"
  by (simp add: preserves_wp pl_call_wp table_propertyD)

lemma pl_select_preserves [intro]: "table_property I \<Longrightarrow> preserves I (pl_select f)"
  by (simp add: preserves_wp pl_select_wp table_propertyD)

lemma pl_execute_preserves:
  assumes "table_property I"
    and "\<And>s s'. I s \<Longrightarrow> schema_ok s' \<Longrightarrow> pd_users s' = pd_users s \<Longrightarrow> pd_playlists s' = f s \<Longrightarrow> pd_tracks s' = g s \<Longrightarrow> I s'"
  shows "preserves I (pl_execute n f g)"
  unfolding preserves_wp
proof (intro allI impI pl_execute_wp, goal_cases)
  case (1 s fs)
  with assms(2) [of "s\<lparr>pd_faults := fs\<rparr>"] table_propertyD [OF assms(1)] show ?case by simp
qed (use assms(1) in \<open>blast intro: table_propertyD\<close>)

lemma pl_connection_preserves [intro]: "table_property I \<Longrightarrow> preserves I pl_connection"
  by (simp add: pl_connection_def pl_call_preserves)

lemma find_playlist_preserves [intro]: "table_property I \<Longrightarrow> preserves I (find_playlist u i)"
  unfolding find_playlist_def by blast

lemma get_playlist_on_preserves [intro]: "table_property I \<Longrightarrow> preserves I (get_playlist_on u i)"
  unfolding get_playlist_on_def by blast

lemma create_begin_preserves [intro]: "table_property I \<Longrightarrow> preserves I (create_begin u)"
  unfolding create_begin_def lock_user_playlists_def check_limit_def custom_playlist_count_def by blast

lemma import_begin_preserves [intro]: "table_property I \<Longrightarrow> preserves I (import_begin u url)"
  unfolding import_begin_def lock_user_playlists_def check_limit_def custom_playlist_count_def
  by (auto split: option.split)

lemma finish_transaction_ok:
  assumes "table_property I" "I s" "\<And>a s'. body = (Inr a, s') \<Longrightarrow> I s'" "pd_users (snd body) = pd_users s"
  shows "I (snd (finish_transaction s body))"
proof -
  have faults: "\<exists>fs. snd (pl_call DbDatabase s') = s'\<lparr>pd_faults := fs\<rparr>" for s' :: playlist_db
    by (auto simp: pl_call_def split: list.splits option.splits) (metis (full_types) playlist_db.surjective playlist_db.update_convs(5))
  have undo: "I (undone s s'')" if "pd_users s'' = pd_users s" for s''
    using assms(1,2) that by (simp add: table_property_def undone_def)
  obtain r s' where body: "body = (r, s')" by force
  obtain q s'' where call: "pl_call DbDatabase s' = (q, s'')" by force
  obtain fs where fs: "s'' = s'\<lparr>pd_faults := fs\<rparr>" using faults [of s'] call by auto
  with assms body undo [of s''] call show ?thesis
    by (cases r; cases q) (auto simp: finish_transaction_def intro: table_propertyD)
qed

lemma pl_call_users [intro!]: "keeps pd_users (pl_call err)"
  by (auto simp: keeps_def pl_call_def split: list.splits option.splits)

lemma statements_keep_users [intro!]: "keeps pd_users (pl_select f)" "keeps pd_users (pl_execute n g h)"
  unfolding pl_select_def pl_execute_def by (rule keeps_bind, rule pl_call_users, simp add: keeps_def)+

lemmas statement_defs = insert_playlist_def update_playlists_def delete_playlists_def delete_playlist_tracks_def insert_playlist_tracks_def touch_def

lemma find_playlist_users [intro!]: "keeps pd_users (find_playlist u i)"
  unfolding find_playlist_def by blast

lemma replace_tracks_users [intro!]: "keeps pd_users (replace_tracks_for_playlist i ids)"
  unfolding replace_tracks_for_playlist_def statement_defs by auto

lemma create_users [intro!]: "keeps pd_users (create_begin u)" "keeps pd_users (create_finish new_id u name)"
  unfolding create_begin_def create_finish_def lock_user_playlists_def check_limit_def custom_playlist_count_def insert_playlist_def by auto

lemma import_users [intro!]: "keeps pd_users (import_begin u url)" "keeps pd_users (import_finish new_id u name url ids existing)"
  unfolding import_begin_def import_finish_def lock_user_playlists_def check_limit_def custom_playlist_count_def insert_playlist_def update_playlists_def
  by (auto split: option.split)

lemma get_playlist_on_users [intro!]: "keeps pd_users (get_playlist_on u i)"
  unfolding get_playlist_on_def by blast

lemma finish_preserves:
  assumes "table_property I" "keeps pd_users body" "I s" "rs_wp body (\<lambda>_. I) (\<lambda>_ _. True) s"
  shows "I (snd (finish_transaction s (body s)))"
  by (rule finish_transaction_ok [OF assms(1,3)]) (use assms(2,4) in \<open>auto simp: rs_wp_def keeps_def\<close>)

lemma in_transaction_preserves:
  assumes "table_property I" "keeps pd_users body" "\<And>s. I s \<Longrightarrow> rs_wp body (\<lambda>_. I) (\<lambda>_ _. True) s"
  shows "preserves I (in_transaction body)"
proof -
  have "preserves I (\<lambda>s. finish_transaction s (body s))" using finish_preserves [OF assms(1,2)] assms(3) by (simp add: preserves_def)
  then show ?thesis unfolding in_transaction_def using assms(1) by (intro preserves_bind pl_call_preserves)
qed

lemma preserves_weak: "preserves I m \<Longrightarrow> I s \<Longrightarrow> rs_wp m (\<lambda>_. I) (\<lambda>_ _. True) s"
  by (auto simp: preserves_wp intro: wp_mono)

section \<open>Limits\<close>

text \<open>
  The schema holds, every user has no more playlists of their own than a bound, and no playlist has more tracks than allowed.
\<close>

definition held :: "ustring \<Rightarrow> playlist_track_row list \<Rightarrow> nat" where
  "held i ts = length (filter (\<lambda>t. pt_playlist_id t = i) ts)"

definition bounded :: "(i64 \<Rightarrow> nat) \<Rightarrow> playlist_db \<Rightarrow> bool" where
  "bounded b s \<longleftrightarrow> schema_ok s \<and> (\<forall>u. customs u (pd_playlists s) \<le> b u) \<and>
     (\<forall>i. held i (pd_tracks s) \<le> MAX_PLAYLIST_TRACKS)"

lemma bounded_tables [simp]: "table_property (bounded b)"
  by (simp add: table_property_def bounded_def schema_ok_def)

lemma customs_map [simp]:
  assumes "\<And>p. pl_telegram_id (f p) = pl_telegram_id p" "\<And>p. pl_is_favorites (f p) = pl_is_favorites p"
  shows "customs u (map f ps) = customs u ps"
  using assms by (simp add: customs_def filter_map o_def)

lemma customs_filter: "customs u (filter P ps) \<le> customs u ps"
  by (induction ps) (auto simp: customs_def)

lemma held_filter: "held i (filter P ts) \<le> held i ts"
  by (induction ts) (auto simp: held_def)

lemma update_bounded:
  assumes "\<And>t p. pl_telegram_id (f t p) = pl_telegram_id p" "\<And>t p. pl_is_favorites (f t p) = pl_is_favorites p"
  shows "preserves (bounded b) (update_playlists P f)"
  unfolding update_playlists_def by (rule pl_execute_preserves) (use assms in \<open>auto simp: bounded_def\<close>)

lemma touch_bounded [intro]: "preserves (bounded b) (touch P)"
  unfolding touch_def by (rule update_bounded) simp_all

lemma delete_playlists_bounded [intro]: "preserves (bounded b) (delete_playlists P)"
  unfolding delete_playlists_def
  by (rule pl_execute_preserves) (auto simp: bounded_def intro: order_trans [OF customs_filter] order_trans [OF held_filter])

lemma delete_tracks_bounded [intro]: "preserves (bounded b) (delete_playlist_tracks P)"
  unfolding delete_playlist_tracks_def
  by (rule pl_execute_preserves) (auto simp: bounded_def intro: order_trans [OF held_filter])

lemma insert_playlist_wp:
  assumes "bounded b s"
  shows "rs_wp (insert_playlist row) (\<lambda>_. bounded (b(pl_telegram_id row := b (pl_telegram_id row) + (if pl_is_favorites row then 0 else 1)))) (\<lambda>_. bounded b) s"
  unfolding insert_playlist_def
  by (rule pl_execute_wp) (use assms in \<open>auto simp: bounded_def schema_ok_def customs_def\<close>)

lemma held_none [simp]: "held i (filter (\<lambda>t. pt_playlist_id t \<noteq> i) ts) = 0"
  by (simp add: held_def filter_empty_conv)

lemma delete_own_wp:
  assumes "bounded b s"
  shows "rs_wp (delete_playlist_tracks (\<lambda>_ t. pt_playlist_id t = i)) (\<lambda>_ s'. bounded b s' \<and> held i (pd_tracks s') = 0) (\<lambda>_. bounded b) s"
  unfolding delete_playlist_tracks_def
  by (rule pl_execute_wp) (use assms in \<open>auto simp: bounded_def schema_ok_def intro: order_trans [OF held_filter]\<close>)

lemma insert_tracks_wp:
  assumes "bounded b s" "held i (pd_tracks s) = 0" "\<And>t. t \<in> set ts \<Longrightarrow> pt_playlist_id t = i" "length ts \<le> MAX_PLAYLIST_TRACKS"
  shows "rs_wp (insert_playlist_tracks ts) (\<lambda>_. bounded b) (\<lambda>_. bounded b) s"
proof -
  have "held j ts = (if j = i then length ts else 0)" for j using assms(3) by (induction ts) (auto simp: held_def)
  then have "held j (pd_tracks s @ ts) \<le> MAX_PLAYLIST_TRACKS" for j using assms(1,2,4) by (auto simp: bounded_def held_def)
  then show ?thesis unfolding insert_playlist_tracks_def
    by (intro pl_execute_wp) (use assms(1) in \<open>auto simp: bounded_def schema_ok_def\<close>)
qed

lemma rows_at_own: "t \<in> set (rows_at i ids) \<Longrightarrow> pt_playlist_id t = i"
  by (auto simp: rows_at_def)

lemma rows_at_length [simp]: "length (rows_at i ids) = length ids"
  by (simp add: rows_at_def)

lemma replace_tracks_bounded:
  assumes "length ids \<le> MAX_PLAYLIST_TRACKS"
  shows "preserves (bounded b) (replace_tracks_for_playlist i ids)"
  unfolding preserves_wp replace_tracks_for_playlist_def wp_bind
proof (intro allI impI)
  fix s assume s: "bounded b s"
  have touched: "rs_wp (touch (\<lambda>p. pl_id p = i)) (\<lambda>_. rs_wp (rs_ret ()) (\<lambda>_. bounded b) (\<lambda>_. bounded b)) (\<lambda>_. bounded b) s'" if "bounded b s'" for s'
    using touch_bounded that by (simp add: preserves_wp wp_ret)
  show "rs_wp (delete_playlist_tracks (\<lambda>_ t. pt_playlist_id t = i)) (\<lambda>_. rs_wp (if ids = [] then rs_ret 0 else insert_playlist_tracks (rows_at i (map utrim ids)))
      (\<lambda>_. rs_wp (touch (\<lambda>p. pl_id p = i)) (\<lambda>_. rs_wp (rs_ret ()) (\<lambda>_. bounded b) (\<lambda>_. bounded b)) (\<lambda>_. bounded b)) (\<lambda>_. bounded b)) (\<lambda>_. bounded b) s"
  proof (rule wp_mono [OF delete_own_wp [OF s]], goal_cases)
    case (1 n s1)
    show ?case
    proof (cases "ids = []")
      case False
      have "rs_wp (insert_playlist_tracks (rows_at i (map utrim ids))) (\<lambda>_. bounded b) (\<lambda>_. bounded b) s1"
        using 1 assms by (auto intro!: insert_tracks_wp [where i = i] dest: rows_at_own)
      then show ?thesis using False by (auto intro: wp_mono touched)
    qed (use 1 touched in \<open>simp add: wp_ret\<close>)
  qed simp
qed

lemma valid_ids_length: "validate_track_ids ids = Inr () \<Longrightarrow> length ids \<le> MAX_PLAYLIST_TRACKS"
  by (auto simp: validate_track_ids_def split: if_splits)

text \<open>Every operation but creation and import keeps any bound.\<close>

lemma replace_playlist_tracks_bounded: "preserves (bounded b) (replace_playlist_tracks u i ids)"
proof (cases "validate_track_ids ids")
  case (Inr v)
  then have body: "preserves (bounded b) (rs_bind (find_playlist u i) (\<lambda>_. rs_bind (replace_tracks_for_playlist i ids) (\<lambda>_. get_playlist_on u i)))"
    by (auto intro!: replace_tracks_bounded valid_ids_length)
  have "preserves (bounded b) (in_transaction (rs_bind (find_playlist u i) (\<lambda>_. rs_bind (replace_tracks_for_playlist i ids) (\<lambda>_. get_playlist_on u i))))"
    by (rule in_transaction_preserves) (auto intro: preserves_weak [OF body])
  then show ?thesis unfolding replace_playlist_tracks_def Inr by (auto simp: from_result_def)
next
  case (Inl e)
  have "rs_bind (from_result (Inl e)) f = rs_fail e" for f :: "unit \<Rightarrow> playlist_detail plio" by (simp add: fun_eq_iff rs_bind_def from_result_def rs_fail_def)
  then show ?thesis unfolding replace_playlist_tracks_def Inl by auto
qed

lemma list_playlists_bounded: "preserves (bounded b) (list_playlists u)"
proof -
  have "preserves (bounded b) (ensure_favorites u)"
    unfolding preserves_wp
  proof (intro allI impI)
    fix s assume s: "bounded b s"
    show "rs_wp (ensure_favorites u) (\<lambda>_. bounded b) (\<lambda>_. bounded b) s"
    proof (cases "list_ex (\<lambda>p. pl_telegram_id p = u \<and> pl_is_favorites p) (pd_playlists s)")
      case True
      have "preserves (bounded b) (rs_bind (pl_call DbDatabase) (\<lambda>_. rs_ret (0 :: nat)))" by auto
      with True s show ?thesis by (simp add: ensure_favorites_def wp_snd preserves_def)
    next
      case False
      then have run: "ensure_favorites u s = insert_playlist (favorites_row u) s" by (simp add: ensure_favorites_def)
      show ?thesis using insert_playlist_wp [OF s, of "favorites_row u"] by (simp add: wp_snd run favorites_row_def)
    qed
  qed
  then show ?thesis unfolding list_playlists_def by auto
qed

lemma other_operations_bounded:
  "preserves (bounded b) (get_playlist u i)" "preserves (bounded b) (get_favorite_track_ids u ids)" "preserves (bounded b) (rename_playlist u i name)"
  "preserves (bounded b) (delete_playlist u i)" "preserves (bounded b) (remove_playlist_track u i t)"
  unfolding get_playlist_def get_favorite_track_ids_def rename_playlist_def delete_playlist_def remove_playlist_track_def
  by (auto intro!: update_bounded)

section \<open>Concurrent requests\<close>

text \<open>
  The first phase of a creation or an import holds the lock of its user and has written nothing; requests of all users, the
  clock, faults and changes of the accounts may come before its second phase.
\<close>

definition open_transaction :: "'a plio \<Rightarrow> 'a plio" where
  "open_transaction body =
     rs_bind (pl_call DbDatabase) (\<lambda>_ s.
       case body s of (Inr a, s') \<Rightarrow> (Inr a, s') | (Inl e, s') \<Rightarrow> (Inl e, undone s (snd (pl_call DbDatabase s'))))"

definition create_open :: "i64 \<Rightarrow> ustring \<Rightarrow> ustring plio" where
  "create_open telegram_id name =
     rs_bind (from_result (normalize_name name)) (\<lambda>name.
     rs_bind pl_connection (\<lambda>_.
     rs_bind (open_transaction (create_begin telegram_id)) (\<lambda>_. rs_ret name)))"

definition import_open :: "i64 \<Rightarrow> ustring \<Rightarrow> ustring \<Rightarrow> ustring list \<Rightarrow> (ustring \<times> ustring \<times> ustring option) plio" where
  "import_open telegram_id name url track_ids =
     rs_bind (from_result (normalize_name name)) (\<lambda>name.
     rs_bind (from_result (validate_track_ids track_ids)) (\<lambda>_.
     rs_bind (from_result (valid_source url)) (\<lambda>url.
     rs_bind pl_connection (\<lambda>_.
     rs_bind (open_transaction (import_begin telegram_id url)) (\<lambda>existing. rs_ret (name, url, existing))))))"

text \<open>Without an interruption the two phases are the operation.\<close>

definition tables :: "playlist_db \<Rightarrow> playlist_row list \<times> playlist_track_row list" where
  "tables s = (pd_playlists s, pd_tracks s)"

lemma transaction_split:
  assumes "keeps tables b"
  shows "in_transaction (rs_bind b f) s = (case open_transaction b s of (Inl e, s') \<Rightarrow> (Inl e, s') | (Inr a, s') \<Rightarrow> finish_transaction s' (f a s'))"
proof -
  have same: "tables s2 = tables s1" if "b s1 = (r, s2)" for s1 r s2 using keepsD [OF assms that] .
  show ?thesis
    by (auto simp: in_transaction_def open_transaction_def rs_bind_def finish_transaction_def undone_def tables_def
        split: prod.splits sum.splits dest!: same)
qed

lemma pl_call_tables [intro!]: "keeps tables (pl_call err)"
  by (auto simp: keeps_def pl_call_def tables_def split: list.splits option.splits)

lemma pl_select_tables [intro!]: "keeps tables (pl_select f)"
  unfolding pl_select_def by (rule keeps_bind [OF pl_call_tables]) (simp add: keeps_def)

lemma begin_keeps_tables: "keeps tables (create_begin u)" "keeps tables (import_begin u url)"
  unfolding create_begin_def import_begin_def lock_user_playlists_def check_limit_def custom_playlist_count_def
  by (auto split: option.split)

lemma create_in_phases:
  "create_playlist new_id u name s =
     (case create_open u name s of (Inl e, s') \<Rightarrow> (Inl e, s') | (Inr n, s') \<Rightarrow> finish_transaction s' (create_finish new_id u n s'))"
  by (auto simp: create_playlist_def create_open_def rs_bind_def from_result_def rs_ret_def rs_fail_def transaction_split [OF begin_keeps_tables(1)]
      split: prod.splits sum.splits)

lemma import_in_phases:
  "import_playlist new_id u name url ids s =
     (case import_open u name url ids s of (Inl e, s') \<Rightarrow> (Inl e, s') | (Inr (n, l, x), s') \<Rightarrow> finish_transaction s' (import_finish new_id u n l ids x s'))"
  by (auto simp: import_playlist_def import_open_def rs_bind_def from_result_def rs_ret_def rs_fail_def transaction_split [OF begin_keeps_tables(2)]
      split: prod.splits sum.splits)

datatype pending_playlist =
    PendingCreate ustring ustring
  | PendingImport ustring ustring ustring "ustring list" "ustring option"

record playlist_world =
  pw_db :: playlist_db
  pw_open :: "(i64, pending_playlist) hash_map"

datatype playlist_op =
    OpList
  | OpGet ustring
  | OpFavorites "ustring list"
  | OpRename ustring ustring
  | OpDelete ustring
  | OpReplace ustring "ustring list"
  | OpRemove ustring ustring

datatype playlist_event =
    BeginCreate i64 ustring ustring
  | BeginImport i64 ustring ustring ustring "ustring list"
  | FinishPending i64
  | PlaylistRequest i64 playlist_op
  | DbClock nat "string option list"
  | AddUser i64
  | RemoveUser i64

fun run_op :: "i64 \<Rightarrow> playlist_op \<Rightarrow> playlist_db \<Rightarrow> playlist_db" where
  "run_op u OpList s = snd (list_endpoint u s)"
| "run_op u (OpGet i) s = snd (get_endpoint u i s)"
| "run_op u (OpFavorites ids) s = snd (get_favorite_track_ids u ids s)"
| "run_op u (OpRename i name) s = snd (rename_endpoint u i name s)"
| "run_op u (OpDelete i) s = snd (delete_endpoint u i s)"
| "run_op u (OpReplace i ids) s = snd (replace_endpoint u i ids s)"
| "run_op u (OpRemove i t) s = snd (remove_playlist_track u i t s)"

fun finish_of :: "i64 \<Rightarrow> pending_playlist \<Rightarrow> playlist_db \<Rightarrow> playlist_db" where
  "finish_of u (PendingCreate new_id name) s = snd (finish_transaction s (create_finish new_id u name s))"
| "finish_of u (PendingImport new_id name url ids existing) s = snd (finish_transaction s (import_finish new_id u name url ids existing s))"

text \<open>The rows of a removed account go with it.\<close>

definition drop_user :: "i64 \<Rightarrow> playlist_db \<Rightarrow> playlist_db" where
  "drop_user u s =
     s\<lparr>pd_users := removeAll u (pd_users s),
       pd_playlists := filter (\<lambda>p. pl_telegram_id p \<noteq> u) (pd_playlists s),
       pd_tracks := filter (\<lambda>t. pt_playlist_id t \<in> set (map pl_id (filter (\<lambda>p. pl_telegram_id p \<noteq> u) (pd_playlists s)))) (pd_tracks s)\<rparr>"

text \<open>A second creation or import of a user waits for the lock: it begins only when the first has ended.\<close>

definition begin_phase :: "i64 \<Rightarrow> pending_playlist plio \<Rightarrow> playlist_world \<Rightarrow> playlist_world" where
  "begin_phase u m w =
     (if hm_get (pw_open w) u \<noteq> None then w
      else case m (pw_db w) of
        (Inr p, s) \<Rightarrow> w\<lparr>pw_db := s, pw_open := hm_insert u p (pw_open w)\<rparr>
      | (Inl e, s) \<Rightarrow> w\<lparr>pw_db := s\<rparr>)"

fun playlist_step :: "playlist_world \<Rightarrow> playlist_event \<Rightarrow> playlist_world" where
  "playlist_step w (BeginCreate u new_id name) =
     begin_phase u (rs_bind (create_open u name) (\<lambda>n. rs_ret (PendingCreate new_id n))) w"
| "playlist_step w (BeginImport u new_id name url ids) =
     begin_phase u (rs_bind (import_open u name url ids) (\<lambda>(n, l, existing). rs_ret (PendingImport new_id n l ids existing))) w"
| "playlist_step w (FinishPending u) =
     (case hm_get (pw_open w) u of
        None \<Rightarrow> w
      | Some p \<Rightarrow> w\<lparr>pw_db := finish_of u p (pw_db w), pw_open := hm_remove u (pw_open w)\<rparr>)"
| "playlist_step w (PlaylistRequest u r) = w\<lparr>pw_db := run_op u r (pw_db w)\<rparr>"
| "playlist_step w (DbClock t fs) = w\<lparr>pw_db := (pw_db w)\<lparr>pd_now := t, pd_faults := fs\<rparr>\<rparr>"
| "playlist_step w (AddUser u) = w\<lparr>pw_db := (pw_db w)\<lparr>pd_users := u # pd_users (pw_db w)\<rparr>\<rparr>"
| "playlist_step w (RemoveUser u) = w\<lparr>pw_db := drop_user u (pw_db w)\<rparr>"

definition playlist_world_init :: playlist_world where
  "playlist_world_init = \<lparr>pw_db = \<lparr>pd_users = [], pd_playlists = [], pd_tracks = [], pd_now = 0, pd_faults = []\<rparr>, pw_open = []\<rparr>"

text \<open>A transaction that has passed the limit keeps room for the playlist it will insert.\<close>

fun adds_one :: "pending_playlist option \<Rightarrow> bool" where
  "adds_one (Some (PendingCreate _ _)) \<longleftrightarrow> True"
| "adds_one (Some (PendingImport _ _ _ _ existing)) \<longleftrightarrow> existing = None"
| "adds_one None \<longleftrightarrow> False"

fun pending_ok :: "pending_playlist option \<Rightarrow> bool" where
  "pending_ok (Some (PendingImport _ _ _ ids _)) \<longleftrightarrow> length ids \<le> MAX_PLAYLIST_TRACKS"
| "pending_ok _ \<longleftrightarrow> True"

definition room :: "(i64, pending_playlist) hash_map \<Rightarrow> i64 \<Rightarrow> nat" where
  "room open u = (if adds_one (hm_get open u) then MAX_CUSTOM_PLAYLISTS - 1 else MAX_CUSTOM_PLAYLISTS)"

definition playlist_inv :: "playlist_world \<Rightarrow> bool" where
  "playlist_inv w \<longleftrightarrow> bounded (room (pw_open w)) (pw_db w) \<and> (\<forall>u. pending_ok (hm_get (pw_open w) u))"

lemma answer_snd [simp]: "snd (answer f m s) = snd (m s)"
  by (auto simp: answer_def split: prod.splits sum.splits)

lemma run_op_bounded: "bounded b s \<Longrightarrow> bounded b (run_op u r s)"
  using other_operations_bounded [of b] list_playlists_bounded [of b] replace_playlist_tracks_bounded [of b]
  by (cases r) (simp_all add: preserves_def list_endpoint_def get_endpoint_def rename_endpoint_def delete_endpoint_def replace_endpoint_def)

lemma schema_ok_filter:
  assumes "playlists_ok us ps" "tracks_checked ps ts"
  shows "playlists_ok (removeAll u us) (filter (\<lambda>p. pl_telegram_id p \<noteq> u) ps)"
    and "tracks_checked (filter P ps) (filter (\<lambda>t. pt_playlist_id t \<in> set (map pl_id (filter P ps))) ts)"
proof -
  have swap: "filter Q (filter R xs) = filter R (filter Q xs)" for Q R :: "playlist_row \<Rightarrow> bool" and xs by (simp add: conj_commute)
  show "playlists_ok (removeAll u us) (filter (\<lambda>p. pl_telegram_id p \<noteq> u) ps)"
    using assms(1) by (auto simp: playlists_ok_def swap [of _ "\<lambda>p. pl_telegram_id p \<noteq> u"] list_all_iff distinct_map_filter simp del: filter_filter)
  show "tracks_checked (filter P ps) (filter (\<lambda>t. pt_playlist_id t \<in> set (map pl_id (filter P ps))) ts)"
    using assms(2) by (auto simp: tracks_checked_def list_all_iff distinct_map_filter)
qed

lemma drop_user_bounded: "bounded b s \<Longrightarrow> bounded b (drop_user u s)"
  using schema_ok_filter(1) [of "pd_users s" "pd_playlists s" "pd_tracks s" u]
    schema_ok_filter(2) [of "pd_users s" "pd_playlists s" "pd_tracks s" "\<lambda>p. pl_telegram_id p \<noteq> u"]
  by (auto simp: bounded_def schema_ok_def drop_user_def intro: order_trans [OF customs_filter] order_trans [OF held_filter])

lemma bounded_mono: "bounded b s \<Longrightarrow> (\<And>u. b u \<le> c u) \<Longrightarrow> bounded c s"
  by (meson bounded_def order_trans)

lemma add_user_bounded: "bounded b s \<Longrightarrow> bounded b (s\<lparr>pd_users := u # pd_users s\<rparr>)"
  by (auto simp: bounded_def schema_ok_def playlists_ok_def list_all_iff)

lemma bounded_tighter: "bounded b s \<Longrightarrow> customs u (pd_playlists s) \<le> n \<Longrightarrow> bounded (b(u := n)) s"
  by (simp add: bounded_def)

text \<open>The first phase: nothing is written, and permission means that there is room for one more playlist.\<close>

definition below_limit :: "i64 \<Rightarrow> playlist_db \<Rightarrow> bool" where
  "below_limit u s \<longleftrightarrow> customs u (pd_playlists s) < MAX_CUSTOM_PLAYLISTS"

lemma check_limit_wp:
  assumes "bounded b s"
  shows "rs_wp (check_limit u) (\<lambda>_ s'. bounded b s' \<and> below_limit u s') (\<lambda>_. bounded b) s"
  unfolding check_limit_def custom_playlist_count_def wp_bind
  by (rule pl_select_wp) (use assms in \<open>auto simp: wp_if wp_fail wp_ret below_limit_def intro: table_propertyD [OF bounded_tables]\<close>)

lemma lock_wp: "bounded b s \<Longrightarrow> (\<And>s'. bounded b s' \<Longrightarrow> Q () s') \<Longrightarrow> rs_wp (lock_user_playlists u) Q (\<lambda>_. bounded b) s"
  unfolding lock_user_playlists_def by (rule pl_call_wp) (auto intro: table_propertyD [OF bounded_tables])

lemma create_begin_wp: "bounded b s \<Longrightarrow> rs_wp (create_begin u) (\<lambda>_ s'. bounded b s' \<and> below_limit u s') (\<lambda>_. bounded b) s"
  unfolding create_begin_def wp_bind by (rule lock_wp, assumption, rule check_limit_wp)

lemma import_begin_wp:
  assumes "bounded b s"
  shows "rs_wp (import_begin u url) (\<lambda>existing s'. bounded b s' \<and> (existing = None \<longrightarrow> below_limit u s')) (\<lambda>_. bounded b) s"
  unfolding import_begin_def wp_bind
proof (rule lock_wp [OF assms], rule pl_select_wp, goal_cases)
  case (1 s1 fs)
  then have "bounded b (s1\<lparr>pd_faults := fs\<rparr>)" by (rule table_propertyD [OF bounded_tables])
  then show ?case by (auto split: option.split simp: wp_bind wp_ret intro!: wp_mono [OF check_limit_wp])
next
  case (2 s1 e fs)
  then show ?case by (simp add: table_propertyD [OF bounded_tables])
qed

lemma open_transaction_wp:
  assumes "bounded b s" "keeps pd_users body" "\<And>s. bounded b s \<Longrightarrow> rs_wp body Q (\<lambda>_. bounded b) s"
  shows "rs_wp (open_transaction body) Q (\<lambda>_. bounded b) s"
  unfolding open_transaction_def wp_bind
proof (rule pl_call_wp, goal_cases)
  case (1 fs)
  define s1 where "s1 = s\<lparr>pd_faults := fs\<rparr>"
  have s1: "bounded b s1" unfolding s1_def using assms(1) by (rule table_propertyD [OF bounded_tables])
  obtain r s2 where body: "body s1 = (r, s2)" by force
  have "pd_users (snd (pl_call DbDatabase s2)) = pd_users s1"
    using keepsD [OF assms(2) body] pl_call_users [of DbDatabase] by (simp add: keeps_def)
  then have "bounded b (undone s1 (snd (pl_call DbDatabase s2)))"
    using s1 by (simp add: undone_def bounded_def schema_ok_def)
  with assms(3) [OF s1] body show ?case unfolding s1_def [symmetric] by (cases r) (simp_all add: rs_wp_def)
qed (use assms(1) in \<open>auto intro: table_propertyD [OF bounded_tables]\<close>)

lemma connection_wp: "bounded b s \<Longrightarrow> (\<And>s'. bounded b s' \<Longrightarrow> Q () s') \<Longrightarrow> rs_wp pl_connection Q (\<lambda>_. bounded b) s"
  unfolding pl_connection_def by (rule pl_call_wp) (auto intro: table_propertyD [OF bounded_tables])

lemma create_open_wp:
  assumes "bounded b s"
  shows "rs_wp (create_open u name) (\<lambda>_ s'. bounded b s' \<and> below_limit u s') (\<lambda>_. bounded b) s"
proof -
  have "rs_wp pl_connection (\<lambda>_. rs_wp (open_transaction (create_begin u)) (\<lambda>_ s'. bounded b s' \<and> below_limit u s') (\<lambda>_. bounded b)) (\<lambda>_. bounded b) s"
    by (rule connection_wp [OF assms], rule open_transaction_wp [OF _ create_users(1)], assumption, rule create_begin_wp)
  with assms show ?thesis unfolding create_open_def by (simp add: wp_bind wp_from_result wp_ret split: sum.split)
qed

lemma import_open_wp:
  assumes "bounded b s"
  shows "rs_wp (import_open u name url ids)
      (\<lambda>(n, l, existing) s'. bounded b s' \<and> (existing = None \<longrightarrow> below_limit u s') \<and> length ids \<le> MAX_PLAYLIST_TRACKS) (\<lambda>_. bounded b) s"
proof -
  have first: "rs_wp pl_connection (\<lambda>_. rs_wp (open_transaction (import_begin u l))
      (\<lambda>existing s'. bounded b s' \<and> (existing = None \<longrightarrow> below_limit u s')) (\<lambda>_. bounded b)) (\<lambda>_. bounded b) s" for l
    by (rule connection_wp [OF assms], rule open_transaction_wp [OF _ import_users(1)], assumption, rule import_begin_wp)
  show ?thesis
  proof (cases "validate_track_ids ids")
    case (Inr v)
    with valid_ids_length have len: "length ids \<le> MAX_PLAYLIST_TRACKS" by simp
    show ?thesis unfolding import_open_def
      using assms first len by (auto simp: Inr wp_bind wp_from_result wp_ret split: sum.split)
  next
    case (Inl e)
    show ?thesis unfolding import_open_def using assms by (auto simp: Inl wp_bind wp_from_result split: sum.split)
  qed
qed

text \<open>The second phase uses up that room.\<close>

lemma insert_custom_wp:
  assumes "bounded b s" "b u < n"
  shows "rs_wp (insert_playlist (custom_row new_id u name url)) (\<lambda>_. bounded (b(u := n))) (\<lambda>_ _. True) s"
  by (rule wp_mono [OF insert_playlist_wp [OF assms(1)]])
    (use assms(2) in \<open>auto simp: custom_row_def intro: bounded_mono\<close>)

lemma find_after: "bounded b s \<Longrightarrow> rs_wp (find_playlist u i) (\<lambda>_. bounded b) (\<lambda>_ _. True) s"
  by (rule preserves_weak) auto

lemma create_finish_wp: "bounded b s \<Longrightarrow> b u < n \<Longrightarrow> rs_wp (create_finish new_id u name) (\<lambda>_. bounded (b(u := n))) (\<lambda>_ _. True) s"
  unfolding create_finish_def wp_bind by (rule wp_mono [OF insert_custom_wp]) (auto intro: find_after)

lemma import_finish_wp:
  assumes "bounded b s" "length ids \<le> MAX_PLAYLIST_TRACKS" "if existing = None then b u < n else b u \<le> n"
  shows "rs_wp (import_finish new_id u name url ids existing) (\<lambda>_. bounded (b(u := n))) (\<lambda>_ _. True) s"
proof -
  let ?c = "b(u := n)"
  have replaced: "rs_wp (rs_bind (replace_tracks_for_playlist i ids) (\<lambda>_. find_playlist u i)) (\<lambda>_. bounded ?c) (\<lambda>_ _. True) s'" if "bounded ?c s'" for i s'
    by (rule preserves_weak) (use assms(2) that in \<open>auto intro: replace_tracks_bounded\<close>)
  have row: "rs_wp (case existing of
         Some i \<Rightarrow> rs_bind (update_playlists (\<lambda>p. pl_id p = i) (\<lambda>now p. p\<lparr>pl_name := name, pl_updated_at := now\<rparr>)) (\<lambda>_. rs_ret i)
       | None \<Rightarrow> rs_bind (insert_playlist (custom_row new_id u name (Some url))) (\<lambda>_. rs_ret new_id)) (\<lambda>_. bounded ?c) (\<lambda>_ _. True) s"
  proof (cases existing)
    case None
    with assms(3) insert_custom_wp [OF assms(1), of u n new_id name "Some url"] show ?thesis by (simp add: wp_bind wp_ret)
  next
    case (Some i)
    with assms have "bounded ?c s" by (auto intro: bounded_mono)
    then show ?thesis unfolding Some
      by (simp, intro preserves_weak) (auto intro!: update_bounded)
  qed
  have split: "rs_wp m (\<lambda>_. bounded ?c) (\<lambda>_ _. True) s \<Longrightarrow> (\<And>i s'. bounded ?c s' \<Longrightarrow> rs_wp (f i) (\<lambda>_. bounded ?c) (\<lambda>_ _. True) s')
      \<Longrightarrow> rs_wp (rs_bind m f) (\<lambda>_. bounded ?c) (\<lambda>_ _. True) s" for m :: "ustring plio" and f :: "ustring \<Rightarrow> playlist plio"
    unfolding wp_bind by (rule wp_mono)
  show ?thesis unfolding import_finish_def by (rule split [OF row replaced])
qed

lemma finish_of_bounded:
  assumes "bounded (room open) s" "hm_get open u = Some p" "pending_ok (Some p)"
  shows "bounded (room (hm_remove u open)) (finish_of u p s)"
proof -
  let ?b = "room open" and ?c = "(room open)(u := MAX_CUSTOM_PLAYLISTS)"
  have c: "room (hm_remove u open) = ?c" by (auto simp: room_def hm_get_remove fun_eq_iff)
  have less: "adds_one (Some p) \<Longrightarrow> ?b u < MAX_CUSTOM_PLAYLISTS" and le: "?b u \<le> MAX_CUSTOM_PLAYLISTS"
    using assms(2) by (auto simp: room_def MAX_CUSTOM_PLAYLISTS_def)
  have s: "bounded ?c s" by (rule bounded_mono [OF assms(1)]) (simp add: room_def)
  show ?thesis unfolding c
  proof (cases p)
    case (PendingCreate new_id name)
    with less create_finish_wp [OF assms(1)] have "rs_wp (create_finish new_id u name) (\<lambda>_. bounded ?c) (\<lambda>_ _. True) s" by simp
    with PendingCreate s show "bounded ?c (finish_of u p s)" by (simp add: finish_preserves create_users)
  next
    case (PendingImport new_id name url ids existing)
    with less le assms(3) have "rs_wp (import_finish new_id u name url ids existing) (\<lambda>_. bounded ?c) (\<lambda>_ _. True) s"
      by (intro import_finish_wp [OF assms(1)]) (auto split: if_splits)
    with PendingImport s show "bounded ?c (finish_of u p s)" by (simp add: finish_preserves import_users)
  qed
qed

lemma begin_phase_inv:
  assumes "playlist_inv w"
    "\<And>b s. bounded b s \<Longrightarrow> rs_wp m (\<lambda>p s'. bounded b s' \<and> (adds_one (Some p) \<longrightarrow> below_limit u s') \<and> pending_ok (Some p)) (\<lambda>_. bounded b) s"
  shows "playlist_inv (begin_phase u m w)"
proof (cases "hm_get (pw_open w) u = None")
  case True
  have s: "bounded (room (pw_open w)) (pw_db w)" using assms(1) by (simp add: playlist_inv_def)
  have new: "room (hm_insert u p (pw_open w)) = (room (pw_open w))(u := if adds_one (Some p) then MAX_CUSTOM_PLAYLISTS - 1 else MAX_CUSTOM_PLAYLISTS)" for p
    by (auto simp: room_def hm_get_insert fun_eq_iff)
  have old: "room (pw_open w) u = MAX_CUSTOM_PLAYLISTS" using True by (simp add: room_def)
  have after: "bounded (room (hm_insert u p (pw_open w))) s'"
    if "bounded (room (pw_open w)) s'" "adds_one (Some p) \<Longrightarrow> below_limit u s'" for p s'
    unfolding new by (rule bounded_tighter [OF that(1)]) (use that old in \<open>auto simp: below_limit_def bounded_def dest: spec [of _ u]\<close>)
  show ?thesis using assms(2) [OF s] assms(1) after True
    by (auto simp: begin_phase_def playlist_inv_def rs_wp_def hm_get_insert split: prod.splits sum.splits)
qed (use assms(1) in \<open>auto simp: begin_phase_def\<close>)

lemma create_phase_inv: "playlist_inv w \<Longrightarrow> playlist_inv (playlist_step w (BeginCreate u new_id name))"
  unfolding playlist_step.simps
  by (rule begin_phase_inv) (auto simp: wp_bind wp_ret intro: wp_mono [OF create_open_wp])

lemma import_phase_inv: "playlist_inv w \<Longrightarrow> playlist_inv (playlist_step w (BeginImport u new_id name url ids))"
  unfolding playlist_step.simps
  by (rule begin_phase_inv) (auto simp: wp_bind wp_ret split: prod.splits intro!: wp_mono [OF import_open_wp])

lemma playlist_inv_step: "playlist_inv w \<Longrightarrow> playlist_inv (playlist_step w e)"
proof (cases e)
  case (FinishPending u)
  assume w: "playlist_inv w"
  show ?thesis
  proof (cases "hm_get (pw_open w) u")
    case (Some p)
    with w have "bounded (room (hm_remove u (pw_open w))) (finish_of u p (pw_db w))"
      by (intro finish_of_bounded) (auto simp: playlist_inv_def dest: spec [of _ u])
    with w Some FinishPending show ?thesis by (simp add: playlist_inv_def hm_get_remove)
  qed (use w FinishPending in simp)
next
  case (DbClock t fs)
  assume "playlist_inv w"
  with DbClock show ?thesis by (simp add: playlist_inv_def bounded_def schema_ok_def)
qed (simp_all only: create_phase_inv import_phase_inv, simp_all add: playlist_inv_def run_op_bounded add_user_bounded drop_user_bounded)

lemma playlist_inv_init: "playlist_inv playlist_world_init"
  by (simp add: playlist_inv_def playlist_world_init_def bounded_def schema_ok_def playlists_ok_def tracks_checked_def customs_def held_def)

interpretation playlists: event_machine playlist_world_init playlist_step playlist_inv
  by unfold_locales (rule playlist_inv_init, rule playlist_inv_step)

lemma tracks_of_held: "length (tracks_of s i) = held i (pd_tracks s)"
  by (simp add: tracks_of_def held_def)

section \<open>The property\<close>


end
