(* ===== verification/Mirror_Policy.thy ===== *)
theory Mirror_Policy
  imports Prelude
begin

text \<open>
  \<open>crates/apple/src/mirror_policy.rs\<close>: the discovery of the mirror with its cache and its failure
  cool-down. HTTP (\<open>MirrorHttp::get\<close>) and the JSON parsers of the manifest and the status are
  arguments; the instants at which \<open>get_endpoint\<close> reads the clock are given. Every request it makes
  is returned, so that a theorem can say that there was none.
\<close>

record mirror_endpoint =
  me_mirror_url :: string
  me_api_key :: string

datatype mirror_error = MirrorMessage string | MirrorJson string

datatype mirror_http_error =
  HttpTimeout nat
| HttpCancelled
| HttpStatus nat
| HttpNetwork string

record cached_endpoint =
  ce_endpoint :: mirror_endpoint
  ce_expires_at :: instant

record mirror_failure =
  mf_time :: instant
  mf_error :: string

record policy_state =
  ps_cached :: "cached_endpoint option"
  ps_last_failure :: "mirror_failure option"

record mirror_config =
  mc_env_override :: "(string \<times> string) option"
  mc_failure_cooldown :: duration
  mc_cache_ttl :: duration
  mc_health_timeout :: duration

record mirror_manifest =
  mm_source :: "string option option"
  mm_mirrors :: "string option option"
  mm_key :: "string option"
  mm_api_key :: "string option"

record mirror_status =
  ms_wrapper_lossless_available :: "bool option"
  ms_wrapper_instances :: "nat option"

text \<open>The length of \<open>wrapper_instances\<close> is all the code looks at.\<close>

definition MirrorPolicyManager_new :: "(string \<times> string) option \<Rightarrow> mirror_config" where
  "MirrorPolicyManager_new env_override =
     \<lparr>mc_env_override = env_override, mc_failure_cooldown = from_secs 30,
      mc_cache_ttl = from_secs (60 * 60), mc_health_timeout = from_secs 8\<rparr>"

definition PolicyState_new :: policy_state where
  "PolicyState_new = \<lparr>ps_cached = None, ps_last_failure = None\<rparr>"

definition clear_cache :: "policy_state \<Rightarrow> policy_state" where
  "clear_cache st = st\<lparr>ps_cached := None, ps_last_failure := None\<rparr>"

definition cooling :: "mirror_config \<Rightarrow> instant \<Rightarrow> mirror_failure \<Rightarrow> bool" where
  "cooling cfg now f \<longleftrightarrow> now - mf_time f < mc_failure_cooldown cfg"

definition is_circuit_open :: "mirror_config \<Rightarrow> instant \<Rightarrow> policy_state \<Rightarrow> bool" where
  "is_circuit_open cfg now st = (case ps_last_failure st of Some f \<Rightarrow> cooling cfg now f | None \<Rightarrow> False)"

definition record_failure :: "instant \<Rightarrow> string \<Rightarrow> policy_state \<Rightarrow> policy_state" where
  "record_failure now e st = st\<lparr>ps_last_failure := Some \<lparr>mf_time = now, mf_error = e\<rparr>\<rparr>"

definition record_mirror_success :: "policy_state \<Rightarrow> policy_state" where
  "record_mirror_success st = st\<lparr>ps_last_failure := None\<rparr>"

definition trim_end_slash :: "string \<Rightarrow> string" where
  "trim_end_slash s = rev (dropWhile (\<lambda>c. c = CHR ''/'') (rev s))"

definition adapter_elapsed :: "mirror_http_error \<Rightarrow> duration \<Rightarrow> nat" where
  "adapter_elapsed e elapsed = (case e of HttpTimeout ms \<Rightarrow> ms | _ \<Rightarrow> as_millis elapsed mod 2 ^ 64)"

fun adapter_message :: "mirror_http_error \<Rightarrow> string" where
  "adapter_message (HttpTimeout _) = ''request timed out''"
| "adapter_message HttpCancelled = ''request cancelled''"
| "adapter_message (HttpNetwork m) = m"
| "adapter_message (HttpStatus s) = ''HTTP '' @ show_nat s"

definition failure_message :: "string \<Rightarrow> string \<Rightarrow> mirror_http_error \<Rightarrow> duration \<Rightarrow> string" where
  "failure_message status_text timeout_text e elapsed =
     (case e of
        HttpStatus s \<Rightarrow> status_text @ '' (HTTP '' @ show_nat s @ '')''
      | _ \<Rightarrow> timeout_text @ '' timed out after '' @ show_nat (adapter_elapsed e elapsed) @ ''ms: '' @ adapter_message e)"

text \<open>The instants of one call: at the checks, and before and after each request.\<close>

record mirror_times =
  mt_check :: instant
  mt_started :: instant
  mt_manifest :: instant
  mt_status_started :: instant
  mt_status :: instant

definition nonempty :: "string option \<Rightarrow> string option" where
  "nonempty v = (case v of Some s \<Rightarrow> if s = [] then None else Some s | None \<Rightarrow> None)"

definition or_else :: "'a option \<Rightarrow> 'a option \<Rightarrow> 'a option" where
  "or_else a b = (case a of Some x \<Rightarrow> Some x | None \<Rightarrow> b)"

definition manifest_mirror :: "mirror_manifest \<Rightarrow> string" where
  "manifest_mirror m =
     trim_end_slash (case or_else (nonempty (Option.bind (mm_source m) id)) (nonempty (Option.bind (mm_mirrors m) id)) of
                       Some s \<Rightarrow> s | None \<Rightarrow> [])"

definition manifest_key :: "mirror_manifest \<Rightarrow> string" where
  "manifest_key m = trim (case or_else (nonempty (mm_key m)) (mm_api_key m) of Some s \<Rightarrow> s | None \<Rightarrow> [])"

definition wrapper_offline :: "mirror_status \<Rightarrow> bool" where
  "wrapper_offline s \<longleftrightarrow> ms_wrapper_lossless_available s = Some False \<or> ms_wrapper_instances s = Some 0"

definition MANIFEST_URL :: string where
  "MANIFEST_URL = ''https://gist.githubusercontent.com/ManOfInfinity/ec6db79f031d58640c84b225c4c78cab/raw''"

text \<open>A request is its URL and, for the status, the API key; the user agent and the timeout are constant.\<close>

type_synonym mirror_request = "string \<times> string option"

definition check_status ::
  "(mirror_request \<Rightarrow> mirror_http_error + string) \<Rightarrow> (string \<Rightarrow> mirror_status option) \<Rightarrow> mirror_config \<Rightarrow>
   mirror_times \<Rightarrow> string \<Rightarrow> string \<Rightarrow> policy_state \<Rightarrow> (mirror_error + mirror_endpoint) \<times> policy_state" where
  "check_status http parse_status cfg ts mirror api_key st =
     (let fail = (\<lambda>message. (Inl (MirrorMessage message), record_failure (mt_status ts) message st))
      in case http (mirror @ ''/status'', Some api_key) of
           Inl e \<Rightarrow> fail (failure_message ''Mirror /status check failed'' ''Mirror /status check'' e
                           (mt_status ts - mt_status_started ts))
         | Inr body \<Rightarrow>
             let status = (case parse_status body of Some s \<Rightarrow> s
                           | None \<Rightarrow> \<lparr>ms_wrapper_lossless_available = None, ms_wrapper_instances = None\<rparr>)
             in if wrapper_offline status then fail ''Lossless wrapper is currently offline on mirror''
                else
                  let endpoint = \<lparr>me_mirror_url = mirror, me_api_key = api_key\<rparr>
                  in (Inr endpoint,
                      st\<lparr>ps_cached := Some \<lparr>ce_endpoint = endpoint, ce_expires_at = mt_status ts + mc_cache_ttl cfg\<rparr>,
                         ps_last_failure := None\<rparr>))"

definition discover ::
  "(mirror_request \<Rightarrow> mirror_http_error + string) \<Rightarrow> (string \<Rightarrow> string + mirror_manifest) \<Rightarrow>
   (string \<Rightarrow> mirror_status option) \<Rightarrow> mirror_config \<Rightarrow> mirror_times \<Rightarrow> policy_state \<Rightarrow>
   ((mirror_error + mirror_endpoint) \<times> policy_state) \<times> mirror_request list" where
  "discover http parse_manifest parse_status cfg ts st =
     (let fail = (\<lambda>message. (Inl (MirrorMessage message), record_failure (mt_manifest ts) message st))
      in case http (MANIFEST_URL, None) of
           Inl e \<Rightarrow> (fail (failure_message ''Failed to fetch mirror manifest'' ''Mirror manifest lookup'' e
                            (mt_manifest ts - mt_started ts)), [(MANIFEST_URL, None)])
         | Inr body \<Rightarrow>
             (case parse_manifest body of
                Inl e \<Rightarrow> ((Inl (MirrorJson e), st), [(MANIFEST_URL, None)])
              | Inr manifest \<Rightarrow>
                  let mirror = manifest_mirror manifest; api_key = manifest_key manifest
                  in if mirror = [] \<or> api_key = []
                     then (fail ''Mirror manifest returned empty apple endpoint or api key'', [(MANIFEST_URL, None)])
                     else (check_status http parse_status cfg ts mirror api_key st,
                           [(MANIFEST_URL, None), (mirror @ ''/status'', Some api_key)])))"

definition env_endpoint :: "mirror_config \<Rightarrow> mirror_endpoint option" where
  "env_endpoint cfg =
     (case mc_env_override cfg of
        Some (mirror_url, api_key) \<Rightarrow>
          if mirror_url \<noteq> [] \<and> api_key \<noteq> []
          then Some \<lparr>me_mirror_url = trim_end_slash mirror_url, me_api_key = api_key\<rparr> else None
      | None \<Rightarrow> None)"

definition remembered :: "mirror_config \<Rightarrow> instant \<Rightarrow> policy_state \<Rightarrow> (mirror_error + mirror_endpoint) option" where
  "remembered cfg now st =
     (case ps_last_failure st of
        Some f \<Rightarrow> if cooling cfg now f then Some (Inl (MirrorMessage (mf_error f))) else
          (case ps_cached st of
             Some c \<Rightarrow> if ce_expires_at c > now then Some (Inr (ce_endpoint c)) else None
           | None \<Rightarrow> None)
      | None \<Rightarrow>
          (case ps_cached st of
             Some c \<Rightarrow> if ce_expires_at c > now then Some (Inr (ce_endpoint c)) else None
           | None \<Rightarrow> None))"

definition get_endpoint ::
  "(mirror_request \<Rightarrow> mirror_http_error + string) \<Rightarrow> (string \<Rightarrow> string + mirror_manifest) \<Rightarrow>
   (string \<Rightarrow> mirror_status option) \<Rightarrow> mirror_config \<Rightarrow> mirror_times \<Rightarrow> bool \<Rightarrow> policy_state \<Rightarrow>
   ((mirror_error + mirror_endpoint) \<times> policy_state) \<times> mirror_request list" where
  "get_endpoint http parse_manifest parse_status cfg ts force_refresh st =
     (case env_endpoint cfg of
        Some e \<Rightarrow> ((Inr e, st), [])
      | None \<Rightarrow>
          (case (if force_refresh then None else remembered cfg (mt_check ts) st) of
             Some r \<Rightarrow> ((r, st), [])
           | None \<Rightarrow> discover http parse_manifest parse_status cfg ts st))"

section \<open>Endpoints and the circuit\<close>

lemma trim_end_slash_last: "trim_end_slash s \<noteq> [] \<Longrightarrow> last (trim_end_slash s) \<noteq> CHR ''/''"
  unfolding trim_end_slash_def by (metis (mono_tags) hd_dropWhile last_rev rev_is_Nil_conv)

definition endpoint_ok :: "mirror_endpoint \<Rightarrow> bool" where
  "endpoint_ok e \<longleftrightarrow> me_mirror_url e \<noteq> [] \<and> me_api_key e \<noteq> [] \<and> last (me_mirror_url e) \<noteq> CHR ''/''"

definition policy_ok :: "policy_state \<Rightarrow> bool" where
  "policy_ok st \<longleftrightarrow> (case ps_cached st of Some c \<Rightarrow> endpoint_ok (ce_endpoint c) | None \<Rightarrow> True)"

lemma check_status_cases:
  assumes "check_status http ps cfg ts mirror key st = (r, st')"
  shows "(\<exists>m. r = Inl (MirrorMessage m) \<and> st' = record_failure (mt_status ts) m st) \<or>
    (r = Inr \<lparr>me_mirror_url = mirror, me_api_key = key\<rparr> \<and>
     st' = st\<lparr>ps_cached := Some \<lparr>ce_endpoint = \<lparr>me_mirror_url = mirror, me_api_key = key\<rparr>,
       ce_expires_at = mt_status ts + mc_cache_ttl cfg\<rparr>, ps_last_failure := None\<rparr>)"
  using assms by (auto simp: check_status_def Let_def split: sum.splits if_splits)

lemma discover_cases:
  assumes "discover http pm ps cfg ts st = ((r, st'), reqs)"
  obtains m t where "r = Inl (MirrorMessage m)" "st' = record_failure t m st" "t \<in> {mt_manifest ts, mt_status ts}"
  | e where "r = Inl (MirrorJson e)" "st' = st"
  | e where "r = Inr e" "endpoint_ok e"
      "st' = st\<lparr>ps_cached := Some \<lparr>ce_endpoint = e, ce_expires_at = mt_status ts + mc_cache_ttl cfg\<rparr>, ps_last_failure := None\<rparr>"
  using assms check_status_cases trim_end_slash_last
  by (fastforce simp: discover_def endpoint_ok_def manifest_mirror_def Let_def split: sum.splits if_splits)

lemma get_endpoint_cases:
  assumes "get_endpoint http pm ps cfg ts force st = ((r, st'), reqs)" "mc_env_override cfg = None"
  shows "(\<not> force \<and> remembered cfg (mt_check ts) st = Some r \<and> st' = st \<and> reqs = []) \<or>
    discover http pm ps cfg ts st = ((r, st'), reqs)"
  using assms by (auto simp: get_endpoint_def env_endpoint_def split: option.splits if_splits)

lemma remembered_recorded:
  "now < t + mc_failure_cooldown cfg \<Longrightarrow> 0 < mc_failure_cooldown cfg \<Longrightarrow> remembered cfg now (record_failure t m st) = Some (Inl (MirrorMessage m))"
  by (auto simp: remembered_def record_failure_def cooling_def)

lemma get_endpoint_remembered:
  "mc_env_override cfg = None \<Longrightarrow> remembered cfg (mt_check ts) st = Some r \<Longrightarrow>
     get_endpoint http pm ps cfg ts False st = ((r, st), [])"
  by (simp add: get_endpoint_def env_endpoint_def)

text \<open>
  The mirror's answers are remembered. Without an override, an endpoint that discovery returns is usable
  (a non-empty address without a trailing slash and a non-empty key) and is returned again without
  any request until its time to live ends; a failure is returned again without any request until the
  cool-down ends; a manifest that is not JSON leaves the state as it was. The cache only ever holds
  usable endpoints.
\<close>

theorem mirror_answers_remembered:
  assumes "get_endpoint http pm ps cfg ts force_refresh st = ((r, st'), reqs)"
    and "mc_env_override cfg = None" "policy_ok st" "reqs \<noteq> []" "mt_manifest ts \<le> mt_status ts"
    and "0 < mc_failure_cooldown cfg"
  shows "policy_ok st' \<and>
    (case r of
       Inr e \<Rightarrow> endpoint_ok e \<and>
         (mt_check later < mt_status ts + mc_cache_ttl cfg \<longrightarrow>
            get_endpoint http' pm ps cfg later False st' = ((Inr e, st'), []))
     | Inl (MirrorMessage m) \<Rightarrow>
         mt_check later < mt_manifest ts + mc_failure_cooldown cfg \<longrightarrow>
            get_endpoint http' pm ps cfg later False st' = ((Inl (MirrorMessage m), st'), [])
     | Inl (MirrorJson e) \<Rightarrow> st' = st)"
proof -
  have "discover http pm ps cfg ts st = ((r, st'), reqs)"
    using get_endpoint_cases [OF assms(1,2)] assms(4) by blast
  then show ?thesis
  proof (cases rule: discover_cases)
    case (1 m t)
    have "get_endpoint http' pm ps cfg later False st' = ((r, st'), [])"
      if "mt_check later < mt_manifest ts + mc_failure_cooldown cfg"
      using 1 that assms(2,5,6) by (intro get_endpoint_remembered) (auto intro: remembered_recorded)
    with 1 assms(3) show ?thesis by (auto simp: policy_ok_def record_failure_def)
  next
    case (3 e)
    have "get_endpoint http' pm ps cfg later False st' = ((r, st'), [])"
      if "mt_check later < mt_status ts + mc_cache_ttl cfg"
      using 3 that assms(2) by (intro get_endpoint_remembered) (auto simp: remembered_def)
    with 3 show ?thesis by (auto simp: policy_ok_def)
  qed (use assms(3) in simp)
qed

definition demo_times :: "instant \<Rightarrow> mirror_times" where
  "demo_times t = \<lparr>mt_check = t, mt_started = t, mt_manifest = t, mt_status_started = t, mt_status = t\<rparr>"

lemma mirror_answers_remembered_witness:
  "get_endpoint (\<lambda>_. Inl HttpCancelled) (\<lambda>_. Inl []) (\<lambda>_. None) (MirrorPolicyManager_new None) (demo_times 5) False
     (snd (fst (get_endpoint (\<lambda>_. Inl (HttpStatus 503)) (\<lambda>_. Inl []) (\<lambda>_. None) (MirrorPolicyManager_new None) (demo_times 3) False PolicyState_new)))
   = ((Inl (MirrorMessage (''Failed to fetch mirror manifest (HTTP '' @ show_nat 503 @ '')'')),
       record_failure 3 (''Failed to fetch mirror manifest (HTTP '' @ show_nat 503 @ '')'') PolicyState_new), [])"
proof -
  let ?m = "''Failed to fetch mirror manifest (HTTP '' @ show_nat 503 @ '')''"
  have first: "get_endpoint (\<lambda>_. Inl (HttpStatus 503)) (\<lambda>_. Inl []) (\<lambda>_. None) (MirrorPolicyManager_new None)
      (demo_times 3) False PolicyState_new =
      ((Inl (MirrorMessage ?m), record_failure 3 ?m PolicyState_new), [(MANIFEST_URL, None)])"
    by (simp add: get_endpoint_def env_endpoint_def MirrorPolicyManager_new_def remembered_def PolicyState_new_def
        discover_def failure_message_def demo_times_def)
  show ?thesis
    using mirror_answers_remembered [OF first, where later = "demo_times 5" and http' = "\<lambda>_. Inl HttpCancelled"]
    unfolding first
    by (simp add: MirrorPolicyManager_new_def policy_ok_def PolicyState_new_def demo_times_def from_secs_def)
qed

end
