(* ===== verification/Pending.thy ===== *)
theory Pending
  imports Prelude
begin

text \<open>
  \<open>crates/bot/src/pending.rs\<close>: the store of confirmations that are handed out once and expire. The
  process-wide token counter, a 64-bit atomic, is part of the state; instants are arguments of the
  operations. A run interleaves insertions and lookups in the order their critical sections take.
\<close>

record 'v pending_entry =
  pe_value :: 'v
  pe_expires_at :: instant

record 'v pending_confirmations =
  pc_entries :: "(string, 'v pending_entry) hash_map"
  pc_ttl :: duration
  pc_next :: nat

definition PendingConfirmations_new :: "duration \<Rightarrow> 'v pending_confirmations" where
  "PendingConfirmations_new ttl = \<lparr>pc_entries = [], pc_ttl = ttl, pc_next = 1\<rparr>"

definition token_of :: "nat \<Rightarrow> nat \<Rightarrow> string" where
  "token_of pid n = show_nat pid @ ''-'' @ show_nat n"

text \<open>\<open>next_token\<close>: \<open>fetch_add\<close> returns the old value and wraps around.\<close>

definition next_token :: "nat \<Rightarrow> 'v pending_confirmations \<Rightarrow> string \<times> 'v pending_confirmations" where
  "next_token pid s = (token_of pid (pc_next s), s\<lparr>pc_next := (pc_next s + 1) mod 2 ^ 64\<rparr>)"

definition retain_live :: "instant \<Rightarrow> 'v pending_confirmations \<Rightarrow> 'v pending_confirmations" where
  "retain_live now s = s\<lparr>pc_entries := filter (\<lambda>(_, e). pe_expires_at e > now) (pc_entries s)\<rparr>"

definition pending_insert :: "nat \<Rightarrow> instant \<Rightarrow> 'v \<Rightarrow> 'v pending_confirmations \<Rightarrow> string \<times> 'v pending_confirmations" where
  "pending_insert pid now value s =
     (let (token, s1) = next_token pid s;
          s2 = retain_live now s1
      in (token, s2\<lparr>pc_entries :=
            hm_insert token \<lparr>pe_value = value, pe_expires_at = now + pc_ttl s2\<rparr> (pc_entries s2)\<rparr>))"

definition pending_take :: "instant \<Rightarrow> string \<Rightarrow> 'v pending_confirmations \<Rightarrow> 'v option \<times> 'v pending_confirmations" where
  "pending_take now token s =
     (let s1 = retain_live now s
      in (map_option pe_value (hm_get (pc_entries s1) token),
          s1\<lparr>pc_entries := hm_remove token (pc_entries s1)\<rparr>))"

section \<open>Runs\<close>

datatype 'v pending_event = PInsert instant 'v | PTake instant string

fun event_time :: "'v pending_event \<Rightarrow> instant" where
  "event_time (PInsert t _) = t"
| "event_time (PTake t _) = t"

text \<open>A run keeps what was issued (token, value, time) and which tokens were handed out.\<close>

record 'v pending_run =
  pr_store :: "'v pending_confirmations"
  pr_issued :: "(string \<times> 'v \<times> instant) list"
  pr_taken :: "string list"

fun pending_step :: "nat \<Rightarrow> 'v pending_event \<Rightarrow> 'v pending_run \<Rightarrow> 'v pending_run" where
  "pending_step pid (PInsert now v) r =
     (case pending_insert pid now v (pr_store r) of
        (token, s) \<Rightarrow> r\<lparr>pr_store := s, pr_issued := pr_issued r @ [(token, v, now)]\<rparr>)"
| "pending_step pid (PTake now token) r =
     (case pending_take now token (pr_store r) of
        (Some _, s) \<Rightarrow> r\<lparr>pr_store := s, pr_taken := pr_taken r @ [token]\<rparr>
      | (None, s) \<Rightarrow> r\<lparr>pr_store := s\<rparr>)"

definition pending_start :: "duration \<Rightarrow> 'v pending_run" where
  "pending_start ttl = \<lparr>pr_store = PendingConfirmations_new ttl, pr_issued = [], pr_taken = []\<rparr>"

definition pending_run_of :: "nat \<Rightarrow> duration \<Rightarrow> 'v pending_event list \<Rightarrow> 'v pending_run" where
  "pending_run_of pid ttl evs = fold (pending_step pid) evs (pending_start ttl)"

section \<open>Tokens and lookups\<close>

lemma show_nat_inj: "show_nat a = show_nat b \<longleftrightarrow> a = b"
  by (metis parse_digits_show_nat option.inject add_cancel_right_left mult_is_0)

lemma token_of_inj [simp]: "token_of pid a = token_of pid b \<longleftrightarrow> a = b"
  by (auto simp: token_of_def show_nat_inj)

lemma hm_get_filter:
  assumes "hm_invar m"
  shows "hm_get (filter (\<lambda>(_, e). P e) m) k = (case hm_get m k of Some e \<Rightarrow> if P e then Some e else None | None \<Rightarrow> None)"
  using assms
  by (induction m) (auto simp: hm_get_def hm_invar_def weak_map_of_SomeI split: option.splits dest!: map_of_SomeD, force)

lemma hm_invar_filter: "hm_invar m \<Longrightarrow> hm_invar (filter P m)"
  by (auto simp: hm_invar_def distinct_map inj_on_def)

lemma hm_get_retain:
  "hm_invar (pc_entries s) \<Longrightarrow> hm_get (pc_entries (retain_live now s)) k =
     (case hm_get (pc_entries s) k of Some e \<Rightarrow> if pe_expires_at e > now then Some e else None | None \<Rightarrow> None)"
  by (simp add: retain_live_def hm_get_filter)

lemma retain_live_simps [simp]:
  "pc_ttl (retain_live now s) = pc_ttl s" "pc_next (retain_live now s) = pc_next s"
  "hm_invar (pc_entries s) \<Longrightarrow> hm_invar (pc_entries (retain_live now s))"
  by (simp_all add: retain_live_def hm_invar_filter)

definition live_entry :: "duration \<Rightarrow> 'v \<Rightarrow> instant \<Rightarrow> 'v pending_entry" where
  "live_entry ttl v t = \<lparr>pe_value = v, pe_expires_at = t + ttl\<rparr>"

definition pending_inv :: "nat \<Rightarrow> duration \<Rightarrow> instant \<Rightarrow> 'v pending_run \<Rightarrow> bool" where
  "pending_inv pid ttl now r \<longleftrightarrow>
     pc_ttl (pr_store r) = ttl \<and> hm_invar (pc_entries (pr_store r)) \<and>
     pc_next (pr_store r) = Suc (length (pr_issued r)) \<and>
     map fst (pr_issued r) = map (token_of pid) [1..<Suc (length (pr_issued r))] \<and>
     distinct (pr_taken r) \<and> set (pr_taken r) \<subseteq> fst ` set (pr_issued r) \<and>
     (\<forall>k e. hm_get (pc_entries (pr_store r)) k = Some e \<longrightarrow>
        k \<notin> set (pr_taken r) \<and> (\<exists>v t. (k, v, t) \<in> set (pr_issued r) \<and> e = live_entry ttl v t)) \<and>
     (\<forall>(k, v, t) \<in> set (pr_issued r). k \<notin> set (pr_taken r) \<and> now < t + ttl \<longrightarrow>
        hm_get (pc_entries (pr_store r)) k = Some (live_entry ttl v t))"

lemma issued_distinct: "pending_inv pid ttl now r \<Longrightarrow> distinct (map fst (pr_issued r))"
  by (simp add: pending_inv_def distinct_map inj_on_def)

lemma issued_once:
  "pending_inv pid ttl now r \<Longrightarrow> (k, v, t) \<in> set (pr_issued r) \<Longrightarrow> (k, v', t') \<in> set (pr_issued r) \<Longrightarrow> v = v' \<and> t = t'"
  using eq_key_imp_eq_value [OF issued_distinct] by blast

lemma fresh_token:
  assumes "pending_inv pid ttl now r"
  shows "token_of pid (pc_next (pr_store r)) \<notin> fst ` set (pr_issued r)"
proof -
  from assms have "fst ` set (pr_issued r) = token_of pid ` {1..<Suc (length (pr_issued r))}"
    unfolding pending_inv_def by (metis list.set_map atLeastLessThan_upt)
  with assms show ?thesis by (auto simp: pending_inv_def)
qed

lemma insert_inv:
  assumes inv: "pending_inv pid ttl now r" and small: "Suc (Suc (length (pr_issued r))) < 2 ^ 64" and t: "t \<le> now"
  shows "pending_inv pid ttl now (pending_step pid (PInsert t v) r)"
proof -
  note I = inv [unfolded pending_inv_def]
  let ?k = "token_of pid (Suc (length (pr_issued r)))"
  have fresh: "?k \<notin> fst ` set (pr_issued r)" using fresh_token [OF inv] I by simp
  obtain s where s: "pending_insert pid t v (pr_store r) = (?k, s)" and
    st: "pc_ttl s = ttl" "hm_invar (pc_entries s)" "pc_next s = Suc (Suc (length (pr_issued r)))" and
    get: "hm_get (pc_entries s) = (\<lambda>k. if k = ?k then Some (live_entry ttl v t) else
      case hm_get (pc_entries (pr_store r)) k of Some e \<Rightarrow> if pe_expires_at e > t then Some e else None | None \<Rightarrow> None)"
    using I small
    by (auto simp: pending_insert_def next_token_def hm_get_insert hm_get_retain hm_invar_insert live_entry_def
        fun_eq_iff Let_def)
  have "k \<noteq> ?k" if "(k, u) \<in> set (pr_issued r)" for k u using that fresh by force
  then show ?thesis
    using I st fresh t s
    by (auto simp: pending_inv_def get live_entry_def split: option.splits if_splits)
qed

lemma take_inv:
  assumes inv: "pending_inv pid ttl now r" and t: "t \<le> now"
  shows "pending_inv pid ttl now (pending_step pid (PTake t k) r)"
proof -
  note I = inv [unfolded pending_inv_def]
  obtain a s where s: "pending_take t k (pr_store r) = (a, s)" and
    st: "pc_ttl s = ttl" "hm_invar (pc_entries s)" "pc_next s = Suc (length (pr_issued r))" and
    get: "hm_get (pc_entries s) = (\<lambda>j. if j = k then None else
      case hm_get (pc_entries (pr_store r)) j of Some e \<Rightarrow> if pe_expires_at e > t then Some e else None | None \<Rightarrow> None)" and
    a: "a = (case hm_get (pc_entries (pr_store r)) k of Some e \<Rightarrow> if pe_expires_at e > t then Some (pe_value e) else None | None \<Rightarrow> None)"
    using I
    by (auto simp: pending_take_def hm_get_remove hm_get_retain hm_invar_remove fun_eq_iff Let_def split: option.splits)
  show ?thesis
  proof (cases a)
    case None
    with I st t s a show ?thesis
      by (auto simp: pending_inv_def get live_entry_def split: option.splits if_splits) fastforce+
  next
    case (Some w)
    with I st t s a show ?thesis
      by (auto simp: pending_inv_def get live_entry_def split: option.splits if_splits) (fastforce simp: rev_image_eqI)+
  qed
qed

lemma issued_length: "length (pr_issued (pending_step pid e r)) \<le> Suc (length (pr_issued r))"
  by (cases e) (auto split: prod.splits option.splits)

lemma issued_bound: "length (pr_issued (pending_run_of pid ttl evs)) \<le> length evs"
proof (induction evs rule: rev_induct)
  case (snoc e evs)
  with issued_length [of pid e "pending_run_of pid ttl evs"] show ?case by (simp add: pending_run_of_def)
qed (simp add: pending_run_of_def pending_start_def)

lemma pending_run_inv:
  assumes "length evs + 2 < 2 ^ 64" "\<forall>e \<in> set evs. event_time e \<le> now"
  shows "pending_inv pid ttl now (pending_run_of pid ttl evs)"
  using assms
proof (induction evs rule: rev_induct)
  case Nil
  show ?case
    by (simp add: pending_run_of_def pending_start_def PendingConfirmations_new_def pending_inv_def)
next
  case (snoc e evs)
  then have inv: "pending_inv pid ttl now (pending_run_of pid ttl evs)" by simp
  have "Suc (Suc (length (pr_issued (pending_run_of pid ttl evs)))) < 2 ^ 64"
    using issued_bound [of pid ttl evs] snoc.prems(1) by simp
  with inv snoc.prems(2) show ?case
    by (cases e) (simp_all add: pending_run_of_def insert_inv take_inv del: pending_step.simps)
qed

text \<open>
  C37: A confirmation is handed out exactly once and only inside its window. After any interleaving of
  insertions and lookups (fewer than the 64-bit counter can number), a lookup at a time not before
  the earlier events returns a value if and only if that value was issued under the token, the token
  has not been handed out before and its time to live has not passed; no token is issued or handed
  out twice.
\<close>

theorem confirmations_single_use:
  fixes evs :: "'v pending_event list" and pid :: nat and ttl :: duration
  assumes "length evs + 2 < 2 ^ 64" "\<forall>e \<in> set evs. event_time e \<le> now"
  defines "r \<equiv> pending_run_of pid ttl evs"
  shows "(fst (pending_take now token (pr_store r)) = Some v \<longleftrightarrow>
      (\<exists>t. (token, v, t) \<in> set (pr_issued r) \<and> token \<notin> set (pr_taken r) \<and> now < t + ttl)) \<and>
    distinct (map fst (pr_issued r)) \<and> distinct (pr_taken r)"
proof -
  have inv: "pending_inv pid ttl now r" unfolding r_def by (rule pending_run_inv [OF assms(1,2)])
  note I = inv [unfolded pending_inv_def]
  have "fst (pending_take now token (pr_store r)) = Some v \<longleftrightarrow>
      (\<exists>e. hm_get (pc_entries (pr_store r)) token = Some e \<and> pe_expires_at e > now \<and> pe_value e = v)"
    using I by (auto simp: pending_take_def hm_get_retain Let_def split: option.splits)
  also have "\<dots> \<longleftrightarrow> (\<exists>t. (token, v, t) \<in> set (pr_issued r) \<and> token \<notin> set (pr_taken r) \<and> now < t + ttl)"
    using I by (auto simp: live_entry_def) fastforce+
  finally show ?thesis using issued_distinct [OF inv] I by simp
qed

lemma confirmations_single_use_witness:
  "fst (pending_take 5 ''7-1'' (pr_store (pending_run_of 7 10 [PInsert 1 ''delete'', PInsert 2 ''import'']))) = Some ''delete'' \<and>
   distinct (pr_taken (pending_run_of 7 10 [PInsert 1 ''delete'', PInsert 2 ''import'', PTake 3 ''7-1'', PTake 4 ''7-1'']))"
proof -
  have digits: "show_nat (Suc 0) = ''1''" "show_nat (Suc (Suc 0)) = ''2''" "show_nat 7 = ''7''" by code_simp+
  have "fst (pending_take 5 ''7-1'' (pr_store (pending_run_of 7 10 [PInsert 1 ''delete'', PInsert 2 ''import'']))) = Some ''delete''"
    by (simp add: pending_run_of_def pending_start_def PendingConfirmations_new_def pending_insert_def next_token_def
        token_of_def retain_live_def hm_insert_def pending_take_def hm_get_def digits)
  moreover have "distinct (pr_taken (pending_run_of 7 10 [PInsert 1 ''delete'', PInsert 2 ''import'', PTake 3 ''7-1'', PTake 4 ''7-1'']))"
    using confirmations_single_use [where evs = "[PInsert 1 ''delete'', PInsert 2 ''import'', PTake 3 ''7-1'', PTake 4 ''7-1'']"
        and now = 5 and pid = 7 and ttl = 10] by simp
  ultimately show ?thesis ..
qed

end
