(* ===== verification/Telegram_Retry.thy ===== *)
theory Telegram_Retry
  imports Prelude
begin

text \<open>
  \<open>crates/bot/src/telegram_retry.rs\<close>: the bounded retry policy handed to the Telegram client. The
  client counts the failures of one call and the time it slept, and asks the policy after each
  failure; \<open>retry_sequence\<close> is that protocol over a sequence of failures.
\<close>

datatype invocation_error =
  Rpc int string "nat option"
| InvocationIo
| InvocationOther

record retry_context =
  rx_error :: invocation_error
  rx_fail_count :: nat
  rx_slept_so_far :: duration

datatype control_flow = Break | Continue duration

record bounded_telegram_retry =
  bt_flood_threshold :: duration
  bt_max_attempts :: nat
  bt_max_total_wait :: duration
  bt_io_retry_delay :: duration

definition BoundedTelegramRetry_default :: bounded_telegram_retry where
  "BoundedTelegramRetry_default =
     \<lparr>bt_flood_threshold = from_secs 60, bt_max_attempts = 5, bt_max_total_wait = from_secs 300,
      bt_io_retry_delay = from_secs 1\<rparr>"

definition retry_delay :: "bounded_telegram_retry \<Rightarrow> retry_context \<Rightarrow> duration option" where
  "retry_delay p ctx =
     (case rx_error ctx of
        Rpc code name val \<Rightarrow>
          if code = 420 \<and> name \<in> {''FLOOD_WAIT'', ''FLOOD_PREMIUM_WAIT'', ''SLOWMODE_WAIT''}
          then Some (from_secs (case val of Some n \<Rightarrow> n | None \<Rightarrow> 0)) else None
      | InvocationIo \<Rightarrow> if rx_fail_count ctx = 1 then Some (bt_io_retry_delay p) else None
      | InvocationOther \<Rightarrow> None)"

definition should_retry :: "bounded_telegram_retry \<Rightarrow> retry_context \<Rightarrow> control_flow" where
  "should_retry p ctx =
     (case retry_delay p ctx of
        None \<Rightarrow> Break
      | Some delay \<Rightarrow>
          if rx_fail_count ctx > bt_max_attempts p \<or> delay > bt_flood_threshold p \<or>
             rx_slept_so_far ctx + delay > bt_max_total_wait p
          then Break else Continue delay)"

text \<open>The sleeps before the retries of a call that fails with the given errors in turn.\<close>

fun retry_sequence :: "bounded_telegram_retry \<Rightarrow> nat \<Rightarrow> duration \<Rightarrow> invocation_error list \<Rightarrow> duration list" where
  "retry_sequence p failed slept [] = []"
| "retry_sequence p failed slept (e # es) =
     (case should_retry p \<lparr>rx_error = e, rx_fail_count = failed + 1, rx_slept_so_far = slept\<rparr> of
        Break \<Rightarrow> []
      | Continue d \<Rightarrow> d # retry_sequence p (failed + 1) (slept + d) es)"

lemma should_retry_Continue:
  "should_retry p ctx = Continue d \<longleftrightarrow>
     retry_delay p ctx = Some d \<and> rx_fail_count ctx \<le> bt_max_attempts p \<and> d \<le> bt_flood_threshold p \<and>
     rx_slept_so_far ctx + d \<le> bt_max_total_wait p"
  by (auto simp: should_retry_def split: option.splits)

lemma retry_sequence_bounds:
  "(\<forall>d \<in> set (retry_sequence p failed slept es). d \<le> bt_flood_threshold p) \<and>
   failed + length (retry_sequence p failed slept es) \<le> max failed (bt_max_attempts p) \<and>
   slept + sum_list (retry_sequence p failed slept es) \<le> max slept (bt_max_total_wait p)"
proof (induction es arbitrary: failed slept)
  case (Cons e es)
  let ?ctx = "\<lparr>rx_error = e, rx_fail_count = failed + 1, rx_slept_so_far = slept\<rparr>"
  show ?case
  proof (cases "should_retry p ?ctx")
    case (Continue d)
    then have "d \<le> bt_flood_threshold p" "failed + 1 \<le> bt_max_attempts p" "slept + d \<le> bt_max_total_wait p"
      by (simp_all add: should_retry_Continue)
    with Continue Cons.IH [of "failed + 1" "slept + d"] show ?thesis by auto
  qed simp
qed simp

text \<open>
  With the default policy a Telegram call is retried at most five times, never waits more than a
  minute at once nor five minutes in total, whatever errors it meets, and an error that is neither a
  rate limit nor a first I/O failure is never retried.
\<close>

theorem telegram_waits_bounded:
  "length (retry_sequence BoundedTelegramRetry_default 0 0 es) \<le> 5 \<and>
   list_all (\<lambda>d. d \<le> from_secs 60) (retry_sequence BoundedTelegramRetry_default 0 0 es) \<and>
   sum_list (retry_sequence BoundedTelegramRetry_default 0 0 es) \<le> from_secs 300 \<and>
   retry_sequence p 0 0 (InvocationOther # es) = [] \<and>
   retry_sequence p (Suc n) t (InvocationIo # es) = []"
  using retry_sequence_bounds [of BoundedTelegramRetry_default 0 0 es]
  by (auto simp: BoundedTelegramRetry_default_def list_all_iff should_retry_def retry_delay_def)

end
