(* ===== verification/Session_Store.thy ===== *)
theory Session_Store
  imports Chunk_Cache Result_State
begin

text \<open>
  The accounts of the server: \<open>crates/db/src/session.rs\<close> (login codes and sessions) and
  \<open>crates/db/src/auth.rs\<close> (authorised users). The tables are lists of rows; every statement is one
  atomic change that respects the primary, unique and foreign keys of the schema, and takes its outcome
  from a list of faults (an empty list never fails again). Operations are sequences of statements outside
  a transaction, as in the code: a fault keeps what came before it. Random bytes, fresh identifiers, the
  clock, SHA-256 and the Unicode upper-casing of the standard library are arguments.
\<close>

record user_row =
  ur_telegram_id :: i64
  ur_name :: "string option"
  ur_created_at :: instant

record login_code_row =
  lc_code :: string
  lc_telegram_id :: i64
  lc_expires_at :: instant

record client_metadata =
  cm_client_name :: "string option"
  cm_client_version :: "string option"
  cm_device_name :: "string option"
  cm_platform :: "string option"

record user_session_row =
  us_id :: string
  us_telegram_id :: i64
  us_token_hash :: string
  us_client :: client_metadata
  us_last_active_at :: instant
  us_expires_at :: instant
  us_revoked :: bool

record auth_db =
  ad_users :: "user_row list"
  ad_codes :: "login_code_row list"
  ad_sessions :: "user_session_row list"
  ad_faults :: "string option list"

record session_tokens =
  st_session_id :: string
  st_telegram_id :: i64
  st_refresh_token :: string
  st_expires_at :: instant

record session_identity =
  si_session_id :: string
  si_telegram_id :: i64
  si_expires_at :: instant

type_synonym 'a dbio = "(auth_db, db_error, 'a) result_state"

section \<open>Statements\<close>

definition db_call :: "(string \<Rightarrow> db_error) \<Rightarrow> unit dbio" where
  "db_call err s =
     (case ad_faults s of
        [] \<Rightarrow> (Inr (), s)
      | None # fs \<Rightarrow> (Inr (), s\<lparr>ad_faults := fs\<rparr>)
      | Some e # fs \<Rightarrow> (Inl (err e), s\<lparr>ad_faults := fs\<rparr>))"

definition connection :: "unit dbio" where
  "connection = db_call DbPool"

definition select_rows :: "(auth_db \<Rightarrow> 'a) \<Rightarrow> 'a dbio" where
  "select_rows f = rs_bind (db_call DbDatabase) (\<lambda>_ s. (Inr (f s), s))"

definition execute :: "(auth_db \<Rightarrow> auth_db) \<Rightarrow> unit dbio" where
  "execute g = rs_bind (db_call DbDatabase) (\<lambda>_ s. (Inr (), g s))"

definition user_exists :: "i64 \<Rightarrow> auth_db \<Rightarrow> bool" where
  "user_exists tid s \<longleftrightarrow> tid \<in> set (map ur_telegram_id (ad_users s))"

definition insert_code :: "login_code_row \<Rightarrow> unit dbio" where
  "insert_code row =
     rs_bind (db_call DbDatabase) (\<lambda>_ s.
       if lc_code row \<in> set (map lc_code (ad_codes s)) \<or> \<not> user_exists (lc_telegram_id row) s
       then (Inl (DbDatabase ''constraint violation''), s)
       else (Inr (), s\<lparr>ad_codes := ad_codes s @ [row]\<rparr>))"

definition insert_session :: "user_session_row \<Rightarrow> unit dbio" where
  "insert_session row =
     rs_bind (db_call DbDatabase) (\<lambda>_ s.
       if us_id row \<in> set (map us_id (ad_sessions s)) \<or> us_token_hash row \<in> set (map us_token_hash (ad_sessions s)) \<or>
          \<not> user_exists (us_telegram_id row) s
       then (Inl (DbDatabase ''constraint violation''), s)
       else (Inr (), s\<lparr>ad_sessions := ad_sessions s @ [row]\<rparr>))"

text \<open>Deletions and updates return the number of rows they affect.\<close>

definition delete_codes :: "(login_code_row \<Rightarrow> bool) \<Rightarrow> nat dbio" where
  "delete_codes P =
     rs_bind (db_call DbDatabase) (\<lambda>_ s.
       (Inr (length (filter P (ad_codes s))), s\<lparr>ad_codes := filter (\<lambda>r. \<not> P r) (ad_codes s)\<rparr>))"

definition delete_sessions :: "(user_session_row \<Rightarrow> bool) \<Rightarrow> nat dbio" where
  "delete_sessions P =
     rs_bind (db_call DbDatabase) (\<lambda>_ s.
       (Inr (length (filter P (ad_sessions s))), s\<lparr>ad_sessions := filter (\<lambda>r. \<not> P r) (ad_sessions s)\<rparr>))"

definition update_sessions :: "(user_session_row \<Rightarrow> bool) \<Rightarrow> (user_session_row \<Rightarrow> user_session_row) \<Rightarrow> nat dbio" where
  "update_sessions P f =
     rs_bind (db_call DbDatabase) (\<lambda>_ s.
       (Inr (length (filter P (ad_sessions s))),
        s\<lparr>ad_sessions := map (\<lambda>r. if P r then f r else r) (ad_sessions s)\<rparr>))"

section \<open>Login codes\<close>

definition hash_token :: "(string \<Rightarrow> bytes) \<Rightarrow> string \<Rightarrow> string" where
  "hash_token sha256 token = hex_digest (sha256 (trim token))"

definition code_alphabet :: string where
  "code_alphabet = ''ABCDEFGHJKLMNPQRSTUVWXYZ23456789''"

definition format_code :: "bytes \<Rightarrow> string" where
  "format_code random_bytes =
     (let code = map (\<lambda>b. code_alphabet ! (unat b mod 32)) random_bytes
      in take 3 code @ ''-'' @ drop 3 code)"

definition unauthorized_user :: "i64 \<Rightarrow> string \<Rightarrow> db_error" where
  "unauthorized_user tid tail =
     DbUnauthorized (''User '' @ (if tid < 0 then CHR ''-'' # show_nat (nat (- tid)) else show_nat (nat tid)) @ tail)"

definition create_login_code :: "i64 \<Rightarrow> bytes \<Rightarrow> instant \<Rightarrow> instant \<Rightarrow> i64 \<Rightarrow> string dbio" where
  "create_login_code admin_id random_bytes now later telegram_id =
     rs_bind connection (\<lambda>_.
     rs_bind
       (if telegram_id = admin_id then
          execute (\<lambda>s. if user_exists admin_id s then s
            else s\<lparr>ad_users := ad_users s @ [\<lparr>ur_telegram_id = admin_id, ur_name = Some ''Admin'', ur_created_at = now\<rparr>]\<rparr>)
        else
          rs_bind (select_rows (user_exists telegram_id)) (\<lambda>found.
            if found then rs_ret () else rs_fail (unauthorized_user telegram_id '' is not authorized''))) (\<lambda>_.
     rs_bind (delete_codes (\<lambda>r. lc_telegram_id r = telegram_id \<or> lc_expires_at r < now)) (\<lambda>_.
     let code = format_code random_bytes
     in rs_bind (insert_code \<lparr>lc_code = code, lc_telegram_id = telegram_id, lc_expires_at = later + from_secs (5 * 60)\<rparr>)
          (\<lambda>_. rs_ret code))))"

text \<open>
  \<open>exchange_code\<close> in two halves: up to the decision that the user is authorised, and the statements
  that consume the code and create the session. Other requests can run between them.
\<close>

definition select_code :: "(string \<Rightarrow> string) \<Rightarrow> string \<Rightarrow> instant \<Rightarrow> login_code_row dbio" where
  "select_code to_uppercase code now =
     rs_bind (select_rows (\<lambda>s. List.find (\<lambda>r. lc_code r = to_uppercase (trim code) \<and> lc_expires_at r > now) (ad_codes s)))
       (\<lambda>found. from_option (DbValidation ''Invalid or expired login code'') found)"

definition exchange_begin :: "(string \<Rightarrow> string) \<Rightarrow> i64 \<Rightarrow> string \<Rightarrow> instant \<Rightarrow> login_code_row dbio" where
  "exchange_begin to_uppercase admin_id code now =
     rs_bind connection (\<lambda>_.
     rs_bind (select_code to_uppercase code now) (\<lambda>otp.
     rs_bind (if lc_telegram_id otp = admin_id then rs_ret True else select_rows (user_exists (lc_telegram_id otp)))
       (\<lambda>authorized.
          if authorized then rs_ret otp
          else (\<lambda>s. (Inl (unauthorized_user (lc_telegram_id otp) '' is not authorized''),
                     snd (delete_codes (\<lambda>r. lc_code r = to_uppercase (trim code)) s))))))"

definition exchange_finish ::
  "(string \<Rightarrow> string) \<Rightarrow> (string \<Rightarrow> bytes) \<Rightarrow> string \<Rightarrow> client_metadata \<Rightarrow> bytes \<Rightarrow> string \<Rightarrow> instant \<Rightarrow>
   login_code_row \<Rightarrow> session_tokens dbio" where
  "exchange_finish to_uppercase sha256 code metadata token_bytes session_id later otp =
     rs_bind (delete_codes (\<lambda>r. lc_code r = to_uppercase (trim code))) (\<lambda>_.
     let raw_refresh_token = hex_digest token_bytes; expires_at = later + from_secs (3 * 24 * 60 * 60)
     in rs_bind (insert_session
            \<lparr>us_id = session_id, us_telegram_id = lc_telegram_id otp, us_token_hash = hash_token sha256 raw_refresh_token,
             us_client = metadata, us_last_active_at = later, us_expires_at = expires_at, us_revoked = False\<rparr>)
          (\<lambda>_. rs_ret \<lparr>st_session_id = session_id, st_telegram_id = lc_telegram_id otp,
                       st_refresh_token = raw_refresh_token, st_expires_at = expires_at\<rparr>))"

definition exchange_code ::
  "(string \<Rightarrow> string) \<Rightarrow> (string \<Rightarrow> bytes) \<Rightarrow> i64 \<Rightarrow> string \<Rightarrow> client_metadata \<Rightarrow> bytes \<Rightarrow> string \<Rightarrow> instant \<Rightarrow> instant \<Rightarrow>
   session_tokens dbio" where
  "exchange_code to_uppercase sha256 admin_id code metadata token_bytes session_id now later =
     rs_bind (exchange_begin to_uppercase admin_id code now)
       (exchange_finish to_uppercase sha256 code metadata token_bytes session_id later)"

section \<open>Sessions\<close>

definition verify_session_record :: "(string \<Rightarrow> bytes) \<Rightarrow> i64 \<Rightarrow> string \<Rightarrow> instant \<Rightarrow> bool \<Rightarrow> user_session_row dbio" where
  "verify_session_record sha256 admin_id raw_refresh_token now revoke_unauthorized_user =
     rs_bind (select_rows (\<lambda>s. List.find (\<lambda>r. us_token_hash r = hash_token sha256 (trim raw_refresh_token) \<and> \<not> us_revoked r)
                (ad_sessions s)))
       (\<lambda>found. rs_bind (from_option (DbUnauthorized ''Invalid or revoked session'') found) (\<lambda>session.
          if us_expires_at session \<le> now then rs_fail (DbUnauthorized ''Session has expired'')
          else if us_telegram_id session = admin_id then rs_ret session
          else
            rs_bind (select_rows (user_exists (us_telegram_id session))) (\<lambda>found.
              if found then rs_ret session
              else rs_bind
                (if revoke_unauthorized_user
                 then rs_bind (update_sessions (\<lambda>r. us_id r = us_id session) (\<lambda>r. r\<lparr>us_revoked := True\<rparr>)) (\<lambda>_. rs_ret ())
                 else rs_ret ())
                (\<lambda>_. rs_fail (unauthorized_user (us_telegram_id session) '' access has been revoked'')))))"

definition verify_and_slide :: "(string \<Rightarrow> bytes) \<Rightarrow> i64 \<Rightarrow> string \<Rightarrow> instant \<Rightarrow> instant \<Rightarrow> session_identity dbio" where
  "verify_and_slide sha256 admin_id raw_refresh_token now later =
     rs_bind connection (\<lambda>_.
     rs_bind (verify_session_record sha256 admin_id raw_refresh_token now True) (\<lambda>session.
     let new_expires_at = later + from_secs (3 * 24 * 60 * 60)
     in rs_bind (update_sessions (\<lambda>r. us_id r = us_id session)
            (\<lambda>r. r\<lparr>us_last_active_at := later, us_expires_at := new_expires_at\<rparr>))
          (\<lambda>_. rs_ret \<lparr>si_session_id = us_id session, si_telegram_id = us_telegram_id session,
                       si_expires_at = new_expires_at\<rparr>)))"

definition verify_session :: "(string \<Rightarrow> bytes) \<Rightarrow> i64 \<Rightarrow> string \<Rightarrow> instant \<Rightarrow> session_identity dbio" where
  "verify_session sha256 admin_id raw_refresh_token now =
     rs_bind connection (\<lambda>_.
     rs_bind (verify_session_record sha256 admin_id raw_refresh_token now False) (\<lambda>session.
     rs_ret \<lparr>si_session_id = us_id session, si_telegram_id = us_telegram_id session, si_expires_at = us_expires_at session\<rparr>))"

definition revoke_token :: "(string \<Rightarrow> bytes) \<Rightarrow> string \<Rightarrow> bool dbio" where
  "revoke_token sha256 raw_refresh_token =
     rs_bind connection (\<lambda>_.
     rs_bind (update_sessions (\<lambda>r. us_token_hash r = hash_token sha256 (trim raw_refresh_token)) (\<lambda>r. r\<lparr>us_revoked := True\<rparr>))
       (\<lambda>affected. rs_ret (affected > 0)))"

definition revoke_all_for_user :: "i64 \<Rightarrow> nat dbio" where
  "revoke_all_for_user telegram_id =
     rs_bind connection (\<lambda>_. update_sessions (\<lambda>r. us_telegram_id r = telegram_id) (\<lambda>r. r\<lparr>us_revoked := True\<rparr>))"

definition list_active_sessions :: "i64 \<Rightarrow> instant \<Rightarrow> user_session_row list dbio" where
  "list_active_sessions telegram_id now =
     rs_bind connection (\<lambda>_. select_rows (\<lambda>s.
       rev (sort_key us_last_active_at
         (filter (\<lambda>r. us_telegram_id r = telegram_id \<and> \<not> us_revoked r \<and> us_expires_at r > now) (ad_sessions s)))))"

definition purge_expired_sessions :: "instant \<Rightarrow> nat dbio" where
  "purge_expired_sessions now =
     rs_bind connection (\<lambda>_. delete_sessions (\<lambda>r. us_expires_at r < now \<or> us_revoked r))"

definition purge_expired_codes :: "instant \<Rightarrow> nat dbio" where
  "purge_expired_codes now = rs_bind connection (\<lambda>_. delete_codes (\<lambda>r. lc_expires_at r < now))"

section \<open>Users\<close>

definition get_user_name :: "i64 \<Rightarrow> string option dbio" where
  "get_user_name telegram_id =
     rs_bind connection (\<lambda>_. select_rows (\<lambda>s.
       Option.bind (List.find (\<lambda>r. ur_telegram_id r = telegram_id) (ad_users s)) ur_name))"

definition update_user_name_if_changed :: "i64 \<Rightarrow> string \<Rightarrow> bool dbio" where
  "update_user_name_if_changed telegram_id raw_name =
     (let name = trim raw_name
      in if name = [] then rs_ret False
         else
           rs_bind (get_user_name telegram_id) (\<lambda>current_name.
             if current_name = Some name then rs_ret False
             else rs_bind (db_call DbDatabase) (\<lambda>_ s.
               (Inr (user_exists telegram_id s),
                s\<lparr>ad_users := map (\<lambda>r. if ur_telegram_id r = telegram_id then r\<lparr>ur_name := Some name\<rparr> else r) (ad_users s)\<rparr>))))"

definition is_authorized :: "i64 \<Rightarrow> i64 \<Rightarrow> i64 option \<Rightarrow> bool dbio" where
  "is_authorized admin_id user_id chat_id =
     (if user_id = admin_id then rs_ret True
      else
        let ids = (case chat_id of Some c \<Rightarrow> if c \<noteq> user_id then [user_id, c] else [user_id] | None \<Rightarrow> [user_id])
        in rs_bind connection (\<lambda>_. select_rows (\<lambda>s. list_ex (\<lambda>i. user_exists i s) ids)))"

definition authorize :: "i64 \<Rightarrow> string option \<Rightarrow> instant \<Rightarrow> bool dbio" where
  "authorize telegram_id name now =
     rs_bind connection (\<lambda>_.
     rs_bind (select_rows (user_exists telegram_id)) (\<lambda>existing.
     rs_bind (execute (\<lambda>s.
         if user_exists telegram_id s
         then s\<lparr>ad_users := map (\<lambda>r. if ur_telegram_id r = telegram_id then r\<lparr>ur_name := name\<rparr> else r) (ad_users s)\<rparr>
         else s\<lparr>ad_users := ad_users s @ [\<lparr>ur_telegram_id = telegram_id, ur_name = name, ur_created_at = now\<rparr>]\<rparr>))
       (\<lambda>_. rs_ret (\<not> existing))))"

text \<open>Deleting a user cascades to the codes and sessions that reference it.\<close>

definition revoke_user :: "i64 \<Rightarrow> bool dbio" where
  "revoke_user telegram_id =
     rs_bind connection (\<lambda>_. rs_bind (db_call DbDatabase) (\<lambda>_ s.
       (Inr (user_exists telegram_id s),
        s\<lparr>ad_users := filter (\<lambda>r. ur_telegram_id r \<noteq> telegram_id) (ad_users s),
          ad_codes := filter (\<lambda>r. lc_telegram_id r \<noteq> telegram_id) (ad_codes s),
          ad_sessions := filter (\<lambda>r. us_telegram_id r \<noteq> telegram_id) (ad_sessions s)\<rparr>)))"

definition list_authorized :: "user_row list dbio" where
  "list_authorized = rs_bind connection (\<lambda>_. select_rows (\<lambda>s. sort_key ur_created_at (ad_users s)))"

section \<open>The tables stay consistent\<close>

definition auth_inv :: "auth_db \<Rightarrow> bool" where
  "auth_inv s \<longleftrightarrow>
     distinct (map ur_telegram_id (ad_users s)) \<and> distinct (map lc_code (ad_codes s)) \<and>
     distinct (map us_id (ad_sessions s)) \<and> distinct (map us_token_hash (ad_sessions s)) \<and>
     list_all (\<lambda>r. user_exists (lc_telegram_id r) s) (ad_codes s) \<and>
     list_all (\<lambda>r. user_exists (us_telegram_id r) s) (ad_sessions s)"

lemma user_exists_cong [simp]:
  "user_exists i (s\<lparr>ad_faults := f\<rparr>) = user_exists i s" "user_exists i (s\<lparr>ad_codes := c\<rparr>) = user_exists i s"
  "user_exists i (s\<lparr>ad_sessions := ss\<rparr>) = user_exists i s"
  by (simp_all add: user_exists_def)

lemma preserves_db_call [intro!]: "preserves auth_inv (db_call err)"
  by (auto simp: preserves_def db_call_def auth_inv_def split: list.splits option.splits)

lemma preserves_connection [intro!]: "preserves auth_inv connection"
  unfolding connection_def by blast

lemma preserves_select [intro!]: "preserves auth_inv (select_rows f)"
  unfolding select_rows_def by (intro preserves_bind preserves_db_call) (auto simp: preserves_def)

lemma preserves_insert_code [intro!]: "preserves auth_inv (insert_code row)"
  unfolding insert_code_def
  by (intro preserves_bind preserves_db_call) (auto simp: preserves_def auth_inv_def)

lemma preserves_insert_session [intro!]: "preserves auth_inv (insert_session row)"
  unfolding insert_session_def
  by (intro preserves_bind preserves_db_call) (auto simp: preserves_def auth_inv_def)

lemma preserves_delete_codes [intro!]: "preserves auth_inv (delete_codes P)"
  unfolding delete_codes_def
  by (intro preserves_bind preserves_db_call) (auto simp: preserves_def auth_inv_def distinct_map_filter list_all_iff)

lemma preserves_delete_sessions [intro!]: "preserves auth_inv (delete_sessions P)"
  unfolding delete_sessions_def
  by (intro preserves_bind preserves_db_call) (auto simp: preserves_def auth_inv_def distinct_map_filter list_all_iff)

lemma map_key_update:
  "(\<And>r. key (f r) = key r) \<Longrightarrow> map key (map (\<lambda>r. if P r then f r else r) rs) = map key rs"
  by simp

lemma preserves_update_sessions [intro!]:
  assumes "\<And>r. us_id (f r) = us_id r" "\<And>r. us_token_hash (f r) = us_token_hash r" "\<And>r. us_telegram_id (f r) = us_telegram_id r"
  shows "preserves auth_inv (update_sessions P f)"
proof -
  have "auth_inv (s\<lparr>ad_sessions := map (\<lambda>r. if P r then f r else r) (ad_sessions s)\<rparr>)" if "auth_inv s" for s
    using that assms by (auto simp: auth_inv_def list_all_iff comp_def if_distrib cong: if_cong)
  then show ?thesis
    unfolding update_sessions_def by (intro preserves_bind preserves_db_call) (auto simp: preserves_def)
qed

lemma preserves_create_login_code: "preserves auth_inv (create_login_code admin rnd now later tid)"
proof -
  have "preserves auth_inv (execute (\<lambda>s. if user_exists admin s then s
      else s\<lparr>ad_users := ad_users s @ [\<lparr>ur_telegram_id = admin, ur_name = n, ur_created_at = now\<rparr>]\<rparr>))" for n
    unfolding execute_def
    by (intro preserves_bind preserves_db_call) (auto simp: preserves_def auth_inv_def user_exists_def list_all_iff)
  then show ?thesis unfolding create_login_code_def Let_def by blast
qed

lemma preserves_exchange:
  "preserves auth_inv (exchange_begin up admin code now)"
  "preserves auth_inv (exchange_finish up sha code md tok sid later otp)"
proof -
  have "preserves auth_inv (\<lambda>s. (Inl e, snd (delete_codes P s)) :: (db_error + login_code_row) \<times> auth_db)" for e P
    using preserves_delete_codes [of P] by (simp add: preserves_def)
  then show "preserves auth_inv (exchange_begin up admin code now)"
    unfolding exchange_begin_def select_code_def by blast
  show "preserves auth_inv (exchange_finish up sha code md tok sid later otp)"
    unfolding exchange_finish_def Let_def by blast
qed

lemma preserves_verify_record: "preserves auth_inv (verify_session_record sha admin tok now rv)"
  unfolding verify_session_record_def by (intro preserves_bind preserves_if preserves_update_sessions) auto

lemma preserves_sessions:
  "preserves auth_inv (verify_and_slide sha admin tok now later)" "preserves auth_inv (verify_session sha admin tok now)"
  "preserves auth_inv (revoke_token sha tok)" "preserves auth_inv (revoke_all_for_user tid)"
  "preserves auth_inv (purge_expired_sessions now)" "preserves auth_inv (purge_expired_codes now)"
  unfolding verify_and_slide_def verify_session_def revoke_token_def revoke_all_for_user_def
    purge_expired_sessions_def purge_expired_codes_def Let_def
  by (intro preserves_bind preserves_verify_record preserves_update_sessions preserves_connection
      preserves_ret preserves_delete_sessions preserves_delete_codes; simp)+

lemma user_exists_map_name:
  "user_exists i (s\<lparr>ad_users := map (\<lambda>r. if P r then r\<lparr>ur_name := n\<rparr> else r) (ad_users s)\<rparr>) = user_exists i s"
  by (auto simp: user_exists_def image_iff split: if_splits)

lemma auth_inv_rename:
  "auth_inv s \<Longrightarrow> auth_inv (s\<lparr>ad_users := map (\<lambda>r. if P r then r\<lparr>ur_name := n\<rparr> else r) (ad_users s)\<rparr>)"
  by (simp add: auth_inv_def user_exists_map_name comp_def if_distrib cong: if_cong)

lemma preserves_users:
  "preserves auth_inv (update_user_name_if_changed tid name)" "preserves auth_inv (authorize tid n now)"
  "preserves auth_inv (revoke_user tid)"
proof -
  have get: "preserves auth_inv (get_user_name i)" for i
    unfolding get_user_name_def by blast
  have rename: "preserves auth_inv (rs_bind (db_call DbDatabase) (\<lambda>_ s. (Inr (user_exists tid s),
      s\<lparr>ad_users := map (\<lambda>r. if ur_telegram_id r = tid then r\<lparr>ur_name := Some m\<rparr> else r) (ad_users s)\<rparr>)))" for m
    by (intro preserves_bind preserves_db_call) (simp add: preserves_def auth_inv_rename)
  show "preserves auth_inv (update_user_name_if_changed tid name)"
    unfolding update_user_name_if_changed_def Let_def
    by (intro preserves_if preserves_bind preserves_ret get rename)
  have grow: "auth_inv (s\<lparr>ad_users := ad_users s @ [\<lparr>ur_telegram_id = tid, ur_name = n, ur_created_at = now\<rparr>]\<rparr>)"
    if "auth_inv s" "\<not> user_exists tid s" for s
    using that by (auto simp: auth_inv_def user_exists_def list_all_iff)
  show "preserves auth_inv (authorize tid n now)"
    unfolding authorize_def execute_def
    by (intro preserves_bind preserves_connection preserves_select preserves_db_call preserves_ret)
      (simp add: preserves_def auth_inv_rename grow)
  show "preserves auth_inv (revoke_user tid)"
    unfolding revoke_user_def
    by (intro preserves_bind preserves_connection preserves_db_call)
      (auto simp: preserves_def auth_inv_def user_exists_def distinct_map_filter list_all_iff)
qed

section \<open>Every operation, interleaved\<close>

text \<open>The two halves of an exchange are separate events: other requests may run between them.\<close>

datatype auth_event =
  LoginCode bytes instant instant i64
| ExchangeBegin string instant
| ExchangeFinish string client_metadata bytes string instant login_code_row
| Slide string instant instant
| Verify string instant
| RevokeToken string
| RevokeAll i64
| PurgeSessions instant
| PurgeCodes instant
| RenameUser i64 string
| Authorize i64 "string option" instant
| RevokeUser i64

fun auth_step :: "(string \<Rightarrow> string) \<Rightarrow> (string \<Rightarrow> bytes) \<Rightarrow> i64 \<Rightarrow> auth_db \<Rightarrow> auth_event \<Rightarrow> auth_db" where
  "auth_step up sha admin s (LoginCode rnd now later tid) = snd (create_login_code admin rnd now later tid s)"
| "auth_step up sha admin s (ExchangeBegin code now) = snd (exchange_begin up admin code now s)"
| "auth_step up sha admin s (ExchangeFinish code md tok sid later otp) = snd (exchange_finish up sha code md tok sid later otp s)"
| "auth_step up sha admin s (Slide tok now later) = snd (verify_and_slide sha admin tok now later s)"
| "auth_step up sha admin s (Verify tok now) = snd (verify_session sha admin tok now s)"
| "auth_step up sha admin s (RevokeToken tok) = snd (revoke_token sha tok s)"
| "auth_step up sha admin s (RevokeAll tid) = snd (revoke_all_for_user tid s)"
| "auth_step up sha admin s (PurgeSessions now) = snd (purge_expired_sessions now s)"
| "auth_step up sha admin s (PurgeCodes now) = snd (purge_expired_codes now s)"
| "auth_step up sha admin s (RenameUser tid n) = snd (update_user_name_if_changed tid n s)"
| "auth_step up sha admin s (Authorize tid n now) = snd (authorize tid n now s)"
| "auth_step up sha admin s (RevokeUser tid) = snd (revoke_user tid s)"

definition auth_db_empty :: "string option list \<Rightarrow> auth_db" where
  "auth_db_empty faults = \<lparr>ad_users = [], ad_codes = [], ad_sessions = [], ad_faults = faults\<rparr>"

lemma auth_step_inv: "auth_inv s \<Longrightarrow> auth_inv (auth_step up sha admin s e)"
  using preserves_create_login_code preserves_exchange preserves_sessions preserves_users
  by (cases e) (simp_all add: preserves_def)

interpretation accounts: event_machine "auth_db_empty faults" "auth_step up sha admin" auth_inv for faults up sha admin
  by unfold_locales (simp_all add: auth_step_inv, simp add: auth_db_empty_def auth_inv_def)

section \<open>What a session and a code grant\<close>

definition session_live :: "(string \<Rightarrow> bytes) \<Rightarrow> i64 \<Rightarrow> instant \<Rightarrow> auth_db \<Rightarrow> string \<Rightarrow> i64 \<Rightarrow> string \<Rightarrow> bool" where
  "session_live sha admin now s token tid sid \<longleftrightarrow>
     list_ex (\<lambda>r. us_token_hash r = hash_token sha (trim token) \<and> \<not> us_revoked r \<and> now < us_expires_at r \<and>
        us_telegram_id r = tid \<and> us_id r = sid \<and> (tid = admin \<or> user_exists tid s)) (ad_sessions s)"

definition same_tables :: "auth_db \<Rightarrow> auth_db \<Rightarrow> bool" where
  "same_tables s s' \<longleftrightarrow> ad_users s' = ad_users s \<and> ad_codes s' = ad_codes s \<and> ad_sessions s' = ad_sessions s"

lemma same_tables_refl [simp]: "same_tables s s" by (simp add: same_tables_def)

lemma same_tables_user: "same_tables s s' \<Longrightarrow> user_exists i s' = user_exists i s"
  by (simp add: same_tables_def user_exists_def)

lemma db_call_Inr: "db_call err s = (Inr u, s') \<Longrightarrow> same_tables s s'"
  by (auto simp: db_call_def same_tables_def split: list.splits option.splits)

lemma db_call_ok [simp]: "ad_faults s = [] \<Longrightarrow> db_call err s = (Inr (), s)"
  by (simp add: db_call_def)

lemma select_Inr: "select_rows f s = (Inr x, s') \<Longrightarrow> \<exists>s1. same_tables s s1 \<and> x = f s1 \<and> same_tables s s'"
  by (auto simp: select_rows_def rs_bind_Inr dest: db_call_Inr)

lemma verify_record_Inr:
  assumes "verify_session_record sha admin tok now rv s = (Inr r, s')"
  shows "same_tables s s' \<and> r \<in> set (ad_sessions s) \<and> session_live sha admin now s tok (us_telegram_id r) (us_id r)"
proof -
  let ?P = "\<lambda>r. us_token_hash r = hash_token sha (trim tok) \<and> \<not> us_revoked r"
  from assms obtain s1 where sel: "select_rows (\<lambda>s. List.find ?P (ad_sessions s)) s = (Inr (Some r), s1)"
    and rest: "now < us_expires_at r" "us_telegram_id r = admin \<and> s' = s1 \<or>
      select_rows (user_exists (us_telegram_id r)) s1 = (Inr True, s')"
    by (auto simp: verify_session_record_def rs_bind_Inr from_option_def split: option.splits if_splits)
  from select_Inr [OF sel] have s1: "same_tables s s1" and find: "List.find ?P (ad_sessions s) = Some r"
    by (auto simp: same_tables_def)
  have "same_tables s s' \<and> (us_telegram_id r = admin \<or> user_exists (us_telegram_id r) s)"
    using rest(2) s1 by (auto dest!: select_Inr simp: same_tables_def user_exists_def)
  moreover have "r \<in> set (ad_sessions s)" "?P r" using find by (auto simp: find_Some_iff)
  ultimately show ?thesis using rest(1) by (auto simp: session_live_def list_ex_iff)
qed

lemma verify_record_live:
  assumes "auth_inv s" "ad_faults s = []" "session_live sha admin now s tok tid sid"
  shows "\<exists>r. verify_session_record sha admin tok now rv s = (Inr r, s) \<and> us_telegram_id r = tid \<and> us_id r = sid"
proof -
  let ?P = "\<lambda>r. us_token_hash r = hash_token sha (trim tok) \<and> \<not> us_revoked r"
  from assms(3) obtain r where r: "r \<in> set (ad_sessions s)" "?P r" "now < us_expires_at r" "us_telegram_id r = tid"
      "us_id r = sid" "tid = admin \<or> user_exists tid s"
    by (auto simp: session_live_def list_ex_iff)
  have "q = r" if "q \<in> set (ad_sessions s)" "?P q" for q
    using that r assms(1) by (auto simp: auth_inv_def distinct_map inj_on_def)
  moreover obtain q where q: "List.find ?P (ad_sessions s) = Some q"
    using r by (cases "List.find ?P (ad_sessions s)") (auto simp: find_None_iff)
  moreover from q have "q \<in> set (ad_sessions s)" "?P q" by (auto simp: find_Some_iff)
  ultimately have "List.find ?P (ad_sessions s) = Some r" by simp
  with r assms(2) show ?thesis
    by (auto simp: verify_session_record_def select_rows_def rs_bind_def from_option_def rs_ret_def)
qed

text \<open>The computed facts the lemmas below share: statements that do not fail.\<close>

lemmas db_eval = Let_def connection_def select_rows_def update_sessions_def delete_codes_def rs_bind_def rs_ret_def rs_fail_def

lemma revoked_dead: "\<not> session_live sha admin now (snd (revoke_token sha tok s)) tok tid sid"
  if "ad_faults s = []"
  using that by (auto simp: revoke_token_def db_eval session_live_def list_ex_iff)

text \<open>
  C13: A session token is worth exactly what its row says. In consistent tables and with a working
  database, verification succeeds for a user and a session if and only if that session has the
  token's hash, is not revoked, has not expired and belongs to an authorised user or the administrator; it changes
  no table; and after the token was revoked it fails, at any time and for whatever user.
\<close>

theorem session_verification_exact:
  assumes "auth_inv s" "ad_faults s = []"
  shows "((\<exists>i. fst (verify_session sha admin tok now s) = Inr i \<and> si_telegram_id i = tid \<and> si_session_id i = sid)
      \<longleftrightarrow> session_live sha admin now s tok tid sid) \<and>
    same_tables s (snd (verify_session sha admin tok now s)) \<and>
    (\<exists>e. fst (verify_session sha admin tok later (snd (revoke_token sha tok s))) = Inl e)"
proof -
  have inr: "\<exists>i. fst (verify_session sha admin tok t q) = Inr i \<and> si_telegram_id i = tid \<and> si_session_id i = sid"
    if "auth_inv q" "ad_faults q = []" "session_live sha admin t q tok tid sid" for q t tid sid
    using verify_record_live [OF that, of False] that(2)
    by (auto simp: verify_session_def rs_bind_def connection_def rs_ret_def)
  have live: "session_live sha admin t q tok (si_telegram_id i) (si_session_id i) \<and> same_tables q (snd (verify_session sha admin tok t q))"
    if h: "fst (verify_session sha admin tok t q) = Inr i" for q t i
  proof -
    obtain q' where "verify_session sha admin tok t q = (Inr i, q')" using h by (metis prod.collapse)
    then obtain q1 r where q1: "db_call DbPool q = (Inr (), q1)" and r: "verify_session_record sha admin tok t False q1 = (Inr r, q')"
      and i: "i = \<lparr>si_session_id = us_id r, si_telegram_id = us_telegram_id r, si_expires_at = us_expires_at r\<rparr>"
      by (auto simp: verify_session_def rs_bind_Inr connection_def)
    with db_call_Inr [OF q1] verify_record_Inr [OF r] h show ?thesis
      by (auto simp: session_live_def same_tables_def user_exists_def verify_session_def rs_bind_def connection_def rs_ret_def)
  qed
  have keeps: "keeps (\<lambda>s. (ad_users s, ad_codes s, ad_sessions s)) (verify_session sha admin tok now)"
    unfolding verify_session_def verify_session_record_def connection_def select_rows_def
    by (intro keeps_bind keeps_ret) (auto simp: keeps_def db_call_def rs_fail_def rs_bind_def rs_ret_def from_option_def
        split: list.splits option.splits prod.splits sum.splits if_splits)
  then have "same_tables s (snd (verify_session sha admin tok now s))"
    by (simp add: keeps_def same_tables_def)
  moreover have "\<exists>e. fst (verify_session sha admin tok later (snd (revoke_token sha tok s))) = Inl e"
    using live [of later "snd (revoke_token sha tok s)"] revoked_dead [OF assms(2)]
    by (cases "fst (verify_session sha admin tok later (snd (revoke_token sha tok s)))") auto
  ultimately show ?thesis using inr [OF assms] live by blast
qed

definition demo_row :: user_session_row where
  "demo_row = \<lparr>us_id = ''s1'', us_telegram_id = 7, us_token_hash = hash_token (map of_char) (trim ''tok''),
     us_client = \<lparr>cm_client_name = None, cm_client_version = None, cm_device_name = None, cm_platform = None\<rparr>,
     us_last_active_at = 1, us_expires_at = 100, us_revoked = False\<rparr>"

definition demo_db :: auth_db where
  "demo_db = \<lparr>ad_users = [\<lparr>ur_telegram_id = 7, ur_name = None, ur_created_at = 0\<rparr>], ad_codes = [],
     ad_sessions = [demo_row], ad_faults = []\<rparr>"

lemma session_verification_exact_witness:
  "(\<exists>i. fst (verify_session (map of_char) 1 ''tok'' 5 demo_db) = Inr i \<and> si_telegram_id i = 7 \<and> si_session_id i = ''s1'') \<and>
   (\<exists>e. fst (verify_session (map of_char) 1 ''tok'' 6 (snd (revoke_token (map of_char) ''tok'' demo_db))) = Inl e)"
proof -
  have ok: "auth_inv demo_db" "ad_faults demo_db = []"
    by (simp_all add: demo_db_def demo_row_def auth_inv_def user_exists_def)
  have "session_live (map of_char) 1 5 demo_db ''tok'' 7 ''s1''"
    by (simp add: session_live_def demo_db_def demo_row_def user_exists_def)
  with session_verification_exact [OF ok, of "map of_char" 1 "''tok''" 5 7 "''s1''" 6] show ?thesis by blast
qed

section \<open>Login codes\<close>

lemma exchange_begin_Inr:
  assumes "exchange_begin up admin code now s = (Inr otp, s')"
  shows "same_tables s s' \<and> otp \<in> set (ad_codes s) \<and> lc_code otp = up (trim code) \<and> now < lc_expires_at otp \<and>
    (lc_telegram_id otp = admin \<or> user_exists (lc_telegram_id otp) s)"
proof -
  let ?P = "\<lambda>r. lc_code r = up (trim code) \<and> lc_expires_at r > now"
  from assms obtain s1 s2 where c: "db_call DbPool s = (Inr (), s1)"
    and sel: "select_rows (\<lambda>s. List.find ?P (ad_codes s)) s1 = (Inr (Some otp), s2)"
    and u: "lc_telegram_id otp = admin \<and> s' = s2 \<or> select_rows (user_exists (lc_telegram_id otp)) s2 = (Inr True, s')"
    by (auto simp: exchange_begin_def select_code_def rs_bind_Inr connection_def from_option_def split: option.splits if_splits)
  from db_call_Inr [OF c] select_Inr [OF sel] have "same_tables s s2" "List.find ?P (ad_codes s) = Some otp"
    by (auto simp: same_tables_def)
  then show ?thesis using u by (auto simp: find_Some_iff same_tables_def user_exists_def dest!: select_Inr)
qed

lemma exchange_finish_Inr:
  assumes "exchange_finish up sha code md tok sid later otp s = (Inr t, s')"
  shows "ad_codes s' = filter (\<lambda>r. lc_code r \<noteq> up (trim code)) (ad_codes s) \<and>
    (\<exists>row. ad_sessions s' = ad_sessions s @ [row] \<and> us_telegram_id row = lc_telegram_id otp \<and> us_id row = st_session_id t \<and>
       us_token_hash row = hash_token sha (st_refresh_token t) \<and> \<not> us_revoked row \<and> us_expires_at row = st_expires_at t) \<and>
    t = \<lparr>st_session_id = sid, st_telegram_id = lc_telegram_id otp, st_refresh_token = hex_digest tok,
         st_expires_at = later + from_secs (3 * 24 * 60 * 60)\<rparr> \<and> ad_users s' = ad_users s"
  using assms
  by (auto simp: exchange_finish_def delete_codes_def insert_session_def rs_bind_Inr Let_def same_tables_def
      split: if_splits dest!: db_call_Inr)

lemma exchange_code_unknown:
  assumes "\<forall>r \<in> set (ad_codes s). lc_code r \<noteq> up (trim code)"
  shows "\<exists>e. fst (exchange_code up sha admin code md tok sid now later s) = Inl e"
proof (cases "fst (exchange_code up sha admin code md tok sid now later s)")
  case (Inr t)
  then obtain otp s1 s2 where "exchange_begin up admin code now s = (Inr otp, s1)"
    unfolding exchange_code_def by (metis prod.collapse rs_bind_Inr)
  from exchange_begin_Inr [OF this] assms show ?thesis by auto
qed simp

text \<open>
  C14: A login code that nobody else is exchanging is single-use. A successful exchange had an
  unexpired code of an authorised user or the administrator, creates one session for exactly that
  user under the hash of the returned token, valid for three days, and removes the code; a second
  exchange of it fails. Along every interleaving of the operations, with faults anywhere, the
  tables keep their keys.
\<close>

theorem login_code_single_use:
  assumes "exchange_code up sha admin code md tok sid now later s = (Inr t, s')"
  shows "(\<exists>otp \<in> set (ad_codes s). lc_code otp = up (trim code) \<and> now < lc_expires_at otp \<and>
        lc_telegram_id otp = st_telegram_id t \<and> (st_telegram_id t = admin \<or> user_exists (st_telegram_id t) s)) \<and>
    (\<exists>row. ad_sessions s' = ad_sessions s @ [row] \<and> us_telegram_id row = st_telegram_id t \<and>
        us_token_hash row = hash_token sha (st_refresh_token t) \<and> \<not> us_revoked row \<and>
        us_expires_at row = later + from_secs (3 * 24 * 60 * 60)) \<and>
    (\<exists>e. fst (exchange_code up sha admin code md' tok' sid' now' later' s') = Inl e) \<and>
    auth_inv (foldl (auth_step up sha admin) (auth_db_empty faults) events)"
proof -
  from assms obtain otp s1 where b: "exchange_begin up admin code now s = (Inr otp, s1)"
    and f: "exchange_finish up sha code md tok sid later otp s1 = (Inr t, s')"
    unfolding exchange_code_def by (auto simp: rs_bind_Inr)
  note B = exchange_begin_Inr [OF b] and F = exchange_finish_Inr [OF f]
  have "\<forall>r \<in> set (ad_codes s'). lc_code r \<noteq> up (trim code)" using F by simp
  from exchange_code_unknown [of s' up code sha admin md' tok' sid' now' later', OF this] have second:
    "\<exists>e. fst (exchange_code up sha admin code md' tok' sid' now' later' s') = Inl e" .
  have t: "st_telegram_id t = lc_telegram_id otp" "st_expires_at t = later + from_secs (3 * 24 * 60 * 60)"
    using F by auto
  have "\<exists>row. ad_sessions s' = ad_sessions s @ [row] \<and> us_telegram_id row = st_telegram_id t \<and>
      us_token_hash row = hash_token sha (st_refresh_token t) \<and> \<not> us_revoked row \<and>
      us_expires_at row = later + from_secs (3 * 24 * 60 * 60)"
    using F t B unfolding same_tables_def by metis
  moreover have "\<exists>otp \<in> set (ad_codes s). lc_code otp = up (trim code) \<and> now < lc_expires_at otp \<and>
      lc_telegram_id otp = st_telegram_id t \<and> (st_telegram_id t = admin \<or> user_exists (st_telegram_id t) s)"
    using B t by auto
  ultimately show ?thesis using second accounts.inv_run by blast
qed

lemma login_code_single_use_witness:
  "\<exists>e. fst (exchange_code id (map of_char) 1 ''ABC-DEF'' (us_client demo_row) [2] ''s3'' 7 7
     (snd (exchange_code id (map of_char) 1 ''ABC-DEF'' (us_client demo_row) [1] ''s2'' 5 5
        (demo_db\<lparr>ad_codes := [\<lparr>lc_code = trim ''ABC-DEF'', lc_telegram_id = 7, lc_expires_at = 300\<rparr>]\<rparr>)))) = Inl e"
proof -
  let ?db = "demo_db\<lparr>ad_codes := [\<lparr>lc_code = trim ''ABC-DEF'', lc_telegram_id = 7, lc_expires_at = 300\<rparr>]\<rparr>"
  have fresh: "hash_token (map of_char) (hex_digest [1]) \<noteq> hash_token (map of_char) (trim ''tok'')" by code_simp
  have "\<exists>t s'. exchange_code id (map of_char) 1 ''ABC-DEF'' (us_client demo_row) [1] ''s2'' 5 5 ?db = (Inr t, s')"
    using fresh
    by (simp add: exchange_code_def exchange_begin_def exchange_finish_def select_code_def insert_session_def db_eval
        from_option_def demo_db_def demo_row_def user_exists_def)
  then obtain t s' where "exchange_code id (map of_char) 1 ''ABC-DEF'' (us_client demo_row) [1] ''s2'' 5 5 ?db = (Inr t, s')"
    by blast
  with login_code_single_use [OF this, of "us_client demo_row" "[2]" "''s3''" 7 7 "[]" "[]"] show ?thesis by simp
qed

text \<open>
  Two exchanges of one code that overlap both succeed: the code is selected and deleted by separate
  statements, and the number of deleted rows is not looked at. Here the second request selects the
  code before the first one deletes it.
\<close>

definition code_db :: auth_db where
  "code_db = demo_db\<lparr>ad_codes := [\<lparr>lc_code = trim ''ABC-DEF'', lc_telegram_id = 7, lc_expires_at = 300\<rparr>]\<rparr>"

lemma code_exchanged_twice:
  "\<exists>otp t1 t2 s1 s2 s3.
     exchange_begin id 1 ''ABC-DEF'' 5 code_db = (Inr otp, s1) \<and> exchange_begin id 1 ''ABC-DEF'' 5 s1 = (Inr otp, s1) \<and>
     exchange_finish id (map of_char) ''ABC-DEF'' (us_client demo_row) [1] ''s2'' 5 otp s1 = (Inr t1, s2) \<and>
     exchange_finish id (map of_char) ''ABC-DEF'' (us_client demo_row) [2] ''s3'' 6 otp s2 = (Inr t2, s3) \<and>
     length (ad_sessions s3) = length (ad_sessions code_db) + 2"
proof -
  have "hash_token (map of_char) (hex_digest [1]) \<noteq> hash_token (map of_char) (trim ''tok'')"
    "hash_token (map of_char) (hex_digest [2]) \<noteq> hash_token (map of_char) (trim ''tok'')"
    "hash_token (map of_char) (hex_digest [2]) \<noteq> hash_token (map of_char) (hex_digest [1])" by code_simp+
  then show ?thesis
    by (simp add: exchange_begin_def exchange_finish_def select_code_def insert_session_def db_eval
        from_option_def code_db_def demo_db_def demo_row_def user_exists_def)
qed

end
