(* ===== verification/Auth_Gate.thy ===== *)
theory Auth_Gate
  imports Session_Store Lookup
begin

text \<open>
  \<open>crates/server/src/auth.rs\<close>: bearer authentication with its token cache, and the handlers that exchange,
  refresh and revoke sessions. The \<open>moka\<close> cache is an argument: its operations on an opaque state, with a view of
  what they may return. The Telegram profile of a user is an argument of the handlers that show it.
\<close>

record authed_user =
  au_telegram_id :: i64
  au_session_id :: string

record 'c token_cache_ops =
  tc_get :: "'c \<Rightarrow> instant \<Rightarrow> string \<Rightarrow> authed_user option"
  tc_insert :: "instant \<Rightarrow> string \<Rightarrow> authed_user \<Rightarrow> 'c \<Rightarrow> 'c"
  tc_remove :: "string \<Rightarrow> 'c \<Rightarrow> 'c"
  tc_invalidate_all :: "'c \<Rightarrow> 'c"

record 'c auth_server =
  as_db :: auth_db
  as_cache :: 'c

definition TOKEN_CACHE_TTL :: duration where
  "TOKEN_CACHE_TTL = from_secs 60"

fun db_error_text :: "db_error \<Rightarrow> string" where
  "db_error_text (DbDatabase e) = ''database error: '' @ e"
| "db_error_text (DbPool e) = ''database pool error: '' @ e"
| "db_error_text (DbMigration e) = ''migration error: '' @ e"
| "db_error_text (DbRow e) = ''database row error: '' @ e"
| "db_error_text (DbNotFound e) = ''not found: '' @ e"
| "db_error_text (DbUnauthorized e) = ''unauthorized: '' @ e"
| "db_error_text (DbValidation e) = ''validation error: '' @ e"

section \<open>Authentication\<close>

text \<open>Verification against the database, and the entry it leaves in the cache.\<close>

definition verify_token ::
  "'c token_cache_ops \<Rightarrow> (string \<Rightarrow> bytes) \<Rightarrow> i64 \<Rightarrow> instant \<Rightarrow> instant \<Rightarrow> string \<Rightarrow> 'c auth_server \<Rightarrow>
   (server_error + authed_user \<times> instant) \<times> 'c auth_server" where
  "verify_token ops sha256 admin_id now now2 token s =
     (case verify_and_slide sha256 admin_id token now now2 (as_db s) of
        (Inl e, db) \<Rightarrow> (Inl (Unauthorized (db_error_text e)), s\<lparr>as_db := db\<rparr>)
      | (Inr identity, db) \<Rightarrow>
          let user = \<lparr>au_telegram_id = si_telegram_id identity, au_session_id = si_session_id identity\<rparr>
          in (Inr (user, si_expires_at identity),
              s\<lparr>as_db := db, as_cache := tc_insert ops now2 token user (as_cache s)\<rparr>))"

definition bearer_token :: "string option \<Rightarrow> server_error + string" where
  "bearer_token auth_header =
     (case auth_header of
        None \<Rightarrow> Inl (Unauthorized ''Missing Authorization header'')
      | Some h \<Rightarrow>
          (case strip_prefix ''Bearer '' h of
             None \<Rightarrow> Inl (Unauthorized (''Invalid Authorization format, expected '' @ [CHR 0x27] @ ''Bearer <token>'' @ [CHR 0x27]))
           | Some t \<Rightarrow> Inr (trim t)))"

definition from_request_parts ::
  "'c token_cache_ops \<Rightarrow> (string \<Rightarrow> bytes) \<Rightarrow> i64 \<Rightarrow> instant \<Rightarrow> instant \<Rightarrow> string option \<Rightarrow> 'c auth_server \<Rightarrow>
   (server_error + authed_user) \<times> 'c auth_server" where
  "from_request_parts ops sha256 admin_id now now2 auth_header s =
     (case bearer_token auth_header of
        Inl e \<Rightarrow> (Inl e, s)
      | Inr token \<Rightarrow>
          (case tc_get ops (as_cache s) now token of
             Some user \<Rightarrow> (Inr user, s)
           | None \<Rightarrow> apfst (map_sum id fst) (verify_token ops sha256 admin_id now now2 token s)))"

definition maybe_authed ::
  "'c token_cache_ops \<Rightarrow> (string \<Rightarrow> bytes) \<Rightarrow> i64 \<Rightarrow> instant \<Rightarrow> instant \<Rightarrow> string option \<Rightarrow> 'c auth_server \<Rightarrow>
   authed_user option \<times> 'c auth_server" where
  "maybe_authed ops sha256 admin_id now now2 auth_header s =
     apfst (\<lambda>r. case r of Inr user \<Rightarrow> Some user | Inl _ \<Rightarrow> None)
       (from_request_parts ops sha256 admin_id now now2 auth_header s)"

section \<open>Profiles\<close>

record telegram_profile =
  tp_first_name :: "string option"
  tp_last_name :: "string option"
  tp_username :: "string option"

record user_dto =
  ud_telegram_id :: i64
  ud_name :: "string option"
  ud_profile :: telegram_profile

definition nonblank_name :: "string option \<Rightarrow> string option" where
  "nonblank_name v = (case v of Some n \<Rightarrow> if trim n = [] then None else Some (trim n) | None \<Rightarrow> None)"

definition join_names :: "string option \<Rightarrow> string option \<Rightarrow> string" where
  "join_names a b =
     (case (a, b) of
        (Some x, Some y) \<Rightarrow> x @ '' '' @ y | (Some x, None) \<Rightarrow> x | (None, Some y) \<Rightarrow> y | (None, None) \<Rightarrow> [])"

definition profile_display_name :: "telegram_profile \<Rightarrow> string option \<Rightarrow> string option" where
  "profile_display_name p stored_name =
     (let full_name = join_names (nonblank_name (tp_first_name p)) (nonblank_name (tp_last_name p))
      in if full_name \<noteq> [] then Some full_name
         else case nonblank_name (tp_username p) of
                Some u \<Rightarrow> Some (CHR ''@'' # u)
              | None \<Rightarrow> nonblank_name stored_name)"

definition no_profile :: telegram_profile where
  "no_profile = \<lparr>tp_first_name = None, tp_last_name = None, tp_username = None\<rparr>"

definition load_user_profile :: "telegram_profile option \<Rightarrow> i64 \<Rightarrow> 'c auth_server \<Rightarrow> user_dto \<times> 'c auth_server" where
  "load_user_profile telegram_user telegram_id s =
     (let (r, db) = get_user_name telegram_id (as_db s);
          stored_name = (case r of Inr n \<Rightarrow> n | Inl _ \<Rightarrow> None);
          profile = (case telegram_user of Some p \<Rightarrow> p | None \<Rightarrow> no_profile)
      in case profile_display_name profile None of
           Some telegram_name \<Rightarrow>
             (\<lparr>ud_telegram_id = telegram_id, ud_name = Some telegram_name, ud_profile = profile\<rparr>,
              s\<lparr>as_db := if stored_name \<noteq> Some telegram_name
                         then snd (update_user_name_if_changed telegram_id telegram_name db) else db\<rparr>)
         | None \<Rightarrow> (\<lparr>ud_telegram_id = telegram_id, ud_name = stored_name, ud_profile = profile\<rparr>, s\<lparr>as_db := db\<rparr>))"

section \<open>Handlers\<close>

record token_response =
  tr_token_type :: string
  tr_token :: string
  tr_access_token :: string
  tr_refresh_token :: string
  tr_expires_in :: nat
  tr_expires_at :: instant
  tr_expires_at_unix :: nat

definition token_response_of :: "string \<Rightarrow> instant \<Rightarrow> token_response" where
  "token_response_of token expires_at =
     \<lparr>tr_token_type = ''Bearer'', tr_token = token, tr_access_token = token, tr_refresh_token = token,
      tr_expires_in = 259200, tr_expires_at = expires_at, tr_expires_at_unix = as_secs expires_at\<rparr>"

record exchange_request =
  er_code :: string
  er_metadata :: client_metadata

record token_request =
  tq_token :: "string option"
  tq_refresh_token :: "string option"

definition requested_token :: "token_request \<Rightarrow> string option" where
  "requested_token q = (case tq_refresh_token q of Some t \<Rightarrow> Some t | None \<Rightarrow> tq_token q)"

definition exchange ::
  "'c token_cache_ops \<Rightarrow> (string \<Rightarrow> string) \<Rightarrow> (string \<Rightarrow> bytes) \<Rightarrow> i64 \<Rightarrow> bytes \<Rightarrow> string \<Rightarrow> telegram_profile option \<Rightarrow>
   string option \<Rightarrow> instant \<Rightarrow> instant \<Rightarrow> exchange_request \<Rightarrow> 'c auth_server \<Rightarrow>
   (server_error + token_response \<times> user_dto \<times> string option) \<times> 'c auth_server" where
  "exchange ops to_uppercase sha256 admin_id token_bytes session_id telegram_user lyricsporn_api_url now now2 payload s =
     (case exchange_code to_uppercase sha256 admin_id (er_code payload) (er_metadata payload) token_bytes session_id
             now now2 (as_db s) of
        (Inl e, db) \<Rightarrow> (Inl (Unauthorized (db_error_text e)), s\<lparr>as_db := db\<rparr>)
      | (Inr session, db) \<Rightarrow>
          let user = \<lparr>au_telegram_id = st_telegram_id session, au_session_id = st_session_id session\<rparr>;
              s1 = s\<lparr>as_db := db, as_cache := tc_insert ops now2 (st_refresh_token session) user (as_cache s)\<rparr>;
              (dto, s2) = load_user_profile telegram_user (st_telegram_id session) s1
          in (Inr (token_response_of (st_refresh_token session) (st_expires_at session), dto, lyricsporn_api_url), s2))"

definition refresh ::
  "'c token_cache_ops \<Rightarrow> (string \<Rightarrow> bytes) \<Rightarrow> i64 \<Rightarrow> instant \<Rightarrow> instant \<Rightarrow> token_request \<Rightarrow> 'c auth_server \<Rightarrow>
   (server_error + token_response) \<times> 'c auth_server" where
  "refresh ops sha256 admin_id now now2 payload s =
     (case requested_token payload of
        None \<Rightarrow> (Inl (BadRequest ''Missing token or refresh_token''), s)
      | Some token \<Rightarrow>
          apfst (map_sum id (\<lambda>(_, expires_at). token_response_of token expires_at))
            (verify_token ops sha256 admin_id now now2 token s))"

definition logout ::
  "'c token_cache_ops \<Rightarrow> (string \<Rightarrow> bytes) \<Rightarrow> i64 \<Rightarrow> instant \<Rightarrow> instant \<Rightarrow> string option \<Rightarrow> token_request \<Rightarrow> 'c auth_server \<Rightarrow>
   (server_error + unit) \<times> 'c auth_server" where
  "logout ops sha256 admin_id now now2 auth_header payload s0 =
     (let (maybe_user, s) = maybe_authed ops sha256 admin_id now now2 auth_header s0
      in case requested_token payload of
           Some token \<Rightarrow>
             (Inr (), s\<lparr>as_cache := tc_remove ops token (as_cache s), as_db := snd (revoke_token sha256 token (as_db s))\<rparr>)
         | None \<Rightarrow>
             (case maybe_user of
                Some user \<Rightarrow>
                  (Inr (), s\<lparr>as_cache := tc_invalidate_all ops (as_cache s),
                             as_db := snd (revoke_all_for_user (au_telegram_id user) (as_db s))\<rparr>)
              | None \<Rightarrow> (Inl (Unauthorized ''Missing refresh_token or Bearer authorization header''), s)))"

definition me ::
  "telegram_profile option \<Rightarrow> instant \<Rightarrow> authed_user \<Rightarrow> 'c auth_server \<Rightarrow>
   (server_error + user_dto \<times> user_session_row list) \<times> 'c auth_server" where
  "me telegram_user now user s =
     (case list_active_sessions (au_telegram_id user) now (as_db s) of
        (Inl e, db) \<Rightarrow> (Inl (Internal (db_error_text e)), s\<lparr>as_db := db\<rparr>)
      | (Inr sessions, db) \<Rightarrow>
          let (dto, s1) = load_user_profile telegram_user (au_telegram_id user) (s\<lparr>as_db := db\<rparr>)
          in (Inr (dto, sessions), s1))"

section \<open>What the gate relies on\<close>

text \<open>
  The documented behaviour of the cache, against a view of what was inserted when: a lookup returns
  only an entry in its view that is younger than the time to live; insertion, removal and
  invalidation change the view as expected, and any entry may be evicted at any time.
\<close>

definition token_cache_sound :: "'c token_cache_ops \<Rightarrow> ('c \<Rightarrow> string \<Rightarrow> (authed_user \<times> instant) option) \<Rightarrow> bool" where
  "token_cache_sound ops view \<longleftrightarrow>
     (\<forall>c now k u. tc_get ops c now k = Some u \<longrightarrow> (\<exists>t. view c k = Some (u, t) \<and> now < t + TOKEN_CACHE_TTL)) \<and>
     (\<forall>c t k u j. view (tc_insert ops t k u c) j = None \<or> view (tc_insert ops t k u c) j = ((view c)(k \<mapsto> (u, t))) j) \<and>
     (\<forall>c k j. view (tc_remove ops k c) j = None \<or> view (tc_remove ops k c) j = ((view c)(k := None)) j) \<and>
     (\<forall>c j. view (tc_invalidate_all ops c) j = None)"

section \<open>Runs of the gate\<close>

text \<open>
  Requests and handlers in any order, with arbitrary other changes of the database between them. A
  run keeps the successful verifications: the token, the user, the instant of the verification, the
  instant of the entry in the cache and the database it looked at.
\<close>

datatype gate_event =
  EvRequest instant instant "string option"
| EvExchange bytes string "telegram_profile option" "string option" instant instant exchange_request
| EvRefresh instant instant token_request
| EvLogout instant instant "string option" token_request
| EvDatabase auth_db

record verification =
  vf_token :: string
  vf_user :: authed_user
  vf_verified_at :: instant
  vf_cached_at :: instant
  vf_db :: auth_db

definition verification_of :: "(string \<Rightarrow> bytes) \<Rightarrow> i64 \<Rightarrow> instant \<Rightarrow> instant \<Rightarrow> string \<Rightarrow> auth_db \<Rightarrow> verification list" where
  "verification_of sha admin now now2 token db =
     (case fst (verify_and_slide sha admin token now now2 db) of
        Inl _ \<Rightarrow> []
      | Inr i \<Rightarrow> [\<lparr>vf_token = token, vf_user = \<lparr>au_telegram_id = si_telegram_id i, au_session_id = si_session_id i\<rparr>,
                   vf_verified_at = now, vf_cached_at = now2, vf_db = db\<rparr>])"

definition request_verification ::
  "'c token_cache_ops \<Rightarrow> (string \<Rightarrow> bytes) \<Rightarrow> i64 \<Rightarrow> instant \<Rightarrow> instant \<Rightarrow> string option \<Rightarrow> 'c auth_server \<Rightarrow> verification list" where
  "request_verification ops sha admin now now2 h s =
     (case bearer_token h of
        Inl _ \<Rightarrow> []
      | Inr token \<Rightarrow> if tc_get ops (as_cache s) now token \<noteq> None then [] else verification_of sha admin now now2 token (as_db s))"

fun gate_step ::
  "'c token_cache_ops \<Rightarrow> (string \<Rightarrow> string) \<Rightarrow> (string \<Rightarrow> bytes) \<Rightarrow> i64 \<Rightarrow> 'c auth_server \<times> verification list \<Rightarrow> gate_event \<Rightarrow>
   'c auth_server \<times> verification list" where
  "gate_step ops up sha admin (s, vs) (EvRequest now now2 h) =
     (snd (from_request_parts ops sha admin now now2 h s), vs @ request_verification ops sha admin now now2 h s)"
| "gate_step ops up sha admin (s, vs) (EvExchange tok sid tg url now now2 q) =
     (let s' = snd (exchange ops up sha admin tok sid tg url now now2 q s)
      in (s', vs @ (case exchange_code up sha admin (er_code q) (er_metadata q) tok sid now now2 (as_db s) of
            (Inl _, _) \<Rightarrow> []
          | (Inr t, db) \<Rightarrow> [\<lparr>vf_token = st_refresh_token t,
              vf_user = \<lparr>au_telegram_id = st_telegram_id t, au_session_id = st_session_id t\<rparr>,
              vf_verified_at = now2, vf_cached_at = now2, vf_db = db\<rparr>])))"
| "gate_step ops up sha admin (s, vs) (EvRefresh now now2 q) =
     (snd (refresh ops sha admin now now2 q s),
      vs @ (case requested_token q of None \<Rightarrow> [] | Some token \<Rightarrow> verification_of sha admin now now2 token (as_db s)))"
| "gate_step ops up sha admin (s, vs) (EvLogout now now2 h q) =
     (snd (logout ops sha admin now now2 h q s), vs @ request_verification ops sha admin now now2 h s)"
| "gate_step ops up sha admin (s, vs) (EvDatabase db) = (s\<lparr>as_db := db\<rparr>, vs)"

section \<open>Only verified tokens pass\<close>

definition verification_ok :: "(string \<Rightarrow> bytes) \<Rightarrow> i64 \<Rightarrow> verification \<Rightarrow> bool" where
  "verification_ok sha admin v \<longleftrightarrow>
     session_live sha admin (vf_verified_at v) (vf_db v) (vf_token v) (au_telegram_id (vf_user v)) (au_session_id (vf_user v))"

definition gate_inv ::
  "('c \<Rightarrow> string \<Rightarrow> (authed_user \<times> instant) option) \<Rightarrow> (string \<Rightarrow> bytes) \<Rightarrow> i64 \<Rightarrow> 'c auth_server \<times> verification list \<Rightarrow> bool" where
  "gate_inv view sha admin w \<longleftrightarrow>
     (\<forall>k u t. view (as_cache (fst w)) k = Some (u, t) \<longrightarrow>
        (\<exists>v \<in> set (snd w). vf_token v = k \<and> vf_user v = u \<and> vf_cached_at v = t)) \<and>
     (\<forall>v \<in> set (snd w). verification_ok sha admin v)"

lemma slide_live:
  assumes "verify_and_slide sha admin token now now2 db = (Inr i, db')"
  shows "session_live sha admin now db token (si_telegram_id i) (si_session_id i)"
proof -
  from assms obtain q1 q2 r where q1: "db_call DbPool db = (Inr (), q1)"
    and r: "verify_session_record sha admin token now True q1 = (Inr r, q2)"
    and i: "si_telegram_id i = us_telegram_id r" "si_session_id i = us_id r"
    by (auto simp: verify_and_slide_def rs_bind_Inr connection_def Let_def)
  from db_call_Inr [OF q1] verify_record_Inr [OF r] i show ?thesis
    by (auto simp: session_live_def same_tables_def user_exists_def)
qed

lemma hex_lower_plain: "d < 16 \<Longrightarrow> hex_lower d \<notin> whitespace_bytes"
  using whitespace_bytes_code [of "hex_lower d"] by (auto simp: hex_lower_def of_char_of)

lemma hex_digest_plain: "c \<in> set (hex_digest bs) \<Longrightarrow> c \<notin> whitespace_bytes"
proof -
  assume "c \<in> set (hex_digest bs)"
  then obtain b :: u8 where "c = hex_lower (unat b div 16) \<or> c = hex_lower (unat b mod 16)"
    by (auto simp: hex_digest_def)
  moreover have "unat b < 256" using unsigned_less [of b, where 'a = nat] by simp
  then have "unat b div 16 < 16" by (simp add: less_mult_imp_div_less)
  ultimately show ?thesis using hex_lower_plain by force
qed

lemma trim_hex_digest [simp]: "trim (hex_digest bs) = hex_digest bs"
  by (rule trim_idle) (auto dest: hex_digest_plain hd_in_set last_in_set)

lemma exchange_live:
  assumes "exchange_code up sha admin code md tok sid now now2 db = (Inr t, db')"
  shows "session_live sha admin now2 db' (st_refresh_token t) (st_telegram_id t) (st_session_id t)"
proof -
  from assms obtain otp db1 where "exchange_finish up sha code md tok sid now2 otp db1 = (Inr t, db')"
    by (auto simp: exchange_code_def rs_bind_Inr)
  then show ?thesis
    by (auto simp: exchange_finish_def delete_codes_def insert_session_def rs_bind_Inr Let_def same_tables_def
        session_live_def user_exists_def from_secs_def split: if_splits dest!: db_call_Inr)
qed

lemma load_user_profile_cache [simp]: "as_cache (snd (load_user_profile tg tid s)) = as_cache s"
  by (auto simp: load_user_profile_def Let_def split: prod.splits option.splits)

lemma cache_soundD:
  assumes "token_cache_sound ops view"
  shows "tc_get ops c now k = Some u \<Longrightarrow> \<exists>t. view c k = Some (u, t) \<and> now < t + TOKEN_CACHE_TTL"
    and "view (tc_insert ops t k u c) j = Some x \<Longrightarrow> j = k \<and> x = (u, t) \<or> view c j = Some x"
    and "view (tc_remove ops k c) j = Some x \<Longrightarrow> view c j = Some x"
    and "view (tc_invalidate_all ops c) j = None"
proof -
  note S = assms [unfolded token_cache_sound_def]
  show "tc_get ops c now k = Some u \<Longrightarrow> \<exists>t. view c k = Some (u, t) \<and> now < t + TOKEN_CACHE_TTL"
    and "view (tc_invalidate_all ops c) j = None" using S by blast+
  have "view (tc_insert ops t k u c) j = None \<or> view (tc_insert ops t k u c) j = ((view c)(k \<mapsto> (u, t))) j"
    and "view (tc_remove ops k c) j = None \<or> view (tc_remove ops k c) j = ((view c)(k := None)) j" using S by blast+
  then show "view (tc_insert ops t k u c) j = Some x \<Longrightarrow> j = k \<and> x = (u, t) \<or> view c j = Some x"
    and "view (tc_remove ops k c) j = Some x \<Longrightarrow> view c j = Some x" by (auto split: if_splits)
qed

lemma gate_inv_cache:
  assumes "gate_inv view sha admin (s, vs)"
    and "\<And>j x. view (as_cache s') j = Some x \<Longrightarrow> view (as_cache s) j = Some x"
  shows "gate_inv view sha admin (s', vs)"
  using assms by (auto simp: gate_inv_def)

lemma gate_inv_insert:
  assumes sound: "token_cache_sound ops view" and inv: "gate_inv view sha admin (s, vs)"
    and ok: "verification_ok sha admin v"
    and cache: "as_cache s' = tc_insert ops (vf_cached_at v) (vf_token v) (vf_user v) (as_cache s)"
  shows "gate_inv view sha admin (s', vs @ [v])"
  using inv ok cache by (fastforce simp: gate_inv_def dest: cache_soundD(2) [OF sound])

lemma verify_token_inv:
  assumes "token_cache_sound ops view" "gate_inv view sha admin (s, vs)"
  shows "gate_inv view sha admin (snd (verify_token ops sha admin now now2 token s),
      vs @ verification_of sha admin now now2 token (as_db s))"
proof -
  obtain r db where v: "verify_and_slide sha admin token now now2 (as_db s) = (r, db)" by force
  show ?thesis
  proof (cases r)
    case (Inl e)
    with v assms(2) show ?thesis
      by (auto simp: verify_token_def verification_of_def gate_inv_def)
  next
    case (Inr i)
    let ?v = "\<lparr>vf_token = token, vf_user = \<lparr>au_telegram_id = si_telegram_id i, au_session_id = si_session_id i\<rparr>,
      vf_verified_at = now, vf_cached_at = now2, vf_db = as_db s\<rparr>"
    have "verification_ok sha admin ?v" using v Inr by (simp add: verification_ok_def slide_live)
    then have "gate_inv view sha admin (snd (verify_token ops sha admin now now2 token s), vs @ [?v])"
      by (rule gate_inv_insert [OF assms]) (simp add: verify_token_def v Inr Let_def)
    with v Inr show ?thesis by (simp add: verification_of_def)
  qed
qed

lemma request_inv:
  assumes "token_cache_sound ops view" "gate_inv view sha admin (s, vs)"
  shows "gate_inv view sha admin (snd (from_request_parts ops sha admin now now2 h s),
      vs @ request_verification ops sha admin now now2 h s)"
  using assms verify_token_inv [OF assms]
  by (auto simp: from_request_parts_def request_verification_def split: sum.splits option.splits)

lemma logout_inv:
  assumes "token_cache_sound ops view" "gate_inv view sha admin (s, vs)"
  shows "gate_inv view sha admin (snd (logout ops sha admin now now2 h q s),
      vs @ request_verification ops sha admin now now2 h s)"
proof -
  obtain m s1 where m: "maybe_authed ops sha admin now now2 h s = (m, s1)" by force
  then have s1: "s1 = snd (from_request_parts ops sha admin now now2 h s)" by (metis maybe_authed_def snd_apfst snd_conv)
  have inv: "gate_inv view sha admin (s1, vs @ request_verification ops sha admin now now2 h s)"
    unfolding s1 by (rule request_inv [OF assms])
  show ?thesis
    by (rule gate_inv_cache [OF inv])
      (auto simp: logout_def m cache_soundD(4) [OF assms(1)] split: option.splits dest: cache_soundD(3) [OF assms(1)])
qed

lemma exchange_inv:
  assumes "token_cache_sound ops view" "gate_inv view sha admin (s, vs)"
  shows "gate_inv view sha admin (gate_step ops up sha admin (s, vs) (EvExchange tok sid tg url now now2 q))"
proof -
  obtain r db where e: "exchange_code up sha admin (er_code q) (er_metadata q) tok sid now now2 (as_db s) = (r, db)" by force
  show ?thesis
  proof (cases r)
    case (Inl x)
    with e assms(2) show ?thesis by (auto simp: exchange_def gate_inv_def)
  next
    case (Inr t)
    let ?v = "\<lparr>vf_token = st_refresh_token t, vf_user = \<lparr>au_telegram_id = st_telegram_id t, au_session_id = st_session_id t\<rparr>,
      vf_verified_at = now2, vf_cached_at = now2, vf_db = db\<rparr>"
    have "verification_ok sha admin ?v" using e Inr by (simp add: verification_ok_def exchange_live)
    then have "gate_inv view sha admin (snd (exchange ops up sha admin tok sid tg url now now2 q s), vs @ [?v])"
      by (rule gate_inv_insert [OF assms]) (simp add: exchange_def e Inr Let_def case_prod_beta)
    with e Inr show ?thesis by simp
  qed
qed

lemma gate_step_inv:
  assumes "token_cache_sound ops view" "gate_inv view sha admin w"
  shows "gate_inv view sha admin (gate_step ops up sha admin w e)"
proof -
  obtain s vs where w: "w = (s, vs)" by force
  with assms have inv: "gate_inv view sha admin (s, vs)" by simp
  show ?thesis
  proof (cases e)
    case (EvRequest now now2 h)
    then show ?thesis using request_inv [OF assms(1) inv] w by simp
  next
    case (EvExchange tok sid tg url now now2 q)
    then show ?thesis using exchange_inv [OF assms(1) inv] w by simp
  next
    case (EvRefresh now now2 q)
    then show ?thesis using verify_token_inv [OF assms(1) inv] inv w
      by (auto simp: refresh_def split: option.splits)
  next
    case (EvLogout now now2 h q)
    then show ?thesis using logout_inv [OF assms(1) inv] w by simp
  next
    case (EvDatabase db)
    then show ?thesis using inv w by (auto simp: gate_inv_def)
  qed
qed

text \<open>
  C12: Only verified tokens pass. After any sequence of requests, exchanges, refreshes and logouts, with
  arbitrary changes of the database between them, a request is accepted as a user only if its token
  belongs to a live session of that user in the database now, or did at a verification whose cache entry is
  younger than a minute.
\<close>

theorem accepted_tokens_verified:
  assumes sound: "token_cache_sound ops view" and empty: "\<forall>k. view c0 k = None"
    and run: "foldl (gate_step ops up sha admin) (\<lparr>as_db = db0, as_cache = c0\<rparr>, []) events = (s, vs)"
    and accepted: "fst (from_request_parts ops sha admin now now2 h s) = Inr user" and token: "bearer_token h = Inr token"
  shows "session_live sha admin now (as_db s) token (au_telegram_id user) (au_session_id user) \<or>
    (\<exists>v \<in> set vs. vf_token v = token \<and> vf_user v = user \<and> now < vf_cached_at v + TOKEN_CACHE_TTL \<and>
       session_live sha admin (vf_verified_at v) (vf_db v) token (au_telegram_id user) (au_session_id user))"
proof -
  have "gate_inv view sha admin (foldl (gate_step ops up sha admin) (\<lparr>as_db = db0, as_cache = c0\<rparr>, []) es)" for es
  proof (induction es rule: rev_induct)
    case Nil
    show ?case using empty by (simp add: gate_inv_def)
  qed (simp add: gate_step_inv [OF sound])
  with run have inv: "gate_inv view sha admin (s, vs)" by metis
  show ?thesis
  proof (cases "tc_get ops (as_cache s) now token")
    case (Some u)
    with accepted token have "u = user" by (simp add: from_request_parts_def)
    with cache_soundD(1) [OF sound Some] inv show ?thesis
      by (fastforce simp: gate_inv_def verification_ok_def)
  next
    case None
    obtain r db where v: "verify_and_slide sha admin token now now2 (as_db s) = (r, db)" by force
    with None accepted token obtain i where "r = Inr i" "user = \<lparr>au_telegram_id = si_telegram_id i, au_session_id = si_session_id i\<rparr>"
      by (cases r) (auto simp: from_request_parts_def verify_token_def Let_def)
    with v show ?thesis by (auto dest: slide_live)
  qed
qed

section \<open>A small run\<close>

text \<open>A cache that never evicts before the time to live ends.\<close>

definition list_cache_ops :: "(string \<times> authed_user \<times> instant) list token_cache_ops" where
  "list_cache_ops =
     \<lparr>tc_get = (\<lambda>c now k. case map_of c k of Some (u, t) \<Rightarrow> if now < t + TOKEN_CACHE_TTL then Some u else None | None \<Rightarrow> None),
      tc_insert = (\<lambda>t k u c. (k, u, t) # c), tc_remove = (\<lambda>k c. filter (\<lambda>e. fst e \<noteq> k) c),
      tc_invalidate_all = (\<lambda>_. [])\<rparr>"

lemma list_cache_sound: "token_cache_sound list_cache_ops map_of"
proof -
  have "map_of (filter (\<lambda>e. fst e \<noteq> k) c) = (map_of c)(k := None)" for k and c :: "(string \<times> authed_user \<times> instant) list"
    by (induction c) auto
  then show ?thesis
    by (auto simp: token_cache_sound_def list_cache_ops_def split: option.splits if_splits)
qed

lemma demo_tokens:
  "trim ''tok'' = ''tok''" "trim '' tok'' = ''tok''" "bearer_token (Some ''Bearer tok'') = Inr ''tok''"
  by code_simp+

definition demo_server :: "(string \<times> authed_user \<times> instant) list auth_server" where
  "demo_server = \<lparr>as_db = demo_db, as_cache = []\<rparr>"

definition demo_user :: authed_user where
  "demo_user = \<lparr>au_telegram_id = 7, au_session_id = ''s1''\<rparr>"

definition demo_after_login :: "(string \<times> authed_user \<times> instant) list auth_server" where
  "demo_after_login =
     \<lparr>as_db = demo_db\<lparr>ad_sessions := [demo_row\<lparr>us_last_active_at := 5, us_expires_at := 5 + from_secs (3 * 24 * 60 * 60)\<rparr>]\<rparr>,
      as_cache = [(''tok'', demo_user, 5)]\<rparr>"

lemmas gate_eval = from_request_parts_def verify_token_def verify_and_slide_def verify_session_record_def db_eval
  from_option_def list_cache_ops_def demo_tokens demo_user_def user_exists_def

lemma demo_login:
  "from_request_parts list_cache_ops (map of_char) 1 5 5 (Some ''Bearer tok'') demo_server = (Inr demo_user, demo_after_login)"
  by (simp add: gate_eval demo_server_def demo_db_def demo_row_def demo_after_login_def)

lemma accepted_tokens_verified_witness:
  "session_live (map of_char) 1 5 demo_db ''tok'' 7 ''s1'' \<or>
   (\<exists>v \<in> set ([] :: verification list). vf_token v = ''tok'' \<and> vf_user v = demo_user \<and> 5 < vf_cached_at v + TOKEN_CACHE_TTL \<and>
      session_live (map of_char) 1 (vf_verified_at v) (vf_db v) ''tok'' 7 ''s1'')"
  using accepted_tokens_verified [OF list_cache_sound, where events = "[]" and ?c0.0 = "[]" and ?db0.0 = demo_db and up = id
      and sha = "map of_char" and admin = 1 and now = 5 and ?now2.0 = 5 and h = "Some ''Bearer tok''" and user = demo_user
      and token = "''tok''" and s = demo_server and vs = "[]"]
    demo_login demo_tokens by (simp add: demo_server_def demo_user_def)

text \<open>
  A logout that names the token with surrounding blanks revokes the session, which is looked up by
  the trimmed token, but removes nothing from the cache, which is keyed by the token as it was sent;
  the token keeps passing until the cache entry ages out.
\<close>

lemma logout_leaves_token_cached:
  "\<exists>s. logout list_cache_ops (map of_char) 1 6 6 None \<lparr>tq_token = None, tq_refresh_token = Some '' tok''\<rparr> demo_after_login = (Inr (), s) \<and>
     fst (from_request_parts list_cache_ops (map of_char) 1 7 7 (Some ''Bearer tok'') s) = Inr demo_user \<and>
     (\<exists>e. fst (verify_session (map of_char) 1 ''tok'' 7 (as_db s)) = Inl e)"
proof -
  define db where "db = (as_db demo_after_login)\<lparr>ad_sessions := map (\<lambda>r. r\<lparr>us_revoked := True\<rparr>) (ad_sessions (as_db demo_after_login))\<rparr>"
  define s where "s = \<lparr>as_db = db, as_cache = as_cache demo_after_login\<rparr>"
  have "revoke_token (map of_char) '' tok'' (as_db demo_after_login) = (Inr True, db)"
    by (simp add: revoke_token_def db_eval db_def demo_after_login_def demo_db_def demo_row_def demo_tokens)
  then have "logout list_cache_ops (map of_char) 1 6 6 None \<lparr>tq_token = None, tq_refresh_token = Some '' tok''\<rparr> demo_after_login = (Inr (), s)"
    by (simp add: logout_def maybe_authed_def from_request_parts_def bearer_token_def requested_token_def s_def
        list_cache_ops_def demo_after_login_def)
  moreover have "fst (from_request_parts list_cache_ops (map of_char) 1 7 7 (Some ''Bearer tok'') s) = Inr demo_user"
    by (simp add: from_request_parts_def demo_tokens list_cache_ops_def s_def demo_after_login_def TOKEN_CACHE_TTL_def from_secs_def)
  moreover have "fst (verify_session (map of_char) 1 ''tok'' 7 (as_db s)) = Inl (DbUnauthorized ''Invalid or revoked session'')"
    by (simp add: verify_session_def verify_session_record_def s_def db_def demo_after_login_def demo_db_def db_eval from_option_def)
  ultimately show ?thesis by blast
qed

end
