(* ===== verification/Spec2Isabelle.thy ===== *)
theory Spec2Isabelle
  imports Stream_Service Queue_Safety Playback_Sync Orchestrator_Safety Zip_Archive
    Job_Helpers Mp4_Fragments Box_Strip Track_Sequencer Job_Run_Safety Dispatch Upload_Barrier Library_Store Playlist_Store
    Mirror_Policy Pending Telegram_Retry Bot_Settings Auth_Gate
begin

text \<open>
  \<^bold>\<open>A verification library of the peerless server\<close>, a music server that streams a library
  stored in Telegram, rips new music into it, and keeps the playback of a user's devices in step.
  Everything under \<open>src/crates\<close> is Rust. Pure functions are HOL functions; critical sections and
  message handlers are functions on records of the shared state; interleavings are sequences of events
  or an inductive step relation; errors are values of sum types; machine integers are words, or
  naturals with the checked, saturating or wrapping operation written out. Third-party crates, the
  network, the file system, the clock and the database engine are arguments of the definitions that use
  them, and what a theorem needs of them is a named hypothesis with a concrete instance in its
  witness.

  \<^bold>\<open>The parts and the theories that model them\<close>

  \<^item> \<open>Prelude\<close>, \<open>Unicode_Text\<close>, \<open>Result_State\<close>: the standard library the code calls (integers, durations, trimming and
    parsing, hash maps; strings as scalar values with their UTF-8 and UTF-16 lengths), the locales
    \<open>key_value_store\<close> and \<open>event_machine\<close> that several components interpret, and the monad of stateful code that stops at
    the first error with its weakest preconditions.
  \<^item> Streaming (\<open>crates/stream\<close>): \<open>Retry\<close> (also \<open>crates/core/src/retry.rs\<close>), \<open>Circuit_Breaker\<close>,
    \<open>Stream_Metrics\<close>, \<open>Chunk_Cache\<close>, \<open>Byte_Range\<close>, \<open>Worker_Pool\<close> and \<open>Chunk_Fetch\<close> (the pool of Telegram
    workers and the retry loop of one chunk), \<open>Stream_Pipe\<close> (the prefetching body), \<open>Stream_Engine\<close>
    (metadata, refresh of stale references, the chunk future). \<open>Fetch_Safety\<close>, \<open>Worker_Dispatch\<close> and
    \<open>Stream_Service\<close> hold the properties. A client calls \<open>open_stream\<close>, which prepares the range, starts
    the pipe, and the pipe asks the cache, which asks the pool. The pipe relies on its source through
    the locales \<open>chunk_source\<close> and \<open>live_chunk_source\<close>, interpreted on the engine's chunk future.
  \<^item> Starting and queueing jobs (\<open>crates/engine\<close>): \<open>Rip_Priority\<close> and \<open>Rip_Queue\<close> with \<open>Queue_Safety\<close> (the sequential queue
    and its worker as interleaved critical sections), \<open>Orchestrator\<close> with \<open>Orchestrator_Safety\<close> (\<open>start_task\<close>, \<open>terminalize\<close>
    and \<open>cancel_task\<close> as interleaved critical sections, the table of running targets; an inductive step relation).
  \<^item> Inside a job (\<open>crates/engine/src/orchestrator\<close>): \<open>Job_World\<close> is the state the parts of a job share, its event bus and its
    dependencies, whose answers are the environment; \<open>Job_Run\<close> is \<open>run_job\<close> (resolution of the targets, cache lookups,
    archive reuse, direct delivery, the handover to the queue), \<open>Rip_Lane\<close> the rip and cached lanes, \<open>Upload_Lane\<close> the upload
    lane, \<open>Dispatch\<close> the bounded channel and buffer between them, \<open>Track_Sequencer\<close> the delivery in track order,
    \<open>Upload_Barrier\<close> the wait of the finalisation for the uploads, \<open>Finalize\<close> the archives, their publication and the summary.
    \<open>Job_Run_Safety\<close> holds the properties of the body. \<open>Job_Helpers\<close> (captions, storage retries, the archive workspace),
    \<open>Filename\<close>, \<open>Zip_Plan\<close> and \<open>Zip_Archive\<close> (names of files and archives, the split into parts, the writing of one part
    with every file-system call able to fail) and \<open>Music\<close> (codecs, renditions, URL encoding) serve them.
  \<^item> Server (\<open>crates/server\<close>): \<open>Lookup\<close>, \<open>Task_Model\<close>, \<open>Task_Registry\<close>, \<open>Task_Rpc\<close> (creation and
    cancellation of rip tasks over the registry, whose interface is the locale \<open>task_store\<close>),
    \<open>Playback_Sync\<close> (rooms, devices and socket messages as events on a world of connections) and \<open>Auth_Gate\<close> (bearer
    authentication over the accounts and a token cache).
  \<^item> Database (\<open>crates/db\<close>), statement by statement over tables with their keys: \<open>Session_Store\<close> (accounts, login codes and
    sessions, \<open>session.rs\<close> and \<open>auth.rs\<close>),
    \<open>Library_Store\<close> (the tables of cached tracks and archives, \<open>crates/db/src/tracks.rs\<close>, \<open>albums.rs\<close> and the adapter
    \<open>crates/bot/src/rip_deps.rs\<close>),
    \<open>Playlist_Store\<close> (\<open>crates/db/src/playlists.rs\<close> and the endpoints of \<open>crates/server/src/playlists.rs\<close>).
  \<^item> Media: \<open>Mp4_Fragments\<close> (\<open>crates/media/src/fragmented.rs\<close>), \<open>Box_Bytes\<close>, \<open>Mp4_Boxes\<close>, \<open>Fragment_Layout\<close> and \<open>Box_Strip\<close>
    (the box scanner, the normalisation of decode times and the removal of protection boxes in
    \<open>crates/apple/src/wrapper/decryptor.rs\<close> and \<open>cenc.rs\<close>).
  \<^item> Around them: \<open>Mirror_Policy\<close> (\<open>crates/apple/src/mirror_policy.rs\<close>), \<open>Pending\<close> and \<open>Telegram_Retry\<close> (\<open>crates/bot\<close>),
    \<open>Bot_Settings\<close> (\<open>crates/core/src/settings.rs\<close>).

  \<^bold>\<open>What is shown\<close>

  \<^item> A stream delivers exactly the requested bytes of the document, in order, and ends early only with an
    error; when Telegram answers and the client keeps reading it delivers all of them. A chunk
    fetch ends within its budget of attempts and time, gives back every slot it took and never
    invents bytes. Dispatch picks a least-loaded available worker and goes round equally loaded ones in turn; two uploads
    never share a worker.
  \<^item> Every job announces one outcome; a cancellation that comes before the outcome is recorded decides it, also between the
    critical sections of the end; the table of running targets has no stale entry. Two races of the table are shown by
    reachable states: two jobs for one target can both run, and a duplicate can miss its wake-up.
  \<^item> The queue runs one task at a time, loses none, drains, starves none, and tells waiting tasks their
    positions. The registry holds one task for a target, and only its owner or an administrator cancels it.
  \<^item> A job works on every resolved track once; a direct delivery counts what it copied; an archive is reused only when it is
    the complete current one. Tracks reach the lanes and the chat in order; each upload and each cached track is accounted for in
    the counters; the finalisation waits for all uploads; and every archive message is recorded, removed or its removal
    was requested when the job ends.
  \<^item> A track that was saved is found by the next lookup; replacing an archive is a compare-and-swap of its rows.
  \<^item> Nobody has more than seven playlists of their own and no playlist more than a thousand tracks, whatever requests
    run at the same time.
  \<^item> Rooms stay consistent, only the active device changes the playback state, and a disconnection removes exactly its device.
  \<^item> A request is accepted only for a token whose session is live, or was when it entered the cache
    less than a minute ago; a session grants exactly what its row says, and nothing after its
    revocation; a login code is single-use for one client at a time, and the tables keep their keys
    under every interleaving and fault. Two overlapping exchanges of one code are shown to succeed.
  \<^item> An archive is written completely or not at all; a plan holds all tracks in order, its parts within the
    size limit (except for a first track beside a cover, which is shown to exceed it) and full; every built
    file name is one path component within its bound and every entry name passes the validation.
  \<^item> Stamping a duration changes only the two duration fields; the box scanner of the media crate terminates on any
    bytes and inverts the encoding; the protection boxes of a well-formed fragment are removed with the sizes and
    offsets adjusted, and decode times are lowered by the first one. Confirmations are handed out once and only in their window;
    mirror answers are remembered for their time; Telegram waits are bounded.

  \<^bold>\<open>Bounds and fuel.\<close> No definition takes fuel: the loops of the code are functions with termination
  measures (the rest of the deadline and the attempts of a fetch, the chunks left of a range, the bytes left of
  a file, the attempts left of a retry). The interleaved components quantify over all finite event
  sequences. Token and counter wrap-around is part of the state where the code has it; a theorem that
  needs fewer than \<open>2 ^ 64\<close> events says so. In the Apple fragments a run in which the end of a box passes \<open>2 ^ 64\<close> is
  followed up to that point only.

  \<^bold>\<open>Not modelled.\<close> The ripper and the media tools it drives, the Apple catalogue, licence and wrapper clients with their
  cryptography, the playlist parser of the wrapper, the remaining repositories (settings, the dump), the bot's
  handlers, dashboards and messages, and the routing and documentation of the HTTP server are input and output through external
  crates. A call that a cancellation drops unanswered is taken to have had no effect. Floating-point
  values (the jitter multiplier, percentages, the quotient of ticks and timescale) are kept as the integers they
  are computed from or as opaque values.
\<close>

end
